(* ===== verification/Vamoose_Prelude.thy ===== *)
theory Vamoose_Prelude
  imports Main "HOL-Library.AList"
begin

text \<open>
  Vocabulary shared by every component of the model: Go errors and their wrapping, results of
  fallible functions, files whose content may be absent or unreadable, and the generic lemmas on
  lists and options that the component theories reuse. The text functions of the standard library
  are in \<open>Go_Strings\<close>, its clock and calendar in \<open>Go_Time\<close>.
\<close>

section \<open>Errors\<close>

text \<open>
  A Go error is a sentinel (a package-level variable compared by identity) or a formatted error
  that may wrap others with the \<open>%w\<close> verb. \<open>errors_is\<close> is \<open>errors.Is\<close>.
\<close>

datatype error = Sentinel string | Errorf string "error list"

fun errors_is :: "error \<Rightarrow> error \<Rightarrow> bool" where
  "errors_is (Sentinel s) t = (Sentinel s = t)"
| "errors_is (Errorf m es) t = (Errorf m es = t \<or> list_ex (\<lambda>e. errors_is e t) es)"

type_synonym 'a result = "error + 'a"

text \<open>
  A run of guarded early returns: the first condition that holds decides which error is returned.
\<close>

fun first_error :: "(bool \<times> error) list \<Rightarrow> error option" where
  "first_error [] = None"
| "first_error ((c, e) # rest) = (if c then Some e else first_error rest)"

named_theorems check_simps \<open>turn a run of guarded returns into the conjunction of its negated guards\<close>

lemma first_error_None [check_simps]:
  "first_error cs = None \<longleftrightarrow> (\<forall>(c, e) \<in> set cs. \<not> c)"
  by (induction cs rule: first_error.induct) auto

lemma first_error_Cons [check_simps]:
  "first_error ((c, e) # rest) = None \<longleftrightarrow> \<not> c \<and> first_error rest = None"
  by simp

lemma first_error_append:
  "first_error (xs @ ys) = (case first_error xs of None \<Rightarrow> first_error ys | Some e \<Rightarrow> Some e)"
  by (induction xs rule: first_error.induct) auto

lemma first_error_all: "list_all (\<lambda>(c, e). P e) cs \<Longrightarrow> first_error cs = Some x \<Longrightarrow> P x"
  by (induction cs rule: first_error.induct) (auto split: if_splits)

lemma first_error_Some_mem: "first_error cs = Some e \<Longrightarrow> \<exists>c. (c, e) \<in> set cs \<and> c"
  by (induction cs rule: first_error.induct) (auto split: if_splits)

section \<open>Files\<close>

text \<open>
  A JSON file of the configuration directory: absent, present but unreadable or not decodable
  (reading it is an error), or holding a decoded value. Writes are atomic
  (\<open>internal/util/atomicfile.go\<close>: temporary file, sync, rename), so a file never holds part of
  a value.
\<close>

datatype 'a stored = Absent | Corrupt error | Content 'a

fun read_file :: "'a \<Rightarrow> 'a stored \<Rightarrow> 'a result" where
  "read_file zero Absent = Inr zero"
| "read_file zero (Corrupt e) = Inl e"
| "read_file zero (Content x) = Inr x"

lemma read_file_Inl: "read_file z f = Inl e \<longleftrightarrow> f = Corrupt e"
  by (cases f) auto

section \<open>String enumerations\<close>

text \<open>
  A Go string enum (\<open>type ShowAs string\<close> with named constants) is a datatype with one constructor
  per constant and one for every other string. The contract: reading a string and naming the result
  gives the string back, so comparing the values is comparing the strings.
\<close>

locale text_enum =
  fixes nm :: "'e \<Rightarrow> string" and rd :: "string \<Rightarrow> 'e"
  assumes nm_rd: "nm (rd s) = s"
begin

lemma rd_eq_iff: "rd s = rd t \<longleftrightarrow> s = t"
  by (metis nm_rd)

lemma rd_nm: "x \<in> range rd \<Longrightarrow> rd (nm x) = x"
  by (auto simp: nm_rd)

end

section \<open>Lists and options\<close>

named_theorems list_search \<open>facts on searching a list for its first match\<close>

lemma find_append [list_search]:
  "find P (xs @ ys) = (case find P xs of None \<Rightarrow> find P ys | Some x \<Rightarrow> Some x)"
  by (induction xs) auto

lemma find_map [list_search]: "find P (map f xs) = map_option f (find (\<lambda>x. P (f x)) xs)"
  by (induction xs) auto

lemma find_Some_memD: "find P xs = Some x \<Longrightarrow> x \<in> set xs \<and> P x"
  by (induction xs) (auto split: if_splits)

lemma find_None_iff_all: "find P xs = None \<longleftrightarrow> (\<forall>x \<in> set xs. \<not> P x)"
  by (induction xs) auto

lemma find_filter_cong:
  assumes "\<And>x. x \<in> set xs \<Longrightarrow> P x \<Longrightarrow> Q x"
  shows "find P (filter Q xs) = find P xs"
  using assms by (induction xs) auto

lemma find_filter_none:
  assumes "\<And>x. x \<in> set xs \<Longrightarrow> Q x \<Longrightarrow> \<not> P x"
  shows "find P (filter Q xs) = None"
  using assms by (auto simp: find_None_iff_all)

lemma distinct_map_filterI: "distinct (map f xs) \<Longrightarrow> distinct (map f (filter P xs))"
  by (induction xs) auto

lemma distinct_filter_nth:
  "distinct (filter P xs) \<longleftrightarrow> (\<forall>k < length xs. P (xs ! k) \<longrightarrow> xs ! k \<notin> set (take k xs))"
proof (induction xs rule: rev_induct)
  case (snoc x xs)
  then show ?case by (auto simp: nth_append less_Suc_eq)
qed simp

definition first_index :: "('a \<Rightarrow> bool) \<Rightarrow> 'a list \<Rightarrow> nat" where
  "first_index P xs = length (takeWhile (\<lambda>x. \<not> P x) xs)"

lemma first_index_found:
  assumes "\<exists>x \<in> set xs. P x"
  shows "first_index P xs < length xs" and "P (xs ! first_index P xs)"
proof -
  show "first_index P xs < length xs"
    unfolding first_index_def using assms by (induction xs) auto
  then show "P (xs ! first_index P xs)"
    unfolding first_index_def using nth_length_takeWhile by blast
qed

lemma first_index_before: "k < first_index P xs \<Longrightarrow> \<not> P (xs ! k)"
  unfolding first_index_def by (metis nth_mem set_takeWhileD takeWhile_nth)

text \<open>The last \<open>n\<close> elements: the Go slice \<open>xs[len(xs)-n:]\<close>.\<close>

definition last_n :: "nat \<Rightarrow> 'a list \<Rightarrow> 'a list" where
  "last_n n xs = drop (length xs - n) xs"

lemma length_last_n [simp]: "length (last_n n xs) = min n (length xs)"
  by (simp add: last_n_def)

lemma last_n_suffix: "\<exists>ys. xs = ys @ last_n n xs"
  by (metis append_take_drop_id last_n_def)

end
