(* ===== verification/Go_Strings.thy ===== *)
theory Go_Strings
  imports Vamoose_Prelude
begin

text \<open>
  The functions of Go's \<open>strings\<close> and \<open>strconv\<close> packages that the program uses. A Go string is a
  sequence of bytes, modelled as a \<open>string\<close> (a list of 8-bit characters). The functions that
  depend on letter case or on white space are modelled on ASCII: a byte above 127 has no case and
  is not white space here, whereas Go decodes UTF-8 first.
\<close>

section \<open>Case\<close>

definition lower_char :: "char \<Rightarrow> char" where
  "lower_char c = (let n = (of_char c :: nat) in if 65 \<le> n \<and> n \<le> 90 then char_of (n + 32) else c)"

definition to_lower :: "string \<Rightarrow> string" where
  "to_lower s = map lower_char s"

definition upper_char :: "char \<Rightarrow> char" where
  "upper_char c = (let n = (of_char c :: nat) in if 97 \<le> n \<and> n \<le> 122 then char_of (n - 32) else c)"

definition to_upper :: "string \<Rightarrow> string" where
  "to_upper s = map upper_char s"

text \<open>\<open>strings.EqualFold\<close>: equality up to letter case.\<close>

definition equal_fold :: "string \<Rightarrow> string \<Rightarrow> bool" where
  "equal_fold s t \<longleftrightarrow> to_lower s = to_lower t"

lemma lower_char_idem [simp]: "lower_char (lower_char c) = lower_char c"
  by (auto simp: lower_char_def Let_def)

lemma to_lower_idem [simp]: "to_lower (to_lower s) = to_lower s"
  by (simp add: to_lower_def)

lemma to_lower_Nil [simp]: "to_lower [] = []"
  by (simp add: to_lower_def)

lemma equal_fold_refl [simp]: "equal_fold s s"
  by (simp add: equal_fold_def)

lemma equal_fold_sym: "equal_fold s t \<longleftrightarrow> equal_fold t s"
  by (auto simp: equal_fold_def)

lemma equal_fold_trans: "equal_fold s t \<Longrightarrow> equal_fold t u \<Longrightarrow> equal_fold s u"
  by (simp add: equal_fold_def)

section \<open>Prefixes, suffixes, searching\<close>

fun has_prefix :: "string \<Rightarrow> string \<Rightarrow> bool" where
  "has_prefix s [] = True"
| "has_prefix [] (p # ps) = False"
| "has_prefix (c # s) (p # ps) = (c = p \<and> has_prefix s ps)"

lemma has_prefix_iff: "has_prefix s p \<longleftrightarrow> (\<exists>r. s = p @ r)"
  by (induction s p rule: has_prefix.induct) auto

lemma has_prefix_append [simp]: "has_prefix (p @ r) p"
  by (simp add: has_prefix_iff)

definition has_suffix :: "string \<Rightarrow> string \<Rightarrow> bool" where
  "has_suffix s p = has_prefix (rev s) (rev p)"

lemma has_suffix_iff: "has_suffix s p \<longleftrightarrow> (\<exists>r. s = r @ p)"
  unfolding has_suffix_def has_prefix_iff
  by (metis rev_append rev_rev_ident)

definition trim_prefix :: "string \<Rightarrow> string \<Rightarrow> string" where
  "trim_prefix s p = (if has_prefix s p then drop (length p) s else s)"

definition trim_suffix :: "string \<Rightarrow> string \<Rightarrow> string" where
  "trim_suffix s p = (if has_suffix s p then take (length s - length p) s else s)"

lemma trim_prefix_append [simp]: "trim_prefix (p @ r) p = r"
  by (simp add: trim_prefix_def)

lemma trim_suffix_append [simp]: "trim_suffix (r @ p) p = r"
  by (simp add: trim_suffix_def has_suffix_iff)

fun contains_str :: "string \<Rightarrow> string \<Rightarrow> bool" where
  "contains_str s p = (has_prefix s p \<or> (case s of [] \<Rightarrow> False | c # s' \<Rightarrow> contains_str s' p))"

declare contains_str.simps [simp del]

lemma contains_str_iff: "contains_str s p \<longleftrightarrow> (\<exists>a b. s = a @ p @ b)"
proof (induction s)
  case Nil
  show ?case
    by (subst contains_str.simps) (auto simp: has_prefix_iff)
next
  case (Cons c s)
  show ?case
  proof
    assume "contains_str (c # s) p"
    then have "has_prefix (c # s) p \<or> contains_str s p"
      by (subst (asm) contains_str.simps) auto
    then show "\<exists>a b. c # s = a @ p @ b"
      using Cons.IH by (metis append_Cons append_Nil has_prefix_iff)
  next
    assume "\<exists>a b. c # s = a @ p @ b"
    then obtain a b where ab: "c # s = a @ p @ b" by blast
    show "contains_str (c # s) p"
    proof (cases a)
      case Nil
      with ab show ?thesis by (subst contains_str.simps) (simp add: has_prefix_iff)
    next
      case (Cons d a')
      with ab have "s = a' @ p @ b" by simp
      then have "contains_str s p" using Cons.IH by blast
      then show ?thesis by (subst contains_str.simps) simp
    qed
  qed
qed

section \<open>Splitting, cutting, joining\<close>

text \<open>\<open>strings.Split\<close> on a one-character separator.\<close>

fun split_on :: "char \<Rightarrow> string \<Rightarrow> string list" where
  "split_on c [] = [[]]"
| "split_on c (x # xs) =
     (if x = c then [] # split_on c xs
      else case split_on c xs of [] \<Rightarrow> [[x]] | p # ps \<Rightarrow> (x # p) # ps)"

text \<open>\<open>strings.Cut\<close> on a one-character separator: before, after, found.\<close>

fun cut_on :: "char \<Rightarrow> string \<Rightarrow> string \<times> string \<times> bool" where
  "cut_on c [] = ([], [], False)"
| "cut_on c (x # xs) =
     (if x = c then ([], xs, True)
      else case cut_on c xs of (a, b, f) \<Rightarrow> (x # a, b, f))"

fun join_with :: "string \<Rightarrow> string list \<Rightarrow> string" where
  "join_with sep [] = []"
| "join_with sep [s] = s"
| "join_with sep (s # t # ss) = s @ sep @ join_with sep (t # ss)"

lemma split_on_not_Nil [simp]: "split_on c s \<noteq> []"
  by (induction c s rule: split_on.induct) (auto split: list.splits)

lemma split_on_no_sep: "c \<notin> set s \<Longrightarrow> split_on c s = [s]"
  by (induction c s rule: split_on.induct) auto

lemma split_on_append_sep:
  "c \<notin> set a \<Longrightarrow> split_on c (a @ c # b) = a # split_on c b"
  by (induction a) auto

lemma join_split_on [simp]: "join_with [c] (split_on c s) = s"
proof (induction c s rule: split_on.induct)
  case (2 c x xs)
  then show ?case
    by (cases "split_on c xs" rule: list.exhaust;
        cases "tl (split_on c xs)" rule: list.exhaust) auto
qed simp

lemma split_on_join:
  "ss \<noteq> [] \<Longrightarrow> \<forall>s \<in> set ss. c \<notin> set s \<Longrightarrow> split_on c (join_with [c] ss) = ss"
  by (induction "[c]" ss rule: join_with.induct) (auto simp: split_on_no_sep split_on_append_sep)

text \<open>\<open>strings.TrimRight(s, "/")\<close>.\<close>

definition trim_slashes :: "string \<Rightarrow> string" where
  "trim_slashes s = rev (dropWhile (\<lambda>c. c = CHR ''/'') (rev s))"

lemma cut_on_no_sep: "c \<notin> set s \<Longrightarrow> cut_on c s = (s, [], False)"
  by (induction c s rule: cut_on.induct) auto

lemma cut_on_append [simp]: "c \<notin> set a \<Longrightarrow> cut_on c (a @ c # b) = (a, b, True)"
  by (induction a) auto

lemma cut_on_found: "cut_on c s = (a, b, True) \<Longrightarrow> s = a @ c # b \<and> c \<notin> set a"
  by (induction c s arbitrary: a b rule: cut_on.induct) (auto split: if_splits prod.splits)

lemma cut_on_not_found: "cut_on c s = (a, b, False) \<Longrightarrow> s = a \<and> c \<notin> set s"
  by (induction c s arbitrary: a b rule: cut_on.induct) (auto split: if_splits prod.splits)

section \<open>White space\<close>

definition is_space :: "char \<Rightarrow> bool" where
  "is_space c \<longleftrightarrow> (of_char c :: nat) \<in> {9, 10, 11, 12, 13, 32}"

definition trim_space :: "string \<Rightarrow> string" where
  "trim_space s = rev (dropWhile is_space (rev (dropWhile is_space s)))"

lemma trim_space_Nil [simp]: "trim_space [] = []"
  by (simp add: trim_space_def)

lemma trim_space_id: "s \<noteq> [] \<Longrightarrow> \<not> is_space (hd s) \<Longrightarrow> \<not> is_space (last s) \<Longrightarrow> trim_space s = s"
proof -
  assume "s \<noteq> []" and hd: "\<not> is_space (hd s)" and last: "\<not> is_space (last s)"
  then obtain c t where s: "s = c # t" by (cases s) auto
  with hd have "dropWhile is_space s = s" by simp
  moreover obtain d u where r: "rev s = d # u" using s by (cases "rev s") auto
  with last have "\<not> is_space d" by (metis last_rev list.sel(1) rev_rev_ident)
  ultimately show ?thesis using r by (simp add: trim_space_def)
qed

lemma set_trim_space: "set (trim_space s) \<subseteq> set s"
proof -
  have "set (trim_space s) \<subseteq> set (dropWhile is_space s)"
    unfolding trim_space_def by (auto dest: set_dropWhileD)
  then show ?thesis by (auto dest: set_dropWhileD)
qed

section \<open>Decimal numbers\<close>

definition is_digit :: "char \<Rightarrow> bool" where
  "is_digit c \<longleftrightarrow> 48 \<le> (of_char c :: nat) \<and> (of_char c :: nat) \<le> 57"

definition digit_val :: "char \<Rightarrow> int" where
  "digit_val c = int (of_char c) - 48"

definition digit_char :: "nat \<Rightarrow> char" where
  "digit_char n = char_of (48 + n)"

fun digits_val :: "int \<Rightarrow> string \<Rightarrow> int" where
  "digits_val acc [] = acc"
| "digits_val acc (c # s) = digits_val (10 * acc + digit_val c) s"

fun show_nat :: "nat \<Rightarrow> string" where
  "show_nat n = (if n < 10 then [digit_char n] else show_nat (n div 10) @ [digit_char (n mod 10)])"

declare show_nat.simps [simp del]

definition show_int :: "int \<Rightarrow> string" where
  "show_int i = (if i < 0 then ''-'' @ show_nat (nat (- i)) else show_nat (nat i))"

text \<open>A number printed to at least \<open>w\<close> digits, padded with zeros.\<close>

definition pad_nat :: "nat \<Rightarrow> nat \<Rightarrow> string" where
  "pad_nat w n = (let s = show_nat n in replicate (w - length s) (CHR ''0'') @ s)"

lemma of_char_digit_char: "n < 10 \<Longrightarrow> (of_char (digit_char n) :: nat) = 48 + n"
  by (simp add: digit_char_def)

lemma is_digit_digit_char [simp]: "n < 10 \<Longrightarrow> is_digit (digit_char n)"
  by (simp add: is_digit_def of_char_digit_char)

lemma digit_val_digit_char [simp]: "n < 10 \<Longrightarrow> digit_val (digit_char n) = int n"
  by (simp add: digit_val_def of_char_digit_char)

lemma digits_val_append: "digits_val acc (s @ t) = digits_val (digits_val acc s) t"
  by (induction s arbitrary: acc) auto

lemma show_nat_digits: "\<forall>c \<in> set (show_nat n). is_digit c"
proof (induction n rule: show_nat.induct)
  case (1 n)
  then show ?case by (subst show_nat.simps) auto
qed

lemma show_nat_not_Nil [simp]: "show_nat n \<noteq> []"
  by (subst show_nat.simps) simp

lemma digits_val_show_nat [simp]: "digits_val 0 (show_nat n) = int n"
proof (induction n rule: show_nat.induct)
  case (1 n)
  show ?case
  proof (cases "n < 10")
    case True
    then show ?thesis by (subst show_nat.simps) simp
  next
    case False
    with "1.IH" have "digits_val 0 (show_nat (n div 10)) = int (n div 10)" by simp
    with False show ?thesis
      by (subst show_nat.simps) (simp add: digits_val_append zdiv_int zmod_int)
  qed
qed

text \<open>
  \<open>strconv.ParseInt(s, 10, 64)\<close> and \<open>strconv.Atoi\<close>: an optional sign, at least one digit, and a
  value of 64 bits.
\<close>

definition parse_int64 :: "string \<Rightarrow> int option" where
  "parse_int64 s =
     (let neg = has_prefix s ''-'';
          ds = (if has_prefix s ''-'' \<or> has_prefix s ''+'' then tl s else s);
          v = (if neg then - digits_val 0 ds else digits_val 0 ds)
      in if ds \<noteq> [] \<and> list_all is_digit ds \<and> - (2 ^ 63) \<le> v \<and> v < 2 ^ 63 then Some v else None)"

lemma parse_int64_range: "parse_int64 s = Some v \<Longrightarrow> - (2 ^ 63) \<le> v \<and> v < 2 ^ 63"
  by (auto simp: parse_int64_def Let_def split: if_splits)

lemma not_sign_digit: "is_digit c \<Longrightarrow> c \<noteq> CHR ''-'' \<and> c \<noteq> CHR ''+''"
  by (auto simp: is_digit_def)

lemma digits_no_sign: "s \<noteq> [] \<Longrightarrow> \<forall>c \<in> set s. is_digit c \<Longrightarrow> \<not> has_prefix s ''-'' \<and> \<not> has_prefix s ''+''"
  by (cases s) (auto dest: not_sign_digit)

lemma parse_show_int: "- (2 ^ 63) \<le> i \<Longrightarrow> i < 2 ^ 63 \<Longrightarrow> parse_int64 (show_int i) = Some i"
proof (cases "i < 0")
  case True
  assume "- (2 ^ 63) \<le> i" and "i < 2 ^ 63"
  with True show ?thesis
    using show_nat_digits[of "nat (- i)"]
    by (simp add: parse_int64_def show_int_def Let_def list_all_iff)
next
  case False
  assume "- (2 ^ 63) \<le> i" and "i < 2 ^ 63"
  with False show ?thesis
    using digits_no_sign[OF show_nat_not_Nil show_nat_digits, of "nat i"] show_nat_digits[of "nat i"]
    by (simp add: parse_int64_def show_int_def Let_def list_all_iff)
qed

section \<open>Words\<close>

text \<open>\<open>strings.Fields\<close>: the maximal runs of non-space characters.\<close>

fun fields_acc :: "string \<Rightarrow> string \<Rightarrow> string list" where
  "fields_acc cur [] = (if cur = [] then [] else [rev cur])"
| "fields_acc cur (c # s) =
     (if is_space c then (if cur = [] then fields_acc [] s else rev cur # fields_acc [] s)
      else fields_acc (c # cur) s)"

definition fields :: "string \<Rightarrow> string list" where
  "fields s = fields_acc [] s"

lemma fields_acc_nonempty: "w \<in> set (fields_acc cur s) \<Longrightarrow> w \<noteq> []"
  by (induction cur s rule: fields_acc.induct) (auto split: if_splits)

lemma fields_acc_no_space:
  "\<forall>c \<in> set cur. \<not> is_space c \<Longrightarrow> w \<in> set (fields_acc cur s) \<Longrightarrow> \<forall>c \<in> set w. \<not> is_space c"
proof (induction s arbitrary: cur)
  case Nil
  then show ?case by (cases "cur = []") simp_all
next
  case (Cons c s)
  show ?case
  proof (cases "is_space c")
    case True
    with Cons.prems consider "w = rev cur" | "w \<in> set (fields_acc [] s)"
      by (cases "cur = []") auto
    then show ?thesis
    proof cases
      case 1
      with Cons.prems(1) show ?thesis by simp
    next
      case 2
      show ?thesis by (rule Cons.IH[OF _ 2]) simp
    qed
  next
    case False
    have "\<forall>a \<in> set (c # cur). \<not> is_space a" using Cons.prems(1) False by (metis set_ConsD)
    moreover have "w \<in> set (fields_acc (c # cur) s)"
      using Cons.prems(2) unfolding fields_acc.simps if_not_P[OF False] .
    ultimately show ?thesis by (rule Cons.IH)
  qed
qed

lemma fields_words: "w \<in> set (fields s) \<Longrightarrow> w \<noteq> [] \<and> (\<forall>c \<in> set w. \<not> is_space c)"
  unfolding fields_def using fields_acc_nonempty[of w "[]" s] fields_acc_no_space[of "[]" w s] by simp

end
