(* ===== verification/Go_Time.thy ===== *)
theory Go_Time
  imports Go_Strings
begin

text \<open>
  The part of Go's \<open>time\<close> package the program uses. An instant is a number of nanoseconds since
  the Unix epoch together with a location, the zone its civil date is read in. A location is what
  Go's zone table is: the offset in force before the first transition and a list of transitions,
  each a Unix second and the offset from then on (the rule string Go uses past the end of the
  table is not modelled). The civil calendar is the proleptic Gregorian one.
\<close>

section \<open>Durations\<close>

type_synonym duration = int

abbreviation (input) nanosecond :: duration where "nanosecond \<equiv> 1"
abbreviation second :: duration where "second \<equiv> 1000000000"
abbreviation minute :: duration where "minute \<equiv> 60000000000"
abbreviation hour :: duration where "hour \<equiv> 3600000000000"

definition max_duration :: duration where "max_duration = 2 ^ 63 - 1"
definition min_duration :: duration where "min_duration = - (2 ^ 63)"

text \<open>\<open>Time.Sub\<close> saturates at the ends of the 64-bit range.\<close>

definition saturate :: "int \<Rightarrow> duration" where
  "saturate d = (if max_duration < d then max_duration else if d < min_duration then min_duration else d)"

lemma saturate_id: "min_duration \<le> d \<Longrightarrow> d \<le> max_duration \<Longrightarrow> saturate d = d"
  by (simp add: saturate_def)

text \<open>
  Saturation does not move a duration across a threshold of the 64-bit range, so comparisons of
  a saturated difference with such a threshold are comparisons of the exact difference.
\<close>

lemma saturate_less_iff: "min_duration < k \<Longrightarrow> k \<le> max_duration \<Longrightarrow> saturate d < k \<longleftrightarrow> d < k"
  by (auto simp: saturate_def)

lemma saturate_greater_iff: "min_duration \<le> k \<Longrightarrow> k < max_duration \<Longrightarrow> k < saturate d \<longleftrightarrow> k < d"
  by (auto simp: saturate_def)

subsection \<open>Parsing a duration\<close>

text \<open>
  \<open>time.ParseDuration\<close>: an optional sign and a non-empty sequence of decimal numbers, each with
  a unit. The overflow checks are those of the library on unsigned 64-bit values. The fraction is
  computed exactly here, where Go rounds through a \<open>float64\<close>.
\<close>

definition unit_of :: "string \<Rightarrow> int option" where
  "unit_of u =
     (if u = ''ns'' then Some nanosecond
      else if u = ''us'' \<or> u = [char_of (194::nat), char_of (181::nat), CHR ''s'']
        \<or> u = [char_of (206::nat), char_of (188::nat), CHR ''s''] then Some 1000
      else if u = ''ms'' then Some 1000000
      else if u = ''s'' then Some second
      else if u = ''m'' then Some minute
      else if u = ''h'' then Some hour
      else None)"

fun leading_int :: "int \<Rightarrow> string \<Rightarrow> int option" where
  "leading_int x [] = Some x"
| "leading_int x (c # s) =
     (if x > 2 ^ 63 div 10 then None
      else let y = 10 * x + digit_val c in if y > 2 ^ 63 then None else leading_int y s)"

fun leading_fraction :: "bool \<Rightarrow> int \<Rightarrow> int \<Rightarrow> string \<Rightarrow> int \<times> int" where
  "leading_fraction ov x scale [] = (x, scale)"
| "leading_fraction ov x scale (c # s) =
     (if ov \<or> x > (2 ^ 63 - 1) div 10 then leading_fraction True x scale s
      else let y = 10 * x + digit_val c
           in if y > 2 ^ 63 then leading_fraction True x scale s
              else leading_fraction False y (10 * scale) s)"

definition dur_number_char :: "char \<Rightarrow> bool" where
  "dur_number_char c \<longleftrightarrow> c = CHR ''.'' \<or> is_digit c"

text \<open>One number with its unit: the nanoseconds it adds and the rest of the text.\<close>

definition parse_dur_term :: "string \<Rightarrow> (int \<times> string) option" where
  "parse_dur_term s =
     (let ds = takeWhile is_digit s; s1 = dropWhile is_digit s;
          dot = has_prefix s1 ''.'';
          fs = (if dot then takeWhile is_digit (tl s1) else []);
          s2 = (if dot then dropWhile is_digit (tl s1) else s1);
          u = takeWhile (\<lambda>c. \<not> dur_number_char c) s2;
          s3 = dropWhile (\<lambda>c. \<not> dur_number_char c) s2
      in if s = [] \<or> \<not> dur_number_char (hd s) then None
         else case leading_int 0 ds of None \<Rightarrow> None
         | Some v \<Rightarrow>
           (if ds = [] \<and> fs = [] then None
            else if u = [] then None
            else case unit_of u of None \<Rightarrow> None
            | Some unit \<Rightarrow>
              (if v > 2 ^ 63 div unit then None
               else case leading_fraction False 0 1 fs of (f, scale) \<Rightarrow>
                 (let v' = v * unit + (f * unit) div scale
                  in if v' > 2 ^ 63 then None else Some (v', s3)))))"

lemma length_dropWhile_tl: "xs \<noteq> [] \<Longrightarrow> P (hd xs) \<Longrightarrow> length (dropWhile P xs) < length xs"
  by (cases xs) (auto simp: length_dropWhile_le le_imp_less_Suc)

lemma parse_dur_term_shrinks: "parse_dur_term s = Some (v, r) \<Longrightarrow> length r < length s"
proof -
  assume a: "parse_dur_term s = Some (v, r)"
  define s1 where "s1 = dropWhile is_digit s"
  define s2 where "s2 = (if has_prefix s1 ''.'' then dropWhile is_digit (tl s1) else s1)"
  have le1: "length s1 \<le> length s" by (simp add: s1_def length_dropWhile_le)
  have "length s2 \<le> length s1"
    by (auto simp: s2_def intro: le_trans[OF length_dropWhile_le])
  moreover have u: "takeWhile (\<lambda>c. \<not> dur_number_char c) s2 \<noteq> []"
    and r: "r = dropWhile (\<lambda>c. \<not> dur_number_char c) s2"
    using a by (auto simp: parse_dur_term_def Let_def s1_def s2_def split: if_splits option.splits prod.splits)
  from u have "s2 \<noteq> []" and "\<not> dur_number_char (hd s2)" by (cases s2; auto split: if_splits)+
  then have "length r < length s2" unfolding r by (rule length_dropWhile_tl)
  ultimately show ?thesis using le1 by linarith
qed

function parse_dur_terms :: "int \<Rightarrow> string \<Rightarrow> int option" where
  "parse_dur_terms d s =
     (if s = [] then Some d
      else case parse_dur_term s of None \<Rightarrow> None
      | Some (v, r) \<Rightarrow>
        (let d' = (d + v) mod 2 ^ 64
         in if d' > 2 ^ 63 then None else parse_dur_terms d' r))"
  by pat_completeness auto
termination
  by (relation "measure (\<lambda>(d, s). length s)") (auto dest: parse_dur_term_shrinks)

declare parse_dur_terms.simps [simp del]

definition parse_duration :: "string \<Rightarrow> duration option" where
  "parse_duration s =
     (let neg = has_prefix s ''-'';
          body = (if has_prefix s ''-'' \<or> has_prefix s ''+'' then tl s else s)
      in if body = ''0'' then Some 0
         else if body = [] then None
         else case parse_dur_terms 0 body of None \<Rightarrow> None
         | Some d \<Rightarrow> if neg then Some (- d)
                     else if d > 2 ^ 63 - 1 then None else Some d)"

lemma parse_duration_72h: "parse_duration ''72h'' = Some (72 * hour)"
  by code_simp

lemma parse_duration_1h30m: "parse_duration ''1h30m'' = Some (90 * minute)"
  by code_simp

lemma parse_duration_frac: "parse_duration ''1.5s'' = Some (1500000000)"
  by code_simp

lemma parse_duration_unit_needed: "parse_duration ''24'' = None"
  by code_simp

lemma parse_duration_empty: "parse_duration [] = None"
  by (simp add: parse_duration_def)

section \<open>The civil calendar\<close>

type_synonym civil = "int \<times> int \<times> int"  \<comment> \<open>year, month, day\<close>

text \<open>
  The day number (0 is 1970-01-01) of a date, and back. The day argument may be out of the
  month's range, as in \<open>time.Date\<close>: it is added to the first of the month.
\<close>

definition days_from_civil :: "int \<Rightarrow> int \<Rightarrow> int \<Rightarrow> int" where
  "days_from_civil y m d =
     (let y' = (if m \<le> 2 then y - 1 else y);
          era = y' div 400;
          yoe = y' - era * 400;
          mp = (if m > 2 then m - 3 else m + 9);
          doy = (153 * mp + 2) div 5 + d - 1;
          doe = yoe * 365 + yoe div 4 - yoe div 100 + doy
      in era * 146097 + doe - 719468)"

definition civil_from_days :: "int \<Rightarrow> civil" where
  "civil_from_days n =
     (let z = n + 719468;
          era = z div 146097;
          doe = z - era * 146097;
          yoe = (doe - doe div 1460 + doe div 36524 - doe div 146096) div 365;
          doy = doe - (365 * yoe + yoe div 4 - yoe div 100);
          mp = (5 * doy + 2) div 153;
          d = doy - (153 * mp + 2) div 5 + 1;
          m = (if mp < 10 then mp + 3 else mp - 9);
          y = yoe + era * 400
      in (if m \<le> 2 then y + 1 else y, m, d))"

lemma days_from_civil_add: "days_from_civil y m (d + k) = days_from_civil y m d + k"
  by (simp add: days_from_civil_def Let_def)

lemma civil_epoch: "civil_from_days 0 = (1970, 1, 1)"
  by code_simp

lemma civil_leap_day: "civil_from_days (days_from_civil 2028 2 29) = (2028, 2, 29)"
  by code_simp

text \<open>Every day number is the day number of its date: the calendar loses no day.\<close>

lemma year_of_era_bounds:
  fixes doe a b c q e f :: int
  assumes "0 \<le> doe" "doe < 146097"
    "1460 * a \<le> doe" "doe \<le> 1460 * a + 1459"
    "36524 * b \<le> doe" "doe \<le> 36524 * b + 36523"
    "146096 * c \<le> doe" "doe \<le> 146096 * c + 146095"
    "365 * q \<le> doe - a + b - c" "doe - a + b - c \<le> 365 * q + 364"
    "4 * e \<le> q" "q \<le> 4 * e + 3" "100 * f \<le> q" "q \<le> 100 * f + 99"
  shows "0 \<le> q \<and> q \<le> 399 \<and> 0 \<le> doe - (365 * q + e - f) \<and> doe - (365 * q + e - f) \<le> 366"
proof -
  have b: "b = 0 \<or> b = 1 \<or> b = 2 \<or> b = 3 \<or> b = 4" using assms by linarith
  have c: "c = 0 \<or> c = 1" using assms by linarith
  have f: "f = 0 \<or> f = 1 \<or> f = 2 \<or> f = 3 \<or> f = 4 \<or> f = -1" using assms by linarith
  have q: "0 \<le> q" using assms by linarith
  have q399: "q \<le> 399" using assms b c by linarith
  have lo: "0 \<le> doe - (365 * q + e - f)" using assms b c f by (elim disjE) (hypsubst, linarith)+
  have hi: "doe - (365 * q + e - f) \<le> 366" using assms b c f by (elim disjE) (hypsubst, linarith)+
  show ?thesis using q q399 lo hi by blast
qed

lemma div_bounds:
  fixes k t :: int
  assumes "0 < k"
  shows "k * (t div k) \<le> t \<and> t \<le> k * (t div k) + (k - 1)"
proof -
  have "t = k * (t div k) + t mod k" by simp
  moreover have "0 \<le> t mod k" "t mod k < k" using assms by simp_all
  ultimately show ?thesis by linarith
qed

lemma yoe_doy_bounds:
  fixes z :: int
  defines "doe \<equiv> z - (z div 146097) * 146097"
  defines "yoe \<equiv> (doe - doe div 1460 + doe div 36524 - doe div 146096) div 365"
  defines "doy \<equiv> doe - (365 * yoe + yoe div 4 - yoe div 100)"
  shows "0 \<le> yoe" "yoe \<le> 399" "0 \<le> doy" "doy \<le> 366"
proof -
  have doe: "0 \<le> doe" "doe < 146097" unfolding doe_def by presburger+
  have "0 \<le> yoe \<and> yoe \<le> 399 \<and> 0 \<le> doe - (365 * yoe + yoe div 4 - yoe div 100)
      \<and> doe - (365 * yoe + yoe div 4 - yoe div 100) \<le> 366"
    by (rule year_of_era_bounds[where a = "doe div 1460" and b = "doe div 36524" and c = "doe div 146096"])
      (use doe div_bounds[of 1460 doe] div_bounds[of 36524 doe] div_bounds[of 146096 doe]
         div_bounds[of 365 "doe - doe div 1460 + doe div 36524 - doe div 146096"]
         div_bounds[of 4 yoe] div_bounds[of 100 yoe] in \<open>simp_all add: yoe_def[symmetric]\<close>)
  then show "0 \<le> yoe" "yoe \<le> 399" "0 \<le> doy" "doy \<le> 366" by (simp_all add: doy_def)
qed

lemma days_from_civil_march:
  assumes "0 \<le> mp" and "mp \<le> 11"
  shows "days_from_civil (if mp < 10 then y else y + 1) (if mp < 10 then mp + 3 else mp - 9) d =
    y div 400 * 146097 + ((y - y div 400 * 400) * 365 + (y - y div 400 * 400) div 4
      - (y - y div 400 * 400) div 100 + ((153 * mp + 2) div 5 + d - 1)) - 719468"
proof (cases "mp < 10")
  case True
  with assms show ?thesis by (simp add: days_from_civil_def Let_def del: mult_minus_left mult_minus_right)
next
  case False
  with assms have "mp = 10 \<or> mp = 11" by linarith
  then show ?thesis by (elim disjE) (simp_all add: days_from_civil_def Let_def)
qed

lemma days_civil_roundtrip: "(case civil_from_days n of (y, m, d) \<Rightarrow> days_from_civil y m d) = n"
proof -
  define z where "z = n + 719468"
  define doe where "doe = z - (z div 146097) * 146097"
  define yoe where "yoe = (doe - doe div 1460 + doe div 36524 - doe div 146096) div 365"
  define doy where "doy = doe - (365 * yoe + yoe div 4 - yoe div 100)"
  define mp where "mp = (5 * doy + 2) div 153"
  have b: "0 \<le> yoe" "yoe \<le> 399" "0 \<le> doy" "doy \<le> 366"
    unfolding doy_def yoe_def doe_def by (rule yoe_doy_bounds)+
  have mp: "0 \<le> mp" "mp \<le> 11" using b unfolding mp_def by linarith+
  have era: "(yoe + z div 146097 * 400) div 400 = z div 146097" using b by simp
  have c: "civil_from_days n =
      (if mp < 10 then yoe + z div 146097 * 400 else yoe + z div 146097 * 400 + 1,
       if mp < 10 then mp + 3 else mp - 9, doy - (153 * mp + 2) div 5 + 1)"
    using mp unfolding civil_from_days_def Let_def
    by (simp add: z_def[symmetric] doe_def[symmetric] yoe_def[symmetric] doy_def[symmetric] mp_def[symmetric])
  have yoe: "yoe + z div 146097 * 400 - z div 146097 * 400 = yoe" by simp
  have "(case civil_from_days n of (y, m, d) \<Rightarrow> days_from_civil y m d) =
      z div 146097 * 146097 + (yoe * 365 + yoe div 4 - yoe div 100
        + ((153 * mp + 2) div 5 + (doy - (153 * mp + 2) div 5 + 1) - 1)) - 719468"
    unfolding c prod.case days_from_civil_march[OF mp] era yoe ..
  moreover have "z div 146097 * 146097 + (yoe * 365 + yoe div 4 - yoe div 100 + doy) = z"
    by (simp add: doy_def doe_def)
  ultimately show ?thesis by (simp add: z_def)
qed

lemma civil_from_days_inj: "civil_from_days a = civil_from_days b \<Longrightarrow> a = b"
  by (metis days_civil_roundtrip)

section \<open>Weekdays\<close>

datatype weekday = Sunday | Monday | Tuesday | Wednesday | Thursday | Friday | Saturday

fun weekday_index :: "weekday \<Rightarrow> int" where
  "weekday_index Sunday = 0"
| "weekday_index Monday = 1"
| "weekday_index Tuesday = 2"
| "weekday_index Wednesday = 3"
| "weekday_index Thursday = 4"
| "weekday_index Friday = 5"
| "weekday_index Saturday = 6"

definition weekday_of_index :: "int \<Rightarrow> weekday" where
  "weekday_of_index i =
     (let k = i mod 7 in
      if k = 0 then Sunday else if k = 1 then Monday else if k = 2 then Tuesday
      else if k = 3 then Wednesday else if k = 4 then Thursday else if k = 5 then Friday
      else Saturday)"

definition next_day :: "weekday \<Rightarrow> weekday" where
  "next_day d = weekday_of_index (weekday_index d + 1)"

definition weekday_of_day :: "int \<Rightarrow> weekday" where
  "weekday_of_day n = weekday_of_index (n + 4)"

lemma weekday_index_bounds [simp]: "0 \<le> weekday_index d" "weekday_index d < 7" "weekday_index d \<le> 6"
  by (cases d; simp)+

lemma weekday_of_index_index [simp]: "weekday_of_index (weekday_index d) = d"
  by (cases d) (simp_all add: weekday_of_index_def)

lemma weekday_index_of_index [simp]: "weekday_index (weekday_of_index i) = i mod 7"
proof -
  have "i mod 7 \<in> {0, 1, 2, 3, 4, 5, 6}" by auto
  then show ?thesis by (auto simp: weekday_of_index_def Let_def)
qed

lemma weekday_index_inj: "weekday_index a = weekday_index b \<longleftrightarrow> a = b"
  by (metis weekday_of_index_index)

text \<open>Weekdays are ordered as Go's integers are: Sunday first.\<close>

instantiation weekday :: linorder
begin

definition less_eq_weekday :: "weekday \<Rightarrow> weekday \<Rightarrow> bool" where
  "less_eq_weekday a b \<longleftrightarrow> weekday_index a \<le> weekday_index b"

definition less_weekday :: "weekday \<Rightarrow> weekday \<Rightarrow> bool" where
  "less_weekday a b \<longleftrightarrow> weekday_index a < weekday_index b"

instance
  by standard (auto simp: less_eq_weekday_def less_weekday_def weekday_index_inj)

end

section \<open>Locations and instants\<close>

datatype location = Location int "(int \<times> int) list"

abbreviation UTC :: location where "UTC \<equiv> Location 0 []"

fun last_offset :: "int \<Rightarrow> (int \<times> int) list \<Rightarrow> int \<Rightarrow> int" where
  "last_offset off [] t = off"
| "last_offset off ((w, o') # rest) t = (if w \<le> t then last_offset o' rest t else off)"

text \<open>\<open>Location.lookup\<close>: the offset from UTC in force at a Unix second.\<close>

fun lookup_offset :: "location \<Rightarrow> int \<Rightarrow> int" where
  "lookup_offset (Location base trs) t = last_offset base trs t"

fun offsets :: "location \<Rightarrow> int set" where
  "offsets (Location base trs) = insert base (snd ` set trs)"

lemma last_offset_mem: "last_offset off trs t \<in> insert off (snd ` set trs)"
  by (induction off trs t rule: last_offset.induct) auto

lemma lookup_offset_mem: "lookup_offset l t \<in> offsets l"
  using last_offset_mem by (cases l) simp

record gotime =
  t_ns :: int
  t_loc :: location

definition unix_sec :: "gotime \<Rightarrow> int" where
  "unix_sec t = t_ns t div second"

definition local_sec :: "gotime \<Rightarrow> int" where
  "local_sec t = unix_sec t + lookup_offset (t_loc t) (unix_sec t)"

definition day_number :: "gotime \<Rightarrow> int" where
  "day_number t = local_sec t div 86400"

definition date_of :: "gotime \<Rightarrow> civil" where
  "date_of t = civil_from_days (day_number t)"

definition weekday_at :: "gotime \<Rightarrow> weekday" where
  "weekday_at t = weekday_of_day (day_number t)"

definition before :: "gotime \<Rightarrow> gotime \<Rightarrow> bool" where
  "before t u \<longleftrightarrow> t_ns t < t_ns u"

definition after :: "gotime \<Rightarrow> gotime \<Rightarrow> bool" where
  "after t u \<longleftrightarrow> before u t"

definition time_add :: "gotime \<Rightarrow> duration \<Rightarrow> gotime" where
  "time_add t d = t\<lparr>t_ns := t_ns t + d\<rparr>"

definition time_sub :: "gotime \<Rightarrow> gotime \<Rightarrow> duration" where
  "time_sub t u = saturate (t_ns t - t_ns u)"

text \<open>The zero \<open>time.Time\<close> is midnight of January 1 of the year 1, UTC.\<close>

definition zero_time :: gotime where
  "zero_time = \<lparr>t_ns = - 62135596800 * second, t_loc = UTC\<rparr>"

definition is_zero :: "gotime \<Rightarrow> bool" where
  "is_zero t \<longleftrightarrow> t_ns t = t_ns zero_time"

text \<open>
  \<open>time.Date\<close>, from a day number and a second of the day: the wall-clock reading is taken as
  UTC, the offset in force there is subtracted, and, when another offset is in force at the
  result, that one is subtracted instead.
\<close>

definition resolve_local :: "location \<Rightarrow> int \<Rightarrow> int" where
  "resolve_local l u =
     (let off = lookup_offset l u in if off = 0 then u else u - lookup_offset l (u - off))"

definition time_date :: "int \<Rightarrow> int \<Rightarrow> int \<Rightarrow> location \<Rightarrow> gotime" where
  "time_date day sec nsec l = \<lparr>t_ns = resolve_local l (day * 86400 + sec) * second + nsec, t_loc = l\<rparr>"

definition date_at :: "int \<Rightarrow> int \<Rightarrow> int \<Rightarrow> int \<Rightarrow> location \<Rightarrow> gotime" where
  "date_at y m d hr l = time_date (days_from_civil y m d) (hr * 3600) 0 l"

text \<open>\<open>t.AddDate(0, 0, n)\<close>: the same wall-clock reading \<open>n\<close> days later.\<close>

definition add_days :: "gotime \<Rightarrow> int \<Rightarrow> gotime" where
  "add_days t n =
     (case date_of t of (y, m, d) \<Rightarrow>
        time_date (days_from_civil y m (d + n)) (local_sec t mod 86400) (t_ns t mod second) (t_loc t))"

lemma add_days_eq:
  "add_days t n =
     \<lparr>t_ns = resolve_local (t_loc t) (local_sec t + n * 86400) * second + t_ns t mod second, t_loc = t_loc t\<rparr>"
proof -
  obtain y m d where c: "civil_from_days (day_number t) = (y, m, d)" by (cases "civil_from_days (day_number t)")
  then have "days_from_civil y m d = day_number t"
    using days_civil_roundtrip[of "day_number t"] by simp
  then have "add_days t n = time_date (day_number t + n) (local_sec t mod 86400) (t_ns t mod second) (t_loc t)"
    by (simp add: add_days_def date_of_def c days_from_civil_add)
  moreover have "(day_number t + n) * 86400 + local_sec t mod 86400 = local_sec t + n * 86400"
    unfolding day_number_def by (simp add: algebra_simps)
  ultimately show ?thesis
    by (simp only: time_date_def)
qed

lemma date_of_eq_iff: "date_of t = date_of u \<longleftrightarrow> day_number t = day_number u"
  by (auto simp: date_of_def dest: civil_from_days_inj)

text \<open>With a constant offset the wall clock and the instant differ by that offset, everywhere.\<close>

lemma resolve_fixed [simp]: "resolve_local (Location off []) u = u - off"
  by (simp add: resolve_local_def Let_def)

lemma add_days_fixed: "t_loc t = Location off [] \<Longrightarrow> add_days t n = t\<lparr>t_ns := t_ns t + n * 86400 * second\<rparr>"
  by (simp add: add_days_eq local_sec_def unix_sec_def algebra_simps)

text \<open>In any location the reading moves by the difference of two of its offsets.\<close>

lemma add_days_progress:
  "\<exists>a b. a \<in> insert 0 (offsets (t_loc t)) \<and> b \<in> offsets (t_loc t)
    \<and> unix_sec (add_days t n) = unix_sec t + n * 86400 + b - a"
proof -
  let ?l = "t_loc t" and ?u = "local_sec t + n * 86400"
  obtain a where a: "a \<in> insert 0 (offsets ?l)" "resolve_local ?l ?u = ?u - a"
    unfolding resolve_local_def Let_def using lookup_offset_mem[of ?l] by (cases "lookup_offset ?l ?u = 0") force+
  have "unix_sec (add_days t n) = ?u - a"
    by (simp add: unix_sec_def add_days_eq a)
  then show ?thesis
    using a(1) lookup_offset_mem[of ?l "unix_sec t"]
    by (intro exI[of _ a] exI[of _ "lookup_offset ?l (unix_sec t)"]) (simp add: local_sec_def)
qed

end
