(* ===== verification/Calendar.thy ===== *)
theory Calendar
  imports Go_Time "HOL-Library.Char_ord" "HOL-Library.List_Lexorder"
begin

text \<open>
  The provider-neutral calendar model (\<open>internal/calendar/calendar.go\<close>), the errors the
  providers share (\<open>errors.go\<close>) and the provider registry (\<open>registry.go\<close>). The string enums of the
  source become datatypes whose last constructor keeps a string that is none of the named values;
  the empty string is the zero value of an enum that was never set.
\<close>

section \<open>Sentinel errors\<close>

definition ErrNotFound :: error where "ErrNotFound = Sentinel ''hold not found''"
definition ErrNoManager :: error where "ErrNoManager = Sentinel ''no manager in directory''"
definition ErrUnknownProvider :: error where "ErrUnknownProvider = Sentinel ''unknown calendar provider''"
definition ErrNoDirectory :: error where "ErrNoDirectory = Sentinel ''no directory for this provider''"

lemmas calendar_errors = ErrNotFound_def ErrNoManager_def ErrUnknownProvider_def ErrNoDirectory_def

section \<open>Enumerations\<close>

datatype show_as = ShowFree | ShowTentative | ShowBusy | ShowOOF | ShowOther string

abbreviation ShowUnset :: show_as where "ShowUnset \<equiv> ShowOther []"

fun show_as_valid :: "show_as \<Rightarrow> bool" where
  "show_as_valid (ShowOther s) = False"
| "show_as_valid _ = True"

datatype response =
    ResponseNone | ResponseNotResponded | ResponseTentative | ResponseAccepted | ResponseDeclined
  | ResponseOther string

datatype role = RoleRequired | RoleOptional | RoleOther string

abbreviation RoleUnset :: role where "RoleUnset \<equiv> RoleOther []"

fun role_valid :: "role \<Rightarrow> bool" where
  "role_valid RoleRequired = True"
| "role_valid RoleOptional = True"
| "role_valid (RoleOther s) = False"

text \<open>The strings of the constants, and the reading of a string.\<close>

fun show_as_name :: "show_as \<Rightarrow> string" where
  "show_as_name ShowFree = ''free''"
| "show_as_name ShowTentative = ''tentative''"
| "show_as_name ShowBusy = ''busy''"
| "show_as_name ShowOOF = ''oof''"
| "show_as_name (ShowOther s) = s"

definition show_as_of :: "string \<Rightarrow> show_as" where
  "show_as_of s = (if s = ''free'' then ShowFree else if s = ''tentative'' then ShowTentative
     else if s = ''busy'' then ShowBusy else if s = ''oof'' then ShowOOF else ShowOther s)"

fun role_name :: "role \<Rightarrow> string" where
  "role_name RoleRequired = ''required''"
| "role_name RoleOptional = ''optional''"
| "role_name (RoleOther s) = s"

definition role_of :: "string \<Rightarrow> role" where
  "role_of s = (if s = ''required'' then RoleRequired else if s = ''optional'' then RoleOptional
     else RoleOther s)"

fun response_name :: "response \<Rightarrow> string" where
  "response_name ResponseNone = ''none''"
| "response_name ResponseNotResponded = ''notResponded''"
| "response_name ResponseTentative = ''tentativelyAccepted''"
| "response_name ResponseAccepted = ''accepted''"
| "response_name ResponseDeclined = ''declined''"
| "response_name (ResponseOther s) = s"

definition response_of :: "string \<Rightarrow> response" where
  "response_of s = (if s = ''none'' then ResponseNone else if s = ''notResponded'' then ResponseNotResponded
     else if s = ''tentativelyAccepted'' then ResponseTentative else if s = ''accepted'' then ResponseAccepted
     else if s = ''declined'' then ResponseDeclined else ResponseOther s)"

interpretation show_as_text: text_enum show_as_name show_as_of
  by unfold_locales (simp add: show_as_of_def)

interpretation role_text: text_enum role_name role_of
  by unfold_locales (simp add: role_of_def)

interpretation response_text: text_enum response_name response_of
  by unfold_locales (simp add: response_of_def)

section \<open>People and holds\<close>

record person =
  person_name :: string
  person_email :: string

record attendee =
  att_person :: person
  att_role :: role
  att_response :: response

record hold =
  hold_id :: string
  hold_subject :: string
  hold_body :: string
  hold_start :: gotime
  hold_end :: gotime
  hold_all_day :: bool
  hold_show_as :: show_as
  hold_attendees :: "attendee list"

abbreviation att_email :: "attendee \<Rightarrow> string" where
  "att_email a \<equiv> person_email (att_person a)"

definition email_person :: "string \<Rightarrow> person" where
  "email_person e = \<lparr>person_name = [], person_email = e\<rparr>"

definition invite :: "person \<Rightarrow> role \<Rightarrow> attendee" where
  "invite p r = \<lparr>att_person = p, att_role = r, att_response = ResponseOther []\<rparr>"

text \<open>\<open>Hold.ApprovedBy\<close> and \<open>Hold.DeclinedBy\<close>: the first attendee with that email decides.\<close>

fun approved_in :: "attendee list \<Rightarrow> string \<Rightarrow> bool" where
  "approved_in [] email = False"
| "approved_in (a # as) email =
     (if equal_fold (att_email a) email then att_response a = ResponseAccepted else approved_in as email)"

definition approved_by :: "hold \<Rightarrow> string \<Rightarrow> bool" where
  "approved_by h email = approved_in (hold_attendees h) email"

fun declined_in :: "attendee list \<Rightarrow> string \<Rightarrow> bool" where
  "declined_in [] email = False"
| "declined_in (a # as) email =
     (if equal_fold (att_email a) email then att_response a = ResponseDeclined else declined_in as email)"

definition declined_by :: "hold \<Rightarrow> string \<Rightarrow> bool" where
  "declined_by h email = declined_in (hold_attendees h) email"

lemma approved_in_find:
  "approved_in as email \<longleftrightarrow>
     (\<exists>a. find (\<lambda>a. equal_fold (att_email a) email) as = Some a \<and> att_response a = ResponseAccepted)"
  by (induction as) auto

lemma declined_in_find:
  "declined_in as email \<longleftrightarrow>
     (\<exists>a. find (\<lambda>a. equal_fold (att_email a) email) as = Some a \<and> att_response a = ResponseDeclined)"
  by (induction as) auto

lemma approved_not_declined: "approved_by h e \<Longrightarrow> \<not> declined_by h e"
  by (auto simp: approved_by_def declined_by_def approved_in_find declined_in_find)

lemma approved_by_attendee:
  "approved_by h e \<Longrightarrow> \<exists>a \<in> set (hold_attendees h). equal_fold (att_email a) e \<and> att_response a = ResponseAccepted"
  by (auto simp: approved_by_def approved_in_find dest!: find_Some_memD)

section \<open>Registry\<close>

text \<open>
  \<open>calendar.Registry\<close>: factories by name. \<open>Register\<close> panics on a programming error; the panic is
  the error of the result. A factory is whatever builds a provider from the settings.
\<close>

type_synonym 'f registry = "(string \<times> 'f) list"

definition new_registry :: "'f registry" where
  "new_registry = []"

definition register :: "'f registry \<Rightarrow> string \<Rightarrow> 'f option \<Rightarrow> 'f registry result" where
  "register r name f =
     (if name = [] then Inl (Errorf ''calendar: Register with empty provider name'' [])
      else case f of None \<Rightarrow> Inl (Errorf (''calendar: Register with nil factory for '' @ name) [])
      | Some g \<Rightarrow>
        (case map_of r name of
           Some _ \<Rightarrow> Inl (Errorf (''calendar: Register called twice for '' @ name) [])
         | None \<Rightarrow> Inr ((name, g) # r)))"

definition build :: "('s \<Rightarrow> 'p result) registry \<Rightarrow> string \<Rightarrow> 's \<Rightarrow> 'p result" where
  "build r name s =
     (case map_of r name of
        None \<Rightarrow> Inl (Errorf name [ErrUnknownProvider])
      | Some f \<Rightarrow> f s)"

definition names :: "'f registry \<Rightarrow> string list" where
  "names r = sort (map fst r)"

lemma register_distinct:
  "distinct (map fst r) \<Longrightarrow> register r n f = Inr r' \<Longrightarrow> distinct (map fst r')"
  by (auto simp: register_def map_of_eq_None_iff split: if_splits option.splits)

lemma register_lookup:
  "register r n (Some f) = Inr r' \<Longrightarrow> map_of r' m = (if m = n then Some f else map_of r m)"
  by (auto simp: register_def split: if_splits option.splits)

lemma build_unknown: "map_of r n = None \<Longrightarrow> build r n s = Inl e \<Longrightarrow> errors_is e ErrUnknownProvider"
  by (auto simp: build_def ErrUnknownProvider_def)

lemma names_sorted: "sorted (names r) \<and> set (names r) = fst ` set r"
  by (simp add: names_def)

end
