(* ===== verification/Workflow.thy ===== *)
theory Workflow
  imports Calendar
begin

text \<open>
  The workflow model of \<open>internal/workflow/workflow.go\<close>: verbs, steps, guards, the flow between
  steps, and the checks \<open>Validate\<close> makes, in the order it makes them. Step indices are integers as
  in the source, where \<open>-1\<close> stops the flow. The branch map \<open>On\<close> is an association list; Go
  iterates a map in no fixed order, which only decides which of two branch errors is reported.
  That validation accepts exactly the well-formed workflows is proved in \<open>Workflow_Spec\<close>.
\<close>

section \<open>Errors and outcomes\<close>

definition ErrUnknownWorkflow :: error where "ErrUnknownWorkflow = Sentinel ''unknown workflow''"
definition ErrInvalid :: error where "ErrInvalid = Sentinel ''invalid workflow''"
definition ErrUnknownVerb :: error where "ErrUnknownVerb = Sentinel ''unknown verb''"

abbreviation OutcomeAccepted :: string where "OutcomeAccepted \<equiv> ''accepted''"
abbreviation OutcomeDeclined :: string where "OutcomeDeclined \<equiv> ''declined''"
abbreviation OutcomeExpired :: string where "OutcomeExpired \<equiv> ''expired''"

section \<open>Verbs\<close>

datatype verb =
    VerbHold | VerbApprove | VerbNotify | VerbNote | VerbAway | VerbEvent | VerbCancel
  | VerbMessage | VerbWait | VerbLeave | VerbOther string

fun creates :: "verb \<Rightarrow> bool" where
  "creates VerbHold = True"
| "creates VerbAway = True"
| "creates VerbEvent = True"
| "creates _ = False"

definition waits :: "verb \<Rightarrow> bool" where
  "waits v \<longleftrightarrow> v = VerbApprove \<or> v = VerbWait"

fun known :: "verb \<Rightarrow> bool" where
  "known (VerbOther s) = False"
| "known _ = True"

fun verb_name :: "verb \<Rightarrow> string" where
  "verb_name VerbHold = ''hold''"
| "verb_name VerbApprove = ''approve''"
| "verb_name VerbNotify = ''notify''"
| "verb_name VerbNote = ''note''"
| "verb_name VerbAway = ''away''"
| "verb_name VerbEvent = ''event''"
| "verb_name VerbCancel = ''cancel''"
| "verb_name VerbMessage = ''message''"
| "verb_name VerbWait = ''wait''"
| "verb_name VerbLeave = ''leave''"
| "verb_name (VerbOther s) = s"

definition verb_of :: "string \<Rightarrow> verb" where
  "verb_of s = (if s = ''hold'' then VerbHold else if s = ''approve'' then VerbApprove
     else if s = ''notify'' then VerbNotify else if s = ''note'' then VerbNote
     else if s = ''away'' then VerbAway else if s = ''event'' then VerbEvent
     else if s = ''cancel'' then VerbCancel else if s = ''message'' then VerbMessage
     else if s = ''wait'' then VerbWait else if s = ''leave'' then VerbLeave else VerbOther s)"

interpretation verb_text: text_enum verb_name verb_of
  by unfold_locales (simp add: verb_of_def)

lemma creates_known: "creates v \<Longrightarrow> known v"
  by (cases v) auto

lemma waits_known: "waits v \<Longrightarrow> known v"
  by (auto simp: waits_def)

lemma creates_not_waits: "creates v \<Longrightarrow> \<not> waits v"
  by (cases v) (auto simp: waits_def)

lemma waits_simps [simp]:
  "waits VerbApprove" "waits VerbWait" "\<not> waits VerbHold" "\<not> waits VerbNotify" "\<not> waits VerbNote"
  "\<not> waits VerbAway" "\<not> waits VerbEvent" "\<not> waits VerbCancel" "\<not> waits VerbMessage"
  "\<not> waits VerbLeave" "\<not> waits (VerbOther s)"
  by (simp_all add: waits_def)

section \<open>Steps and workflows\<close>

record when_guard =
  day_of_week :: string
  min_attendees :: int
  max_attendees :: int

definition no_guard :: when_guard where
  "no_guard = \<lparr>day_of_week = [], min_attendees = 0, max_attendees = 0\<rparr>"

record step =
  step_verb :: verb
  step_id :: string
  step_on :: "(string \<times> string) list"
  step_next :: string
  step_timeout :: string
  step_when :: when_guard
  step_show_as :: show_as
  step_manager :: bool
  step_approver :: string
  step_team :: role
  step_subject :: string
  step_channel :: string
  step_for :: string

definition zero_step :: step where
  "zero_step = \<lparr>step_verb = VerbOther [], step_id = [], step_on = [], step_next = [], step_timeout = [],
     step_when = no_guard, step_show_as = ShowUnset, step_manager = False, step_approver = [],
     step_team = RoleUnset, step_subject = [], step_channel = [], step_for = []\<rparr>"

record workflow =
  wf_name :: string
  wf_description :: string
  wf_steps :: "step list"

definition parsed_timeout :: "step \<Rightarrow> duration" where
  "parsed_timeout s =
     (if step_timeout s = [] then 0
      else case parse_duration (step_timeout s) of None \<Rightarrow> 0 | Some d \<Rightarrow> d)"

definition parsed_for :: "step \<Rightarrow> duration" where
  "parsed_for s =
     (if step_for s = [] then 0
      else case parse_duration (step_for s) of None \<Rightarrow> 0 | Some d \<Rightarrow> d)"

section \<open>Guards\<close>

definition parse_day :: "string \<Rightarrow> weekday option" where
  "parse_day name =
     (let n = to_lower name in
      if n = ''sun'' then Some Sunday
      else if n = ''mon'' then Some Monday
      else if n = ''tue'' then Some Tuesday
      else if n = ''wed'' then Some Wednesday
      else if n = ''thu'' then Some Thursday
      else if n = ''fri'' then Some Friday
      else if n = ''sat'' then Some Saturday
      else None)"

text \<open>The days of an inclusive range, wrapping past Saturday.\<close>

function day_range :: "weekday \<Rightarrow> weekday \<Rightarrow> weekday list" where
  "day_range d e = d # (if d = e then [] else day_range (next_day d) e)"
  by pat_completeness auto
termination
proof (relation "measure (\<lambda>(d, e). nat ((weekday_index e - weekday_index d) mod 7))")
  fix d e :: weekday
  assume "d \<noteq> e"
  then show "((next_day d, e), d, e) \<in> measure (\<lambda>(d, e). nat ((weekday_index e - weekday_index d) mod 7))"
    by (cases d; cases e) (simp_all add: next_day_def)
qed simp

declare day_range.simps [simp del]

text \<open>One token of the set: empty (skipped), a single day, or a range.\<close>

definition parse_day_token :: "string \<Rightarrow> weekday list result" where
  "parse_day_token tok =
     (if tok = [] then Inr []
      else case cut_on (CHR ''-'') tok of (lo, hi, is_range) \<Rightarrow>
        (case parse_day lo of
           None \<Rightarrow> Inl (Errorf (''unknown day '' @ lo) [])
         | Some from_day \<Rightarrow>
             (if \<not> is_range then Inr [from_day]
              else case parse_day hi of
                     None \<Rightarrow> Inl (Errorf (''unknown day '' @ hi) [])
                   | Some to_day \<Rightarrow> Inr (day_range from_day to_day))))"

fun parse_day_tokens :: "string list \<Rightarrow> weekday list result" where
  "parse_day_tokens [] = Inr []"
| "parse_day_tokens (t # ts) =
     (case parse_day_token (trim_space t) of
        Inl e \<Rightarrow> Inl e
      | Inr ds \<Rightarrow> (case parse_day_tokens ts of Inl e \<Rightarrow> Inl e | Inr es \<Rightarrow> Inr (ds @ es)))"

definition parse_days :: "string \<Rightarrow> weekday list result" where
  "parse_days spec =
     (case parse_day_tokens (split_on (CHR '','') spec) of
        Inl e \<Rightarrow> Inl e
      | Inr ds \<Rightarrow> if ds = [] then Inl (Errorf ''no days named'' []) else Inr ds)"

definition allows :: "when_guard \<Rightarrow> gotime \<Rightarrow> int \<Rightarrow> bool" where
  "allows w at attendees =
     (if day_of_week w \<noteq> [] \<and>
          (case parse_days (day_of_week w) of
             Inl e \<Rightarrow> True
           | Inr days \<Rightarrow> weekday_at at \<notin> set days)
      then False
      else if 0 < min_attendees w \<and> attendees < min_attendees w then False
      else if 0 < max_attendees w \<and> max_attendees w < attendees then False
      else True)"

definition when_validate :: "when_guard \<Rightarrow> error option" where
  "when_validate w = first_error
     [(day_of_week w \<noteq> [] \<and> (case parse_days (day_of_week w) of Inl e \<Rightarrow> True | Inr days \<Rightarrow> False),
         Errorf ''invalid dayOfWeek'' []),
      (min_attendees w < 0, Errorf ''minAttendees cannot be negative'' []),
      (max_attendees w < 0, Errorf ''maxAttendees cannot be negative'' []),
      (0 < min_attendees w \<and> 0 < max_attendees w \<and> max_attendees w < min_attendees w,
         Errorf ''minAttendees exceeds maxAttendees'' [])]"

section \<open>The flow between steps\<close>

fun index_of_id :: "int \<Rightarrow> step list \<Rightarrow> string \<Rightarrow> int" where
  "index_of_id i [] sid = -1"
| "index_of_id i (s # ss) sid = (if step_id s = sid then i else index_of_id (i + 1) ss sid)"

definition step_index :: "workflow \<Rightarrow> string \<Rightarrow> int" where
  "step_index w sid = (if sid = [] then -1 else index_of_id 0 (wf_steps w) sid)"

definition resolve :: "workflow \<Rightarrow> string \<Rightarrow> int" where
  "resolve w target = (if target = ''end'' then -1 else step_index w target)"

abbreviation num_steps :: "workflow \<Rightarrow> int" where
  "num_steps w \<equiv> int (length (wf_steps w))"

abbreviation step_at :: "workflow \<Rightarrow> int \<Rightarrow> step" where
  "step_at w i \<equiv> wf_steps w ! nat i"

definition next_step :: "workflow \<Rightarrow> int \<Rightarrow> string \<Rightarrow> int" where
  "next_step w i outcome =
     (if i < 0 \<or> num_steps w \<le> i then -1
      else let s = step_at w i;
               fall = (if step_next s \<noteq> [] then resolve w (step_next s)
                       else if i + 1 < num_steps w then i + 1 else -1)
           in if outcome \<noteq> []
              then (case map_of (step_on s) outcome of Some target \<Rightarrow> resolve w target | None \<Rightarrow> fall)
              else fall)"

definition has_verb :: "workflow \<Rightarrow> verb \<Rightarrow> bool" where
  "has_verb w v = list_ex (\<lambda>s. step_verb s = v) (wf_steps w)"

definition add_target :: "int list \<Rightarrow> int \<Rightarrow> int list" where
  "add_target out n = (if 0 \<le> n \<and> n \<notin> set out then out @ [n] else out)"

definition jump_targets :: "workflow \<Rightarrow> int \<Rightarrow> int list" where
  "jump_targets w i =
     (let s = step_at w i in
      if step_verb s = VerbApprove then
        (let out = add_target (add_target [] (next_step w i OutcomeAccepted)) (next_step w i OutcomeDeclined)
         in if step_timeout s \<noteq> [] then add_target out (next_step w i OutcomeExpired) else out)
      else add_target [] (next_step w i []))"

lemma index_of_id_range:
  "index_of_id i ss sid = -1 \<or> (i \<le> index_of_id i ss sid \<and> index_of_id i ss sid < i + int (length ss))"
  by (induction i ss sid rule: index_of_id.induct) auto

lemma index_of_id_found:
  "0 \<le> i \<Longrightarrow> 0 \<le> index_of_id i ss sid \<Longrightarrow> step_id (ss ! nat (index_of_id i ss sid - i)) = sid"
proof (induction i ss sid rule: index_of_id.induct)
  case (2 i s ss sid)
  show ?case
  proof (cases "step_id s = sid")
    case True
    then show ?thesis by simp
  next
    case False
    then have ge: "i + 1 \<le> index_of_id (i + 1) ss sid"
      using index_of_id_range[of "i + 1" ss sid] "2.prems" by auto
    then have "nat (index_of_id (i + 1) ss sid - i) = Suc (nat (index_of_id (i + 1) ss sid - (i + 1)))"
      by linarith
    with False "2.IH" "2.prems" show ?thesis by simp
  qed
qed simp

lemma step_index_range: "step_index w t = -1 \<or> (0 \<le> step_index w t \<and> step_index w t < num_steps w)"
  using index_of_id_range[of 0 "wf_steps w" t] by (auto simp: step_index_def)

lemma resolve_range: "resolve w t = -1 \<or> (0 \<le> resolve w t \<and> resolve w t < num_steps w)"
  using step_index_range[of w t] by (auto simp: resolve_def)

lemma next_step_range: "next_step w i o1 = -1 \<or> (0 \<le> next_step w i o1 \<and> next_step w i o1 < num_steps w)"
  using resolve_range[of w] by (auto simp: next_step_def Let_def split: option.splits)

lemma next_step_valid: "0 \<le> next_step w i o1 \<Longrightarrow> next_step w i o1 < num_steps w"
  using next_step_range[of w i o1] by auto

lemma set_add_target: "set (add_target out n) = set out \<union> (if 0 \<le> n then {n} else {})"
  by (auto simp: add_target_def)

lemma jump_targets_range: "j \<in> set (jump_targets w i) \<Longrightarrow> 0 \<le> j \<and> j < num_steps w"
  using next_step_valid by (auto simp: jump_targets_def Let_def set_add_target split: if_splits)

lemma next_step_jump:
  assumes "step_verb (step_at w i) \<noteq> VerbApprove" and "0 \<le> next_step w i []"
  shows "next_step w i [] \<in> set (jump_targets w i)"
  using assms by (simp add: jump_targets_def Let_def set_add_target)

section \<open>Cycle detection\<close>

text \<open>
  \<open>hasCycle\<close> is a depth-first search with three colours. \<open>visit_targets\<close> is the loop of the
  closure \<open>visit\<close> over the targets of a step: a gray target closes a cycle; a white one is
  coloured gray and its own targets visited, and becomes black if none of them finds a cycle.
\<close>

datatype color = White | Gray | Black

definition whites :: "color list \<Rightarrow> nat" where
  "whites c = length (filter (\<lambda>x. x = White) c)"

function (sequential) visit_targets :: "workflow \<Rightarrow> color list \<Rightarrow> nat list \<Rightarrow> bool \<times> color list" where
  "visit_targets w c [] = (False, c)"
| "visit_targets w c (j # js) =
     (if length c \<le> j then visit_targets w c js
      else if c ! j = Gray then (True, c)
      else if c ! j = White then
        (case visit_targets w (c[j := Gray]) (map nat (jump_targets w (int j))) of
           (True, c') \<Rightarrow> (True, c')
         | (False, c') \<Rightarrow> visit_targets w (c'[j := Black]) js)
      else visit_targets w c js)"
  by pat_completeness auto

lemma whites_update:
  "j < length c \<Longrightarrow> x \<noteq> White \<Longrightarrow> whites (c[j := x]) + (if c ! j = White then 1 else 0) = whites c"
proof (induction c arbitrary: j)
  case (Cons a c)
  show ?case
  proof (cases j)
    case 0
    with Cons.prems show ?thesis by (simp add: whites_def)
  next
    case (Suc k)
    with Cons.IH[of k] Cons.prems show ?thesis by (simp add: whites_def split: if_splits)
  qed
qed simp

lemma whites_update_le: "x \<noteq> White \<Longrightarrow> whites (c[j := x]) \<le> whites c"
  using whites_update[of j c x] by (cases "j < length c") (auto simp: list_update_beyond not_less split: if_splits)

lemma visit_targets_whites_dom:
  "visit_targets_dom (w, c, js) \<Longrightarrow> whites (snd (visit_targets w c js)) \<le> whites c"
proof (induction w c js rule: visit_targets.pinduct)
  case (1 w c)
  then show ?case by (simp add: visit_targets.psimps)
next
  case (2 w c j js)
  show ?case
  proof (cases "j < length c \<and> c ! j = White")
    case False
    with 2 show ?thesis by (auto simp: visit_targets.psimps)
  next
    case True
    obtain r c' where v: "visit_targets w (c[j := Gray]) (map nat (jump_targets w (int j))) = (r, c')"
      by fastforce
    have "whites c' \<le> whites (c[j := Gray])"
      using "2.IH"(2) True v by simp
    also have "\<dots> \<le> whites c" by (rule whites_update_le) simp
    finally have c': "whites c' \<le> whites c" .
    show ?thesis
    proof (cases r)
      case True
      with 2 \<open>j < length c \<and> c ! j = White\<close> v c' show ?thesis by (simp add: visit_targets.psimps)
    next
      case False
      have "whites (snd (visit_targets w (c'[j := Black]) js)) \<le> whites (c'[j := Black])"
        using "2.IH"(3)[OF _ _ _ v[symmetric]] True False by simp
      also have "\<dots> \<le> whites c'" by (rule whites_update_le) simp
      finally show ?thesis
        using 2 True False v c' by (simp add: visit_targets.psimps)
    qed
  qed
qed

lemma visit_targets_whites_recolor:
  assumes "visit_targets_dom (w, c[j := Gray], js)" and "(x, y) = visit_targets w (c[j := Gray]) js"
    and "j < length c" and "c ! j = White"
  shows "whites (y[j := Black]) < whites c"
proof -
  have "whites (y[j := Black]) \<le> whites y" by (rule whites_update_le) simp
  also have "\<dots> \<le> whites (c[j := Gray])"
    using visit_targets_whites_dom[OF assms(1)] assms(2) by (metis snd_conv)
  also have "\<dots> < whites c" using whites_update[of j c Gray] assms(3,4) by simp
  finally show ?thesis .
qed

termination visit_targets
proof (relation "measures [\<lambda>(w, c, js). whites c, \<lambda>(w, c, js). length js]", goal_cases)
  case (3 w c j js)
  then show ?case using whites_update[of j c Gray] by simp
next
  case (4 w c j js x y)
  then show ?case using visit_targets_whites_recolor[of w c j] by simp
qed auto

text \<open>The outer loop starts a visit at every white step, as the targets loop does at a target.\<close>

definition has_cycle :: "workflow \<Rightarrow> bool" where
  "has_cycle w =
     fst (visit_targets w (replicate (length (wf_steps w)) White) [0..<length (wf_steps w)])"

section \<open>Validation\<close>

text \<open>
  The state of the loop over the steps: the ids seen, the counts of creating and approve steps, and
  the indices of the first approve and notify steps (\<open>-1\<close> for none).
\<close>

record vstate =
  v_ids :: "string list"
  v_creators :: int
  v_approves :: int
  v_first_approve :: int
  v_first_notify :: int

definition zero_vstate :: vstate where
  "zero_vstate = \<lparr>v_ids = [], v_creators = 0, v_approves = 0, v_first_approve = -1, v_first_notify = -1\<rparr>"

definition invalid_step :: "int \<Rightarrow> string \<Rightarrow> error list \<Rightarrow> error" where
  "invalid_step i msg es = Errorf (''step '' @ show_int i @ '': '' @ msg) (ErrInvalid # es)"

definition invalid_workflow :: "string \<Rightarrow> error" where
  "invalid_workflow msg = Errorf msg [ErrInvalid]"

definition bad_outcome :: "string \<Rightarrow> bool" where
  "bad_outcome out \<longleftrightarrow> out \<noteq> OutcomeAccepted \<and> out \<noteq> OutcomeDeclined \<and> out \<noteq> OutcomeExpired"

text \<open>The body of the loop up to its last early return, in the order of the source.\<close>

definition check_fields :: "int \<Rightarrow> step \<Rightarrow> error option" where
  "check_fields i s = first_error
     [(\<not> known (step_verb s), invalid_step i ''unknown verb'' [ErrUnknownVerb]),
      (step_show_as s \<noteq> ShowUnset \<and> \<not> show_as_valid (step_show_as s), invalid_step i ''invalid showAs'' []),
      (step_team s \<noteq> RoleUnset \<and> \<not> role_valid (step_team s), invalid_step i ''invalid team role'' []),
      (step_verb s = VerbNotify \<and> step_team s = RoleRequired,
         invalid_step i ''notify team must be optional so it never blocks teammates'' []),
      (step_verb s = VerbMessage \<and> step_channel s = [], invalid_step i ''a message step needs a channel'' []),
      (step_channel s \<noteq> [] \<and> step_verb s \<noteq> VerbMessage,
         invalid_step i ''only a message step may set a channel'' []),
      (step_approver s \<noteq> [] \<and> step_verb s \<noteq> VerbApprove,
         invalid_step i ''only an approve step may set an approver'' []),
      (step_verb s = VerbWait \<and> (case parse_duration (step_for s) of None \<Rightarrow> True | Some d \<Rightarrow> d \<le> 0),
         invalid_step i ''a wait step needs a positive for duration'' []),
      (step_for s \<noteq> [] \<and> step_verb s \<noteq> VerbWait, invalid_step i ''only a wait step may set for'' [])]"

definition check_branches :: "int \<Rightarrow> step \<Rightarrow> error option" where
  "check_branches i s = first_error
     [(step_on s \<noteq> [] \<and> step_verb s \<noteq> VerbApprove,
         invalid_step i ''only an approve step may branch with on'' []),
      (list_ex (\<lambda>(out, target). bad_outcome out) (step_on s), invalid_step i ''invalid branch outcome'' []),
      (step_timeout s \<noteq> [] \<and> step_verb s \<noteq> VerbApprove,
         invalid_step i ''only an approve step may set a timeout'' []),
      (step_timeout s \<noteq> [] \<and> parse_duration (step_timeout s) = None, invalid_step i ''invalid timeout'' []),
      (step_timeout s \<noteq> [] \<and> map_of (step_on s) OutcomeExpired = None,
         invalid_step i ''a timeout needs an expired branch'' []),
      (map_of (step_on s) OutcomeExpired \<noteq> None \<and> step_timeout s = [],
         invalid_step i ''an expired branch needs a timeout'' [])]"

definition check_guard :: "int \<Rightarrow> step \<Rightarrow> error option" where
  "check_guard i s =
     (case when_validate (step_when s) of
        Some e \<Rightarrow> Some (invalid_step i [] [e])
      | None \<Rightarrow> first_error
          [(creates (step_verb s) \<and> step_when s \<noteq> no_guard,
              invalid_step i ''the creating step cannot have a when guard'' []),
           (waits (step_verb s) \<and> step_when s \<noteq> no_guard,
              invalid_step i ''a gate step cannot have a when guard, which would skip the gate'' [])])"

definition check_order :: "int \<Rightarrow> vstate \<Rightarrow> step \<Rightarrow> error option" where
  "check_order i v s = first_error
     [(creates (step_verb s) \<and> i \<noteq> 0, invalid_step i ''must be the first step'' []),
      (step_verb s = VerbApprove \<and> 1 < v_approves v + 1 \<and> step_approver s = [],
         invalid_step i ''a later approve must name an approver by email'' []),
      (step_verb s = VerbApprove \<and> 1 < v_approves v + 1 \<and> step_manager s,
         invalid_step i ''only the first approve may use the directory manager'' [])]"

definition check_step :: "int \<Rightarrow> vstate \<Rightarrow> step \<Rightarrow> error option" where
  "check_step i v s =
     (case check_fields i s of Some e \<Rightarrow> Some e
      | None \<Rightarrow> (if step_id s \<noteq> [] \<and> step_id s \<in> set (v_ids v)
                 then Some (invalid_workflow (''duplicate step id '' @ step_id s))
                 else case check_branches i s of Some e \<Rightarrow> Some e
                 | None \<Rightarrow> (case check_guard i s of Some e \<Rightarrow> Some e | None \<Rightarrow> check_order i v s)))"

definition count_step :: "int \<Rightarrow> step \<Rightarrow> vstate \<Rightarrow> vstate" where
  "count_step i s v =
     \<lparr>v_ids = (if step_id s \<noteq> [] then step_id s # v_ids v else v_ids v),
      v_creators = (if creates (step_verb s) then v_creators v + 1 else v_creators v),
      v_approves = (if step_verb s = VerbApprove then v_approves v + 1 else v_approves v),
      v_first_approve = (if step_verb s = VerbApprove \<and> v_first_approve v < 0 then i else v_first_approve v),
      v_first_notify = (if step_verb s = VerbNotify \<and> v_first_notify v < 0 then i else v_first_notify v)\<rparr>"

fun check_steps :: "int \<Rightarrow> vstate \<Rightarrow> step list \<Rightarrow> vstate result" where
  "check_steps i v [] = Inr v"
| "check_steps i v (s # ss) =
     (case check_step i v s of
        Some e \<Rightarrow> Inl e
      | None \<Rightarrow> check_steps (i + 1) (count_step i s v) ss)"

definition check_targets :: "workflow \<Rightarrow> int \<Rightarrow> step \<Rightarrow> error option" where
  "check_targets w i s = first_error
     [(list_ex (\<lambda>(out, target). target \<noteq> ''end'' \<and> step_index w target < 0) (step_on s),
         invalid_step i ''branch targets unknown step'' []),
      (step_next s \<noteq> [] \<and> step_next s \<noteq> ''end'' \<and> step_index w (step_next s) < 0,
         invalid_step i ''next targets unknown step'' [])]"

fun check_all_targets :: "workflow \<Rightarrow> int \<Rightarrow> step list \<Rightarrow> error option" where
  "check_all_targets w i [] = None"
| "check_all_targets w i (s # ss) =
     (case check_targets w i s of Some e \<Rightarrow> Some e | None \<Rightarrow> check_all_targets w (i + 1) ss)"

definition validate :: "workflow \<Rightarrow> error option" where
  "validate w =
     (if wf_name w = [] then Some (invalid_workflow ''missing name'')
      else if wf_steps w = [] then Some (invalid_workflow ''has no steps'')
      else case check_steps 0 zero_vstate (wf_steps w) of
        Inl e \<Rightarrow> Some e
      | Inr v \<Rightarrow>
          (if v_creators v \<noteq> 1 then Some (invalid_workflow ''needs exactly one creating step'')
           else if 0 \<le> v_first_approve v \<and> step_verb (step_at w 0) \<noteq> VerbHold
           then Some (invalid_workflow ''approval requires a hold'')
           else if 0 \<le> v_first_approve v \<and> 0 \<le> v_first_notify v \<and> v_first_notify v < v_first_approve v
           then Some (invalid_workflow ''notifies the team before approval'')
           else case check_all_targets w 0 (wf_steps w) of
             Some e \<Rightarrow> Some e
           | None \<Rightarrow>
               (if has_cycle w
                then Some (invalid_workflow ''loops: its next or branch targets form a cycle'')
                else None)))"

end
