(* ===== verification/Workflow_Spec.thy ===== *)
theory Workflow_Spec
  imports Workflow
begin

text \<open>
  What \<open>Workflow.Validate\<close> promises, stated without its loops: the declarative \<open>well_formed\<close>, and the
  two refinements that tie the code to it. The depth-first search \<open>has_cycle\<close> decides acyclicity of
  the jump relation (gray steps lead to the step being visited; black steps are closed under jumps
  and lie on no cycle), and the fold over the steps accepts exactly the well-formed workflows.
\<close>

section \<open>Correctness of the cycle search\<close>

definition jump_rel :: "workflow \<Rightarrow> (nat \<times> nat) set" where
  "jump_rel w = {(i, j). i < length (wf_steps w) \<and> int j \<in> set (jump_targets w (int i))}"

lemma jump_rel_range: "(i, j) \<in> jump_rel w \<Longrightarrow> i < length (wf_steps w) \<and> j < length (wf_steps w)"
  using jump_targets_range[of "int j" w "int i"] by (auto simp: jump_rel_def)

lemma jump_rel_targets:
  "i < length (wf_steps w) \<Longrightarrow> (i, j) \<in> jump_rel w \<longleftrightarrow> j \<in> set (map nat (jump_targets w (int i)))"
  using jump_targets_range[of _ w "int i"] by (force simp: jump_rel_def)

definition grays :: "color list \<Rightarrow> nat set" where
  "grays c = {j. j < length c \<and> c ! j = Gray}"

definition blacks :: "color list \<Rightarrow> nat set" where
  "blacks c = {j. j < length c \<and> c ! j = Black}"

text \<open>Black steps are finished: closed under jumps and on no cycle.\<close>

definition finished :: "workflow \<Rightarrow> nat set \<Rightarrow> bool" where
  "finished w B \<longleftrightarrow> (\<forall>b \<in> B. (b, b) \<notin> (jump_rel w)\<^sup>+ \<and> (\<forall>t. (b, t) \<in> jump_rel w \<longrightarrow> t \<in> B))"

lemma finished_trancl: "(b, t) \<in> (jump_rel w)\<^sup>+ \<Longrightarrow> finished w B \<Longrightarrow> b \<in> B \<Longrightarrow> t \<in> B"
  by (induction rule: trancl_induct) (auto simp: finished_def)

lemma finished_insert:
  assumes B: "finished w B" and j: "j \<notin> B" and t: "\<And>t. (j, t) \<in> jump_rel w \<Longrightarrow> t \<in> B"
  shows "finished w (insert j B)"
proof -
  have "(j, j) \<notin> (jump_rel w)\<^sup>+"
  proof
    assume "(j, j) \<in> (jump_rel w)\<^sup>+"
    then obtain k where "(j, k) \<in> jump_rel w" "k = j \<or> (k, j) \<in> (jump_rel w)\<^sup>+"
      by (metis tranclD rtranclD)
    then show False using t j finished_trancl[OF _ B] by blast
  qed
  then show ?thesis using B t by (auto simp: finished_def)
qed

lemma paint_gray:
  "j < length c \<Longrightarrow> c ! j = White \<Longrightarrow> grays (c[j := Gray]) = insert j (grays c) \<and> blacks (c[j := Gray]) = blacks c"
  by (auto simp: grays_def blacks_def nth_list_update)

lemma paint_black:
  "j < length c \<Longrightarrow> c ! j = Gray \<Longrightarrow> grays (c[j := Black]) = grays c - {j} \<and> blacks (c[j := Black]) = insert j (blacks c)"
  by (auto simp: grays_def blacks_def nth_list_update)

text \<open>A visit that finds no cycle finishes its targets and restores the gray path.\<close>

definition search_done :: "workflow \<Rightarrow> color list \<Rightarrow> nat list \<Rightarrow> color list \<Rightarrow> bool" where
  "search_done w c js c' \<longleftrightarrow> length c' = length c \<and> grays c' = grays c \<and> blacks c \<subseteq> blacks c' \<and> finished w (blacks c')
     \<and> {j \<in> set js. j < length c} \<subseteq> blacks c'"

lemma visited_targets_finish:
  assumes "search_done w (c[j := Gray]) (map nat (jump_targets w (int j))) d"
    and j: "j < length c" "c ! j = White" and len: "length c = length (wf_steps w)"
  shows "finished w (insert j (blacks d)) \<and> grays (d[j := Black]) = grays c
    \<and> blacks (d[j := Black]) = insert j (blacks d) \<and> blacks c \<subseteq> blacks d \<and> length d = length c"
proof -
  note v = assms(1)[unfolded search_done_def length_list_update]
  have d: "length d = length c" "grays d = insert j (grays c)" "blacks c \<subseteq> blacks d" "finished w (blacks d)"
    using v paint_gray[OF j] by simp_all
  have "j \<in> grays d" using d(2) by simp
  then have jd: "j < length d" "d ! j = Gray" "j \<notin> blacks d"
    by (simp_all add: grays_def blacks_def)
  have ts: "{t \<in> set (map nat (jump_targets w (int j))). t < length c} \<subseteq> blacks d"
    using v by blast
  have jn: "j < length (wf_steps w)" using j len by simp
  have "t \<in> blacks d" if "(j, t) \<in> jump_rel w" for t
  proof (rule subsetD[OF ts], rule CollectI, rule conjI)
    show "t \<in> set (map nat (jump_targets w (int j)))" using jump_rel_targets[OF jn] that by simp
    show "t < length c" using jump_rel_range[OF that] len by simp
  qed
  then have "finished w (insert j (blacks d))"
    using finished_insert d(4) jd(3) by blast
  moreover have "insert j (grays c) - {j} = grays c" using j by (auto simp: grays_def)
  ultimately show ?thesis using paint_black[OF jd(1,2)] d by simp
qed

lemma visit_targets_done:
  "visit_targets w c js = (False, c') \<Longrightarrow> length c = length (wf_steps w) \<Longrightarrow> finished w (blacks c) \<Longrightarrow>
     search_done w c js c'"
proof (induction w c js arbitrary: c' rule: visit_targets.induct)
  case (1 w c)
  then show ?case by (simp add: search_done_def)
next
  case (2 w c j js)
  consider "length c \<le> j" | "j < length c" "c ! j = Black" | "j < length c" "c ! j = White"
    using "2.prems"(1) by (cases "c ! j") (force split: if_splits)+
  then show ?case
  proof cases
    case 1
    with 2 show ?thesis by (auto simp: search_done_def)
  next
    case 2
    then show ?thesis using "2.IH"(4)[of c'] "2.prems" by (auto simp: search_done_def blacks_def)
  next
    case 3
    then obtain d where d: "visit_targets w (c[j := Gray]) (map nat (jump_targets w (int j))) = (False, d)"
      and rest: "visit_targets w (d[j := Black]) js = (False, c')"
      using "2.prems"(1) by (auto split: prod.splits bool.splits)
    have "search_done w (c[j := Gray]) (map nat (jump_targets w (int j))) d"
      using "2.IH"(2)[of d] d 3 paint_gray[OF 3] "2.prems" by simp
    note fin = visited_targets_finish[OF this 3 "2.prems"(2)]
    have "search_done w (d[j := Black]) js c'"
      using "2.IH"(3)[of False d c'] d rest 3 fin "2.prems"(2) by simp
    then show ?thesis using fin by (auto simp: search_done_def)
  qed
qed

lemma visit_targets_found:
  "visit_targets w c js = (True, c') \<Longrightarrow> length c = length (wf_steps w) \<Longrightarrow> finished w (blacks c) \<Longrightarrow>
     (\<forall>g \<in> grays c. \<forall>j \<in> set js. (g, j) \<in> (jump_rel w)\<^sup>+) \<Longrightarrow> \<exists>x. (x, x) \<in> (jump_rel w)\<^sup>+"
proof (induction w c js arbitrary: c' rule: visit_targets.induct)
  case (2 w c j js)
  consider "length c \<le> j" | "j < length c" "c ! j = Black" | "j < length c" "c ! j = Gray"
    | "j < length c" "c ! j = White"
    by (cases "c ! j") force+
  then show ?case
  proof cases
    case 1
    then show ?thesis using "2.IH"(1)[of c'] "2.prems" by simp
  next
    case 2
    then show ?thesis using "2.IH"(4)[of c'] "2.prems" by simp
  next
    case 3
    then show ?thesis using "2.prems"(4) by (auto simp: grays_def)
  next
    case 4
    let ?ts = "map nat (jump_targets w (int j))"
    obtain r d where d: "visit_targets w (c[j := Gray]) ?ts = (r, d)" by fastforce
    show ?thesis
    proof (cases r)
      case True
      have "\<forall>g \<in> grays (c[j := Gray]). \<forall>t \<in> set ?ts. (g, t) \<in> (jump_rel w)\<^sup>+"
        using paint_gray[OF 4] jump_rel_targets[of j w] 4 "2.prems"(2,4)
        by (auto intro: trancl_into_trancl r_into_trancl)
      then show ?thesis
        using "2.IH"(2)[of d] d 4 paint_gray[OF 4] "2.prems"(2,3) True by simp
    next
      case False
      then have "search_done w (c[j := Gray]) ?ts d"
        using visit_targets_done[of w "c[j := Gray]" ?ts d] d 4 paint_gray[OF 4] "2.prems"(2,3) by simp
      note fin = visited_targets_finish[OF this 4 "2.prems"(2)]
      have "visit_targets w (d[j := Black]) js = (True, c')"
        using "2.prems"(1) 4 d False by simp
      then show ?thesis
        using "2.IH"(3)[of False d c'] d 4 False fin "2.prems"(2,4) by simp
    qed
  qed
qed simp

lemma has_cycle_iff_cyclic: "has_cycle w \<longleftrightarrow> \<not> acyclic (jump_rel w)"
proof -
  let ?n = "length (wf_steps w)"
  let ?c = "replicate ?n White"
  have start: "grays ?c = {}" "finished w (blacks ?c)"
    by (auto simp: grays_def blacks_def finished_def)
  obtain r c' where v: "visit_targets w ?c [0..<?n] = (r, c')" by fastforce
  show ?thesis
  proof (cases r)
    case True
    then show ?thesis
      using visit_targets_found[of w ?c "[0..<?n]" c'] start v by (auto simp: has_cycle_def acyclic_def)
  next
    case False
    then have "{j \<in> set [0..<?n]. j < ?n} \<subseteq> blacks c'" "finished w (blacks c')"
      using visit_targets_done[of w ?c "[0..<?n]" c'] start v by (auto simp: search_done_def)
    then have "(x, x) \<notin> (jump_rel w)\<^sup>+" for x
      using jump_rel_range tranclD[of x x "jump_rel w"] by (force simp: finished_def)
    then show ?thesis using False v by (simp add: has_cycle_def acyclic_def)
  qed
qed

section \<open>Well-formed workflows\<close>

definition guard_ok :: "when_guard \<Rightarrow> bool" where
  "guard_ok g \<longleftrightarrow> (day_of_week g \<noteq> [] \<longrightarrow> (\<exists>ds. parse_days (day_of_week g) = Inr ds))
     \<and> 0 \<le> min_attendees g \<and> 0 \<le> max_attendees g
     \<and> (0 < min_attendees g \<and> 0 < max_attendees g \<longrightarrow> min_attendees g \<le> max_attendees g)"

definition fields_ok :: "step \<Rightarrow> bool" where
  "fields_ok s \<longleftrightarrow> known (step_verb s)
     \<and> (step_show_as s = ShowUnset \<or> show_as_valid (step_show_as s))
     \<and> (step_team s = RoleUnset \<or> role_valid (step_team s))
     \<and> (step_verb s = VerbNotify \<longrightarrow> step_team s \<noteq> RoleRequired)
     \<and> (step_verb s = VerbMessage \<longleftrightarrow> step_channel s \<noteq> [])
     \<and> (step_approver s \<noteq> [] \<longrightarrow> step_verb s = VerbApprove)
     \<and> (step_verb s = VerbWait \<longrightarrow> (\<exists>d. parse_duration (step_for s) = Some d \<and> 0 < d))
     \<and> (step_for s \<noteq> [] \<longrightarrow> step_verb s = VerbWait)"

definition branches_ok :: "step \<Rightarrow> bool" where
  "branches_ok s \<longleftrightarrow> (step_on s \<noteq> [] \<longrightarrow> step_verb s = VerbApprove)
     \<and> fst ` set (step_on s) \<subseteq> {OutcomeAccepted, OutcomeDeclined, OutcomeExpired}
     \<and> (step_timeout s \<noteq> [] \<longrightarrow> step_verb s = VerbApprove \<and> (\<exists>d. parse_duration (step_timeout s) = Some d))
     \<and> (step_timeout s \<noteq> [] \<longleftrightarrow> OutcomeExpired \<in> fst ` set (step_on s))"

definition step_ok :: "step \<Rightarrow> bool" where
  "step_ok s \<longleftrightarrow> fields_ok s \<and> branches_ok s \<and> guard_ok (step_when s)
     \<and> (creates (step_verb s) \<or> waits (step_verb s) \<longrightarrow> step_when s = no_guard)"

definition approve_at :: "workflow \<Rightarrow> nat \<Rightarrow> bool" where
  "approve_at w i \<longleftrightarrow> i < length (wf_steps w) \<and> step_verb (wf_steps w ! i) = VerbApprove"

definition target_ok :: "workflow \<Rightarrow> string \<Rightarrow> bool" where
  "target_ok w t \<longleftrightarrow> t = ''end'' \<or> (t \<noteq> [] \<and> t \<in> step_id ` set (wf_steps w))"

definition well_formed :: "workflow \<Rightarrow> bool" where
  "well_formed w \<longleftrightarrow>
     wf_name w \<noteq> [] \<and> wf_steps w \<noteq> []
     \<and> (\<forall>s \<in> set (wf_steps w). step_ok s)
     \<and> distinct (filter (\<lambda>x. x \<noteq> []) (map step_id (wf_steps w)))
     \<and> (\<forall>i < length (wf_steps w). creates (step_verb (wf_steps w ! i)) \<longleftrightarrow> i = 0)
     \<and> (\<forall>i j. approve_at w i \<and> approve_at w j \<and> i < j \<longrightarrow>
          step_approver (wf_steps w ! j) \<noteq> [] \<and> \<not> step_manager (wf_steps w ! j))
     \<and> ((\<exists>i. approve_at w i) \<longrightarrow> step_verb (wf_steps w ! 0) = VerbHold)
     \<and> (\<forall>i j. i < length (wf_steps w) \<and> step_verb (wf_steps w ! i) = VerbNotify \<and> approve_at w j \<longrightarrow>
          (\<exists>k < i. approve_at w k))
     \<and> (\<forall>s \<in> set (wf_steps w). (\<forall>t \<in> snd ` set (step_on s). target_ok w t)
          \<and> (step_next s \<noteq> [] \<longrightarrow> target_ok w (step_next s)))
     \<and> acyclic (jump_rel w)"

section \<open>The checks of one step\<close>

lemma parse_duration_Nil [simp]: "parse_duration [] = None"
  by (simp add: parse_duration_def)

lemma when_validate_None: "when_validate g = None \<longleftrightarrow> guard_ok g"
  by (auto simp: when_validate_def guard_ok_def check_simps split: sum.splits)

lemma map_of_expired: "map_of on x = None \<longleftrightarrow> x \<notin> fst ` set on"
  by (rule map_of_eq_None_iff)

definition order_ok :: "int \<Rightarrow> vstate \<Rightarrow> step \<Rightarrow> bool" where
  "order_ok i v s \<longleftrightarrow> (creates (step_verb s) \<longrightarrow> i = 0)
     \<and> (step_id s \<noteq> [] \<longrightarrow> step_id s \<notin> set (v_ids v))
     \<and> (step_verb s = VerbApprove \<and> 0 < v_approves v \<longrightarrow> step_approver s \<noteq> [] \<and> \<not> step_manager s)"

lemma check_fields_None: "check_fields i s = None \<longleftrightarrow> fields_ok s"
  by (auto simp: check_fields_def fields_ok_def check_simps not_le split: option.splits)

lemma bad_outcome_notin: "bad_outcome out \<longleftrightarrow> out \<notin> {OutcomeAccepted, OutcomeDeclined, OutcomeExpired}"
  unfolding bad_outcome_def insert_iff empty_iff by satx

lemma list_ex_fst_notin: "list_ex (\<lambda>(x, y). x \<notin> S) xs \<longleftrightarrow> \<not> fst ` set xs \<subseteq> S"
  by (force simp: list_ex_iff)

lemmas outcomes_ok = list_ex_fst_notin[where S = "{OutcomeAccepted, OutcomeDeclined, OutcomeExpired}",
    folded bad_outcome_notin]

lemma check_branches_None: "check_branches i s = None \<longleftrightarrow> branches_ok s"
proof -
  have p: "parse_duration (step_timeout s) = None \<longleftrightarrow> \<not> (\<exists>d. parse_duration (step_timeout s) = Some d)" by simp
  show ?thesis
    unfolding check_branches_def branches_ok_def first_error_Cons first_error.simps(1) map_of_expired outcomes_ok p simp_thms
    by satx
qed

lemma check_guard_None:
  "check_guard i s = None \<longleftrightarrow> guard_ok (step_when s)
     \<and> (creates (step_verb s) \<or> waits (step_verb s) \<longrightarrow> step_when s = no_guard)"
  by (auto simp: check_guard_def check_simps when_validate_None[symmetric] split: option.splits)

lemma check_order_None:
  "check_order i v s = None \<longleftrightarrow> (creates (step_verb s) \<longrightarrow> i = 0)
     \<and> (step_verb s = VerbApprove \<and> 0 < v_approves v \<longrightarrow> step_approver s \<noteq> [] \<and> \<not> step_manager s)"
  by (auto simp: check_order_def check_simps)

lemma check_step_None: "check_step i v s = None \<longleftrightarrow> step_ok s \<and> order_ok i v s"
proof -
  have "check_step i v s = None \<longleftrightarrow> check_fields i s = None \<and> (step_id s \<noteq> [] \<longrightarrow> step_id s \<notin> set (v_ids v))
      \<and> check_branches i s = None \<and> check_guard i s = None \<and> check_order i v s = None"
    by (auto simp: check_step_def split: option.splits)
  then show ?thesis
    unfolding check_fields_None check_branches_None check_guard_None check_order_None step_ok_def order_ok_def
    by satx
qed

section \<open>The loop over the steps\<close>

fun count_steps :: "int \<Rightarrow> step list \<Rightarrow> vstate \<Rightarrow> vstate" where
  "count_steps i [] v = v"
| "count_steps i (s # ss) v = count_steps (i + 1) ss (count_step i s v)"

lemma check_steps_Inr:
  "check_steps i v ss = Inr v' \<longleftrightarrow>
     (\<forall>k < length ss. check_step (i + int k) (count_steps i (take k ss) v) (ss ! k) = None)
     \<and> v' = count_steps i ss v"
proof (induction ss arbitrary: i v)
  case (Cons s ss)
  have "(\<forall>k < length (s # ss). check_step (i + int k) (count_steps i (take k (s # ss)) v) ((s # ss) ! k) = None)
    \<longleftrightarrow> check_step i v s = None \<and> (\<forall>k < length ss. check_step (i + 1 + int k)
          (count_steps (i + 1) (take k ss) (count_step i s v)) (ss ! k) = None)"
    by (simp add: All_less_Suc2 add.assoc)
  then show ?case using Cons.IH by (cases "check_step i v s") auto
qed auto

lemma count_steps_ids:
  "v_ids (count_steps i ss v) = rev (filter (\<lambda>x. x \<noteq> []) (map step_id ss)) @ v_ids v"
  by (induction i ss v rule: count_steps.induct) (auto simp: count_step_def)

lemma count_steps_approves:
  "v_approves (count_steps i ss v) = v_approves v + int (length (filter (\<lambda>s. step_verb s = VerbApprove) ss))"
  by (induction i ss v rule: count_steps.induct) (auto simp: count_step_def)

lemma count_steps_creators:
  "v_creators (count_steps i ss v) = v_creators v + int (length (filter (\<lambda>s. creates (step_verb s)) ss))"
  by (induction i ss v rule: count_steps.induct) (auto simp: count_step_def)

lemma count_steps_first_approve:
  "0 \<le> i \<Longrightarrow> v_first_approve (count_steps i ss v) =
     (if 0 \<le> v_first_approve v \<or> \<not> (\<exists>s \<in> set ss. step_verb s = VerbApprove) then v_first_approve v
      else i + int (first_index (\<lambda>s. step_verb s = VerbApprove) ss))"
  by (induction i ss v rule: count_steps.induct) (auto simp: count_step_def first_index_def)

lemma count_steps_first_notify:
  "0 \<le> i \<Longrightarrow> v_first_notify (count_steps i ss v) =
     (if 0 \<le> v_first_notify v \<or> \<not> (\<exists>s \<in> set ss. step_verb s = VerbNotify) then v_first_notify v
      else i + int (first_index (\<lambda>s. step_verb s = VerbNotify) ss))"
  by (induction i ss v rule: count_steps.induct) (auto simp: count_step_def first_index_def)

lemmas count_steps_fields = count_steps_ids count_steps_approves count_steps_creators
  count_steps_first_approve count_steps_first_notify

lemma order_ok_count:
  assumes "k < length ss"
  shows "order_ok (int k) (count_steps 0 (take k ss) zero_vstate) (ss ! k) \<longleftrightarrow>
     (creates (step_verb (ss ! k)) \<longrightarrow> k = 0)
     \<and> (step_id (ss ! k) \<noteq> [] \<longrightarrow> step_id (ss ! k) \<notin> set (take k (map step_id ss)))
     \<and> (step_verb (ss ! k) = VerbApprove \<and> (\<exists>i < k. step_verb (ss ! i) = VerbApprove) \<longrightarrow>
          step_approver (ss ! k) \<noteq> [] \<and> \<not> step_manager (ss ! k))"
proof -
  have "0 < v_approves (count_steps 0 (take k ss) zero_vstate) \<longleftrightarrow> (\<exists>i < k. step_verb (ss ! i) = VerbApprove)"
  proof -
    have "(\<exists>x \<in> set (take k ss). step_verb x = VerbApprove) \<longleftrightarrow> (\<exists>i < k. step_verb (ss ! i) = VerbApprove)"
      using assms by (force simp: in_set_conv_nth)
    then show ?thesis by (auto simp: count_steps_approves zero_vstate_def filter_empty_conv)
  qed
  then show ?thesis
    by (auto simp: order_ok_def count_steps_ids zero_vstate_def take_map)
qed

lemma creators_one:
  assumes "\<forall>k < length ss. creates (step_verb (ss ! k)) \<longrightarrow> k = 0" and "ss \<noteq> []"
  shows "length (filter (\<lambda>s. creates (step_verb s)) ss) = 1 \<longleftrightarrow> creates (step_verb (ss ! 0))"
proof -
  obtain s rest where ss: "ss = s # rest" using assms(2) by (cases ss) auto
  have "filter (\<lambda>s. creates (step_verb s)) rest = []"
    using assms(1) unfolding ss by (fastforce simp: filter_empty_conv in_set_conv_nth dest: spec[of _ "Suc _"])
  then show ?thesis by (simp add: ss)
qed

lemma notify_after_approval:
  fixes A N :: "'a \<Rightarrow> bool"
  assumes A: "\<exists>x \<in> set xs. A x" and N: "\<exists>x \<in> set xs. N x" and AN: "\<And>x. A x \<Longrightarrow> \<not> N x"
  shows "\<not> first_index N xs < first_index A xs \<longleftrightarrow>
    (\<forall>i < length xs. N (xs ! i) \<longrightarrow> (\<exists>k < i. A (xs ! k)))"
proof
  assume le: "\<not> first_index N xs < first_index A xs"
  show "\<forall>i < length xs. N (xs ! i) \<longrightarrow> (\<exists>k < i. A (xs ! k))"
  proof (intro allI impI)
    fix i assume i: "i < length xs" "N (xs ! i)"
    then have "first_index A xs \<le> i" using le first_index_before[of i N xs] by fastforce
    moreover have "first_index A xs \<noteq> i" using first_index_found(2)[OF A] AN i(2) by blast
    ultimately show "\<exists>k < i. A (xs ! k)" using first_index_found(2)[OF A] by (meson le_neq_trans)
  qed
next
  assume "\<forall>i < length xs. N (xs ! i) \<longrightarrow> (\<exists>k < i. A (xs ! k))"
  then obtain k where "k < first_index N xs" "A (xs ! k)" using first_index_found[OF N] by blast
  then show "\<not> first_index N xs < first_index A xs"
    using first_index_before[of k A xs] by linarith
qed

section \<open>Targets\<close>

lemma index_of_id_neg: "0 \<le> i \<Longrightarrow> index_of_id i ss t < 0 \<longleftrightarrow> t \<notin> step_id ` set ss"
  by (induction i ss t rule: index_of_id.induct) auto

lemma target_ok_index: "target_ok w t \<longleftrightarrow> \<not> (t \<noteq> ''end'' \<and> step_index w t < 0)"
  by (auto simp: target_ok_def step_index_def index_of_id_neg)

lemma check_all_targets_None:
  "check_all_targets w i ss = None \<longleftrightarrow>
     (\<forall>s \<in> set ss. (\<forall>t \<in> snd ` set (step_on s). target_ok w t) \<and> (step_next s \<noteq> [] \<longrightarrow> target_ok w (step_next s)))"
proof (induction w i ss rule: check_all_targets.induct)
  case (2 w i s ss)
  have "check_targets w i s = None \<longleftrightarrow>
      (\<forall>t \<in> snd ` set (step_on s). target_ok w t) \<and> (step_next s \<noteq> [] \<longrightarrow> target_ok w (step_next s))"
    unfolding check_targets_def check_simps target_ok_index by (auto simp: list_ex_iff)
  then show ?case using 2 by (auto split: option.splits)
qed simp

section \<open>Validation accepts exactly the well-formed workflows\<close>

lemma approve_before_iff:
  "(\<forall>k < length (wf_steps w). step_verb (wf_steps w ! k) = VerbApprove
        \<and> (\<exists>i < k. step_verb (wf_steps w ! i) = VerbApprove) \<longrightarrow> Q k)
     \<longleftrightarrow> (\<forall>i j. approve_at w i \<and> approve_at w j \<and> i < j \<longrightarrow> Q j)"
  unfolding approve_at_def by (meson less_trans)

lemma check_steps_ok:
  "check_steps 0 zero_vstate (wf_steps w) = Inr v \<longleftrightarrow>
     (\<forall>s \<in> set (wf_steps w). step_ok s)
     \<and> (\<forall>k < length (wf_steps w). creates (step_verb (wf_steps w ! k)) \<longrightarrow> k = 0)
     \<and> distinct (filter (\<lambda>x. x \<noteq> []) (map step_id (wf_steps w)))
     \<and> (\<forall>i j. approve_at w i \<and> approve_at w j \<and> i < j \<longrightarrow>
          step_approver (wf_steps w ! j) \<noteq> [] \<and> \<not> step_manager (wf_steps w ! j))
     \<and> v = count_steps 0 (wf_steps w) zero_vstate"
proof -
  have "(\<forall>k < length (wf_steps w). order_ok (int k) (count_steps 0 (take k (wf_steps w)) zero_vstate) (wf_steps w ! k))
    \<longleftrightarrow> (\<forall>k < length (wf_steps w). creates (step_verb (wf_steps w ! k)) \<longrightarrow> k = 0)
     \<and> distinct (filter (\<lambda>x. x \<noteq> []) (map step_id (wf_steps w)))
     \<and> (\<forall>i j. approve_at w i \<and> approve_at w j \<and> i < j \<longrightarrow>
          step_approver (wf_steps w ! j) \<noteq> [] \<and> \<not> step_manager (wf_steps w ! j))"
    unfolding distinct_filter_nth approve_before_iff[symmetric] by (auto simp: order_ok_count)
  then show ?thesis
    unfolding check_steps_Inr check_step_None all_set_conv_all_nth by auto
qed

lemma first_approve_start:
  "v_first_approve (count_steps 0 ss zero_vstate) =
     (if \<exists>s \<in> set ss. step_verb s = VerbApprove
      then int (first_index (\<lambda>s. step_verb s = VerbApprove) ss) else -1)"
  by (simp add: count_steps_first_approve zero_vstate_def)

lemma first_notify_start:
  "v_first_notify (count_steps 0 ss zero_vstate) =
     (if \<exists>s \<in> set ss. step_verb s = VerbNotify
      then int (first_index (\<lambda>s. step_verb s = VerbNotify) ss) else -1)"
  by (simp add: count_steps_first_notify zero_vstate_def)

lemma approve_exists: "(\<exists>i. approve_at w i) \<longleftrightarrow> (\<exists>s \<in> set (wf_steps w). step_verb s = VerbApprove)"
  by (metis approve_at_def in_set_conv_nth)

lemma notify_order_ok:
  fixes w :: workflow
  defines "v \<equiv> count_steps 0 (wf_steps w) zero_vstate"
  shows "\<not> (0 \<le> v_first_approve v \<and> 0 \<le> v_first_notify v \<and> v_first_notify v < v_first_approve v) \<longleftrightarrow>
     (\<forall>i j. i < length (wf_steps w) \<and> step_verb (wf_steps w ! i) = VerbNotify \<and> approve_at w j \<longrightarrow>
          (\<exists>k < i. approve_at w k))"
proof (cases "(\<exists>s \<in> set (wf_steps w). step_verb s = VerbApprove) \<and> (\<exists>s \<in> set (wf_steps w). step_verb s = VerbNotify)")
  case True
  then have "\<not> v_first_notify v < v_first_approve v \<longleftrightarrow> (\<forall>i < length (wf_steps w).
      step_verb (wf_steps w ! i) = VerbNotify \<longrightarrow> (\<exists>k < i. step_verb (wf_steps w ! k) = VerbApprove))"
    using notify_after_approval[of "wf_steps w" "\<lambda>s. step_verb s = VerbApprove" "\<lambda>s. step_verb s = VerbNotify"]
    by (auto simp: v_def first_approve_start first_notify_start)
  moreover have "\<exists>j. approve_at w j" using True approve_exists by blast
  moreover have "(\<exists>k < i. approve_at w k) \<longleftrightarrow> (\<exists>k < i. step_verb (wf_steps w ! k) = VerbApprove)"
    if "i < length (wf_steps w)" for i
    using that by (meson approve_at_def less_trans)
  moreover have "0 \<le> v_first_approve v" "0 \<le> v_first_notify v"
    using True by (simp_all add: v_def first_approve_start first_notify_start)
  ultimately show ?thesis by blast
next
  case False
  then show ?thesis
    by (auto simp: v_def first_approve_start first_notify_start approve_at_def)
qed

lemma validate_spec: "validate w = None \<longleftrightarrow> well_formed w"
proof (cases "wf_name w = [] \<or> wf_steps w = []")
  case True
  then show ?thesis by (auto simp: validate_def well_formed_def)
next
  case False
  let ?v = "count_steps 0 (wf_steps w) zero_vstate"
  have creators: "(\<forall>k < length (wf_steps w). creates (step_verb (wf_steps w ! k)) \<longrightarrow> k = 0) \<longrightarrow>
      (v_creators ?v = 1 \<longleftrightarrow> creates (step_verb (wf_steps w ! 0)))"
    using creators_one[of "wf_steps w"] False by (simp add: count_steps_creators zero_vstate_def)
  have "0 \<le> v_first_approve ?v \<longleftrightarrow> (\<exists>i. approve_at w i)"
    by (simp add: first_approve_start approve_exists)
  moreover have "validate w = None \<longleftrightarrow>
      check_steps 0 zero_vstate (wf_steps w) = Inr ?v \<and> v_creators ?v = 1
      \<and> (0 \<le> v_first_approve ?v \<longrightarrow> step_verb (wf_steps w ! 0) = VerbHold)
      \<and> \<not> (0 \<le> v_first_approve ?v \<and> 0 \<le> v_first_notify ?v \<and> v_first_notify ?v < v_first_approve ?v)
      \<and> check_all_targets w 0 (wf_steps w) = None \<and> \<not> has_cycle w"
  proof (cases "check_steps 0 zero_vstate (wf_steps w)")
    case (Inl e)
    then show ?thesis using False by (simp add: validate_def)
  next
    case (Inr v)
    then have "v = ?v" using check_steps_Inr by blast
    with Inr False show ?thesis
      by (cases "check_all_targets w 0 (wf_steps w)") (simp_all add: validate_def)
  qed
  moreover have "(\<forall>i < length (wf_steps w). creates (step_verb (wf_steps w ! i)) \<longleftrightarrow> i = 0) \<longleftrightarrow>
      (\<forall>k < length (wf_steps w). creates (step_verb (wf_steps w ! k)) \<longrightarrow> k = 0)
      \<and> creates (step_verb (wf_steps w ! 0))"
    using False by auto
  ultimately show ?thesis
    unfolding check_steps_ok notify_order_ok check_all_targets_None has_cycle_iff_cyclic well_formed_def simp_thms
    using creators False by satx
qed

section \<open>The errors of validation\<close>

lemma errors_is_refl: "errors_is e e"
  by (cases e) simp_all

definition invalid :: "error \<Rightarrow> bool" where
  "invalid e \<longleftrightarrow> errors_is e ErrInvalid"

lemma invalid_made [simp]: "invalid (invalid_step i msg es)" "invalid (invalid_workflow msg)"
  by (simp_all add: invalid_def invalid_step_def invalid_workflow_def errors_is_refl)

lemma check_step_invalid:
  assumes "check_step i v s = Some e" shows "invalid e"
proof -
  have "check_fields i s = Some e \<Longrightarrow> invalid e" "check_branches i s = Some e \<Longrightarrow> invalid e"
    "check_order i v s = Some e \<Longrightarrow> invalid e" "check_guard i s = Some e \<Longrightarrow> invalid e"
    unfolding check_fields_def check_branches_def check_order_def check_guard_def
    by (erule first_error_all[of invalid, rotated], simp)+
      (auto split: option.splits if_splits)
  then show ?thesis
    using assms by (auto simp: check_step_def split: option.splits if_splits)
qed

lemma check_steps_invalid: "check_steps i v ss = Inl e \<Longrightarrow> invalid e"
  by (induction i v ss rule: check_steps.induct) (auto dest: check_step_invalid split: option.splits)

lemma check_all_targets_invalid: "check_all_targets w i ss = Some e \<Longrightarrow> invalid e"
proof (induction w i ss rule: check_all_targets.induct)
  case (2 w i s ss)
  have "check_targets w i s = Some e \<Longrightarrow> invalid e"
    unfolding check_targets_def by (erule first_error_all[of invalid, rotated]) simp
  with 2 show ?case by (auto split: option.splits)
qed simp

lemma validate_error: "validate w = Some e \<Longrightarrow> errors_is e ErrInvalid"
  unfolding invalid_def[symmetric] validate_def
  by (auto dest: check_steps_invalid check_all_targets_invalid split: if_splits sum.splits option.splits)

section \<open>What the theory establishes\<close>

text \<open>
  C1. \<open>Validate\<close> accepts exactly the well-formed workflows: known verbs and fields that fit them, distinct
  step ids, branches and \<open>next\<close> that name a step or the end, one creating step and it comes first,
  later approvals with their own approver, notify only after an approval, and a flow without a cycle.
\<close>

theorem validate_decides_well_formed: "validate w = None \<longleftrightarrow> well_formed w"
  by (rule validate_spec)

text \<open>
  C26. \<open>hasCycle\<close>, the three-colour depth-first search over the jump targets, answers true exactly when
  some step can reach itself along them.
\<close>

theorem has_cycle_decides: "has_cycle w \<longleftrightarrow> \<not> acyclic (jump_rel w)"
  by (rule has_cycle_iff_cyclic)

text \<open>Every error of \<open>Validate\<close> wraps \<open>ErrInvalid\<close>, so callers can tell it with \<open>errors.Is\<close>.\<close>

theorem validate_error_is_invalid: "validate w = Some e \<Longrightarrow> errors_is e ErrInvalid"
  by (rule validate_error)

theorem validate_error_is_invalid_witness:
  "validate \<lparr>wf_name = ''pto'', wf_description = [], wf_steps = []\<rparr> = Some (invalid_workflow ''has no steps'')
    \<and> errors_is (invalid_workflow ''has no steps'') ErrInvalid"
  using validate_error_is_invalid[of "\<lparr>wf_name = ''pto'', wf_description = [], wf_steps = []\<rparr>" "invalid_workflow ''has no steps''"]
  by (simp add: validate_def)

end
