(* ===== verification/Go_Codec.thy ===== *)
theory Go_Codec
  imports Go_Strings
begin

text \<open>
  The byte encodings of the standard library the program uses: \<open>encoding/hex\<close> and the two alphabets of
  \<open>encoding/base64\<close>, URL without padding and standard with padding. Decoding skips carriage returns and
  line feeds and accepts stray bits in the last character, as the library does.
\<close>

section \<open>Hexadecimal\<close>

definition hex_digits :: string where "hex_digits = ''0123456789abcdef''"

definition byte :: "char \<Rightarrow> nat" where "byte c = of_char c"

lemma byte_bound [simp]: "byte c < 256"
  by (simp add: byte_def)

lemma char_of_byte [simp]: "char_of (byte c) = c"
  by (simp add: byte_def)

lemma byte_char_of [simp]: "n < 256 \<Longrightarrow> byte (char_of n) = n"
  by (simp add: byte_def)

lemma byte_inj [simp]: "byte c = byte d \<longleftrightarrow> c = d"
  by (simp add: byte_def)

fun hex_encode :: "string \<Rightarrow> string" where
  "hex_encode [] = []"
| "hex_encode (c # s) = hex_digits ! (byte c div 16) # hex_digits ! (byte c mod 16) # hex_encode s"

lemma hex_digit_inj: "i < 16 \<Longrightarrow> j < 16 \<Longrightarrow> hex_digits ! i = hex_digits ! j \<longleftrightarrow> i = j"
proof -
  have d: "distinct hex_digits" "length hex_digits = 16" by code_simp+
  show "i < 16 \<Longrightarrow> j < 16 \<Longrightarrow> hex_digits ! i = hex_digits ! j \<longleftrightarrow> i = j"
    using nth_eq_iff_index_eq[OF d(1), of i j] d(2) by simp
qed

lemma byte_div_16 [simp]: "byte c div 16 < 16"
  using byte_bound[of c] by linarith

lemma hex_encode_inj [simp]: "hex_encode s = hex_encode t \<longleftrightarrow> s = t"
proof (induction s arbitrary: t)
  case Nil
  show ?case by (cases t) simp_all
next
  case (Cons c s)
  show ?case
  proof (cases t)
    case (Cons d u)
    have "byte c div 16 = byte d div 16 \<and> byte c mod 16 = byte d mod 16 \<longleftrightarrow> byte c = byte d"
      by (metis div_mult_mod_eq)
    then have "byte c div 16 = byte d div 16 \<and> byte c mod 16 = byte d mod 16 \<longleftrightarrow> c = d" by simp
    then show ?thesis using Cons.IH[of u] Cons by (simp add: hex_digit_inj) blast
  qed simp
qed

lemma hex_encode_Nil [simp]: "hex_encode s = [] \<longleftrightarrow> s = []"
  by (cases s) simp_all

section \<open>Base64\<close>

definition url_alphabet :: string where
  "url_alphabet = ''ABCDEFGHIJKLMNOPQRSTUVWXYZabcdefghijklmnopqrstuvwxyz0123456789-_''"

definition std_alphabet :: string where
  "std_alphabet = ''ABCDEFGHIJKLMNOPQRSTUVWXYZabcdefghijklmnopqrstuvwxyz0123456789+/''"

fun b64_groups :: "string \<Rightarrow> nat list" where
  "b64_groups [] = []"
| "b64_groups [a] = [byte a div 4, byte a mod 4 * 16]"
| "b64_groups [a, b] = [byte a div 4, byte a mod 4 * 16 + byte b div 16, byte b mod 16 * 4]"
| "b64_groups (a # b # c # s) =
     byte a div 4 # (byte a mod 4 * 16 + byte b div 16) # (byte b mod 16 * 4 + byte c div 64) # (byte c mod 64)
     # b64_groups s"

definition raw_url_encode :: "string \<Rightarrow> string" where
  "raw_url_encode s = map (\<lambda>n. url_alphabet ! n) (b64_groups s)"

fun index_in :: "string \<Rightarrow> char \<Rightarrow> nat option" where
  "index_in [] c = None"
| "index_in (x # xs) c = (if x = c then Some 0 else map_option Suc (index_in xs c))"

fun b64_values :: "string \<Rightarrow> string \<Rightarrow> nat list option" where
  "b64_values al [] = Some []"
| "b64_values al (c # s) =
     (case index_in al c of None \<Rightarrow> None | Some n \<Rightarrow> map_option (Cons n) (b64_values al s))"

fun b64_bytes :: "nat list \<Rightarrow> string option" where
  "b64_bytes [] = Some []"
| "b64_bytes [w] = None"
| "b64_bytes [w, x] = Some [char_of (w * 4 + x div 16)]"
| "b64_bytes [w, x, y] = Some [char_of (w * 4 + x div 16), char_of (x mod 16 * 16 + y div 4)]"
| "b64_bytes (w # x # y # z # s) =
     map_option (\<lambda>r. char_of (w * 4 + x div 16) # char_of (x mod 16 * 16 + y div 4) # char_of (y mod 4 * 64 + z) # r)
       (b64_bytes s)"

definition without_newlines :: "string \<Rightarrow> string" where
  "without_newlines s = filter (\<lambda>c. c \<noteq> CHR 0x0A \<and> c \<noteq> CHR 0x0D) s"

definition raw_url_decode :: "string \<Rightarrow> string option" where
  "raw_url_decode s =
     (case b64_values url_alphabet (without_newlines s) of None \<Rightarrow> None | Some vs \<Rightarrow> b64_bytes vs)"

text \<open>A byte splits into a high and a low part, and the parts join to it again.\<close>

lemma join_parts: "(r :: nat) < m \<Longrightarrow> (x * m + r) div m = x \<and> (x * m + r) mod m = r"
  by simp

lemma byte_high: "byte c div 4 < 64" "byte c div 16 < 16" "byte c div 64 < 4"
  using byte_bound[of c] by linarith+

lemma b64_groups_bound: "n \<in> set (b64_groups s) \<Longrightarrow> n < 64"
proof (induction s rule: b64_groups.induct)
  case (2 a)
  have "byte a mod 4 * 16 < 64" by linarith
  then show ?case using 2 byte_high[of a] by auto
next
  case (3 a b)
  have "byte a mod 4 * 16 + byte b div 16 < 64" "byte b mod 16 * 4 < 64" using byte_high(2)[of b] by linarith+
  then show ?case using 3 byte_high[of a] by auto
next
  case (4 a b c s)
  have "byte a mod 4 * 16 + byte b div 16 < 64" "byte b mod 16 * 4 + byte c div 64 < 64"
    using byte_high(2)[of b] byte_high(3)[of c] by linarith+
  then show ?case using 4 byte_high[of a] by auto
qed simp

lemma b64_first: "byte a div 4 * 4 + (byte a mod 4 * 16 + byte b div 16) div 16 = byte a"
  using join_parts[OF byte_high(2)[of b], of "byte a mod 4"] by simp

lemma b64_second: "(byte a mod 4 * 16 + byte b div 16) mod 16 * 16 + (byte b mod 16 * 4 + byte c div 64) div 4 = byte b"
  using join_parts[OF byte_high(2)[of b], of "byte a mod 4"] join_parts[OF byte_high(3)[of c], of "byte b mod 16"] by simp

lemma b64_third: "(byte b mod 16 * 4 + byte c div 64) mod 4 * 64 + byte c mod 64 = byte c"
  using join_parts[OF byte_high(3)[of c], of "byte b mod 16"] by simp

lemma byte_zero: "byte (char_of (0 :: nat)) = 0"
  by simp

lemma b64_bytes_groups: "b64_bytes (b64_groups s) = Some s"
proof (induction s rule: b64_groups.induct)
  case (2 a)
  show ?case using b64_first[of a "char_of (0 :: nat)"] by simp
next
  case (3 a b)
  show ?case using b64_first[of a b] b64_second[of a b "char_of (0 :: nat)"] by simp
next
  case (4 a b c s)
  then show ?case using b64_first[of a b] b64_second[of a b c] b64_third[of b c] by simp
qed simp

lemma index_in_nth: "distinct al \<Longrightarrow> n < length al \<Longrightarrow> index_in al (al ! n) = Some n"
  by (induction al arbitrary: n) (auto simp: nth_Cons' split: if_splits)

lemma b64_values_alphabet: "b64_values al s = Some vs \<Longrightarrow> c \<in> set s \<Longrightarrow> c \<in> set al"
proof (induction s arbitrary: vs)
  case (Cons d s)
  have "index_in al d = Some n \<Longrightarrow> d \<in> set al" for n
    by (induction al arbitrary: n) (auto split: if_splits)
  then show ?case using Cons by (auto split: option.splits)
qed simp

lemma b64_values_map:
  "distinct al \<Longrightarrow> \<forall>n \<in> set ns. n < length al \<Longrightarrow> b64_values al (map (\<lambda>n. al ! n) ns) = Some ns"
  by (induction ns) (simp_all add: index_in_nth)

lemma url_alphabet_facts: "distinct url_alphabet" "length url_alphabet = 64"
    "CHR 0x0A \<notin> set url_alphabet" "CHR 0x0D \<notin> set url_alphabet" "CHR ''.'' \<notin> set url_alphabet" "CHR '':'' \<notin> set url_alphabet"
  by code_simp+

lemma raw_url_encode_chars: "c \<in> set (raw_url_encode s) \<Longrightarrow> c \<in> set url_alphabet"
  using b64_groups_bound url_alphabet_facts(2) by (auto simp: raw_url_encode_def intro!: nth_mem)

lemma without_newlines_id: "\<forall>c \<in> set s. c \<in> set url_alphabet \<Longrightarrow> without_newlines s = s"
  using url_alphabet_facts(3,4) by (auto simp: without_newlines_def filter_id_conv)

lemma raw_url_roundtrip: "raw_url_decode (raw_url_encode s) = Some s"
proof -
  have "without_newlines (raw_url_encode s) = raw_url_encode s"
    by (rule without_newlines_id) (simp add: raw_url_encode_chars)
  moreover have "b64_values url_alphabet (raw_url_encode s) = Some (b64_groups s)"
    unfolding raw_url_encode_def
    by (rule b64_values_map) (simp_all add: url_alphabet_facts(1,2) b64_groups_bound)
  ultimately show ?thesis by (simp add: raw_url_decode_def b64_bytes_groups)
qed

lemma raw_url_encode_inj [simp]: "raw_url_encode s = raw_url_encode t \<longleftrightarrow> s = t"
  by (metis option.inject raw_url_roundtrip)

section \<open>Base64 with padding\<close>

text \<open>\<open>StdEncoding\<close>: the length is a multiple of four and at most two padding characters end the text.\<close>

definition std_decode :: "string \<Rightarrow> string option" where
  "std_decode s =
     (let t = without_newlines s;
          body = (if has_suffix t ''=='' then take (length t - 2) t
                  else if has_suffix t ''='' then take (length t - 1) t else t)
      in if length t mod 4 \<noteq> 0 then None
         else case b64_values std_alphabet body of None \<Rightarrow> None | Some vs \<Rightarrow> b64_bytes vs)"

definition std_encode :: "string \<Rightarrow> string" where
  "std_encode s = map (\<lambda>n. std_alphabet ! n) (b64_groups s) @ replicate ((3 - length s mod 3) mod 3) (CHR ''='')"

lemma b64_groups_padded: "(length (b64_groups s) + (3 - length s mod 3) mod 3) mod 4 = 0"
proof (induction s rule: b64_groups.induct)
  case (4 a b c s)
  have "length (a # b # c # s) mod 3 = length s mod 3" by simp
  then show ?case using 4 by simp
qed simp_all

lemma std_alphabet_facts: "distinct std_alphabet" "length std_alphabet = 64"
    "CHR 0x0A \<notin> set std_alphabet" "CHR 0x0D \<notin> set std_alphabet" "CHR ''='' \<notin> set std_alphabet"
  by code_simp+

lemma has_suffix_plain:
  assumes "\<forall>c \<in> set b. c \<noteq> CHR ''=''"
  shows "\<not> has_suffix b ''=''" "\<not> has_suffix b ''==''" "\<not> has_suffix (b @ ''='') ''==''"
proof -
  have ends: "b \<noteq> r @ ''=''" for r
  proof
    assume "b = r @ ''=''"
    then have "CHR ''='' \<in> set b" by simp
    with assms show False by blast
  qed
  show "\<not> has_suffix b ''=''" using ends unfolding has_suffix_iff by blast
  show "\<not> has_suffix b ''==''"
  proof
    assume "has_suffix b ''==''"
    then obtain r where "b = (r @ ''='') @ ''=''" unfolding has_suffix_iff by fastforce
    then show False using ends by blast
  qed
  show "\<not> has_suffix (b @ ''='') ''==''"
  proof
    assume "has_suffix (b @ ''='') ''==''"
    then obtain r where "b @ ''='' = (r @ ''='') @ ''=''" unfolding has_suffix_iff by fastforce
    then have "b = r @ ''=''" by (simp only: append_same_eq)
    then show False using ends by blast
  qed
qed

lemma std_roundtrip: "std_decode (std_encode s) = Some s"
proof -
  let ?b = "map (\<lambda>n. std_alphabet ! n) (b64_groups s)" and ?p = "(3 - length s mod 3) mod 3"
  have chars: "\<forall>c \<in> set ?b. c \<in> set std_alphabet"
    using b64_groups_bound std_alphabet_facts(2) by (auto intro!: nth_mem)
  have plain: "\<forall>c \<in> set ?b. c \<noteq> CHR ''=''" using chars std_alphabet_facts(5) by auto
  have nn: "without_newlines (std_encode s) = std_encode s"
    using chars std_alphabet_facts(3,4) by (auto simp: without_newlines_def filter_id_conv std_encode_def)
  have len: "length (std_encode s) mod 4 = 0" using b64_groups_padded[of s] by (simp add: std_encode_def)
  have vals: "b64_values std_alphabet ?b = Some (b64_groups s)"
    by (rule b64_values_map) (simp_all add: std_alphabet_facts(1,2) b64_groups_bound)
  have body: "(if has_suffix (std_encode s) ''=='' then take (length (std_encode s) - 2) (std_encode s)
                  else if has_suffix (std_encode s) ''='' then take (length (std_encode s) - 1) (std_encode s)
                  else std_encode s) = ?b"
  proof -
    consider "?p = 0" | "?p = 1" | "?p = 2" by linarith
    then show ?thesis
    proof cases
      case 1
      then have "std_encode s = ?b" by (simp only: std_encode_def) simp
      then show ?thesis using has_suffix_plain[OF plain] by simp
    next
      case 2
      then have e: "std_encode s = ?b @ ''=''" by (simp only: std_encode_def) simp
      have "has_suffix (?b @ ''='') ''=''" by (auto simp: has_suffix_iff)
      then show ?thesis unfolding e using has_suffix_plain[OF plain] by simp
    next
      case 3
      then have e: "std_encode s = ?b @ ''==''" by (simp only: std_encode_def) (simp add: numeral_2_eq_2)
      have "has_suffix (?b @ ''=='') ''==''" by (auto simp: has_suffix_iff)
      then show ?thesis unfolding e by simp
    qed
  qed
  show ?thesis
    unfolding std_decode_def Let_def nn body using len vals by (simp add: b64_bytes_groups)
qed

end
