(* ===== verification/Go_Json.thy ===== *)
theory Go_Json
  imports Go_Codec
begin

text \<open>
  \<open>encoding/json\<close>: the values, the text \<open>Marshal\<close> writes, and the scanner. Strings are bytes of valid UTF-8
  without the line separators U+2028 and U+2029. A number with a fraction or an exponent is only
  marked as such, since the program reads none. The scanner takes fuel, which its length bounds.
\<close>

section \<open>Values\<close>

datatype json = JNull | JBool bool | JInt int | JFrac | JStr string | JArr "json list" | JObj "(string \<times> json) list"

datatype json_text = NotJson | Json json | JsonTrailing json

text \<open>
  Decoding leaves a field alone on \<open>null\<close> and fails on a value of another type; the result is
  \<open>None\<close> for the failure.
\<close>

fun as_string :: "string \<Rightarrow> json \<Rightarrow> string option" where
  "as_string old (JStr s) = Some s"
| "as_string old JNull = Some old"
| "as_string old _ = None"

fun as_bool :: "bool \<Rightarrow> json \<Rightarrow> bool option" where
  "as_bool old (JBool b) = Some b"
| "as_bool old JNull = Some old"
| "as_bool old _ = None"

fun as_int :: "int \<Rightarrow> json \<Rightarrow> int option" where
  "as_int old (JInt i) = (if -(2 ^ 63) \<le> i \<and> i < 2 ^ 63 then Some i else None)"
| "as_int old JNull = Some old"
| "as_int old _ = None"

fun fold_fields :: "('r \<Rightarrow> string \<Rightarrow> json \<Rightarrow> 'r option) \<Rightarrow> 'r \<Rightarrow> (string \<times> json) list \<Rightarrow> 'r option" where
  "fold_fields f r [] = Some r"
| "fold_fields f r ((k, v) # kvs) = (case f r k v of None \<Rightarrow> None | Some r' \<Rightarrow> fold_fields f r' kvs)"

text \<open>A member that \<open>omitempty\<close> leaves out for the zero value.\<close>

definition omit_empty :: "string \<Rightarrow> string \<Rightarrow> (string \<times> json) list" where
  "omit_empty k v = (if v = [] then [] else [(k, JStr v)])"

section \<open>Writing\<close>

abbreviation dquote :: char where "dquote \<equiv> CHR 0x22"
abbreviation backslash :: char where "backslash \<equiv> CHR 0x5C"

definition unicode_escape :: "char \<Rightarrow> string" where
  "unicode_escape c = backslash # ''u00'' @ [hex_digits ! (byte c div 16), hex_digits ! (byte c mod 16)]"

definition quote_char :: "char \<Rightarrow> string" where
  "quote_char c =
     (if c = dquote \<or> c = backslash then [backslash, c]
      else if c = CHR 0x08 then backslash # ''b''
      else if c = CHR 0x0C then backslash # ''f''
      else if c = CHR 0x0A then backslash # ''n''
      else if c = CHR 0x0D then backslash # ''r''
      else if c = CHR 0x09 then backslash # ''t''
      else if byte c < 32 \<or> c = CHR ''<'' \<or> c = CHR ''>'' \<or> c = CHR ''&'' then unicode_escape c
      else [c])"

definition quote_body :: "string \<Rightarrow> string" where
  "quote_body s = concat (map quote_char s)"

definition json_quote :: "string \<Rightarrow> string" where
  "json_quote s = dquote # quote_body s @ [dquote]"

text \<open>
  \<open>nl d\<close> is what starts a line at depth \<open>d\<close> and \<open>sp\<close> what follows a colon: nothing for \<open>Marshal\<close>, a
  newline with two spaces per level and a space for \<open>MarshalIndent\<close> as the program calls it.
\<close>

fun show_with :: "(nat \<Rightarrow> string) \<Rightarrow> string \<Rightarrow> nat \<Rightarrow> json \<Rightarrow> string" where
  "show_with nl sp d JNull = ''null''"
| "show_with nl sp d (JBool b) = (if b then ''true'' else ''false'')"
| "show_with nl sp d (JInt i) = show_int i"
| "show_with nl sp d JFrac = ''0.5''"
| "show_with nl sp d (JStr s) = json_quote s"
| "show_with nl sp d (JArr vs) =
     (if vs = [] then ''[]'' else
        ''['' @ nl (Suc d) @ join_with (CHR '','' # nl (Suc d)) (map (show_with nl sp (Suc d)) vs) @ nl d @ '']'')"
| "show_with nl sp d (JObj kvs) =
     (if kvs = [] then ''{}'' else
        ''{'' @ nl (Suc d) @ join_with (CHR '','' # nl (Suc d))
          (map (\<lambda>(k, v). json_quote k @ CHR '':'' # sp @ show_with nl sp (Suc d) v) kvs) @ nl d @ ''}'')"

definition show_json :: "json \<Rightarrow> string" where
  "show_json v = show_with (\<lambda>_. []) [] 0 v"

definition indent_line :: "nat \<Rightarrow> string" where
  "indent_line d = CHR 0x0A # concat (replicate d ''  '')"

definition indent_json :: "json \<Rightarrow> string" where
  "indent_json v = show_with indent_line '' '' 0 v"

section \<open>Reading\<close>

definition json_space :: "char \<Rightarrow> bool" where
  "json_space c \<longleftrightarrow> c = CHR '' '' \<or> c = CHR 0x09 \<or> c = CHR 0x0A \<or> c = CHR 0x0D"

definition skip_ws :: "string \<Rightarrow> string" where
  "skip_ws s = dropWhile json_space s"

definition hex_value :: "char \<Rightarrow> nat option" where
  "hex_value c = index_in hex_digits (lower_char c)"

fun hex4 :: "string \<Rightarrow> (nat \<times> string) option" where
  "hex4 (a # b # c # d # s) =
     (case (hex_value a, hex_value b, hex_value c, hex_value d) of
        (Some w, Some x, Some y, Some z) \<Rightarrow> Some (((w * 16 + x) * 16 + y) * 16 + z, s)
      | _ \<Rightarrow> None)"
| "hex4 _ = None"

definition utf8_bytes :: "nat \<Rightarrow> string" where
  "utf8_bytes n =
     (if n < 128 then [char_of n]
      else if n < 2048 then [char_of (192 + n div 64), char_of (128 + n mod 64)]
      else if n < 65536 then [char_of (224 + n div 4096), char_of (128 + n div 64 mod 64), char_of (128 + n mod 64)]
      else [char_of (240 + n div 262144), char_of (128 + n div 4096 mod 64), char_of (128 + n div 64 mod 64),
            char_of (128 + n mod 64)])"

definition replacement :: string where "replacement = utf8_bytes 65533"

text \<open>A \<open>\u\<close> escape: a surrogate pair is one character, a lone surrogate is replaced.\<close>

definition unescape_u :: "string \<Rightarrow> (string \<times> string) option" where
  "unescape_u s =
     (case hex4 s of
        None \<Rightarrow> None
      | Some (n, r) \<Rightarrow>
          (if n < 55296 \<or> 57344 \<le> n then Some (utf8_bytes n, r)
           else if n < 56320 \<and> has_prefix r (backslash # ''u'')
           then (case hex4 (drop 2 r) of
                   Some (m, r') \<Rightarrow>
                     (if 56320 \<le> m \<and> m < 57344
                      then Some (utf8_bytes (65536 + (n - 55296) * 1024 + (m - 56320)), r')
                      else Some (replacement, r))
                 | None \<Rightarrow> Some (replacement, r))
           else Some (replacement, r)))"

fun unescape :: "string \<Rightarrow> (string \<times> string) option" where
  "unescape [] = None"
| "unescape (c # s) =
     (if c = dquote \<or> c = backslash \<or> c = CHR ''/'' then Some ([c], s)
      else if c = CHR ''b'' then Some ([CHR 0x08], s)
      else if c = CHR ''f'' then Some ([CHR 0x0C], s)
      else if c = CHR ''n'' then Some ([CHR 0x0A], s)
      else if c = CHR ''r'' then Some ([CHR 0x0D], s)
      else if c = CHR ''t'' then Some ([CHR 0x09], s)
      else if c = CHR ''u'' then unescape_u s else None)"

lemma hex4_shorter: "hex4 s = Some (n, r) \<Longrightarrow> length s = length r + 4"
  by (induction s rule: hex4.induct) (auto split: option.splits)

lemma unescape_shorter: "unescape s = Some (b, r) \<Longrightarrow> length r < length s"
proof (cases s)
  case (Cons c t)
  assume "unescape s = Some (b, r)"
  then show ?thesis
    using Cons by (auto simp: unescape_u_def split: if_splits option.splits prod.splits dest!: hex4_shorter)
qed simp

function str_body :: "string \<Rightarrow> (string \<times> string) option" where
  "str_body [] = None"
| "str_body (c # s) =
     (if c = dquote then Some ([], s)
      else if c = backslash then
        (case unescape s of None \<Rightarrow> None
         | Some (b, r) \<Rightarrow> map_option (\<lambda>(t, r'). (b @ t, r')) (str_body r))
      else if byte c < 32 then None
      else map_option (\<lambda>(t, r'). (c # t, r')) (str_body s))"
  by pat_completeness auto

termination str_body
  by (relation "measure length") (auto dest: unescape_shorter)

text \<open>Numbers: no leading zero, and a fraction or exponent only marks the value.\<close>

definition take_digits :: "string \<Rightarrow> string \<times> string" where
  "take_digits s = (takeWhile is_digit s, dropWhile is_digit s)"

definition scan_fraction :: "string \<Rightarrow> (bool \<times> string) option" where
  "scan_fraction s =
     (if has_prefix s ''.'' then
        (case take_digits (tl s) of (ds, r) \<Rightarrow> if ds = [] then None else Some (True, r))
      else Some (False, s))"

definition scan_exponent :: "string \<Rightarrow> (bool \<times> string) option" where
  "scan_exponent s =
     (if has_prefix s ''e'' \<or> has_prefix s ''E'' then
        (let t = tl s; u = (if has_prefix t ''+'' \<or> has_prefix t ''-'' then tl t else t) in
         case take_digits u of (ds, r) \<Rightarrow> if ds = [] then None else Some (True, r))
      else Some (False, s))"

definition scan_number :: "string \<Rightarrow> (json \<times> string) option" where
  "scan_number s =
     (let neg = has_prefix s ''-''; t = (if neg then tl s else s) in
      case take_digits t of (ds, r) \<Rightarrow>
        if ds = [] \<or> (has_prefix ds ''0'' \<and> 1 < length ds) then None
        else case scan_fraction r of None \<Rightarrow> None
        | Some (f, r) \<Rightarrow>
            (case scan_exponent r of None \<Rightarrow> None
             | Some (e, r) \<Rightarrow>
                 Some (if f \<or> e then JFrac else JInt (if neg then - digits_val 0 ds else digits_val 0 ds), r)))"

fun scan_value :: "nat \<Rightarrow> string \<Rightarrow> (json \<times> string) option"
  and scan_elems :: "nat \<Rightarrow> string \<Rightarrow> (json list \<times> string) option"
  and scan_members :: "nat \<Rightarrow> string \<Rightarrow> ((string \<times> json) list \<times> string) option"
where
  "scan_value 0 s = None"
| "scan_value (Suc n) s =
     (case skip_ws s of
        [] \<Rightarrow> None
      | c # r \<Rightarrow>
          (if c = dquote then map_option (\<lambda>(x, r). (JStr x, r)) (str_body r)
           else if c = CHR ''['' then
             (if has_prefix (skip_ws r) '']'' then Some (JArr [], tl (skip_ws r))
              else map_option (\<lambda>(x, r). (JArr x, r)) (scan_elems n r))
           else if c = CHR ''{'' then
             (if has_prefix (skip_ws r) ''}'' then Some (JObj [], tl (skip_ws r))
              else map_option (\<lambda>(x, r). (JObj x, r)) (scan_members n r))
           else if has_prefix (c # r) ''null'' then Some (JNull, drop 4 (c # r))
           else if has_prefix (c # r) ''true'' then Some (JBool True, drop 4 (c # r))
           else if has_prefix (c # r) ''false'' then Some (JBool False, drop 5 (c # r))
           else scan_number (c # r)))"
| "scan_elems 0 s = None"
| "scan_elems (Suc n) s =
     (case scan_value n s of
        None \<Rightarrow> None
      | Some (v, r) \<Rightarrow>
          (if has_prefix (skip_ws r) '','' then map_option (\<lambda>(vs, r). (v # vs, r)) (scan_elems n (tl (skip_ws r)))
           else if has_prefix (skip_ws r) '']'' then Some ([v], tl (skip_ws r))
           else None))"
| "scan_members 0 s = None"
| "scan_members (Suc n) s =
     (case skip_ws s of
        [] \<Rightarrow> None
      | c # r \<Rightarrow>
          (if c \<noteq> dquote then None
           else case str_body r of
             None \<Rightarrow> None
           | Some (k, r) \<Rightarrow>
               (if \<not> has_prefix (skip_ws r) '':'' then None
                else case scan_value n (tl (skip_ws r)) of
                  None \<Rightarrow> None
                | Some (v, r) \<Rightarrow>
                    (if has_prefix (skip_ws r) '',''
                     then map_option (\<lambda>(kvs, r). ((k, v) # kvs, r)) (scan_members n (tl (skip_ws r)))
                     else if has_prefix (skip_ws r) ''}'' then Some ([(k, v)], tl (skip_ws r))
                     else None))))"

definition json_fuel :: "string \<Rightarrow> nat" where
  "json_fuel s = 2 * length s + 2"

definition scan_json :: "string \<Rightarrow> json_text" where
  "scan_json s =
     (case scan_value (json_fuel s) s of
        None \<Rightarrow> NotJson
      | Some (v, r) \<Rightarrow> if skip_ws r = [] then Json v else JsonTrailing v)"

section \<open>Reading what was written\<close>

lemma utf8_ascii: "byte c < 128 \<Longrightarrow> utf8_bytes (byte c) = [c]"
  by (simp add: utf8_bytes_def)

lemma hex_value_digit: "i < 16 \<Longrightarrow> hex_value (hex_digits ! i) = Some i"
proof -
  have "list_all (\<lambda>i. hex_value (hex_digits ! i) = Some i) [0..<16]" by code_simp
  then show "i < 16 \<Longrightarrow> hex_value (hex_digits ! i) = Some i" by (simp add: list_all_iff)
qed

lemma unescape_unicode:
  assumes "byte c < 128" shows "unescape (tl (unicode_escape c) @ r) = Some ([c], r)"
proof -
  have "hex_value (CHR ''0'') = Some 0" by code_simp
  then have "hex4 (CHR ''0'' # CHR ''0'' # hex_digits ! (byte c div 16) # hex_digits ! (byte c mod 16) # r) = Some (byte c, r)"
    by (simp add: hex_value_digit)
  then show ?thesis
    using assms by (simp add: unicode_escape_def unescape_u_def utf8_ascii)
qed

lemma byte_chars: "byte (CHR ''<'') = 60" "byte (CHR ''>'') = 62" "byte (CHR ''&'') = 38"
  by (simp_all add: byte_def)

lemma unicode_escape_Cons: "unicode_escape c = backslash # tl (unicode_escape c)"
  by (simp add: unicode_escape_def)

definition short_escapes :: "char set" where
  "short_escapes = {dquote, backslash, CHR 0x08, CHR 0x0C, CHR 0x0A, CHR 0x0D, CHR 0x09}"

definition long_escape :: "char \<Rightarrow> bool" where
  "long_escape c \<longleftrightarrow> byte c < 32 \<or> c = CHR ''<'' \<or> c = CHR ''>'' \<or> c = CHR ''&''"

lemma quote_char_long: "c \<notin> short_escapes \<Longrightarrow> quote_char c = (if long_escape c then unicode_escape c else [c])"
  by (simp add: quote_char_def short_escapes_def long_escape_def)

lemma long_escape_ascii: "long_escape c \<Longrightarrow> byte c < 128"
  by (auto simp: long_escape_def byte_chars)

lemma str_body_quote_char: "str_body (quote_char c @ r) = map_option (\<lambda>(t, r'). (c # t, r')) (str_body r)"
proof (cases "c \<in> short_escapes")
  case True
  then show ?thesis by (auto simp: quote_char_def short_escapes_def)
next
  case False
  show ?thesis
  proof (cases "long_escape c")
    case True
    then have q: "quote_char c @ r = backslash # (tl (unicode_escape c) @ r)"
      using quote_char_long[OF False] unicode_escape_Cons[of c] by simp
    show ?thesis unfolding q using unescape_unicode[OF long_escape_ascii[OF True], of r] by simp
  next
    case plain: False
    then show ?thesis
      using False quote_char_long[OF False] by (simp add: short_escapes_def long_escape_def)
  qed
qed

lemma str_body_quote: "str_body (quote_body s @ dquote # r) = Some (s, r)"
  by (induction s) (simp_all add: quote_body_def str_body_quote_char)

definition number_end :: "string \<Rightarrow> bool" where
  "number_end r \<longleftrightarrow> r = [] \<or> (\<not> is_digit (hd r) \<and> hd r \<notin> {CHR ''.'', CHR ''e'', CHR ''E''})"

lemma take_digits_show: "number_end r \<Longrightarrow> take_digits (show_nat n @ r) = (show_nat n, r)"
proof -
  assume "number_end r"
  then have "takeWhile is_digit r = []" "dropWhile is_digit r = r"
    by (cases r; auto simp: number_end_def)+
  then show ?thesis
    using show_nat_digits[of n] by (simp add: take_digits_def takeWhile_append2 dropWhile_append2)
qed

lemma number_end_prefix:
  "number_end r \<Longrightarrow> \<not> has_prefix r ''.'' \<and> \<not> has_prefix r ''e'' \<and> \<not> has_prefix r ''E''"
  by (cases r) (auto simp: number_end_def)

lemma show_nat_no_leading_zero: "has_prefix (show_nat n) ''0'' \<Longrightarrow> n = 0"
proof (induction n rule: show_nat.induct)
  case (1 n)
  show ?case
  proof (cases "n < 10")
    case True
    then have "digit_char n = CHR ''0''" using 1(2) by (subst (asm) show_nat.simps) simp
    then have "digit_val (digit_char n) = digit_val (CHR ''0'')" by simp
    then show ?thesis using True by (simp add: digit_val_def[of "CHR ''0''"])
  next
    case False
    then have "has_prefix (show_nat (n div 10)) ''0''"
      using 1(2) by (subst (asm) show_nat.simps) (cases "show_nat (n div 10)"; simp)
    then have "n div 10 = 0" using 1(1) False by blast
    then show ?thesis using False by simp
  qed
qed

lemma show_nat_0: "show_nat 0 = ''0''"
  by code_simp

lemma scan_digits:
  "number_end r \<Longrightarrow> \<not> (show_nat n = [] \<or> (has_prefix (show_nat n) ''0'' \<and> 1 < length (show_nat n)))"
  using show_nat_no_leading_zero[of n] by (auto simp: show_nat_0)

lemma scan_number_show_int:
  assumes "number_end r" shows "scan_number (show_int i @ r) = Some (JInt i, r)"
proof (cases "i < 0")
  case True
  then show ?thesis
    using scan_digits[OF assms, of "nat (- i)"] number_end_prefix[OF assms] assms
    by (simp add: scan_number_def show_int_def Let_def take_digits_show scan_fraction_def scan_exponent_def)
next
  case False
  have "\<not> has_prefix (show_nat (nat i) @ r) ''-''"
    using digits_no_sign[OF show_nat_not_Nil show_nat_digits, of "nat i"] by (cases "show_nat (nat i)") auto
  then show ?thesis
    using False scan_digits[OF assms, of "nat i"] number_end_prefix[OF assms] assms
    by (simp add: scan_number_def show_int_def Let_def take_digits_show scan_fraction_def scan_exponent_def)
qed

text \<open>Values without fractions; what follows a value in a text never continues a number.\<close>

fun plain_json :: "json \<Rightarrow> bool" where
  "plain_json JFrac = False"
| "plain_json (JArr vs) = (\<forall>v \<in> set vs. plain_json v)"
| "plain_json (JObj kvs) = (\<forall>kv \<in> set kvs. plain_json (snd kv))"
| "plain_json _ = True"

definition value_head :: "char \<Rightarrow> bool" where
  "value_head c \<longleftrightarrow> \<not> json_space c \<and> c \<noteq> CHR '']'' \<and> c \<noteq> CHR ''}''"

lemma digit_value_head: "is_digit c \<Longrightarrow> value_head c"
  by (auto simp: is_digit_def value_head_def json_space_def)

lemma show_nat_head: "\<exists>c s. show_nat n = c # s \<and> is_digit c"
  using show_nat_digits[of n] by (cases "show_nat n") auto

lemma show_int_head: "\<exists>c s. show_int i = c # s \<and> (is_digit c \<or> c = CHR ''-'')"
  using show_nat_head[of "nat i"] by (cases "i < 0") (auto simp: show_int_def)

lemma show_with_head: "\<exists>c s. show_with nl sp d v = c # s \<and> value_head c"
proof (cases v)
  case (JInt i)
  then show ?thesis using show_int_head[of i] digit_value_head by (auto simp: value_head_def json_space_def)
qed (auto simp: json_quote_def value_head_def json_space_def)

definition blank :: "string \<Rightarrow> bool" where "blank w = list_all json_space w"

lemma blank_Nil [simp]: "blank []"
  by (simp add: blank_def)

lemma skip_blank [simp]: "blank w \<Longrightarrow> skip_ws (w @ s) = skip_ws s"
  by (induction w) (auto simp: blank_def skip_ws_def)

lemma skip_ws_solid [simp]: "\<not> json_space c \<Longrightarrow> skip_ws (c # r) = c # r"
  by (simp add: skip_ws_def)

lemma solid_marks [simp]:
  "\<not> json_space (CHR '','')" "\<not> json_space (CHR '':'')" "\<not> json_space (CHR '']'')" "\<not> json_space (CHR ''}'')"
  "\<not> json_space dquote" "\<not> json_space (CHR ''['')" "\<not> json_space (CHR ''{'')"
  "\<not> json_space (CHR ''n'')" "\<not> json_space (CHR ''t'')" "\<not> json_space (CHR ''f'')"
  by (simp_all add: json_space_def)

lemma scan_blank [simp]:
  assumes "blank w"
  shows "scan_value n (w @ s) = scan_value n s" and "scan_members n (w @ s) = scan_members n s"
    and "scan_elems n (w @ s) = scan_elems n s"
proof -
  show v: "scan_value n (w @ s) = scan_value n s" for n by (cases n) (simp_all add: assms)
  show "scan_members n (w @ s) = scan_members n s" by (cases n) (simp_all add: assms)
  show "scan_elems n (w @ s) = scan_elems n s" by (cases n) (simp_all add: v)
qed

lemma number_end_sep [simp]: "number_end [] = True"
  "number_end (CHR '','' # r) = True" "number_end (CHR '']'' # r) = True" "number_end (CHR ''}'' # r) = True"
  by (simp_all add: number_end_def is_digit_def)

lemma number_end_blank [simp]: "blank w \<Longrightarrow> number_end r \<Longrightarrow> number_end (w @ r)"
  by (cases w) (auto simp: blank_def number_end_def json_space_def is_digit_def)

lemma scan_value_int:
  assumes "number_end r" shows "scan_value (Suc n) (show_int i @ r) = Some (JInt i, r)"
proof -
  obtain c s where c: "show_int i = c # s" "is_digit c \<or> c = CHR ''-''" using show_int_head by blast
  have h: "\<not> json_space c" "c \<noteq> dquote" "c \<noteq> CHR ''[''" "c \<noteq> CHR ''{''" "c \<noteq> CHR ''n''" "c \<noteq> CHR ''t''" "c \<noteq> CHR ''f''"
    using c(2) by (auto simp: is_digit_def json_space_def)
  then show ?thesis
    using scan_number_show_int[OF assms, of i] c(1) by simp
qed

text \<open>\<open>reads f v\<close>: the scanner reads \<open>v\<close> back from the text \<open>f v\<close>, whatever follows it.\<close>

definition reads :: "(json \<Rightarrow> string) \<Rightarrow> json \<Rightarrow> bool" where
  "reads f v \<longleftrightarrow> (\<forall>n r. 2 * length (f v) \<le> n \<longrightarrow> number_end r \<longrightarrow> scan_value n (f v @ r) = Some (v, r))"

lemma scan_elems_show:
  assumes "vs \<noteq> []" and "\<And>v. v \<in> set vs \<Longrightarrow> reads f v" and "blank w" and "blank e"
    and "2 * length (join_with (CHR '','' # w) (map f vs)) + 1 \<le> n"
  shows "scan_elems n (join_with (CHR '','' # w) (map f vs) @ e @ CHR '']'' # r) = Some (vs, r)"
  using assms
proof (induction vs arbitrary: n)
  case (Cons v vs)
  obtain m where n: "n = Suc m" using Cons.prems(5) by (cases n) auto
  have rv: "2 * length (f v) \<le> m \<Longrightarrow> number_end t \<Longrightarrow> scan_value m (f v @ t) = Some (v, t)" for t
    using Cons.prems(2)[of v] by (simp add: reads_def)
  show ?case
  proof (cases vs)
    case Nil
    then have "scan_value m (f v @ e @ CHR '']'' # r) = Some (v, e @ CHR '']'' # r)"
      using Cons.prems(4,5) n by (intro rv) auto
    then show ?thesis using Nil n Cons.prems(4) by simp
  next
    case (Cons u us)
    let ?rest = "join_with (CHR '','' # w) (map f vs) @ e @ CHR '']'' # r"
    have t: "join_with (CHR '','' # w) (map f (v # vs)) @ e @ CHR '']'' # r = f v @ CHR '','' # w @ ?rest"
      using Cons by simp
    have len: "length (join_with (CHR '','' # w) (map f (v # vs)))
        = length (f v) + 1 + length w + length (join_with (CHR '','' # w) (map f vs))"
      using Cons by simp
    have "scan_value m (f v @ CHR '','' # w @ ?rest) = Some (v, CHR '','' # w @ ?rest)"
      using Cons.prems(5) n len by (intro rv) auto
    moreover have "scan_elems m ?rest = Some (vs, r)"
      using Cons.IH[of m] Cons.prems n len Cons by simp
    ultimately show ?thesis
      unfolding t n using Cons.prems(3) by simp
  qed
qed simp

definition show_member :: "string \<Rightarrow> (json \<Rightarrow> string) \<Rightarrow> string \<times> json \<Rightarrow> string" where
  "show_member sp f kv = json_quote (fst kv) @ CHR '':'' # sp @ f (snd kv)"

lemma show_with_obj: "show_with nl sp d (JObj kvs) =
    (if kvs = [] then ''{}'' else
       ''{'' @ nl (Suc d) @ join_with (CHR '','' # nl (Suc d)) (map (show_member sp (show_with nl sp (Suc d))) kvs)
         @ nl d @ ''}'')"
proof -
  have "(\<lambda>(k, v). json_quote k @ CHR '':'' # sp @ show_with nl sp (Suc d) v) = show_member sp (show_with nl sp (Suc d))"
    by (auto simp: fun_eq_iff show_member_def)
  then show ?thesis by simp
qed

lemma show_member_head: "\<exists>c s. show_member sp f kv = c # s \<and> value_head c"
  by (simp add: show_member_def json_quote_def value_head_def)

lemma scan_members_first:
  assumes "scan_value n (f v @ r) = Some (v, r)" and "blank sp"
  shows "scan_members (Suc n) (show_member sp f (k, v) @ r) =
     (if has_prefix (skip_ws r) '','' then map_option (\<lambda>(kvs, r). ((k, v) # kvs, r)) (scan_members n (tl (skip_ws r)))
      else if has_prefix (skip_ws r) ''}'' then Some ([(k, v)], tl (skip_ws r)) else None)"
proof -
  have t: "show_member sp f (k, v) @ r = dquote # (quote_body k @ dquote # CHR '':'' # sp @ f v @ r)"
    by (simp add: show_member_def json_quote_def)
  from assms str_body_quote[of k "CHR '':'' # sp @ f v @ r"] show ?thesis unfolding t by simp
qed

lemma scan_members_show:
  assumes "kvs \<noteq> []" and "\<And>kv. kv \<in> set kvs \<Longrightarrow> reads f (snd kv)" and "blank w" and "blank e" and "blank sp"
    and "2 * length (join_with (CHR '','' # w) (map (show_member sp f) kvs)) + 1 \<le> n"
  shows "scan_members n (join_with (CHR '','' # w) (map (show_member sp f) kvs) @ e @ CHR ''}'' # r) = Some (kvs, r)"
  using assms
proof (induction kvs arbitrary: n)
  case (Cons kv kvs)
  obtain k v where kv: "kv = (k, v)" by (cases kv)
  obtain m where n: "n = Suc m" using Cons.prems(6) by (cases n) auto
  have v: "length (f v) \<le> length (show_member sp f kv)" by (simp add: kv show_member_def)
  have rv: "2 * length (f v) \<le> m \<Longrightarrow> number_end t \<Longrightarrow> scan_value m (f v @ t) = Some (v, t)" for t
    using Cons.prems(2)[of kv] by (simp add: reads_def kv)
  show ?case
  proof (cases kvs)
    case Nil
    then have "scan_value m (f v @ e @ CHR ''}'' # r) = Some (v, e @ CHR ''}'' # r)"
      using Cons.prems(4,6) n v by (intro rv) auto
    from scan_members_first[of m f, OF this Cons.prems(5), of k] Nil show ?thesis
      using Cons.prems(4) by (simp add: n kv)
  next
    case (Cons u us)
    let ?rest = "join_with (CHR '','' # w) (map (show_member sp f) kvs) @ e @ CHR ''}'' # r"
    have t: "join_with (CHR '','' # w) (map (show_member sp f) (kv # kvs)) @ e @ CHR ''}'' # r
        = show_member sp f kv @ CHR '','' # w @ ?rest"
      using Cons by simp
    have len: "length (join_with (CHR '','' # w) (map (show_member sp f) (kv # kvs)))
        = length (show_member sp f kv) + 1 + length w + length (join_with (CHR '','' # w) (map (show_member sp f) kvs))"
      using Cons by simp
    have "scan_value m (f v @ CHR '','' # w @ ?rest) = Some (v, CHR '','' # w @ ?rest)"
      using Cons.prems(6) n len v by (intro rv) auto
    from scan_members_first[of m f, OF this Cons.prems(5), of k] have
      "scan_members n (show_member sp f kv @ CHR '','' # w @ ?rest) = map_option (\<lambda>(kvs, r). (kv # kvs, r)) (scan_members m ?rest)"
      using Cons.prems(3) by (simp add: n kv)
    moreover have "scan_members m ?rest = Some (kvs, r)"
      using Cons.IH[of m] Cons.prems n len Cons by simp
    ultimately show ?thesis unfolding t by simp
  qed
qed simp

lemma joined_not_close:
  assumes "xs \<noteq> []" and "\<And>x. x \<in> set xs \<Longrightarrow> \<exists>c s. x = c # s \<and> value_head c"
  shows "\<not> has_prefix (skip_ws (join_with sep xs @ r)) '']'' \<and> \<not> has_prefix (skip_ws (join_with sep xs @ r)) ''}''"
proof -
  obtain x ys where xs: "xs = x # ys" using assms(1) by (cases xs) auto
  obtain c s where "x = c # s" "value_head c" using assms(2)[of x] xs by auto
  then have "\<exists>t. join_with sep xs @ r = c # t" using xs by (cases ys) auto
  then show ?thesis using \<open>value_head c\<close> by (auto simp: value_head_def)
qed

text \<open>
  A layout says what white space \<open>Marshal\<close> puts on a new line at each depth, and after a colon. The
  scanner reads a value back from its text in every layout.
\<close>

locale json_layout =
  fixes nl :: "nat \<Rightarrow> string" and sp :: string
  assumes nl_blank: "blank (nl d)" and sp_blank: "blank sp"
begin

lemma reads_array:
  assumes "\<And>v. v \<in> set vs \<Longrightarrow> reads (show_with nl sp (Suc d)) v"
  shows "reads (show_with nl sp d) (JArr vs)"
  unfolding reads_def
proof (intro allI impI)
  fix n r assume l: "2 * length (show_with nl sp d (JArr vs)) \<le> n"
  then obtain m where n: "n = Suc m" by (cases n) (auto split: if_splits)
  show "scan_value n (show_with nl sp d (JArr vs) @ r) = Some (JArr vs, r)"
  proof (cases "vs = []")
    case False
    let ?f = "show_with nl sp (Suc d)" and ?w = "nl (Suc d)"
    let ?body = "join_with (CHR '','' # ?w) (map ?f vs)"
    have "\<exists>c s. x = c # s \<and> value_head c" if "x \<in> set (map ?f vs)" for x
      using that show_with_head by auto
    then have "\<not> has_prefix (skip_ws (?body @ nl d @ CHR '']'' # r)) '']''"
      using joined_not_close[of "map ?f vs"] False by blast
    moreover have "scan_elems m (?body @ nl d @ CHR '']'' # r) = Some (vs, r)"
      using l n False by (intro scan_elems_show assms nl_blank) auto
    ultimately show ?thesis using False by (simp add: n nl_blank)
  qed (simp add: n)
qed

lemma reads_object:
  assumes "\<And>kv. kv \<in> set kvs \<Longrightarrow> reads (show_with nl sp (Suc d)) (snd kv)"
  shows "reads (show_with nl sp d) (JObj kvs)"
  unfolding reads_def
proof (intro allI impI)
  fix n r assume l: "2 * length (show_with nl sp d (JObj kvs)) \<le> n"
  then obtain m where n: "n = Suc m" by (cases n) (auto simp: show_with_obj split: if_splits)
  show "scan_value n (show_with nl sp d (JObj kvs) @ r) = Some (JObj kvs, r)"
  proof (cases "kvs = []")
    case False
    let ?f = "show_member sp (show_with nl sp (Suc d))" and ?w = "nl (Suc d)"
    let ?body = "join_with (CHR '','' # ?w) (map ?f kvs)"
    have "\<exists>c s. x = c # s \<and> value_head c" if "x \<in> set (map ?f kvs)" for x
      using that show_member_head by auto
    then have "\<not> has_prefix (skip_ws (?body @ nl d @ CHR ''}'' # r)) ''}''"
      using joined_not_close[of "map ?f kvs"] False by blast
    moreover have "scan_members m (?body @ nl d @ CHR ''}'' # r) = Some (kvs, r)"
      using l n False unfolding show_with_obj by (intro scan_members_show assms nl_blank sp_blank) auto
    ultimately show ?thesis using False unfolding show_with_obj by (simp add: n nl_blank)
  qed (simp add: n)
qed

lemma reads_value: "plain_json v \<Longrightarrow> reads (show_with nl sp d) v"
proof (induction v arbitrary: d)
  case (JArr vs)
  then show ?case by (intro reads_array) auto
next
  case (JObj kvs)
  show ?case
  proof (rule reads_object)
    fix kv assume "kv \<in> set kvs"
    then show "reads (show_with nl sp (Suc d)) (snd kv)"
      using JObj.IH[of kv "snd kv"] JObj.prems by (simp add: snds.intros)
  qed
next
  case (JInt i)
  show ?case unfolding reads_def
  proof (intro allI impI)
    fix n r assume "2 * length (show_with nl sp d (JInt i)) \<le> n" "number_end r"
    then show "scan_value n (show_with nl sp d (JInt i) @ r) = Some (JInt i, r)"
      using scan_value_int[of r "n - 1" i] show_int_head[of i] by (cases n) auto
  qed
next
  case (JStr s)
  show ?case unfolding reads_def
  proof (intro allI impI)
    fix n r assume "2 * length (show_with nl sp d (JStr s)) \<le> n" "number_end r"
    then show "scan_value n (show_with nl sp d (JStr s) @ r) = Some (JStr s, r)"
      using str_body_quote[of s r] by (cases n) (auto simp: json_quote_def)
  qed
next
  case (JBool b)
  show ?case unfolding reads_def
  proof (intro allI impI)
    fix n r assume "2 * length (show_with nl sp d (JBool b)) \<le> n" "number_end r"
    then show "scan_value n (show_with nl sp d (JBool b) @ r) = Some (JBool b, r)"
      by (cases n; cases b) auto
  qed
next
  case JNull
  show ?case unfolding reads_def
  proof (intro allI impI)
    fix n r assume "2 * length (show_with nl sp d JNull) \<le> n" "number_end r"
    then show "scan_value n (show_with nl sp d JNull @ r) = Some (JNull, r)"
      by (cases n) auto
  qed
qed simp

lemma scan_show: "plain_json v \<Longrightarrow> scan_json (show_with nl sp d v) = Json v"
  using reads_value[of v d, unfolded reads_def, THEN spec, THEN spec, of "json_fuel (show_with nl sp d v)" "[]"]
  by (simp add: scan_json_def json_fuel_def skip_ws_def)

end

lemma blank_replicate: "blank (CHR 0x0A # concat (replicate d ''  ''))"
  by (induction d) (auto simp: blank_def json_space_def)

interpretation compact: json_layout "\<lambda>_. []" "[]"
  by unfold_locales simp_all

interpretation indented: json_layout indent_line "'' ''"
  by unfold_locales (simp_all add: indent_line_def blank_replicate, simp add: blank_def json_space_def)

lemma scan_show_json: "plain_json v \<Longrightarrow> scan_json (show_json v) = Json v"
  by (simp add: show_json_def compact.scan_show)

lemma scan_indent_json: "plain_json v \<Longrightarrow> scan_json (indent_json v) = Json v"
  by (simp add: indent_json_def indented.scan_show)

end
