(* ===== verification/Loader.thy ===== *)
theory Loader
  imports Workflow_Spec Go_Json
begin

text \<open>
  Loading and saving workflow definitions: \<open>internal/workflow/load.go\<close>, the templates under
  \<open>internal/workflow/templates\<close>, and the save and remove operations of \<open>cmd/workflows.go\<close>. A
  definition file is what the JSON scanner of the standard library makes of its bytes: not JSON, a
  value, or a value followed by more data. Decoding the value into the structs of
  \<open>workflow.go\<close> is modelled field by field, unknown fields rejected.
\<close>

section \<open>Decoding a definition\<close>

fun on_field :: "(string \<times> string) list \<Rightarrow> string \<Rightarrow> json \<Rightarrow> (string \<times> string) list option" where
  "on_field on k v = map_option (\<lambda>t. AList.update k t on) (as_string [] v)"

fun as_on :: "(string \<times> string) list \<Rightarrow> json \<Rightarrow> (string \<times> string) list option" where
  "as_on old (JObj kvs) = fold_fields on_field old kvs"
| "as_on old JNull = Some []"
| "as_on old _ = None"

definition when_field :: "when_guard \<Rightarrow> string \<Rightarrow> json \<Rightarrow> when_guard option" where
  "when_field w k v =
     (if equal_fold k ''dayOfWeek'' then map_option (\<lambda>s. w\<lparr>day_of_week := s\<rparr>) (as_string (day_of_week w) v)
      else if equal_fold k ''minAttendees'' then map_option (\<lambda>n. w\<lparr>min_attendees := n\<rparr>) (as_int (min_attendees w) v)
      else if equal_fold k ''maxAttendees'' then map_option (\<lambda>n. w\<lparr>max_attendees := n\<rparr>) (as_int (max_attendees w) v)
      else None)"

fun as_when :: "when_guard \<Rightarrow> json \<Rightarrow> when_guard option" where
  "as_when old (JObj kvs) = fold_fields when_field old kvs"
| "as_when old JNull = Some old"
| "as_when old _ = None"

definition step_field :: "step \<Rightarrow> string \<Rightarrow> json \<Rightarrow> step option" where
  "step_field s k v =
     (if equal_fold k ''verb'' then map_option (\<lambda>x. s\<lparr>step_verb := verb_of x\<rparr>) (as_string (verb_name (step_verb s)) v)
      else if equal_fold k ''id'' then map_option (\<lambda>x. s\<lparr>step_id := x\<rparr>) (as_string (step_id s) v)
      else if equal_fold k ''on'' then map_option (\<lambda>x. s\<lparr>step_on := x\<rparr>) (as_on (step_on s) v)
      else if equal_fold k ''next'' then map_option (\<lambda>x. s\<lparr>step_next := x\<rparr>) (as_string (step_next s) v)
      else if equal_fold k ''timeout'' then map_option (\<lambda>x. s\<lparr>step_timeout := x\<rparr>) (as_string (step_timeout s) v)
      else if equal_fold k ''when'' then map_option (\<lambda>x. s\<lparr>step_when := x\<rparr>) (as_when (step_when s) v)
      else if equal_fold k ''showAs'' then map_option (\<lambda>x. s\<lparr>step_show_as := show_as_of x\<rparr>)
        (as_string (show_as_name (step_show_as s)) v)
      else if equal_fold k ''manager'' then map_option (\<lambda>x. s\<lparr>step_manager := x\<rparr>) (as_bool (step_manager s) v)
      else if equal_fold k ''approver'' then map_option (\<lambda>x. s\<lparr>step_approver := x\<rparr>) (as_string (step_approver s) v)
      else if equal_fold k ''team'' then map_option (\<lambda>x. s\<lparr>step_team := role_of x\<rparr>)
        (as_string (role_name (step_team s)) v)
      else if equal_fold k ''subject'' then map_option (\<lambda>x. s\<lparr>step_subject := x\<rparr>) (as_string (step_subject s) v)
      else if equal_fold k ''channel'' then map_option (\<lambda>x. s\<lparr>step_channel := x\<rparr>) (as_string (step_channel s) v)
      else if equal_fold k ''for'' then map_option (\<lambda>x. s\<lparr>step_for := x\<rparr>) (as_string (step_for s) v)
      else None)"

fun as_step :: "json \<Rightarrow> step option" where
  "as_step (JObj kvs) = fold_fields step_field zero_step kvs"
| "as_step JNull = Some zero_step"
| "as_step _ = None"

fun as_step_list :: "json list \<Rightarrow> step list option" where
  "as_step_list [] = Some []"
| "as_step_list (v # vs) =
     (case as_step v of None \<Rightarrow> None | Some s \<Rightarrow> map_option (\<lambda>ss. s # ss) (as_step_list vs))"

fun as_steps :: "json \<Rightarrow> step list option" where
  "as_steps (JArr vs) = as_step_list vs"
| "as_steps JNull = Some []"
| "as_steps _ = None"

definition zero_workflow :: workflow where
  "zero_workflow = \<lparr>wf_name = [], wf_description = [], wf_steps = []\<rparr>"

definition workflow_field :: "workflow \<Rightarrow> string \<Rightarrow> json \<Rightarrow> workflow option" where
  "workflow_field w k v =
     (if equal_fold k ''name'' then map_option (\<lambda>x. w\<lparr>wf_name := x\<rparr>) (as_string (wf_name w) v)
      else if equal_fold k ''description'' then map_option (\<lambda>x. w\<lparr>wf_description := x\<rparr>) (as_string (wf_description w) v)
      else if equal_fold k ''steps'' then map_option (\<lambda>x. w\<lparr>wf_steps := x\<rparr>) (as_steps v)
      else None)"

fun as_workflow :: "json \<Rightarrow> workflow option" where
  "as_workflow (JObj kvs) = fold_fields workflow_field zero_workflow kvs"
| "as_workflow JNull = Some zero_workflow"
| "as_workflow _ = None"

definition checked :: "workflow \<Rightarrow> workflow result" where
  "checked w = (case validate w of Some e \<Rightarrow> Inl e | None \<Rightarrow> Inr w)"

fun parse_workflow :: "json_text \<Rightarrow> workflow result" where
  "parse_workflow NotJson = Inl (invalid_workflow ''not JSON'')"
| "parse_workflow (JsonTrailing v) =
     (case as_workflow v of
        None \<Rightarrow> Inl (invalid_workflow ''cannot decode'')
      | Some w \<Rightarrow> Inl (invalid_workflow ''unexpected data after the workflow definition''))"
| "parse_workflow (Json v) =
     (case as_workflow v of
        None \<Rightarrow> Inl (invalid_workflow ''cannot decode'')
      | Some w \<Rightarrow> checked w)"

text \<open>\<open>describe\<close>: the description of a definition, whatever else is wrong with it.\<close>

definition describe_field :: "string \<Rightarrow> string \<Rightarrow> json \<Rightarrow> string option" where
  "describe_field d k v =
     (if equal_fold k ''description'' then (case as_string d v of Some s \<Rightarrow> Some s | None \<Rightarrow> Some d) else Some d)"

fun describe :: "json_text \<Rightarrow> string" where
  "describe (Json (JObj kvs)) = (case fold_fields describe_field [] kvs of Some d \<Rightarrow> d | None \<Rightarrow> [])"
| "describe _ = []"

section \<open>The loader\<close>

datatype source = SourceBuiltin | SourceUser

datatype entry = Directory | Unreadable error | File_Data json_text

type_synonym dir = "(string \<times> entry) list"

datatype user_dir = NoUserDir | DirError error | Dir dir

definition valid_name :: "string \<Rightarrow> bool" where
  "valid_name n \<longleftrightarrow> n \<noteq> [] \<and> \<not> list_ex (\<lambda>c. c = CHR ''/'' \<or> c = CHR 0x5C \<or> c = CHR ''.'') n"

definition json_file :: "string \<Rightarrow> string" where
  "json_file n = n @ ''.json''"

abbreviation json_suffix :: string where "json_suffix \<equiv> ''.json''"

fun read_user :: "user_dir \<Rightarrow> string \<Rightarrow> json_text option result" where
  "read_user NoUserDir n = Inr None"
| "read_user (DirError e) n = Inl e"
| "read_user (Dir d) n =
     (case map_of d (json_file n) of
        None \<Rightarrow> Inr None
      | Some Directory \<Rightarrow> Inl (Errorf ''is a directory'' [])
      | Some (Unreadable e) \<Rightarrow> Inl e
      | Some (File_Data t) \<Rightarrow> Inr (Some t))"

definition raw :: "dir \<Rightarrow> user_dir \<Rightarrow> string \<Rightarrow> (json_text \<times> source) result" where
  "raw builtin user n =
     (if \<not> valid_name n then Inl (Errorf n [ErrUnknownWorkflow])
      else case read_user user n of
        Inl e \<Rightarrow> Inl (Errorf (''read workflow '' @ n) [e])
      | Inr (Some t) \<Rightarrow> Inr (t, SourceUser)
      | Inr None \<Rightarrow>
          (case map_of builtin (json_file n) of
             Some (File_Data t) \<Rightarrow> Inr (t, SourceBuiltin)
           | Some (Unreadable e) \<Rightarrow> Inl e
           | Some Directory \<Rightarrow> Inl (Errorf ''is a directory'' [])
           | None \<Rightarrow> Inl (Errorf n [ErrUnknownWorkflow])))"

definition load :: "dir \<Rightarrow> user_dir \<Rightarrow> string \<Rightarrow> workflow result" where
  "load builtin user n =
     (case raw builtin user n of Inl e \<Rightarrow> Inl e | Inr (t, src) \<Rightarrow> parse_workflow t)"

record info =
  info_name :: string
  info_description :: string
  info_source :: source

definition builtin_info :: "string \<times> entry \<Rightarrow> (string \<times> info) result" where
  "builtin_info fe = (case fe of (f, e) \<Rightarrow>
     let n = trim_suffix f json_suffix in
     (case e of
        File_Data t \<Rightarrow> Inr (n, \<lparr>info_name = n, info_description = describe t, info_source = SourceBuiltin\<rparr>)
      | Unreadable err \<Rightarrow> Inl err
      | Directory \<Rightarrow> Inl (Errorf ''is a directory'' [])))"

fun builtin_infos :: "(string \<times> info) list \<Rightarrow> dir \<Rightarrow> (string \<times> info) list result" where
  "builtin_infos acc [] = Inr acc"
| "builtin_infos acc (fe # rest) =
     (case builtin_info fe of Inl e \<Rightarrow> Inl e | Inr (n, i) \<Rightarrow> builtin_infos (AList.update n i acc) rest)"

definition user_info :: "(string \<times> info) list \<Rightarrow> string \<times> entry \<Rightarrow> (string \<times> info) list" where
  "user_info acc fe = (case fe of (f, e) \<Rightarrow>
     (case e of
        File_Data t \<Rightarrow>
          (if has_suffix f json_suffix
           then let n = trim_suffix f json_suffix
                in AList.update n \<lparr>info_name = n, info_description = describe t, info_source = SourceUser\<rparr> acc
           else acc)
      | _ \<Rightarrow> acc))"

definition list_workflows :: "dir \<Rightarrow> user_dir \<Rightarrow> info list result" where
  "list_workflows builtin user =
     (case builtin_infos [] builtin of
        Inl e \<Rightarrow> Inl e
      | Inr infos \<Rightarrow>
          (case user of
             DirError e \<Rightarrow> Inl e
           | NoUserDir \<Rightarrow> Inr (sort_key info_name (map snd infos))
           | Dir d \<Rightarrow> Inr (sort_key info_name (map snd (foldl user_info infos d)))))"

section \<open>Saving and removing user workflows\<close>

definition safe_char :: "char \<Rightarrow> bool" where
  "safe_char c \<longleftrightarrow> (CHR ''a'' \<le> c \<and> c \<le> CHR ''z'') \<or> (CHR ''A'' \<le> c \<and> c \<le> CHR ''Z'')
     \<or> (CHR ''0'' \<le> c \<and> c \<le> CHR ''9'') \<or> c = CHR ''-'' \<or> c = CHR ''_''"

definition safe_workflow_name :: "string \<Rightarrow> bool" where
  "safe_workflow_name n \<longleftrightarrow> n \<noteq> [] \<and> length n \<le> 64 \<and> list_all safe_char n"

text \<open>Writing the file may fail, which leaves the directory as it was.\<close>

definition save_user_workflow :: "error option \<Rightarrow> json_text \<Rightarrow> dir \<Rightarrow> workflow result \<times> dir" where
  "save_user_workflow write_error t d =
     (case parse_workflow t of
        Inl e \<Rightarrow> (Inl e, d)
      | Inr w \<Rightarrow>
          (if \<not> safe_workflow_name (wf_name w) then (Inl (Errorf (''invalid workflow name '' @ wf_name w) []), d)
           else case write_error of
             Some e \<Rightarrow> (Inl e, d)
           | None \<Rightarrow> (Inr w, AList.update (json_file (wf_name w)) (File_Data t) d)))"

definition remove_user_workflow :: "error option \<Rightarrow> string \<Rightarrow> dir \<Rightarrow> error option \<times> dir" where
  "remove_user_workflow remove_error n d =
     (if \<not> safe_workflow_name n then (Some (Errorf (''invalid name '' @ n) []), d)
      else case map_of d (json_file n) of
        None \<Rightarrow> (Some (Errorf (''no user workflow named '' @ n) []), d)
      | Some e \<Rightarrow>
          (case remove_error of Some err \<Rightarrow> (Some err, d) | None \<Rightarrow> (None, AList.delete (json_file n) d)))"

section \<open>Properties\<close>

lemma json_file_inj [simp]: "json_file m = json_file n \<longleftrightarrow> m = n"
  by (simp add: json_file_def)

lemma checked_Inr: "checked w = Inr w' \<longleftrightarrow> w' = w \<and> well_formed w"
  by (auto simp: checked_def validate_spec[symmetric] split: option.splits)

lemma parse_workflow_well_formed: "parse_workflow t = Inr w \<Longrightarrow> well_formed w"
  by (cases t) (auto simp: checked_Inr split: option.splits)

lemma load_parsed: "load b u n = Inr w \<Longrightarrow> valid_name n \<and> well_formed w"
  by (auto simp: load_def raw_def split: sum.splits if_splits dest: parse_workflow_well_formed)

lemma safe_valid: "safe_workflow_name n \<Longrightarrow> valid_name n"
proof -
  have "safe_char c \<Longrightarrow> c \<noteq> CHR ''/'' \<and> c \<noteq> CHR 0x5C \<and> c \<noteq> CHR ''.''" for c
    by (auto simp: safe_char_def less_eq_char_def)
  then show "safe_workflow_name n \<Longrightarrow> valid_name n"
    by (auto simp: safe_workflow_name_def valid_name_def list_all_iff list_ex_iff)
qed

lemma load_Dir_cong:
  "map_of d (json_file n) = map_of d' (json_file n) \<Longrightarrow> load b (Dir d) n = load b (Dir d') n"
  by (simp add: load_def raw_def)

lemma load_user_file:
  "valid_name n \<Longrightarrow> map_of d (json_file n) = Some (File_Data t) \<Longrightarrow> load b (Dir d) n = parse_workflow t"
  by (simp add: load_def raw_def)

lemma load_no_user_file: "map_of d (json_file n) = None \<Longrightarrow> load b (Dir d) n = load b NoUserDir n"
  by (simp add: load_def raw_def)

lemma save_success:
  "save_user_workflow we t d = (Inr w, d') \<longleftrightarrow> we = None \<and> parse_workflow t = Inr w
     \<and> safe_workflow_name (wf_name w) \<and> d' = AList.update (json_file (wf_name w)) (File_Data t) d"
  by (auto simp: save_user_workflow_def split: sum.splits if_splits option.splits)

lemma save_failure: "save_user_workflow we t d = (Inl e, d') \<Longrightarrow> d' = d"
  by (auto simp: save_user_workflow_def split: sum.splits if_splits option.splits)

lemma remove_success:
  "remove_user_workflow re n d = (None, d') \<longleftrightarrow> re = None \<and> safe_workflow_name n
     \<and> map_of d (json_file n) \<noteq> None \<and> d' = AList.delete (json_file n) d"
  by (auto simp: remove_user_workflow_def split: if_splits option.splits)

lemma remove_failure: "remove_user_workflow re n d = (Some e, d') \<Longrightarrow> d' = d"
  by (auto simp: remove_user_workflow_def split: if_splits option.splits)

section \<open>The listing agrees with what loading reads\<close>

definition listed :: "dir \<Rightarrow> source \<Rightarrow> string \<Rightarrow> info option" where
  "listed d src n = (case map_of d (json_file n) of
     Some (File_Data t) \<Rightarrow> Some \<lparr>info_name = n, info_description = describe t, info_source = src\<rparr>
   | _ \<Rightarrow> None)"

lemma json_suffix_cases:
  obtains n where "f = json_file n" | "\<not> has_suffix f json_suffix"
  by (metis has_suffix_iff json_file_def)

lemma trim_json_file [simp]: "trim_suffix (json_file n) json_suffix = n" "has_suffix (json_file n) json_suffix"
  by (auto simp: json_file_def has_suffix_iff)

lemma listed_Cons:
  "map_of d f = None \<Longrightarrow> listed ((f, e) # d) src n =
     (case e of File_Data t \<Rightarrow> if f = json_file n
          then Some \<lparr>info_name = n, info_description = describe t, info_source = src\<rparr> else listed d src n
      | _ \<Rightarrow> listed d src n)"
  by (auto simp: listed_def split: entry.splits)

lemma listed_new: "map_of d (json_file n) = None \<Longrightarrow> listed d src n = None"
  by (simp add: listed_def)

lemma map_of_user_info_step:
  "map_of (user_info acc (f, e)) n =
     (case e of File_Data t \<Rightarrow> if f = json_file n
          then Some \<lparr>info_name = n, info_description = describe t, info_source = SourceUser\<rparr> else map_of acc n
      | _ \<Rightarrow> map_of acc n)"
proof (rule json_suffix_cases[of f])
  fix m assume "f = json_file m"
  then show ?thesis by (cases e) (auto simp: user_info_def update_conv' Let_def)
next
  assume no: "\<not> has_suffix f json_suffix"
  then have "f \<noteq> json_file n" by auto
  with no show ?thesis by (cases e) (auto simp: user_info_def)
qed

lemma map_of_user_info:
  "distinct (map fst d) \<Longrightarrow> map_of (foldl user_info acc d) n =
     (case listed d SourceUser n of Some i \<Rightarrow> Some i | None \<Rightarrow> map_of acc n)"
proof (induction d arbitrary: acc)
  case (Cons fe d)
  obtain f e where fe: "fe = (f, e)" by fastforce
  have f_new: "map_of d f = None" using Cons.prems by (auto simp: fe map_of_eq_None_iff)
  have "map_of (foldl user_info (user_info acc fe) d) n =
      (case listed d SourceUser n of Some i \<Rightarrow> Some i | None \<Rightarrow> map_of (user_info acc fe) n)"
    using Cons by simp
  then show ?case
    using f_new unfolding fe map_of_user_info_step listed_Cons[OF f_new] foldl_Cons
    by (cases e; cases "f = json_file n"; cases "listed d SourceUser n") (simp_all add: listed_new)
qed (simp add: listed_def)

lemma map_of_builtin_infos:
  "distinct (map fst d) \<Longrightarrow> \<forall>(f, e) \<in> set d. has_suffix f json_suffix \<Longrightarrow> builtin_infos acc d = Inr infos \<Longrightarrow>
     map_of infos n = (case listed d SourceBuiltin n of Some i \<Rightarrow> Some i | None \<Rightarrow> map_of acc n)"
proof (induction d arbitrary: acc)
  case (Cons fe d)
  obtain f e where fe: "fe = (f, e)" by fastforce
  obtain m where f: "f = json_file m"
    using Cons.prems(2) fe by (metis (no_types, lifting) case_prodD json_suffix_cases list.set_intros(1))
  have f_new: "map_of d f = None" using Cons.prems by (auto simp: fe map_of_eq_None_iff)
  obtain t where e: "e = File_Data t"
    using Cons.prems(3) by (cases e) (auto simp: fe builtin_info_def)
  let ?acc = "AList.update m \<lparr>info_name = m, info_description = describe t, info_source = SourceBuiltin\<rparr> acc"
  have "builtin_infos ?acc d = Inr infos"
    using Cons.prems(3) by (simp add: fe f e builtin_info_def Let_def)
  then have "map_of infos n = (case listed d SourceBuiltin n of Some i \<Rightarrow> Some i | None \<Rightarrow> map_of ?acc n)"
    using Cons.IH[of ?acc] Cons.prems by simp
  then show ?case using f_new listed_new[of d n]
    unfolding fe f e listed_Cons[OF f_new[unfolded f]]
    by (cases "m = n"; cases "listed d SourceBuiltin n") (simp_all add: update_conv')
qed (simp add: listed_def)

lemma builtin_infos_distinct:
  "distinct (map fst acc) \<Longrightarrow> builtin_infos acc d = Inr infos \<Longrightarrow> distinct (map fst infos)"
  by (induction acc d rule: builtin_infos.induct) (auto simp: distinct_update split: sum.splits)

lemma user_infos_distinct: "distinct (map fst acc) \<Longrightarrow> distinct (map fst (foldl user_info acc d))"
proof (induction d arbitrary: acc)
  case (Cons fe d)
  have "distinct (map fst (user_info acc fe))"
    using Cons.prems by (auto simp: user_info_def distinct_update Let_def split: entry.splits prod.splits)
  then show ?case using Cons.IH by simp
qed simp

lemma listed_name: "listed d src n = Some i \<Longrightarrow> info_name i = n"
  by (auto simp: listed_def split: option.splits entry.splits)

lemma list_workflows_map:
  assumes "distinct (map fst b)" "\<forall>(f, e) \<in> set b. has_suffix f json_suffix" "distinct (map fst d)"
    and "list_workflows b (Dir d) = Inr is"
  shows "sorted (map info_name is)" and "distinct (map info_name is)"
    and "i \<in> set is \<longleftrightarrow> (case listed d SourceUser (info_name i) of Some j \<Rightarrow> i = j
           | None \<Rightarrow> listed b SourceBuiltin (info_name i) = Some i)"
proof -
  obtain infos where bi: "builtin_infos [] b = Inr infos"
    and isd: "is = sort_key info_name (map snd (foldl user_info infos d))"
    using assms(4) by (auto simp: list_workflows_def split: sum.splits)
  let ?m = "foldl user_info infos d"
  have m: "map_of ?m n = (case listed d SourceUser n of Some i \<Rightarrow> Some i | None \<Rightarrow> listed b SourceBuiltin n)" for n
    using map_of_user_info[OF assms(3)] map_of_builtin_infos[OF assms(1,2) bi]
    by (auto split: option.splits)
  have dist: "distinct (map fst ?m)"
    by (rule user_infos_distinct) (rule builtin_infos_distinct[OF _ bi], simp)
  have key: "info_name j = n" if "(n, j) \<in> set ?m" for n j
    using m[of n] map_of_is_SomeI[OF dist that] listed_name[of d SourceUser n] listed_name[of b SourceBuiltin n]
    by (cases "listed d SourceUser n") simp_all
  have names: "map info_name (map snd ?m) = map fst ?m"
    using key by (auto intro!: map_cong)
  show "sorted (map info_name is)" by (simp add: isd)
  show "distinct (map info_name is)"
  proof -
    have "distinct (map info_name (map snd ?m))" unfolding names by (rule dist)
    then show ?thesis unfolding isd distinct_map[of info_name] by simp
  qed
  have "i \<in> set is \<longleftrightarrow> i \<in> snd ` set ?m" by (simp add: isd)
  also have "\<dots> \<longleftrightarrow> (info_name i, i) \<in> set ?m"
  proof
    assume "i \<in> snd ` set ?m"
    then obtain n where "(n, i) \<in> set ?m" by (metis imageE prod.collapse)
    with key show "(info_name i, i) \<in> set ?m" by blast
  qed (metis image_eqI snd_conv)
  also have "\<dots> \<longleftrightarrow> map_of ?m (info_name i) = Some i"
    using map_of_eq_Some_iff[OF dist] by blast
  finally show "i \<in> set is \<longleftrightarrow> (case listed d SourceUser (info_name i) of Some j \<Rightarrow> i = j
           | None \<Rightarrow> listed b SourceBuiltin (info_name i) = Some i)"
    unfolding m by (cases "listed d SourceUser (info_name i)") auto
qed

end
