(* ===== verification/Templates.thy ===== *)
theory Templates
  imports Loader
begin

text \<open>
  The built-in workflow templates, \<open>internal/workflow/templates/*.json\<close>, as the values the JSON
  scanner reads, and the embedded directory the loader falls back to. Every template decodes,
  validates and carries the name of its file.
\<close>

definition template_away :: json where
  "template_away = JObj
     [(''name'', JStr ''away''),
      (''description'', JStr ''Mark yourself out of office over a date range.''),
      (''steps'', JArr [
        JObj [(''verb'', JStr ''away''), (''showAs'', JStr ''oof'')]])]"

definition template_notify_later :: json where
  "template_notify_later = JObj
     [(''name'', JStr ''notify-later''),
      (''description'', JStr ''Hold the time now and tell the team after a delay, not the instant it is booked.''),
      (''steps'', JArr [
        JObj [(''id'', JStr ''hold''), (''verb'', JStr ''hold''), (''showAs'', JStr ''free'')],
        JObj [(''id'', JStr ''wait''), (''verb'', JStr ''wait''), (''for'', JStr ''24h'')],
        JObj [(''id'', JStr ''notify''), (''verb'', JStr ''notify''), (''team'', JStr ''optional''), (''next'', JStr ''end'')]])]"

definition template_notify_only :: json where
  "template_notify_only = JObj
     [(''name'', JStr ''notify-only''),
      (''description'', JStr ''Tell the team you are off with no approval step.''),
      (''steps'', JArr [
        JObj [(''verb'', JStr ''hold''), (''showAs'', JStr ''free'')],
        JObj [(''verb'', JStr ''notify''), (''team'', JStr ''optional'')]])]"

definition template_pto_announce :: json where
  "template_pto_announce = JObj
     [(''name'', JStr ''pto-announce''),
      (''description'', JStr ''Time off a manager approves, then announce it to a channel and notify the team.''),
      (''steps'', JArr [
        JObj [(''id'', JStr ''hold''), (''verb'', JStr ''hold''), (''showAs'', JStr ''free'')],
        JObj [(''id'', JStr ''approval''), (''verb'', JStr ''approve''), (''manager'', JBool True), (''on'', JObj [(''accepted'', JStr ''announce'')])],
        JObj [(''id'', JStr ''announce''), (''verb'', JStr ''message''), (''channel'', JStr ''#out-of-office''), (''next'', JStr ''notify'')],
        JObj [(''id'', JStr ''notify''), (''verb'', JStr ''notify''), (''team'', JStr ''optional''), (''next'', JStr ''end'')]])]"

definition template_pto_cancel_on_timeout :: json where
  "template_pto_cancel_on_timeout = JObj
     [(''name'', JStr ''pto-cancel-on-timeout''),
      (''description'', JStr ''Time off: notify the team on approval; cancel the hold if the manager does not respond in 72h.''),
      (''steps'', JArr [
        JObj [(''id'', JStr ''hold''), (''verb'', JStr ''hold''), (''showAs'', JStr ''free'')],
        JObj [(''id'', JStr ''approval''), (''verb'', JStr ''approve''), (''manager'', JBool True), (''timeout'', JStr ''72h''), (''on'', JObj [(''accepted'', JStr ''notify''), (''expired'', JStr ''expired'')])],
        JObj [(''id'', JStr ''notify''), (''verb'', JStr ''notify''), (''team'', JStr ''optional''), (''next'', JStr ''end'')],
        JObj [(''id'', JStr ''expired''), (''verb'', JStr ''cancel''), (''next'', JStr ''end'')]])]"

definition template_pto_file_leave :: json where
  "template_pto_file_leave = JObj
     [(''name'', JStr ''pto-file-leave''),
      (''description'', JStr ''Time off a manager approves, then filed as real leave in the HR system and the team notified.''),
      (''steps'', JArr [
        JObj [(''id'', JStr ''hold''), (''verb'', JStr ''hold''), (''showAs'', JStr ''free'')],
        JObj [(''id'', JStr ''approval''), (''verb'', JStr ''approve''), (''manager'', JBool True), (''on'', JObj [(''accepted'', JStr ''file'')])],
        JObj [(''id'', JStr ''file''), (''verb'', JStr ''leave''), (''subject'', JStr ''Time off''), (''next'', JStr ''notify'')],
        JObj [(''id'', JStr ''notify''), (''verb'', JStr ''notify''), (''team'', JStr ''optional''), (''next'', JStr ''end'')]])]"

definition template_pto_notify_on_decline :: json where
  "template_pto_notify_on_decline = JObj
     [(''name'', JStr ''pto-notify-on-decline''),
      (''description'', JStr ''Time off: notify the team on approval, note it on your calendar on decline.''),
      (''steps'', JArr [
        JObj [(''id'', JStr ''hold''), (''verb'', JStr ''hold''), (''showAs'', JStr ''free'')],
        JObj [(''id'', JStr ''approval''), (''verb'', JStr ''approve''), (''manager'', JBool True), (''on'', JObj [(''accepted'', JStr ''notify''), (''declined'', JStr ''denied'')])],
        JObj [(''id'', JStr ''notify''), (''verb'', JStr ''notify''), (''team'', JStr ''optional''), (''next'', JStr ''end'')],
        JObj [(''id'', JStr ''denied''), (''verb'', JStr ''note''), (''subject'', JStr ''Time off declined''), (''next'', JStr ''end'')]])]"

definition template_pto_notify_weekdays :: json where
  "template_pto_notify_weekdays = JObj
     [(''name'', JStr ''pto-notify-weekdays''),
      (''description'', JStr ''Time off a manager approves; tell the team only on weekdays.''),
      (''steps'', JArr [
        JObj [(''verb'', JStr ''hold''), (''showAs'', JStr ''free'')],
        JObj [(''verb'', JStr ''approve''), (''manager'', JBool True)],
        JObj [(''verb'', JStr ''notify''), (''team'', JStr ''optional''), (''when'', JObj [(''dayOfWeek'', JStr ''mon-fri'')])]])]"

definition template_pto_two_level :: json where
  "template_pto_two_level = JObj
     [(''name'', JStr ''pto-two-level''),
      (''description'', JStr ''Time off needing two approvals: the manager, then a named director, before the team is told.''),
      (''steps'', JArr [
        JObj [(''id'', JStr ''hold''), (''verb'', JStr ''hold''), (''showAs'', JStr ''free'')],
        JObj [(''id'', JStr ''manager''), (''verb'', JStr ''approve''), (''manager'', JBool True)],
        JObj [(''id'', JStr ''director''), (''verb'', JStr ''approve''), (''approver'', JStr ''director@example.com'')],
        JObj [(''id'', JStr ''notify''), (''verb'', JStr ''notify''), (''team'', JStr ''optional''), (''next'', JStr ''end'')]])]"

definition template_pto :: json where
  "template_pto = JObj
     [(''name'', JStr ''pto''),
      (''description'', JStr ''Time-off hold shown free, manager approves, then the team is notified.''),
      (''steps'', JArr [
        JObj [(''verb'', JStr ''hold''), (''showAs'', JStr ''free'')],
        JObj [(''verb'', JStr ''approve''), (''manager'', JBool True)],
        JObj [(''verb'', JStr ''notify''), (''team'', JStr ''optional'')]])]"

definition builtin_dir :: dir where
  "builtin_dir =
     [(''away.json'', File_Data (Json template_away)),
      (''notify-later.json'', File_Data (Json template_notify_later)),
      (''notify-only.json'', File_Data (Json template_notify_only)),
      (''pto-announce.json'', File_Data (Json template_pto_announce)),
      (''pto-cancel-on-timeout.json'', File_Data (Json template_pto_cancel_on_timeout)),
      (''pto-file-leave.json'', File_Data (Json template_pto_file_leave)),
      (''pto-notify-on-decline.json'', File_Data (Json template_pto_notify_on_decline)),
      (''pto-notify-weekdays.json'', File_Data (Json template_pto_notify_weekdays)),
      (''pto-two-level.json'', File_Data (Json template_pto_two_level)),
      (''pto.json'', File_Data (Json template_pto))]"

definition template_ok :: "string \<Rightarrow> json \<Rightarrow> bool" where
  "template_ok n v = (case as_workflow v of None \<Rightarrow> False
     | Some w \<Rightarrow> wf_name w = n \<and> wf_description w \<noteq> [] \<and> validate w = None)"

lemma ok_away: "template_ok ''away'' template_away"
  by code_simp

lemma ok_notify_later: "template_ok ''notify-later'' template_notify_later"
  by code_simp

lemma ok_notify_only: "template_ok ''notify-only'' template_notify_only"
  by code_simp

lemma ok_pto_announce: "template_ok ''pto-announce'' template_pto_announce"
  by code_simp

lemma ok_pto_cancel_on_timeout: "template_ok ''pto-cancel-on-timeout'' template_pto_cancel_on_timeout"
  by code_simp

lemma ok_pto_file_leave: "template_ok ''pto-file-leave'' template_pto_file_leave"
  by code_simp

lemma ok_pto_notify_on_decline: "template_ok ''pto-notify-on-decline'' template_pto_notify_on_decline"
  by code_simp

lemma ok_pto_notify_weekdays: "template_ok ''pto-notify-weekdays'' template_pto_notify_weekdays"
  by code_simp

lemma ok_pto_two_level: "template_ok ''pto-two-level'' template_pto_two_level"
  by code_simp

lemma ok_pto: "template_ok ''pto'' template_pto"
  by code_simp

lemma load_template:
  assumes "template_ok n v" and "valid_name n" and "map_of b (json_file n) = Some (File_Data (Json v))"
  shows "\<exists>w. load b NoUserDir n = Inr w \<and> wf_name w = n"
  using assms by (auto simp: load_def raw_def template_ok_def checked_def split: option.splits)

definition template_names :: "string list" where
  "template_names = map (\<lambda>(f, e). trim_suffix f json_suffix) builtin_dir"

lemma template_names_eval:
  "template_names = [''away'', ''notify-later'', ''notify-only'', ''pto-announce'', ''pto-cancel-on-timeout'',
     ''pto-file-leave'', ''pto-notify-on-decline'', ''pto-notify-weekdays'', ''pto-two-level'', ''pto'']"
  by (simp add: template_names_def builtin_dir_def trim_suffix_def has_suffix_def)

lemma builtin_lookup:
  "map_of builtin_dir (json_file ''away'') = Some (File_Data (Json template_away))"
  "map_of builtin_dir (json_file ''notify-later'') = Some (File_Data (Json template_notify_later))"
  "map_of builtin_dir (json_file ''notify-only'') = Some (File_Data (Json template_notify_only))"
  "map_of builtin_dir (json_file ''pto-announce'') = Some (File_Data (Json template_pto_announce))"
  "map_of builtin_dir (json_file ''pto-cancel-on-timeout'') = Some (File_Data (Json template_pto_cancel_on_timeout))"
  "map_of builtin_dir (json_file ''pto-file-leave'') = Some (File_Data (Json template_pto_file_leave))"
  "map_of builtin_dir (json_file ''pto-notify-on-decline'') = Some (File_Data (Json template_pto_notify_on_decline))"
  "map_of builtin_dir (json_file ''pto-notify-weekdays'') = Some (File_Data (Json template_pto_notify_weekdays))"
  "map_of builtin_dir (json_file ''pto-two-level'') = Some (File_Data (Json template_pto_two_level))"
  "map_of builtin_dir (json_file ''pto'') = Some (File_Data (Json template_pto))"
  by (simp_all add: builtin_dir_def json_file_def)

lemma templates_load:
  "list_all (\<lambda>n. \<exists>w. load builtin_dir NoUserDir n = Inr w \<and> wf_name w = n) template_names"
  using load_template[OF ok_away _ builtin_lookup(1)]
    load_template[OF ok_notify_later _ builtin_lookup(2)]
    load_template[OF ok_notify_only _ builtin_lookup(3)]
    load_template[OF ok_pto_announce _ builtin_lookup(4)]
    load_template[OF ok_pto_cancel_on_timeout _ builtin_lookup(5)]
    load_template[OF ok_pto_file_leave _ builtin_lookup(6)]
    load_template[OF ok_pto_notify_on_decline _ builtin_lookup(7)]
    load_template[OF ok_pto_notify_weekdays _ builtin_lookup(8)]
    load_template[OF ok_pto_two_level _ builtin_lookup(9)]
    load_template[OF ok_pto _ builtin_lookup(10)]
  unfolding template_names_eval list.pred_inject by (simp add: valid_name_def)

section \<open>What the theory establishes\<close>

text \<open>Every template shipped with the program loads, under its own name, through the full decoder and validation.\<close>

theorem every_template_loads:
  "list_all (\<lambda>n. \<exists>w. load builtin_dir NoUserDir n = Inr w \<and> wf_name w = n) template_names"
  by (rule templates_load)

text \<open>
  C37. What the loader returns is safe to run: the name was a plain file name, so the read stayed inside
  the directory, and the definition is well-formed.
\<close>

theorem load_is_checked: "load b u n = Inr k \<Longrightarrow> valid_name n \<and> well_formed k"
  by (rule load_parsed)

theorem load_is_checked_witness: "\<exists>k. load builtin_dir NoUserDir ''away'' = Inr k \<and> well_formed k"
proof -
  obtain k where "load builtin_dir NoUserDir ''away'' = Inr k"
    using load_template[OF ok_away _ builtin_lookup(1)] by (auto simp: valid_name_def)
  with load_is_checked[OF this] show ?thesis by blast
qed

text \<open>
  C36. A saved workflow is what the next load of its name returns, in front of a template of the same
  name, and the other names load as before. A failed save leaves the directory as it was.
\<close>

theorem save_then_load:
  assumes "save_user_workflow we t d = (r, d')"
  shows "(case r of
      Inl e \<Rightarrow> d' = d
    | Inr k \<Rightarrow> load b (Dir d') (wf_name k) = Inr k \<and> (\<forall>n. n \<noteq> wf_name k \<longrightarrow> load b (Dir d') n = load b (Dir d) n))"
proof (cases r)
  case (Inr k)
  with assms have k: "parse_workflow t = Inr k" "safe_workflow_name (wf_name k)"
      "d' = AList.update (json_file (wf_name k)) (File_Data t) d"
    by (simp_all add: save_success)
  from load_user_file[OF safe_valid[OF k(2)], of d' t] k(1,3) have "load b (Dir d') (wf_name k) = Inr k"
    by (simp add: update_Some_unfold update_conv')
  moreover have "load b (Dir d') n = load b (Dir d) n" if "n \<noteq> wf_name k" for n
    using that k(3) by (intro load_Dir_cong) (simp add: update_conv')
  ultimately show ?thesis using Inr by simp
qed (use assms save_failure in auto)

theorem save_then_load_witness:
  "\<exists>k. wf_name k = ''away'' \<and> (\<forall>b. load b (Dir (snd (save_user_workflow None (Json template_away) []))) ''away'' = Inr k)"
proof -
  obtain k where k: "parse_workflow (Json template_away) = Inr k" "wf_name k = ''away''"
    using ok_away by (auto simp: template_ok_def checked_def split: option.splits)
  then have s: "save_user_workflow None (Json template_away) [] = (Inr k, [(json_file ''away'', File_Data (Json template_away))])"
    by (simp add: save_success safe_workflow_name_def safe_char_def)
  show ?thesis using save_then_load[OF s] k(2) s by auto
qed

text \<open>
  Removing a user workflow makes its name load the template again, or fail as unknown without one,
  and leaves every other name as it was.
\<close>

theorem remove_restores_template:
  assumes "remove_user_workflow re n d = (None, d')"
  shows "load b (Dir d') n = load b NoUserDir n \<and> (\<forall>m. m \<noteq> n \<longrightarrow> load b (Dir d') m = load b (Dir d) m)"
proof -
  have d': "d' = AList.delete (json_file n) d" using assms by (simp add: remove_success)
  have "load b (Dir d') n = load b NoUserDir n"
    by (rule load_no_user_file) (simp add: d' delete_conv')
  moreover have "load b (Dir d') m = load b (Dir d) m" if "m \<noteq> n" for m
    using that by (intro load_Dir_cong) (simp add: d' delete_conv')
  ultimately show ?thesis by blast
qed

theorem remove_restores_template_witness:
  "\<exists>k. load builtin_dir (Dir (snd (remove_user_workflow None ''away'' [(json_file ''away'', File_Data NotJson)]))) ''away'' = Inr k"
proof -
  have "remove_user_workflow None ''away'' [(json_file ''away'', File_Data NotJson)] = (None, [])"
    by (simp add: remove_success safe_workflow_name_def safe_char_def)
  from remove_restores_template[OF this, of builtin_dir] this show ?thesis
    using load_template[OF ok_away _ builtin_lookup(1)] by (auto simp: valid_name_def)
qed

text \<open>
  The listing is sorted, names nothing twice, and shows for each name the file that loading it
  reads: the user's when there is one, else the template.
\<close>

theorem listing_shows_what_loads:
  assumes "distinct (map fst b)" and "\<forall>(f, e) \<in> set b. has_suffix f json_suffix" and "distinct (map fst d)"
    and "list_workflows b (Dir d) = Inr is"
  shows "sorted (map info_name is) \<and> distinct (map info_name is)
    \<and> (\<forall>i. i \<in> set is \<longleftrightarrow> (case listed d SourceUser (info_name i) of Some j \<Rightarrow> i = j
           | None \<Rightarrow> listed b SourceBuiltin (info_name i) = Some i))"
  using list_workflows_map[OF assms] by blast

theorem listing_shows_what_loads_witness:
  "\<exists>is. list_workflows builtin_dir (Dir [(json_file ''away'', File_Data NotJson)]) = Inr is \<and> distinct (map info_name is)"
proof -
  let ?d = "[(json_file ''away'', File_Data NotJson)]"
  have b: "distinct (map fst builtin_dir)" "\<forall>(f, e) \<in> set builtin_dir. has_suffix f json_suffix"
    by (simp_all add: builtin_dir_def has_suffix_def)
  obtain infos where "builtin_infos [] builtin_dir = Inr infos"
    by (simp add: builtin_dir_def builtin_info_def Let_def)
  then obtain "is" where l: "list_workflows builtin_dir (Dir ?d) = Inr is" by (simp add: list_workflows_def)
  from listing_shows_what_loads[OF b _ l] l show ?thesis by simp
qed

end
