(* ===== verification/Atomic_File.thy ===== *)
theory Atomic_File
  imports Vamoose_Prelude
begin

text \<open>
  \<open>util.WriteFileAtomic\<close> (\<open>internal/util/atomicfile.go\<close>), the write under every store of the program:
  create a temporary file beside the target, write, set the mode, flush, close, rename. Each call
  can fail, and the machine can crash between any two, losing what was written but not flushed. At
  every moment the target holds the old content or the new, which is why the stores are modelled as
  files that are replaced in one step.
\<close>

section \<open>The machine\<close>

text \<open>
  A file is its bytes, its permission bits and whether both are on disk. Creating, writing and changing the
  mode happen in memory; only \<open>Sync\<close> puts them on disk. A crash leaves a file that is on disk as it is
  and keeps any prefix of another, with any mode. It may also take back a rename, whose directory entry is
  not flushed: \<open>d_replaced\<close> is the file the rename replaced.
\<close>

record file_image =
  fi_bytes :: string
  fi_mode :: nat
  fi_synced :: bool

datatype progress =
    Start | Created_Temp | Wrote | Moded | Flushed | Closed
  | Cleaning error
  | Returned "error option"
  | Crashed

record disk =
  d_target :: "file_image option"
  d_temp :: "file_image option"
  d_replaced :: "file_image option"

definition temp_mode :: nat where "temp_mode = 384"

definition crash_loses :: "nat \<Rightarrow> nat \<Rightarrow> file_image \<Rightarrow> file_image" where
  "crash_loses n m f = (if fi_synced f then f else \<lparr>fi_bytes = take n (fi_bytes f), fi_mode = m, fi_synced = True\<rparr>)"

definition after_crash :: "nat \<Rightarrow> nat \<Rightarrow> disk \<Rightarrow> disk" where
  "after_crash n m d = d\<lparr>d_target := map_option (crash_loses n m) (d_target d), d_temp := map_option (crash_loses n m) (d_temp d),
     d_replaced := map_option (crash_loses n m) (d_replaced d)\<rparr>"

text \<open>A fresh file is private and empty; a failed write leaves a prefix. The last rules are the crash.\<close>

inductive write_step :: "string \<Rightarrow> nat \<Rightarrow> progress \<times> disk \<Rightarrow> progress \<times> disk \<Rightarrow> bool" for data perm where
  create_ok: "write_step data perm (Start, d)
    (Created_Temp, d\<lparr>d_temp := Some \<lparr>fi_bytes = [], fi_mode = temp_mode, fi_synced = False\<rparr>\<rparr>)"
| create_fails: "write_step data perm (Start, d) (Returned (Some e), d)"
| write_ok: "d_temp d = Some f \<Longrightarrow>
    write_step data perm (Created_Temp, d) (Wrote, d\<lparr>d_temp := Some (f\<lparr>fi_bytes := data, fi_synced := False\<rparr>)\<rparr>)"
| write_fails: "d_temp d = Some f \<Longrightarrow>
    write_step data perm (Created_Temp, d) (Cleaning e, d\<lparr>d_temp := Some (f\<lparr>fi_bytes := take n data, fi_synced := False\<rparr>)\<rparr>)"
| chmod_ok: "d_temp d = Some f \<Longrightarrow>
    write_step data perm (Wrote, d) (Moded, d\<lparr>d_temp := Some (f\<lparr>fi_mode := perm, fi_synced := False\<rparr>)\<rparr>)"
| chmod_fails: "write_step data perm (Wrote, d) (Cleaning e, d)"
| sync_ok: "d_temp d = Some f \<Longrightarrow>
    write_step data perm (Moded, d) (Flushed, d\<lparr>d_temp := Some (f\<lparr>fi_synced := True\<rparr>)\<rparr>)"
| sync_fails: "write_step data perm (Moded, d) (Cleaning e, d)"
| close_ok: "write_step data perm (Flushed, d) (Closed, d)"
| close_fails: "write_step data perm (Flushed, d) (Cleaning e, d)"
| rename_ok: "write_step data perm (Closed, d)
    (Returned None, d\<lparr>d_target := d_temp d, d_temp := None, d_replaced := d_target d\<rparr>)"
| rename_fails: "write_step data perm (Closed, d) (Cleaning e, d)"
| clean_ok: "write_step data perm (Cleaning e, d) (Returned (Some e), d\<lparr>d_temp := None\<rparr>)"
| clean_fails: "write_step data perm (Cleaning e, d) (Returned (Some e), d)"
| crash: "p \<noteq> Crashed \<Longrightarrow> write_step data perm (p, d) (Crashed, after_crash n m d)"
| crash_unrenamed: "write_step data perm (Returned None, d) (Crashed, after_crash n m (d\<lparr>d_target := d_replaced d\<rparr>))"

inductive_cases write_step_elim: "write_step data perm s t"

inductive_simps write_step_returned: "write_step data perm (Returned r, d) t"

definition write_reaches :: "string \<Rightarrow> nat \<Rightarrow> progress \<times> disk \<Rightarrow> progress \<times> disk \<Rightarrow> bool" where
  "write_reaches data perm = (write_step data perm)\<^sup>*\<^sup>*"

lemma write_reaches_refl: "write_reaches data perm s s"
  unfolding write_reaches_def by simp

lemma write_reaches_step:
  "write_step data perm s t \<Longrightarrow> write_reaches data perm t u \<Longrightarrow> write_reaches data perm s u"
  unfolding write_reaches_def by (rule converse_rtranclp_into_rtranclp)

section \<open>Old or new\<close>

text \<open>What a reader sees of a file, and the disk a call starts on: the target, if there is one, was written before.\<close>

definition seen_image :: "file_image \<Rightarrow> string \<times> nat" where
  "seen_image f = (fi_bytes f, fi_mode f)"

definition target_image :: "disk \<Rightarrow> (string \<times> nat) option" where
  "target_image d = map_option seen_image (d_target d)"

definition written_before :: "(string \<times> nat) option \<Rightarrow> disk" where
  "written_before old =
     \<lparr>d_target = map_option (\<lambda>(bytes, m). \<lparr>fi_bytes = bytes, fi_mode = m, fi_synced = True\<rparr>) old, d_temp = None, d_replaced = None\<rparr>"

definition on_disk :: "(string \<times> nat) option \<Rightarrow> file_image option \<Rightarrow> bool" where
  "on_disk v f \<longleftrightarrow> map_option seen_image f = v \<and> (\<forall>g. f = Some g \<longrightarrow> fi_synced g)"

lemma on_disk_crash: "on_disk v f \<Longrightarrow> on_disk v (map_option (crash_loses n m) f)"
  by (cases f) (auto simp: on_disk_def crash_loses_def)

definition new_file :: "string \<Rightarrow> nat \<Rightarrow> bool \<Rightarrow> file_image" where
  "new_file data perm synced = \<lparr>fi_bytes = data, fi_mode = perm, fi_synced = synced\<rparr>"

lemma new_on_disk: "on_disk (Some (data, perm)) (Some (new_file data perm True))"
  by (simp add: on_disk_def seen_image_def new_file_def)

fun write_ok_at :: "string \<Rightarrow> nat \<Rightarrow> (string \<times> nat) option \<Rightarrow> progress \<times> disk \<Rightarrow> bool" where
  "write_ok_at data perm old (Wrote, d) \<longleftrightarrow> on_disk old (d_target d) \<and> d_temp d = Some (new_file data temp_mode False)"
| "write_ok_at data perm old (Moded, d) \<longleftrightarrow> on_disk old (d_target d) \<and> d_temp d = Some (new_file data perm False)"
| "write_ok_at data perm old (Flushed, d) \<longleftrightarrow> on_disk old (d_target d) \<and> d_temp d = Some (new_file data perm True)"
| "write_ok_at data perm old (Closed, d) \<longleftrightarrow> on_disk old (d_target d) \<and> d_temp d = Some (new_file data perm True)"
| "write_ok_at data perm old (Returned None, d) \<longleftrightarrow>
     on_disk (Some (data, perm)) (d_target d) \<and> on_disk old (d_replaced d) \<and> d_temp d = None"
| "write_ok_at data perm old (Crashed, d) \<longleftrightarrow> on_disk old (d_target d) \<or> on_disk (Some (data, perm)) (d_target d)"
| "write_ok_at data perm old (Created_Temp, d) \<longleftrightarrow>
     on_disk old (d_target d) \<and> d_temp d = Some \<lparr>fi_bytes = [], fi_mode = temp_mode, fi_synced = False\<rparr>"
| "write_ok_at data perm old (p, d) \<longleftrightarrow> on_disk old (d_target d)"

lemma write_ok_at_target:
  "write_ok_at data perm old (p, d) \<Longrightarrow> on_disk old (d_target d) \<or> on_disk (Some (data, perm)) (d_target d)"
  by (cases "(data, perm, old, p, d)" rule: write_ok_at.cases) auto

lemma write_step_keeps: "write_step data perm s t \<Longrightarrow> write_ok_at data perm old s \<Longrightarrow> write_ok_at data perm old t"
proof (induction rule: write_step.induct)
  case (crash p d n m)
  then show ?case using write_ok_at_target on_disk_crash by (fastforce simp: after_crash_def)
next
  case (crash_unrenamed d n m)
  then show ?case using on_disk_crash by (auto simp: after_crash_def)
next
  case (rename_ok d)
  then show ?case using new_on_disk by simp
qed (auto simp: new_file_def)

lemma write_reaches_keeps:
  "write_reaches data perm s t \<Longrightarrow> write_ok_at data perm old s \<Longrightarrow> write_ok_at data perm old t"
  unfolding write_reaches_def by (induction rule: rtranclp_induct) (auto intro: write_step_keeps)

lemma written_before_ok: "write_ok_at data perm old (Start, written_before old)"
  by (cases old) (auto simp: written_before_def on_disk_def seen_image_def)

text \<open>The call can always complete, with the new content in place.\<close>

lemma write_can_complete: "\<exists>d'. write_reaches data perm (Start, d) (Returned None, d')"
proof -
  let ?d1 = "d\<lparr>d_temp := Some \<lparr>fi_bytes = [], fi_mode = temp_mode, fi_synced = False\<rparr>\<rparr>"
  let ?d2 = "?d1\<lparr>d_temp := Some (new_file data temp_mode False)\<rparr>"
  let ?d3 = "?d2\<lparr>d_temp := Some (new_file data perm False)\<rparr>"
  let ?d4 = "?d3\<lparr>d_temp := Some (new_file data perm True)\<rparr>"
  have w: "write_step data perm (Created_Temp, ?d1) (Wrote, ?d2)" and c: "write_step data perm (Wrote, ?d2) (Moded, ?d3)"
    and y: "write_step data perm (Moded, ?d3) (Flushed, ?d4)"
    using write_ok[of ?d1 "\<lparr>fi_bytes = [], fi_mode = temp_mode, fi_synced = False\<rparr>" data perm]
      chmod_ok[of ?d2 "new_file data temp_mode False" data perm] sync_ok[of ?d3 "new_file data perm False" data perm]
    by (simp_all add: new_file_def)
  show ?thesis
    using write_reaches_step[OF create_ok write_reaches_step[OF w write_reaches_step[OF c write_reaches_step[OF y
      write_reaches_step[OF close_ok write_reaches_step[OF rename_ok write_reaches_refl]]]]]] by blast
qed

section \<open>What the theory establishes\<close>

text \<open>
  C40. A file written with \<open>WriteFileAtomic\<close> is the old one or the new one, whole, at every moment and after
  any crash, even one that comes after the call returned: the new content is on disk before it takes the name.
  When the call reports success the new content and mode are in place, on disk, and nothing is left
  over; when it reports an error the old file stands. The old file is one that is on disk.
\<close>

theorem write_is_atomic:
  assumes "write_reaches data perm (Start, written_before old) (p, d)"
  shows "(target_image d = old \<or> target_image d = Some (data, perm))
    \<and> (p = Returned None \<longrightarrow> target_image d = Some (data, perm) \<and> d_temp d = None
         \<and> target_image (after_crash n m d) = Some (data, perm))
    \<and> (\<forall>e. p = Returned (Some e) \<longrightarrow> target_image d = old)"
proof -
  have ok: "write_ok_at data perm old (p, d)" by (rule write_reaches_keeps[OF assms written_before_ok])
  have seen: "on_disk v (d_target d) \<Longrightarrow> target_image d = v \<and> target_image (after_crash n m d) = v" for v
    using on_disk_crash[of v "d_target d" n m] by (simp add: on_disk_def target_image_def after_crash_def)
  from write_ok_at_target[OF ok] have "target_image d = old \<or> target_image d = Some (data, perm)" using seen by blast
  moreover have "target_image d = old" if "p = Returned (Some e)" for e using ok that seen by simp
  ultimately show ?thesis using ok seen by auto
qed

theorem write_is_atomic_witness:
  "\<exists>d. write_reaches ''{}'' 384 (Start, written_before (Some (''[]'', 384))) (Returned None, d) \<and> target_image d = Some (''{}'', 384)
     \<and> target_image (after_crash 0 0 d) = Some (''{}'', 384)"
proof -
  obtain d where d: "write_reaches ''{}'' 384 (Start, written_before (Some (''[]'', 384))) (Returned None, d)"
    using write_can_complete by blast
  with write_is_atomic[OF d, of 0 0] show ?thesis by blast
qed

end
