(* ===== verification/Stores.thy ===== *)
theory Stores
  imports Calendar
begin

text \<open>
  The small JSON stores of the configuration directory: the watch list (\<open>cmd/watch.go\<close>), the last
  hold (\<open>cmd/state.go\<close>), the run history (\<open>internal/audit\<close>, \<open>cmd/history.go\<close>) and the team
  (\<open>cmd/team.go\<close>). Each reads its whole file, changes the list and writes it back. \<open>pe\<close> is a failure
  to find the path, \<open>we\<close> a failure to create the directory or write the file.
\<close>

section \<open>Keyed stores\<close>

text \<open>
  The contract of a store of items with a key: adding an item replaces the one with its key and
  leaves the others, dropping a key leaves the others.
\<close>

locale keyed_store =
  fixes key :: "'v \<Rightarrow> 'k" and look :: "'s \<Rightarrow> 'k \<Rightarrow> 'v option"
    and put :: "'v \<Rightarrow> 's \<Rightarrow> 's" and drop_key :: "'k \<Rightarrow> 's \<Rightarrow> 's"
  assumes look_put: "look (put v s) k = (if k = key v then Some v else look s k)"
    and look_drop: "look (drop_key k s) k' = (if k' = k then None else look s k')"
begin

lemma look_put_same [simp]: "look (put v s) (key v) = Some v"
  by (simp add: look_put)

lemma look_put_put: "key v = key u \<Longrightarrow> look (put v (put u s)) k = look (put v s) k"
  by (simp add: look_put)

lemma look_put_commute: "key v \<noteq> key u \<Longrightarrow> look (put v (put u s)) k = look (put u (put v s)) k"
  by (auto simp: look_put)

lemma look_drop_put: "look (drop_key (key v) (put v s)) k = look (drop_key (key v) s) k"
  by (simp add: look_put look_drop)

lemma look_put_drop: "look (put v (drop_key (key v) s)) k = look (put v s) k"
  by (simp add: look_put look_drop)

text \<open>The last write to a key wins, over any sequence of writes.\<close>

lemma look_fold_put:
  "look (fold put vs s) k = (case find (\<lambda>v. key v = k) (rev vs) of Some v \<Rightarrow> Some v | None \<Rightarrow> look s k)"
  by (induction vs arbitrary: s) (auto simp: look_put find_append split: option.splits)

end

text \<open>Updating an association list is such a store.\<close>

definition alist_put :: "'k \<times> 'v \<Rightarrow> ('k \<times> 'v) list \<Rightarrow> ('k \<times> 'v) list" where
  "alist_put kv xs = AList.update (fst kv) (snd kv) xs"

definition alist_look :: "('k \<times> 'v) list \<Rightarrow> 'k \<Rightarrow> ('k \<times> 'v) option" where
  "alist_look xs k = map_option (Pair k) (map_of xs k)"

section \<open>Watch list\<close>

record watch_item =
  wi_provider :: string
  wi_hold_id :: string
  wi_workflow :: string
  wi_step :: int
  wi_resume :: int
  wi_done :: bool
  wi_approver :: string
  wi_subject :: string
  wi_created :: gotime

type_synonym watch_file = "watch_item list stored"

definition watch_key :: "watch_item \<Rightarrow> string \<times> string" where
  "watch_key w = (wi_provider w, wi_hold_id w)"

definition load_watches :: "error option \<Rightarrow> watch_file \<Rightarrow> watch_item list result" where
  "load_watches pe f = (case pe of Some e \<Rightarrow> Inl e | None \<Rightarrow> read_file [] f)"

definition save_watches :: "error option \<Rightarrow> error option \<Rightarrow> watch_item list \<Rightarrow> watch_file \<Rightarrow> error option \<times> watch_file" where
  "save_watches pe we items f =
     (case pe of Some e \<Rightarrow> (Some e, f)
      | None \<Rightarrow> (case we of Some e \<Rightarrow> (Some e, f) | None \<Rightarrow> (None, Content items)))"

definition put_watch :: "watch_item \<Rightarrow> watch_item list \<Rightarrow> watch_item list" where
  "put_watch item items =
     filter (\<lambda>w. \<not> (wi_provider w = wi_provider item \<and> wi_hold_id w = wi_hold_id item)) items @ [item]"

definition drop_watch :: "string \<times> string \<Rightarrow> watch_item list \<Rightarrow> watch_item list" where
  "drop_watch k items = filter (\<lambda>w. \<not> (wi_provider w = fst k \<and> wi_hold_id w = snd k)) items"

definition find_watch :: "watch_item list \<Rightarrow> string \<times> string \<Rightarrow> watch_item option" where
  "find_watch items k = find (\<lambda>w. watch_key w = k) items"

definition add_watch :: "error option \<Rightarrow> error option \<Rightarrow> watch_item \<Rightarrow> watch_file \<Rightarrow> error option \<times> watch_file" where
  "add_watch pe we item f =
     (case load_watches pe f of
        Inl e \<Rightarrow> (Some e, f)
      | Inr items \<Rightarrow> save_watches pe we (put_watch item items) f)"

definition remove_watch ::
  "error option \<Rightarrow> error option \<Rightarrow> string \<Rightarrow> string \<Rightarrow> watch_file \<Rightarrow> error option \<times> watch_file" where
  "remove_watch pe we provider hid f =
     (case load_watches pe f of
        Inl e \<Rightarrow> (Some e, f)
      | Inr items \<Rightarrow> save_watches pe we (drop_watch (provider, hid) items) f)"

interpretation watches: keyed_store watch_key find_watch put_watch drop_watch
proof unfold_locales
  fix v s k
  have "find (\<lambda>w. watch_key w = k) (filter (\<lambda>w. \<not> (wi_provider w = wi_provider v \<and> wi_hold_id w = wi_hold_id v)) s) =
      (if k = watch_key v then None else find (\<lambda>w. watch_key w = k) s)"
    by (auto simp: watch_key_def intro!: find_filter_none find_filter_cong)
  then show "find_watch (put_watch v s) k = (if k = watch_key v then Some v else find_watch s k)"
    by (auto simp: find_watch_def put_watch_def find_append split: option.splits)
next
  fix k s k'
  show "find_watch (drop_watch k s) k' = (if k' = k then None else find_watch s k')"
    by (cases k) (auto simp: find_watch_def drop_watch_def watch_key_def intro!: find_filter_none find_filter_cong)
qed

text \<open>Every list the program writes holds at most one item per key.\<close>

abbreviation watch_keys_distinct :: "watch_item list \<Rightarrow> bool" where
  "watch_keys_distinct ws \<equiv> distinct (map watch_key ws)"

lemma put_watch_distinct: "watch_keys_distinct ws \<Longrightarrow> watch_keys_distinct (put_watch w ws)"
  by (auto simp: put_watch_def watch_key_def distinct_map_filterI)

lemma drop_watch_distinct: "watch_keys_distinct ws \<Longrightarrow> watch_keys_distinct (drop_watch k ws)"
  by (simp add: drop_watch_def distinct_map_filterI)

lemma add_watch_success:
  "add_watch pe we w f = (None, f') \<longleftrightarrow> pe = None \<and> we = None
     \<and> (\<exists>ws. read_file [] f = Inr ws \<and> f' = Content (put_watch w ws))"
  by (auto simp: add_watch_def load_watches_def save_watches_def split: option.splits sum.splits)

lemma add_watch_failure: "add_watch pe we w f = (Some e, f') \<Longrightarrow> f' = f"
  by (auto simp: add_watch_def load_watches_def save_watches_def split: option.splits sum.splits)

lemma remove_watch_success:
  "remove_watch pe we p h f = (None, f') \<longleftrightarrow> pe = None \<and> we = None
     \<and> (\<exists>ws. read_file [] f = Inr ws \<and> f' = Content (drop_watch (p, h) ws))"
  by (auto simp: remove_watch_def load_watches_def save_watches_def split: option.splits sum.splits)

lemma remove_watch_failure: "remove_watch pe we p h f = (Some e, f') \<Longrightarrow> f' = f"
  by (auto simp: remove_watch_def load_watches_def save_watches_def split: option.splits sum.splits)

section \<open>Last hold\<close>

record hold_ref =
  ref_provider :: string
  ref_id :: string

definition no_ref :: hold_ref where "no_ref = \<lparr>ref_provider = [], ref_id = []\<rparr>"

type_synonym state_file = "hold_ref stored"

definition load_state :: "error option \<Rightarrow> state_file \<Rightarrow> hold_ref result" where
  "load_state pe f = (case pe of Some e \<Rightarrow> Inl e | None \<Rightarrow> read_file no_ref f)"

definition save_state :: "error option \<Rightarrow> error option \<Rightarrow> hold_ref \<Rightarrow> state_file \<Rightarrow> error option \<times> state_file" where
  "save_state pe we r f =
     (case pe of Some e \<Rightarrow> (Some e, f)
      | None \<Rightarrow> (case we of Some e \<Rightarrow> (Some e, f) | None \<Rightarrow> (None, Content r)))"

text \<open>\<open>resolveProvider\<close>: the flag, the environment, or Microsoft Graph.\<close>

definition resolve_provider :: "(string \<Rightarrow> string) \<Rightarrow> string \<Rightarrow> string" where
  "resolve_provider getenv flag =
     (if flag \<noteq> [] then flag
      else if getenv ''VAMOOSE_PROVIDER'' \<noteq> [] then getenv ''VAMOOSE_PROVIDER''
      else ''graph'')"

definition resolve_time_zone :: "(string \<Rightarrow> string) \<Rightarrow> string \<Rightarrow> string" where
  "resolve_time_zone getenv flag =
     (if flag \<noteq> [] then flag
      else if getenv ''VAMOOSE_TIMEZONE'' \<noteq> [] then getenv ''VAMOOSE_TIMEZONE''
      else ''UTC'')"

definition resolve_hold ::
  "(string \<Rightarrow> string) \<Rightarrow> error option \<Rightarrow> string \<Rightarrow> string \<Rightarrow> state_file \<Rightarrow> hold_ref result" where
  "resolve_hold getenv pe flag_id flag_provider f =
     (if flag_id \<noteq> [] then Inr \<lparr>ref_provider = resolve_provider getenv flag_provider, ref_id = flag_id\<rparr>
      else case load_state pe f of
        Inl e \<Rightarrow> Inl (Errorf ''load state'' [e])
      | Inr r \<Rightarrow>
          (if ref_id r = [] then Inl (Errorf ''no hold id: pass --id or run vamoose request first'' [])
           else Inr r))"

lemma resolve_hold_ok: "resolve_hold g pe i p f = Inr r \<Longrightarrow> ref_id r \<noteq> []"
  by (auto simp: resolve_hold_def split: if_splits sum.splits)

section \<open>Run history\<close>

datatype action =
    ActionCreated | ActionApproved | ActionDeclined | ActionExpired | ActionAdvanced | ActionNotified
  | ActionNoted | ActionMessaged | ActionCanceled | ActionFiled

record event =
  ev_time :: gotime
  ev_workflow :: string
  ev_provider :: string
  ev_hold_id :: string
  ev_action :: action
  ev_actor :: string
  ev_detail :: string

type_synonym audit_file = "event list stored"

definition default_max :: nat where "default_max = 1000"

definition load_events :: "audit_file \<Rightarrow> event list result" where
  "load_events f = read_file [] f"

definition store_events :: "error option \<Rightarrow> event list \<Rightarrow> audit_file \<Rightarrow> error option \<times> audit_file" where
  "store_events we es f = (case we of Some e \<Rightarrow> (Some e, f) | None \<Rightarrow> (None, Content es))"

definition record_event :: "nat \<Rightarrow> error option \<Rightarrow> event \<Rightarrow> audit_file \<Rightarrow> error option \<times> audit_file" where
  "record_event mx we e f =
     (case load_events f of
        Inl err \<Rightarrow> (Some err, f)
      | Inr es \<Rightarrow>
          (let es' = es @ [e];
               es'' = (if 0 < mx \<and> mx < length es' then last_n mx es' else es')
           in store_events we es'' f))"

definition events_for_hold :: "event list \<Rightarrow> string \<Rightarrow> event list" where
  "events_for_hold es hid = filter (\<lambda>e. ev_hold_id e = hid) es"

text \<open>\<open>vamoose history\<close>: the events selected by the flags.\<close>

definition run_history :: "string \<Rightarrow> int \<Rightarrow> audit_file \<Rightarrow> event list result" where
  "run_history hid limit f =
     (case load_events f of
        Inl err \<Rightarrow> Inl (Errorf ''read history'' [err])
      | Inr es \<Rightarrow>
          (let es' = (if hid \<noteq> [] then events_for_hold es hid else es)
           in Inr (if 0 < limit \<and> limit < int (length es') then last_n (nat limit) es' else es')))"

lemma last_n_all: "length xs \<le> n \<Longrightarrow> last_n n xs = xs"
  by (simp add: last_n_def)

lemma record_event_success:
  "record_event mx we e f = (None, f') \<longleftrightarrow> we = None
     \<and> (\<exists>es. load_events f = Inr es \<and> f' = Content (if mx = 0 then es @ [e] else last_n mx (es @ [e])))"
  by (auto simp: record_event_def store_events_def Let_def last_n_all not_less
      split: option.splits sum.splits if_splits)

lemma record_event_failure: "record_event mx we e f = (Some err, f') \<Longrightarrow> f' = f"
  by (auto simp: record_event_def store_events_def Let_def split: option.splits sum.splits)

text \<open>Recording a run of events keeps exactly the newest \<open>mx\<close> of them, in order.\<close>

fun record_events :: "nat \<Rightarrow> event list \<Rightarrow> audit_file \<Rightarrow> audit_file" where
  "record_events mx [] f = f"
| "record_events mx (e # es) f = record_events mx es (snd (record_event mx None e f))"

lemma last_n_append_chain: "0 < n \<Longrightarrow> last_n n (last_n n xs @ ys) = last_n n (xs @ ys)"
proof (cases "length xs \<le> n")
  case False
  then have "length xs - n + n = length xs" by simp
  then show ?thesis by (simp add: last_n_def add.commute)
qed (simp add: last_n_all)

lemma record_events_newest:
  "0 < mx \<Longrightarrow> es \<noteq> [] \<Longrightarrow> load_events f = Inr old \<Longrightarrow> record_events mx es f = Content (last_n mx (old @ es))"
proof (induction es arbitrary: f old)
  case (Cons e es)
  obtain f' where f': "record_event mx None e f = (None, f')" "f' = Content (last_n mx (old @ [e]))"
    using record_event_success[of mx None e f "Content (last_n mx (old @ [e]))"] Cons.prems by auto
  show ?case
  proof (cases "es = []")
    case True
    with f' show ?thesis by simp
  next
    case False
    then have "record_events mx es f' = Content (last_n mx (last_n mx (old @ [e]) @ es))"
      using Cons.IH[of f' "last_n mx (old @ [e])"] Cons.prems(1) f'(2) by (simp add: load_events_def)
    then show ?thesis using f' Cons.prems(1) by (simp add: last_n_append_chain)
  qed
qed simp

section \<open>Team configuration\<close>

type_synonym team_file = "string list stored"

definition load_team_config :: "error option \<Rightarrow> team_file \<Rightarrow> string list result" where
  "load_team_config pe f =
     (case pe of Some e \<Rightarrow> Inl e
      | None \<Rightarrow> (case f of Absent \<Rightarrow> Inr [] | Corrupt e \<Rightarrow> Inl (Errorf ''parse team config'' [e]) | Content es \<Rightarrow> Inr es))"

definition save_team_config :: "error option \<Rightarrow> error option \<Rightarrow> string list \<Rightarrow> team_file \<Rightarrow> error option \<times> team_file" where
  "save_team_config pe we es f =
     (case pe of Some e \<Rightarrow> (Some e, f)
      | None \<Rightarrow> (case we of Some e \<Rightarrow> (Some e, f) | None \<Rightarrow> (None, Content es)))"

definition clear_team_config :: "error option \<Rightarrow> error option \<Rightarrow> team_file \<Rightarrow> error option \<times> team_file" where
  "clear_team_config pe re f =
     (case pe of Some e \<Rightarrow> (Some e, f)
      | None \<Rightarrow> (case f of Absent \<Rightarrow> (None, f)
          | _ \<Rightarrow> (case re of Some e \<Rightarrow> (Some e, f) | None \<Rightarrow> (None, Absent))))"

definition run_team_set :: "error option \<Rightarrow> error option \<Rightarrow> string list \<Rightarrow> team_file \<Rightarrow> error option \<times> team_file" where
  "run_team_set pe we es f =
     (if es = [] then (Some (Errorf ''team set: provide at least one email'' []), f)
      else save_team_config pe we es f)"

section \<open>What the theory establishes\<close>

text \<open>
  The watch list is keyed by provider and hold id: after any sequence of additions, looking up a key
  finds the last item added under it, or what was there before. One item per key is kept.
\<close>

theorem last_watch_wins:
  "find_watch (fold put_watch ws items) k =
     (case find (\<lambda>v. watch_key v = k) (rev ws) of Some v \<Rightarrow> Some v | None \<Rightarrow> find_watch items k)
   \<and> (distinct (map watch_key items) \<longrightarrow> distinct (map watch_key (fold put_watch ws items)))"
proof -
  have "watch_keys_distinct items \<Longrightarrow> watch_keys_distinct (fold put_watch ws items)"
    by (induction ws arbitrary: items) (simp_all add: put_watch_distinct)
  then show ?thesis using watches.look_fold_put by blast
qed

definition example_watch :: watch_item where
  "example_watch = \<lparr>wi_provider = ''graph'', wi_hold_id = ''h1'', wi_workflow = ''pto'', wi_step = 1, wi_resume = 0,
     wi_done = False, wi_approver = ''boss@example.com'', wi_subject = ''PTO'', wi_created = zero_time\<rparr>"

theorem last_watch_wins_witness:
  "distinct (map watch_key (fold put_watch [example_watch, example_watch\<lparr>wi_step := 3\<rparr>] []))
    \<and> find_watch (fold put_watch [example_watch, example_watch\<lparr>wi_step := 3\<rparr>] []) (''graph'', ''h1'')
      = Some (example_watch\<lparr>wi_step := 3\<rparr>)"
  using last_watch_wins[of "[example_watch, example_watch\<lparr>wi_step := 3\<rparr>]" "[]" "(''graph'', ''h1'')"]
  by (simp add: example_watch_def watch_key_def)

text \<open>
  C39. The run history keeps exactly the newest \<open>max\<close> events, in the order they were recorded, over any
  number of recordings.
\<close>

theorem history_keeps_newest:
  assumes "0 < mx" and "es \<noteq> []" and "load_events f = Inr old"
  shows "record_events mx es f = Content (last_n mx (old @ es))"
  by (rule record_events_newest[OF assms])

definition example_event :: "action \<Rightarrow> event" where
  "example_event a = \<lparr>ev_time = zero_time, ev_workflow = ''pto'', ev_provider = ''graph'', ev_hold_id = ''h1'',
     ev_action = a, ev_actor = [], ev_detail = []\<rparr>"

theorem history_keeps_newest_witness:
  "record_events 2 [example_event ActionCreated, example_event ActionApproved, example_event ActionNotified] Absent
    = Content [example_event ActionApproved, example_event ActionNotified]"
  using history_keeps_newest[of 2 "[example_event ActionCreated, example_event ActionApproved, example_event ActionNotified]"
      Absent "[]"]
  by (simp add: load_events_def last_n_def)

end
