(* ===== verification/Coverage.thy ===== *)
theory Coverage
  imports Calendar
begin

text \<open>
  The coverage ledger (\<open>internal/coverage/coverage.go\<close>) and the functions of \<open>cmd/coverage.go\<close> that
  feed and query it. The ledger is a file holding a list of entries; every operation is a function
  from the file to the file, with the errors of locking and writing as arguments. Each critical
  section runs under the file lock, so an operation is one atomic step.
\<close>

section \<open>Entries\<close>

record entry =
  ce_owner :: string
  ce_hold_id :: string
  ce_start :: gotime
  ce_end :: gotime
  ce_subject :: string

definition overlaps :: "entry \<Rightarrow> gotime \<Rightarrow> gotime \<Rightarrow> bool" where
  "overlaps e start fin \<longleftrightarrow> before (ce_start e) fin \<and> before start (ce_end e)"

text \<open>Half-open windows overlap exactly when some instant lies in both, if neither is empty.\<close>

definition in_window :: "int \<Rightarrow> gotime \<Rightarrow> gotime \<Rightarrow> bool" where
  "in_window i start fin \<longleftrightarrow> t_ns start \<le> i \<and> i < t_ns fin"

lemma overlaps_common_instant:
  assumes "before (ce_start e) (ce_end e)" and "before start fin"
  shows "overlaps e start fin \<longleftrightarrow> (\<exists>i. in_window i (ce_start e) (ce_end e) \<and> in_window i start fin)"
proof
  assume "overlaps e start fin"
  then show "\<exists>i. in_window i (ce_start e) (ce_end e) \<and> in_window i start fin"
    using assms by (intro exI[of _ "max (t_ns (ce_start e)) (t_ns start)"])
      (auto simp: overlaps_def in_window_def before_def)
qed (auto simp: overlaps_def in_window_def before_def)

section \<open>The ledger\<close>

type_synonym ledger = "entry list stored"

text \<open>\<open>load\<close>: an absent file is an empty ledger. \<open>store\<close>: a failed write leaves the file alone.\<close>

definition load_ledger :: "ledger \<Rightarrow> entry list result" where
  "load_ledger f = read_file [] f"

definition store_ledger :: "error option \<Rightarrow> entry list \<Rightarrow> ledger \<Rightarrow> error option \<times> ledger" where
  "store_ledger we es f = (case we of Some e \<Rightarrow> (Some e, f) | None \<Rightarrow> (None, Content es))"

definition with_file_lock :: "error option \<Rightarrow> (ledger \<Rightarrow> error option \<times> ledger) \<Rightarrow> ledger \<Rightarrow> error option \<times> ledger" where
  "with_file_lock le body f = (case le of Some e \<Rightarrow> (Some e, f) | None \<Rightarrow> body f)"

definition record_entry :: "error option \<Rightarrow> error option \<Rightarrow> gotime \<Rightarrow> entry \<Rightarrow> ledger \<Rightarrow> error option \<times> ledger" where
  "record_entry le we now e f =
     (if \<not> after (ce_end e) (ce_start e) then (Some (Errorf ''coverage: end must be after start'' []), f)
      else with_file_lock le (\<lambda>f.
        case load_ledger f of
          Inl err \<Rightarrow> (Some err, f)
        | Inr es \<Rightarrow> store_ledger we (filter (\<lambda>x. after (ce_end x) now) es @ [e]) f) f)"

definition remove_entry :: "error option \<Rightarrow> error option \<Rightarrow> string \<Rightarrow> ledger \<Rightarrow> error option \<times> ledger" where
  "remove_entry le we hid f =
     (if hid = [] then (None, f)
      else with_file_lock le (\<lambda>f.
        case load_ledger f of
          Inl err \<Rightarrow> (Some err, f)
        | Inr es \<Rightarrow>
            (let kept = filter (\<lambda>x. ce_hold_id x \<noteq> hid) es
             in if length kept = length es then (None, f) else store_ledger we kept f)) f)"

text \<open>The order among equal starts is left open by \<open>sort.Slice\<close>; the stable order is one of them.\<close>

definition overlapping :: "gotime \<Rightarrow> gotime \<Rightarrow> string \<Rightarrow> ledger \<Rightarrow> entry list result" where
  "overlapping start fin exclude f =
     (case load_ledger f of
        Inl err \<Rightarrow> Inl err
      | Inr es \<Rightarrow> Inr (sort_key (\<lambda>e. t_ns (ce_start e))
          (filter (\<lambda>e. overlaps e start fin) (filter (\<lambda>e. ce_owner e \<noteq> exclude) es))))"

definition count_off :: "gotime \<Rightarrow> gotime \<Rightarrow> string \<Rightarrow> ledger \<Rightarrow> int result" where
  "count_off start fin exclude f =
     (case overlapping start fin exclude f of
        Inl err \<Rightarrow> Inl err
      | Inr es \<Rightarrow> Inr (int (length (remdups (map ce_owner es)))))"

section \<open>The commands' uses of the ledger\<close>

text \<open>
  \<open>recordCoverage\<close> and \<open>forgetCoverage\<close> drop every error; \<open>pe\<close> is a failure to find the ledger's
  path.
\<close>

definition record_coverage ::
  "error option \<Rightarrow> error option \<Rightarrow> error option \<Rightarrow> gotime \<Rightarrow> person result \<Rightarrow> hold \<Rightarrow> ledger \<Rightarrow> ledger" where
  "record_coverage pe le we now me h f =
     (case me of
        Inl err \<Rightarrow> f
      | Inr p \<Rightarrow>
          (if person_email p = [] then f
           else case pe of Some err \<Rightarrow> f
           | None \<Rightarrow> snd (record_entry le we now
               \<lparr>ce_owner = person_email p, ce_hold_id = hold_id h, ce_start = hold_start h,
                ce_end = hold_end h, ce_subject = hold_subject h\<rparr> f)))"

definition forget_coverage :: "error option \<Rightarrow> error option \<Rightarrow> error option \<Rightarrow> string \<Rightarrow> ledger \<Rightarrow> ledger" where
  "forget_coverage pe le we hid f =
     (case pe of Some err \<Rightarrow> f | None \<Rightarrow> snd (remove_entry le we hid f))"

text \<open>\<open>warnCoverage\<close>: the number off when it reaches the configured limit, \<open>None\<close> for no warning.\<close>

definition warn_coverage :: "error option \<Rightarrow> string \<Rightarrow> gotime \<Rightarrow> gotime \<Rightarrow> ledger \<Rightarrow> (int \<times> int) option" where
  "warn_coverage pe limit_env start fin f =
     (case parse_int64 limit_env of
        None \<Rightarrow> None
      | Some limit \<Rightarrow>
          (if limit \<le> 0 then None
           else case pe of Some err \<Rightarrow> None
           | None \<Rightarrow> (case count_off start fin [] f of
               Inl err \<Rightarrow> None
             | Inr n \<Rightarrow> if n < limit then None else Some (n, limit))))"

definition app_coverage :: "error option \<Rightarrow> gotime \<Rightarrow> ledger \<Rightarrow> entry list result" where
  "app_coverage pe now f =
     (case pe of Some err \<Rightarrow> Inl err
      | None \<Rightarrow> overlapping now (add_days now 28) [] f)"

section \<open>Properties\<close>

lemma overlapping_Inr:
  "overlapping start fin x (Content es) = Inr r \<Longrightarrow>
     set r = {e \<in> set es. ce_owner e \<noteq> x \<and> overlaps e start fin} \<and> sorted (map (\<lambda>e. t_ns (ce_start e)) r)"
  by (auto simp: overlapping_def load_ledger_def)

lemma count_off_card:
  "count_off start fin x (Content es) =
     Inr (int (card (ce_owner ` {e \<in> set es. ce_owner e \<noteq> x \<and> overlaps e start fin})))"
proof -
  have "set (map ce_owner (sort_key (\<lambda>e. t_ns (ce_start e))
      (filter (\<lambda>e. overlaps e start fin) (filter (\<lambda>e. ce_owner e \<noteq> x) es))))
    = ce_owner ` {e \<in> set es. ce_owner e \<noteq> x \<and> overlaps e start fin}"
    by auto
  then show ?thesis
    by (simp only: count_off_def overlapping_def load_ledger_def read_file.simps sum.case length_remdups_card_conv)
qed

lemma record_success:
  "record_entry le we now e f = (None, f') \<longleftrightarrow> before (ce_start e) (ce_end e) \<and> le = None \<and> we = None
     \<and> (\<exists>es. load_ledger f = Inr es \<and> f' = Content (filter (\<lambda>x. after (ce_end x) now) es @ [e]))"
  by (auto simp: record_entry_def with_file_lock_def store_ledger_def after_def split: option.splits sum.splits)

lemma record_failure: "record_entry le we now e f = (Some err, f') \<Longrightarrow> f' = f"
  by (auto simp: record_entry_def with_file_lock_def store_ledger_def split: if_splits option.splits sum.splits)

lemma remove_failure_ledger: "remove_entry le we hid f = (Some err, f') \<Longrightarrow> f' = f"
  by (auto simp: remove_entry_def with_file_lock_def store_ledger_def Let_def split: if_splits option.splits sum.splits)

lemma length_filter_all: "length (filter P xs) = length xs \<longleftrightarrow> filter P xs = xs"
  by (metis filter_id_conv filter_True length_filter_less less_irrefl)

lemma remove_success_ledger:
  assumes "remove_entry le we hid f = (None, f')" and "hid \<noteq> []"
  shows "\<exists>es. load_ledger f = Inr es \<and> load_ledger f' = Inr (filter (\<lambda>x. ce_hold_id x \<noteq> hid) es)"
  using assms
  by (auto simp: remove_entry_def with_file_lock_def store_ledger_def Let_def load_ledger_def length_filter_all
      split: if_splits option.splits sum.splits)

lemma record_then_overlapping:
  assumes "record_entry le we now e f = (None, f')" and "load_ledger f = Inr es"
    and "overlaps e start fin" and "ce_owner e \<noteq> x" and "overlapping start fin x f' = Inr r"
  shows "set r = insert e {o1 \<in> set es. after (ce_end o1) now \<and> ce_owner o1 \<noteq> x \<and> overlaps o1 start fin}"
  using assms overlapping_Inr[of start fin x _ r] by (auto simp: record_success)

text \<open>Recording never loses time off that is still current: dropping past entries is invisible from now on.\<close>

lemma record_keeps_current:
  assumes "record_entry le we now e f = (None, f')" and "load_ledger f = Inr es" and "\<not> before start now"
  shows "\<exists>es'. load_ledger f' = Inr es' \<and>
    {x \<in> set es'. overlaps x start fin} = {x \<in> insert e (set es). overlaps x start fin}"
  using assms by (fastforce simp: record_success load_ledger_def overlaps_def after_def before_def)

section \<open>What the theory establishes\<close>

text \<open>
  The windows of the ledger are half open: two windows overlap exactly when some instant lies in
  both, so time off that ends when other time off starts does not.
\<close>

theorem overlaps_share_an_instant:
  assumes "before (ce_start e) (ce_end e)" and "before start fin"
  shows "overlaps e start fin \<longleftrightarrow> (\<exists>i. (t_ns (ce_start e) \<le> i \<and> i < t_ns (ce_end e)) \<and> t_ns start \<le> i \<and> i < t_ns fin)"
  using overlaps_common_instant[OF assms] unfolding in_window_def .

definition example_entry :: entry where
  "example_entry = \<lparr>ce_owner = ''ann@example.com'', ce_hold_id = ''h1'', ce_start = zero_time\<lparr>t_ns := 100\<rparr>,
     ce_end = zero_time\<lparr>t_ns := 200\<rparr>, ce_subject = ''PTO''\<rparr>"

theorem overlaps_share_an_instant_witness:
  "overlaps example_entry (zero_time\<lparr>t_ns := 150\<rparr>) (zero_time\<lparr>t_ns := 300\<rparr>)"
  using overlaps_share_an_instant[of example_entry "zero_time\<lparr>t_ns := 150\<rparr>" "zero_time\<lparr>t_ns := 300\<rparr>"]
  by (auto simp: example_entry_def before_def intro!: exI[of _ 150])

text \<open>
  \<open>CountOff\<close> is the number of distinct owners, other than the excluded one, with time off that
  overlaps the window, however many entries each has.
\<close>

theorem count_off_is_people_off:
  "count_off start fin x (Content es) =
     Inr (int (card {p. p \<noteq> x \<and> (\<exists>e \<in> set es. ce_owner e = p \<and> overlaps e start fin)}))"
proof -
  have "ce_owner ` {e \<in> set es. ce_owner e \<noteq> x \<and> overlaps e start fin}
      = {p. p \<noteq> x \<and> (\<exists>e \<in> set es. ce_owner e = p \<and> overlaps e start fin)}" by auto
  then show ?thesis using count_off_card[of start fin x es] by simp
qed

text \<open>
  Recording time off drops only entries that have ended: for every window from now on, the
  overlapping entries are those of before and the new one. A failed recording changes nothing.
\<close>

theorem record_loses_nothing_current:
  assumes "record_entry le we now e f = (err, f')" and "load_ledger f = Inr es" and "\<not> before start now"
  shows "(err = None \<longrightarrow> (\<exists>es'. load_ledger f' = Inr es' \<and>
      {x \<in> set es'. overlaps x start fin} = {x \<in> insert e (set es). overlaps x start fin}))
    \<and> (err \<noteq> None \<longrightarrow> f' = f)"
  using record_keeps_current[OF _ assms(2,3)] record_failure assms(1) by (cases err) blast+

theorem record_loses_nothing_current_witness:
  "\<exists>es. load_ledger (snd (record_entry None None zero_time example_entry Absent)) = Inr es \<and>
     {x \<in> set es. overlaps x (zero_time\<lparr>t_ns := 150\<rparr>) (zero_time\<lparr>t_ns := 300\<rparr>)}
       = {x \<in> {example_entry}. overlaps x (zero_time\<lparr>t_ns := 150\<rparr>) (zero_time\<lparr>t_ns := 300\<rparr>)}"
proof -
  obtain f' where r: "record_entry None None zero_time example_entry Absent = (None, f')"
    by (simp add: record_entry_def with_file_lock_def load_ledger_def store_ledger_def after_def before_def example_entry_def)
  have "\<not> before (zero_time\<lparr>t_ns := 150\<rparr>) zero_time" by (simp add: before_def zero_time_def)
  from record_loses_nothing_current[OF r _ this, of "[]"] r show ?thesis by (simp add: load_ledger_def)
qed

end
