(* ===== verification/World.thy ===== *)
theory World
  imports Stores Coverage
begin

text \<open>
  What the commands and the daemon act on. \<open>env\<close> is everything outside the program: the calendar
  provider, the directory, the comms and HR backends, the clock, the environment variables and the
  failures of the file system. Each answer depends on the number of calls made before it, so the
  outside may answer the same call differently later, and a theorem for every \<open>env\<close> covers every
  behaviour of the services. \<open>world\<close> is the state: the files of the configuration directory, the
  trace of effects the services accepted, and the call counter.
\<close>

section \<open>The outside\<close>

record leave =
  lv_employee :: string
  lv_type :: string
  lv_start :: gotime
  lv_end :: gotime
  lv_note :: string

record env =
  e_getenv :: "string \<Rightarrow> string"
  e_now :: "nat \<Rightarrow> gotime"
  e_me :: "nat \<Rightarrow> person result"
  e_manager :: "nat \<Rightarrow> person result"
  e_team :: "nat \<Rightarrow> person list result"
  e_create :: "nat \<Rightarrow> hold \<Rightarrow> hold result"
  e_get :: "nat \<Rightarrow> string \<Rightarrow> hold result"
  e_update :: "nat \<Rightarrow> hold \<Rightarrow> hold result"
  e_delete :: "nat \<Rightarrow> string \<Rightarrow> error option"
  e_notifier :: "(nat \<Rightarrow> string \<Rightarrow> string \<Rightarrow> error option) option"
  e_filer :: "(nat \<Rightarrow> leave \<Rightarrow> string result) option"
  e_address :: "string \<Rightarrow> string option"
  e_write :: "nat \<Rightarrow> error option"
  e_lock :: "nat \<Rightarrow> error option"
  e_watch_path :: "error option"
  e_state_path :: "error option"
  e_team_path :: "error option"
  e_ledger_path :: "error option"
  e_audit_path :: "error option"

datatype effect =
    Created hold
  | Updated hold
  | Deleted string
  | Posted string string
  | Filed leave

record world =
  w_tick :: nat
  w_trace :: "effect list"
  w_watches :: watch_file
  w_state :: state_file
  w_audit :: audit_file
  w_ledger :: ledger
  w_team :: team_file

definition empty_world :: world where
  "empty_world = \<lparr>w_tick = 0, w_trace = [], w_watches = Absent, w_state = Absent, w_audit = Absent,
     w_ledger = Absent, w_team = Absent\<rparr>"

definition tick :: "world \<Rightarrow> world" where
  "tick w = w\<lparr>w_tick := Suc (w_tick w)\<rparr>"

definition emit :: "effect \<Rightarrow> world \<Rightarrow> world" where
  "emit x w = w\<lparr>w_trace := w_trace w @ [x]\<rparr>"

section \<open>Calls\<close>

definition now :: "env \<Rightarrow> world \<Rightarrow> gotime \<times> world" where
  "now env w = (e_now env (w_tick w), tick w)"

definition prov_me :: "env \<Rightarrow> world \<Rightarrow> person result \<times> world" where
  "prov_me env w = (e_me env (w_tick w), tick w)"

definition prov_manager :: "env \<Rightarrow> world \<Rightarrow> person result \<times> world" where
  "prov_manager env w = (e_manager env (w_tick w), tick w)"

definition prov_team :: "env \<Rightarrow> world \<Rightarrow> person list result \<times> world" where
  "prov_team env w = (e_team env (w_tick w), tick w)"

definition prov_get :: "env \<Rightarrow> string \<Rightarrow> world \<Rightarrow> hold result \<times> world" where
  "prov_get env hid w = (e_get env (w_tick w) hid, tick w)"

definition prov_create :: "env \<Rightarrow> hold \<Rightarrow> world \<Rightarrow> hold result \<times> world" where
  "prov_create env h w =
     (case e_create env (w_tick w) h of
        Inl e \<Rightarrow> (Inl e, tick w)
      | Inr h' \<Rightarrow> (Inr h', emit (Created h) (tick w)))"

definition prov_update :: "env \<Rightarrow> hold \<Rightarrow> world \<Rightarrow> hold result \<times> world" where
  "prov_update env h w =
     (case e_update env (w_tick w) h of
        Inl e \<Rightarrow> (Inl e, tick w)
      | Inr h' \<Rightarrow> (Inr h', emit (Updated h) (tick w)))"

definition prov_delete :: "env \<Rightarrow> string \<Rightarrow> world \<Rightarrow> error option \<times> world" where
  "prov_delete env hid w =
     (case e_delete env (w_tick w) hid of
        Some e \<Rightarrow> (Some e, tick w)
      | None \<Rightarrow> (None, emit (Deleted hid) (tick w)))"

section \<open>Files\<close>

definition w_load_watches :: "env \<Rightarrow> world \<Rightarrow> watch_item list result" where
  "w_load_watches env w = load_watches (e_watch_path env) (w_watches w)"

definition w_add_watch :: "env \<Rightarrow> watch_item \<Rightarrow> world \<Rightarrow> error option \<times> world" where
  "w_add_watch env item w =
     (case add_watch (e_watch_path env) (e_write env (w_tick w)) item (w_watches w) of
        (err, f) \<Rightarrow> (err, tick (w\<lparr>w_watches := f\<rparr>)))"

definition w_remove_watch :: "env \<Rightarrow> string \<Rightarrow> string \<Rightarrow> world \<Rightarrow> error option \<times> world" where
  "w_remove_watch env p hid w =
     (case remove_watch (e_watch_path env) (e_write env (w_tick w)) p hid (w_watches w) of
        (err, f) \<Rightarrow> (err, tick (w\<lparr>w_watches := f\<rparr>)))"

definition w_save_watches :: "env \<Rightarrow> watch_item list \<Rightarrow> world \<Rightarrow> error option \<times> world" where
  "w_save_watches env items w =
     (case save_watches (e_watch_path env) (e_write env (w_tick w)) items (w_watches w) of
        (err, f) \<Rightarrow> (err, tick (w\<lparr>w_watches := f\<rparr>)))"

definition w_save_state :: "env \<Rightarrow> hold_ref \<Rightarrow> world \<Rightarrow> error option \<times> world" where
  "w_save_state env r w =
     (case save_state (e_state_path env) (e_write env (w_tick w)) r (w_state w) of
        (err, f) \<Rightarrow> (err, tick (w\<lparr>w_state := f\<rparr>)))"

text \<open>\<open>recordAudit\<close> stamps the event and never fails; without a path the recorder discards it.\<close>

definition record_audit :: "env \<Rightarrow> event \<Rightarrow> world \<Rightarrow> world" where
  "record_audit env ev w =
     (let (t, w) = now env w in
      case e_audit_path env of
        Some e \<Rightarrow> w
      | None \<Rightarrow>
          tick (w\<lparr>w_audit := snd (record_event default_max (e_write env (w_tick w)) (ev\<lparr>ev_time := t\<rparr>) (w_audit w))\<rparr>))"

definition w_record_coverage :: "env \<Rightarrow> hold \<Rightarrow> world \<Rightarrow> world" where
  "w_record_coverage env h w =
     (let (me, w) = prov_me env w; (t, w) = now env w in
      tick (w\<lparr>w_ledger := record_coverage (e_ledger_path env) (e_lock env (w_tick w)) (e_write env (w_tick w)) t me h
                (w_ledger w)\<rparr>))"

definition w_forget_coverage :: "env \<Rightarrow> string \<Rightarrow> world \<Rightarrow> world" where
  "w_forget_coverage env hid w =
     tick (w\<lparr>w_ledger := forget_coverage (e_ledger_path env) (e_lock env (w_tick w)) (e_write env (w_tick w)) hid
               (w_ledger w)\<rparr>)"

text \<open>
  \<open>forgetHold\<close> (\<open>cmd/cancel.go\<close>): drop the watch, the coverage and the last-hold reference of a
  canceled hold, ignoring failures.
\<close>

definition forget_hold :: "env \<Rightarrow> hold_ref \<Rightarrow> world \<Rightarrow> world" where
  "forget_hold env ref w =
     (let w = snd (w_remove_watch env (ref_provider ref) (ref_id ref) w);
          w = w_forget_coverage env (ref_id ref) w
      in case load_state (e_state_path env) (w_state w) of
           Inl e \<Rightarrow> w
         | Inr r \<Rightarrow> (if r = ref then snd (w_save_state env no_ref w) else w))"

section \<open>What a call leaves alone\<close>

named_theorems frame \<open>which parts of the world an operation leaves as they were\<close>

lemma tick_frame [simp]:
  "w_trace (tick w) = w_trace w" "w_watches (tick w) = w_watches w" "w_state (tick w) = w_state w"
  "w_audit (tick w) = w_audit w" "w_ledger (tick w) = w_ledger w" "w_team (tick w) = w_team w"
  "w_tick (tick w) = Suc (w_tick w)"
  by (simp_all add: tick_def)

lemma emit_frame [simp]:
  "w_trace (emit x w) = w_trace w @ [x]" "w_watches (emit x w) = w_watches w" "w_state (emit x w) = w_state w"
  "w_audit (emit x w) = w_audit w" "w_ledger (emit x w) = w_ledger w" "w_team (emit x w) = w_team w"
  "w_tick (emit x w) = w_tick w"
  by (simp_all add: emit_def)

lemma record_audit_frame [simp, frame]:
  "w_trace (record_audit env ev w) = w_trace w" "w_watches (record_audit env ev w) = w_watches w"
  "w_state (record_audit env ev w) = w_state w" "w_ledger (record_audit env ev w) = w_ledger w"
  "w_team (record_audit env ev w) = w_team w"
  by (simp_all add: record_audit_def now_def Let_def split: option.splits)

lemma w_forget_coverage_frame [simp, frame]:
  "w_trace (w_forget_coverage env hid w) = w_trace w" "w_watches (w_forget_coverage env hid w) = w_watches w"
  "w_state (w_forget_coverage env hid w) = w_state w" "w_audit (w_forget_coverage env hid w) = w_audit w"
  by (simp_all add: w_forget_coverage_def)

lemma w_record_coverage_frame [simp, frame]:
  "w_trace (w_record_coverage env h w) = w_trace w" "w_watches (w_record_coverage env h w) = w_watches w"
  "w_state (w_record_coverage env h w) = w_state w" "w_audit (w_record_coverage env h w) = w_audit w"
  by (simp_all add: w_record_coverage_def prov_me_def now_def Let_def)

lemma w_add_watch_frame [simp, frame]:
  "w_trace (snd (w_add_watch env item w)) = w_trace w" "w_state (snd (w_add_watch env item w)) = w_state w"
  "w_audit (snd (w_add_watch env item w)) = w_audit w" "w_ledger (snd (w_add_watch env item w)) = w_ledger w"
  by (simp_all add: w_add_watch_def split: prod.splits)

lemma w_remove_watch_frame [simp, frame]:
  "w_trace (snd (w_remove_watch env p h w)) = w_trace w" "w_state (snd (w_remove_watch env p h w)) = w_state w"
  "w_audit (snd (w_remove_watch env p h w)) = w_audit w" "w_ledger (snd (w_remove_watch env p h w)) = w_ledger w"
  by (simp_all add: w_remove_watch_def split: prod.splits)

lemma w_save_state_frame [simp, frame]:
  "w_trace (snd (w_save_state env r w)) = w_trace w" "w_watches (snd (w_save_state env r w)) = w_watches w"
  "w_audit (snd (w_save_state env r w)) = w_audit w" "w_ledger (snd (w_save_state env r w)) = w_ledger w"
  by (simp_all add: w_save_state_def split: prod.splits)

lemma forget_hold_trace [simp, frame]:
  "w_trace (forget_hold env ref w) = w_trace w" "w_audit (forget_hold env ref w) = w_audit w"
  by (simp_all add: forget_hold_def Let_def split: sum.splits)

lemma forget_hold_watches [simp]:
  "w_watches (forget_hold env ref w) = w_watches (snd (w_remove_watch env (ref_provider ref) (ref_id ref) w))"
  by (simp add: forget_hold_def Let_def split: sum.splits)

end
