(* ===== verification/Actions.thy ===== *)
theory Actions
  imports World Workflow
begin

text \<open>
  The actions a workflow step performs, shared by the commands and the daemon: resolving the team
  and adding it to a hold (\<open>cmd/team.go\<close>, \<open>cmd/promote.go\<close>), resolving the approver
  (\<open>cmd/request.go\<close>, \<open>cmd/run.go\<close>), reading the manager's response (\<open>cmd/check.go\<close>), notes, messages
  and leave (\<open>cmd/run.go\<close>), and canceling (\<open>cmd/cancel.go\<close>). \<open>mail.ParseAddress\<close> is the argument
  \<open>e_address\<close> of the environment.
\<close>

section \<open>The team\<close>

fun people_from_emails :: "(string \<Rightarrow> string option) \<Rightarrow> string list \<Rightarrow> person list" where
  "people_from_emails addr [] = []"
| "people_from_emails addr (e # es) =
     (let e = trim_space e in
      if e = [] then people_from_emails addr es
      else case addr e of
             None \<Rightarrow> people_from_emails addr es
           | Some a \<Rightarrow> email_person a # people_from_emails addr es)"

datatype team_source = SourceConfig | SourceDirectory

definition merge_team :: "env \<Rightarrow> string list \<Rightarrow> world \<Rightarrow> (person list \<times> team_source) result \<times> world" where
  "merge_team env emails w =
     (let people = people_from_emails (e_address env) emails in
      if people \<noteq> [] then (Inr (people, SourceConfig), w)
      else case prov_team env w of
             (Inl e, w) \<Rightarrow> (Inl e, w)
           | (Inr dir, w) \<Rightarrow> (Inr (dir, SourceDirectory), w))"

definition resolve_team :: "env \<Rightarrow> world \<Rightarrow> (person list \<times> team_source) result \<times> world" where
  "resolve_team env w =
     (case load_team_config (e_team_path env) (w_team w) of
        Inl e \<Rightarrow> (Inl e, w)
      | Inr emails \<Rightarrow> merge_team env emails w)"

definition attendees_from_csv :: "(string \<Rightarrow> string option) \<Rightarrow> string \<Rightarrow> attendee list" where
  "attendees_from_csv addr csv =
     map (\<lambda>p. invite p RoleRequired) (people_from_emails addr (split_on (CHR '','') csv))"

text \<open>The members not seen yet, as optional attendees, each once.\<close>

fun new_members :: "string list \<Rightarrow> person list \<Rightarrow> attendee list" where
  "new_members seen [] = []"
| "new_members seen (p # ps) =
     (let key = to_lower (person_email p) in
      if key \<in> set seen then new_members seen ps
      else invite p RoleOptional # new_members (key # seen) ps)"

abbreviation att_key :: "attendee \<Rightarrow> string" where
  "att_key a \<equiv> to_lower (att_email a)"

definition with_team :: "hold \<Rightarrow> person list \<Rightarrow> hold" where
  "with_team h team =
     h\<lparr>hold_attendees := hold_attendees h @ new_members (map att_key (hold_attendees h)) team,
       hold_show_as := (if hold_show_as h = ShowUnset then ShowFree else hold_show_as h)\<rparr>"

definition promote_hold :: "env \<Rightarrow> hold \<Rightarrow> world \<Rightarrow> error option \<times> world" where
  "promote_hold env h w =
     (case resolve_team env w of
        (Inl e, w) \<Rightarrow>
          (Some (if errors_is e ErrNoDirectory
                 then Errorf ''no directory for this provider; set your team with vamoose team set'' []
                 else Errorf ''resolve team'' [e]), w)
      | (Inr (team, src), w) \<Rightarrow>
          (if new_members (map att_key (hold_attendees h)) team = [] then (None, w)
           else case prov_update env (with_team h team) w of
                  (Inl e, w) \<Rightarrow> (Some (Errorf ''update hold'' [e]), w)
                | (Inr h', w) \<Rightarrow> (None, w)))"

section \<open>The approver\<close>

definition manager_attendee :: "hold \<Rightarrow> attendee" where
  "manager_attendee h =
     (case find (\<lambda>a. att_role a = RoleRequired) (hold_attendees h) of
        Some a \<Rightarrow> a
      | None \<Rightarrow> (case hold_attendees h of
          a # as \<Rightarrow> a
        | [] \<Rightarrow> \<lparr>att_person = email_person [], att_role = RoleUnset, att_response = ResponseOther []\<rparr>))"

definition resolve_manager :: "env \<Rightarrow> string \<Rightarrow> world \<Rightarrow> person result \<times> world" where
  "resolve_manager env email w =
     (if email \<noteq> [] then (Inr (email_person email), w)
      else case prov_manager env w of
             (Inl e, w) \<Rightarrow>
               (Inl (if errors_is e ErrNoManager then Errorf ''no manager in the directory; pass --manager'' []
                     else Errorf ''resolve manager'' [e]), w)
           | (Inr m, w) \<Rightarrow> (Inr m, w))"

definition first_approve_step :: "workflow \<Rightarrow> step" where
  "first_approve_step k =
     (case find (\<lambda>s. step_verb s = VerbApprove) (wf_steps k) of Some s \<Rightarrow> s | None \<Rightarrow> zero_step)"

definition resolve_approver :: "env \<Rightarrow> step \<Rightarrow> string \<Rightarrow> world \<Rightarrow> person result \<times> world" where
  "resolve_approver env s flag w =
     (if step_approver s \<noteq> [] then (Inr (email_person (step_approver s)), w)
      else resolve_manager env flag w)"

definition invite_required :: "hold \<Rightarrow> person \<Rightarrow> hold" where
  "invite_required h p =
     (if list_ex (\<lambda>a. equal_fold (att_email a) (person_email p)) (hold_attendees h) then h
      else h\<lparr>hold_attendees := hold_attendees h @ [invite p RoleRequired]\<rparr>)"

section \<open>Notes, messages, leave\<close>

definition note_hold :: "step \<Rightarrow> hold \<Rightarrow> hold" where
  "note_hold s h =
     \<lparr>hold_id = [], hold_subject = (if step_subject s = [] then ''Time off update'' else step_subject s),
      hold_body = [], hold_start = hold_start h, hold_end = hold_end h, hold_all_day = hold_all_day h,
      hold_show_as = ShowFree, hold_attendees = []\<rparr>"

definition create_note :: "env \<Rightarrow> step \<Rightarrow> hold \<Rightarrow> world \<Rightarrow> error option \<times> world" where
  "create_note env s h w =
     (case prov_create env (note_hold s h) w of
        (Inl e, w) \<Rightarrow> (Some (Errorf ''create note'' [e]), w)
      | (Inr h', w) \<Rightarrow> (None, w))"

definition message_text :: "step \<Rightarrow> hold \<Rightarrow> string" where
  "message_text s h =
     (let text = (if step_subject s = [] then hold_subject h else step_subject s)
      in if text = [] then ''Calendar update'' else text)"

definition send_message :: "env \<Rightarrow> step \<Rightarrow> hold \<Rightarrow> world \<Rightarrow> error option \<times> world" where
  "send_message env s h w =
     (case e_notifier env of
        None \<Rightarrow> (Some (Errorf ''message step needs a comms backend'' []), w)
      | Some notify \<Rightarrow>
          (case notify (w_tick w) (step_channel s) (message_text s h) of
             Some e \<Rightarrow> (Some (Errorf ''message'' [e]), tick w)
           | None \<Rightarrow> (None, emit (Posted (step_channel s) (message_text s h)) (tick w))))"

definition step_leave :: "env \<Rightarrow> step \<Rightarrow> hold \<Rightarrow> leave" where
  "step_leave env s h =
     \<lparr>lv_employee = e_getenv env ''VAMOOSE_BAMBOOHR_EMPLOYEE_ID'', lv_type = e_getenv env ''VAMOOSE_BAMBOOHR_TYPE_ID'',
      lv_start = hold_start h, lv_end = hold_end h,
      lv_note = (if step_subject s = [] then hold_subject h else step_subject s)\<rparr>"

definition file_leave :: "env \<Rightarrow> step \<Rightarrow> hold \<Rightarrow> world \<Rightarrow> error option \<times> world" where
  "file_leave env s h w =
     (case e_filer env of
        None \<Rightarrow> (Some (Errorf ''leave step needs an HR system'' []), w)
      | Some filer \<Rightarrow>
          (case filer (w_tick w) (step_leave env s h) of
             Inl e \<Rightarrow> (Some (Errorf ''file leave'' [e]), tick w)
           | Inr lid \<Rightarrow> (None, emit (Filed (step_leave env s h)) (tick w))))"

section \<open>The commands that act on a hold\<close>

text \<open>\<open>vamoose cancel\<close>, after the flags: \<open>prov_ok\<close> says whether the provider can be built.\<close>

definition run_cancel :: "env \<Rightarrow> (string \<Rightarrow> error option) \<Rightarrow> string \<Rightarrow> string \<Rightarrow> world \<Rightarrow> error option \<times> world" where
  "run_cancel env prov_err flag_id flag_provider w =
     (case resolve_hold (e_getenv env) (e_state_path env) flag_id flag_provider (w_state w) of
        Inl e \<Rightarrow> (Some e, w)
      | Inr ref \<Rightarrow>
          (case prov_err (ref_provider ref) of
             Some e \<Rightarrow> (Some e, w)
           | None \<Rightarrow>
               (case prov_delete env (ref_id ref) w of
                  (Some e, w) \<Rightarrow> (Some (Errorf ''cancel hold'' [e]), w)
                | (None, w) \<Rightarrow> (None, forget_hold env ref w))))"

definition run_promote ::
  "env \<Rightarrow> (string \<Rightarrow> error option) \<Rightarrow> string \<Rightarrow> string \<Rightarrow> bool \<Rightarrow> world \<Rightarrow> error option \<times> world" where
  "run_promote env prov_err flag_id flag_provider force w =
     (case resolve_hold (e_getenv env) (e_state_path env) flag_id flag_provider (w_state w) of
        Inl e \<Rightarrow> (Some e, w)
      | Inr ref \<Rightarrow>
          (case prov_err (ref_provider ref) of
             Some e \<Rightarrow> (Some e, w)
           | None \<Rightarrow>
               (case prov_get env (ref_id ref) w of
                  (Inl e, w) \<Rightarrow> (Some (Errorf ''get hold'' [e]), w)
                | (Inr h, w) \<Rightarrow>
                    (if \<not> force \<and> att_response (manager_attendee h) \<noteq> ResponseAccepted
                     then (Some (Errorf ''not approved yet; use --force to override'' []), w)
                     else promote_hold env h w))))"

datatype check_report = ApprovedReport string | DeclinedReport string | WaitingReport string response

definition run_check ::
  "env \<Rightarrow> (string \<Rightarrow> error option) \<Rightarrow> string \<Rightarrow> string \<Rightarrow> bool \<Rightarrow> world \<Rightarrow> check_report option \<times> error option \<times> world" where
  "run_check env prov_err flag_id flag_provider auto w =
     (case resolve_hold (e_getenv env) (e_state_path env) flag_id flag_provider (w_state w) of
        Inl e \<Rightarrow> (None, Some e, w)
      | Inr ref \<Rightarrow>
          (case prov_err (ref_provider ref) of
             Some e \<Rightarrow> (None, Some e, w)
           | None \<Rightarrow>
               (case prov_get env (ref_id ref) w of
                  (Inl e, w) \<Rightarrow> (None, Some (Errorf ''get hold'' [e]), w)
                | (Inr h, w) \<Rightarrow>
                    (let m = manager_attendee h in
                     if att_response m = ResponseAccepted
                     then (Some (ApprovedReport (att_email m)),
                           if auto then promote_hold env h w else (None, w))
                     else if att_response m = ResponseDeclined
                     then (Some (DeclinedReport (att_email m)), None, w)
                     else (Some (WaitingReport (if att_email m \<noteq> [] then att_email m else ''your manager'') (att_response m)),
                           None, w)))))"

section \<open>Properties\<close>

lemma new_members_optional: "a \<in> set (new_members seen ps) \<Longrightarrow> att_role a = RoleOptional \<and> att_person a \<in> set ps"
  by (induction seen ps rule: new_members.induct) (auto simp: Let_def invite_def split: if_splits)

lemma new_members_keys:
  "set (map att_key (new_members seen ps)) = (to_lower \<circ> person_email) ` set ps - set seen"
  by (induction seen ps rule: new_members.induct) (auto simp: Let_def invite_def)

lemma new_members_distinct:
  "distinct (map att_key (new_members seen ps)) \<and> set (map att_key (new_members seen ps)) \<inter> set seen = {}"
proof (induction seen ps rule: new_members.induct)
  case (2 seen p ps)
  then show ?case by (auto simp: Let_def invite_def)
qed simp

lemma new_members_none: "new_members seen ps = [] \<longleftrightarrow> (to_lower \<circ> person_email) ` set ps \<subseteq> set seen"
  by (metis Diff_eq_empty_iff map_is_Nil_conv new_members_keys set_empty)

text \<open>Adding the team keeps every attendee and covers the team; adding it again changes nothing.\<close>

lemma with_team_attendees:
  "\<exists>added. hold_attendees (with_team h team) = hold_attendees h @ added \<and> (\<forall>a \<in> set added. att_role a = RoleOptional)"
  using new_members_optional by (force simp: with_team_def)

lemma with_team_covers:
  "(to_lower \<circ> person_email) ` set team \<subseteq> att_key ` set (hold_attendees (with_team h team))"
proof -
  have "(to_lower \<circ> person_email) ` set team - att_key ` set (hold_attendees h)
      = att_key ` set (new_members (map att_key (hold_attendees h)) team)"
    using new_members_keys[of "map att_key (hold_attendees h)" team] by simp
  then show ?thesis by (auto simp: with_team_def)
qed

lemma with_team_again: "new_members (map att_key (hold_attendees (with_team h team))) team = []"
  using with_team_covers[of team h] by (simp add: new_members_none image_comp)

lemma with_team_distinct:
  "distinct (map att_key (hold_attendees h)) \<Longrightarrow> distinct (map att_key (hold_attendees (with_team h team)))"
  using new_members_distinct[of "map att_key (hold_attendees h)" team] by (auto simp: with_team_def)

lemma manager_attendee_required:
  "\<exists>a \<in> set (hold_attendees h). att_role a = RoleRequired \<Longrightarrow>
     att_role (manager_attendee h) = RoleRequired \<and> manager_attendee h \<in> set (hold_attendees h)"
  unfolding manager_attendee_def
  by (cases "find (\<lambda>a. att_role a = RoleRequired) (hold_attendees h)")
    (auto simp: find_None_iff_all dest: find_Some_memD)

lemma manager_attendee_with_team:
  "\<exists>a \<in> set (hold_attendees h). att_role a = RoleRequired \<Longrightarrow>
     manager_attendee (with_team h team) = manager_attendee h"
  by (auto simp: manager_attendee_def with_team_def find_append find_None_iff_all split: option.splits)

lemma invite_required_member:
  "\<exists>a \<in> set (hold_attendees (invite_required h p)). equal_fold (att_email a) (person_email p)"
  by (auto simp: invite_required_def list_ex_iff invite_def)

lemma invite_required_keeps: "set (hold_attendees h) \<subseteq> set (hold_attendees (invite_required h p))"
  by (auto simp: invite_required_def)

section \<open>What the actions leave alone\<close>

lemma resolve_team_frame [simp, frame]:
  "w_watches (snd (resolve_team env w)) = w_watches w" "w_trace (snd (resolve_team env w)) = w_trace w"
  "w_audit (snd (resolve_team env w)) = w_audit w" "w_ledger (snd (resolve_team env w)) = w_ledger w"
  "w_state (snd (resolve_team env w)) = w_state w"
  by (simp_all add: resolve_team_def merge_team_def prov_team_def Let_def split: sum.splits)

lemma promote_hold_frame [simp, frame]:
  "w_watches (snd (promote_hold env h w)) = w_watches w" "w_audit (snd (promote_hold env h w)) = w_audit w"
  "w_ledger (snd (promote_hold env h w)) = w_ledger w" "w_state (snd (promote_hold env h w)) = w_state w"
  using resolve_team_frame[of env w]
  by (cases "resolve_team env w"; auto simp: promote_hold_def prov_update_def split: prod.splits sum.splits)+

lemma create_note_frame [simp, frame]:
  "w_watches (snd (create_note env s h w)) = w_watches w" "w_audit (snd (create_note env s h w)) = w_audit w"
  "w_ledger (snd (create_note env s h w)) = w_ledger w" "w_state (snd (create_note env s h w)) = w_state w"
  by (auto simp: create_note_def prov_create_def split: prod.splits sum.splits)

lemma send_message_frame [simp, frame]:
  "w_watches (snd (send_message env s h w)) = w_watches w" "w_audit (snd (send_message env s h w)) = w_audit w"
  "w_ledger (snd (send_message env s h w)) = w_ledger w" "w_state (snd (send_message env s h w)) = w_state w"
  by (auto simp: send_message_def split: option.splits)

lemma file_leave_frame [simp, frame]:
  "w_watches (snd (file_leave env s h w)) = w_watches w" "w_audit (snd (file_leave env s h w)) = w_audit w"
  "w_ledger (snd (file_leave env s h w)) = w_ledger w" "w_state (snd (file_leave env s h w)) = w_state w"
  by (auto simp: file_leave_def split: option.splits sum.splits)

section \<open>The effects of an action\<close>

text \<open>A failed action leaves no effect; a successful one leaves the effect of its step, at most once.\<close>

lemma promote_hold_effects:
  "promote_hold env h w = (Some e, w') \<Longrightarrow> w_trace w' = w_trace w"
  "promote_hold env h w = (None, w') \<Longrightarrow>
     w_trace w' = w_trace w \<or> (\<exists>team. w_trace w' = w_trace w @ [Updated (with_team h team)])"
  using resolve_team_frame(2)[of env w]
  by (cases "resolve_team env w"; force simp: promote_hold_def prov_update_def split: prod.splits sum.splits if_splits)+

lemma create_note_effects:
  "create_note env s h w = (Some e, w') \<Longrightarrow> w_trace w' = w_trace w"
  "create_note env s h w = (None, w') \<Longrightarrow> w_trace w' = w_trace w @ [Created (note_hold s h)]"
  by (auto simp: create_note_def prov_create_def split: prod.splits sum.splits)

lemma send_message_effects:
  "send_message env s h w = (Some e, w') \<Longrightarrow> w_trace w' = w_trace w"
  "send_message env s h w = (None, w') \<Longrightarrow> w_trace w' = w_trace w @ [Posted (step_channel s) (message_text s h)]"
  by (auto simp: send_message_def split: option.splits)

lemma file_leave_effects:
  "file_leave env s h w = (Some e, w') \<Longrightarrow> w_trace w' = w_trace w"
  "file_leave env s h w = (None, w') \<Longrightarrow> w_trace w' = w_trace w @ [Filed (step_leave env s h)]"
  by (auto simp: file_leave_def split: option.splits sum.splits)

end
