(* ===== verification/Run.thy ===== *)
theory Run
  imports Actions Workflow_Spec
begin

text \<open>
  Running a workflow (\<open>cmd/run.go\<close>): creating the hold its first step defines, walking the immediate
  steps, and stopping at a gate. \<open>walk_steps\<close> is the loop of \<open>walkSteps\<close>, with its set of visited
  steps, and terminates on every workflow; on validated workflows the set is never hit. The
  checkpoint closure of the daemon is represented by the watch item it captures, absent for the
  run command.
\<close>

section \<open>Checkpoints\<close>

text \<open>
  \<open>checkpointFor\<close> (\<open>cmd/daemon.go\<close>): write the item with the step to resume at, or mark it done. A
  failed write is only logged.
\<close>

definition checkpoint_item :: "watch_item \<Rightarrow> int \<Rightarrow> watch_item" where
  "checkpoint_item item resume =
     (if resume < 0 then item\<lparr>wi_done := True, wi_resume := 0\<rparr> else item\<lparr>wi_resume := resume\<rparr>)"

definition checkpoint_at :: "env \<Rightarrow> watch_item option \<Rightarrow> int \<Rightarrow> world \<Rightarrow> world" where
  "checkpoint_at env cp resume w =
     (case cp of None \<Rightarrow> w | Some item \<Rightarrow> snd (w_add_watch env (checkpoint_item item resume) w))"

section \<open>One step\<close>

definition step_event :: "workflow \<Rightarrow> string \<Rightarrow> hold \<Rightarrow> action \<Rightarrow> string \<Rightarrow> event" where
  "step_event k prov h a detail =
     \<lparr>ev_time = zero_time, ev_workflow = wf_name k, ev_provider = prov, ev_hold_id = hold_id h, ev_action = a,
      ev_actor = [], ev_detail = detail\<rparr>"

datatype step_result = StepFailed error | StepNext | StepEnd

text \<open>After the action of a step: the audit event and the checkpoint, or the failure.\<close>

definition finish_step ::
  "env \<Rightarrow> watch_item option \<Rightarrow> event \<Rightarrow> int \<Rightarrow> error option \<times> world \<Rightarrow> step_result \<times> world" where
  "finish_step env cp ev resume r =
     (case r of
        (Some e, w) \<Rightarrow> (StepFailed e, w)
      | (None, w) \<Rightarrow> (StepNext, checkpoint_at env cp resume (record_audit env ev w)))"

definition exec_step ::
  "env \<Rightarrow> watch_item option \<Rightarrow> string \<Rightarrow> workflow \<Rightarrow> int \<Rightarrow> hold \<Rightarrow> world \<Rightarrow> step_result \<times> world" where
  "exec_step env cp prov k i h w =
     (let s = step_at k i; nxt = next_step k i [] in
      case step_verb s of
        VerbNotify \<Rightarrow> finish_step env cp (step_event k prov h ActionNotified []) nxt (promote_hold env h w)
      | VerbNote \<Rightarrow> finish_step env cp (step_event k prov h ActionNoted (step_subject s)) nxt (create_note env s h w)
      | VerbMessage \<Rightarrow> finish_step env cp (step_event k prov h ActionMessaged (step_channel s)) nxt (send_message env s h w)
      | VerbLeave \<Rightarrow> finish_step env cp (step_event k prov h ActionFiled (step_subject s)) nxt (file_leave env s h w)
      | VerbCancel \<Rightarrow>
          (case prov_delete env (hold_id h) w of
             (Some e, w) \<Rightarrow> (StepFailed (Errorf ''cancel hold'' [e]), w)
           | (None, w) \<Rightarrow>
               (let w = forget_hold env \<lparr>ref_provider = prov, ref_id = hold_id h\<rparr> w;
                    w = record_audit env (step_event k prov h ActionCanceled []) w
                in (StepEnd, checkpoint_at env cp (-1) w)))
      | _ \<Rightarrow> (StepNext, w))"

section \<open>The walk\<close>

function walk_steps ::
  "env \<Rightarrow> watch_item option \<Rightarrow> string \<Rightarrow> workflow \<Rightarrow> int list \<Rightarrow> int \<Rightarrow> hold \<Rightarrow> world \<Rightarrow> int \<times> error option \<times> world" where
  "walk_steps env cp prov k visited i h w =
     (if i < 0 \<or> num_steps k \<le> i then (-1, None, w)
      else if i \<in> set visited then (-1, None, w)
      else let s = step_at k i; (t, w) = now env w in
        if \<not> allows (step_when s) t (int (length (hold_attendees h)))
        then walk_steps env cp prov k (i # visited) (next_step k i []) h w
        else if waits (step_verb s) then (i, None, w)
        else case exec_step env cp prov k i h w of
               (StepFailed e, w) \<Rightarrow> (i, Some e, w)
             | (StepEnd, w) \<Rightarrow> (-1, None, w)
             | (StepNext, w) \<Rightarrow> walk_steps env cp prov k (i # visited) (next_step k i []) h w)"
  by pat_completeness auto

lemma unvisited_decreases:
  "\<not> (i < 0 \<or> n \<le> i) \<Longrightarrow> i \<notin> V \<Longrightarrow> card ({0..<n} - insert i V) < card ({0..<n :: int} - V)"
proof (rule psubset_card_mono)
  assume "\<not> (i < 0 \<or> n \<le> i)" "i \<notin> V"
  then have "i \<in> {0..<n} - V" by simp
  then show "{0..<n} - insert i V \<subset> {0..<n} - V" by blast
qed simp

termination walk_steps
  by (relation "measure (\<lambda>(env, cp, prov, k, visited, i, h, w). card ({0..<num_steps k} - set visited))")
    (auto simp del: card_Diff_insert intro!: unvisited_decreases)

declare walk_steps.simps [simp del]

section \<open>Starting a run\<close>

record run_options =
  opt_provider :: string
  opt_tz :: string
  opt_subject :: string
  opt_body :: string
  opt_manager :: string
  opt_attendees :: string
  opt_start :: gotime
  opt_end :: gotime
  opt_all_day :: bool
  opt_watch :: bool
  opt_dry_run :: bool

definition create_show_as :: "step \<Rightarrow> show_as" where
  "create_show_as s =
     (if step_show_as s \<noteq> ShowUnset then step_show_as s
      else case step_verb s of VerbAway \<Rightarrow> ShowOOF | VerbEvent \<Rightarrow> ShowBusy | _ \<Rightarrow> ShowFree)"

definition default_subject :: "workflow \<Rightarrow> string" where
  "default_subject k = (if step_verb (step_at k 0) = VerbEvent then [] else ''Out of office'')"

definition gate_item :: "string \<Rightarrow> workflow \<Rightarrow> int \<Rightarrow> hold \<Rightarrow> gotime \<Rightarrow> watch_item" where
  "gate_item prov k i h t =
     \<lparr>wi_provider = prov, wi_hold_id = hold_id h, wi_workflow = wf_name k, wi_step = i, wi_resume = 0,
      wi_done = False,
      wi_approver = (if step_verb (step_at k i) = VerbWait then [] else att_email (manager_attendee h)),
      wi_subject = hold_subject h, wi_created = t\<rparr>"

definition gate_waiting :: "env \<Rightarrow> string \<Rightarrow> workflow \<Rightarrow> int \<Rightarrow> hold \<Rightarrow> bool \<Rightarrow> world \<Rightarrow> error option \<times> world" where
  "gate_waiting env prov k i h watch w =
     (if \<not> watch then (None, w)
      else let (t, w) = now env w in
        case w_add_watch env (gate_item prov k i h t) w of
          (Some e, w) \<Rightarrow> (Some (Errorf ''add watch'' [e]), w)
        | (None, w) \<Rightarrow> (None, w))"

definition run_steps ::
  "env \<Rightarrow> watch_item option \<Rightarrow> string \<Rightarrow> workflow \<Rightarrow> int \<Rightarrow> hold \<Rightarrow> bool \<Rightarrow> world \<Rightarrow> error option \<times> world" where
  "run_steps env cp prov k from_step h watch w =
     (case walk_steps env cp prov k [] from_step h w of
        (gate, Some e, w) \<Rightarrow> (Some e, w)
      | (gate, None, w) \<Rightarrow> (if 0 \<le> gate then gate_waiting env prov k gate h watch w else (None, w)))"

text \<open>The hold the first step defines, with its approver or attendees.\<close>

definition initial_hold :: "env \<Rightarrow> workflow \<Rightarrow> run_options \<Rightarrow> world \<Rightarrow> hold result \<times> world" where
  "initial_hold env k opt w =
     (let create = step_at k 0;
          h = \<lparr>hold_id = [], hold_subject = opt_subject opt, hold_body = opt_body opt, hold_start = opt_start opt,
               hold_end = opt_end opt, hold_all_day = opt_all_day opt, hold_show_as = create_show_as create,
               hold_attendees = []\<rparr>
      in case step_verb create of
           VerbHold \<Rightarrow>
             (if has_verb k VerbApprove
              then (case resolve_approver env (first_approve_step k) (opt_manager opt) w of
                      (Inl e, w) \<Rightarrow> (Inl e, w)
                    | (Inr a, w) \<Rightarrow> (Inr (h\<lparr>hold_attendees := [invite a RoleRequired]\<rparr>), w))
              else (Inr h, w))
         | VerbEvent \<Rightarrow>
             (if opt_subject opt = [] then (Inl (Errorf (''an event workflow needs --subject: '' @ wf_name k) []), w)
              else (Inr (h\<lparr>hold_attendees := attendees_from_csv (e_address env) (opt_attendees opt)\<rparr>), w))
         | _ \<Rightarrow> (Inr h, w))"

definition run_workflow_on :: "env \<Rightarrow> string \<Rightarrow> workflow \<Rightarrow> run_options \<Rightarrow> world \<Rightarrow> error option \<times> world" where
  "run_workflow_on env prov k opt w =
     (case initial_hold env k opt w of
        (Inl e, w) \<Rightarrow> (Some e, w)
      | (Inr h, w) \<Rightarrow>
          (if opt_dry_run opt then (None, w)
           else case prov_create env h w of
             (Inl e, w) \<Rightarrow> (Some (Errorf ''create hold'' [e]), w)
           | (Inr created, w) \<Rightarrow>
               (case w_save_state env \<lparr>ref_provider = prov, ref_id = hold_id created\<rparr> w of
                  (Some e, w) \<Rightarrow> (Some (Errorf ''save state'' [e]), w)
                | (None, w) \<Rightarrow>
                    (let w = record_audit env (step_event k prov created ActionCreated []) w;
                         w = (if step_verb (step_at k 0) \<noteq> VerbEvent then w_record_coverage env created w else w)
                     in run_steps env None prov k (next_step k 0 []) created (opt_watch opt) w))))"

text \<open>\<open>executeWorkflow\<close> and \<open>createHold\<close>: the provider is built first; \<open>prov_err\<close> is its failure.\<close>

definition execute_workflow ::
  "env \<Rightarrow> (string \<Rightarrow> error option) \<Rightarrow> workflow \<Rightarrow> run_options \<Rightarrow> world \<Rightarrow> error option \<times> world" where
  "execute_workflow env prov_err k opt w =
     (let name = resolve_provider (e_getenv env) (opt_provider opt) in
      case prov_err name of
        Some e \<Rightarrow> (Some e, w)
      | None \<Rightarrow> run_workflow_on env name k opt w)"

definition started_message :: "workflow \<Rightarrow> hold \<Rightarrow> string" where
  "started_message k h =
     (case step_verb (step_at k 0) of
        VerbAway \<Rightarrow> ''Marked out of office. Hold id: '' @ hold_id h
      | VerbEvent \<Rightarrow> ''Event created. Id: '' @ hold_id h
      | _ \<Rightarrow>
          (if has_verb k VerbApprove
           then ''Hold created and sent to '' @ att_email (manager_attendee h) @ '' for approval. Hold id: '' @ hold_id h
           else ''Hold created. Hold id: '' @ hold_id h))"

section \<open>The walk as a relation\<close>

text \<open>
  The walk without its set of visited steps: it stops only past the end of the flow, at a gate, at a
  failure or at a cancel. The list holds the steps whose action completed, in order.
\<close>

definition allowed_at :: "env \<Rightarrow> workflow \<Rightarrow> int \<Rightarrow> hold \<Rightarrow> world \<Rightarrow> bool" where
  "allowed_at env k i h w \<longleftrightarrow> allows (step_when (step_at k i)) (e_now env (w_tick w)) (int (length (hold_attendees h)))"

definition in_range :: "workflow \<Rightarrow> int \<Rightarrow> bool" where
  "in_range k i \<longleftrightarrow> 0 \<le> i \<and> i < num_steps k"

inductive walks ::
  "env \<Rightarrow> watch_item option \<Rightarrow> string \<Rightarrow> workflow \<Rightarrow> hold \<Rightarrow> int \<Rightarrow> world \<Rightarrow> int list \<Rightarrow> int \<times> error option \<times> world \<Rightarrow> bool"
  for env cp prov k h where
  walks_end: "\<not> in_range k i \<Longrightarrow> walks env cp prov k h i w [] (-1, None, w)"
| walks_skip: "in_range k i \<Longrightarrow> \<not> allowed_at env k i h w \<Longrightarrow>
    walks env cp prov k h (next_step k i []) (tick w) xs r \<Longrightarrow> walks env cp prov k h i w xs r"
| walks_gate: "in_range k i \<Longrightarrow> allowed_at env k i h w \<Longrightarrow> waits (step_verb (step_at k i)) \<Longrightarrow>
    walks env cp prov k h i w [] (i, None, tick w)"
| walks_fail: "in_range k i \<Longrightarrow> allowed_at env k i h w \<Longrightarrow> \<not> waits (step_verb (step_at k i)) \<Longrightarrow>
    exec_step env cp prov k i h (tick w) = (StepFailed e, w') \<Longrightarrow> walks env cp prov k h i w [] (i, Some e, w')"
| walks_cancel: "in_range k i \<Longrightarrow> allowed_at env k i h w \<Longrightarrow> \<not> waits (step_verb (step_at k i)) \<Longrightarrow>
    exec_step env cp prov k i h (tick w) = (StepEnd, w') \<Longrightarrow> walks env cp prov k h i w [i] (-1, None, w')"
| walks_next: "in_range k i \<Longrightarrow> allowed_at env k i h w \<Longrightarrow> \<not> waits (step_verb (step_at k i)) \<Longrightarrow>
    exec_step env cp prov k i h (tick w) = (StepNext, w') \<Longrightarrow> walks env cp prov k h (next_step k i []) w' xs r \<Longrightarrow>
    walks env cp prov k h i w (i # xs) r"

inductive_cases walks_gate_elim: "walks env cp prov k h i w xs (g, None, w')"
inductive_cases walks_fail_elim: "walks env cp prov k h i w xs (g, Some e, w')"

lemma walk_steps_stop: "\<not> in_range k i \<or> i \<in> set V \<Longrightarrow> walk_steps env cp prov k V i h w = (-1, None, w)"
  by (subst walk_steps.simps) (auto simp: in_range_def)

lemma walk_steps_go:
  "in_range k i \<Longrightarrow> i \<notin> set V \<Longrightarrow> walk_steps env cp prov k V i h w =
     (if \<not> allowed_at env k i h w then walk_steps env cp prov k (i # V) (next_step k i []) h (tick w)
      else if waits (step_verb (step_at k i)) then (i, None, tick w)
      else case exec_step env cp prov k i h (tick w) of
             (StepFailed e, w) \<Rightarrow> (i, Some e, w)
           | (StepEnd, w) \<Rightarrow> (-1, None, w)
           | (StepNext, w) \<Rightarrow> walk_steps env cp prov k (i # V) (next_step k i []) h w)"
  by (subst walk_steps.simps) (auto simp: in_range_def allowed_at_def now_def Let_def)

lemma allows_no_guard [simp]: "allows no_guard t n"
  by (simp add: allows_def no_guard_def)

text \<open>What running needs of a validated workflow: gates are unguarded and the flow has no cycle.\<close>

definition runnable :: "workflow \<Rightarrow> bool" where
  "runnable k \<longleftrightarrow> wf_steps k \<noteq> [] \<and> acyclic (jump_rel k) \<and>
     (\<forall>i. in_range k i \<and> waits (step_verb (step_at k i)) \<longrightarrow> step_when (step_at k i) = no_guard)"

lemma well_formed_runnable: "well_formed k \<Longrightarrow> runnable k"
  by (auto simp: well_formed_def runnable_def step_ok_def in_range_def)

lemma gate_allowed: "runnable k \<Longrightarrow> in_range k i \<Longrightarrow> waits (step_verb (step_at k i)) \<Longrightarrow> allowed_at env k i h w"
  by (simp add: runnable_def allowed_at_def)

lemma next_step_in_range: "in_range k (next_step k i []) \<longleftrightarrow> 0 \<le> next_step k i []"
  using next_step_valid by (auto simp: in_range_def)

lemma next_jump:
  assumes "in_range k i" and "\<not> waits (step_verb (step_at k i))" and "in_range k (next_step k i [])"
  shows "(nat i, nat (next_step k i [])) \<in> jump_rel k"
  using assms next_step_jump[of k i] by (auto simp: jump_rel_def in_range_def waits_def)

definition leads_to :: "workflow \<Rightarrow> int list \<Rightarrow> int \<Rightarrow> bool" where
  "leads_to k V i \<longleftrightarrow> (in_range k i \<longrightarrow> (\<forall>v \<in> set V. 0 \<le> v \<and> (nat v, nat i) \<in> (jump_rel k)\<^sup>+))"

lemma leads_to_next:
  assumes "leads_to k V i" and "in_range k i" and "\<not> waits (step_verb (step_at k i))"
  shows "leads_to k (i # V) (next_step k i [])"
proof -
  have "(nat i, nat (next_step k i [])) \<in> (jump_rel k)\<^sup>+" if "in_range k (next_step k i [])"
    using next_jump[OF assms(2,3) that] by blast
  then show ?thesis
    using assms(1,2) unfolding leads_to_def by (auto simp: in_range_def intro: trancl_trans)
qed

lemma leads_to_unvisited: "runnable k \<Longrightarrow> leads_to k V i \<Longrightarrow> in_range k i \<Longrightarrow> i \<notin> set V"
  by (auto simp: leads_to_def runnable_def acyclic_def)

lemma walk_steps_walks:
  "runnable k \<Longrightarrow> leads_to k V i \<Longrightarrow> \<exists>xs. walks env cp prov k h i w xs (walk_steps env cp prov k V i h w)"
proof (induction "card ({0..<num_steps k} - set V)" arbitrary: V i w rule: less_induct)
  case less
  show ?case
  proof (cases "in_range k i")
    case False
    then show ?thesis by (auto simp: walk_steps_stop intro: walks_end)
  next
    case True
    have new: "i \<notin> set V" using leads_to_unvisited[OF less.prems True] .
    have smaller: "card ({0..<num_steps k} - set (i # V)) < card ({0..<num_steps k} - set V)"
      using unvisited_decreases[of i "num_steps k" "set V"] True new by (simp add: in_range_def)
    have IH: "\<exists>xs. walks env cp prov k h (next_step k i []) w2 xs
        (walk_steps env cp prov k (i # V) (next_step k i []) h w2)"
      if "\<not> waits (step_verb (step_at k i))" for w2
      using less.hyps[OF smaller less.prems(1) leads_to_next[OF less.prems(2) True that]] .
    show ?thesis
    proof (cases "allowed_at env k i h w")
      case False
      then have "\<not> waits (step_verb (step_at k i))" using gate_allowed[OF less.prems(1) True] by blast
      then obtain xs where xs: "walks env cp prov k h (next_step k i []) (tick w) xs
          (walk_steps env cp prov k (i # V) (next_step k i []) h (tick w))"
        using IH by blast
      have "walk_steps env cp prov k V i h w = walk_steps env cp prov k (i # V) (next_step k i []) h (tick w)"
        using walk_steps_go[OF True new] False by simp
      then show ?thesis using walks_skip[OF True False xs] by auto
    next
      case allowed: True
      show ?thesis
      proof (cases "waits (step_verb (step_at k i))")
        case True
        then show ?thesis
          using walks_gate[OF \<open>in_range k i\<close> allowed True] walk_steps_go[OF \<open>in_range k i\<close> new] allowed by auto
      next
        case False
        obtain r w2 where ex: "exec_step env cp prov k i h (tick w) = (r, w2)" by fastforce
        show ?thesis
          using IH[OF False, of w2] walk_steps_go[OF True new] True allowed False ex
          by (cases r) (auto intro: walks_fail walks_cancel walks_next)
      qed
    qed
  qed
qed

lemma walk_steps_result:
  "runnable k \<Longrightarrow> \<exists>xs. walks env cp prov k h i w xs (walk_steps env cp prov k [] i h w)"
  by (rule walk_steps_walks) (simp_all add: leads_to_def)

section \<open>What the walk returns\<close>

lemma walks_stops:
  "walks env cp prov k h i w xs r \<Longrightarrow> r = (g, err, w') \<Longrightarrow>
     (err = None \<and> g = -1) \<or> (in_range k g \<and> (err = None \<longleftrightarrow> waits (step_verb (step_at k g))))"
  by (induction rule: walks.induct) auto

lemma walks_executed:
  "walks env cp prov k h i w xs r \<Longrightarrow> x \<in> set xs \<Longrightarrow> in_range k x \<and> \<not> waits (step_verb (step_at k x))"
  by (induction rule: walks.induct) auto

section \<open>The effects of the walk\<close>

text \<open>The effects a completed step may leave: its own action, on this hold.\<close>

definition step_block :: "env \<Rightarrow> workflow \<Rightarrow> hold \<Rightarrow> int \<Rightarrow> effect list \<Rightarrow> bool" where
  "step_block env k h i b \<longleftrightarrow>
     (let s = step_at k i in
      case step_verb s of
        VerbNotify \<Rightarrow> b = [] \<or> (\<exists>team. b = [Updated (with_team h team)])
      | VerbNote \<Rightarrow> b = [Created (note_hold s h)]
      | VerbMessage \<Rightarrow> b = [Posted (step_channel s) (message_text s h)]
      | VerbLeave \<Rightarrow> b = [Filed (step_leave env s h)]
      | VerbCancel \<Rightarrow> b = [Deleted (hold_id h)]
      | _ \<Rightarrow> b = [])"

lemma checkpoint_at_frame [simp, frame]:
  "w_trace (checkpoint_at env cp r w) = w_trace w" "w_state (checkpoint_at env cp r w) = w_state w"
  "w_audit (checkpoint_at env cp r w) = w_audit w" "w_ledger (checkpoint_at env cp r w) = w_ledger w"
  by (simp_all add: checkpoint_at_def split: option.splits)

lemma finish_step_cases:
  "finish_step env cp ev n r = (StepFailed e, w') \<longleftrightarrow> r = (Some e, w')"
  "finish_step env cp ev n r = (StepNext, w') \<longleftrightarrow>
     (\<exists>w. r = (None, w) \<and> w' = checkpoint_at env cp n (record_audit env ev w))"
  "finish_step env cp ev n r \<noteq> (StepEnd, w')"
  by (auto simp: finish_step_def split: prod.splits option.splits)

lemma action_watches:
  "promote_hold env h w = (r, w') \<Longrightarrow> w_watches w' = w_watches w"
  "create_note env s h w = (r, w') \<Longrightarrow> w_watches w' = w_watches w"
  "send_message env s h w = (r, w') \<Longrightarrow> w_watches w' = w_watches w"
  "file_leave env s h w = (r, w') \<Longrightarrow> w_watches w' = w_watches w"
  by (metis promote_hold_frame(1) snd_conv) (metis create_note_frame(1) snd_conv,
      metis send_message_frame(1) snd_conv, metis file_leave_frame(1) snd_conv)

lemmas action_effects = promote_hold_effects create_note_effects send_message_effects file_leave_effects

lemma exec_step_failed: "exec_step env cp prov k i h w = (StepFailed e, w') \<Longrightarrow> w_trace w' = w_trace w"
  by (cases "step_verb (step_at k i)")
    (auto simp: exec_step_def Let_def finish_step_cases prov_delete_def split: option.splits prod.splits
      dest: action_effects)

lemma exec_step_next:
  "exec_step env cp prov k i h w = (StepNext, w') \<Longrightarrow> \<exists>b. step_block env k h i b \<and> w_trace w' = w_trace w @ b"
  by (cases "step_verb (step_at k i)")
    (auto simp: exec_step_def Let_def finish_step_cases step_block_def prov_delete_def split: option.splits prod.splits
      dest!: action_effects)

lemma exec_step_end:
  "exec_step env cp prov k i h w = (StepEnd, w') \<Longrightarrow>
     step_verb (step_at k i) = VerbCancel \<and> w_trace w' = w_trace w @ [Deleted (hold_id h)]"
  by (cases "step_verb (step_at k i)")
    (auto simp: exec_step_def Let_def finish_step_cases prov_delete_def split: option.splits prod.splits)

lemma walks_trace:
  "walks env cp prov k h i w xs r \<Longrightarrow> r = (g, err, w') \<Longrightarrow>
     \<exists>bs. list_all2 (step_block env k h) xs bs \<and> w_trace w' = w_trace w @ concat bs"
proof (induction arbitrary: g err w' rule: walks.induct)
  case (walks_fail i w e w2)
  then show ?case using exec_step_failed by fastforce
next
  case (walks_cancel i w w2)
  then have "step_block env k h i [Deleted (hold_id h)]" "w_trace w2 = w_trace w @ [Deleted (hold_id h)]"
    using exec_step_end[of env cp prov k i h "tick w" w2] by (auto simp: step_block_def)
  then show ?case using walks_cancel.prems by (intro exI[of _ "[[Deleted (hold_id h)]]"]) simp
next
  case (walks_next i w w2 xs r)
  obtain b where b: "step_block env k h i b" "w_trace w2 = w_trace w @ b"
    using exec_step_next[OF walks_next.hyps(4)] by auto
  obtain bs where bs: "list_all2 (step_block env k h) xs bs" "w_trace w' = w_trace w2 @ concat bs"
    using walks_next.IH[OF walks_next.prems] by blast
  show ?case using b bs by (intro exI[of _ "b # bs"]) simp
qed auto

section \<open>The steps the walk runs\<close>

text \<open>The executed steps follow the flow: every step comes after the one before it, none twice.\<close>

lemma walks_outside: "walks env cp prov k h i w xs r \<Longrightarrow> \<not> in_range k i \<Longrightarrow> xs = []"
  by (auto elim: walks.cases)

definition after_step :: "workflow \<Rightarrow> int \<Rightarrow> int \<Rightarrow> bool" where
  "after_step k a b \<longleftrightarrow> (nat a, nat b) \<in> (jump_rel k)\<^sup>+"

lemma after_step_next:
  assumes "in_range k i" "\<not> waits (step_verb (step_at k i))" "walks env cp prov k h (next_step k i []) w xs r"
    and "in_range k (next_step k i []) \<Longrightarrow> \<forall>x \<in> set xs. x = next_step k i [] \<or> after_step k (next_step k i []) x"
  shows "\<forall>x \<in> set xs. after_step k i x"
proof (cases "in_range k (next_step k i [])")
  case True
  from next_jump[OF assms(1,2) True] assms(4)[OF True] show ?thesis
    unfolding after_step_def by (metis r_into_trancl trancl_into_trancl2)
next
  case False
  then show ?thesis using walks_outside[OF assms(3)] by simp
qed

lemma walks_ordered:
  "walks env cp prov k h i w xs r \<Longrightarrow> runnable k \<Longrightarrow>
     (in_range k i \<longrightarrow> (\<forall>x \<in> set xs. x = i \<or> after_step k i x)) \<and> sorted_wrt (after_step k) xs"
proof (induction rule: walks.induct)
  case (walks_skip i w xs r)
  then have "\<not> waits (step_verb (step_at k i))" using gate_allowed by blast
  then show ?case
    using after_step_next[OF walks_skip.hyps(1) _ walks_skip.hyps(3)] walks_skip.IH walks_skip.prems by blast
next
  case (walks_next i w w2 xs r)
  then show ?case using after_step_next[OF walks_next.hyps(1,3,5)] by auto
qed auto

lemma walks_distinct: "walks env cp prov k h i w xs r \<Longrightarrow> runnable k \<Longrightarrow> distinct xs"
proof -
  assume w: "walks env cp prov k h i w xs r" and k: "runnable k"
  have "\<not> after_step k a a" for a using k by (auto simp: runnable_def acyclic_def after_step_def)
  then show ?thesis
    using walks_ordered[OF w k] by (induction xs) auto
qed

section \<open>What the walk leaves in the watch file\<close>

text \<open>
  Without a checkpoint the walk writes the watch file only to forget a canceled hold. With one, and
  with writes that succeed, the file holds the progress after the last completed step.
\<close>

definition writes_ok :: "env \<Rightarrow> bool" where
  "writes_ok env \<longleftrightarrow> (\<forall>n. e_write env n = None) \<and> e_watch_path env = None"

definition watch_of :: "world \<Rightarrow> string \<times> string \<Rightarrow> watch_item option" where
  "watch_of w key = (case read_file [] (w_watches w) of Inl e \<Rightarrow> None | Inr ws \<Rightarrow> find_watch ws key)"

lemma watch_of_tick [simp]: "watch_of (tick w) key = watch_of w key"
  by (simp add: watch_of_def)

definition readable :: "world \<Rightarrow> bool" where
  "readable w \<longleftrightarrow> (\<exists>ws. read_file [] (w_watches w) = Inr ws)"

lemma w_add_watch_ok:
  assumes "writes_ok env" and "readable w"
  shows "readable (snd (w_add_watch env item w))"
    and "watch_of (snd (w_add_watch env item w)) key = (if key = watch_key item then Some item else watch_of w key)"
proof -
  obtain ws where ws: "read_file [] (w_watches w) = Inr ws" using assms(2) by (auto simp: readable_def)
  then have "add_watch (e_watch_path env) (e_write env (w_tick w)) item (w_watches w) = (None, Content (put_watch item ws))"
    using assms(1) by (simp add: add_watch_success writes_ok_def)
  then have "w_watches (snd (w_add_watch env item w)) = Content (put_watch item ws)"
    by (simp add: w_add_watch_def)
  then show "readable (snd (w_add_watch env item w))"
    and "watch_of (snd (w_add_watch env item w)) key = (if key = watch_key item then Some item else watch_of w key)"
    using ws watches.look_put[of item ws key] by (simp_all add: readable_def watch_of_def)
qed

lemma w_remove_watch_ok:
  assumes "writes_ok env" and "readable w"
  shows "readable (snd (w_remove_watch env p h w))"
    and "watch_of (snd (w_remove_watch env p h w)) key = (if key = (p, h) then None else watch_of w key)"
proof -
  obtain ws where ws: "read_file [] (w_watches w) = Inr ws" using assms(2) by (auto simp: readable_def)
  then have "remove_watch (e_watch_path env) (e_write env (w_tick w)) p h (w_watches w) = (None, Content (drop_watch (p, h) ws))"
    using assms(1) by (simp add: remove_watch_success writes_ok_def)
  then have "w_watches (snd (w_remove_watch env p h w)) = Content (drop_watch (p, h) ws)"
    by (simp add: w_remove_watch_def)
  then show "readable (snd (w_remove_watch env p h w))"
    and "watch_of (snd (w_remove_watch env p h w)) key = (if key = (p, h) then None else watch_of w key)"
    using ws watches.look_drop[of "(p, h)" ws key] by (simp_all add: readable_def watch_of_def)
qed

lemma checkpoint_item_key [simp]: "watch_key (checkpoint_item item r) = watch_key item"
  by (simp add: checkpoint_item_def watch_key_def)

lemma checkpoint_at_ok:
  assumes "writes_ok env" and "readable w"
  shows "readable (checkpoint_at env (Some item) r w)"
    and "watch_of (checkpoint_at env (Some item) r w) (watch_key item) = Some (checkpoint_item item r)"
  using w_add_watch_ok[OF assms] by (simp_all add: checkpoint_at_def)

lemma watch_of_cong: "w_watches w = w_watches w' \<Longrightarrow> watch_of w key = watch_of w' key \<and> readable w = readable w'"
  by (simp add: watch_of_def readable_def)

lemma finish_step_checkpoint:
  assumes "finish_step env (Some item) ev n a = (r, w')" and "w_watches (snd a) = w_watches w"
    and "writes_ok env" and "readable w"
  shows "readable w' \<and> (r = StepNext \<longrightarrow> watch_of w' (watch_key item) = Some (checkpoint_item item n))
    \<and> (r \<noteq> StepNext \<longrightarrow> watch_of w' (watch_key item) = watch_of w (watch_key item)) \<and> r \<noteq> StepEnd"
proof (cases "fst a")
  case None
  let ?w = "record_audit env ev (snd a)"
  have "readable ?w" using assms(2,4) watch_of_cong[of ?w w] by simp
  from checkpoint_at_ok[OF assms(3) this] None assms(1) show ?thesis
    by (cases a) (auto simp: finish_step_def)
next
  case (Some e)
  with assms(1) have "r = StepFailed e" "w' = snd a" by (cases a; simp add: finish_step_def)+
  then show ?thesis using watch_of_cong[OF assms(2)] assms(4) by simp
qed

definition acting :: "workflow \<Rightarrow> int \<Rightarrow> bool" where
  "acting k i \<longleftrightarrow> step_verb (step_at k i) \<in> {VerbNotify, VerbNote, VerbMessage, VerbLeave, VerbCancel}"

text \<open>What one step leaves in the watch file for its own hold.\<close>

definition resume_of :: "workflow \<Rightarrow> int \<Rightarrow> int" where
  "resume_of k i = (if step_verb (step_at k i) = VerbCancel then -1 else next_step k i [])"

lemma exec_step_checkpoint:
  assumes ex: "exec_step env (Some item) prov k i h w = (r, w')" and ok: "writes_ok env" "readable w"
  shows "readable w' \<and> (r = StepEnd \<longrightarrow> acting k i)
    \<and> watch_of w' (watch_key item) =
       (if (\<exists>e. r = StepFailed e) \<or> \<not> acting k i then watch_of w (watch_key item)
        else Some (checkpoint_item item (resume_of k i)))"
proof -
  have fin: ?thesis
    if "finish_step env (Some item) ev (next_step k i []) a = (r, w')" and "w_watches (snd a) = w_watches w"
      and "acting k i" and "step_verb (step_at k i) \<noteq> VerbCancel" for ev a
    using finish_step_checkpoint[OF that(1,2) ok] that(3,4) by (cases r) (auto simp: resume_of_def)
  show ?thesis
  proof (cases "step_verb (step_at k i)")
    case VerbNotify
    with ex show ?thesis by (intro fin) (auto simp: exec_step_def acting_def Let_def)
  next
    case VerbNote
    with ex show ?thesis by (intro fin) (auto simp: exec_step_def acting_def Let_def)
  next
    case VerbMessage
    with ex show ?thesis by (intro fin) (auto simp: exec_step_def acting_def Let_def)
  next
    case VerbLeave
    with ex show ?thesis by (intro fin) (auto simp: exec_step_def acting_def Let_def)
  next
    case VerbCancel
    obtain d w1 where d: "prov_delete env (hold_id h) w = (d, w1)" by fastforce
    then have w1: "w_watches w1 = w_watches w" by (auto simp: prov_delete_def split: option.splits)
    show ?thesis
    proof (cases d)
      case None
      let ?ref = "\<lparr>ref_provider = prov, ref_id = hold_id h\<rparr>"
      let ?w2 = "record_audit env (step_event k prov h ActionCanceled []) (forget_hold env ?ref w1)"
      have "readable w1" using watch_of_cong[OF w1] ok(2) by blast
      then have "readable ?w2"
        using w_remove_watch_ok(1)[OF ok(1), of w1 prov "hold_id h"]
          watch_of_cong[of ?w2 "snd (w_remove_watch env prov (hold_id h) w1)"] by simp
      from checkpoint_at_ok[OF ok(1) this, of item "-1"] None VerbCancel ex d show ?thesis
        by (auto simp: exec_step_def Let_def acting_def resume_of_def)
    next
      case (Some e)
      with VerbCancel ex d watch_of_cong[OF w1] ok(2) show ?thesis
        by (auto simp: exec_step_def Let_def)
    qed
  qed (use ex ok(2) in \<open>auto simp: exec_step_def acting_def\<close>)
qed

lemma walks_checkpoint:
  "walks env (Some item) prov k h i w xs r \<Longrightarrow> r = (g, err, w') \<Longrightarrow> writes_ok env \<Longrightarrow> readable w \<Longrightarrow>
     \<forall>x \<in> set xs. acting k x \<Longrightarrow>
     readable w' \<and> watch_of w' (watch_key item) =
       (if xs = [] then watch_of w (watch_key item) else Some (checkpoint_item item (resume_of k (last xs))))"
proof (induction arbitrary: g err w' rule: walks.induct)
  case (walks_skip i w xs r)
  have "readable (tick w)" using walks_skip.prems(3) watch_of_cong[of "tick w" w] by simp
  then show ?case using walks_skip.IH[OF walks_skip.prems(1,2) _ walks_skip.prems(4)] by simp
next
  case (walks_gate i w)
  then show ?case using watch_of_cong[of "tick w" w] by auto
next
  case (walks_fail i w e w2)
  have "readable (tick w)" using walks_fail.prems(3) watch_of_cong[of "tick w" w] by simp
  from exec_step_checkpoint[OF walks_fail.hyps(4) walks_fail.prems(2) this] walks_fail.prems(1)
  show ?case by simp
next
  case (walks_cancel i w w2)
  have "readable (tick w)" using walks_cancel.prems(3) watch_of_cong[of "tick w" w] by simp
  from exec_step_checkpoint[OF walks_cancel.hyps(4) walks_cancel.prems(2) this] walks_cancel.prems(1)
  show ?case by simp
next
  case (walks_next i w w2 xs r)
  have "readable (tick w)" using walks_next.prems(3) watch_of_cong[of "tick w" w] by simp
  from exec_step_checkpoint[OF walks_next.hyps(4) walks_next.prems(2) this] walks_next.prems(4)
  have w2: "readable w2" "watch_of w2 (watch_key item) = Some (checkpoint_item item (resume_of k i))"
    by simp_all
  then show ?case using walks_next.IH[OF walks_next.prems(1,2) w2(1)] walks_next.prems(4) by auto
qed auto

end
