(* ===== verification/Daemon.thy ===== *)
theory Daemon
  imports Run Loader
begin

text \<open>
  The daemon (\<open>cmd/daemon.go\<close>): each poll reads every watched hold, decides whether its gate has
  opened, runs the branch to the next gate, and writes back the list. \<open>ld\<close> is the workflow loader
  of \<open>Loader\<close>, \<open>prov_err\<close> a provider that cannot be built. Timeouts of a poll and the log are not
  modelled.
\<close>

section \<open>Gates\<close>

datatype poll_result =
    PollPending | PollApproved | PollAdvanced | PollDeclined | PollExpired | PollFailed | PollGone

definition gate_response :: "hold \<Rightarrow> watch_item \<Rightarrow> response" where
  "gate_response h item =
     (if wi_approver item = [] then att_response (manager_attendee h)
      else if approved_by h (wi_approver item) then ResponseAccepted
      else if declined_by h (wi_approver item) then ResponseDeclined
      else ResponseNotResponded)"

definition branch_start :: "workflow \<Rightarrow> step \<Rightarrow> string \<Rightarrow> int" where
  "branch_start k s outcome =
     (case map_of (step_on s) outcome of
        None \<Rightarrow> -1
      | Some target \<Rightarrow> if target = ''end'' then -1 else step_index k target)"

text \<open>The branch the gate opens: its first step and the result at its end, or \<open>None\<close> while waiting.\<close>

definition branch_plan :: "workflow \<Rightarrow> watch_item \<Rightarrow> hold \<Rightarrow> gotime \<Rightarrow> (int \<times> poll_result) option" where
  "branch_plan k item h t =
     (let pending = step_at k (wi_step item); waited = time_sub t (wi_created item) in
      if step_verb pending = VerbWait then
        (let d = parsed_for pending in
         if d \<le> 0 \<or> is_zero (wi_created item) \<or> waited < d then None
         else Some (next_step k (wi_step item) [], PollApproved))
      else case gate_response h item of
        ResponseAccepted \<Rightarrow> Some (next_step k (wi_step item) OutcomeAccepted, PollApproved)
      | ResponseDeclined \<Rightarrow> Some (branch_start k pending OutcomeDeclined, PollDeclined)
      | _ \<Rightarrow>
          (let d = parsed_timeout pending in
           if 0 < d \<and> \<not> is_zero (wi_created item) \<and> d < waited
           then Some (branch_start k pending OutcomeExpired, PollExpired) else None))"

definition gate_actor :: "hold \<Rightarrow> watch_item \<Rightarrow> string" where
  "gate_actor h item = (if wi_approver item \<noteq> [] then wi_approver item else att_email (manager_attendee h))"

definition outcome_action :: "poll_result \<Rightarrow> action" where
  "outcome_action r = (case r of PollDeclined \<Rightarrow> ActionDeclined | PollExpired \<Rightarrow> ActionExpired | _ \<Rightarrow> ActionApproved)"

definition item_event :: "workflow \<Rightarrow> watch_item \<Rightarrow> action \<Rightarrow> string \<Rightarrow> string \<Rightarrow> event" where
  "item_event k item a actor detail =
     \<lparr>ev_time = zero_time, ev_workflow = wf_name k, ev_provider = wi_provider item, ev_hold_id = wi_hold_id item,
      ev_action = a, ev_actor = actor, ev_detail = detail\<rparr>"

definition record_gate_outcome :: "env \<Rightarrow> workflow \<Rightarrow> watch_item \<Rightarrow> hold \<Rightarrow> poll_result \<Rightarrow> world \<Rightarrow> world" where
  "record_gate_outcome env k item h on_end w =
     (if step_verb (step_at k (wi_step item)) = VerbWait then w
      else record_audit env (item_event k item (outcome_action on_end) (gate_actor h item) []) w)"

section \<open>Advancing a run\<close>

text \<open>
  The part of \<open>advanceToNextGate\<close> after the walk reached a gate: the item moves to the gate, a named
  approver is invited, and the advance recorded. \<open>item.Step\<close> is set before the invitation is sent
  and \<open>item.Approver\<close> after, so a failed invitation leaves the old approver on the new gate.
\<close>

definition enter_gate ::
  "env \<Rightarrow> workflow \<Rightarrow> watch_item \<Rightarrow> int \<Rightarrow> hold \<Rightarrow> world \<Rightarrow> poll_result \<times> watch_item \<times> error option \<times> world" where
  "enter_gate env k item gate h w =
     (let next = step_at k gate; (t, w) = now env w;
          item = item\<lparr>wi_step := gate, wi_created := t\<rparr>;
          advanced = (\<lambda>item w. (PollAdvanced, item, None,
            record_audit env (item_event k item ActionAdvanced [] (wi_approver item)) w))
      in if step_verb next = VerbApprove \<and> step_approver next \<noteq> []
         then (case prov_update env (invite_required h (email_person (step_approver next))) w of
                 (Inl e, w) \<Rightarrow> (PollFailed, item, Some (Errorf ''invite next approver'' [e]), w)
               | (Inr h', w) \<Rightarrow> advanced (item\<lparr>wi_approver := step_approver next\<rparr>) w)
         else advanced (item\<lparr>wi_approver := []\<rparr>) w)"

definition advance_to_next_gate ::
  "env \<Rightarrow> workflow \<Rightarrow> watch_item \<Rightarrow> hold \<Rightarrow> int \<Rightarrow> poll_result \<Rightarrow> world \<Rightarrow> poll_result \<times> watch_item \<times> error option \<times> world" where
  "advance_to_next_gate env k item h from_step on_end w =
     (case walk_steps env (Some item) (wi_provider item) k [] from_step h w of
        (gate, Some e, w) \<Rightarrow> (PollFailed, item\<lparr>wi_resume := gate\<rparr>, Some e, w)
      | (gate, None, w) \<Rightarrow>
          (if gate < 0 then (on_end, item\<lparr>wi_resume := 0\<rparr>, None, w)
           else enter_gate env k (item\<lparr>wi_resume := 0\<rparr>) gate h w))"

definition advance_run ::
  "env \<Rightarrow> (string \<Rightarrow> workflow result) \<Rightarrow> watch_item \<Rightarrow> world \<Rightarrow> poll_result \<times> watch_item \<times> error option \<times> world" where
  "advance_run env ld item w =
     (case ld (wi_workflow item) of
        Inl e \<Rightarrow> (PollFailed, item, Some e, w)
      | Inr k \<Rightarrow>
          (if wi_done item then (PollApproved, item, None, w)
           else case prov_get env (wi_hold_id item) w of
             (Inl e, w) \<Rightarrow>
               (if errors_is e ErrNotFound then (PollGone, item, None, w) else (PollFailed, item, Some e, w))
           | (Inr h, w) \<Rightarrow>
               (if wi_step item < 0 \<or> num_steps k \<le> wi_step item then (PollPending, item, None, w)
                else if 0 < wi_resume item
                then advance_to_next_gate env k item h (wi_resume item) PollApproved w
                else
                  (let (t, w) = now env w in
                   case branch_plan k item h t of
                     None \<Rightarrow> (PollPending, item, None, w)
                   | Some (from_step, on_end) \<Rightarrow>
                       (let w = record_gate_outcome env k item h on_end w;
                            w = checkpoint_at env (Some item) from_step w
                        in advance_to_next_gate env k item h from_step on_end w)))))"

section \<open>Polling every watch\<close>

text \<open>What becomes of one polled item: kept in the list (as updated) or dropped, and the coverage.\<close>

definition settle :: "env \<Rightarrow> watch_item \<Rightarrow> poll_result \<times> watch_item \<times> error option \<times> world \<Rightarrow> watch_item option \<times> world" where
  "settle env item r =
     (case r of (res, updated, err, w) \<Rightarrow>
        (case res of
           PollApproved \<Rightarrow> (None, w)
         | PollAdvanced \<Rightarrow> (Some updated, w)
         | PollDeclined \<Rightarrow> (None, w_forget_coverage env (wi_hold_id item) w)
         | PollExpired \<Rightarrow> (None, w)
         | PollPending \<Rightarrow> (Some updated, w)
         | PollFailed \<Rightarrow> (Some updated, w)
         | PollGone \<Rightarrow> (None, w_forget_coverage env (wi_hold_id item) w)))"

definition warn_key :: "watch_item \<Rightarrow> string" where
  "warn_key item = wi_provider item @ '':'' @ wi_hold_id item"

fun poll_items ::
  "env \<Rightarrow> (string \<Rightarrow> workflow result) \<Rightarrow> (string \<Rightarrow> error option) \<Rightarrow> bool \<Rightarrow> string list \<Rightarrow> watch_item list \<Rightarrow> world
     \<Rightarrow> watch_item list \<times> string list \<times> world" where
  "poll_items env ld prov_err prune warned [] w = ([], warned, w)"
| "poll_items env ld prov_err prune warned (item # items) w =
     (case prov_err (wi_provider item) of
        Some e \<Rightarrow>
          (if prune then poll_items env ld prov_err prune warned items w
           else case poll_items env ld prov_err prune
                      (if warn_key item \<in> set warned then warned else warn_key item # warned) items w of
                  (rest, warned, w) \<Rightarrow> (item # rest, warned, w))
      | None \<Rightarrow>
          (case settle env item (advance_run env ld item w) of
             (kept, w) \<Rightarrow>
               (case poll_items env ld prov_err prune warned items w of
                  (rest, warned, w) \<Rightarrow> ((case kept of None \<Rightarrow> rest | Some it \<Rightarrow> it # rest), warned, w))))"

definition poll_all ::
  "env \<Rightarrow> (string \<Rightarrow> workflow result) \<Rightarrow> (string \<Rightarrow> error option) \<Rightarrow> bool \<Rightarrow> string list \<Rightarrow> world \<Rightarrow> string list \<times> world" where
  "poll_all env ld prov_err prune warned w =
     (case w_load_watches env w of
        Inl e \<Rightarrow> (warned, w)
      | Inr [] \<Rightarrow> (warned, w)
      | Inr items \<Rightarrow>
          (case poll_items env ld prov_err prune warned items w of
             (remaining, warned, w) \<Rightarrow> (warned, snd (w_save_watches env remaining w))))"

section \<open>Gates that have not opened\<close>

lemma branch_start_resolve:
  "branch_start k s out = (case map_of (step_on s) out of None \<Rightarrow> -1 | Some t \<Rightarrow> resolve k t)"
  by (simp add: branch_start_def resolve_def split: option.splits)

text \<open>Every step a gate can open is a jump target, so validation has seen every run-time cycle.\<close>

lemma branch_start_jump:
  assumes "in_range k i" and "step_verb (step_at k i) = VerbApprove" and "0 \<le> branch_start k (step_at k i) out"
    and "out = OutcomeDeclined \<or> out = OutcomeExpired \<and> step_timeout (step_at k i) \<noteq> []"
  shows "branch_start k (step_at k i) out \<in> set (jump_targets k i)"
proof -
  obtain t where t: "map_of (step_on (step_at k i)) out = Some t"
    using assms(3) by (cases "map_of (step_on (step_at k i)) out") (auto simp: branch_start_def)
  have "out \<noteq> []" using assms(4) by auto
  with t assms(1) have "branch_start k (step_at k i) out = next_step k i out"
    by (simp add: branch_start_resolve next_step_def in_range_def Let_def)
  with assms show ?thesis by (auto simp: jump_targets_def Let_def set_add_target)
qed

lemma advance_run_pending:
  assumes "ld (wi_workflow item) = Inr k" and "\<not> wi_done item" and "wi_resume item \<le> 0"
    and "e_get env (w_tick w) (wi_hold_id item) = Inr h"
    and "branch_plan k item h (e_now env (Suc (w_tick w))) = None"
  shows "\<exists>w'. advance_run env ld item w = (PollPending, item, None, w')
    \<and> w_trace w' = w_trace w \<and> w_watches w' = w_watches w \<and> w_audit w' = w_audit w \<and> w_ledger w' = w_ledger w"
  using assms by (simp add: advance_run_def prov_get_def now_def not_less)

text \<open>When an approve gate opens, its approver accepted or declined, or its timeout passed.\<close>

lemma branch_plan_opened:
  assumes "branch_plan k item h t = Some (from_step, on_end)" and "step_verb (step_at k (wi_step item)) \<noteq> VerbWait"
  shows "(on_end = PollApproved \<and> gate_response h item = ResponseAccepted
        \<and> from_step = next_step k (wi_step item) OutcomeAccepted)
    \<or> (on_end = PollDeclined \<and> gate_response h item = ResponseDeclined
        \<and> from_step = branch_start k (step_at k (wi_step item)) OutcomeDeclined)
    \<or> (on_end = PollExpired \<and> gate_response h item \<noteq> ResponseAccepted \<and> gate_response h item \<noteq> ResponseDeclined
        \<and> 0 < parsed_timeout (step_at k (wi_step item))
        \<and> parsed_timeout (step_at k (wi_step item)) < time_sub t (wi_created item)
        \<and> from_step = branch_start k (step_at k (wi_step item)) OutcomeExpired)"
  using assms by (cases "gate_response h item") (auto simp: branch_plan_def Let_def split: if_splits)

lemma gate_accepted_attendee:
  "gate_response h item = ResponseAccepted \<Longrightarrow> wi_approver item \<noteq> [] \<Longrightarrow>
     \<exists>a \<in> set (hold_attendees h). equal_fold (att_email a) (wi_approver item) \<and> att_response a = ResponseAccepted"
  by (auto simp: gate_response_def approved_by_attendee split: if_splits)

section \<open>Entering a gate\<close>

lemma enter_gate_advanced:
  assumes "enter_gate env k item gate h w = (PollAdvanced, item', err, w')"
  shows "err = None \<and> wi_step item' = gate \<and> wi_resume item' = wi_resume item \<and> watch_key item' = watch_key item
    \<and> (if step_verb (step_at k gate) = VerbApprove \<and> step_approver (step_at k gate) \<noteq> []
       then wi_approver item' = step_approver (step_at k gate)
         \<and> w_trace w' = w_trace w @ [Updated (invite_required h (email_person (step_approver (step_at k gate))))]
       else wi_approver item' = [] \<and> w_trace w' = w_trace w)"
  using assms
  by (auto simp: enter_gate_def Let_def now_def prov_update_def watch_key_def split: if_splits sum.splits)

lemma enter_gate_failed:
  assumes "enter_gate env k item gate h w = (res, item', Some e, w')"
  shows "res = PollFailed \<and> wi_step item' = gate \<and> wi_approver item' = wi_approver item \<and> wi_resume item' = wi_resume item
    \<and> step_verb (step_at k gate) = VerbApprove \<and> step_approver (step_at k gate) \<noteq> [] \<and> w_trace w' = w_trace w
    \<and> watch_key item' = watch_key item"
  using assms
  by (auto simp: enter_gate_def Let_def now_def prov_update_def watch_key_def split: if_splits sum.splits)

lemma enter_gate_result: "fst (enter_gate env k item gate h w) \<in> {PollAdvanced, PollFailed}"
  by (auto simp: enter_gate_def Let_def now_def split: prod.splits sum.splits)

lemma enter_gate_item:
  "enter_gate env k item gate h w = (res, item', err, w') \<Longrightarrow>
     wi_step item' = gate \<and> wi_resume item' = wi_resume item \<and> wi_done item' = wi_done item
     \<and> watch_key item' = watch_key item \<and> w_watches w' = w_watches w"
  by (auto simp: enter_gate_def Let_def now_def prov_update_def watch_key_def split: if_splits sum.splits)

section \<open>What advancing returns\<close>

lemma advance_to_next_gate_cases:
  assumes "runnable k" and "advance_to_next_gate env k item h i oe w = (res, item', err, w')"
  obtains (ended) "res = oe" "err = None" "item' = item\<lparr>wi_resume := 0\<rparr>"
  | (failed) e g where "res = PollFailed" "err = Some e" "item' = item\<lparr>wi_resume := g\<rparr>" "in_range k g"
      "\<not> waits (step_verb (step_at k g))"
  | (gate) g w2 where "in_range k g" "waits (step_verb (step_at k g))"
      "enter_gate env k (item\<lparr>wi_resume := 0\<rparr>) g h w2 = (res, item', err, w')"
proof -
  obtain g e w2 where r: "walk_steps env (Some item) (wi_provider item) k [] i h w = (g, e, w2)"
    by (cases "walk_steps env (Some item) (wi_provider item) k [] i h w") auto
  then obtain xs where "walks env (Some item) (wi_provider item) k h i w xs (g, e, w2)"
    using walk_steps_result[OF assms(1), of env "Some item" "wi_provider item" h i w] by auto
  then have stop: "(e = None \<and> g = -1) \<or> (in_range k g \<and> (e = None \<longleftrightarrow> waits (step_verb (step_at k g))))"
    by (rule walks_stops) simp
  show thesis
  proof (cases e)
    case (Some err')
    then show thesis using assms(2) r stop by (intro failed[of err' g]) (auto simp: advance_to_next_gate_def)
  next
    case None
    show thesis
    proof (cases "g < 0")
      case True
      then show thesis using assms(2) r None by (intro ended) (auto simp: advance_to_next_gate_def)
    next
      case False
      then show thesis using assms(2) r None stop by (intro gate[of g w2]) (auto simp: advance_to_next_gate_def)
    qed
  qed
qed

text \<open>A run that advanced waits at a gate of the workflow, and its named approver was invited.\<close>

lemma advance_to_next_gate_advanced:
  assumes "runnable k" and "advance_to_next_gate env k item h i oe w = (PollAdvanced, item', err, w')" and "oe \<noteq> PollAdvanced"
  shows "in_range k (wi_step item') \<and> waits (step_verb (step_at k (wi_step item'))) \<and> wi_resume item' = 0
    \<and> (step_verb (step_at k (wi_step item')) = VerbApprove \<and> step_approver (step_at k (wi_step item')) \<noteq> [] \<longrightarrow>
         wi_approver item' = step_approver (step_at k (wi_step item'))
         \<and> Updated (invite_required h (email_person (wi_approver item'))) \<in> set (w_trace w'))"
  using assms(1,2)
proof (cases rule: advance_to_next_gate_cases)
  case ended
  then show ?thesis using assms(3) by simp
next
  case (gate g w2)
  from enter_gate_advanced[OF gate(3)] gate(1,2) show ?thesis by (auto split: if_splits)
qed simp

text \<open>
  A failed invitation: the item is already at the new gate but still names the approver of the old
  one, so the next poll reads the old approver's acceptance as this gate's.
\<close>

lemma failed_invite_reuses_approval:
  assumes "runnable k" and "advance_to_next_gate env k item h i oe w = (PollFailed, item', Some e, w')"
    and "wi_step item' \<noteq> wi_step item" and "wi_approver item \<noteq> []" and "approved_by h2 (wi_approver item)"
  shows "step_verb (step_at k (wi_step item')) = VerbApprove \<and> step_approver (step_at k (wi_step item')) \<noteq> []
    \<and> wi_resume item' = 0 \<and> wi_approver item' = wi_approver item
    \<and> branch_plan k item' h2 t = Some (next_step k (wi_step item') OutcomeAccepted, PollApproved)"
  using assms(1,2)
proof (cases rule: advance_to_next_gate_cases)
  case (failed e g)
  with assms(3) show ?thesis by simp
next
  case (gate g w2)
  from enter_gate_failed[OF gate(3)] assms(4,5) show ?thesis
    by (simp add: branch_plan_def Let_def gate_response_def)
qed simp

text \<open>
  A declined branch that is resumed after a failure is reported as approved, so the coverage of the
  declined time off is not forgotten.
\<close>

lemma resumed_never_declined:
  assumes "ld (wi_workflow item) = Inr k" and "runnable k" and "0 < wi_resume item"
  shows "fst (advance_run env ld item w) \<noteq> PollDeclined"
proof -
  have "fst (advance_to_next_gate env k item h i PollApproved w2) \<noteq> PollDeclined" for h i w2
  proof -
    obtain res item' err w' where r: "advance_to_next_gate env k item h i PollApproved w2 = (res, item', err, w')"
      by (cases "advance_to_next_gate env k item h i PollApproved w2") auto
    from assms(2) r show ?thesis
    proof (cases rule: advance_to_next_gate_cases)
      case (gate g w3)
      then show ?thesis using enter_gate_result[of env k "item\<lparr>wi_resume := 0\<rparr>" g h w3] r by auto
    qed (use r in auto)
  qed
  then show ?thesis
    using assms by (auto simp: advance_run_def prov_get_def split: sum.splits)
qed

section \<open>One poll of the list\<close>

definition loads_runnable :: "(string \<Rightarrow> workflow result) \<Rightarrow> bool" where
  "loads_runnable ld \<longleftrightarrow> (\<forall>n k. ld n = Inr k \<longrightarrow> runnable k)"

lemma loader_runnable: "loads_runnable (Loader.load b u)"
  using load_parsed well_formed_runnable by (fastforce simp: loads_runnable_def)

lemma settle_keeps_key:
  assumes "watch_key item' = watch_key item" and "settle env item (res, item', err, w) = (Some it, w')"
  shows "watch_key it = watch_key item"
  using assms by (auto simp: settle_def split: poll_result.splits)

lemma advance_to_next_gate_key:
  assumes "runnable k" and "advance_to_next_gate env k item h i oe w = (res, item', err, w')"
  shows "watch_key item' = watch_key item"
  using assms
proof (cases rule: advance_to_next_gate_cases)
  case (gate g w2)
  then show ?thesis using enter_gate_item[OF gate(3)] by (simp add: watch_key_def)
qed (auto simp: watch_key_def)

lemma advance_run_key:
  assumes "loads_runnable ld" and "advance_run env ld item w = (res, item', err, w')"
  shows "watch_key item' = watch_key item"
  using assms(2)
  by (auto simp: advance_run_def Let_def now_def prov_get_def split: sum.splits if_splits option.splits
      dest: advance_to_next_gate_key[OF assms(1)[unfolded loads_runnable_def, rule_format]])

lemma poll_items_keys:
  assumes "loads_runnable ld"
  shows "poll_items env ld prov_err prune warned items w = (rest, warned', w') \<Longrightarrow>
     set (map watch_key rest) \<subseteq> set (map watch_key items)"
proof (induction items arbitrary: warned w rest warned' w')
  case (Cons item items)
  show ?case
  proof (cases "prov_err (wi_provider item)")
    case (Some e)
    then obtain wn rest2 where "poll_items env ld prov_err prune wn items w = (rest2, warned', w')"
      and "rest = rest2 \<or> rest = item # rest2"
      using Cons.prems by (cases prune) (auto split: prod.splits)
    then show ?thesis using Cons.IH by fastforce
  next
    case None
    obtain res item' err w1 where adv: "advance_run env ld item w = (res, item', err, w1)"
      by (cases "advance_run env ld item w") auto
    obtain kept w2 where st: "settle env item (res, item', err, w1) = (kept, w2)" by fastforce
    obtain rest2 where "poll_items env ld prov_err prune warned items w2 = (rest2, warned', w')"
      and "rest = (case kept of None \<Rightarrow> rest2 | Some it \<Rightarrow> it # rest2)"
      using Cons.prems None adv st by (auto split: prod.splits)
    then show ?thesis
      using Cons.IH settle_keeps_key[OF advance_run_key[OF assms adv]] st by (fastforce split: option.splits)
  qed
qed simp

text \<open>
  The list a poll writes back holds only the watches it had loaded: a watch another process added
  while the poll ran is lost.
\<close>

lemma poll_save_loses_added:
  assumes ld: "loads_runnable ld"
    and poll: "poll_items env ld prov_err prune warned items w = (rest, warned', w1)"
    and other: "watch_key new \<notin> set (map watch_key items)"
    and save: "w_save_watches env rest (snd (w_add_watch env2 new w1)) = (None, w2)"
  shows "watch_of w2 (watch_key new) = None"
proof -
  have "watch_key new \<notin> set (map watch_key rest)"
    using poll_items_keys[OF ld poll] other by blast
  moreover have "w_watches w2 = Content rest"
    using save by (auto simp: w_save_watches_def save_watches_def split: option.splits prod.splits)
  moreover have "find_watch rest (watch_key new) = None" if "watch_key new \<notin> set (map watch_key rest)"
    unfolding find_watch_def find_None_iff_all using that by (metis image_eqI set_map)
  ultimately show ?thesis by (simp add: watch_of_def)
qed

end
