(* ===== verification/Go_Date_Text.thy ===== *)
theory Go_Date_Text
  imports Go_Time
begin

text \<open>
  Dates as text: \<open>Format\<close> and \<open>time.Parse\<close> for the two layouts the program uses, the bare date
  \<open>2006-01-02\<close> and RFC 3339, and the round trip of the bare date.
\<close>

section \<open>Formatting\<close>

fun format_civil :: "civil \<Rightarrow> string" where
  "format_civil (y, m, d) =
     (if y < 0 then ''-'' @ pad_nat 4 (nat (- y)) else pad_nat 4 (nat y))
       @ ''-'' @ pad_nat 2 (nat m) @ ''-'' @ pad_nat 2 (nat d)"

definition format_date :: "gotime \<Rightarrow> string" where
  "format_date t = format_civil (date_of t)"

definition format_clock :: "gotime \<Rightarrow> string" where
  "format_clock t =
     (let s = nat (local_sec t mod 86400) in
      pad_nat 2 (s div 3600) @ '':'' @ pad_nat 2 (s div 60 mod 60) @ '':'' @ pad_nat 2 (s mod 60))"

definition format_offset :: "int \<Rightarrow> string" where
  "format_offset off =
     (let m = nat (\<bar>off\<bar> div 60) in
      if off = 0 then ''Z'' else (if off < 0 then ''-'' else ''+'') @ pad_nat 2 (m div 60) @ '':'' @ pad_nat 2 (m mod 60))"

definition format_rfc3339 :: "gotime \<Rightarrow> string" where
  "format_rfc3339 t = format_date t @ ''T'' @ format_clock t @ format_offset (lookup_offset (t_loc t) (unix_sec t))"

section \<open>Parsing a bare date\<close>

definition is_leap :: "int \<Rightarrow> bool" where
  "is_leap y \<longleftrightarrow> y mod 4 = 0 \<and> (y mod 100 \<noteq> 0 \<or> y mod 400 = 0)"

definition days_in :: "int \<Rightarrow> int \<Rightarrow> int" where
  "days_in m y =
     (if m = 2 then (if is_leap y then 29 else 28)
      else if m \<in> {4, 6, 9, 11} then 30 else 31)"

definition valid_civil :: "civil \<Rightarrow> bool" where
  "valid_civil c \<longleftrightarrow> (case c of (y, m, d) \<Rightarrow> 1 \<le> m \<and> m \<le> 12 \<and> 1 \<le> d \<and> d \<le> days_in m y)"

fun parse_civil :: "string \<Rightarrow> (civil \<times> string) option" where
  "parse_civil (y1 # y2 # y3 # y4 # s1 # m1 # m2 # s2 # d1 # d2 # rest) =
     (let c = (digits_val 0 [y1, y2, y3, y4], digits_val 0 [m1, m2], digits_val 0 [d1, d2])
      in if list_all is_digit [y1, y2, y3, y4, m1, m2, d1, d2] \<and> s1 = CHR ''-'' \<and> s2 = CHR ''-''
            \<and> valid_civil c
         then Some (c, rest) else None)"
| "parse_civil _ = None"

definition midnight_utc :: "civil \<Rightarrow> gotime" where
  "midnight_utc c = (case c of (y, m, d) \<Rightarrow> time_date (days_from_civil y m d) 0 0 UTC)"

definition parse_date :: "string \<Rightarrow> gotime option" where
  "parse_date s = (case parse_civil s of Some (c, []) \<Rightarrow> Some (midnight_utc c) | _ \<Rightarrow> None)"

section \<open>Parsing an RFC 3339 timestamp\<close>

text \<open>A number of one or two digits (the hour), and of exactly two digits (the other fields).\<close>

fun get_num :: "string \<Rightarrow> (int \<times> string) option" where
  "get_num (a # b # s) =
     (if is_digit a then (if is_digit b then Some (10 * digit_val a + digit_val b, s)
                          else Some (digit_val a, b # s)) else None)"
| "get_num [a] = (if is_digit a then Some (digit_val a, []) else None)"
| "get_num [] = None"

fun get_num2 :: "string \<Rightarrow> (int \<times> string) option" where
  "get_num2 (a # b # s) = (if is_digit a \<and> is_digit b then Some (10 * digit_val a + digit_val b, s) else None)"
| "get_num2 _ = None"

fun skip_char :: "char \<Rightarrow> string \<Rightarrow> string option" where
  "skip_char c [] = None"
| "skip_char c (x # s) = (if x = c then Some s else None)"

text \<open>An optional fraction of a second, cut to nine digits.\<close>

definition get_fraction :: "string \<Rightarrow> int \<times> string" where
  "get_fraction s =
     (case s of
        p # d # r \<Rightarrow>
          (if (p = CHR ''.'' \<or> p = CHR '','') \<and> is_digit d
           then (let ds = takeWhile is_digit (d # r); cut = take 9 ds
                 in (digits_val 0 cut * 10 ^ (9 - length cut), dropWhile is_digit (d # r)))
           else (0, s))
      | _ \<Rightarrow> (0, s))"

text \<open>The zone: \<open>Z\<close> (no offset to apply, UTC) or a sign with hours and minutes.\<close>

definition get_zone :: "string \<Rightarrow> int option option" where
  "get_zone s =
     (if s = ''Z'' then Some None
      else case s of
        sg # r \<Rightarrow>
          (if sg = CHR ''+'' \<or> sg = CHR ''-''
           then (case get_num2 r of
                   Some (h, c # r2) \<Rightarrow>
                     (case get_num2 r2 of
                        Some (m, []) \<Rightarrow>
                          (if c = CHR '':'' \<and> h \<le> 24 \<and> m \<le> 60
                           then Some (Some ((if sg = CHR ''-'' then -1 else 1) * (h * 60 + m) * 60))
                           else None)
                      | _ \<Rightarrow> None)
                 | _ \<Rightarrow> None)
           else None)
      | [] \<Rightarrow> None)"

definition get_clock :: "string \<Rightarrow> (int \<times> int \<times> string) option" where
  "get_clock s =
     Option.bind (get_num s) (\<lambda>(h, s1).
     Option.bind (skip_char (CHR '':'') s1) (\<lambda>s2.
     Option.bind (get_num2 s2) (\<lambda>(mi, s3).
     Option.bind (skip_char (CHR '':'') s3) (\<lambda>s4.
     Option.bind (get_num2 s4) (\<lambda>(sc, s5).
       if h < 24 \<and> mi < 60 \<and> sc < 60
       then (case get_fraction s5 of (ns, s6) \<Rightarrow> Some (h * 3600 + mi * 60 + sc, ns, s6)) else None)))))"

text \<open>
  The result is in UTC for \<open>Z\<close>, in the machine's location when that has the given offset at that
  instant, and in a fixed zone otherwise.
\<close>

definition parse_rfc3339 :: "location \<Rightarrow> string \<Rightarrow> gotime option" where
  "parse_rfc3339 local s =
     Option.bind (parse_civil s) (\<lambda>((y, m, d), s1).
     Option.bind (skip_char (CHR ''T'') s1) (\<lambda>s2.
     Option.bind (get_clock s2) (\<lambda>(sec, ns, s3).
     Option.bind (get_zone s3) (\<lambda>z.
       let t = time_date (days_from_civil y m d) sec ns UTC in
       case z of None \<Rightarrow> Some t
       | Some off \<Rightarrow>
           (let u = t\<lparr>t_ns := t_ns t - off * second\<rparr>
            in Some (u\<lparr>t_loc := (if lookup_offset local (unix_sec u) = off then local
                                  else Location off [])\<rparr>))))))"

section \<open>Round trip of a bare date\<close>

lemma digit_char_0: "digit_char 0 = CHR ''0''"
  by code_simp

lemma replicate_2_3: "replicate 2 x = [x, x]" "replicate 3 x = [x, x, x]"
  by (simp_all add: numeral_2_eq_2 numeral_3_eq_3)

lemma show_nat_1: "n < 10 \<Longrightarrow> show_nat n = [digit_char n]"
  by (subst show_nat.simps) simp

lemma pad_nat_2: "n < 100 \<Longrightarrow> pad_nat 2 n = [digit_char (n div 10), digit_char (n mod 10)]"
proof (cases "n < 10")
  case True
  then show ?thesis by (simp add: pad_nat_def show_nat_1 digit_char_0)
next
  case False
  assume "n < 100"
  with False have "show_nat n = [digit_char (n div 10), digit_char (n mod 10)]"
    by (subst show_nat.simps) (simp add: show_nat_1)
  then show ?thesis by (simp add: pad_nat_def)
qed

lemma show_nat_step: "10 \<le> n \<Longrightarrow> show_nat n = show_nat (n div 10) @ [digit_char (n mod 10)]"
  by (subst show_nat.simps) simp

lemma pad_nat_4:
  assumes "n < 10000"
  shows "pad_nat 4 n = [digit_char (n div 1000), digit_char (n div 100 mod 10),
    digit_char (n div 10 mod 10), digit_char (n mod 10)]"
proof -
  note z = digit_char_0
  consider "n < 10" | "10 \<le> n" "n < 100" | "100 \<le> n" "n < 1000" | "1000 \<le> n" by linarith
  then show ?thesis
  proof cases
    case 1
    then show ?thesis by (simp add: pad_nat_def show_nat_1 z replicate_2_3)
  next
    case 2
    then have "show_nat n = [digit_char (n div 10), digit_char (n mod 10)]"
      by (simp add: show_nat_step show_nat_1)
    with 2 show ?thesis by (simp add: pad_nat_def z replicate_2_3)
  next
    case 3
    then have "show_nat n = [digit_char (n div 10 div 10), digit_char (n div 10 mod 10), digit_char (n mod 10)]"
      by (simp add: show_nat_step show_nat_1)
    with 3 show ?thesis by (simp add: pad_nat_def z div_mult2_eq[symmetric])
  next
    case 4
    with assms have "show_nat n = [digit_char (n div 10 div 10 div 10), digit_char (n div 10 div 10 mod 10),
        digit_char (n div 10 mod 10), digit_char (n mod 10)]"
      by (simp add: show_nat_step show_nat_1)
    then show ?thesis by (simp add: pad_nat_def div_mult2_eq[symmetric])
  qed
qed

lemma parse_civil_format:
  assumes "valid_civil (y, m, d)" and "0 \<le> y" and "y < 10000"
  shows "parse_civil (format_civil (y, m, d) @ rest) = Some ((y, m, d), rest)"
proof -
  from assms(1) have m: "1 \<le> m" "m \<le> 12" and d: "1 \<le> d" "d \<le> 31"
    by (auto simp: valid_civil_def days_in_def split: if_splits)
  define Y where "Y = nat y"
  define M where "M = nat m"
  define D where "D = nat d"
  have YMD: "y = int Y" "m = int M" "d = int D" "Y < 10000" "M < 100" "D < 100"
    using assms m d by (auto simp: Y_def M_def D_def)
  have y: "digits_val 0 [digit_char (Y div 1000), digit_char (Y div 100 mod 10),
      digit_char (Y div 10 mod 10), digit_char (Y mod 10)] = y"
  proof -
    have "1000 * (Y div 1000) + 100 * (Y div 100 mod 10) + 10 * (Y div 10 mod 10) + Y mod 10 = Y"
    proof -
      have "Y = 10 * (Y div 10) + Y mod 10" by simp
      moreover have "Y div 10 = 10 * (Y div 100) + Y div 10 mod 10"
        using div_mult_mod_eq[of "Y div 10" 10] by (simp add: div_mult2_eq[symmetric])
      moreover have "Y div 100 = 10 * (Y div 1000) + Y div 100 mod 10"
        using div_mult_mod_eq[of "Y div 100" 10] by (simp add: div_mult2_eq[symmetric])
      ultimately show ?thesis by linarith
    qed
    then have "int (1000 * (Y div 1000) + 100 * (Y div 100 mod 10) + 10 * (Y div 10 mod 10) + Y mod 10) = int Y"
      by (rule arg_cong)
    then have "1000 * int (Y div 1000) + 100 * int (Y div 100 mod 10) + 10 * int (Y div 10 mod 10)
        + int (Y mod 10) = int Y"
      by (simp only: of_nat_add of_nat_mult of_nat_numeral)
    then show ?thesis using YMD by simp
  qed
  have v: "digits_val 0 [digit_char (M div 10), digit_char (M mod 10)] = m"
    "digits_val 0 [digit_char (D div 10), digit_char (D mod 10)] = d"
    using YMD by (simp_all add: zdiv_int zmod_int)
  show ?thesis
    using YMD(4-6) assms(1,2)
    by (simp add: Y_def[symmetric] M_def[symmetric] D_def[symmetric] pad_nat_4 pad_nat_2 y v Let_def
        del: digits_val.simps)
qed

end
