(* ===== verification/Workdays.thy ===== *)
theory Workdays
  imports Calendar Go_Date_Text
begin

text \<open>
  Working days (\<open>internal/workdays/workdays.go\<close>): the weekend and holiday set, its configuration
  from the environment, and the day count of a window. The counting loop steps the clock with
  \<open>AddDate\<close>, which need not advance in every time zone, so the loop is a \<open>partial_function\<close>: \<open>None\<close>
  is a loop that never ends. It is proved to end, with the right count, for constant offsets; to end
  in every zone whose offsets differ by less than a day; and not to end over a skipped day.
\<close>

section \<open>The set\<close>

record workday_set =
  weekend :: "weekday list"
  holidays :: "string list"

definition new_set :: workday_set where
  "new_set = \<lparr>weekend = [Saturday, Sunday], holidays = []\<rparr>"

definition with_weekend :: "workday_set \<Rightarrow> weekday list \<Rightarrow> workday_set" where
  "with_weekend s days = s\<lparr>weekend := days\<rparr>"

definition with_holidays :: "workday_set \<Rightarrow> gotime list \<Rightarrow> workday_set" where
  "with_holidays s dates = s\<lparr>holidays := map format_date dates @ holidays s\<rparr>"

definition is_workday :: "workday_set \<Rightarrow> gotime \<Rightarrow> bool" where
  "is_workday s t = (if weekday_at t \<in> set (weekend s) then False else format_date t \<notin> set (holidays s))"

partial_function (option) count_from :: "workday_set \<Rightarrow> gotime \<Rightarrow> gotime \<Rightarrow> int \<Rightarrow> int option" where
  "count_from s day fin n =
     (if before day fin
      then count_from s (add_days day 1) fin (if is_workday s day then n + 1 else n)
      else Some n)"

definition start_of_day :: "gotime \<Rightarrow> gotime" where
  "start_of_day t = (case date_of t of (y, m, d) \<Rightarrow> date_at y m d 0 (t_loc t))"

definition count :: "workday_set \<Rightarrow> gotime \<Rightarrow> gotime \<Rightarrow> int option" where
  "count s start fin = count_from s (start_of_day start) fin 0"

section \<open>Configuration\<close>

definition short_days :: "(string \<times> weekday) list" where
  "short_days = [(''sun'', Sunday), (''mon'', Monday), (''tue'', Tuesday), (''wed'', Wednesday),
     (''thu'', Thursday), (''fri'', Friday), (''sat'', Saturday)]"

fun parse_weekend_parts :: "string list \<Rightarrow> weekday list result" where
  "parse_weekend_parts [] = Inr []"
| "parse_weekend_parts (p # ps) =
     (let part = to_lower (trim_space p) in
      if part = [] then parse_weekend_parts ps
      else case map_of short_days part of
             None \<Rightarrow> Inl (Errorf (''weekend day '' @ part) [])
           | Some d \<Rightarrow> (case parse_weekend_parts ps of Inl e \<Rightarrow> Inl e | Inr ds \<Rightarrow> Inr (d # ds)))"

definition parse_weekend :: "string \<Rightarrow> weekday list result" where
  "parse_weekend text = parse_weekend_parts (split_on (CHR '','') text)"

fun add_holidays :: "workday_set \<Rightarrow> string list \<Rightarrow> workday_set result" where
  "add_holidays s [] = Inr s"
| "add_holidays s (p # ps) =
     (let part = trim_space p in
      if part = [] then add_holidays s ps
      else case parse_date part of
             None \<Rightarrow> Inl (Errorf (''holiday '' @ part @ '': want YYYY-MM-DD'') [])
           | Some d \<Rightarrow> add_holidays (s\<lparr>holidays := format_date d # holidays s\<rparr>) ps)"

definition from_env :: "(string \<Rightarrow> string) \<Rightarrow> workday_set result" where
  "from_env getenv =
     (let w = trim_space (getenv ''VAMOOSE_WEEKEND'');
          h = trim_space (getenv ''VAMOOSE_HOLIDAYS'');
          with_h = (\<lambda>s. if h \<noteq> [] then add_holidays s (split_on (CHR '','') h) else Inr s)
      in if w \<noteq> []
         then (case parse_weekend w of Inl e \<Rightarrow> Inl e | Inr days \<Rightarrow> with_h (with_weekend new_set days))
         else with_h new_set)"

section \<open>Counting with a constant offset\<close>

text \<open>A day number is worked when its weekday and its date are.\<close>

definition worked :: "workday_set \<Rightarrow> int \<Rightarrow> bool" where
  "worked s d \<longleftrightarrow> weekday_of_day d \<notin> set (weekend s) \<and> format_civil (civil_from_days d) \<notin> set (holidays s)"

lemma is_workday_worked: "is_workday s t \<longleftrightarrow> worked s (day_number t)"
  by (simp add: is_workday_def worked_def weekday_at_def format_date_def date_of_def)

text \<open>Midnight of a day number at a constant offset, in nanoseconds.\<close>

definition midnight_ns :: "int \<Rightarrow> int \<Rightarrow> int" where
  "midnight_ns off d = (d * 86400 - off) * second"

definition midnight :: "int \<Rightarrow> int \<Rightarrow> gotime" where
  "midnight off d = \<lparr>t_ns = midnight_ns off d, t_loc = Location off []\<rparr>"

lemma midnight_day [simp]: "day_number (midnight off d) = d"
  by (simp add: midnight_def midnight_ns_def day_number_def local_sec_def unix_sec_def)

lemma midnight_next: "add_days (midnight off d) 1 = midnight off (d + 1)"
  by (simp add: midnight_def add_days_fixed midnight_ns_def algebra_simps)

lemma start_of_day_fixed: "t_loc t = Location off [] \<Longrightarrow> start_of_day t = midnight off (day_number t)"
proof -
  assume l: "t_loc t = Location off []"
  obtain y m d where c: "civil_from_days (day_number t) = (y, m, d)" by (cases "civil_from_days (day_number t)")
  then have "days_from_civil y m d = day_number t" using days_civil_roundtrip[of "day_number t"] by simp
  then show ?thesis
    by (simp add: start_of_day_def date_of_def c date_at_def time_date_def l midnight_def midnight_ns_def)
qed

definition days_in_window :: "int \<Rightarrow> int \<Rightarrow> gotime \<Rightarrow> int set" where
  "days_in_window off d fin = {k. d \<le> k \<and> midnight_ns off k < t_ns fin}"

lemma midnight_ns_mono: "k \<le> l \<Longrightarrow> midnight_ns off k \<le> midnight_ns off l"
  by (simp add: midnight_ns_def)

lemma midnight_ns_large: "\<bar>x + off * second\<bar> \<le> k \<Longrightarrow> x \<le> midnight_ns off k"
  unfolding midnight_ns_def by (simp add: algebra_simps)

lemma finite_days_in_window: "finite (days_in_window off d fin)"
proof -
  have "days_in_window off d fin \<subseteq> {d .. \<bar>t_ns fin + off * second\<bar>}"
  proof
    fix k assume k: "k \<in> days_in_window off d fin"
    then have "\<not> \<bar>t_ns fin + off * second\<bar> \<le> k"
      using midnight_ns_large[of "t_ns fin" off k] by (auto simp: days_in_window_def)
    with k show "k \<in> {d .. \<bar>t_ns fin + off * second\<bar>}" by (simp add: days_in_window_def)
  qed
  then show ?thesis by (rule finite_subset) simp
qed

lemma days_in_window_step:
  "midnight_ns off d < t_ns fin \<Longrightarrow> days_in_window off d fin = insert d (days_in_window off (d + 1) fin)"
  by (auto simp: days_in_window_def)

lemma days_in_window_empty: "\<not> midnight_ns off d < t_ns fin \<Longrightarrow> days_in_window off d fin = {}"
  using midnight_ns_mono[of d _ off] by (fastforce simp: days_in_window_def)

lemma count_from_fixed:
  "t_ns fin \<le> midnight_ns off (d + int N) \<Longrightarrow>
     count_from s (midnight off d) fin n = Some (n + int (card {k \<in> days_in_window off d fin. worked s k}))"
proof (induction N arbitrary: d n)
  case 0
  then have "\<not> midnight_ns off d < t_ns fin" by simp
  then show ?case
    by (subst count_from.simps) (simp add: before_def midnight_def days_in_window_empty)
next
  case (Suc N)
  show ?case
  proof (cases "midnight_ns off d < t_ns fin")
    case False
    then show ?thesis
      by (subst count_from.simps) (simp add: before_def midnight_def days_in_window_empty)
  next
    case True
    let ?W = "{k \<in> days_in_window off (d + 1) fin. worked s k}"
    have W: "{k \<in> days_in_window off d fin. worked s k} = (if worked s d then insert d ?W else ?W)"
      using days_in_window_step[OF True] by auto
    have fin: "finite ?W" by (rule finite_subset[OF _ finite_days_in_window]) auto
    have "d \<notin> ?W" by (simp add: days_in_window_def)
    have "count_from s (midnight off (d + 1)) fin m = Some (m + int (card ?W))" for m
      using Suc by (simp add: add.assoc)
    moreover have "before (midnight off d) fin" using True by (simp add: before_def midnight_def)
    ultimately show ?thesis
      unfolding W by (subst count_from.simps) (simp add: is_workday_worked midnight_next card_insert_disjoint[OF fin \<open>d \<notin> ?W\<close>])
  qed
qed

lemma count_fixed:
  assumes "t_loc start = Location off []"
  shows "count s start fin = Some (int (card {k \<in> days_in_window off (day_number start) fin. worked s k}))"
proof -
  let ?d = "day_number start" and ?M = "\<bar>t_ns fin + off * second\<bar>"
  have "t_ns fin \<le> midnight_ns off (?d + int (nat (?M - ?d)))"
    by (rule midnight_ns_large) simp
  from count_from_fixed[OF this, of s 0] show ?thesis
    by (simp add: count_def start_of_day_fixed assms)
qed

section \<open>When the loop ends\<close>

definition spread_below :: "int \<Rightarrow> location \<Rightarrow> bool" where
  "spread_below k l \<longleftrightarrow> (\<forall>a \<in> insert 0 (offsets l). \<forall>b \<in> offsets l. a - b < k)"

lemma add_days_loc [simp]: "t_loc (add_days t n) = t_loc t"
  by (simp add: add_days_eq)

lemma add_days_later:
  assumes "spread_below 86400 (t_loc t)"
  shows "unix_sec t + 1 \<le> unix_sec (add_days t 1)"
proof -
  obtain a b where "a \<in> insert 0 (offsets (t_loc t))" "b \<in> offsets (t_loc t)"
    and u: "unix_sec (add_days t 1) = unix_sec t + 1 * 86400 + b - a"
    using add_days_progress[of t 1] by blast
  then have "a - b < 86400" using assms unfolding spread_below_def by blast
  with u show ?thesis by simp
qed

lemma count_from_terminates:
  "spread_below 86400 (t_loc day) \<Longrightarrow> unix_sec fin < unix_sec day + int N \<Longrightarrow> \<exists>r. count_from s day fin n = Some r"
proof (induction N arbitrary: day n)
  case 0
  then have "\<not> before day fin"
    unfolding before_def unix_sec_def using zdiv_mono1[of "t_ns day" "t_ns fin" second] by force
  then show ?case by (subst count_from.simps) simp
next
  case (Suc N)
  show ?case
  proof (cases "before day fin")
    case False
    then show ?thesis by (subst count_from.simps) simp
  next
    case True
    have "\<exists>r. count_from s (add_days day 1) fin m = Some r" for m
      using Suc add_days_later[of day] by simp
    with True show ?thesis by (subst count_from.simps) simp
  qed
qed

lemma count_terminates:
  assumes "spread_below 86400 (t_loc start)"
  shows "\<exists>r. count s start fin = Some r"
proof -
  have "t_loc (start_of_day start) = t_loc start"
    by (auto simp: start_of_day_def date_at_def time_date_def split: prod.splits)
  then show ?thesis
    unfolding count_def using assms
    by (intro count_from_terminates[where N = "nat (unix_sec fin + 1 - unix_sec (start_of_day start))"]) auto
qed

text \<open>A step that does not move leaves the loop where it is, for ever.\<close>

lemma count_from_stuck:
  assumes stuck: "add_days d 1 = d" and before: "before d fin"
  shows "count_from s d fin n = None"
proof -
  have "fin' = fin \<longrightarrow> day \<noteq> d" if "count_from s day fin' n = Some r" for day fin' n r
    using _ that
  proof (rule count_from.raw_induct)
    fix cf s day fin' n r
    assume IH: "\<And>s day fin' n r. cf s day fin' n = Some r \<Longrightarrow> fin' = fin \<longrightarrow> day \<noteq> d"
      and "(if before day fin' then cf s (add_days day 1) fin' (if is_workday s day then n + 1 else n)
            else Some n) = Some r"
    then show "fin' = fin \<longrightarrow> day \<noteq> d" using stuck before by (metis option.distinct(1))
  qed
  then show ?thesis by (cases "count_from s d fin n") auto
qed

text \<open>
  Samoa left out December 30, 2011: at 10:00 UTC that day its offset went from 10 hours west to 14
  hours east. The day after December 29, 00:00, resolves to December 29, 00:00.
\<close>

definition apia :: location where
  "apia = Location (- 36000) [(1325239200, 50400)]"

definition apia_dec_29 :: gotime where
  "apia_dec_29 = \<lparr>t_ns = 1325152800 * second, t_loc = apia\<rparr>"

lemma apia_stuck: "add_days apia_dec_29 1 = apia_dec_29"
  by (simp add: add_days_eq apia_dec_29_def apia_def local_sec_def unix_sec_def resolve_local_def)

text \<open>
  Chile moves its clock forward at midnight: on September 7, 2025, 00:00 became 01:00, 4 hours west
  becoming 3. The day after September 6, 00:00, resolves to September 6, 23:00, which is counted too.
\<close>

definition santiago :: location where
  "santiago = Location (- 14400) [(1757217600, - 10800)]"

definition santiago_sep_6 :: gotime where
  "santiago_sep_6 = \<lparr>t_ns = 1757131200 * second, t_loc = santiago\<rparr>"

definition santiago_sep_8 :: gotime where
  "santiago_sep_8 = \<lparr>t_ns = 1757300400 * second, t_loc = santiago\<rparr>"

lemma santiago_days: "date_of santiago_sep_6 = (2025, 9, 6)" "date_of santiago_sep_8 = (2025, 9, 8)"
  "date_of (add_days santiago_sep_6 1) = (2025, 9, 6)"
  by code_simp+

lemma count_from_more:
  "before day fin \<Longrightarrow> count_from s day fin n = count_from s (add_days day 1) fin (if is_workday s day then n + 1 else n)"
  by (subst count_from.simps) simp

lemma count_from_done: "\<not> before day fin \<Longrightarrow> count_from s day fin n = Some n"
  by (subst count_from.simps) simp

lemma santiago_start: "start_of_day santiago_sep_6 = santiago_sep_6"
  by code_simp

lemma santiago_count: "count (with_weekend new_set []) santiago_sep_6 santiago_sep_8 = Some 3"
  unfolding count_def santiago_start
  by (simp add: count_from_more count_from_done before_def add_days_eq local_sec_def unix_sec_def
      resolve_local_def is_workday_def with_weekend_def new_set_def santiago_sep_6_def santiago_sep_8_def santiago_def)

section \<open>What the configuration means\<close>

lemma add_holidays_mono: "add_holidays s ps = Inr s' \<Longrightarrow> set (holidays s) \<subseteq> set (holidays s') \<and> weekend s' = weekend s"
  by (induction s ps rule: add_holidays.induct) (auto simp: Let_def split: if_splits option.splits)

lemma add_holidays_mem:
  "add_holidays s ps = Inr s' \<Longrightarrow> p \<in> set ps \<Longrightarrow> parse_date (trim_space p) = Some d \<Longrightarrow> format_date d \<in> set (holidays s')"
proof (induction s ps rule: add_holidays.induct)
  case (2 s q ps)
  show ?case
  proof (cases "q = p \<and> trim_space p \<noteq> []")
    case True
    then have "add_holidays (s\<lparr>holidays := format_date d # holidays s\<rparr>) ps = Inr s'"
      using 2 by (simp add: Let_def)
    from add_holidays_mono[OF this] show ?thesis by auto
  next
    case False
    have "trim_space p \<noteq> []" using "2.prems"(3) by (cases "trim_space p") (auto simp: parse_date_def)
    with False 2 show ?thesis by (auto simp: Let_def split: if_splits option.splits)
  qed
qed simp

lemma from_env_unset: "trim_space (getenv ''VAMOOSE_WEEKEND'') = [] \<Longrightarrow> trim_space (getenv ''VAMOOSE_HOLIDAYS'') = [] \<Longrightarrow>
    from_env getenv = Inr new_set"
  by (simp add: from_env_def Let_def)

lemma from_env_cases:
  assumes "from_env getenv = Inr s"
  obtains base where "weekend s = weekend base"
    and "trim_space (getenv ''VAMOOSE_WEEKEND'') = [] \<Longrightarrow> base = new_set"
    and "trim_space (getenv ''VAMOOSE_WEEKEND'') \<noteq> [] \<Longrightarrow>
      \<exists>days. parse_weekend (trim_space (getenv ''VAMOOSE_WEEKEND'')) = Inr days \<and> base = with_weekend new_set days"
    and "trim_space (getenv ''VAMOOSE_HOLIDAYS'') = [] \<Longrightarrow> s = base"
    and "trim_space (getenv ''VAMOOSE_HOLIDAYS'') \<noteq> [] \<Longrightarrow>
      add_holidays base (split_on (CHR '','') (trim_space (getenv ''VAMOOSE_HOLIDAYS''))) = Inr s"
  using assms add_holidays_mono
  unfolding from_env_def Let_def
  by (cases "trim_space (getenv ''VAMOOSE_WEEKEND'') = []"; cases "trim_space (getenv ''VAMOOSE_HOLIDAYS'') = []")
    (force split: sum.splits)+

lemma holiday_not_worked:
  assumes "from_env getenv = Inr s"
    and "p \<in> set (split_on (CHR '','') (trim_space (getenv ''VAMOOSE_HOLIDAYS'')))"
    and "parse_date (trim_space p) = Some d" and "date_of t = date_of d"
  shows "\<not> is_workday s t"
proof (rule from_env_cases[OF assms(1)])
  fix base
  assume h: "trim_space (getenv ''VAMOOSE_HOLIDAYS'') \<noteq> [] \<Longrightarrow>
      add_holidays base (split_on (CHR '','') (trim_space (getenv ''VAMOOSE_HOLIDAYS''))) = Inr s"
  have "trim_space (getenv ''VAMOOSE_HOLIDAYS'') \<noteq> []"
  proof
    assume e: "trim_space (getenv ''VAMOOSE_HOLIDAYS'') = []"
    then have "p = []" using assms(2) by simp
    with assms(3) show False by (simp add: parse_date_def trim_space_def)
  qed
  then have "format_date d \<in> set (holidays s)" using h add_holidays_mem assms(2,3) by blast
  then show ?thesis using assms(4) by (simp add: is_workday_def format_date_def)
qed

section \<open>What the theory establishes\<close>

text \<open>
  C38. At a constant offset from UTC, \<open>Count\<close> returns the number of days that are worked, from the day
  of the start to the last day that begins before the end.
\<close>

theorem count_is_worked_days:
  assumes "t_loc start = Location off []"
  shows "count s start fin = Some (int (card {k. day_number start \<le> k \<and> midnight_ns off k < t_ns fin \<and> worked s k}))"
  using count_fixed[OF assms, of s fin] unfolding days_in_window_def by (simp add: conj_assoc)

theorem count_is_worked_days_witness:
  "count new_set (midnight 3600 20000) (midnight 3600 20007)
    = Some (int (card {k. 20000 \<le> k \<and> midnight_ns 3600 k < midnight_ns 3600 20007 \<and> worked new_set k}))"
  using count_is_worked_days[of "midnight 3600 20000" 3600 new_set "midnight 3600 20007"]
  by (simp add: midnight_day) (simp add: midnight_def)

text \<open>
  The loop of \<open>Count\<close> ends for every window in every zone whose offsets differ by less than a day,
  daylight saving included.
\<close>

theorem count_ends:
  assumes "\<forall>a \<in> insert 0 (offsets (t_loc start)). \<forall>b \<in> offsets (t_loc start). a - b < 86400"
  shows "\<exists>n. count s start fin = Some n"
  using assms by (intro count_terminates) (simp add: spread_below_def)

theorem count_ends_witness: "\<exists>n. count new_set santiago_sep_6 santiago_sep_8 = Some n"
  by (rule count_ends) (simp add: santiago_sep_6_def santiago_def)

text \<open>
  It does not end for a window across the day Samoa left out in 2011: the clock stays on December
  29, because midnight of December 30 does not exist and resolves back to the 29th.
\<close>

theorem count_hangs_on_skipped_day: "before apia_dec_29 fin \<Longrightarrow> count_from s apia_dec_29 fin n = None"
  by (rule count_from_stuck[OF apia_stuck])

theorem count_hangs_on_skipped_day_witness:
  "count_from new_set apia_dec_29 (apia_dec_29\<lparr>t_ns := 1325500000 * second\<rparr>) 0 = None"
  by (rule count_hangs_on_skipped_day) (simp add: before_def apia_dec_29_def)

text \<open>
  Where the clock skips midnight, \<open>Count\<close> counts a day twice: two worked days in Santiago in
  September 2025, from the 6th to the end of the 7th, count as three.
\<close>

theorem count_double_counts_midnight_change:
  "date_of santiago_sep_6 = (2025, 9, 6) \<and> date_of santiago_sep_8 = (2025, 9, 8)
    \<and> count (with_weekend new_set []) santiago_sep_6 santiago_sep_8 = Some 3"
  using santiago_days santiago_count by blast

text \<open>A day listed in \<open>VAMOOSE_HOLIDAYS\<close> is not a working day, at any time of that day and in any zone.\<close>

theorem configured_holiday_not_worked:
  assumes "from_env getenv = Inr s"
    and "p \<in> set (split_on (CHR '','') (trim_space (getenv ''VAMOOSE_HOLIDAYS'')))"
    and "parse_date (trim_space p) = Some d" and "date_of t = date_of d"
  shows "\<not> is_workday s t"
  by (rule holiday_not_worked[OF assms])

theorem configured_holiday_not_worked_witness:
  "\<exists>s. from_env (\<lambda>v. if v = ''VAMOOSE_HOLIDAYS'' then ''2026-12-25'' else []) = Inr s
    \<and> \<not> is_workday s (date_at 2026 12 25 15 (Location 3600 []))"
proof -
  let ?env = "\<lambda>v. if v = ''VAMOOSE_HOLIDAYS'' then ''2026-12-25'' else []"
  let ?s = "new_set\<lparr>holidays := [''2026-12-25'']\<rparr>"
  have env: "from_env ?env = Inr ?s" by code_simp
  have day: "parse_date (trim_space ''2026-12-25'') = Some (date_at 2026 12 25 0 UTC)" by code_simp
  have same: "date_of (date_at 2026 12 25 15 (Location 3600 [])) = date_of (date_at 2026 12 25 0 UTC)" by code_simp
  have mem: "''2026-12-25'' \<in> set (split_on (CHR '','') (trim_space (?env ''VAMOOSE_HOLIDAYS'')))" by code_simp
  from configured_holiday_not_worked[OF env mem day same] env show ?thesis by blast
qed

end
