(* ===== verification/When.thy ===== *)
theory When
  imports Workdays
begin

text \<open>
  Dates given by the user (\<open>cmd/when.go\<close>): timestamps, bare dates, windows, half days and relative
  phrases. \<open>loc\<close> is the local time zone, which \<open>time.Parse\<close> uses to label an offset it recognises
  and \<open>time.Now\<close> carries.
\<close>

section \<open>Timestamps and windows\<close>

definition parse_when :: "location \<Rightarrow> string \<Rightarrow> (gotime \<times> bool) result" where
  "parse_when loc s =
     (case parse_rfc3339 loc s of
        Some t \<Rightarrow> Inr (t, False)
      | None \<Rightarrow>
          (case parse_date s of
             Some t \<Rightarrow> Inr (t, True)
           | None \<Rightarrow> Inl (Errorf (''unrecognized time '' @ s) [])))"

type_synonym window = "gotime \<times> gotime \<times> bool"

definition parse_window :: "location \<Rightarrow> string \<Rightarrow> string \<Rightarrow> window result" where
  "parse_window loc start fin =
     (case parse_when loc start of
        Inl e \<Rightarrow> Inl (Errorf ''parse start'' [e])
      | Inr (s, s_day) \<Rightarrow>
          (case parse_when loc fin of
             Inl e \<Rightarrow> Inl (Errorf ''parse end'' [e])
           | Inr (f, f_day) \<Rightarrow>
               (let all_day = (s_day \<and> f_day);
                    f = (if all_day then add_days f 1 else f)
                in if \<not> after f s then Inl (Errorf ''end must be after start'' [])
                   else Inr (s, f, all_day))))"

section \<open>Relative phrases\<close>

definition weekday_names :: "(string \<times> weekday) list" where
  "weekday_names = [(''sunday'', Sunday), (''monday'', Monday), (''tuesday'', Tuesday), (''wednesday'', Wednesday),
     (''thursday'', Thursday), (''friday'', Friday), (''saturday'', Saturday)]"

definition next_weekday :: "gotime \<Rightarrow> weekday \<Rightarrow> gotime" where
  "next_weekday now target =
     (let d = (weekday_index target - weekday_index (weekday_at now) + 7) mod 7;
          d = (if d = 0 then 7 else d)
      in add_days (start_of_day now) d)"

definition resolve_relative :: "gotime \<Rightarrow> string \<Rightarrow> (gotime \<times> gotime) result" where
  "resolve_relative now phrase =
     (let p = to_lower (trim_space phrase); today = start_of_day now in
      if p = ''today'' then Inr (today, add_days today 1)
      else if p = ''tomorrow'' then (let start = add_days today 1 in Inr (start, add_days start 1))
      else if p = ''next week'' then (let start = next_weekday now Monday in Inr (start, add_days start 5))
      else case map_of weekday_names (trim_prefix p ''next '') of
             Some wd \<Rightarrow> (let start = next_weekday now wd in Inr (start, add_days start 1))
           | None \<Rightarrow> Inl (Errorf (''unrecognized date phrase '' @ phrase) []))"

definition resolve_window :: "location \<Rightarrow> gotime \<Rightarrow> string \<Rightarrow> string \<Rightarrow> string \<Rightarrow> window result" where
  "resolve_window loc now start fin phrase =
     (if start \<noteq> [] \<and> fin \<noteq> [] then parse_window loc start fin
      else if phrase \<noteq> [] then
        (case resolve_relative now phrase of Inl e \<Rightarrow> Inl e | Inr (s, f) \<Rightarrow> Inr (s, f, True))
      else Inl (Errorf ''give a date phrase (e.g. next week) or --start and --end'' []))"

section \<open>Half days\<close>

definition workday_start_hour :: int where "workday_start_hour = 9"
definition workday_mid_hour :: int where "workday_mid_hour = 13"
definition workday_end_hour :: int where "workday_end_hour = 17"

definition half_day_window :: "gotime \<Rightarrow> location \<Rightarrow> string \<Rightarrow> (gotime \<times> gotime) result" where
  "half_day_window day loc portion =
     (case date_of day of (y, m, d) \<Rightarrow>
        let at = (\<lambda>hour. date_at y m d hour loc) in
        if portion = ''am'' \<or> portion = ''morning'' then Inr (at workday_start_hour, at workday_mid_hour)
        else if portion = ''pm'' \<or> portion = ''afternoon'' then Inr (at workday_mid_hour, at workday_end_hour)
        else Inl (Errorf (''half must be am or pm, got '' @ portion) []))"

definition apply_half_day :: "gotime \<Rightarrow> gotime \<Rightarrow> location \<Rightarrow> string \<Rightarrow> (gotime \<times> gotime) result" where
  "apply_half_day start fin loc portion =
     (if after fin (add_days (start_of_day start) 1)
      then Inl (Errorf ''a half day applies to a single day, not a range'' [])
      else half_day_window start loc portion)"

definition workday_phrase :: "int \<Rightarrow> string" where
  "workday_phrase n = (if n = 1 then ''1 working day'' else show_int n @ '' working days'')"

definition portion_label :: "string \<Rightarrow> string" where
  "portion_label p = (if p = ''am'' \<or> p = ''morning'' then ''morning'' else ''afternoon'')"

fun split_phrase :: "string list \<Rightarrow> string list \<times> string list" where
  "split_phrase [] = ([], [])"
| "split_phrase (a # as) =
     (if has_prefix a ''-'' then ([], a # as)
      else case split_phrase as of (ws, fs) \<Rightarrow> (a # ws, fs))"

text \<open>The phrase a command reads: the leading words, or what is left after the flags.\<close>

definition command_phrase :: "string list \<Rightarrow> string list \<Rightarrow> string" where
  "command_phrase words rest =
     (let p = join_with '' '' words in if p = [] \<and> rest \<noteq> [] then join_with '' '' rest else p)"

section \<open>Windows\<close>

lemma parse_window_ordered: "parse_window loc s f = Inr (a, b, d) \<Longrightarrow> before a b"
  by (auto simp: parse_window_def Let_def after_def split: sum.splits prod.splits if_splits)

lemma split_phrase_append: "split_phrase xs = (ws, fs) \<Longrightarrow> xs = ws @ fs \<and> (\<forall>w \<in> set ws. \<not> has_prefix w ''-'')
    \<and> (fs \<noteq> [] \<longrightarrow> has_prefix (hd fs) ''-'')"
  by (induction xs arbitrary: ws fs) (auto split: if_splits prod.splits)

lemma weekday_index_of_day: "weekday_index (weekday_of_day d) = (d + 4) mod 7"
  by (simp add: weekday_of_day_def)

lemma weekday_of_day_add: "weekday_of_day (d + 7 * n) = weekday_of_day d"
proof -
  have "(d + 7 * n + 4) mod 7 = (d + 4 + 7 * n) mod 7" by (simp only: ac_simps)
  then show ?thesis by (simp add: weekday_index_inj[symmetric] weekday_index_of_day)
qed

text \<open>At a constant offset, all of it is arithmetic on day numbers.\<close>

lemma midnight_add [simp]: "add_days (midnight off d) n = midnight off (d + n)"
  by (simp add: midnight_def add_days_fixed midnight_ns_def algebra_simps)

lemma midnight_loc [simp]: "t_loc (midnight off d) = Location off []"
  by (simp add: midnight_def)

lemma midnight_before: "before (midnight off d) (midnight off e) \<longleftrightarrow> d < e"
  by (simp add: midnight_def before_def midnight_ns_def)

lemma weekday_midnight [simp]: "weekday_at (midnight off d) = weekday_of_day d"
  by (simp add: weekday_at_def)

lemma week_offset: "0 \<le> r \<Longrightarrow> r < 7 \<Longrightarrow> 1 \<le> (if r = 0 then 7 else r) \<and> (if r = 0 then 7 else r) \<le> (7 :: int)"
  by auto

lemma week_offset_mod: "(x + (if r = 0 then 7 else r)) mod 7 = (x + r) mod (7 :: int)"
  by (cases "r = 0") simp_all

lemma next_weekday_fixed:
  assumes "t_loc now = Location off []"
  shows "\<exists>n. 1 \<le> n \<and> n \<le> 7 \<and> next_weekday now wd = midnight off (day_number now + n)
    \<and> weekday_of_day (day_number now + n) = wd"
proof -
  let ?d = "day_number now"
  let ?r = "(weekday_index wd - weekday_index (weekday_at now) + 7) mod 7"
  let ?n = "if ?r = 0 then 7 else ?r"
  have n: "1 \<le> ?n \<and> ?n \<le> 7"
    by (rule week_offset) simp_all
  have "weekday_index (weekday_of_day (?d + ?n)) = (?d + 4 + ?n) mod 7"
    by (simp add: weekday_index_of_day algebra_simps)
  also have "\<dots> = (?d + 4 + ?r) mod 7" by (rule week_offset_mod)
  also have "\<dots> = (?d + 4 + (weekday_index wd - (?d + 4) mod 7)) mod 7"
    unfolding weekday_at_def weekday_index_of_day by (metis (no_types, opaque_lifting) mod_add_right_eq mod_add_self2 add.assoc)
  also have "\<dots> = weekday_index wd mod 7"
    by (metis add.commute diff_add_cancel mod_add_left_eq mod_add_right_eq)
  also have "\<dots> = weekday_index wd" by (cases wd) auto
  finally have "weekday_of_day (?d + ?n) = wd" by (simp only: weekday_index_inj)
  then show ?thesis
    using n by (intro exI[of _ ?n]) (simp add: next_weekday_def Let_def start_of_day_fixed[OF assms])
qed

text \<open>A phrase gives a window of whole days from today on, never empty.\<close>

lemma resolve_relative_fixed:
  assumes "t_loc now = Location off []" and "resolve_relative now phrase = Inr (a, b)"
  shows "\<exists>d e. a = midnight off d \<and> b = midnight off e \<and> day_number now \<le> d \<and> d < e \<and> e \<le> d + 5"
  using assms(2) next_weekday_fixed[OF assms(1)]
  by (fastforce simp: resolve_relative_def Let_def start_of_day_fixed[OF assms(1)] split: if_splits option.splits)

text \<open>\<open>next week\<close> is the coming Monday to Friday: five working days of the default set.\<close>

lemma next_week_fixed:
  assumes "t_loc now = Location off []" and "to_lower (trim_space phrase) = ''next week''"
  shows "\<exists>d. resolve_relative now phrase = Inr (midnight off d, midnight off (d + 5))
    \<and> day_number now < d \<and> d \<le> day_number now + 7 \<and> weekday_of_day d = Monday"
proof -
  obtain n where "1 \<le> n" "n \<le> 7" "next_weekday now Monday = midnight off (day_number now + n)"
    "weekday_of_day (day_number now + n) = Monday"
    using next_weekday_fixed[OF assms(1)] by blast
  with assms(2) show ?thesis
    by (intro exI[of _ "day_number now + n"]) (simp add: resolve_relative_def Let_def)
qed

lemma weekdays_from_monday:
  assumes "weekday_of_day d = Monday" and "0 \<le> j" and "j < 5"
  shows "weekday_of_day (d + j) \<notin> {Saturday, Sunday}"
proof -
  have "(d + 4) mod 7 = 1" using assms(1) weekday_index_of_day[of d] by simp
  then have "(d + 4 + j) mod 7 = (1 + j) mod 7" by (metis mod_add_left_eq)
  then have "weekday_index (weekday_of_day (d + j)) = 1 + j"
    using assms(2,3) by (simp add: weekday_index_of_day algebra_simps)
  then show ?thesis using assms(2,3) by auto
qed

lemma days_in_window_midnight: "days_in_window off d (midnight off e) = {d..<e}"
  by (auto simp: days_in_window_def midnight_def midnight_ns_def)

lemma next_week_five_workdays:
  assumes "t_loc now = Location off []" and "to_lower (trim_space phrase) = ''next week''"
    and "resolve_relative now phrase = Inr (a, b)"
  shows "count new_set a b = Some 5"
proof -
  obtain d where d: "a = midnight off d" "b = midnight off (d + 5)" "weekday_of_day d = Monday"
    using next_week_fixed[OF assms(1,2)] assms(3) by auto
  have "worked new_set k" if "k \<in> {d..<d + 5}" for k
    using weekdays_from_monday[OF d(3), of "k - d"] that by (auto simp: worked_def new_set_def)
  then have "{k \<in> {d..<d + 5}. worked new_set k} = {d..<d + 5}" by auto
  then show ?thesis
    using count_fixed[of a off new_set b] d(1,2) by (simp only: midnight_loc midnight_day days_in_window_midnight) simp
qed

text \<open>A half day is four hours of the named day in the zone the event is labelled with.\<close>

lemma date_at_fixed:
  assumes "c = date_of t" and "c = (y, m, d)"
  shows "date_at y m d hr (Location off []) = \<lparr>t_ns = (day_number t * 86400 + hr * 3600 - off) * second, t_loc = Location off []\<rparr>"
proof -
  have "civil_from_days (day_number t) = (y, m, d)" using assms by (simp add: date_of_def)
  then have "days_from_civil y m d = day_number t" using days_civil_roundtrip[of "day_number t"] by simp
  then show ?thesis by (simp add: date_at_def time_date_def)
qed

lemma half_day_fixed:
  assumes "apply_half_day start fin (Location off []) portion = Inr (a, b)"
  shows "date_of a = date_of start \<and> date_of b = date_of start \<and> t_ns b - t_ns a = 4 * hour
    \<and> \<not> after fin (add_days (start_of_day start) 1)"
proof -
  obtain y m d where c: "date_of start = (y, m, d)" by (cases "date_of start")
  have at: "day_number (date_at y m d hr (Location off [])) = day_number start" if "0 \<le> hr" "hr < 24" for hr
  proof -
    have "(day_number start * 86400 + hr * 3600) div 86400 = day_number start + hr * 3600 div 86400" by simp
    also have "hr * 3600 div 86400 = 0" using that by simp
    finally show ?thesis
      using date_at_fixed[OF c[symmetric] refl, of hr off]
      by (simp add: day_number_def local_sec_def unix_sec_def)
  qed
  obtain h where h: "h = 9 \<or> h = 13" "a = date_at y m d h (Location off [])" "b = date_at y m d (h + 4) (Location off [])"
  proof -
    have hw: "half_day_window start (Location off []) portion = Inr (a, b)"
      using assms by (simp add: apply_half_day_def split: if_splits)
    note defs = half_day_window_def c Let_def workday_start_hour_def workday_mid_hour_def workday_end_hour_def
    show thesis
    proof (cases "portion = ''am'' \<or> portion = ''morning''")
      case True
      with hw that[of 9] show thesis unfolding defs prod.case if_P[OF True] by simp
    next
      case False
      show thesis
      proof (cases "portion = ''pm'' \<or> portion = ''afternoon''")
        case True
        with hw that[of 13] show thesis unfolding defs prod.case if_not_P[OF False] if_P[OF True] by simp
      next
        case not_pm: False
        with hw show thesis unfolding defs prod.case if_not_P[OF False] if_not_P[OF not_pm] by simp
      qed
    qed
  qed
  have "t_ns b - t_ns a = 4 * hour"
    unfolding h(2,3) date_at_fixed[OF c[symmetric] refl] by simp
  moreover have "date_of a = date_of start" "date_of b = date_of start"
    using h at[of h] at[of "h + 4"] by (auto simp: date_of_eq_iff)
  moreover have "\<not> after fin (add_days (start_of_day start) 1)"
    using assms by (auto simp: apply_half_day_def split: if_splits)
  ultimately show ?thesis by blast
qed

section \<open>What the theory establishes\<close>

text \<open>A window the user gives is never empty or backwards: parsing succeeds only when the end is after the start.\<close>

theorem parsed_window_not_empty: "parse_window loc s f = Inr (a, b, all_day) \<Longrightarrow> before a b"
  by (rule parse_window_ordered)

theorem parsed_window_not_empty_witness:
  "\<exists>a b. parse_window UTC ''2026-07-01'' ''2026-07-03'' = Inr (a, b, True) \<and> before a b"
proof -
  have p: "parse_window UTC ''2026-07-01'' ''2026-07-03''
      = Inr (date_at 2026 7 1 0 UTC, date_at 2026 7 4 0 UTC, True)" by code_simp
  from parsed_window_not_empty[OF p] p show ?thesis by blast
qed

text \<open>
  \<open>next week\<close> is the coming Monday to Friday, after today and within seven days: five working days of
  the default calendar, in whichever case and spacing it is typed.
\<close>

theorem next_week_is_five_workdays:
  assumes "t_loc now = Location off []" and "to_lower (trim_space phrase) = ''next week''"
  shows "\<exists>a b. resolve_relative now phrase = Inr (a, b) \<and> count new_set a b = Some 5
    \<and> weekday_at a = Monday \<and> day_number now < day_number a \<and> day_number a \<le> day_number now + 7"
proof -
  obtain d where d: "resolve_relative now phrase = Inr (midnight off d, midnight off (d + 5))"
    "day_number now < d" "d \<le> day_number now + 7" "weekday_of_day d = Monday"
    using next_week_fixed[OF assms] by blast
  from next_week_five_workdays[OF assms d(1)] d show ?thesis by simp
qed

theorem next_week_is_five_workdays_witness:
  "\<exists>a b. resolve_relative (midnight 3600 20000) '' Next Week'' = Inr (a, b) \<and> count new_set a b = Some 5"
proof -
  have "to_lower (trim_space '' Next Week'') = ''next week''" by code_simp
  from next_week_is_five_workdays[OF midnight_loc this] show ?thesis by blast
qed

text \<open>
  A half day is four hours of the day it was asked for, and is refused for a window longer than that
  day.
\<close>

theorem half_day_is_four_hours:
  assumes "apply_half_day start fin (Location off []) portion = Inr (a, b)"
  shows "date_of a = date_of start \<and> date_of b = date_of start \<and> t_ns b - t_ns a = 4 * hour
    \<and> \<not> after fin (add_days (start_of_day start) 1)"
  by (rule half_day_fixed[OF assms])

theorem half_day_is_four_hours_witness:
  "\<exists>a b. apply_half_day (midnight 0 20000) (midnight 0 20001) (Location 0 []) ''pm'' = Inr (a, b)
    \<and> t_ns b - t_ns a = 4 * hour"
proof -
  have r: "apply_half_day (midnight 0 20000) (midnight 0 20001) (Location 0 []) ''pm''
      = Inr (date_at 2024 10 4 13 UTC, date_at 2024 10 4 17 UTC)" by code_simp
  from half_day_is_four_hours[OF r] r show ?thesis by blast
qed

end
