(* ===== verification/Schedule.thy ===== *)
theory Schedule
  imports Daemon When
begin

text \<open>
  Recurring runs (\<open>cmd/schedule.go\<close>): the schedule file, its limits, and the firing of due schedules by
  the daemon. The runner of a due schedule is an argument of \<open>fire_schedules\<close>, as in the source.
\<close>

section \<open>The schedule file\<close>

record schedule_item =
  sc_workflow :: string
  sc_provider :: string
  sc_every :: string
  sc_next_run :: gotime
  sc_phrase :: string
  sc_subject :: string
  sc_manager :: string

type_synonym schedule_file = "schedule_item list stored"

definition min_schedule_every :: duration where "min_schedule_every = minute"
definition max_schedules :: nat where "max_schedules = 100"

definition parsed_every :: "schedule_item \<Rightarrow> duration" where
  "parsed_every s = (case parse_duration (sc_every s) of None \<Rightarrow> 0 | Some d \<Rightarrow> d)"

definition load_schedules :: "error option \<Rightarrow> schedule_file \<Rightarrow> schedule_item list result" where
  "load_schedules pe f = (case pe of Some e \<Rightarrow> Inl e | None \<Rightarrow> read_file [] f)"

definition save_schedules :: "error option \<Rightarrow> error option \<Rightarrow> schedule_item list \<Rightarrow> schedule_file \<Rightarrow> error option \<times> schedule_file" where
  "save_schedules pe we items f =
     (case pe of Some e \<Rightarrow> (Some e, f)
      | None \<Rightarrow> (case we of Some e \<Rightarrow> (Some e, f) | None \<Rightarrow> (None, Content items)))"

definition same_schedule :: "schedule_item \<Rightarrow> schedule_item \<Rightarrow> bool" where
  "same_schedule a b \<longleftrightarrow> sc_workflow a = sc_workflow b \<and> sc_provider a = sc_provider b
     \<and> sc_every a = sc_every b \<and> sc_phrase a = sc_phrase b"

definition add_schedule :: "error option \<Rightarrow> error option \<Rightarrow> schedule_item \<Rightarrow> schedule_file \<Rightarrow> error option \<times> schedule_file" where
  "add_schedule pe we item f =
     (case load_schedules pe f of
        Inl e \<Rightarrow> (Some e, f)
      | Inr items \<Rightarrow>
          (if max_schedules \<le> length items then (Some (Errorf ''schedule limit reached'' []), f)
           else if list_ex (\<lambda>s. same_schedule s item) items
           then (Some (Errorf (''an identical schedule already exists for '' @ sc_workflow item) []), f)
           else save_schedules pe we (items @ [item]) f))"

definition remove_schedule_at :: "error option \<Rightarrow> error option \<Rightarrow> int \<Rightarrow> schedule_file \<Rightarrow> string result \<times> schedule_file" where
  "remove_schedule_at pe we idx f =
     (case load_schedules pe f of
        Inl e \<Rightarrow> (Inl e, f)
      | Inr items \<Rightarrow>
          (if idx < 0 \<or> int (length items) \<le> idx
           then (Inl (Errorf (''no schedule at index '' @ show_int idx) []), f)
           else let removed = sc_workflow (items ! nat idx);
                    rest = take (nat idx) items @ drop (nat idx + 1) items
                in case save_schedules pe we rest f of
                     (Some e, f) \<Rightarrow> (Inl e, f)
                   | (None, f) \<Rightarrow> (Inr removed, f)))"

definition new_schedule ::
  "(string \<Rightarrow> workflow result) \<Rightarrow> gotime \<Rightarrow> string \<Rightarrow> string \<Rightarrow> string \<Rightarrow> string \<Rightarrow> string \<Rightarrow> string \<Rightarrow> schedule_item result" where
  "new_schedule ld t name every phrase subject manager provider =
     (case ld name of
        Inl e \<Rightarrow> Inl e
      | Inr k \<Rightarrow>
          (if (case parse_duration every of None \<Rightarrow> True | Some d \<Rightarrow> d < min_schedule_every)
           then Inl (Errorf ''every must be a duration of at least 1m0s, such as 168h'' [])
           else if phrase = [] then Inl (Errorf ''a phrase is required'' [])
           else Inr \<lparr>sc_workflow = name, sc_provider = provider, sc_every = every, sc_next_run = t, sc_phrase = phrase,
                     sc_subject = subject, sc_manager = manager\<rparr>))"

text \<open>\<open>vamoose schedule remove\<close>: the index is read with \<open>strconv.Atoi\<close>.\<close>

definition schedule_remove :: "error option \<Rightarrow> error option \<Rightarrow> string list \<Rightarrow> schedule_file \<Rightarrow> string result \<times> schedule_file" where
  "schedule_remove pe we args f =
     (case args of
        [] \<Rightarrow> (Inl (Errorf ''schedule remove: give the index from schedule list'' []), f)
      | a # rest \<Rightarrow>
          (case parse_int64 a of
             None \<Rightarrow> (Inl (Errorf (''schedule remove: not an index: '' @ a) []), f)
           | Some idx \<Rightarrow>
               (case remove_schedule_at pe we idx f of
                  (Inl e, f) \<Rightarrow> (Inl (Errorf ''schedule remove'' [e]), f)
                | (Inr r, f) \<Rightarrow> (Inr r, f))))"

section \<open>Firing\<close>

definition due :: "gotime \<Rightarrow> schedule_item \<Rightarrow> bool" where
  "due t s \<longleftrightarrow> is_zero (sc_next_run s) \<or> \<not> after (sc_next_run s) t"

definition advance_schedule :: "gotime \<Rightarrow> schedule_item \<Rightarrow> schedule_item" where
  "advance_schedule t s = (if 0 < parsed_every s then s\<lparr>sc_next_run := time_add t (parsed_every s)\<rparr> else s)"

fun fire_schedules ::
  "gotime \<Rightarrow> (schedule_item \<Rightarrow> 's \<Rightarrow> error option \<times> 's) \<Rightarrow> schedule_item list \<Rightarrow> 's \<Rightarrow> schedule_item list \<times> 's" where
  "fire_schedules t run [] st = ([], st)"
| "fire_schedules t run (s # ss) st =
     (if due t s
      then (let st = snd (run s st) in
            case fire_schedules t run ss st of (out, st) \<Rightarrow> (advance_schedule t s # out, st))
      else (case fire_schedules t run ss st of (out, st) \<Rightarrow> (s # out, st)))"

text \<open>\<open>runScheduledWorkflow\<close>: load, resolve the window now, and run watched.\<close>

definition run_scheduled ::
  "env \<Rightarrow> location \<Rightarrow> (string \<Rightarrow> workflow result) \<Rightarrow> (string \<Rightarrow> error option) \<Rightarrow> schedule_item \<Rightarrow> world \<Rightarrow> error option \<times> world" where
  "run_scheduled env loc ld prov_err s w =
     (case ld (sc_workflow s) of
        Inl e \<Rightarrow> (Some e, w)
      | Inr k \<Rightarrow>
          (let (t, w) = now env w in
           case resolve_window loc t [] [] (sc_phrase s) of
             Inl e \<Rightarrow> (Some (Errorf ''resolve window'' [e]), w)
           | Inr (start, fin, all_day) \<Rightarrow>
               execute_workflow env prov_err k
                 \<lparr>opt_provider = sc_provider s, opt_tz = [],
                  opt_subject = (if sc_subject s = [] then default_subject k else sc_subject s), opt_body = [],
                  opt_manager = sc_manager s, opt_attendees = [], opt_start = start, opt_end = fin,
                  opt_all_day = all_day, opt_watch = True, opt_dry_run = False\<rparr> w))"

definition poll_schedules ::
  "env \<Rightarrow> error option \<Rightarrow> (schedule_item \<Rightarrow> world \<Rightarrow> error option \<times> world) \<Rightarrow> schedule_file \<times> world \<Rightarrow> schedule_file \<times> world" where
  "poll_schedules env pe run fw =
     (case fw of (f, w) \<Rightarrow>
        case load_schedules pe f of
          Inl e \<Rightarrow> (f, w)
        | Inr [] \<Rightarrow> (f, w)
        | Inr items \<Rightarrow>
            (let (t, w) = now env w in
             case fire_schedules t run items w of
               (updated, w) \<Rightarrow> (snd (save_schedules pe (e_write env (w_tick w)) updated f), tick w)))"

section \<open>The file keeps its limits\<close>

definition schedules_ok :: "schedule_item list \<Rightarrow> bool" where
  "schedules_ok ss \<longleftrightarrow> length ss \<le> max_schedules \<and> sorted_wrt (\<lambda>a b. \<not> same_schedule a b) ss"

lemma add_schedule_success:
  "add_schedule pe we s f = (None, f') \<longleftrightarrow> pe = None \<and> we = None \<and>
     (\<exists>ss. read_file [] f = Inr ss \<and> length ss < max_schedules \<and> (\<forall>x \<in> set ss. \<not> same_schedule x s) \<and> f' = Content (ss @ [s]))"
  by (auto simp: add_schedule_def load_schedules_def save_schedules_def list_ex_iff split: option.splits sum.splits if_splits)

lemma add_schedule_failure: "add_schedule pe we s f = (Some e, f') \<Longrightarrow> f' = f"
  by (auto simp: add_schedule_def load_schedules_def save_schedules_def split: option.splits sum.splits if_splits)

lemma add_schedule_ok:
  "add_schedule pe we s f = (None, f') \<Longrightarrow> read_file [] f = Inr ss \<Longrightarrow> schedules_ok ss \<Longrightarrow>
     \<exists>ss'. read_file [] f' = Inr ss' \<and> schedules_ok ss'"
  by (auto simp: add_schedule_success schedules_ok_def sorted_wrt_append)

lemma remove_schedule_success:
  "remove_schedule_at pe we i f = (Inr n, f') \<longleftrightarrow> pe = None \<and> we = None \<and>
     (\<exists>xs s ys. read_file [] f = Inr (xs @ s # ys) \<and> int (length xs) = i \<and> n = sc_workflow s \<and> f' = Content (xs @ ys))"
proof
  assume r: "remove_schedule_at pe we i f = (Inr n, f')"
  then obtain ss where ss: "read_file [] f = Inr ss" "0 \<le> i" "i < int (length ss)" "pe = None" "we = None"
    "n = sc_workflow (ss ! nat i)" "f' = Content (take (nat i) ss @ drop (nat i + 1) ss)"
    by (auto simp: remove_schedule_at_def load_schedules_def save_schedules_def Let_def
        split: option.splits sum.splits if_splits)
  have "ss = take (nat i) ss @ ss ! nat i # drop (nat i + 1) ss"
    using ss(2,3) by (simp add: id_take_nth_drop)
  with ss show "pe = None \<and> we = None \<and> (\<exists>xs s ys. read_file [] f = Inr (xs @ s # ys) \<and> int (length xs) = i
      \<and> n = sc_workflow s \<and> f' = Content (xs @ ys))"
    by (intro conjI exI[of _ "take (nat i) ss"] exI[of _ "ss ! nat i"] exI[of _ "drop (nat i + 1) ss"]) auto
qed (auto simp: remove_schedule_at_def load_schedules_def save_schedules_def)

lemma remove_schedule_ok:
  "remove_schedule_at pe we i f = (Inr n, f') \<Longrightarrow> read_file [] f = Inr ss \<Longrightarrow> schedules_ok ss \<Longrightarrow>
     \<exists>ss'. read_file [] f' = Inr ss' \<and> schedules_ok ss'"
  by (auto simp: remove_schedule_success schedules_ok_def sorted_wrt_append)

lemma new_schedule_ok:
  "new_schedule ld t name every phrase subj mgr prov = Inr s \<Longrightarrow>
     (\<exists>k. ld name = Inr k) \<and> minute \<le> parsed_every s \<and> sc_phrase s \<noteq> [] \<and> sc_next_run s = t"
  by (auto simp: new_schedule_def parsed_every_def min_schedule_every_def split: sum.splits option.splits if_splits)

section \<open>Each due schedule fires once\<close>

lemma fire_schedules_list: "fst (fire_schedules t run ss st) = map (\<lambda>s. if due t s then advance_schedule t s else s) ss"
  by (induction t run ss st rule: fire_schedules.induct) (auto split: prod.splits)

lemma fire_schedules_state: "snd (fire_schedules t run ss st) = fold (\<lambda>s st. snd (run s st)) (filter (due t) ss) st"
  by (induction t run ss st rule: fire_schedules.induct) (auto simp: Let_def split: prod.splits)

lemma same_schedule_advance [simp]: "same_schedule (advance_schedule t a) b = same_schedule a b"
  "same_schedule a (advance_schedule t b) = same_schedule a b"
  by (simp_all add: advance_schedule_def same_schedule_def)

lemma fire_schedules_ok: "schedules_ok ss \<Longrightarrow> schedules_ok (fst (fire_schedules t run ss st))"
proof -
  let ?f = "\<lambda>s. if due t s then advance_schedule t s else s"
  have "same_schedule (?f a) (?f b) = same_schedule a b" for a b by simp
  then show "schedules_ok ss \<Longrightarrow> schedules_ok (fst (fire_schedules t run ss st))"
    unfolding fire_schedules_list by (simp add: schedules_ok_def sorted_wrt_map)
qed

definition positive_interval :: "schedule_item \<Rightarrow> bool" where
  "positive_interval s \<longleftrightarrow> 0 < parsed_every s"

lemma advance_not_due:
  assumes "positive_interval s" and "t_ns zero_time \<le> t_ns t" and "t_ns u < t_ns t + parsed_every s"
  shows "\<not> due u (advance_schedule t s)"
  using assms
  by (auto simp: due_def advance_schedule_def positive_interval_def time_add_def after_def before_def is_zero_def)

text \<open>
  A fired schedule does not fire again before its interval has passed, however long it was overdue:
  missed runs are not caught up.
\<close>

lemma fired_then_quiet:
  assumes "\<forall>s \<in> set ss. positive_interval s" and "t_ns zero_time \<le> t_ns t"
    and "\<forall>s \<in> set ss. t_ns u < t_ns t + parsed_every s" and "t_ns t \<le> t_ns u" and "filter (due t) ss = ss"
  shows "fire_schedules u run (fst (fire_schedules t run ss st)) st' = (fst (fire_schedules t run ss st), st')"
proof -
  let ?out = "fst (fire_schedules t run ss st)"
  have out: "?out = map (advance_schedule t) ss"
    using assms(5) unfolding fire_schedules_list by (simp add: filter_id_conv)
  have "\<forall>s \<in> set ?out. \<not> due u s" using advance_not_due assms(1-3) unfolding out by auto
  then have "filter (due u) ?out = []" "map (\<lambda>s. if due u s then advance_schedule u s else s) ?out = ?out"
    by (auto simp: filter_empty_conv intro: map_idI)
  then show ?thesis
    using fire_schedules_list[of u run ?out st'] fire_schedules_state[of u run ?out st'] by (simp add: prod_eq_iff)
qed

section \<open>What the theory establishes\<close>

text \<open>
  Adding a schedule keeps the file within its limits: at most a hundred schedules, no two alike. A
  schedule that breaks them, or cannot be written, changes nothing.
\<close>

theorem add_schedule_keeps_limits:
  assumes "add_schedule pe we s f = (err, f')" and "read_file [] f = Inr ss" and "schedules_ok ss"
  shows "(\<exists>ss'. read_file [] f' = Inr ss' \<and> schedules_ok ss') \<and> (err \<noteq> None \<longrightarrow> f' = f)"
proof (cases err)
  case None
  then show ?thesis using add_schedule_ok[OF _ assms(2,3)] assms(1) by blast
next
  case (Some e)
  then have "f' = f" using add_schedule_failure assms(1) by blast
  then show ?thesis using assms(2,3) by blast
qed

definition example_schedule :: schedule_item where
  "example_schedule = \<lparr>sc_workflow = ''away'', sc_provider = ''graph'', sc_every = ''168h'',
     sc_next_run = zero_time\<lparr>t_ns := 0\<rparr>, sc_phrase = ''tomorrow'', sc_subject = [], sc_manager = []\<rparr>"

theorem add_schedule_keeps_limits_witness:
  "\<exists>ss. read_file [] (snd (add_schedule None None example_schedule Absent)) = Inr ss \<and> schedules_ok ss"
  using add_schedule_keeps_limits[of None None example_schedule Absent "fst (add_schedule None None example_schedule Absent)"
      "snd (add_schedule None None example_schedule Absent)" "[]"]
  by (simp add: schedules_ok_def)

text \<open>
  A poll runs each schedule that is due exactly once, in the order of the file and whatever the runs
  return, and moves its next run to one interval from now. Until then it is not due again, so runs
  missed while the daemon was down are not made up.
\<close>

theorem due_schedules_run_once:
  assumes "\<forall>s \<in> set ss. 0 < parsed_every s" and "t_ns zero_time \<le> t_ns t"
  shows "snd (fire_schedules t run ss st) = fold (\<lambda>s st. snd (run s st)) (filter (due t) ss) st
    \<and> (\<exists>out. fst (fire_schedules t run ss st) = out \<and> length out = length ss
        \<and> (\<forall>i < length ss. if due t (ss ! i)
             then (\<forall>u. t_ns u < t_ns t + parsed_every (ss ! i) \<longrightarrow> \<not> due u (out ! i)) else out ! i = ss ! i))"
proof -
  have "\<not> due u (advance_schedule t (ss ! i))"
    if "i < length ss" "t_ns u < t_ns t + parsed_every (ss ! i)" for u i
    using advance_not_due[OF _ assms(2) that(2)] assms(1) that(1) by (simp add: positive_interval_def)
  then show ?thesis
    unfolding fire_schedules_list fire_schedules_state by auto
qed

theorem due_schedules_run_once_witness:
  "snd (fire_schedules (midnight 0 20001) (\<lambda>s n. (None, Suc n)) [example_schedule] 0) = 1
    \<and> \<not> due (midnight 0 20002) (fst (fire_schedules (midnight 0 20001) (\<lambda>s n. (None, Suc n)) [example_schedule] 0) ! 0)"
proof -
  have "parse_duration ''168h'' = Some 604800000000000" by code_simp
  then have e: "parsed_every example_schedule = 604800000000000"
    by (simp add: parsed_every_def example_schedule_def)
  have d: "due (midnight 0 20001) example_schedule"
    by (simp add: due_def after_def before_def example_schedule_def midnight_def midnight_ns_def)
  have p: "\<forall>s \<in> set [example_schedule]. 0 < parsed_every s" "t_ns zero_time \<le> t_ns (midnight 0 20001)"
    by (simp_all add: e zero_time_def midnight_def midnight_ns_def)
  have u: "t_ns (midnight 0 20002) < t_ns (midnight 0 20001) + parsed_every example_schedule"
    by (simp add: e midnight_def midnight_ns_def)
  from due_schedules_run_once[OF p, of "\<lambda>s n. (None, Suc n)" 0] d u show ?thesis by simp
qed

end
