(* ===== verification/Scenario.thy ===== *)
theory Scenario
  imports Run
begin

text \<open>
  A concrete outside and a concrete workflow, on which the theorems about runs are exercised: a
  provider that accepts every call, a directory of two, and the chain hold, approval by the manager,
  approval by HR, notification of the team.
\<close>

definition boss :: person where "boss = \<lparr>person_name = ''Bo'', person_email = ''boss@example.com''\<rparr>"
definition ann :: person where "ann = \<lparr>person_name = ''Ann'', person_email = ''ann@example.com''\<rparr>"

definition noon :: gotime where "noon = \<lparr>t_ns = 1730000000 * second, t_loc = UTC\<rparr>"

definition asked_hold :: hold where
  "asked_hold = \<lparr>hold_id = ''h1'', hold_subject = ''PTO'', hold_body = [], hold_start = noon, hold_end = time_add noon hour,
     hold_all_day = False, hold_show_as = ShowFree, hold_attendees = [invite boss RoleRequired]\<rparr>"

definition answered_hold :: "response \<Rightarrow> hold" where
  "answered_hold r = asked_hold\<lparr>hold_attendees := [\<lparr>att_person = boss, att_role = RoleRequired, att_response = r\<rparr>]\<rparr>"

definition quiet_env :: env where
  "quiet_env =
     \<lparr>e_getenv = (\<lambda>_. []), e_now = (\<lambda>_. noon), e_me = (\<lambda>_. Inr ann), e_manager = (\<lambda>_. Inr boss),
      e_team = (\<lambda>_. Inr [ann, boss]), e_create = (\<lambda>_ h. Inr (h\<lparr>hold_id := ''h1''\<rparr>)),
      e_get = (\<lambda>_ _. Inr (answered_hold ResponseAccepted)), e_update = (\<lambda>_ h. Inr h), e_delete = (\<lambda>_ _. None),
      e_notifier = Some (\<lambda>_ _ _. None), e_filer = Some (\<lambda>_ _. Inr ''1''), e_address = Some, e_write = (\<lambda>_. None),
      e_lock = (\<lambda>_. None), e_watch_path = None, e_state_path = None, e_team_path = None, e_ledger_path = None,
      e_audit_path = None\<rparr>"

definition chain :: workflow where
  "chain = \<lparr>wf_name = ''pto-chain'', wf_description = ''two approvals'',
     wf_steps = [zero_step\<lparr>step_verb := VerbHold\<rparr>,
       zero_step\<lparr>step_verb := VerbApprove, step_manager := True\<rparr>,
       zero_step\<lparr>step_verb := VerbApprove, step_approver := ''hr@example.com''\<rparr>,
       zero_step\<lparr>step_verb := VerbNotify, step_team := RoleOptional\<rparr>]\<rparr>"

text \<open>Its watch item at the manager's gate.\<close>

definition chain_item :: watch_item where
  "chain_item = \<lparr>wi_provider = ''graph'', wi_hold_id = ''h1'', wi_workflow = ''pto-chain'', wi_step = 1, wi_resume = 0,
     wi_done = False, wi_approver = ''boss@example.com'', wi_subject = ''PTO'', wi_created = noon\<rparr>"

lemma chain_well_formed: "well_formed chain"
  unfolding validate_spec[symmetric] by code_simp

lemma chain_runnable: "runnable chain"
  by (rule well_formed_runnable[OF chain_well_formed])

lemma quiet_writes [simp]: "writes_ok quiet_env"
  by (simp add: writes_ok_def quiet_env_def)

text \<open>The run's options for a morning off.\<close>

definition chain_options :: run_options where
  "chain_options = \<lparr>opt_provider = ''graph'', opt_tz = [], opt_subject = ''PTO'', opt_body = [], opt_manager = [],
     opt_attendees = [], opt_start = noon, opt_end = time_add noon hour, opt_all_day = False, opt_watch = True,
     opt_dry_run = False\<rparr>"

end
