(* ===== verification/Run_Properties.thy ===== *)
theory Run_Properties
  imports Scenario
begin

text \<open>
  What a run and its actions establish: promoting a hold, the order and the effects of the steps a run
  executes, what it leaves for the daemon at its first gate, and the gap in the validation rule that
  the team is never notified before approval.
\<close>

section \<open>Before the first approval\<close>

text \<open>In a flow without \<open>next\<close>, the step after a step is the one below it.\<close>

definition straight :: "workflow \<Rightarrow> bool" where
  "straight k \<longleftrightarrow> (\<forall>s \<in> set (wf_steps k). step_next s = [])"

lemma straight_next:
  assumes "straight k" and "in_range k i"
  shows "next_step k i [] = (if i + 1 < num_steps k then i + 1 else -1)"
proof -
  have "step_at k i \<in> set (wf_steps k)" using assms(2) by (intro nth_mem) (auto simp: in_range_def)
  then have "step_next (step_at k i) = []" using assms(1) by (simp add: straight_def)
  then show ?thesis using assms(2) by (auto simp: next_step_def in_range_def Let_def)
qed

lemma walks_before_gate:
  "walks env cp prov k h i w xs r \<Longrightarrow> straight k \<Longrightarrow> runnable k \<Longrightarrow> in_range k g \<Longrightarrow>
     waits (step_verb (step_at k g)) \<Longrightarrow> i \<le> g \<Longrightarrow> \<forall>x \<in> set xs. x < g"
proof (induction rule: walks.induct)
  case (walks_skip i w xs r)
  have "i \<noteq> g" using gate_allowed walks_skip.hyps(1,2) walks_skip.prems(2,4) by blast
  then have "i + 1 \<le> g" "i + 1 < num_steps k" using walks_skip.prems(3,5) by (simp_all add: in_range_def)
  then show ?case
    using walks_skip.IH[OF walks_skip.prems(1-4)] straight_next[OF walks_skip.prems(1) walks_skip.hyps(1)] by simp
next
  case (walks_next i w w' xs r)
  have "i \<noteq> g" using walks_next.hyps(3) walks_next.prems(4) by blast
  then have "i + 1 \<le> g" "i + 1 < num_steps k" "i < g" using walks_next.prems(3,5) by (simp_all add: in_range_def)
  then show ?case
    using walks_next.IH[OF walks_next.prems(1-4)] straight_next[OF walks_next.prems(1) walks_next.hyps(1)] by simp
next
  case (walks_cancel i w w')
  then show ?case by (cases "i = g") auto
qed simp_all

lemma notify_below_approve:
  assumes "well_formed k" and "step_verb (step_at k (int a)) = VerbApprove" and "a < length (wf_steps k)"
    and "\<forall>i < a. step_verb (step_at k (int i)) \<noteq> VerbApprove" and "0 \<le> x" and "x < int a"
  shows "step_verb (step_at k x) \<noteq> VerbNotify"
proof
  assume n: "step_verb (step_at k x) = VerbNotify"
  have "nat x < length (wf_steps k)" using assms(3,5,6) by simp
  moreover have "approve_at k a" using assms(2,3) by (simp add: approve_at_def)
  moreover have "step_verb (wf_steps k ! nat x) = VerbNotify" using n by simp
  ultimately have "\<exists>j < nat x. approve_at k j"
    using assms(1) unfolding well_formed_def by blast
  then obtain j where "j < nat x" "step_verb (step_at k (int j)) = VerbApprove"
    by (auto simp: approve_at_def)
  then show False using assms(4,6) by auto
qed

section \<open>A workflow that skips its approval\<close>

definition bypass :: workflow where
  "bypass = \<lparr>wf_name = ''bypass'', wf_description = [],
     wf_steps = [zero_step\<lparr>step_verb := VerbHold, step_next := ''tell''\<rparr>,
       zero_step\<lparr>step_verb := VerbApprove, step_manager := True\<rparr>,
       zero_step\<lparr>step_verb := VerbNotify, step_id := ''tell''\<rparr>]\<rparr>"

lemma bypass_validates: "validate bypass = None"
  by code_simp

lemma bypass_next: "next_step bypass 0 [] = 2" "next_step bypass 2 [] = -1"
  by code_simp+

lemma bypass_steps: "step_verb (step_at bypass 2) = VerbNotify" "step_when (step_at bypass 2) = no_guard" "num_steps bypass = 3"
  by (simp_all add: bypass_def zero_step_def)

lemma quiet_team: "resolve_team quiet_env (tick empty_world) = (Inr ([ann, boss], SourceDirectory), tick (tick empty_world))"
  by (simp add: resolve_team_def load_team_config_def empty_world_def quiet_env_def merge_team_def prov_team_def tick_def)

lemma asked_new_members: "new_members (map att_key (hold_attendees asked_hold)) [ann, boss] \<noteq> []"
  by (simp add: asked_hold_def ann_def boss_def invite_def to_lower_def Let_def)

lemma quiet_promote:
  "\<exists>w'. promote_hold quiet_env asked_hold (tick empty_world) = (None, w')
    \<and> w_trace w' = [Updated (with_team asked_hold [ann, boss])]"
  using quiet_team asked_new_members
  by (simp add: promote_hold_def prov_update_def quiet_env_def) (simp add: empty_world_def)

lemma bypass_notifies:
  "w_trace (snd (snd (walk_steps quiet_env None prov bypass [] (next_step bypass 0 []) asked_hold empty_world)))
    = [Updated (with_team asked_hold [ann, boss])]"
proof -
  obtain w' where p: "promote_hold quiet_env asked_hold (tick empty_world) = (None, w')"
    "w_trace w' = [Updated (with_team asked_hold [ann, boss])]" using quiet_promote by blast
  have r: "in_range bypass 2" by (simp add: in_range_def bypass_steps)
  show ?thesis
    unfolding bypass_next walk_steps_go[OF r, of "[]", simplified]
    using p bypass_steps[simplified] by (simp add: allowed_at_def waits_def exec_step_def finish_step_def Let_def
        bypass_next walk_steps_stop in_range_def checkpoint_at_def)
qed

section \<open>Starting a run\<close>

lemma initial_hold_frame:
  "initial_hold env k opt w = (r, w') \<Longrightarrow> w_trace w' = w_trace w \<and> w_watches w' = w_watches w \<and> w_ledger w' = w_ledger w"
  by (auto simp: initial_hold_def resolve_approver_def resolve_manager_def prov_manager_def Let_def
      split: if_splits verb.splits sum.splits)

lemma initial_hold_window:
  "initial_hold env k opt w = (Inr h, w') \<Longrightarrow>
     hold_subject h = opt_subject opt \<and> hold_start h = opt_start opt \<and> hold_end h = opt_end opt"
  by (auto simp: initial_hold_def Let_def split: if_splits verb.splits sum.splits prod.splits)

text \<open>Every call outside advances the counter.\<close>

lemma initial_hold_tick: "initial_hold env k opt w = (r, w') \<Longrightarrow> w_tick w \<le> w_tick w'"
  by (auto simp: initial_hold_def resolve_approver_def resolve_manager_def prov_manager_def Let_def
      split: if_splits verb.splits sum.splits)

lemma record_tick: "w_tick w \<le> w_tick (record_audit env ev w)" "w_tick w \<le> w_tick (w_record_coverage env h w)"
  by (auto simp: record_audit_def w_record_coverage_def now_def prov_me_def Let_def tick_def split: option.splits)

lemma create_frame:
  assumes "prov_create env h w = (Inr created, w')"
  shows "w_trace w' = w_trace w @ [Created h]" "w_watches w' = w_watches w" "\<exists>n. e_create env n h = Inr created"
  using assms by (auto simp: prov_create_def split: sum.splits)

lemma save_state_frame:
  "w_save_state env r w = (s, w') \<Longrightarrow> w_trace w' = w_trace w \<and> w_watches w' = w_watches w"
  using w_save_state_frame[of env r w] by simp

lemma chain_run_ok: "fst (run_workflow_on quiet_env ''graph'' chain chain_options empty_world) = None"
  by code_simp

section \<open>What the theory establishes\<close>

text \<open>
  Promoting a hold keeps its attendees and its approver, adds every team member it lacks as optional,
  once, and sends one update, or none when nobody is missing. Promoting the result again sends nothing.
\<close>

theorem promote_adds_team_once:
  assumes "resolve_team env w = (Inr (team, src), w1)" and "promote_hold env h w = (None, w')"
    and "\<exists>a \<in> set (hold_attendees h). att_role a = RoleRequired"
  shows "\<exists>h'. (\<exists>added. hold_attendees h' = hold_attendees h @ added \<and> (\<forall>a \<in> set added. att_role a = RoleOptional))
    \<and> manager_attendee h' = manager_attendee h
    \<and> (\<forall>p \<in> set team. to_lower (person_email p) \<in> att_key ` set (hold_attendees h'))
    \<and> (w_trace w' = w_trace w @ [Updated h'] \<or> hold_attendees h' = hold_attendees h \<and> w_trace w' = w_trace w)
    \<and> (\<forall>env2 w2 w3 src2. resolve_team env2 w2 = (Inr (team, src2), w3) \<longrightarrow> promote_hold env2 h' w2 = (None, w3))"
proof -
  let ?h = "with_team h team"
  have trace: "w_trace w' = w_trace w @ [Updated ?h] \<or> hold_attendees ?h = hold_attendees h \<and> w_trace w' = w_trace w"
    using assms(1,2) resolve_team_frame(2)[of env w]
    by (auto simp: promote_hold_def prov_update_def with_team_def split: if_splits sum.splits)
  have again: "promote_hold env2 ?h w2 = (None, w3)" if "resolve_team env2 w2 = (Inr (team, src2), w3)" for env2 w2 w3 src2
    using that with_team_again[of h team] by (simp add: promote_hold_def)
  have covers: "\<forall>p \<in> set team. to_lower (person_email p) \<in> att_key ` set (hold_attendees ?h)"
    using with_team_covers[of team h] by auto
  show ?thesis
    using with_team_attendees[of h team] manager_attendee_with_team[OF assms(3), of team] covers trace again by blast
qed

theorem promote_adds_team_once_witness:
  "\<exists>h'. w_trace (snd (promote_hold quiet_env asked_hold empty_world)) = [Updated h']
    \<and> manager_attendee h' = manager_attendee asked_hold"
proof -
  have team: "resolve_team quiet_env empty_world = (Inr ([ann, boss], SourceDirectory), tick empty_world)"
    by (simp add: resolve_team_def load_team_config_def empty_world_def quiet_env_def merge_team_def prov_team_def)
  have new: "new_members (map att_key (hold_attendees asked_hold)) [ann, boss] \<noteq> []"
    by (simp add: asked_hold_def ann_def boss_def invite_def to_lower_def Let_def)
  obtain w' where p: "promote_hold quiet_env asked_hold empty_world = (None, w')"
    using team new by (simp add: promote_hold_def prov_update_def quiet_env_def)
  have "\<exists>a \<in> set (hold_attendees asked_hold). att_role a = RoleRequired"
    by (simp add: asked_hold_def invite_def)
  from promote_adds_team_once[OF team p this] obtain h' where
    h': "manager_attendee h' = manager_attendee asked_hold"
      "\<forall>p \<in> set [ann, boss]. to_lower (person_email p) \<in> att_key ` set (hold_attendees h')"
      "w_trace w' = w_trace empty_world @ [Updated h'] \<or> hold_attendees h' = hold_attendees asked_hold \<and> w_trace w' = w_trace empty_world"
    by blast
  then show ?thesis
    using p by (auto simp: empty_world_def asked_hold_def ann_def boss_def invite_def to_lower_def)
qed

text \<open>
  C22. The walk over the immediate steps follows the flow: each step it completes comes after the ones
  before it along \<open>next\<close> and the order of the file, none runs twice, and the effects on the calendar are
  those of these steps, in that order. It stops at the end, at a gate, or at a step that failed.
\<close>

theorem walk_follows_flow:
  assumes "well_formed k" and "walk_steps env cp prov k [] i h w = (g, err, w')"
  shows "\<exists>xs bs. distinct xs \<and> sorted_wrt (after_step k) xs
    \<and> list_all2 (step_block env k h) xs bs \<and> w_trace w' = w_trace w @ concat bs
    \<and> ((err = None \<and> g = -1) \<or> (in_range k g \<and> (err = None \<longleftrightarrow> waits (step_verb (step_at k g)))))"
proof -
  have k: "runnable k" by (rule well_formed_runnable[OF assms(1)])
  obtain xs where xs: "walks env cp prov k h i w xs (g, err, w')"
    using walk_steps_result[OF k, of env cp prov h i w] assms(2) by auto
  show ?thesis
    using walks_distinct[OF xs k] walks_ordered[OF xs k] walks_trace[OF xs refl] walks_stops[OF xs refl] by blast
qed

theorem walk_follows_flow_witness:
  "\<exists>xs bs. distinct xs \<and> list_all2 (step_block quiet_env chain asked_hold) xs bs
    \<and> w_trace (snd (snd (walk_steps quiet_env None ''graph'' chain [] 3 asked_hold empty_world))) = concat bs"
  using walk_follows_flow[OF chain_well_formed, of quiet_env None "''graph''" 3 asked_hold empty_world
      "fst (walk_steps quiet_env None ''graph'' chain [] 3 asked_hold empty_world)"
      "fst (snd (walk_steps quiet_env None ''graph'' chain [] 3 asked_hold empty_world))"
      "snd (snd (walk_steps quiet_env None ''graph'' chain [] 3 asked_hold empty_world))"]
  by (auto simp: empty_world_def)

text \<open>
  In a well-formed workflow with an approval and no \<open>next\<close>, a run notifies nobody before the approval:
  no step it executes after creating the hold is a notify step.
\<close>

theorem straight_run_never_notifies_first:
  assumes "well_formed k" and "\<forall>s \<in> set (wf_steps k). step_next s = []" and "\<exists>s \<in> set (wf_steps k). step_verb s = VerbApprove"
  shows "\<exists>xs. walks env cp prov k h (next_step k 0 []) w xs (walk_steps env cp prov k [] (next_step k 0 []) h w)
    \<and> (\<forall>x \<in> set xs. step_verb (step_at k x) \<noteq> VerbNotify)"
proof -
  have k: "runnable k" by (rule well_formed_runnable[OF assms(1)])
  have st: "straight k" using assms(2) by (simp add: straight_def)
  let ?P = "\<lambda>i. i < length (wf_steps k) \<and> step_verb (wf_steps k ! i) = VerbApprove"
  obtain b where "?P b" using assms(3) by (auto simp: in_set_conv_nth)
  then obtain a where a: "?P a" "\<forall>j < a. \<not> ?P j"
    using exists_least_iff[of ?P] by blast
  then have first: "\<forall>i < a. step_verb (step_at k (int i)) \<noteq> VerbApprove" by auto
  have "creates (step_verb (wf_steps k ! a)) \<longleftrightarrow> a = 0" using assms(1) a(1) by (auto simp: well_formed_def)
  then have pos: "0 < a" using a(1) by (cases a) auto
  have rng: "in_range k (int a)" "in_range k 0" using a(1) by (auto simp: in_range_def)
  have start: "next_step k 0 [] \<le> int a" using straight_next[OF st rng(2)] pos by simp
  obtain xs where xs: "walks env cp prov k h (next_step k 0 []) w xs (walk_steps env cp prov k [] (next_step k 0 []) h w)"
    using walk_steps_result[OF k] by blast
  have "\<forall>x \<in> set xs. x < int a"
    using walks_before_gate[OF xs st k rng(1) _ start] a(1) by (simp add: waits_def)
  then have "\<forall>x \<in> set xs. step_verb (step_at k x) \<noteq> VerbNotify"
    using notify_below_approve[OF assms(1) _ _ first] a(1) walks_executed[OF xs] by (simp add: in_range_def)
  with xs show ?thesis by blast
qed

theorem straight_run_never_notifies_first_witness:
  "\<exists>xs. walks quiet_env None ''graph'' chain asked_hold (next_step chain 0 []) empty_world xs
      (walk_steps quiet_env None ''graph'' chain [] (next_step chain 0 []) asked_hold empty_world)
    \<and> (\<forall>x \<in> set xs. step_verb (step_at chain x) \<noteq> VerbNotify)"
  by (rule straight_run_never_notifies_first[OF chain_well_formed]) (simp_all add: chain_def zero_step_def)

text \<open>
  The rule that a workflow never notifies before approval looks at positions only. A hold whose \<open>next\<close>
  jumps over the approve step passes validation, and its run notifies the team at once, with no
  approval asked for.
\<close>

theorem next_bypasses_approval:
  "validate bypass = None
    \<and> (\<forall>prov. w_trace (snd (snd (walk_steps quiet_env None prov bypass [] (next_step bypass 0 []) asked_hold empty_world)))
        = [Updated (with_team asked_hold [ann, boss])])"
  using bypass_validates bypass_notifies by blast

text \<open>
  The approver a hold names: its first required attendee, or its first when nobody is required.
\<close>

definition named_approver :: "hold \<Rightarrow> string \<Rightarrow> bool" where
  "named_approver h e \<longleftrightarrow>
     (case find (\<lambda>a. att_role a = RoleRequired) (hold_attendees h) of
        Some a \<Rightarrow> e = att_email a
      | None \<Rightarrow> (case hold_attendees h of [] \<Rightarrow> e = [] | a # as \<Rightarrow> e = att_email a))"

lemma manager_named: "named_approver h (att_email (manager_attendee h))"
  by (simp add: named_approver_def manager_attendee_def email_person_def split: option.splits list.splits)

text \<open>
  C27. A watched run that meets a gate right after creating the hold changes nothing else in the calendar,
  and leaves a watch at that gate, on the hold the provider gave back: for this provider and workflow, nothing
  resumed or done, since the moment the clock showed during the run, and, unless the gate only waits for time,
  with the address of the first required attendee of that hold (of its first attendee when none is required) as the
  approver the daemon will wait for. It is assumed that the watch list can be read and files can be written.
\<close>

theorem run_waits_at_its_gate:
  assumes "well_formed k" and "run_workflow_on env prov k opt w = (None, w')"
    and "waits (step_verb (step_at k (next_step k 0 [])))" and "in_range k (next_step k 0 [])"
    and "opt_watch opt" and "\<not> opt_dry_run opt" and "writes_ok env" and "readable w"
  shows "\<exists>h created n item m. e_create env n h = Inr created \<and> w_trace w' = w_trace w @ [Created h]
    \<and> hold_subject h = opt_subject opt \<and> hold_start h = opt_start opt \<and> hold_end h = opt_end opt
    \<and> watch_of w' (prov, hold_id created) = Some item
    \<and> wi_provider item = prov \<and> wi_hold_id item = hold_id created \<and> wi_workflow item = wf_name k
    \<and> wi_step item = next_step k 0 [] \<and> wi_resume item = 0 \<and> \<not> wi_done item \<and> wi_subject item = hold_subject created
    \<and> wi_created item = e_now env m \<and> w_tick w \<le> m \<and> m < w_tick w'
    \<and> (if step_verb (step_at k (next_step k 0 [])) = VerbWait then wi_approver item = []
       else named_approver created (wi_approver item))"
proof -
  have k: "runnable k" by (rule well_formed_runnable[OF assms(1)])
  obtain r w1 where init: "initial_hold env k opt w = (r, w1)" by fastforce
  then obtain h where h: "r = Inr h" using assms(2) by (cases r) (auto simp: run_workflow_on_def)
  obtain c w2 where c: "prov_create env h w1 = (c, w2)" by fastforce
  then obtain created where created: "c = Inr created"
    using assms(2,6) init h by (cases c) (auto simp: run_workflow_on_def)
  obtain s w3 where s: "w_save_state env \<lparr>ref_provider = prov, ref_id = hold_id created\<rparr> w2 = (s, w3)" by fastforce
  have s0: "s = None" using assms(2,6) init h c created s by (cases s) (auto simp: run_workflow_on_def)
  define w4 where "w4 = (let w = record_audit env (step_event k prov created ActionCreated []) w3 in
      if step_verb (step_at k 0) \<noteq> VerbEvent then w_record_coverage env created w else w)"
  have run: "run_steps env None prov k (next_step k 0 []) created True w4 = (None, w')"
    using assms(2,5,6) init h c created s s0 by (simp add: run_workflow_on_def w4_def Let_def)
  have stop: "walk_steps env None prov k [] (next_step k 0 []) created w4 = (next_step k 0 [], None, tick w4)"
    using walk_steps_go[OF assms(4), of "[]" env None prov created w4] gate_allowed[OF k assms(4,3)] assms(3) by simp
  define w5 where "w5 = snd (now env (tick w4))"
  let ?item = "gate_item prov k (next_step k 0 []) created (fst (now env (tick w4)))"
  have w': "w' = snd (w_add_watch env ?item w5)"
    using run stop assms(4) by (auto simp: run_steps_def gate_waiting_def w5_def in_range_def split: prod.splits option.splits)
  have same: "w_watches w5 = w_watches w" "w_trace w5 = w_trace w @ [Created h]"
    using initial_hold_frame[OF init] create_frame[OF c[unfolded created]] save_state_frame[OF s]
    by (simp_all add: w5_def w4_def now_def Let_def)
  have "readable w5" using watch_of_cong[OF same(1)] assms(8) by blast
  then have "watch_of w' (watch_key ?item) = Some ?item"
    unfolding w' using w_add_watch_ok(2)[OF assms(7), of w5 ?item "watch_key ?item"] by simp
  then have "watch_of w' (prov, hold_id created) = Some ?item" by (simp add: watch_key_def gate_item_def)
  moreover have "w_trace w' = w_trace w @ [Created h]" unfolding w' by (simp add: same)
  moreover have "hold_subject h = opt_subject opt \<and> hold_start h = opt_start opt \<and> hold_end h = opt_end opt"
    using initial_hold_window[OF init[unfolded h]] .
  moreover have "w_tick w \<le> w_tick w3"
    using initial_hold_tick[OF init] c s by (auto simp: prov_create_def w_save_state_def tick_def emit_def split: sum.splits prod.splits)
  then have "w_tick w \<le> w_tick (tick w4)"
    using record_tick(1)[of w3 env "step_event k prov created ActionCreated []"]
      record_tick(2)[of "record_audit env (step_event k prov created ActionCreated []) w3" env created]
    by (simp add: w4_def Let_def)
  moreover have "w_tick (tick w4) < w_tick w'"
    by (simp add: w' w5_def now_def w_add_watch_def split: prod.split)
  moreover obtain n where "e_create env n h = Inr created" using create_frame(3)[OF c[unfolded created]] by blast
  ultimately show ?thesis
    by (intro exI[of _ h] exI[of _ created] exI[of _ n] exI[of _ ?item] exI[of _ "w_tick (tick w4)"])
      (simp add: gate_item_def now_def manager_named)
qed

theorem run_waits_at_its_gate_witness:
  "\<exists>h item. watch_of (snd (run_workflow_on quiet_env ''graph'' chain chain_options empty_world)) (''graph'', ''h1'') = Some item
    \<and> wi_step item = 1 \<and> wi_created item = noon
    \<and> w_trace (snd (run_workflow_on quiet_env ''graph'' chain chain_options empty_world)) = [Created h] \<and> hold_subject h = ''PTO''"
proof -
  have g: "next_step chain 0 [] = 1" by code_simp
  have s: "waits (step_verb (step_at chain (next_step chain 0 [])))" "in_range chain (next_step chain 0 [])"
    unfolding g by (simp_all add: chain_def waits_def in_range_def)
  have r: "fst (run_workflow_on quiet_env ''graph'' chain chain_options empty_world) = None" by (rule chain_run_ok)
  obtain w' where w': "run_workflow_on quiet_env ''graph'' chain chain_options empty_world = (None, w')"
    using r by (cases "run_workflow_on quiet_env ''graph'' chain chain_options empty_world") auto
  have opts: "opt_watch chain_options" "\<not> opt_dry_run chain_options" "opt_subject chain_options = ''PTO''"
    by (simp_all add: chain_options_def)
  have rd: "readable empty_world" by (simp add: readable_def empty_world_def)
  from run_waits_at_its_gate[OF chain_well_formed w' s opts(1,2) quiet_writes rd] w' opts(3) show ?thesis
    unfolding g by (fastforce simp: quiet_env_def empty_world_def)
qed

end
