(* ===== verification/Crash.thy ===== *)
theory Crash
  imports Daemon
begin

text \<open>
  What a crash of the daemon can repeat. The machine takes the steps of \<open>advanceRun\<close>, \<open>walkSteps\<close> and
  \<open>pollAll\<close> one at a time for one watched hold: opening a gate, resuming, the action of a step, its
  checkpoint, the write at the end of the poll. A crash may come between any two and leaves the
  files; the next poll starts from the watch item on disk. The log is the sequence of completed
  actions, the counter the number of crashes. For workflows without \<open>when\<close> guards, and file writes
  that succeed, an action is never repeated after a later one has run, and each crash repeats at
  most one.
\<close>

section \<open>The machine\<close>

datatype phase =
    Idle
  | Opened watch_item int hold
  | Branch watch_item int hold
  | Acted watch_item int hold
  | Settled "watch_item option"

type_synonym machine = "phase \<times> world \<times> int list \<times> nat"

inductive daemon_step :: "env \<Rightarrow> workflow \<Rightarrow> string \<times> string \<Rightarrow> machine \<Rightarrow> machine \<Rightarrow> bool" for env k key where
  dm_open: "watch_of w key = Some item \<Longrightarrow> \<not> wi_done item \<Longrightarrow> wi_resume item \<le> 0 \<Longrightarrow> in_range k (wi_step item) \<Longrightarrow>
    prov_get env (wi_hold_id item) w = (Inr h, w1) \<Longrightarrow> now env w1 = (t, w2) \<Longrightarrow>
    branch_plan k item h t = Some (i, on_end) \<Longrightarrow>
    daemon_step env k key (Idle, w, log, n) (Opened item i h, record_gate_outcome env k item h on_end w2, log, n)"
| dm_commit: "daemon_step env k key (Opened item i h, w, log, n)
    (Branch item i h, checkpoint_at env (Some item) i w, log, n)"
| dm_resume: "watch_of w key = Some item \<Longrightarrow> \<not> wi_done item \<Longrightarrow> 0 < wi_resume item \<Longrightarrow> in_range k (wi_step item) \<Longrightarrow>
    prov_get env (wi_hold_id item) w = (Inr h, w1) \<Longrightarrow>
    daemon_step env k key (Idle, w, log, n) (Branch item (wi_resume item) h, w1, log, n)"
| dm_act: "in_range k i \<Longrightarrow> allowed_at env k i h w \<Longrightarrow> acting k i \<Longrightarrow>
    exec_step env None (wi_provider item) k i h (tick w) = (r, w') \<Longrightarrow> r = StepNext \<or> r = StepEnd \<Longrightarrow>
    daemon_step env k key (Branch item i h, w, log, n) (Acted item i h, w', log @ [i], n)"
| dm_checkpoint: "daemon_step env k key (Acted item i h, w, log, n)
    (Branch item (resume_of k i) h, checkpoint_at env (Some item) (resume_of k i) w, log, n)"
| dm_skip: "in_range k i \<Longrightarrow> \<not> waits (step_verb (step_at k i)) \<Longrightarrow> \<not> allowed_at env k i h w \<or> \<not> acting k i \<Longrightarrow>
    daemon_step env k key (Branch item i h, w, log, n) (Branch item (next_step k i []) h, tick w, log, n)"
| dm_fail: "in_range k i \<Longrightarrow> allowed_at env k i h w \<Longrightarrow> acting k i \<Longrightarrow>
    exec_step env None (wi_provider item) k i h (tick w) = (StepFailed e, w') \<Longrightarrow>
    daemon_step env k key (Branch item i h, w, log, n) (Settled (Some (item\<lparr>wi_resume := i\<rparr>)), w', log, n)"
| dm_end: "\<not> in_range k i \<Longrightarrow> daemon_step env k key (Branch item i h, w, log, n) (Settled None, w, log, n)"
| dm_gate: "in_range k i \<Longrightarrow> waits (step_verb (step_at k i)) \<Longrightarrow>
    enter_gate env k (item\<lparr>wi_resume := 0\<rparr>) i h (tick w) = (res, item', err, w') \<Longrightarrow>
    daemon_step env k key (Branch item i h, w, log, n) (Settled (Some item'), w', log, n)"
| dm_save: "w_save_watches env items w = (None, w') \<Longrightarrow> find_watch items key = v \<Longrightarrow>
    daemon_step env k key (Settled v, w, log, n) (Idle, w', log, n)"
| dm_done: "watch_of w key = Some item \<Longrightarrow> wi_done item \<Longrightarrow>
    daemon_step env k key (Idle, w, log, n) (Settled None, w, log, n)"
| dm_gone: "watch_of w key = Some item \<Longrightarrow> \<not> wi_done item \<Longrightarrow> prov_get env (wi_hold_id item) w = (Inl e, w1) \<Longrightarrow>
    errors_is e ErrNotFound \<Longrightarrow> daemon_step env k key (Idle, w, log, n) (Settled None, w1, log, n)"
| dm_unread: "watch_of w key = Some item \<Longrightarrow> \<not> wi_done item \<Longrightarrow> prov_get env (wi_hold_id item) w = (Inl e, w1) \<Longrightarrow>
    \<not> errors_is e ErrNotFound \<Longrightarrow> daemon_step env k key (Idle, w, log, n) (Settled (Some item), w1, log, n)"
| dm_stray: "watch_of w key = Some item \<Longrightarrow> \<not> wi_done item \<Longrightarrow> \<not> in_range k (wi_step item) \<Longrightarrow>
    prov_get env (wi_hold_id item) w = (Inr h, w1) \<Longrightarrow>
    daemon_step env k key (Idle, w, log, n) (Settled (Some item), w1, log, n)"
| dm_closed: "watch_of w key = Some item \<Longrightarrow> \<not> wi_done item \<Longrightarrow> wi_resume item \<le> 0 \<Longrightarrow> in_range k (wi_step item) \<Longrightarrow>
    prov_get env (wi_hold_id item) w = (Inr h, w1) \<Longrightarrow> now env w1 = (t, w2) \<Longrightarrow> branch_plan k item h t = None \<Longrightarrow>
    daemon_step env k key (Idle, w, log, n) (Settled (Some item), w2, log, n)"
| dm_crash: "daemon_step env k key (ph, w, log, n) (Idle, w, log, Suc n)"

inductive_cases daemon_step_elim: "daemon_step env k key s s'"

definition daemon_reaches :: "env \<Rightarrow> workflow \<Rightarrow> string \<times> string \<Rightarrow> machine \<Rightarrow> machine \<Rightarrow> bool" where
  "daemon_reaches env k key = (daemon_step env k key)\<^sup>*\<^sup>*"

section \<open>The order of actions\<close>

definition not_before :: "workflow \<Rightarrow> int \<Rightarrow> int \<Rightarrow> bool" where
  "not_before k a b \<longleftrightarrow> a = b \<or> after_step k a b"

lemma not_before_trans: "not_before k a b \<Longrightarrow> not_before k b c \<Longrightarrow> not_before k a c"
  by (auto simp: not_before_def after_step_def intro: trancl_trans)

text \<open>
  Workflows whose restarts are exact: validated, no step guarded, and no step jumping back to the
  creating step.
\<close>

definition restartable :: "workflow \<Rightarrow> bool" where
  "restartable k \<longleftrightarrow> well_formed k \<and> (\<forall>s \<in> set (wf_steps k). step_when s = no_guard) \<and> (\<forall>i. (i, 0) \<notin> jump_rel k)"

lemma restartable_runnable: "restartable k \<Longrightarrow> runnable k"
  by (simp add: restartable_def well_formed_runnable)

lemma restartable_allowed: "restartable k \<Longrightarrow> in_range k i \<Longrightarrow> allowed_at env k i h w"
proof -
  assume "restartable k" "in_range k i"
  moreover from this have "step_at k i \<in> set (wf_steps k)" by (intro nth_mem) (auto simp: in_range_def)
  ultimately show ?thesis by (simp add: restartable_def allowed_at_def)
qed

lemma restartable_acting:
  assumes "restartable k" and "in_range k i" and "0 < i"
  shows "acting k i \<or> waits (step_verb (step_at k i))"
proof -
  have i: "nat i < length (wf_steps k)" using assms(2) by (auto simp: in_range_def)
  then have "known (step_verb (step_at k i))"
    using assms(1) by (auto simp: restartable_def well_formed_def step_ok_def fields_ok_def)
  moreover have "creates (step_verb (step_at k i)) \<longleftrightarrow> nat i = 0"
    using assms(1) i by (auto simp: restartable_def well_formed_def)
  ultimately show ?thesis
    using assms(3) by (cases "step_verb (step_at k i)") (auto simp: acting_def)
qed

lemma jump_to_positive:
  assumes "restartable k" and "(nat a, nat b) \<in> jump_rel k" shows "0 < b"
  using assms by (cases "nat b") (auto simp: restartable_def)

lemma resume_of_after:
  assumes "restartable k" and "in_range k i" and "acting k i" and "0 \<le> resume_of k i"
  shows "0 < resume_of k i \<and> in_range k (resume_of k i) \<and> after_step k i (resume_of k i)"
proof -
  have r: "resume_of k i = next_step k i []" "step_verb (step_at k i) \<noteq> VerbCancel"
    using assms(4) by (auto simp: resume_of_def split: if_splits)
  then have range: "in_range k (next_step k i [])" using assms(4) next_step_in_range by simp
  have "\<not> waits (step_verb (step_at k i))" using assms(3) by (auto simp: acting_def)
  from next_jump[OF assms(2) this range] show ?thesis
    using r(1) range jump_to_positive[OF assms(1)] by (auto simp: after_step_def)
qed

lemma opened_after:
  assumes "restartable k" and "in_range k (wi_step item)" and "waits (step_verb (step_at k (wi_step item)))"
    and "branch_plan k item h t = Some (i, on_end)" and "0 \<le> i"
  shows "0 < i \<and> in_range k i \<and> after_step k (wi_step item) i"
proof -
  let ?s = "wi_step item"
  have "i \<in> set (jump_targets k ?s)"
  proof (cases "step_verb (step_at k ?s) = VerbWait")
    case True
    then have "i = next_step k ?s []" using assms(4) by (auto simp: branch_plan_def Let_def split: if_splits)
    with True assms(5) next_step_jump[of k ?s] show ?thesis by simp
  next
    case False
    then have verb: "step_verb (step_at k ?s) = VerbApprove" using assms(3) by (simp add: waits_def)
    from branch_plan_opened[OF assms(4) False] show ?thesis
    proof (elim disjE)
      assume "on_end = PollApproved \<and> gate_response h item = ResponseAccepted \<and> i = next_step k ?s OutcomeAccepted"
      then show ?thesis using verb assms(5) by (auto simp: jump_targets_def Let_def set_add_target)
    next
      assume "on_end = PollDeclined \<and> gate_response h item = ResponseDeclined \<and> i = branch_start k (step_at k ?s) OutcomeDeclined"
      then show ?thesis using branch_start_jump[OF assms(2) verb, of OutcomeDeclined] assms(5) by simp
    next
      assume e: "on_end = PollExpired \<and> gate_response h item \<noteq> ResponseAccepted \<and> gate_response h item \<noteq> ResponseDeclined
        \<and> 0 < parsed_timeout (step_at k ?s) \<and> parsed_timeout (step_at k ?s) < time_sub t (wi_created item)
        \<and> i = branch_start k (step_at k ?s) OutcomeExpired"
      then have "step_timeout (step_at k ?s) \<noteq> []" by (auto simp: parsed_timeout_def split: if_splits)
      then show ?thesis using branch_start_jump[OF assms(2) verb, of OutcomeExpired] e assms(5) by simp
    qed
  qed
  then have "(nat ?s, nat i) \<in> jump_rel k" "in_range k i"
    using assms(2,5) jump_targets_range[of i k ?s] by (auto simp: jump_rel_def in_range_def)
  then show ?thesis using jump_to_positive[OF assms(1)] by (auto simp: after_step_def)
qed

section \<open>The invariant\<close>

text \<open>
  Where the next poll would start from the item on disk: the resume step, or past the gate it waits
  at. Every logged action is not after that point, and if it is that point itself, a crash has
  already been counted for the repetition to come.
\<close>

definition repeats :: "int list \<Rightarrow> nat" where
  "repeats log = length log - card (set log)"

definition log_upto :: "workflow \<Rightarrow> int \<Rightarrow> int list \<Rightarrow> nat \<Rightarrow> bool" where
  "log_upto k i log n \<longleftrightarrow> (\<forall>a \<in> set log. not_before k a i) \<and> (i \<in> set log \<longrightarrow> repeats log < n)"

definition item_ok :: "workflow \<Rightarrow> string \<times> string \<Rightarrow> int list \<Rightarrow> nat \<Rightarrow> watch_item \<Rightarrow> bool" where
  "item_ok k key log n item \<longleftrightarrow> watch_key item = key \<and>
     (\<not> wi_done item \<longrightarrow> in_range k (wi_step item) \<and> waits (step_verb (step_at k (wi_step item))) \<and> 0 \<le> wi_resume item
        \<and> (if 0 < wi_resume item then log_upto k (wi_resume item) log n
           else \<forall>a \<in> set log. after_step k a (wi_step item)))"

definition entry_ok :: "workflow \<Rightarrow> string \<times> string \<Rightarrow> int list \<Rightarrow> nat \<Rightarrow> watch_item option \<Rightarrow> bool" where
  "entry_ok k key log n v \<longleftrightarrow> (\<forall>item. v = Some item \<longrightarrow> item_ok k key log n item)"

definition log_ok :: "workflow \<Rightarrow> int list \<Rightarrow> nat \<Rightarrow> bool" where
  "log_ok k log n \<longleftrightarrow> sorted_wrt (not_before k) log \<and> (\<forall>a \<in> set log. acting k a) \<and> repeats log \<le> n"

definition fresh_item :: "workflow \<Rightarrow> string \<times> string \<Rightarrow> watch_item \<Rightarrow> bool" where
  "fresh_item k key item \<longleftrightarrow> watch_key item = key \<and> \<not> wi_done item \<and> in_range k (wi_step item)
     \<and> waits (step_verb (step_at k (wi_step item)))"

text \<open>The item in memory while a branch runs, with what the disk holds for it.\<close>

definition branch_ok :: "workflow \<Rightarrow> string \<times> string \<Rightarrow> world \<Rightarrow> watch_item \<Rightarrow> int \<Rightarrow> int list \<Rightarrow> nat \<Rightarrow> bool" where
  "branch_ok k key w item i log n \<longleftrightarrow> fresh_item k key item
     \<and> (if in_range k i then 0 < i \<and> log_upto k i log n \<and> watch_of w key = Some (item\<lparr>wi_resume := i\<rparr>)
        else entry_ok k key log n (watch_of w key))"

fun phase_ok :: "workflow \<Rightarrow> string \<times> string \<Rightarrow> machine \<Rightarrow> bool" where
  "phase_ok k key (Idle, w, log, n) = entry_ok k key log n (watch_of w key)"
| "phase_ok k key (Opened item i h, w, log, n) \<longleftrightarrow> entry_ok k key log n (watch_of w key) \<and> fresh_item k key item
     \<and> (0 \<le> i \<longrightarrow> 0 < i \<and> in_range k i \<and> (\<forall>a \<in> set log. after_step k a i))"
| "phase_ok k key (Branch item i h, w, log, n) = branch_ok k key w item i log n"
| "phase_ok k key (Acted item i h, w, log, n) \<longleftrightarrow> fresh_item k key item \<and> in_range k i \<and> 0 < i \<and> acting k i
     \<and> (\<forall>a \<in> set log. not_before k a i)
     \<and> (watch_of w key = None \<or> watch_of w key = Some (item\<lparr>wi_resume := i\<rparr>))"
| "phase_ok k key (Settled v, w, log, n) \<longleftrightarrow> entry_ok k key log n v \<and> entry_ok k key log n (watch_of w key)"

definition machine_ok :: "workflow \<Rightarrow> string \<times> string \<Rightarrow> machine \<Rightarrow> bool" where
  "machine_ok k key s \<longleftrightarrow> phase_ok k key s \<and> (case s of (ph, w, log, n) \<Rightarrow> log_ok k log n \<and> readable w)"

lemma repeats_snoc: "repeats (log @ [a]) = (if a \<in> set log then Suc (repeats log) else repeats log)"
proof -
  have "card (set log) \<le> length log" by (rule card_length)
  then show ?thesis by (simp add: repeats_def insert_absorb Suc_diff_le)
qed

lemma log_upto_mono: "log_upto k i log n \<Longrightarrow> log_upto k i log (Suc n)"
  by (auto simp: log_upto_def)

lemma entry_ok_mono: "entry_ok k key log n v \<Longrightarrow> entry_ok k key log (Suc n) v"
  by (auto simp: entry_ok_def item_ok_def log_upto_mono)

lemma entry_ok_None [simp]: "entry_ok k key log n None"
  by (simp add: entry_ok_def)

lemma fresh_item_entry:
  "fresh_item k key item \<Longrightarrow> 0 < i \<Longrightarrow> log_upto k i log n \<Longrightarrow> entry_ok k key log n (Some (item\<lparr>wi_resume := i\<rparr>))"
  by (simp add: entry_ok_def item_ok_def fresh_item_def watch_key_def)

lemma done_entry: "wi_done item \<Longrightarrow> watch_key item = key \<Longrightarrow> entry_ok k key log n (Some item)"
  by (simp add: entry_ok_def item_ok_def)

lemma not_before_irrefl: "runnable k \<Longrightarrow> after_step k a b \<Longrightarrow> a \<noteq> b"
  by (auto simp: runnable_def acyclic_def after_step_def)

lemma log_act:
  assumes "log_ok k log n" and "log_upto k i log n" and "acting k i"
  shows "log_ok k (log @ [i]) n"
  using assms by (auto simp: log_ok_def log_upto_def sorted_wrt_append repeats_snoc)

lemma log_upto_next:
  assumes "restartable k" and "0 \<le> i" and "0 \<le> j" and "\<forall>a \<in> set log. not_before k a i" and "after_step k i j"
  shows "\<forall>a \<in> set log. after_step k a j"
  using assms(4,5) by (auto simp: not_before_def after_step_def intro: trancl_trans)

lemma log_upto_new: "runnable k \<Longrightarrow> \<forall>a \<in> set log. after_step k a j \<Longrightarrow> log_upto k j log n"
  using not_before_irrefl by (force simp: log_upto_def not_before_def)

section \<open>The invariant is kept\<close>

text \<open>Without a checkpoint, an action leaves the watch file alone, or forgets a canceled hold.\<close>

lemma act_watch:
  assumes "exec_step env None prov k i h w = (r, w')" and "writes_ok env" and "readable w"
  shows "readable w' \<and> (watch_of w' key = watch_of w key \<or> r = StepEnd \<and> watch_of w' key = None)"
proof -
  have same: ?thesis if "w_watches w' = w_watches w"
    using watch_of_cong[OF that, of key] assms(3) by simp
  show ?thesis
  proof (cases "step_verb (step_at k i) = VerbCancel")
    case False
    have "w_watches w' = w_watches w"
      using assms(1) False
      by (cases "step_verb (step_at k i)")
        (auto simp: exec_step_def Let_def finish_step_def checkpoint_at_def action_watches
          split: prod.splits option.splits)
    then show ?thesis by (rule same)
  next
    case True
    obtain d w1 where d: "prov_delete env (hold_id h) w = (d, w1)" by fastforce
    then have w1: "w_watches w1 = w_watches w" by (auto simp: prov_delete_def split: option.splits)
    show ?thesis
    proof (cases d)
      case (Some e)
      then have "w' = w1" using assms(1) True d by (auto simp: exec_step_def Let_def)
      with same w1 show ?thesis by simp
    next
      case None
      let ?w2 = "snd (w_remove_watch env prov (hold_id h) w1)"
      have "readable w1" and w1k: "watch_of w1 key = watch_of w key" using watch_of_cong[OF w1] assms(3) by blast+
      note rm = w_remove_watch_ok[OF assms(2) \<open>readable w1\<close>, of prov "hold_id h"]
      have "w_watches w' = w_watches ?w2" "r = StepEnd"
        using assms(1) True d None by (auto simp: exec_step_def Let_def checkpoint_at_def)
      then show ?thesis using rm(1) rm(2)[of key] w1k watch_of_cong[of w' ?w2 key] by auto
    qed
  qed
qed

lemma branch_next_ok:
  assumes k: "restartable k" and item: "fresh_item k key item" and ok: "writes_ok env" "readable w"
    and j: "0 \<le> j \<longrightarrow> 0 < j \<and> in_range k j \<and> (\<forall>a \<in> set log. after_step k a j)"
  shows "branch_ok k key (checkpoint_at env (Some item) j w) item j log n \<and> readable (checkpoint_at env (Some item) j w)"
proof -
  note cp = checkpoint_at_ok[OF ok, of item j]
  have key: "watch_key item = key" using item by (simp add: fresh_item_def)
  show ?thesis
  proof (cases "0 \<le> j")
    case True
    then have "log_upto k j log n" using j log_upto_new[OF restartable_runnable[OF k]] by blast
    then show ?thesis using True j cp item key by (simp add: branch_ok_def checkpoint_item_def)
  next
    case False
    then have "\<not> in_range k j" by (simp add: in_range_def)
    moreover have "entry_ok k key log n (Some (checkpoint_item item j))"
      using False key by (intro done_entry) (auto simp: checkpoint_item_def watch_key_def)
    ultimately show ?thesis using cp item key by (simp add: branch_ok_def)
  qed
qed

lemma unchanged_entry:
  "w_watches w' = w_watches w \<Longrightarrow> watch_of w' key = watch_of w key \<and> readable w' = readable w"
  using watch_of_cong[of w' w key] by blast

lemma daemon_step_keeps:
  assumes step: "daemon_step env k key s s'" and k: "restartable k" and env: "writes_ok env"
    and inv: "machine_ok k key s"
  shows "machine_ok k key s'"
  using step inv
proof (cases rule: daemon_step.cases)
  case (dm_open w item h w1 t w2 i on_end log n)
  have item: "item_ok k key log n item" using inv dm_open by (simp add: machine_ok_def entry_ok_def)
  then have fresh: "fresh_item k key item" and log: "\<forall>a \<in> set log. after_step k a (wi_step item)"
    using dm_open by (auto simp: item_ok_def fresh_item_def)
  have w: "w_watches (record_gate_outcome env k item h on_end w2) = w_watches w"
    using dm_open by (auto simp: prov_get_def now_def record_gate_outcome_def)
  have "0 < i \<and> in_range k i \<and> (\<forall>a \<in> set log. after_step k a i)" if "0 \<le> i"
    using opened_after[OF k _ _ _ that] dm_open fresh log
    by (auto simp: fresh_item_def after_step_def intro: trancl_trans)
  then show ?thesis
    using inv dm_open fresh watch_of_cong[OF w, of key] by (simp add: machine_ok_def)
next
  case (dm_commit item i h w log n)
  then show ?thesis
    using inv branch_next_ok[OF k _ env, of key item w i log n] by (auto simp: machine_ok_def)
next
  case (dm_resume w item h w1 log n)
  have item: "item_ok k key log n item" using inv dm_resume by (simp add: machine_ok_def entry_ok_def)
  have w: "w_watches w1 = w_watches w" using dm_resume by (auto simp: prov_get_def)
  have "branch_ok k key w1 item (wi_resume item) log n"
    using item dm_resume watch_of_cong[OF w, of key] inv
    by (auto simp: branch_ok_def item_ok_def fresh_item_def machine_ok_def)
  then show ?thesis using inv dm_resume watch_of_cong[OF w, of key] by (simp add: machine_ok_def)
next
  case (dm_act i h w item r w' log n)
  have b: "0 < i" "log_upto k i log n" "watch_of w key = Some (item\<lparr>wi_resume := i\<rparr>)" "fresh_item k key item"
    using inv dm_act by (auto simp: machine_ok_def branch_ok_def)
  have "readable (tick w)" using inv dm_act watch_of_cong[of "tick w" w key] by (simp add: machine_ok_def)
  from act_watch[OF dm_act(6) env this, of key] b
  have "readable w'" "watch_of w' key = None \<or> watch_of w' key = Some (item\<lparr>wi_resume := i\<rparr>)" by auto
  then show ?thesis
    using inv dm_act b log_act[of k log n i] by (auto simp: machine_ok_def log_upto_def not_before_def)
next
  case (dm_checkpoint item i h w log n)
  have a: "fresh_item k key item" "in_range k i" "acting k i" "\<forall>a \<in> set log. not_before k a i"
    using inv dm_checkpoint by (auto simp: machine_ok_def)
  have "0 < resume_of k i \<and> in_range k (resume_of k i) \<and> (\<forall>a \<in> set log. after_step k a (resume_of k i))"
    if "0 \<le> resume_of k i"
    using resume_of_after[OF k a(2,3) that] log_upto_next[OF k _ that a(4)] a(2) by (auto simp: in_range_def)
  then show ?thesis
    using inv dm_checkpoint branch_next_ok[OF k a(1) env, of w "resume_of k i" log n] by (auto simp: machine_ok_def)
next
  case (dm_skip i h w item log n)
  have "0 < i" using inv dm_skip by (auto simp: machine_ok_def branch_ok_def)
  then show ?thesis
    using dm_skip restartable_allowed[OF k dm_skip(3)] restartable_acting[OF k dm_skip(3)] by blast
next
  case (dm_fail i h w item e w' log n)
  have b: "0 < i" "log_upto k i log n" "watch_of w key = Some (item\<lparr>wi_resume := i\<rparr>)" "fresh_item k key item"
    using inv dm_fail by (auto simp: machine_ok_def branch_ok_def)
  have "readable (tick w)" using inv dm_fail watch_of_cong[of "tick w" w key] by (simp add: machine_ok_def)
  from act_watch[OF dm_fail(6) env this, of key] b
  have "readable w'" "watch_of w' key = Some (item\<lparr>wi_resume := i\<rparr>)" by auto
  then show ?thesis
    using inv dm_fail fresh_item_entry[OF b(4,1,2)] by (simp add: machine_ok_def)
next
  case (dm_end i item h w log n)
  then show ?thesis using inv by (simp add: machine_ok_def branch_ok_def)
next
  case (dm_gate i item h w res item' err w' log n)
  have b: "0 < i" "log_upto k i log n" "watch_of w key = Some (item\<lparr>wi_resume := i\<rparr>)" "fresh_item k key item"
    using inv dm_gate by (auto simp: machine_ok_def branch_ok_def)
  note g = enter_gate_item[OF dm_gate(5)]
  have "\<forall>a \<in> set log. after_step k a i"
  proof
    fix a assume "a \<in> set log"
    moreover from this have "acting k a" using inv dm_gate by (simp add: machine_ok_def log_ok_def)
    then have "a \<noteq> i" using dm_gate(4) by (auto simp: acting_def)
    ultimately show "after_step k a i" using b(2) by (auto simp: log_upto_def not_before_def)
  qed
  then have "entry_ok k key log n (Some item')"
    using g b(4) dm_gate by (simp add: entry_ok_def item_ok_def fresh_item_def watch_key_def)
  moreover have "w_watches w' = w_watches w" using g by simp
  ultimately show ?thesis
    using inv dm_gate watch_of_cong[of w' w key] b fresh_item_entry[OF b(4,1,2)] by (simp add: machine_ok_def)
next
  case (dm_save items w w' v log n)
  then have "w_watches w' = Content items"
    by (auto simp: w_save_watches_def save_watches_def split: option.splits prod.splits)
  then have "watch_of w' key = v" "readable w'" using dm_save by (simp_all add: watch_of_def readable_def)
  then show ?thesis using inv dm_save by (simp add: machine_ok_def)
next
  case (dm_done w item log n)
  then show ?thesis using inv by (simp add: machine_ok_def)
next
  case (dm_gone w item e w1 log n)
  then show ?thesis using inv unchanged_entry[of w1 w key] by (auto simp: machine_ok_def prov_get_def)
next
  case (dm_unread w item e w1 log n)
  then show ?thesis using inv unchanged_entry[of w1 w key] by (auto simp: machine_ok_def prov_get_def)
next
  case (dm_stray w item h w1 log n)
  then show ?thesis using inv unchanged_entry[of w1 w key] by (auto simp: machine_ok_def prov_get_def)
next
  case (dm_closed w item h w1 t w2 log n)
  then show ?thesis using inv unchanged_entry[of w2 w key] by (auto simp: machine_ok_def prov_get_def now_def)
next
  case (dm_crash ph w log n)
  have base: "phase_ok k key (ph, w, log, n)" "log_ok k log n" "readable w"
    using inv dm_crash by (simp_all add: machine_ok_def)
  have "entry_ok k key log (Suc n) (watch_of w key)"
  proof (cases ph)
    case (Branch item i h)
    with base show ?thesis
      using fresh_item_entry[of k key item i log "Suc n"] entry_ok_mono log_upto_mono
      by (cases "in_range k i") (auto simp: branch_ok_def)
  next
    case (Acted item i h)
    with base(1,2) have "log_upto k i log (Suc n)" by (simp add: log_upto_def log_ok_def)
    with base(1) Acted show ?thesis using fresh_item_entry[of k key item i log "Suc n"] by auto
  qed (use base entry_ok_mono in auto)
  then show ?thesis using base dm_crash by (simp add: machine_ok_def log_ok_def)
qed

lemma daemon_reaches_keeps:
  assumes "daemon_reaches env k key s s'" and "restartable k" and "writes_ok env" and "machine_ok k key s"
  shows "machine_ok k key s'"
  using assms(1,4) unfolding daemon_reaches_def
  by (induction rule: rtranclp_induct) (auto intro: daemon_step_keeps assms(2,3))

text \<open>From a watch at its first gate: actions run in flow order, and \<open>n\<close> crashes repeat at most \<open>n\<close> of them.\<close>

lemma machine_start:
  assumes "watch_of w key = Some item" and "fresh_item k key item" and "wi_resume item = 0" and "readable w"
  shows "machine_ok k key (Idle, w, [], 0)"
  using assms by (simp add: machine_ok_def entry_ok_def item_ok_def fresh_item_def log_ok_def repeats_def)

lemma crash_repeats_only_last:
  assumes "daemon_reaches env k key (Idle, w, [], 0) (ph, w', log, n)"
    and "restartable k" and "writes_ok env" and "readable w"
    and "watch_of w key = Some item" and "fresh_item k key item" and "wi_resume item = 0"
  shows "sorted_wrt (not_before k) log \<and> length log \<le> card (set log) + n"
proof -
  have "machine_ok k key (ph, w', log, n)"
    using daemon_reaches_keeps[OF assms(1-3)] machine_start assms by blast
  then show ?thesis by (auto simp: machine_ok_def log_ok_def repeats_def)
qed

section \<open>The daemon's functions take these steps\<close>

text \<open>Executing a step with a checkpoint is the action, then the checkpoint.\<close>

lemma exec_step_split:
  assumes "acting k i"
  shows "exec_step env (Some item) prov k i h w =
     (case exec_step env None prov k i h w of
        (StepFailed e, w) \<Rightarrow> (StepFailed e, w)
      | (r, w) \<Rightarrow> (r, checkpoint_at env (Some item) (resume_of k i) w))"
  using assms
  by (cases "step_verb (step_at k i)")
    (auto simp: exec_step_def Let_def finish_step_def acting_def resume_of_def checkpoint_at_def[of env None]
      split: prod.splits option.splits)

lemma exec_step_idle:
  assumes "\<not> acting k i"
  shows "exec_step env cp prov k i h w = (StepNext, w)"
  using assms by (cases "step_verb (step_at k i)") (auto simp: exec_step_def acting_def Let_def)

lemma daemon_reaches_step: "daemon_step env k key s t \<Longrightarrow> daemon_reaches env k key t u \<Longrightarrow> daemon_reaches env k key s u"
  unfolding daemon_reaches_def by (rule converse_rtranclp_into_rtranclp)

lemma daemon_reaches_refl: "daemon_reaches env k key s s"
  unfolding daemon_reaches_def by simp

text \<open>Where the machine is when the walk has returned.\<close>

fun walk_phase :: "workflow \<Rightarrow> watch_item \<Rightarrow> hold \<Rightarrow> int \<times> error option \<times> world \<Rightarrow> phase \<Rightarrow> world \<Rightarrow> bool" where
  "walk_phase k item h (g, Some e, w') ph w2 \<longleftrightarrow> ph = Settled (Some (item\<lparr>wi_resume := g\<rparr>)) \<and> w2 = w'"
| "walk_phase k item h (g, None, w') ph w2 \<longleftrightarrow>
     (if g < 0 then ph = Settled None \<and> w2 = w'
      else ph = Branch item g h \<and> w' = tick w2 \<and> in_range k g \<and> waits (step_verb (step_at k g)))"

lemma exec_step_acted:
  assumes "acting k i" and "exec_step env (Some item) prov k i h w = (r, w')" and "r = StepNext \<or> r = StepEnd"
  obtains w1 where "exec_step env None prov k i h w = (r, w1)"
    and "w' = checkpoint_at env (Some item) (resume_of k i) w1"
    and "r = StepNext \<Longrightarrow> resume_of k i = next_step k i []" and "r = StepEnd \<Longrightarrow> resume_of k i = -1"
proof -
  obtain q w1 where q: "exec_step env None prov k i h w = (q, w1)" by fastforce
  then have "q = r" "w' = checkpoint_at env (Some item) (resume_of k i) w1"
    using assms(2,3) exec_step_split[OF assms(1), of env item prov h w] by (auto split: step_result.splits)
  moreover have "r = StepEnd \<Longrightarrow> resume_of k i = -1"
    using exec_step_end[of env "Some item" prov k i h w w'] assms(2) by (simp add: resume_of_def)
  moreover have "r = StepNext \<Longrightarrow> step_verb (step_at k i) \<noteq> VerbCancel"
    using assms(2) by (auto simp: exec_step_def Let_def split: prod.splits option.splits)
  ultimately show thesis using that q by (auto simp: resume_of_def)
qed

text \<open>The walk of a branch, from any step, is a path of the machine to the end of its branch.\<close>

lemma walks_simulated:
  "walks env (Some item) (wi_provider item) k h i w xs r \<Longrightarrow> runnable k \<Longrightarrow>
    \<exists>ph w2. daemon_reaches env k key (Branch item i h, w, log, n) (ph, w2, log @ filter (acting k) xs, n)
      \<and> walk_phase k item h r ph w2"
proof (induction arbitrary: log rule: walks.induct)
  case (walks_end i w)
  then show ?case
    by (intro exI[of _ "Settled None"] exI[of _ w]) (simp add: daemon_reaches_step[OF dm_end daemon_reaches_refl])
next
  case (walks_skip i w xs r)
  have "\<not> waits (step_verb (step_at k i))" using walks_skip.hyps walks_skip.prems gate_allowed by blast
  then have "daemon_step env k key (Branch item i h, w, log, n) (Branch item (next_step k i []) h, tick w, log, n)"
    using walks_skip.hyps by (intro dm_skip) auto
  then show ?case using walks_skip.IH[OF walks_skip.prems, of log] daemon_reaches_step by blast
next
  case (walks_gate i w)
  then show ?case
    by (intro exI[of _ "Branch item i h"] exI[of _ w]) (auto simp: daemon_reaches_refl in_range_def)
next
  case (walks_fail i w e w2)
  have act: "acting k i"
  proof (rule ccontr)
    assume "\<not> acting k i"
    from exec_step_idle[OF this, of env "Some item" "wi_provider item" h "tick w"] walks_fail.hyps(4) show False by simp
  qed
  then have "exec_step env None (wi_provider item) k i h (tick w) = (StepFailed e, w2)"
    using walks_fail.hyps(4) exec_step_split[OF act, of env item "wi_provider item" h "tick w"]
    by (auto split: prod.splits step_result.splits)
  from dm_fail[OF walks_fail.hyps(1,2) act this] show ?case
    using daemon_reaches_step[OF _ daemon_reaches_refl]
    by (intro exI[of _ "Settled (Some (item\<lparr>wi_resume := i\<rparr>))"] exI[of _ w2]) auto
next
  case (walks_cancel i w w2)
  have act: "acting k i" using exec_step_end[OF walks_cancel.hyps(4)] by (simp add: acting_def)
  obtain w1 where w1: "exec_step env None (wi_provider item) k i h (tick w) = (StepEnd, w1)"
    and w2: "w2 = checkpoint_at env (Some item) (resume_of k i) w1" and r: "resume_of k i = -1"
    using exec_step_acted[OF act walks_cancel.hyps(4)] by blast
  have "daemon_reaches env k key (Branch item i h, w, log, n) (Settled None, w2, log @ [i], n)"
  proof (rule daemon_reaches_step)
    show "daemon_step env k key (Branch item i h, w, log, n) (Acted item i h, w1, log @ [i], n)"
      using dm_act[OF walks_cancel.hyps(1,2) act w1] by simp
    show "daemon_reaches env k key (Acted item i h, w1, log @ [i], n) (Settled None, w2, log @ [i], n)"
    proof -
      have out: "\<not> in_range k (resume_of k i)" using r by (simp add: in_range_def)
      show ?thesis unfolding w2
        by (rule daemon_reaches_step[OF dm_checkpoint daemon_reaches_step[OF dm_end[OF out] daemon_reaches_refl]])
    qed
  qed
  then show ?case using act by (intro exI[of _ "Settled None"] exI[of _ w2]) simp
next
  case (walks_next i w w2 xs r)
  show ?case
  proof (cases "acting k i")
    case True
    obtain w1 where w1: "exec_step env None (wi_provider item) k i h (tick w) = (StepNext, w1)"
      and w2: "w2 = checkpoint_at env (Some item) (next_step k i []) w1"
      using exec_step_acted[OF True walks_next.hyps(4)] by metis
    have "resume_of k i = next_step k i []"
      using exec_step_acted[OF True walks_next.hyps(4)] by metis
    then have "daemon_reaches env k key (Branch item i h, w, log, n) (Branch item (next_step k i []) h, w2, log @ [i], n)"
      using daemon_reaches_step[OF dm_act[OF walks_next.hyps(1,2) True w1]
          daemon_reaches_step[OF dm_checkpoint daemon_reaches_refl], of key log n] w2 by simp
    moreover obtain ph w3 where "daemon_reaches env k key (Branch item (next_step k i []) h, w2, log @ [i], n)
        (ph, w3, (log @ [i]) @ filter (acting k) xs, n)" "walk_phase k item h r ph w3"
      using walks_next.IH[OF walks_next.prems, of "log @ [i]"] by blast
    ultimately show ?thesis
      using True unfolding daemon_reaches_def
      by (intro exI[of _ ph] exI[of _ w3]) (auto intro: rtranclp_trans)
  next
    case False
    then have "w2 = tick w"
      using exec_step_idle[OF False, of env "Some item" "wi_provider item" h "tick w"] walks_next.hyps(4) by simp
    then have "daemon_step env k key (Branch item i h, w, log, n) (Branch item (next_step k i []) h, w2, log, n)"
      using dm_skip[OF walks_next.hyps(1,3)] False by blast
    from daemon_reaches_step[OF this] walks_next.IH[OF walks_next.prems, of log]
    have "\<exists>ph w3. daemon_reaches env k key (Branch item i h, w, log, n) (ph, w3, log @ filter (acting k) xs, n)
      \<and> walk_phase k item h r ph w3" by blast
    with False show ?thesis by simp
  qed
qed

text \<open>A branch run by the daemon, whatever its outcome, is a path of the machine to the write it leads to.\<close>

definition kept_item :: "poll_result \<Rightarrow> watch_item \<Rightarrow> watch_item option" where
  "kept_item res item = (if res \<in> {PollAdvanced, PollFailed, PollPending} then Some item else None)"

lemma daemon_reaches_trans: "daemon_reaches env k key s t \<Longrightarrow> daemon_reaches env k key t u \<Longrightarrow> daemon_reaches env k key s u"
  unfolding daemon_reaches_def by (rule rtranclp_trans)

lemma advance_simulated:
  assumes "runnable k" and "advance_to_next_gate env k item h i oe w = (res, item', err, w')"
    and "oe \<in> {PollApproved, PollDeclined, PollExpired}"
  shows "\<exists>xs. daemon_reaches env k key (Branch item i h, w, log, n) (Settled (kept_item res item'), w', log @ xs, n)"
proof -
  obtain g e w2 where r: "walk_steps env (Some item) (wi_provider item) k [] i h w = (g, e, w2)"
    by (cases "walk_steps env (Some item) (wi_provider item) k [] i h w") auto
  then obtain xs where "walks env (Some item) (wi_provider item) k h i w xs (g, e, w2)"
    using walk_steps_result[OF assms(1), of env "Some item" "wi_provider item" h i w] by auto
  from walks_simulated[OF this assms(1), of key log n] obtain ph w3 where
    path: "daemon_reaches env k key (Branch item i h, w, log, n) (ph, w3, log @ filter (acting k) xs, n)"
    and ph: "walk_phase k item h (g, e, w2) ph w3" by blast
  show ?thesis
  proof (cases e)
    case (Some err')
    with r ph assms(2) path show ?thesis by (auto simp: advance_to_next_gate_def kept_item_def)
  next
    case None
    show ?thesis
    proof (cases "g < 0")
      case True
      with r ph None assms(2,3) path show ?thesis by (auto simp: advance_to_next_gate_def kept_item_def)
    next
      case False
      then have eg: "enter_gate env k (item\<lparr>wi_resume := 0\<rparr>) g h (tick w3) = (res, item', err, w')"
        and g: "ph = Branch item g h" "in_range k g" "waits (step_verb (step_at k g))"
        using r ph None assms(2) by (auto simp: advance_to_next_gate_def)
      have "kept_item res item' = Some item'"
        using enter_gate_result[of env k "item\<lparr>wi_resume := 0\<rparr>" g h "tick w3"] eg by (auto simp: kept_item_def)
      then have "daemon_reaches env k key (Branch item i h, w, log, n)
          (Settled (kept_item res item'), w', log @ filter (acting k) xs, n)"
        using daemon_reaches_trans[OF path] daemon_reaches_step[OF dm_gate[OF g(2,3) eg] daemon_reaches_refl] g(1)
        by metis
      then show ?thesis by blast
    qed
  qed
qed

lemma advance_run_simulated:
  assumes "ld (wi_workflow item) = Inr k" and "runnable k" and "watch_of w key = Some item"
    and "advance_run env ld item w = (res, item', err, w')"
  shows "\<exists>xs. daemon_reaches env k key (Idle, w, log, n) (Settled (kept_item res item'), w', log @ xs, n)"
proof -
  have settled: "\<exists>xs. daemon_reaches env k key (Idle, w, log, n) (Settled (kept_item res item'), w', log @ xs, n)"
    if "daemon_step env k key (Idle, w, log, n) (Settled (kept_item res item'), w', log, n)"
    by (rule exI[of _ "[]"]) (use daemon_reaches_step[OF that daemon_reaches_refl] in simp)
  show ?thesis
  proof (cases "wi_done item")
    case True
    then have "res = PollApproved" "w' = w" using assms(1,4) by (auto simp: advance_run_def)
    then show ?thesis using dm_done[OF assms(3) True] by (intro settled) (simp add: kept_item_def)
  next
    case live: False
    show ?thesis
    proof (cases "e_get env (w_tick w) (wi_hold_id item)")
      case (Inl e)
      then have get: "prov_get env (wi_hold_id item) w = (Inl e, tick w)" by (simp add: prov_get_def)
      show ?thesis
      proof (cases "errors_is e ErrNotFound")
        case True
        then have "res = PollGone" "w' = tick w" using assms(1,4) live get by (auto simp: advance_run_def)
        then show ?thesis using dm_gone[OF assms(3) live get True] by (intro settled) (simp add: kept_item_def)
      next
        case False
        then have "res = PollFailed" "item' = item" "w' = tick w" using assms(1,4) live get by (auto simp: advance_run_def)
        then show ?thesis using dm_unread[OF assms(3) live get False] by (intro settled) (simp add: kept_item_def)
      qed
    next
      case (Inr h)
      then have get: "prov_get env (wi_hold_id item) w = (Inr h, tick w)" by (simp add: prov_get_def)
      have range: "wi_step item < 0 \<or> num_steps k \<le> wi_step item \<longleftrightarrow> \<not> in_range k (wi_step item)"
        by (auto simp: in_range_def)
      show ?thesis
      proof (cases "in_range k (wi_step item)")
        case False
        then have "res = PollPending" "item' = item" "w' = tick w"
          using assms(1,4) live get by (auto simp: advance_run_def range)
        then show ?thesis using dm_stray[OF assms(3) live False get] by (intro settled) (simp add: kept_item_def)
      next
        case inr: True
        show ?thesis
        proof (cases "0 < wi_resume item")
          case True
          then have "advance_to_next_gate env k item h (wi_resume item) PollApproved (tick w) = (res, item', err, w')"
            using assms(1,4) live inr get by (simp add: advance_run_def range)
          from advance_simulated[OF assms(2) this, of key log n] show ?thesis
            using daemon_reaches_step[OF dm_resume[OF assms(3) live True inr get]] by blast
        next
          case False
          then have resume: "wi_resume item \<le> 0" by simp
          obtain t w2 where t: "now env (tick w) = (t, w2)" by fastforce
          show ?thesis
          proof (cases "branch_plan k item h t")
            case None
            then have "res = PollPending" "item' = item" "w' = w2"
              using assms(1,4) live inr get t False by (auto simp: advance_run_def range)
            then show ?thesis using dm_closed[OF assms(3) live resume inr get t None]
              by (intro settled) (simp add: kept_item_def)
          next
            case (Some p)
            obtain i oe where plan: "branch_plan k item h t = Some (i, oe)" using Some by (cases p) auto
            have oe: "oe \<in> {PollApproved, PollDeclined, PollExpired}"
              using plan by (auto simp: branch_plan_def Let_def split: if_splits response.splits)
            let ?w3 = "record_gate_outcome env k item h oe w2"
            have "advance_to_next_gate env k item h i oe (checkpoint_at env (Some item) i ?w3) = (res, item', err, w')"
              using assms(1,4) live inr get t plan False by (simp add: advance_run_def range Let_def)
            from advance_simulated[OF assms(2) this oe, of key log n] obtain xs where
              "daemon_reaches env k key (Branch item i h, checkpoint_at env (Some item) i ?w3, log, n)
                (Settled (kept_item res item'), w', log @ xs, n)" by blast
            from daemon_reaches_step[OF dm_open[OF assms(3) live resume inr get t plan]
                daemon_reaches_step[OF dm_commit this]]
            show ?thesis by blast
          qed
        qed
      qed
    qed
  qed
qed

end
