(* ===== verification/Daemon_Properties.thy ===== *)
theory Daemon_Properties
  imports Crash Scenario
begin

text \<open>
  What the daemon establishes: a gate opens only on the approver's answer or its timeout, an advanced run
  waits at a gate whose approver was invited, a crash repeats at most the step it interrupted, and the
  functions of the daemon are paths of the crash machine. Three behaviours that break what the daemon
  means to do are stated as they are.
\<close>

section \<open>Effects of one advance\<close>

lemma record_gate_outcome_frame [simp, frame]:
  "w_trace (record_gate_outcome env k item h oe w) = w_trace w"
  "w_watches (record_gate_outcome env k item h oe w) = w_watches w"
  by (simp_all add: record_gate_outcome_def)

lemma advance_nowhere:
  "\<not> in_range k i \<Longrightarrow> advance_to_next_gate env k item h i oe w = (oe, item\<lparr>wi_resume := 0\<rparr>, None, w)"
  by (simp add: advance_to_next_gate_def walk_steps_stop)

lemma branch_start_absent: "map_of (step_on s) out = None \<Longrightarrow> \<not> in_range k (branch_start k s out)"
  by (simp add: branch_start_def in_range_def)

text \<open>An unresumed run reads the hold, then does what its gate's branch says.\<close>

lemma advance_run_unresumed:
  assumes "ld (wi_workflow item) = Inr k" and "\<not> wi_done item" and "wi_resume item \<le> 0"
    and "advance_run env ld item w = (res, item', err, w')"
  obtains (unread) "w_trace w' = w_trace w" "item' = item" "res \<in> {PollGone, PollFailed, PollPending}"
  | (read) h i oe w2 where "e_get env (w_tick w) (wi_hold_id item) = Inr h" "in_range k (wi_step item)"
      "branch_plan k item h (e_now env (Suc (w_tick w))) = Some (i, oe)" "w_trace w2 = w_trace w"
      "advance_to_next_gate env k item h i oe w2 = (res, item', err, w')"
proof (cases "e_get env (w_tick w) (wi_hold_id item)")
  case (Inl e)
  then have "w_trace w' = w_trace w" "item' = item" "res \<in> {PollGone, PollFailed, PollPending}"
    using assms by (auto simp: advance_run_def prov_get_def split: if_splits)
  then show thesis by (rule unread)
next
  case (Inr h)
  let ?t = "e_now env (Suc (w_tick w))"
  show thesis
  proof (cases "in_range k (wi_step item)")
    case False
    then have "w_trace w' = w_trace w" "item' = item" "res \<in> {PollGone, PollFailed, PollPending}"
      using assms Inr by (auto simp: advance_run_def prov_get_def in_range_def)
    then show thesis by (rule unread)
  next
    case True
    show thesis
    proof (cases "branch_plan k item h ?t")
      case None
      from advance_run_pending[of ld item k env w h, OF assms(1-3) Inr None] assms(4)
      show thesis by (intro unread) auto
    next
      case (Some p)
      obtain i oe where p: "p = (i, oe)" by (cases p)
      have "advance_to_next_gate env k item h i oe
          (checkpoint_at env (Some item) i (record_gate_outcome env k item h oe (tick (tick w)))) = (res, item', err, w')"
        using assms Inr Some p True by (auto simp: advance_run_def prov_get_def now_def in_range_def)
      then show thesis by (intro read[OF Inr True Some[unfolded p]]) simp_all
    qed
  qed
qed

section \<open>What the theory establishes\<close>

text \<open>
  While the gate of a run has not opened, polling it changes nothing: no calendar call beyond reading
  the hold, no write to the watch list, the history or the ledger, and the item stays as it is.
\<close>

theorem closed_gate_changes_nothing:
  assumes "ld (wi_workflow item) = Inr k" and "\<not> wi_done item" and "wi_resume item \<le> 0"
    and "e_get env (w_tick w) (wi_hold_id item) = Inr h"
    and "branch_plan k item h (e_now env (Suc (w_tick w))) = None"
  shows "\<exists>w'. advance_run env ld item w = (PollPending, item, None, w')
    \<and> w_trace w' = w_trace w \<and> w_watches w' = w_watches w \<and> w_audit w' = w_audit w \<and> w_ledger w' = w_ledger w"
  by (rule advance_run_pending[of ld item k env w h, OF assms])

definition asking_env :: env where
  "asking_env = quiet_env\<lparr>e_get := (\<lambda>_ _. Inr (answered_hold ResponseNotResponded))\<rparr>"

theorem closed_gate_changes_nothing_witness:
  "\<exists>w'. advance_run asking_env (\<lambda>_. Inr chain) chain_item empty_world = (PollPending, chain_item, None, w') \<and> w_trace w' = []"
proof -
  have "branch_plan chain chain_item (answered_hold ResponseNotResponded) (e_now asking_env (Suc (w_tick empty_world))) = None"
    by code_simp
  moreover have "\<not> wi_done chain_item" "wi_resume chain_item \<le> 0" by (simp_all add: chain_item_def)
  moreover have "e_get asking_env (w_tick empty_world) (wi_hold_id chain_item) = Inr (answered_hold ResponseNotResponded)"
    by (simp add: asking_env_def)
  moreover have "w_trace empty_world = []" by (simp add: empty_world_def)
  ultimately show ?thesis
    using closed_gate_changes_nothing[of "\<lambda>_. Inr chain" chain_item chain asking_env empty_world] by metis
qed

text \<open>
  The answer a gate waits for, in the attendees of the hold: that of the first with the address of the
  approver, or, without a named approver, of the first required one, or of the first when nobody is required.
\<close>

definition gate_shows :: "hold \<Rightarrow> watch_item \<Rightarrow> response \<Rightarrow> bool" where
  "gate_shows h item r \<longleftrightarrow>
     (case find (\<lambda>a. if wi_approver item = [] then att_role a = RoleRequired else equal_fold (att_email a) (wi_approver item))
         (hold_attendees h) of
        Some a \<Rightarrow> att_response a = r
      | None \<Rightarrow> wi_approver item = [] \<and> hold_attendees h \<noteq> [] \<and> att_response (hd (hold_attendees h)) = r)"

lemma gate_shows_response:
  assumes "r = ResponseAccepted \<or> r = ResponseDeclined"
  shows "gate_shows h item r \<longleftrightarrow> gate_response h item = r"
proof (cases "wi_approver item = []")
  case True
  then show ?thesis using assms
    by (auto simp: gate_shows_def gate_response_def manager_attendee_def split: option.splits list.splits)
next
  case False
  then show ?thesis using assms
    by (auto simp: gate_shows_def gate_response_def approved_by_def declined_by_def approved_in_find declined_in_find split: option.splits)
qed

lemma expired_timeout:
  assumes "0 < parsed_timeout s" and "parsed_timeout s < time_sub t u"
  shows "\<exists>d. parse_duration (step_timeout s) = Some d \<and> 0 < d \<and> d < t_ns t - t_ns u"
  using assms by (auto simp: parsed_timeout_def time_sub_def saturate_def min_duration_def split: if_splits option.splits)

text \<open>
  C2. A run waiting at an approve gate acts on the calendar only when the hold, as it is read at the start of
  this advance, shows the answer the gate waits for: its approver accepted, or declined and the step has a
  declined branch, or gave neither answer and by the clock of this advance more time than the timeout of the
  step has passed since the gate was entered and the step has an expired branch. The run is not done and not in a
  branch that failed on an earlier advance, which is resumed without asking again.
\<close>

theorem gate_opens_only_on_its_answer:
  assumes "ld (wi_workflow item) = Inr k" and "\<not> wi_done item" and "wi_resume item \<le> 0"
    and "step_verb (step_at k (wi_step item)) = VerbApprove"
    and "advance_run env ld item w = (res, item', err, w')" and "w_trace w' \<noteq> w_trace w"
  shows "\<exists>h. e_get env (w_tick w) (wi_hold_id item) = Inr h \<and>
     (gate_shows h item ResponseAccepted
      \<or> gate_shows h item ResponseDeclined \<and> map_of (step_on (step_at k (wi_step item))) OutcomeDeclined \<noteq> None
      \<or> \<not> gate_shows h item ResponseAccepted \<and> \<not> gate_shows h item ResponseDeclined
        \<and> (\<exists>d. parse_duration (step_timeout (step_at k (wi_step item))) = Some d \<and> 0 < d
             \<and> d < t_ns (e_now env (Suc (w_tick w))) - t_ns (wi_created item))
        \<and> map_of (step_on (step_at k (wi_step item))) OutcomeExpired \<noteq> None)"
  using assms(1-3,5)
proof (cases rule: advance_run_unresumed)
  case unread
  then show ?thesis using assms(6) by simp
next
  case (read h i oe w2)
  have inr: "in_range k i"
  proof (rule ccontr)
    assume "\<not> in_range k i"
    from advance_nowhere[OF this, of env item h oe w2] read(4,5) assms(6) show False by simp
  qed
  have "step_verb (step_at k (wi_step item)) \<noteq> VerbWait" using assms(4) by simp
  from branch_plan_opened[OF read(3) this] show ?thesis
  proof (elim disjE conjE)
    assume "gate_response h item = ResponseAccepted"
    then show ?thesis using read(1) gate_shows_response[of ResponseAccepted h item] by simp
  next
    assume "gate_response h item = ResponseDeclined" "i = branch_start k (step_at k (wi_step item)) OutcomeDeclined"
    then show ?thesis using read(1) inr branch_start_absent gate_shows_response[of ResponseDeclined h item] by auto
  next
    assume "gate_response h item \<noteq> ResponseAccepted" "gate_response h item \<noteq> ResponseDeclined"
      "0 < parsed_timeout (step_at k (wi_step item))"
      "parsed_timeout (step_at k (wi_step item)) < time_sub (e_now env (Suc (w_tick w))) (wi_created item)"
      "i = branch_start k (step_at k (wi_step item)) OutcomeExpired"
    then show ?thesis using read(1) inr branch_start_absent expired_timeout gate_shows_response by blast
  qed
qed

theorem gate_opens_only_on_its_answer_witness:
  "\<exists>h. e_get quiet_env 0 ''h1'' = Inr h \<and> gate_shows h chain_item ResponseAccepted"
proof -
  let ?r = "advance_run quiet_env (\<lambda>_. Inr chain) chain_item empty_world"
  have t: "w_trace (snd (snd (snd ?r))) \<noteq> w_trace empty_world" by code_simp
  have v: "step_verb (step_at chain (wi_step chain_item)) = VerbApprove" by code_simp
  have n: "\<not> wi_done chain_item" "wi_resume chain_item \<le> 0" by (simp_all add: chain_item_def)
  have o: "step_on (step_at chain (wi_step chain_item)) = []" by code_simp
  obtain h where h: "e_get quiet_env (w_tick empty_world) (wi_hold_id chain_item) = Inr h" "gate_shows h chain_item ResponseAccepted"
    using gate_opens_only_on_its_answer[of "\<lambda>_. Inr chain" chain_item chain quiet_env empty_world
        "fst ?r" "fst (snd ?r)" "fst (snd (snd ?r))" "snd (snd (snd ?r))", OF _ n v _ t] unfolding o by auto
  then show ?thesis by (auto simp: empty_world_def chain_item_def)
qed

text \<open>
  A run that advanced waits at a gate of its workflow with nothing left to resume, and when the gate
  names an approver, that approver is the one the run waits for and has been invited to the hold.
\<close>

theorem advanced_run_invited_its_approver:
  assumes "runnable k" and "advance_to_next_gate env k item h i oe w = (PollAdvanced, item', err, w')"
    and "oe \<noteq> PollAdvanced"
  shows "in_range k (wi_step item') \<and> waits (step_verb (step_at k (wi_step item'))) \<and> wi_resume item' = 0
    \<and> (step_verb (step_at k (wi_step item')) = VerbApprove \<and> step_approver (step_at k (wi_step item')) \<noteq> [] \<longrightarrow>
         wi_approver item' = step_approver (step_at k (wi_step item'))
         \<and> Updated (invite_required h (email_person (wi_approver item'))) \<in> set (w_trace w'))"
  by (rule advance_to_next_gate_advanced[OF assms])

definition chain_advance :: "env \<Rightarrow> poll_result \<times> watch_item \<times> error option \<times> world" where
  "chain_advance env = advance_to_next_gate env chain chain_item (answered_hold ResponseAccepted) 2 PollApproved empty_world"

lemma chain_advanced: "fst (chain_advance quiet_env) = PollAdvanced" "wi_approver (fst (snd (chain_advance quiet_env))) = ''hr@example.com''"
  by code_simp+

theorem advanced_run_invited_its_approver_witness:
  "waits (step_verb (step_at chain (wi_step (fst (snd (chain_advance quiet_env))))))
    \<and> wi_approver (fst (snd (chain_advance quiet_env))) = ''hr@example.com''"
proof -
  obtain item' err w' where r: "chain_advance quiet_env = (PollAdvanced, item', err, w')"
    using chain_advanced(1) by (cases "chain_advance quiet_env") auto
  from advanced_run_invited_its_approver[OF chain_runnable r[unfolded chain_advance_def]] r chain_advanced(2)
  show ?thesis by simp
qed

text \<open>
  C34. When inviting the approver of the next gate fails, the run is kept at that gate with the approver of
  the gate before. The next poll that still shows the earlier approver's acceptance opens the new gate
  with it: the named approver was never asked.
\<close>

theorem failed_invitation_reuses_old_approval:
  assumes "runnable k" and "advance_to_next_gate env k item h i oe w = (PollFailed, item', Some e, w')"
    and "wi_step item' \<noteq> wi_step item" and "wi_approver item \<noteq> []" and "approved_by h2 (wi_approver item)"
  shows "step_verb (step_at k (wi_step item')) = VerbApprove \<and> step_approver (step_at k (wi_step item')) \<noteq> []
    \<and> wi_approver item' = wi_approver item
    \<and> branch_plan k item' h2 t = Some (next_step k (wi_step item') OutcomeAccepted, PollApproved)"
  using failed_invite_reuses_approval[OF assms, of t] by blast

definition failing_env :: env where
  "failing_env = quiet_env\<lparr>e_update := (\<lambda>_ _. Inl (Sentinel ''rate limited''))\<rparr>"

lemma chain_failed: "fst (chain_advance failing_env) = PollFailed" "fst (snd (snd (chain_advance failing_env))) \<noteq> None"
    "wi_step (fst (snd (chain_advance failing_env))) = 2"
  by code_simp+

theorem failed_invitation_reuses_old_approval_witness:
  "branch_plan chain (fst (snd (chain_advance failing_env))) (answered_hold ResponseAccepted) noon
    = Some (next_step chain 2 OutcomeAccepted, PollApproved)
   \<and> step_approver (step_at chain 2) = ''hr@example.com''"
proof -
  obtain item' e w' where r: "chain_advance failing_env = (PollFailed, item', Some e, w')"
    using chain_failed(1,2) by (cases "chain_advance failing_env") auto
  have s: "wi_step item' = 2" using chain_failed(3) r by simp
  have d: "wi_step item' \<noteq> wi_step chain_item" "wi_approver chain_item \<noteq> []" by (simp_all add: s chain_item_def)
  have a: "approved_by (answered_hold ResponseAccepted) (wi_approver chain_item)" by code_simp
  have h: "step_approver (step_at chain 2) = ''hr@example.com''" by code_simp
  from failed_invitation_reuses_old_approval[OF chain_runnable r[unfolded chain_advance_def] d a, of noon] r s h
  show ?thesis by simp
qed

text \<open>
  A branch that is resumed after a failure or a crash never ends as declined, whatever opened it, so the
  declined time off stays in the coverage ledger.
\<close>

theorem resumed_branch_never_ends_declined:
  assumes "ld (wi_workflow item) = Inr k" and "well_formed k" and "0 < wi_resume item"
  shows "fst (advance_run env ld item w) \<noteq> PollDeclined
    \<and> snd (settle env item (advance_run env ld item w)) =
        (if fst (advance_run env ld item w) = PollGone then w_forget_coverage env (wi_hold_id item)
           (snd (snd (snd (advance_run env ld item w)))) else snd (snd (snd (advance_run env ld item w))))"
proof -
  have "fst (advance_run env ld item w) \<noteq> PollDeclined"
    by (rule resumed_never_declined[of ld, OF assms(1) well_formed_runnable[OF assms(2)] assms(3)])
  then show ?thesis
    by (cases "advance_run env ld item w") (auto simp: settle_def split: poll_result.splits)
qed

theorem resumed_branch_never_ends_declined_witness:
  "fst (advance_run quiet_env (\<lambda>_. Inr chain) (chain_item\<lparr>wi_resume := 3\<rparr>) empty_world) \<noteq> PollDeclined"
  using resumed_branch_never_ends_declined[of "\<lambda>_. Inr chain" "chain_item\<lparr>wi_resume := 3\<rparr>" chain] chain_well_formed by simp

text \<open>
  A watch that another process adds while a poll is running is gone when the poll has written its list:
  the write replaces the whole file with the items the poll had read.
\<close>

theorem poll_discards_watch_added_meanwhile:
  assumes "poll_items env (Loader.load b u) prov_err prune warned items w = (rest, warned', w1)"
    and "watch_key new \<notin> set (map watch_key items)"
    and "w_save_watches env rest (snd (w_add_watch env2 new w1)) = (None, w2)"
  shows "watch_of w2 (watch_key new) = None"
  by (rule poll_save_loses_added[OF loader_runnable assms])

theorem poll_discards_watch_added_meanwhile_witness:
  "watch_of (snd (w_save_watches quiet_env [] (snd (w_add_watch quiet_env chain_item empty_world)))) (''graph'', ''h1'') = None
    \<and> watch_of (snd (w_add_watch quiet_env chain_item empty_world)) (''graph'', ''h1'') = Some chain_item"
proof -
  have p: "poll_items quiet_env (Loader.load [] NoUserDir) (\<lambda>_. None) False [] [] empty_world = ([], [], empty_world)" by simp
  have s: "w_save_watches quiet_env [] (snd (w_add_watch quiet_env chain_item empty_world))
      = (None, snd (w_save_watches quiet_env [] (snd (w_add_watch quiet_env chain_item empty_world))))"
    by (simp add: w_save_watches_def save_watches_def quiet_env_def split: prod.splits)
  have k: "watch_key chain_item = (''graph'', ''h1'')" by (simp add: watch_key_def chain_item_def)
  have "readable empty_world" by (simp add: readable_def empty_world_def)
  from w_add_watch_ok(2)[OF quiet_writes this, of chain_item "(''graph'', ''h1'')"]
    poll_discards_watch_added_meanwhile[OF p _ s] k show ?thesis by simp
qed

text \<open>
  C20. The functions of the daemon refine the crash machine: one \<open>advanceRun\<close> of a watched item whose workflow
  loads and is valid is a path of the machine, without a crash, from the start of a poll to its end, with the
  same final world and the item \<open>pollAll\<close> keeps, whatever the item says and whatever the provider answers: an
  item already done, a hold that is gone or cannot be read, a gate that stays closed, a branch that fails,
  ends or reaches the next gate.
\<close>

theorem advance_run_refines_machine:
  assumes "ld (wi_workflow item) = Inr k" and "well_formed k" and "watch_of w key = Some item"
    and "advance_run env ld item w = (res, item', err, w')"
  shows "\<exists>xs. daemon_reaches env k key (Idle, w, log, n) (Settled (kept_item res item'), w', log @ xs, n)"
  by (rule advance_run_simulated[of ld, OF assms(1) well_formed_runnable[OF assms(2)] assms(3,4)])

definition watched_world :: world where
  "watched_world = empty_world\<lparr>w_watches := Content [chain_item]\<rparr>"

lemma watched_of: "watch_of watched_world (''graph'', ''h1'') = Some chain_item" "readable watched_world"
  by (simp_all add: watch_of_def readable_def watched_world_def find_watch_def watch_key_def chain_item_def)

lemma watched_advance: "fst (advance_run quiet_env (\<lambda>_. Inr chain) chain_item watched_world) = PollAdvanced"
  by code_simp

theorem advance_run_refines_machine_witness:
  "\<exists>item' w' xs. daemon_reaches quiet_env chain (''graph'', ''h1'') (Idle, watched_world, [], 0)
     (Settled (kept_item PollAdvanced item'), w', xs, 0)"
proof -
  obtain item' err w' where r: "advance_run quiet_env (\<lambda>_. Inr chain) chain_item watched_world = (PollAdvanced, item', err, w')"
    using watched_advance by (cases "advance_run quiet_env (\<lambda>_. Inr chain) chain_item watched_world") auto
  from advance_run_refines_machine[of "\<lambda>_. Inr chain", OF refl chain_well_formed watched_of(1) r, of "[]" 0]
  show ?thesis by auto
qed

text \<open>
  C3. A daemon that is killed and restarted any number of times, at any point between its calls and its
  writes, never runs an action after a later one has run, and each crash repeats at most one action.
  This holds for workflows without guards whose steps never jump back to the creating step, and while
  the watch list can be written.
\<close>

theorem crash_repeats_at_most_one:
  assumes "daemon_reaches env k key (Idle, w, [], 0) (ph, w', log, n)"
    and "restartable k" and "writes_ok env" and "readable w"
    and "watch_of w key = Some item" and "fresh_item k key item" and "wi_resume item = 0"
  shows "sorted_wrt (not_before k) log \<and> length log \<le> card (set log) + n"
  by (rule crash_repeats_only_last[OF assms])

lemma chain_restartable: "restartable chain"
proof -
  have "list_all (\<lambda>i. 0 \<notin> set (jump_targets chain (int i))) [0..<4]" by code_simp
  then have "(i, 0) \<notin> jump_rel chain" for i
    by (auto simp: jump_rel_def list_all_iff chain_def)
  moreover have "\<forall>s \<in> set (wf_steps chain). step_when s = no_guard" by (simp add: chain_def zero_step_def)
  ultimately show ?thesis using chain_well_formed by (simp add: restartable_def)
qed

lemma chain_item_fresh: "fresh_item chain (''graph'', ''h1'') chain_item" "wi_resume chain_item = 0"
  by (simp_all add: fresh_item_def watch_key_def chain_item_def in_range_def waits_def chain_def)

lemma watched_path:
  "\<exists>ph w' log. daemon_reaches quiet_env chain (''graph'', ''h1'') (Idle, watched_world, [], 0) (ph, w', log, 1) \<and> ph = Idle"
proof -
  obtain item' err w' where r: "advance_run quiet_env (\<lambda>_. Inr chain) chain_item watched_world = (PollAdvanced, item', err, w')"
    using watched_advance by (cases "advance_run quiet_env (\<lambda>_. Inr chain) chain_item watched_world") auto
  from advance_run_simulated[of "\<lambda>_. Inr chain", OF refl chain_runnable watched_of(1) r, of "[]" 0]
  obtain xs where "daemon_reaches quiet_env chain (''graph'', ''h1'') (Idle, watched_world, [], 0)
     (Settled (kept_item PollAdvanced item'), w', xs, 0)" by auto
  then have "daemon_reaches quiet_env chain (''graph'', ''h1'') (Idle, watched_world, [], 0) (Idle, w', xs, 1)"
    by (rule daemon_reaches_trans) (simp add: daemon_reaches_step[OF dm_crash[of _ _ _ _ _ _ 0] daemon_reaches_refl])
  then show ?thesis by blast
qed

theorem crash_repeats_at_most_one_witness:
  "\<exists>w' log. daemon_reaches quiet_env chain (''graph'', ''h1'') (Idle, watched_world, [], 0) (Idle, w', log, 1)
    \<and> sorted_wrt (not_before chain) log \<and> length log \<le> card (set log) + 1"
proof -
  obtain w' log where p: "daemon_reaches quiet_env chain (''graph'', ''h1'') (Idle, watched_world, [], 0) (Idle, w', log, 1)"
    using watched_path by blast
  from crash_repeats_at_most_one[OF p chain_restartable quiet_writes watched_of(2,1) chain_item_fresh] p
  show ?thesis by blast
qed

end
