(* ===== verification/Slack_Text.thy ===== *)
theory Slack_Text
  imports Go_Json
begin

text \<open>
  The text functions of \<open>internal/slack/slack.go\<close>: splitting a command into arguments, which
  subcommands a slash command may run, and what the server reads out of a command's output. The two
  regular expressions are written out: the hold id is the first word after a \<open>hold id:\<close>, the approver
  the address of a line that starts as the create step prints it. Letters compare without case as
  ASCII.
\<close>

section \<open>Arguments\<close>

definition is_quote :: "char \<Rightarrow> bool" where "is_quote c \<longleftrightarrow> c = CHR 0x22 \<or> c = CHR 0x27"
definition is_break :: "char \<Rightarrow> bool" where "is_break c \<longleftrightarrow> c = CHR '' '' \<or> c = CHR 0x09 \<or> c = CHR 0x0A"

abbreviation err_unterminated :: error where "err_unterminated \<equiv> Errorf ''unterminated quote'' []"

text \<open>The loop of \<open>tokenize\<close>: the arguments so far, the current one, whether there is one, the open quote.\<close>

fun tokenize_loop :: "string list \<Rightarrow> string \<Rightarrow> bool \<Rightarrow> char option \<Rightarrow> string \<Rightarrow> string list result" where
  "tokenize_loop args cur has_cur (Some q) [] = Inl err_unterminated"
| "tokenize_loop args cur has_cur None [] = Inr (if has_cur then args @ [cur] else args)"
| "tokenize_loop args cur has_cur (Some q) (c # s) =
     (if c = q then tokenize_loop args cur has_cur None s
      else tokenize_loop args (cur @ [c]) has_cur (Some q) s)"
| "tokenize_loop args cur has_cur None (c # s) =
     (if is_quote c then tokenize_loop args cur True (Some c) s
      else if is_break c then
        (if has_cur then tokenize_loop (args @ [cur]) [] False None s else tokenize_loop args cur has_cur None s)
      else tokenize_loop args (cur @ [c]) True None s)"

definition tokenize :: "string \<Rightarrow> string list result" where
  "tokenize s = tokenize_loop [] [] False None s"

definition allowed_subcommand :: "string \<Rightarrow> bool" where
  "allowed_subcommand n \<longleftrightarrow> n \<in> set [''off'', ''away'', ''balance'', ''coverage'', ''event'', ''request'', ''run'', ''workflows'',
     ''check'', ''schedule'', ''team'', ''calendars'', ''doctor'', ''whoami'', ''help'', ''version'']"

text \<open>A text that names the arguments: every byte quoted, each argument opened by an empty quotation.\<close>

definition quoted_byte :: "char \<Rightarrow> string" where
  "quoted_byte c = (if c = CHR 0x22 then [CHR 0x27, c, CHR 0x27] else [CHR 0x22, c, CHR 0x22])"

definition quoted_arg :: "string \<Rightarrow> string" where
  "quoted_arg a = [CHR 0x22, CHR 0x22] @ concat (map quoted_byte a)"

definition command_text :: "string list \<Rightarrow> string" where
  "command_text args = join_with '' '' (map quoted_arg args)"

lemma quote_break [simp]: "is_quote (CHR 0x22)" "is_quote (CHR 0x27)" "\<not> is_quote (CHR '' '')" "is_break (CHR '' '')"
  by (simp_all add: is_quote_def is_break_def)

lemma tokenize_quoted_byte:
  "tokenize_loop args cur True None (quoted_byte c @ s) = tokenize_loop args (cur @ [c]) True None s"
  by (simp add: quoted_byte_def)

lemma tokenize_quoted_bytes:
  "tokenize_loop args cur True None (concat (map quoted_byte a) @ s) = tokenize_loop args (cur @ a) True None s"
  by (induction a arbitrary: cur) (simp_all add: tokenize_quoted_byte)

lemma tokenize_quoted_arg:
  "tokenize_loop args [] False None (quoted_arg a @ s) = tokenize_loop args a True None s"
  by (simp add: quoted_arg_def tokenize_quoted_bytes)

lemma tokenize_command_loop:
  "tokenize_loop args [] False None (command_text as) = Inr (args @ as)"
proof (induction as arbitrary: args)
  case (Cons a as)
  show ?case
  proof (cases as)
    case Nil
    then show ?thesis using tokenize_quoted_arg[of args a "[]"] by (simp add: command_text_def)
  next
    case (Cons b bs)
    then have t: "command_text (a # as) = quoted_arg a @ CHR '' '' # command_text as" by (simp add: command_text_def)
    show ?thesis unfolding t tokenize_quoted_arg using Cons.IH[of "args @ [a]"] by simp
  qed
qed (simp add: command_text_def)

text \<open>
  Without quotes and the other white space, the arguments are the words between spaces.
\<close>

definition no_marks :: "string \<Rightarrow> bool" where
  "no_marks s \<longleftrightarrow> (\<forall>c \<in> set s. \<not> is_quote c \<and> \<not> is_break c)"

lemma tokenize_plain_word:
  "no_marks w \<Longrightarrow> tokenize_loop args cur True None (w @ s) = tokenize_loop args (cur @ w) True None s"
  by (induction w arbitrary: cur) (simp_all add: no_marks_def)

lemma tokenize_plain_words:
  "\<forall>w \<in> set ws. w \<noteq> [] \<and> no_marks w \<Longrightarrow> tokenize_loop args [] False None (join_with '' '' ws) = Inr (args @ ws)"
proof (induction ws arbitrary: args)
  case (Cons w ws)
  obtain c v where w: "w = c # v" and c: "\<not> is_quote c" "\<not> is_break c" and v: "no_marks v"
    using Cons.prems by (cases w) (auto simp: no_marks_def)
  have first: "tokenize_loop args [] False None (w @ s) = tokenize_loop args w True None s" for s
    using c tokenize_plain_word[OF v, of args "[c]" s] by (simp add: w)
  show ?case
  proof (cases ws)
    case Nil
    then show ?thesis using first[of "[]"] by simp
  next
    case (Cons b bs)
    then have t: "join_with '' '' (w # ws) = w @ CHR '' '' # join_with '' '' ws" by simp
    show ?thesis unfolding t first using Cons.IH[of "args @ [w]"] Cons.prems by simp
  qed
qed simp

section \<open>Reading a command's output\<close>

definition re_space :: "char \<Rightarrow> bool" where
  "re_space c \<longleftrightarrow> c = CHR '' '' \<or> c = CHR 0x09 \<or> c = CHR 0x0A \<or> c = CHR 0x0C \<or> c = CHR 0x0D"

definition word_at :: "string \<Rightarrow> string" where
  "word_at s = takeWhile (\<lambda>c. \<not> re_space c) s"

text \<open>\<open>holdIDRe\<close>, \<open>(?i)hold id:\s*(\S+)\<close>: the leftmost match.\<close>

fun hold_id_in :: "string \<Rightarrow> string" where
  "hold_id_in [] = []"
| "hold_id_in (c # s) =
     (let w = word_at (dropWhile re_space (drop 8 (c # s))) in
      if equal_fold (take 8 (c # s)) ''hold id:'' \<and> w \<noteq> [] then w else hold_id_in s)"

text \<open>\<open>approverRe\<close>: \<open>\S+@\S+\<close> is a word with an \<open>@\<close> strictly inside, which a space must follow.\<close>

definition sent_prefix :: string where "sent_prefix = ''Hold created and sent to ''"
definition sent_suffix :: string where "sent_suffix = '' for approval''"

definition approver_on_line :: "string \<Rightarrow> string option" where
  "approver_on_line l =
     (let n = length sent_prefix; w = word_at (drop n l) in
      if equal_fold (take n l) sent_prefix \<and> CHR ''@'' \<in> set (butlast (tl w))
         \<and> equal_fold (take (length sent_suffix) (drop (n + length w) l)) sent_suffix
      then Some w else None)"

fun first_some :: "('a \<Rightarrow> 'b option) \<Rightarrow> 'a list \<Rightarrow> 'b option" where
  "first_some f [] = None"
| "first_some f (x # xs) = (case f x of Some y \<Rightarrow> Some y | None \<Rightarrow> first_some f xs)"

definition approver_email :: "string \<Rightarrow> string option" where
  "approver_email out = first_some approver_on_line (split_on (CHR 0x0A) out)"

definition asks_approval :: "string \<Rightarrow> bool" where
  "asks_approval out \<longleftrightarrow> contains_str (to_lower out) ''approval''"

fun first_nonempty :: "string list \<Rightarrow> string" where
  "first_nonempty [] = ''vamoose''"
| "first_nonempty (l # ls) = (if trim_space l \<noteq> [] then trim_space l else first_nonempty ls)"

definition first_line :: "string \<Rightarrow> string" where
  "first_line s = first_nonempty (split_on (CHR 0x0A) s)"

definition code_block :: "string \<Rightarrow> string" where
  "code_block out =
     (let fence = [CHR 0x60, CHR 0x60, CHR 0x60]; t = trim_space out in
      if t = [] then ''_(no output)_'' else fence @ [CHR 0x0A] @ t @ [CHR 0x0A] @ fence)"

text \<open>What the server reads out of the line the create step prints.\<close>

lemma word_at_append: "\<forall>c \<in> set w. \<not> re_space c \<Longrightarrow> s = [] \<or> re_space (hd s) \<Longrightarrow> word_at (w @ s) = w"
  by (cases s) (auto simp: word_at_def takeWhile_append2)

lemma split_on_first: "c \<notin> set a \<Longrightarrow> \<exists>rest. split_on c (a @ s) = (a @ hd (split_on c s)) # rest"
proof (induction a)
  case Nil
  show ?case using split_on_not_Nil[of c s] by (cases "split_on c s") auto
next
  case (Cons d a)
  then obtain rest where "split_on c (a @ s) = (a @ hd (split_on c s)) # rest" by auto
  then show ?case using Cons.prems by auto
qed

definition starts_id :: "string \<Rightarrow> bool" where
  "starts_id s \<longleftrightarrow> equal_fold (take 8 s) ''hold id:''"

lemma hold_id_skip: "\<not> starts_id (c # s) \<Longrightarrow> hold_id_in (c # s) = hold_id_in s"
  by (simp add: starts_id_def Let_def)

lemma fold_hold_id: "equal_fold ''Hold id:'' ''hold id:''" "to_lower ''hold id:'' = ''hold id:''"
  by code_simp+

lemma hold_id_found:
  assumes "w \<noteq> []" and "\<forall>c \<in> set w. \<not> re_space c" and "s = [] \<or> re_space (hd s)"
  shows "hold_id_in (''Hold id: '' @ w @ s) = w"
proof -
  have "dropWhile re_space (CHR '' '' # w @ s) = w @ s"
    using assms(1,2) by (cases w) (auto simp: re_space_def)
  then show ?thesis
    using assms(1) word_at_append[OF assms(2,3)] fold_hold_id(1) by simp
qed

lemma hold_id_found_lower:
  assumes "w \<noteq> []" and "\<forall>c \<in> set w. \<not> re_space c" and "s = [] \<or> re_space (hd s)"
  shows "hold_id_in (''hold id: '' @ w @ s) = w"
proof -
  have "dropWhile re_space (CHR '' '' # w @ s) = w @ s"
    using assms(1,2) by (cases w) (auto simp: re_space_def)
  then show ?thesis
    using assms(1) word_at_append[OF assms(2,3)] by simp
qed

declare hold_id_in.simps(2) [simp del]

lemma starts_id_nth:
  assumes "starts_id s" and "i < 8" shows "i < length s \<and> lower_char (s ! i) = ''hold id:'' ! i"
proof -
  have e: "map lower_char (take 8 s) = ''hold id:''"
    using assms(1) fold_hold_id(2) by (simp add: starts_id_def equal_fold_def to_lower_def)
  have "length (map lower_char (take 8 s)) = 8" unfolding e by simp
  then have "length (take 8 s) = 8" by (simp only: length_map)
  moreover have "map lower_char (take 8 s) ! i = ''hold id:'' ! i" using e by simp
  ultimately show ?thesis using assms(2) by simp
qed

lemma lower_space: "lower_char c = CHR '' '' \<Longrightarrow> c = CHR '' ''"
  by (auto simp: lower_char_def Let_def split: if_splits dest!: arg_cong[where f = "of_char :: char \<Rightarrow> nat"])

text \<open>No match starts at a character that is not an \<open>h\<close>, nor in a word that a space and an \<open>f\<close> follow.\<close>

lemma hold_id_not_h: "lower_char c \<noteq> CHR ''h'' \<Longrightarrow> hold_id_in (c # s) = hold_id_in s"
  using starts_id_nth[of "c # s" 0] by (intro hold_id_skip) auto

lemma hold_id_past_word:
  "CHR '' '' \<notin> set e \<Longrightarrow> hold_id_in (e @ CHR '' '' # CHR ''f'' # CHR ''o'' # CHR ''r'' # s) = hold_id_in (CHR '' '' # CHR ''f'' # CHR ''o'' # CHR ''r'' # s)"
proof (induction e)
  case (Cons c e)
  let ?t = "(c # e) @ CHR '' '' # CHR ''f'' # CHR ''o'' # CHR ''r'' # s"
  have "\<not> starts_id ?t"
  proof
    assume st: "starts_id ?t"
    have "lower_char (?t ! 4) = CHR '' ''" "lower_char (?t ! 5) = CHR ''i''"
      using starts_id_nth[OF st, of 4] starts_id_nth[OF st, of 5] by simp_all
    then have sp: "?t ! 4 = CHR '' ''" and i: "lower_char (?t ! 5) = CHR ''i''" using lower_space by auto
    consider "3 < length e" | "length e = 3" | "length e = 2" | "length e = 1" | "length e = 0" by linarith
    then show False
    proof cases
      case 1
      then have "?t ! 4 \<in> set e" by (simp add: nth_append nth_Cons')
      then show False using sp Cons.prems by simp
    next
      case 2
      then have "?t ! 5 = CHR ''f''" by (simp add: nth_append nth_Cons')
      moreover have "lower_char (CHR ''f'') \<noteq> CHR ''i''" by code_simp
      ultimately show False using i by simp
    qed (use sp in \<open>simp_all add: nth_append nth_Cons'\<close>)
  qed
  then show ?case using hold_id_skip Cons by simp
qed simp

lemma lower_h:
  "list_all (\<lambda>c. lower_char c \<noteq> CHR ''h'') (tl sent_prefix)" "list_all (\<lambda>c. lower_char c \<noteq> CHR ''h'') '' for approval. ''"
  by code_simp+

lemma hold_id_skip_all: "list_all (\<lambda>c. lower_char c \<noteq> CHR ''h'') a \<Longrightarrow> hold_id_in (a @ s) = hold_id_in s"
  by (induction a) (simp_all add: hold_id_not_h)

text \<open>What the server reads out of a line of the form the create step prints.\<close>

lemma read_hold_id:
  assumes "CHR '' '' \<notin> set e" and "w \<noteq> []" and "\<forall>c \<in> set w. \<not> re_space c" and "s = [] \<or> re_space (hd s)"
  shows "hold_id_in (''Hold created and sent to '' @ e @ '' for approval. Hold id: '' @ w @ s) = w"
proof -
  have "\<not> starts_id (''Hold created and sent to '' @ t)" for t
  proof
    assume "starts_id (''Hold created and sent to '' @ t)"
    from starts_id_nth[OF this, of 5] have "lower_char (CHR ''c'') = CHR ''i''" by simp
    moreover have "lower_char (CHR ''c'') \<noteq> CHR ''i''" by code_simp
    ultimately show False by simp
  qed
  then have "hold_id_in (''Hold created and sent to '' @ t) = hold_id_in (tl sent_prefix @ t)" for t
    using hold_id_skip[of "CHR ''H''" "tl sent_prefix @ t"] by (simp add: sent_prefix_def)
  then have a: "hold_id_in (''Hold created and sent to '' @ t) = hold_id_in t" for t
    using hold_id_skip_all[OF lower_h(1)] by simp
  have "hold_id_in (e @ '' for approval. '' @ t) = hold_id_in t" for t
    using hold_id_past_word[OF assms(1)] hold_id_skip_all[OF lower_h(2), of t] by simp
  from this[of "''Hold id: '' @ w @ s"] show ?thesis
    using hold_id_found[OF assms(2-4)] unfolding a by simp
qed

lemma read_approver:
  assumes "\<forall>c \<in> set e. \<not> re_space c" and "CHR ''@'' \<in> set (butlast (tl e))"
  shows "approver_email (''Hold created and sent to '' @ e @ '' for approval'' @ s) = Some e"
proof -
  let ?l = "sent_prefix @ e @ sent_suffix"
  have nl: "CHR 0x0A \<notin> set ?l"
    using assms(1) by (auto simp: sent_prefix_def sent_suffix_def re_space_def)
  have f: "equal_fold sent_prefix sent_prefix" "equal_fold sent_suffix sent_suffix" by simp_all
  have "re_space (CHR '' '')" by (simp add: re_space_def)
  then have w: "word_at (e @ sent_suffix @ t) = e" for t
    by (intro word_at_append assms(1)) (simp add: sent_suffix_def)
  have "approver_on_line (?l @ t) = Some e" for t
    using assms(2) w[of t] f unfolding approver_on_line_def by (simp add: Let_def)
  moreover obtain rest where "split_on (CHR 0x0A) (?l @ s) = (?l @ hd (split_on (CHR 0x0A) s)) # rest"
    using split_on_first[OF nl] by blast
  ultimately show ?thesis
    unfolding approver_email_def by (simp add: sent_prefix_def sent_suffix_def)
qed

end
