(* ===== verification/Secret.thy ===== *)
theory Secret
  imports Go_Codec Stores
begin

text \<open>
  Encryption at rest: \<open>internal/secret/secret.go\<close> and the embedded database of
  \<open>internal/boltstore/boltstore.go\<close>. AES-256-GCM is the record \<open>aead\<close> a key gives; what the program
  relies on is that opening undoes sealing under the same nonce. The random source is a stream of
  bytes, or absent when the system has none to give. A transaction of the database commits whole or
  fails, with the error of the argument.
\<close>

section \<open>Boxes\<close>

record aead =
  nonce_size :: nat
  gcm_seal :: "string \<Rightarrow> string \<Rightarrow> string"
  gcm_open :: "string \<Rightarrow> string \<Rightarrow> string option"

definition opens_sealed :: "aead \<Rightarrow> bool" where
  "opens_sealed a \<longleftrightarrow> (\<forall>n p. length n = nonce_size a \<longrightarrow> gcm_open a n (gcm_seal a n p) = Some p)"

type_synonym entropy = "(nat \<Rightarrow> char) option"

definition random_bytes :: "entropy \<Rightarrow> nat \<Rightarrow> string result" where
  "random_bytes ent n = (case ent of None \<Rightarrow> Inl (Errorf ''rand'' []) | Some f \<Rightarrow> Inr (map f [0..<n]))"

definition key_env :: string where "key_env = ''VAMOOSE_SECRET_KEY''"

abbreviation err_no_key :: error where "err_no_key \<equiv> Sentinel ''secret: no key''"

definition new_box :: "(string \<Rightarrow> aead) \<Rightarrow> string \<Rightarrow> aead result" where
  "new_box aes_gcm key =
     (if length key \<noteq> 32 then Inl (Errorf ''secret: key must be 32 bytes'' []) else Inr (aes_gcm key))"

definition secret_from_env :: "(string \<Rightarrow> aead) \<Rightarrow> (string \<Rightarrow> string) \<Rightarrow> aead result" where
  "secret_from_env aes_gcm getenv =
     (let t = getenv key_env in
      if t = [] then Inl err_no_key
      else case std_decode t of
        None \<Rightarrow> Inl (Errorf ''secret: decode'' [])
      | Some key \<Rightarrow> new_box aes_gcm key)"

definition box_seal :: "entropy \<Rightarrow> aead \<Rightarrow> string \<Rightarrow> string result" where
  "box_seal ent b p =
     (case random_bytes ent (nonce_size b) of
        Inl e \<Rightarrow> Inl e
      | Inr nonce \<Rightarrow> Inr (nonce @ gcm_seal b nonce p))"

definition box_open :: "aead \<Rightarrow> string \<Rightarrow> string result" where
  "box_open b s =
     (if length s < nonce_size b then Inl (Errorf ''secret: ciphertext too short'' [])
      else case gcm_open b (take (nonce_size b) s) (drop (nonce_size b) s) of
        None \<Rightarrow> Inl (Errorf ''cipher: message authentication failed'' [])
      | Some p \<Rightarrow> Inr p)"

definition generate_key :: "entropy \<Rightarrow> string result" where
  "generate_key ent = (case random_bytes ent 32 of Inl e \<Rightarrow> Inl e | Inr key \<Rightarrow> Inr (std_encode key))"

lemma random_bytes_length: "random_bytes ent n = Inr b \<Longrightarrow> length b = n"
  by (auto simp: random_bytes_def split: option.splits)

lemma box_open_seal: "opens_sealed b \<Longrightarrow> box_seal ent b p = Inr s \<Longrightarrow> box_open b s = Inr p"
  by (auto simp: box_seal_def box_open_def opens_sealed_def split: sum.splits dest: random_bytes_length)

lemma std_encode_not_Nil: "s \<noteq> [] \<Longrightarrow> std_encode s \<noteq> []"
  by (cases s rule: b64_groups.cases) (auto simp: std_encode_def)

lemma generated_key:
  assumes "generate_key ent = Inr t"
  obtains key where "length key = 32" and "t = std_encode key" and "t \<noteq> []"
proof -
  obtain key where key: "random_bytes ent 32 = Inr key" "t = std_encode key"
    using assms unfolding generate_key_def by (cases "random_bytes ent 32") auto
  then have l: "length key = 32" by (simp add: random_bytes_length)
  then have "key \<noteq> []" by auto
  then have "t \<noteq> []" using key(2) std_encode_not_Nil by simp
  then show ?thesis using that[OF l key(2)] by simp
qed

section \<open>The optional box of a store\<close>

text \<open>With a box the value is sealed; without one it is kept as it is.\<close>

fun seal_with :: "aead option \<Rightarrow> entropy \<Rightarrow> string \<Rightarrow> string result" where
  "seal_with None ent p = Inr p"
| "seal_with (Some b) ent p = box_seal ent b p"

fun open_with :: "aead option \<Rightarrow> string \<Rightarrow> string result" where
  "open_with None s = Inr s"
| "open_with (Some b) s = box_open b s"

definition box_ok :: "aead option \<Rightarrow> bool" where
  "box_ok b \<longleftrightarrow> (\<forall>a. b = Some a \<longrightarrow> opens_sealed a)"

lemma open_seal_with: "box_ok b \<Longrightarrow> seal_with b ent p = Inr s \<Longrightarrow> open_with b s = Inr p"
  by (cases b) (auto simp: box_ok_def intro: box_open_seal)

text \<open>\<open>NewTokenStore\<close>, \<open>NewUserLinkStore\<close> and \<open>boltstore.Open\<close>: no key means no box, a bad key is an error.\<close>

definition box_from_env :: "(string \<Rightarrow> aead) \<Rightarrow> (string \<Rightarrow> string) \<Rightarrow> aead option result" where
  "box_from_env aes_gcm getenv =
     (case secret_from_env aes_gcm getenv of
        Inl e \<Rightarrow> (if errors_is e err_no_key then Inr None else Inl e)
      | Inr b \<Rightarrow> Inr (Some b))"

section \<open>The database\<close>

type_synonym bucket = "(string \<times> string) list"

record db =
  db_box :: "aead option"
  db_buckets :: "(string \<times> bucket) list"

definition open_db ::
  "(string \<Rightarrow> aead) \<Rightarrow> (string \<Rightarrow> string) \<Rightarrow> error option \<Rightarrow> (string \<times> bucket) list result \<Rightarrow> db result" where
  "open_db aes_gcm getenv mkdir_err file =
     (case box_from_env aes_gcm getenv of
        Inl e \<Rightarrow> Inl e
      | Inr box \<Rightarrow>
          (case mkdir_err of
             Some e \<Rightarrow> Inl e
           | None \<Rightarrow> (case file of Inl e \<Rightarrow> Inl e | Inr bs \<Rightarrow> Inr \<lparr>db_box = box, db_buckets = bs\<rparr>)))"

definition bucket_of :: "db \<Rightarrow> string \<Rightarrow> bucket" where
  "bucket_of d b = (case map_of (db_buckets d) b of None \<Rightarrow> [] | Some kvs \<Rightarrow> kvs)"

definition db_put :: "entropy \<Rightarrow> error option \<Rightarrow> string \<Rightarrow> string \<Rightarrow> string \<Rightarrow> db \<Rightarrow> error option \<times> db" where
  "db_put ent tx_err b k v d =
     (case seal_with (db_box d) ent v of
        Inl e \<Rightarrow> (Some e, d)
      | Inr sealed \<Rightarrow>
          (case tx_err of
             Some e \<Rightarrow> (Some e, d)
           | None \<Rightarrow> (None, d\<lparr>db_buckets := AList.update b (AList.update k sealed (bucket_of d b)) (db_buckets d)\<rparr>)))"

definition db_get :: "error option \<Rightarrow> string \<Rightarrow> string \<Rightarrow> db \<Rightarrow> string option result" where
  "db_get tx_err b k d =
     (case tx_err of
        Some e \<Rightarrow> Inl e
      | None \<Rightarrow>
          (case map_of (bucket_of d b) k of
             None \<Rightarrow> Inr None
           | Some s \<Rightarrow> (case open_with (db_box d) s of Inl e \<Rightarrow> Inl e | Inr v \<Rightarrow> Inr (Some v))))"

definition db_delete :: "error option \<Rightarrow> string \<Rightarrow> string \<Rightarrow> db \<Rightarrow> error option \<times> db" where
  "db_delete tx_err b k d =
     (case tx_err of
        Some e \<Rightarrow> (Some e, d)
      | None \<Rightarrow>
          (case map_of (db_buckets d) b of
             None \<Rightarrow> (None, d)
           | Some kvs \<Rightarrow> (None, d\<lparr>db_buckets := AList.update b (AList.delete k kvs) (db_buckets d)\<rparr>)))"

text \<open>\<open>ForEach\<close> visits the keys in byte order and stops at the first value that does not open.\<close>

fun open_all :: "aead option \<Rightarrow> bucket \<Rightarrow> bucket result" where
  "open_all box [] = Inr []"
| "open_all box ((k, s) # rest) =
     (case open_with box s of
        Inl e \<Rightarrow> Inl e
      | Inr v \<Rightarrow> (case open_all box rest of Inl e \<Rightarrow> Inl e | Inr kvs \<Rightarrow> Inr ((k, v) # kvs)))"

definition db_list :: "error option \<Rightarrow> string \<Rightarrow> db \<Rightarrow> bucket result" where
  "db_list tx_err b d =
     (case tx_err of Some e \<Rightarrow> Inl e | None \<Rightarrow> open_all (db_box d) (sort_key fst (bucket_of d b)))"

lemma db_put_failure: "db_put ent te b k v d = (Some e, d') \<Longrightarrow> d' = d"
  by (auto simp: db_put_def split: sum.splits option.splits)

lemma db_put_box: "db_put ent te b k v d = (r, d') \<Longrightarrow> db_box d' = db_box d"
  by (auto simp: db_put_def split: sum.splits option.splits)

lemma db_put_bucket:
  assumes "db_put ent te b k v d = (None, d')"
  obtains s where "seal_with (db_box d) ent v = Inr s"
    and "bucket_of d' c = (if c = b then AList.update k s (bucket_of d b) else bucket_of d c)"
  using assms
  by (fastforce simp: db_put_def bucket_of_def update_conv' split: sum.splits option.splits if_splits)

lemma db_get_put:
  assumes "box_ok (db_box d)" and "db_put ent te b k v d = (None, d')"
  shows "db_get None c l d' = (if c = b \<and> l = k then Inr (Some v) else db_get None c l d)"
proof -
  obtain s where s: "seal_with (db_box d) ent v = Inr s"
    and bs: "bucket_of d' c = (if c = b then AList.update k s (bucket_of d b) else bucket_of d c)"
    using db_put_bucket[OF assms(2)] .
  show ?thesis
    using open_seal_with[OF assms(1) s] db_put_box[OF assms(2)] bs
    by (simp add: db_get_def update_conv' cong: option.case_cong)
qed

lemma db_delete_failure: "db_delete te b k d = (Some e, d') \<Longrightarrow> d' = d"
  by (auto simp: db_delete_def split: option.splits)

lemma db_delete_box: "db_delete te b k d = (r, d') \<Longrightarrow> db_box d' = db_box d"
  by (auto simp: db_delete_def split: option.splits)

lemma db_get_delete:
  assumes "db_delete te b k d = (None, d')"
  shows "db_get None c l d' = (if c = b \<and> l = k then Inr None else db_get None c l d)"
proof (cases "map_of (db_buckets d) b")
  case None
  then show ?thesis using assms by (auto simp: db_delete_def db_get_def bucket_of_def split: option.splits)
next
  case (Some kvs)
  then have "d' = d\<lparr>db_buckets := AList.update b (AList.delete k kvs) (db_buckets d)\<rparr>"
    using assms by (auto simp: db_delete_def split: option.splits)
  then show ?thesis
    using Some by (auto simp: db_get_def bucket_of_def update_conv' delete_conv' split: option.splits)
qed

end
