(* ===== verification/Slack_Stores.thy ===== *)
theory Slack_Stores
  imports Secret Go_Json
begin

text \<open>
  What the Slack server keeps: the one-time state tokens of the install flow
  (\<open>internal/slack/oauth.go\<close>) and of the link flow (\<open>internal/slack/link.go\<close>), the bot token of each
  workspace and the calendar link of each user, in a file (\<open>oauth.go\<close>, \<open>userlink.go\<close>) or in the
  embedded database (\<open>boltstore.go\<close>). The files are modelled to the byte: the JSON text of the map,
  sealed when a key is configured.
\<close>

section \<open>One-time tokens\<close>

abbreviation state_ttl :: duration where "state_ttl \<equiv> 10 * minute"

definition fresh_token :: "entropy \<Rightarrow> string" where
  "fresh_token ent = (case random_bytes ent 16 of Inl e \<Rightarrow> [] | Inr b \<Rightarrow> hex_encode b)"

type_synonym state_store = "string \<rightharpoonup> gotime"

text \<open>Dropping the entries of a map whose value does not satisfy a condition: the loop of \<open>reapLocked\<close>.\<close>

definition keep_if :: "('v \<Rightarrow> bool) \<Rightarrow> (string \<rightharpoonup> 'v) \<Rightarrow> string \<rightharpoonup> 'v" where
  "keep_if P m = (\<lambda>k. case m k of None \<Rightarrow> None | Some v \<Rightarrow> if P v then Some v else None)"

definition state_reap :: "gotime \<Rightarrow> state_store \<Rightarrow> state_store" where
  "state_reap t s = keep_if (\<lambda>expiry. before t expiry) s"

text \<open>\<open>issue\<close> reads the clock twice: to reap and to stamp the expiry.\<close>

definition state_issue :: "entropy \<Rightarrow> gotime \<Rightarrow> gotime \<Rightarrow> state_store \<Rightarrow> string \<times> state_store" where
  "state_issue ent t_reap t s =
     (case random_bytes ent 16 of
        Inl e \<Rightarrow> ([], s)
      | Inr b \<Rightarrow> (hex_encode b, (state_reap t_reap s)(hex_encode b \<mapsto> time_add t state_ttl)))"

definition state_consume :: "gotime \<Rightarrow> string \<Rightarrow> state_store \<Rightarrow> bool \<times> state_store" where
  "state_consume t tok s =
     (if tok = [] then (False, s)
      else case s tok of
        None \<Rightarrow> (False, s)
      | Some expiry \<Rightarrow> (before t expiry, s(tok := None)))"

record link_state =
  ls_team :: string
  ls_user :: string
  ls_provider :: string
  ls_expiry :: gotime

type_synonym link_states = "string \<rightharpoonup> link_state"

definition link_reap :: "gotime \<Rightarrow> link_states \<Rightarrow> link_states" where
  "link_reap t s = keep_if (\<lambda>st. before t (ls_expiry st)) s"

definition link_issue ::
  "entropy \<Rightarrow> gotime \<Rightarrow> gotime \<Rightarrow> string \<Rightarrow> string \<Rightarrow> string \<Rightarrow> link_states \<Rightarrow> string \<times> link_states" where
  "link_issue ent t_reap t team user provider s =
     (case random_bytes ent 16 of
        Inl e \<Rightarrow> ([], s)
      | Inr b \<Rightarrow>
          (hex_encode b,
           (link_reap t_reap s)
             (hex_encode b \<mapsto> \<lparr>ls_team = team, ls_user = user, ls_provider = provider, ls_expiry = time_add t state_ttl\<rparr>)))"

definition link_consume :: "gotime \<Rightarrow> string \<Rightarrow> link_states \<Rightarrow> link_state option \<times> link_states" where
  "link_consume t tok s =
     (if tok = [] then (None, s)
      else case s tok of
        None \<Rightarrow> (None, s)
      | Some st \<Rightarrow> (if before t (ls_expiry st) then Some st else None, s(tok := None)))"

text \<open>
  What both stores promise. \<open>pending s tok\<close> is what an unspent token stands for, with its expiry:
  issuing adds the token it returns and keeps every token that has not expired, spending a token
  removes it, and gives its value only before the expiry.
\<close>

locale one_time_tokens =
  fixes issue :: "entropy \<Rightarrow> gotime \<Rightarrow> gotime \<Rightarrow> 'v \<Rightarrow> 's \<Rightarrow> string \<times> 's"
    and consume :: "gotime \<Rightarrow> string \<Rightarrow> 's \<Rightarrow> 'v option \<times> 's"
    and pending :: "'s \<Rightarrow> string \<Rightarrow> ('v \<times> gotime) option"
  assumes issue_token: "fst (issue ent tr t v s) = fresh_token ent"
    and issue_pending: "pending (snd (issue ent tr t v s)) tok =
      (if fresh_token ent \<noteq> [] \<and> tok = fresh_token ent then Some (v, time_add t state_ttl)
       else if fresh_token ent = [] then pending s tok
       else case pending s tok of None \<Rightarrow> None | Some (u, x) \<Rightarrow> if before tr x then Some (u, x) else None)"
    and consume_value: "fst (consume t tok s) =
      (case pending s tok of None \<Rightarrow> None | Some (v, x) \<Rightarrow> if tok \<noteq> [] \<and> before t x then Some v else None)"
    and consume_pending: "pending (snd (consume t tok s)) tok' =
      (if tok \<noteq> [] \<and> tok' = tok then None else pending s tok')"

text \<open>A history of a store: what was asked of it and what it answered, oldest first.\<close>

datatype 'v token_op = Issue entropy gotime gotime 'v | Consume gotime string

datatype 'v token_answer = Issued string | Consumed "'v option"

fun token_step ::
  "(entropy \<Rightarrow> gotime \<Rightarrow> gotime \<Rightarrow> 'v \<Rightarrow> 's \<Rightarrow> string \<times> 's) \<Rightarrow> (gotime \<Rightarrow> string \<Rightarrow> 's \<Rightarrow> 'v option \<times> 's) \<Rightarrow>
   'v token_op \<Rightarrow> 's \<Rightarrow> 'v token_answer \<times> 's" where
  "token_step issue consume (Issue ent tr t v) s = apfst Issued (issue ent tr t v s)"
| "token_step issue consume (Consume t tok) s = apfst Consumed (consume t tok s)"

fun token_history ::
  "(entropy \<Rightarrow> gotime \<Rightarrow> gotime \<Rightarrow> 'v \<Rightarrow> 's \<Rightarrow> string \<times> 's) \<Rightarrow> (gotime \<Rightarrow> string \<Rightarrow> 's \<Rightarrow> 'v option \<times> 's) \<Rightarrow>
   'v token_op list \<Rightarrow> 's \<Rightarrow> ('v token_op \<times> 'v token_answer) list \<times> 's" where
  "token_history issue consume [] s = ([], s)"
| "token_history issue consume (x # xs) s =
     (case token_step issue consume x s of
        (a, s') \<Rightarrow> apfst (Cons (x, a)) (token_history issue consume xs s'))"

fun consumes :: "string \<Rightarrow> 'v token_op \<times> 'v token_answer \<Rightarrow> bool" where
  "consumes tok (Consume t tok', a) = (tok' = tok)"
| "consumes tok (Issue ent tr t v, a) = False"

text \<open>
  \<open>issued_for v x tok hist\<close>: \<open>hist\<close> issued \<open>tok\<close> for \<open>v\<close> with expiry \<open>x\<close>, and has not tried to spend it since.
\<close>

definition issued_for :: "'v \<Rightarrow> gotime \<Rightarrow> string \<Rightarrow> ('v token_op \<times> 'v token_answer) list \<Rightarrow> bool" where
  "issued_for v x tok hist \<longleftrightarrow>
     (\<exists>pre ent tr t post. hist = pre @ (Issue ent tr t v, Issued tok) # post \<and> x = time_add t state_ttl
        \<and> \<not> list_ex (consumes tok) post)"

definition leaves :: "string \<Rightarrow> gotime \<Rightarrow> 'v token_op \<Rightarrow> bool" where
  "leaves tok x op \<longleftrightarrow> (case op of Issue ent tr t u \<Rightarrow> fresh_token ent \<noteq> tok \<and> before tr x | Consume t tok' \<Rightarrow> tok' \<noteq> tok)"

lemma issued_for_snoc: "issued_for v x tok hist \<Longrightarrow> \<not> consumes tok xa \<Longrightarrow> issued_for v x tok (hist @ [xa])"
  unfolding issued_for_def by (elim exE conjE) (rule exI, rule exI, rule exI, rule exI, rule exI, auto)

lemma token_history_snoc:
  "token_history issue consume (xs @ [x]) s =
     (case token_history issue consume xs s of
        (hist, s') \<Rightarrow> (case token_step issue consume x s' of (a, s'') \<Rightarrow> (hist @ [(x, a)], s'')))"
  by (induction xs arbitrary: s) (auto split: prod.splits)

lemma token_history_split:
  "token_history issue consume xs s = (pre @ (op, a) # post, s') \<Longrightarrow>
     \<exists>ys s1 s2. token_history issue consume ys s = (pre, s1) \<and> token_step issue consume op s1 = (a, s2)"
proof (induction xs arbitrary: s pre)
  case (Cons x xs)
  obtain b s1 where st: "token_step issue consume x s = (b, s1)" by fastforce
  obtain hist s2 where h: "token_history issue consume xs s1 = (hist, s2)" by fastforce
  have e: "(x, b) # hist = pre @ (op, a) # post" "s2 = s'" using Cons.prems st h by auto
  show ?case
  proof (cases pre)
    case Nil
    then have "token_history issue consume [] s = (pre, s) \<and> token_step issue consume op s = (a, s1)" using e st by simp
    then show ?thesis by blast
  next
    case (Cons y pre')
    then have "token_history issue consume xs s1 = (pre' @ (op, a) # post, s')" using e h by simp
    from Cons.IH[OF this] obtain ys s3 s4 where
      "token_history issue consume ys s1 = (pre', s3)" "token_step issue consume op s3 = (a, s4)" by blast
    then have "token_history issue consume (x # ys) s = (pre, s3) \<and> token_step issue consume op s3 = (a, s4)"
      using st e Cons by simp
    then show ?thesis by blast
  qed
qed simp

context one_time_tokens
begin

lemma pending_was_issued:
  "(\<And>tok. pending s tok = None) \<Longrightarrow> token_history issue consume xs s = (hist, s') \<Longrightarrow>
     pending s' tok = Some (v, x) \<Longrightarrow> tok \<noteq> [] \<Longrightarrow> issued_for v x tok hist"
proof (induction xs arbitrary: hist s' tok v x rule: rev_induct)
  case (snoc op xs)
  obtain hist0 s0 where h0: "token_history issue consume xs s = (hist0, s0)" by fastforce
  obtain a where h: "hist = hist0 @ [(op, a)]" and st: "token_step issue consume op s0 = (a, s')"
    using snoc.prems(2) h0 by (auto simp: token_history_snoc split: prod.splits)
  note IH = snoc.IH[OF snoc.prems(1) h0 _ snoc.prems(4)]
  show ?case
  proof (cases op)
    case (Issue ent tr t u)
    show ?thesis
    proof (cases "fresh_token ent \<noteq> [] \<and> tok = fresh_token ent")
      case True
      then have "a = Issued tok" "v = u" "x = time_add t state_ttl"
        using st Issue snoc.prems(3) issue_token[of ent tr t u s0] issue_pending[of ent tr t u s0 tok]
        by (cases "issue ent tr t u s0"; auto)+
      then show ?thesis unfolding issued_for_def h Issue by fastforce
    next
      case False
      then have "pending s0 tok = Some (v, x)"
        using st Issue snoc.prems(3) issue_pending[of ent tr t u s0 tok]
        by (cases "issue ent tr t u s0") (auto split: if_splits option.splits)
      from issued_for_snoc[OF IH[OF this]] show ?thesis unfolding h Issue by simp
    qed
  next
    case (Consume t tok2)
    then have p: "pending s0 tok = Some (v, x)" and n: "tok2 \<noteq> tok \<or> tok2 = []"
      using st snoc.prems(3) consume_pending[of t tok2 s0 tok]
      by (cases "consume t tok2 s0"; auto split: if_splits)+
    from issued_for_snoc[OF IH[OF p]] n snoc.prems(4) show ?thesis unfolding h Consume by auto
  qed
qed simp

text \<open>A token gives its value only once after each issue, and only before its expiry.\<close>

lemma spent_was_issued:
  assumes "\<And>tok. pending s tok = None" and "token_history issue consume xs s = (pre @ (Consume t tok, Consumed (Some v)) # post, s')"
  shows "\<exists>x. issued_for v x tok pre \<and> before t x"
proof -
  obtain ys s1 s2 where h: "token_history issue consume ys s = (pre, s1)"
    and st: "token_step issue consume (Consume t tok) s1 = (Consumed (Some v), s2)"
    using token_history_split[OF assms(2)] by auto
  then have "fst (consume t tok s1) = Some v" by (cases "consume t tok s1") auto
  then obtain x where "pending s1 tok = Some (v, x)" "tok \<noteq> []" "before t x"
    unfolding consume_value by (auto split: option.splits if_splits)
  with pending_was_issued[OF assms(1) h] show ?thesis by blast
qed

text \<open>An issued token can be spent until it expires, whatever happens to the other tokens.\<close>

lemma pending_kept:
  "pending s tok = Some (v, x) \<Longrightarrow> list_all (leaves tok x) ops \<Longrightarrow>
     pending (snd (token_history issue consume ops s)) tok = Some (v, x)"
proof (induction ops arbitrary: s)
  case (Cons op ops)
  have "pending (snd (token_step issue consume op s)) tok = Some (v, x)"
    using Cons.prems issue_pending consume_pending by (cases op) (auto simp: leaves_def)
  then show ?case using Cons by (cases "token_step issue consume op s") (auto split: prod.splits)
qed simp

lemma issued_can_be_spent:
  assumes "fresh_token ent \<noteq> []" and "list_all (leaves (fresh_token ent) (time_add t state_ttl)) ops"
    and "before t' (time_add t state_ttl)"
  shows "fst (consume t' (fresh_token ent) (snd (token_history issue consume ops (snd (issue ent tr t v s))))) = Some v"
  using pending_kept[of "snd (issue ent tr t v s)" "fresh_token ent" v "time_add t state_ttl" ops] assms
  by (simp add: issue_pending consume_value)

end

section \<open>The two token stores keep the contract\<close>

definition install_issue :: "entropy \<Rightarrow> gotime \<Rightarrow> gotime \<Rightarrow> unit \<Rightarrow> state_store \<Rightarrow> string \<times> state_store" where
  "install_issue ent tr t v s = state_issue ent tr t s"

definition install_consume :: "gotime \<Rightarrow> string \<Rightarrow> state_store \<Rightarrow> unit option \<times> state_store" where
  "install_consume t tok s = (case state_consume t tok s of (b, s') \<Rightarrow> (if b then Some () else None, s'))"

definition install_pending :: "state_store \<Rightarrow> string \<Rightarrow> (unit \<times> gotime) option" where
  "install_pending s tok = map_option (Pair ()) (s tok)"

definition pending_link :: "entropy \<Rightarrow> gotime \<Rightarrow> gotime \<Rightarrow> string \<times> string \<times> string \<Rightarrow> link_states \<Rightarrow> string \<times> link_states" where
  "pending_link ent tr t v s = (case v of (team, user, provider) \<Rightarrow> link_issue ent tr t team user provider s)"

definition link_value :: "link_state \<Rightarrow> string \<times> string \<times> string" where
  "link_value st = (ls_team st, ls_user st, ls_provider st)"

definition spend_link :: "gotime \<Rightarrow> string \<Rightarrow> link_states \<Rightarrow> (string \<times> string \<times> string) option \<times> link_states" where
  "spend_link t tok s = apfst (map_option link_value) (link_consume t tok s)"

definition link_pending :: "link_states \<Rightarrow> string \<Rightarrow> ((string \<times> string \<times> string) \<times> gotime) option" where
  "link_pending s tok = map_option (\<lambda>st. (link_value st, ls_expiry st)) (s tok)"

lemma hex_encode_fresh: "random_bytes ent 16 = Inr b \<Longrightarrow> hex_encode b \<noteq> []"
  using random_bytes_length[of ent 16 b] by auto

interpretation install: one_time_tokens install_issue install_consume install_pending
proof
  fix ent tr t v s tok tok'
  show "fst (install_issue ent tr t v s) = fresh_token ent"
    by (simp add: install_issue_def state_issue_def fresh_token_def split: sum.splits)
  show "install_pending (snd (install_issue ent tr t v s)) tok =
      (if fresh_token ent \<noteq> [] \<and> tok = fresh_token ent then Some (v, time_add t state_ttl)
       else if fresh_token ent = [] then install_pending s tok
       else case install_pending s tok of None \<Rightarrow> None | Some (u, x) \<Rightarrow> if before tr x then Some (u, x) else None)"
    using hex_encode_fresh
    by (auto simp: install_issue_def state_issue_def fresh_token_def install_pending_def state_reap_def keep_if_def
        split: sum.splits option.splits)
  show "fst (install_consume t tok s) =
      (case install_pending s tok of None \<Rightarrow> None | Some (v, x) \<Rightarrow> if tok \<noteq> [] \<and> before t x then Some v else None)"
    by (auto simp: install_consume_def state_consume_def install_pending_def split: option.splits)
  show "install_pending (snd (install_consume t tok s)) tok' =
      (if tok \<noteq> [] \<and> tok' = tok then None else install_pending s tok')"
    by (auto simp: install_consume_def state_consume_def install_pending_def split: option.splits)
qed

interpretation linking: one_time_tokens pending_link spend_link link_pending
proof
  fix ent tr t s tok tok' and v :: "string \<times> string \<times> string"
  obtain team user provider where v: "v = (team, user, provider)" by (cases v) auto
  show "fst (pending_link ent tr t v s) = fresh_token ent"
    by (simp add: v pending_link_def link_issue_def fresh_token_def split: sum.splits)
  show "link_pending (snd (pending_link ent tr t v s)) tok =
      (if fresh_token ent \<noteq> [] \<and> tok = fresh_token ent then Some (v, time_add t state_ttl)
       else if fresh_token ent = [] then link_pending s tok
       else case link_pending s tok of None \<Rightarrow> None | Some (u, x) \<Rightarrow> if before tr x then Some (u, x) else None)"
    using hex_encode_fresh
    by (auto simp: v pending_link_def link_issue_def fresh_token_def link_pending_def link_value_def link_reap_def keep_if_def
        split: sum.splits option.splits)
  show "fst (spend_link t tok s) =
      (case link_pending s tok of None \<Rightarrow> None | Some (v, x) \<Rightarrow> if tok \<noteq> [] \<and> before t x then Some v else None)"
    by (auto simp: spend_link_def link_consume_def link_pending_def split: option.splits)
  show "link_pending (snd (spend_link t tok s)) tok' =
      (if tok \<noteq> [] \<and> tok' = tok then None else link_pending s tok')"
    by (auto simp: spend_link_def link_consume_def link_pending_def split: option.splits)
qed

section \<open>Maps in files\<close>

text \<open>
  Both file stores keep a JSON object. \<open>null\<close> decodes to the nil map, whose assignment panics; the
  panic is an error value here. \<open>dec\<close> decodes one value into the zero value of the map.
\<close>

abbreviation nil_map_panic :: error where "nil_map_panic \<equiv> Sentinel ''panic: assignment to entry in nil map''"

definition map_entry :: "(json \<Rightarrow> 'v option) \<Rightarrow> (string \<times> 'v) list \<Rightarrow> string \<Rightarrow> json \<Rightarrow> (string \<times> 'v) list option" where
  "map_entry dec m k j = map_option (\<lambda>v. AList.update k v m) (dec j)"

fun decode_map :: "(json \<Rightarrow> 'v option) \<Rightarrow> json_text \<Rightarrow> (string \<times> 'v) list option result" where
  "decode_map dec (Json (JObj kvs)) =
     (case fold_fields (map_entry dec) [] kvs of None \<Rightarrow> Inl (Errorf ''cannot decode'' []) | Some m \<Rightarrow> Inr (Some m))"
| "decode_map dec (Json JNull) = Inr None"
| "decode_map dec _ = Inl (Errorf ''cannot decode'' [])"

definition encode_map :: "('v \<Rightarrow> json) \<Rightarrow> (string \<times> 'v) list option \<Rightarrow> json" where
  "encode_map enc m =
     (case m of None \<Rightarrow> JNull | Some kvs \<Rightarrow> JObj (map (\<lambda>(k, v). (k, enc v)) (sort_key fst kvs)))"

record file_store =
  fs_box :: "aead option"
  fs_file :: "string stored"

text \<open>What can fail around a write: the directory, the random source, the file.\<close>

record write_env =
  we_mkdir :: "error option"
  we_entropy :: entropy
  we_write :: "error option"

definition load_map :: "(json \<Rightarrow> 'v option) \<Rightarrow> string \<Rightarrow> file_store \<Rightarrow> (string \<times> 'v) list option result" where
  "load_map dec what f =
     (case fs_file f of
        Absent \<Rightarrow> Inr (Some [])
      | Corrupt e \<Rightarrow> Inl e
      | Content b \<Rightarrow>
          (case open_with (fs_box f) b of
             Inl e \<Rightarrow> Inl (Errorf (''decrypt '' @ what) [e])
           | Inr t \<Rightarrow> decode_map dec (scan_json t)))"

definition store_map ::
  "('v \<Rightarrow> json) \<Rightarrow> write_env \<Rightarrow> (string \<times> 'v) list option \<Rightarrow> file_store \<Rightarrow> error option \<times> file_store" where
  "store_map enc we m f =
     (case we_mkdir we of
        Some e \<Rightarrow> (Some e, f)
      | None \<Rightarrow>
          (let t = (if fs_box f = None then indent_json (encode_map enc m) else show_json (encode_map enc m)) in
           case seal_with (fs_box f) (we_entropy we) t of
             Inl e \<Rightarrow> (Some e, f)
           | Inr b \<Rightarrow> (case we_write we of Some e \<Rightarrow> (Some e, f) | None \<Rightarrow> (None, f\<lparr>fs_file := Content b\<rparr>))))"

definition save_in_map ::
  "(json \<Rightarrow> 'v option) \<Rightarrow> ('v \<Rightarrow> json) \<Rightarrow> string \<Rightarrow> write_env \<Rightarrow> string \<Rightarrow> 'v \<Rightarrow> file_store \<Rightarrow> error option \<times> file_store" where
  "save_in_map dec enc what we k v f =
     (case load_map dec what f of
        Inl e \<Rightarrow> (Some e, f)
      | Inr None \<Rightarrow> (Some nil_map_panic, f)
      | Inr (Some m) \<Rightarrow> store_map enc we (Some (AList.update k v m)) f)"

definition look_in_map :: "(json \<Rightarrow> 'v option) \<Rightarrow> string \<Rightarrow> error \<Rightarrow> string \<Rightarrow> file_store \<Rightarrow> 'v result" where
  "look_in_map dec what missing k f =
     (case load_map dec what f of
        Inl e \<Rightarrow> Inl e
      | Inr None \<Rightarrow> Inl missing
      | Inr (Some m) \<Rightarrow> (case map_of m k of None \<Rightarrow> Inl missing | Some v \<Rightarrow> Inr v))"

definition delete_in_map ::
  "(json \<Rightarrow> 'v option) \<Rightarrow> ('v \<Rightarrow> json) \<Rightarrow> string \<Rightarrow> write_env \<Rightarrow> string \<Rightarrow> file_store \<Rightarrow> error option \<times> file_store" where
  "delete_in_map dec enc what we k f =
     (case load_map dec what f of
        Inl e \<Rightarrow> (Some e, f)
      | Inr m \<Rightarrow> store_map enc we (map_option (AList.delete k) m) f)"

section \<open>Bot tokens and user links\<close>

definition not_installed :: "string \<Rightarrow> error" where
  "not_installed team = Errorf (''workspace '' @ team @ '' not installed'') []"

abbreviation ErrNotLinked :: error where "ErrNotLinked \<equiv> Sentinel ''slack user not linked to a calendar''"

record user_link =
  ul_provider :: string
  ul_refresh_token :: string
  ul_icloud_user :: string
  ul_icloud_password :: string

definition zero_link :: user_link where
  "zero_link = \<lparr>ul_provider = [], ul_refresh_token = [], ul_icloud_user = [], ul_icloud_password = []\<rparr>"

definition redacted :: "user_link \<Rightarrow> user_link" where
  "redacted l =
     \<lparr>ul_provider = ul_provider l,
      ul_refresh_token = (if ul_refresh_token l \<noteq> [] then ''<redacted>'' else []),
      ul_icloud_user = (if ul_icloud_user l \<noteq> [] then ul_icloud_user l else []),
      ul_icloud_password = (if ul_icloud_password l \<noteq> [] then ''<redacted>'' else [])\<rparr>"

definition link_json :: "user_link \<Rightarrow> json" where
  "link_json l = JObj ([(''provider'', JStr (ul_provider l))]
     @ omit_empty ''refresh_token'' (ul_refresh_token l)
     @ omit_empty ''icloud_user'' (ul_icloud_user l)
     @ omit_empty ''icloud_app_password'' (ul_icloud_password l))"

definition link_field :: "user_link \<Rightarrow> string \<Rightarrow> json \<Rightarrow> user_link option" where
  "link_field l k v =
     (if equal_fold k ''provider'' then map_option (\<lambda>x. l\<lparr>ul_provider := x\<rparr>) (as_string (ul_provider l) v)
      else if equal_fold k ''refresh_token''
      then map_option (\<lambda>x. l\<lparr>ul_refresh_token := x\<rparr>) (as_string (ul_refresh_token l) v)
      else if equal_fold k ''icloud_user'' then map_option (\<lambda>x. l\<lparr>ul_icloud_user := x\<rparr>) (as_string (ul_icloud_user l) v)
      else if equal_fold k ''icloud_app_password''
      then map_option (\<lambda>x. l\<lparr>ul_icloud_password := x\<rparr>) (as_string (ul_icloud_password l) v)
      else Some l)"

fun as_link :: "json \<Rightarrow> user_link option" where
  "as_link (JObj kvs) = fold_fields link_field zero_link kvs"
| "as_link JNull = Some zero_link"
| "as_link _ = None"

definition link_key :: "string \<Rightarrow> string \<Rightarrow> string" where
  "link_key team user = team @ '':'' @ user"

text \<open>\<open>List\<close> cuts the keys again, in an order Go leaves open; here the order of the map.\<close>

definition link_ids :: "string list \<Rightarrow> (string \<times> string) list" where
  "link_ids ks = concat (map (\<lambda>k. case cut_on (CHR '':'') k of (t, u, ok) \<Rightarrow> if ok then [(t, u)] else []) ks)"

subsection \<open>In files\<close>

definition token_file_save :: "write_env \<Rightarrow> string \<Rightarrow> string \<Rightarrow> file_store \<Rightarrow> error option \<times> file_store" where
  "token_file_save we team tok f = save_in_map (as_string []) JStr ''slack tokens'' we team tok f"

definition token_file_get :: "string \<Rightarrow> file_store \<Rightarrow> string result" where
  "token_file_get team f = look_in_map (as_string []) ''slack tokens'' (not_installed team) team f"

definition link_file_save :: "write_env \<Rightarrow> string \<Rightarrow> user_link \<Rightarrow> file_store \<Rightarrow> error option \<times> file_store" where
  "link_file_save we k l f = save_in_map as_link link_json ''user links'' we k l f"

definition link_file_get :: "string \<Rightarrow> file_store \<Rightarrow> user_link result" where
  "link_file_get k f = look_in_map as_link ''user links'' ErrNotLinked k f"

definition link_file_delete :: "write_env \<Rightarrow> string \<Rightarrow> file_store \<Rightarrow> error option \<times> file_store" where
  "link_file_delete we k f = delete_in_map as_link link_json ''user links'' we k f"

definition link_file_list :: "file_store \<Rightarrow> (string \<times> string) list result" where
  "link_file_list f =
     (case load_map as_link ''user links'' f of
        Inl e \<Rightarrow> Inl e
      | Inr None \<Rightarrow> Inr []
      | Inr (Some m) \<Rightarrow> Inr (link_ids (map fst m)))"

subsection \<open>In the database\<close>

definition token_bucket :: string where "token_bucket = ''slack_tokens''"
definition link_bucket :: string where "link_bucket = ''slack_user_links''"

record tx_env =
  tx_entropy :: entropy
  tx_error :: "error option"

definition token_bolt_save :: "tx_env \<Rightarrow> string \<Rightarrow> string \<Rightarrow> db \<Rightarrow> error option \<times> db" where
  "token_bolt_save te team tok d = db_put (tx_entropy te) (tx_error te) token_bucket team tok d"

definition token_bolt_get :: "error option \<Rightarrow> string \<Rightarrow> db \<Rightarrow> string result" where
  "token_bolt_get te team d =
     (case db_get te token_bucket team d of
        Inl e \<Rightarrow> Inl e
      | Inr None \<Rightarrow> Inl (not_installed team)
      | Inr (Some v) \<Rightarrow> Inr v)"

definition link_bolt_save :: "tx_env \<Rightarrow> string \<Rightarrow> user_link \<Rightarrow> db \<Rightarrow> error option \<times> db" where
  "link_bolt_save te k l d = db_put (tx_entropy te) (tx_error te) link_bucket k (show_json (link_json l)) d"

definition link_bolt_get :: "error option \<Rightarrow> string \<Rightarrow> db \<Rightarrow> user_link result" where
  "link_bolt_get te k d =
     (case db_get te link_bucket k d of
        Inl e \<Rightarrow> Inl e
      | Inr None \<Rightarrow> Inl ErrNotLinked
      | Inr (Some v) \<Rightarrow>
          (case scan_json v of
             Json j \<Rightarrow> (case as_link j of None \<Rightarrow> Inl (Errorf ''cannot decode'' []) | Some l \<Rightarrow> Inr l)
           | _ \<Rightarrow> Inl (Errorf ''cannot decode'' [])))"

definition link_bolt_delete :: "error option \<Rightarrow> string \<Rightarrow> db \<Rightarrow> error option \<times> db" where
  "link_bolt_delete te k d = db_delete te link_bucket k d"

definition link_bolt_list :: "error option \<Rightarrow> db \<Rightarrow> (string \<times> string) list result" where
  "link_bolt_list te d =
     (case db_list te link_bucket d of Inl e \<Rightarrow> Inl e | Inr kvs \<Rightarrow> Inr (link_ids (map fst kvs)))"

section \<open>What the stores promise\<close>

text \<open>
  A store that fails leaves everything as it was; one that succeeds gives the saved value back, and
  the values of the other keys unchanged, errors included.
\<close>

locale value_store =
  fixes save :: "'e \<Rightarrow> string \<Rightarrow> 'v \<Rightarrow> 's \<Rightarrow> error option \<times> 's" and look :: "string \<Rightarrow> 's \<Rightarrow> 'v result"
    and usable :: "'s \<Rightarrow> bool"
  assumes save_fail: "save e k v s = (Some x, s') \<Longrightarrow> s' = s"
    and save_usable: "usable s \<Longrightarrow> save e k v s = (None, s') \<Longrightarrow> usable s'"
    and look_save: "usable s \<Longrightarrow> save e k v s = (None, s') \<Longrightarrow> look l s' = (if l = k then Inr v else look l s)"

fun save_all :: "('e \<Rightarrow> string \<Rightarrow> 'v \<Rightarrow> 's \<Rightarrow> error option \<times> 's) \<Rightarrow> ('e \<times> string \<times> 'v) list \<Rightarrow> 's \<Rightarrow> 's" where
  "save_all save [] s = s"
| "save_all save ((e, k, v) # ws) s = save_all save ws (snd (save e k v s))"

fun saved :: "('e \<Rightarrow> string \<Rightarrow> 'v \<Rightarrow> 's \<Rightarrow> error option \<times> 's) \<Rightarrow> ('e \<times> string \<times> 'v) list \<Rightarrow> 's \<Rightarrow> (string \<times> 'v) list" where
  "saved save [] s = []"
| "saved save ((e, k, v) # ws) s =
     (case save e k v s of
        (Some x, s') \<Rightarrow> saved save ws s'
      | (None, s') \<Rightarrow> (k, v) # saved save ws s')"

context value_store
begin

text \<open>Over any sequence of saves, some failing, each key reads as the last value saved for it.\<close>

lemma last_saved_wins:
  "usable s \<Longrightarrow> look l (save_all save ws s) =
     (case find (\<lambda>(k, v). k = l) (rev (saved save ws s)) of Some (k, v) \<Rightarrow> Inr v | None \<Rightarrow> look l s)"
proof (induction ws arbitrary: s)
  case (Cons w ws)
  obtain e k v where w: "w = (e, k, v)" by (cases w) auto
  obtain r s' where r: "save e k v s = (r, s')" by fastforce
  show ?case
  proof (cases r)
    case None
    then have "look l s' = (if l = k then Inr v else look l s)" "usable s'"
      using look_save[OF Cons.prems] save_usable[OF Cons.prems] r by auto
    then show ?thesis
      using Cons.IH[of s'] None by (auto simp: w r find_append split: option.splits)
  next
    case (Some x)
    then have "s' = s" using save_fail r by blast
    then show ?thesis using Cons.IH[OF Cons.prems] Some r by (simp add: w)
  qed
qed simp

end

section \<open>The four stores keep the promise\<close>

lemma map_of_insort: "k \<notin> fst ` set xs \<Longrightarrow> map_of (insort_key fst (k, v) xs) = (map_of xs)(k \<mapsto> v)"
  by (induction xs) (auto simp: fun_eq_iff)

lemma keys_insort: "fst ` set (insort_key fst kv xs) = insert (fst kv) (fst ` set xs)"
  by (simp add: set_insort_key)

lemma map_of_sort: "distinct (map fst xs) \<Longrightarrow> map_of (sort_key fst xs) = map_of xs"
proof (induction xs)
  case (Cons kv xs)
  then show ?case by (cases kv) (simp add: map_of_insort)
qed simp

lemma distinct_insort: "fst kv \<notin> fst ` set xs \<Longrightarrow> distinct (map fst xs) \<Longrightarrow> distinct (map fst (insort_key fst kv xs))"
  by (induction xs) (auto simp: set_insort_key)

lemma distinct_sorted: "distinct (map fst xs) \<Longrightarrow> distinct (map fst (sort_key fst xs))"
  by (induction xs) (auto intro!: distinct_insort)

text \<open>A codec reads back the values it writes, and writes values the scanner reads.\<close>

definition codec_ok :: "(json \<Rightarrow> 'v option) \<Rightarrow> ('v \<Rightarrow> json) \<Rightarrow> bool" where
  "codec_ok dec enc \<longleftrightarrow> (\<forall>v. dec (enc v) = Some v \<and> plain_json (enc v))"

lemma fold_map_entries:
  "codec_ok dec enc \<Longrightarrow> fold_fields (map_entry dec) acc (map (\<lambda>(k, v). (k, enc v)) kvs)
     = Some (fold (\<lambda>(k, v). AList.update k v) kvs acc)"
  by (induction kvs arbitrary: acc) (auto simp: map_entry_def codec_ok_def)

lemma map_of_fold_update:
  "distinct (map fst kvs) \<Longrightarrow> map_of (fold (\<lambda>(k, v). AList.update k v) kvs acc) k
     = (case map_of kvs k of Some v \<Rightarrow> Some v | None \<Rightarrow> map_of acc k)"
proof (induction kvs arbitrary: acc)
  case (Cons kv kvs)
  obtain a b where kv: "kv = (a, b)" by (cases kv)
  have "map_of kvs a = None" using Cons.prems by (simp add: kv map_of_eq_None_iff)
  then show ?case
    using Cons by (cases "k = a"; cases "map_of kvs k") (simp_all add: kv update_conv')
qed simp

lemma distinct_fold_update:
  "distinct (map fst acc) \<Longrightarrow> distinct (map fst (fold (\<lambda>(k, v). AList.update k v) kvs acc))"
  by (induction kvs arbitrary: acc) (auto simp: distinct_update)

lemma fold_entries_distinct:
  "fold_fields (map_entry dec) acc kvs = Some m \<Longrightarrow> distinct (map fst acc) \<Longrightarrow> distinct (map fst m)"
  by (induction kvs arbitrary: acc) (auto simp: map_entry_def distinct_update split: option.splits)

lemma load_map_distinct: "load_map dec what f = Inr (Some m) \<Longrightarrow> distinct (map fst m)"
proof -
  have "decode_map dec t = Inr (Some m) \<Longrightarrow> distinct (map fst m)" for t
    by (induction dec t rule: decode_map.induct) (auto split: option.splits dest: fold_entries_distinct)
  then show "load_map dec what f = Inr (Some m) \<Longrightarrow> distinct (map fst m)"
    by (auto simp: load_map_def split: stored.splits sum.splits)
qed

lemma decode_encode_map:
  assumes "codec_ok dec enc" and "distinct (map fst m)"
  shows "\<exists>m'. decode_map dec (Json (encode_map enc (Some m))) = Inr (Some m') \<and> map_of m' = map_of m"
  using fold_map_entries[OF assms(1), of "[]" "sort_key fst m"]
    map_of_fold_update[OF distinct_sorted[OF assms(2)], of "[]"] map_of_sort[OF assms(2)]
  by (auto simp: encode_map_def fun_eq_iff split: option.splits)

lemma plain_encode_map: "codec_ok dec enc \<Longrightarrow> plain_json (encode_map enc m)"
  by (auto simp: encode_map_def codec_ok_def split: option.splits)

lemma store_map_failure: "store_map enc we m f = (Some e, f') \<Longrightarrow> f' = f"
  by (auto simp: store_map_def Let_def split: option.splits sum.splits)

lemma store_map_box: "store_map enc we m f = (r, f') \<Longrightarrow> fs_box f' = fs_box f"
  by (auto simp: store_map_def Let_def split: option.splits sum.splits)

lemma load_stored_map:
  assumes "codec_ok dec enc" and "box_ok (fs_box f)" and "distinct (map fst m)"
    and "store_map enc we (Some m) f = (None, f')"
  shows "\<exists>m'. load_map dec what f' = Inr (Some m') \<and> map_of m' = map_of m"
proof -
  let ?j = "encode_map enc (Some m)"
  obtain t b where t: "t = indent_json ?j \<or> t = show_json ?j"
    and b: "seal_with (fs_box f) (we_entropy we) t = Inr b" "f' = f\<lparr>fs_file := Content b\<rparr>"
    using assms(4) by (auto simp: store_map_def Let_def split: option.splits sum.splits if_splits)
  have "scan_json t = Json ?j"
    using t scan_show_json scan_indent_json plain_encode_map[OF assms(1)] by blast
  then show ?thesis
    using decode_encode_map[OF assms(1,3)] open_seal_with[OF assms(2) b(1)] b(2) by (simp add: load_map_def)
qed

lemma save_in_map_success:
  assumes "save_in_map dec enc what we k v f = (None, f')"
  obtains m where "load_map dec what f = Inr (Some m)" and "store_map enc we (Some (AList.update k v m)) f = (None, f')"
  using assms by (auto simp: save_in_map_def split: sum.splits option.splits)

lemma save_in_map_failure: "save_in_map dec enc what we k v f = (Some e, f') \<Longrightarrow> f' = f"
  by (auto simp: save_in_map_def split: sum.splits option.splits dest: store_map_failure)

lemma look_saved_in_map:
  assumes "codec_ok dec enc" and "box_ok (fs_box f)" and "save_in_map dec enc what we k v f = (None, f')"
  shows "look_in_map dec what missing l f' = (if l = k then Inr v else look_in_map dec what missing l f)"
proof -
  obtain m where m: "load_map dec what f = Inr (Some m)"
    and st: "store_map enc we (Some (AList.update k v m)) f = (None, f')"
    using save_in_map_success[OF assms(3)] .
  from load_stored_map[OF assms(1,2) distinct_update[OF load_map_distinct[OF m]] st]
  obtain m' where "load_map dec what f' = Inr (Some m')" "map_of m' = map_of (AList.update k v m)" by blast
  then show ?thesis using m by (simp add: look_in_map_def update_conv')
qed

lemma token_codec: "codec_ok (as_string []) JStr"
  by (simp add: codec_ok_def)

lemma link_keys:
  "equal_fold ''provider'' ''provider''" "\<not> equal_fold ''refresh_token'' ''provider''" "\<not> equal_fold ''icloud_user'' ''provider''"
  "\<not> equal_fold ''icloud_app_password'' ''provider''" "\<not> equal_fold ''icloud_user'' ''refresh_token''"
  "\<not> equal_fold ''icloud_app_password'' ''refresh_token''" "\<not> equal_fold ''icloud_app_password'' ''icloud_user''"
  by code_simp+

lemma as_link_json: "as_link (link_json l) = Some l"
  by (cases l) (simp add: link_json_def omit_empty_def link_field_def link_keys zero_link_def)

lemma link_codec: "codec_ok as_link link_json"
  using as_link_json by (auto simp: codec_ok_def link_json_def omit_empty_def)

definition file_usable :: "file_store \<Rightarrow> bool" where
  "file_usable f \<longleftrightarrow> box_ok (fs_box f)"

definition db_usable :: "db \<Rightarrow> bool" where
  "db_usable d \<longleftrightarrow> box_ok (db_box d)"

lemma save_in_map_box: "save_in_map dec enc what we k v f = (r, f') \<Longrightarrow> fs_box f' = fs_box f"
  by (auto simp: save_in_map_def split: sum.splits option.splits dest: store_map_box)

interpretation token_file: value_store token_file_save token_file_get file_usable
proof
  show "token_file_save e k v s = (Some x, s') \<Longrightarrow> s' = s" for e k v s x s'
    using save_in_map_failure by (auto simp: token_file_save_def)
  show "file_usable s \<Longrightarrow> token_file_save e k v s = (None, s') \<Longrightarrow> file_usable s'" for e k v s s'
    using save_in_map_box by (fastforce simp: token_file_save_def file_usable_def)
  show "file_usable s \<Longrightarrow> token_file_save e k v s = (None, s') \<Longrightarrow>
      token_file_get l s' = (if l = k then Inr v else token_file_get l s)" for e k v s s' l
    using look_saved_in_map[OF token_codec] by (simp add: token_file_save_def token_file_get_def file_usable_def)
qed

interpretation link_file: value_store link_file_save link_file_get file_usable
proof
  show "link_file_save e k v s = (Some x, s') \<Longrightarrow> s' = s" for e k v s x s'
    using save_in_map_failure by (auto simp: link_file_save_def)
  show "file_usable s \<Longrightarrow> link_file_save e k v s = (None, s') \<Longrightarrow> file_usable s'" for e k v s s'
    using save_in_map_box by (fastforce simp: link_file_save_def file_usable_def)
  show "file_usable s \<Longrightarrow> link_file_save e k v s = (None, s') \<Longrightarrow>
      link_file_get l s' = (if l = k then Inr v else link_file_get l s)" for e k v s s' l
    using look_saved_in_map[OF link_codec] by (simp add: link_file_save_def link_file_get_def file_usable_def)
qed

interpretation token_bolt: value_store token_bolt_save "token_bolt_get None" db_usable
proof
  show "token_bolt_save e k v s = (Some x, s') \<Longrightarrow> s' = s" for e k v s x s'
    using db_put_failure by (auto simp: token_bolt_save_def)
  show "db_usable s \<Longrightarrow> token_bolt_save e k v s = (None, s') \<Longrightarrow> db_usable s'" for e k v s s'
    using db_put_box by (fastforce simp: token_bolt_save_def db_usable_def)
  show "db_usable s \<Longrightarrow> token_bolt_save e k v s = (None, s') \<Longrightarrow>
      token_bolt_get None l s' = (if l = k then Inr v else token_bolt_get None l s)" for e k v s s' l
    using db_get_put by (simp add: token_bolt_save_def token_bolt_get_def db_usable_def)
qed

lemma plain_link_json: "plain_json (link_json l)"
  using link_codec by (simp add: codec_ok_def)

interpretation link_bolt: value_store link_bolt_save "link_bolt_get None" db_usable
proof
  show "link_bolt_save e k v s = (Some x, s') \<Longrightarrow> s' = s" for e k v s x s'
    using db_put_failure by (auto simp: link_bolt_save_def)
  show "db_usable s \<Longrightarrow> link_bolt_save e k v s = (None, s') \<Longrightarrow> db_usable s'" for e k v s s'
    using db_put_box by (fastforce simp: link_bolt_save_def db_usable_def)
  show "db_usable s \<Longrightarrow> link_bolt_save e k v s = (None, s') \<Longrightarrow>
      link_bolt_get None l s' = (if l = k then Inr v else link_bolt_get None l s)" for e k v s s' l
    using db_get_put scan_show_json[OF plain_link_json] as_link_json
    by (simp add: link_bolt_save_def link_bolt_get_def db_usable_def)
qed

end
