(* ===== verification/Go_Url.thy ===== *)
theory Go_Url
  imports Go_Codec "HOL-Library.Char_ord"
begin

text \<open>
  Query strings of \<open>net/url\<close>: escaping, \<open>Values.Encode\<close> and \<open>ParseQuery\<close>. A pair that does not parse is
  an error of \<open>ParseQuery\<close>, and skipped by \<open>URL.Query\<close>.
\<close>

definition upper_hex :: string where "upper_hex = ''0123456789ABCDEF''"

definition hex_digit_value :: "char \<Rightarrow> nat option" where
  "hex_digit_value c = index_in hex_digits (lower_char c)"

definition unreserved :: "char \<Rightarrow> bool" where
  "unreserved c \<longleftrightarrow> (CHR ''a'' \<le> c \<and> c \<le> CHR ''z'') \<or> (CHR ''A'' \<le> c \<and> c \<le> CHR ''Z'') \<or> is_digit c
     \<or> c = CHR ''-'' \<or> c = CHR ''_'' \<or> c = CHR ''.'' \<or> c = CHR ''~''"

definition escape_char :: "char \<Rightarrow> string" where
  "escape_char c =
     (if unreserved c then [c] else if c = CHR '' '' then ''+''
      else [CHR 0x25, upper_hex ! (byte c div 16), upper_hex ! (byte c mod 16)])"

definition query_escape :: "string \<Rightarrow> string" where
  "query_escape s = concat (map escape_char s)"

fun query_unescape :: "string \<Rightarrow> string option" where
  "query_unescape [] = Some []"
| "query_unescape (c # s) =
     (if c = CHR 0x25 then
        (case s of
           a # b # r \<Rightarrow>
             (case (hex_digit_value a, hex_digit_value b) of
                (Some x, Some y) \<Rightarrow> map_option (Cons (char_of (x * 16 + y))) (query_unescape r)
              | _ \<Rightarrow> None)
         | _ \<Rightarrow> None)
      else map_option (Cons (if c = CHR ''+'' then CHR '' '' else c)) (query_unescape s))"

type_synonym form = "(string \<times> string) list"

text \<open>The keys in order, as \<open>Encode\<close> writes them; the program passes each key once.\<close>

definition encode_form :: "form \<Rightarrow> string" where
  "encode_form kvs = join_with ''&'' (map (\<lambda>(k, v). query_escape k @ ''='' @ query_escape v) kvs)"

definition parse_pair :: "string \<Rightarrow> (string \<times> string) option" where
  "parse_pair p =
     (if CHR '';'' \<in> set p then None
      else case cut_on (CHR ''='') p of (k, v, ok) \<Rightarrow>
        (case (query_unescape k, query_unescape v) of (Some k, Some v) \<Rightarrow> Some (k, v) | _ \<Rightarrow> None))"

definition query_parts :: "string \<Rightarrow> string list" where
  "query_parts s = filter (\<lambda>p. p \<noteq> []) (split_on (CHR ''&'') s)"

definition parse_query :: "string \<Rightarrow> form option" where
  "parse_query s = those (map parse_pair (query_parts s))"

definition url_query :: "string \<Rightarrow> form" where
  "url_query s = List.map_filter parse_pair (query_parts s)"

definition form_get :: "form \<Rightarrow> string \<Rightarrow> string" where
  "form_get f k = (case map_of f k of None \<Rightarrow> [] | Some v \<Rightarrow> v)"

section \<open>Parsing what was encoded\<close>

lemma hex_pair: "x < 16 \<Longrightarrow> hex_digit_value (upper_hex ! x) = Some x"
proof -
  have "list_all (\<lambda>x. hex_digit_value (upper_hex ! x) = Some x) [0..<16]" by code_simp
  then show "x < 16 \<Longrightarrow> hex_digit_value (upper_hex ! x) = Some x" by (simp add: list_all_iff)
qed

lemma unreserved_marks:
  "\<not> unreserved (CHR 0x25)" "\<not> unreserved (CHR ''+'')" "\<not> unreserved (CHR ''&'')" "\<not> unreserved (CHR ''='')"
  "\<not> unreserved (CHR '';'')"
  by code_simp+

lemma unescape_char: "query_unescape (escape_char c @ s) = map_option (Cons c) (query_unescape s)"
proof (cases "unreserved c")
  case True
  then show ?thesis using unreserved_marks by (auto simp: escape_char_def)
next
  case False
  then show ?thesis by (simp add: escape_char_def hex_pair)
qed

lemma unescape_escape [simp]: "query_unescape (query_escape s) = Some s"
  by (induction s) (simp_all add: query_escape_def unescape_char)

lemma upper_hex_safe: "x < 16 \<Longrightarrow> upper_hex ! x \<notin> {CHR ''&'', CHR ''='', CHR '';''}"
proof -
  have "list_all (\<lambda>x. upper_hex ! x \<notin> set [CHR ''&'', CHR ''='', CHR '';'']) [0..<16]" by code_simp
  then show "x < 16 \<Longrightarrow> upper_hex ! x \<notin> {CHR ''&'', CHR ''='', CHR '';''}" by (simp add: list_all_iff)
qed

lemma escape_char_safe: "d \<in> set (escape_char c) \<Longrightarrow> d \<notin> {CHR ''&'', CHR ''='', CHR '';''}"
  using unreserved_marks upper_hex_safe[of "byte c div 16"] upper_hex_safe[of "byte c mod 16"]
  by (auto simp: escape_char_def split: if_splits)

lemma escape_safe: "d \<in> set (query_escape s) \<Longrightarrow> d \<notin> {CHR ''&'', CHR ''='', CHR '';''}"
  using escape_char_safe by (auto simp: query_escape_def)

lemma parse_pair_encoded: "parse_pair (query_escape k @ ''='' @ query_escape v) = Some (k, v)"
proof -
  have "CHR '';'' \<notin> set (query_escape k @ ''='' @ query_escape v)" using escape_safe by fastforce
  moreover have "cut_on (CHR ''='') (query_escape k @ CHR ''='' # query_escape v) = (query_escape k, query_escape v, True)"
    using escape_safe by (intro cut_on_append) blast
  ultimately show ?thesis by (simp add: parse_pair_def)
qed

lemma parse_encoded_form: "parse_query (encode_form kvs) = Some kvs"
proof -
  let ?p = "\<lambda>(k, v). query_escape k @ ''='' @ query_escape v"
  have plain: "\<forall>p \<in> set (map ?p kvs). CHR ''&'' \<notin> set p" using escape_safe by fastforce
  have parts: "query_parts (encode_form kvs) = map ?p kvs"
  proof (cases "kvs = []")
    case False
    then have "split_on (CHR ''&'') (join_with ''&'' (map ?p kvs)) = map ?p kvs"
      using split_on_join plain by simp
    then show ?thesis by (auto simp: query_parts_def encode_form_def filter_id_conv)
  qed (simp add: query_parts_def encode_form_def)
  have "those (map parse_pair (map ?p kvs)) = Some kvs"
    by (induction kvs) (auto simp: parse_pair_encoded[simplified])
  then show ?thesis by (simp only: parse_query_def parts)
qed

end
