(* ===== verification/Metrics.thy ===== *)
theory Metrics
  imports Go_Strings "HOL-Library.Word" "HOL-Library.Char_ord" "HOL-Library.List_Lexorder"
begin

text \<open>
  Counters, gauges and their exposition: \<open>internal/metrics/metrics.go\<close>. A value is an \<open>int64\<close>, so it
  wraps. Metrics are kept by name in the order they were registered; the text sorts them.
\<close>

record metric =
  mt_help :: string
  mt_value :: "64 word"

type_synonym metric_map = "(string \<times> metric) list"

record registry =
  rg_counters :: metric_map
  rg_gauges :: metric_map

definition new_registry :: registry where
  "new_registry = \<lparr>rg_counters = [], rg_gauges = []\<rparr>"

definition register :: "string \<Rightarrow> string \<Rightarrow> metric_map \<Rightarrow> metric_map" where
  "register name help ms =
     (if map_of ms name \<noteq> None then ms else AList.update name \<lparr>mt_help = help, mt_value = 0\<rparr> ms)"

definition counter :: "string \<Rightarrow> string \<Rightarrow> registry \<Rightarrow> registry" where
  "counter name help r = r\<lparr>rg_counters := register name help (rg_counters r)\<rparr>"

definition gauge :: "string \<Rightarrow> string \<Rightarrow> registry \<Rightarrow> registry" where
  "gauge name help r = r\<lparr>rg_gauges := register name help (rg_gauges r)\<rparr>"

definition change :: "string \<Rightarrow> (64 word \<Rightarrow> 64 word) \<Rightarrow> metric_map \<Rightarrow> metric_map" where
  "change name f ms = AList.map_entry name (\<lambda>m. m\<lparr>mt_value := f (mt_value m)\<rparr>) ms"

definition counter_inc :: "string \<Rightarrow> registry \<Rightarrow> registry" where
  "counter_inc name r = r\<lparr>rg_counters := change name (\<lambda>v. v + 1) (rg_counters r)\<rparr>"

definition counter_add :: "string \<Rightarrow> 64 word \<Rightarrow> registry \<Rightarrow> registry" where
  "counter_add name n r = (if 0 < sint n then r\<lparr>rg_counters := change name (\<lambda>v. v + n) (rg_counters r)\<rparr> else r)"

definition gauge_set :: "string \<Rightarrow> 64 word \<Rightarrow> registry \<Rightarrow> registry" where
  "gauge_set name n r = r\<lparr>rg_gauges := change name (\<lambda>_. n) (rg_gauges r)\<rparr>"

definition gauge_inc :: "string \<Rightarrow> registry \<Rightarrow> registry" where
  "gauge_inc name r = r\<lparr>rg_gauges := change name (\<lambda>v. v + 1) (rg_gauges r)\<rparr>"

definition gauge_dec :: "string \<Rightarrow> registry \<Rightarrow> registry" where
  "gauge_dec name r = r\<lparr>rg_gauges := change name (\<lambda>v. v - 1) (rg_gauges r)\<rparr>"

definition value_of :: "string \<Rightarrow> metric_map \<Rightarrow> int" where
  "value_of name ms = (case map_of ms name of None \<Rightarrow> 0 | Some m \<Rightarrow> sint (mt_value m))"

definition write_metric :: "string \<Rightarrow> string \<times> metric \<Rightarrow> string" where
  "write_metric typ nm = (case nm of (name, m) \<Rightarrow>
     (if mt_help m \<noteq> [] then ''# HELP '' @ name @ '' '' @ mt_help m @ [CHR 0x0A] else [])
     @ ''# TYPE '' @ name @ '' '' @ typ @ [CHR 0x0A]
     @ name @ '' '' @ show_int (sint (mt_value m)) @ [CHR 0x0A])"

definition write_text :: "registry \<Rightarrow> string" where
  "write_text r = concat (map (write_metric ''counter'') (sort_key fst (rg_counters r)))
     @ concat (map (write_metric ''gauge'') (sort_key fst (rg_gauges r)))"

lemma map_of_change:
  "map_of (change name f ms) k = (if k = name then map_option (\<lambda>m. m\<lparr>mt_value := f (mt_value m)\<rparr>) (map_of ms k) else map_of ms k)"
  by (simp add: change_def map_of_map_entry split: option.split)

lemma map_of_register:
  "map_of (register name help ms) k =
     (if k = name \<and> map_of ms name = None then Some \<lparr>mt_help = help, mt_value = 0\<rparr> else map_of ms k)"
  by (auto simp: register_def update_conv')

end
