(* ===== verification/Slack_Server.thy ===== *)
theory Slack_Server
  imports Slack_Text Slack_Stores Go_Url Metrics
begin

text \<open>
  The Slack server of \<open>internal/slack/slack.go\<close>: request signatures, signed approval values, running a
  command for a user and acting on a button. The record \<open>slack_env\<close> is everything outside: clock,
  random source, the subprocess that runs a subcommand, the Slack API and the providers' sign-in,
  each answering by the number of calls before it. HMAC-SHA256 is the field \<open>se_mac\<close> of key and
  message. What the server does is the trace of the state: subprocesses started and messages posted.
\<close>

section \<open>State\<close>

record slack_env =
  se_mac :: "string \<Rightarrow> string \<Rightarrow> string"
  se_now :: "nat \<Rightarrow> gotime"
  se_entropy :: "nat \<Rightarrow> entropy"
  se_run :: "nat \<Rightarrow> string list \<Rightarrow> string list \<Rightarrow> string \<times> error option"
  se_lookup_email :: "nat \<Rightarrow> string \<Rightarrow> string \<Rightarrow> string result"
  se_exchange_install :: "nat \<Rightarrow> string \<Rightarrow> string \<Rightarrow> (string \<times> string) result"
  se_auth_url :: "string \<Rightarrow> string \<Rightarrow> string \<Rightarrow> string"
  se_exchange_link :: "nat \<Rightarrow> string \<Rightarrow> string \<Rightarrow> string \<Rightarrow> user_link result"
  se_run_env :: "nat \<Rightarrow> string \<Rightarrow> user_link \<Rightarrow> string list result"
  se_open_view :: "nat \<Rightarrow> string \<Rightarrow> string \<Rightarrow> string \<Rightarrow> error option"
  se_write :: "nat \<Rightarrow> write_env"
  se_read :: "nat \<Rightarrow> error option"

text \<open>The options the server was built with; \<open>sc_linkers\<close> are the provider names.\<close>

record slack_config =
  sc_secret :: string
  sc_client_id :: string
  sc_public_url :: string
  sc_installs :: bool
  sc_per_user :: bool
  sc_linkers :: "string list"
  sc_extra_env :: "(string \<Rightarrow> string \<Rightarrow> string list) option"

datatype message =
    Ephemeral string
  | In_Channel string
  | Approval_Buttons string string
  | Replace_Original string

datatype slack_effect = Ran "string list" "string list" | Sent string message

datatype backing = Files file_store file_store | Database db

record server =
  sv_tick :: nat
  sv_trace :: "slack_effect list"
  sv_states :: state_store
  sv_link_states :: link_states
  sv_backing :: backing
  sv_registry :: registry

definition sv_step :: "server \<Rightarrow> server" where
  "sv_step s = s\<lparr>sv_tick := Suc (sv_tick s)\<rparr>"

definition sv_emit :: "slack_effect \<Rightarrow> server \<Rightarrow> server" where
  "sv_emit x s = s\<lparr>sv_trace := sv_trace s @ [x]\<rparr>"

definition inc :: "string \<Rightarrow> server \<Rightarrow> server" where
  "inc name s = s\<lparr>sv_registry := counter_inc name (sv_registry s)\<rparr>"

text \<open>The counters of \<open>newServerMetrics\<close>, by the names they are registered under.\<close>

definition mx_commands :: string where "mx_commands = ''vamoose_slack_commands_total''"
definition mx_actions :: string where "mx_actions = ''vamoose_slack_actions_total''"
definition mx_rejected :: string where "mx_rejected = ''vamoose_slack_actions_rejected_total''"
definition mx_errors :: string where "mx_errors = ''vamoose_slack_command_errors_total''"
definition mx_installs :: string where "mx_installs = ''vamoose_slack_installs_total''"

definition new_metrics :: registry where
  "new_metrics = fold (\<lambda>(name, help). counter name help)
     [(mx_commands, ''Slash commands dispatched.''),
      (mx_actions, ''Approval button clicks that ran.''),
      (mx_rejected, ''Approval clicks refused as forged or unauthorized.''),
      (mx_errors, ''Slash commands whose run failed.''),
      (mx_installs, ''Completed workspace installs.'')] new_registry"

section \<open>The stores behind their interfaces\<close>

definition tx_of :: "write_env \<Rightarrow> tx_env" where
  "tx_of we = \<lparr>tx_entropy = we_entropy we, tx_error = we_write we\<rparr>"

fun get_token :: "error option \<Rightarrow> string \<Rightarrow> backing \<Rightarrow> string result" where
  "get_token re team (Files tf lf) = token_file_get team tf"
| "get_token re team (Database d) = token_bolt_get re team d"

fun save_token :: "write_env \<Rightarrow> string \<Rightarrow> string \<Rightarrow> backing \<Rightarrow> error option \<times> backing" where
  "save_token we team tok (Files tf lf) = apsnd (\<lambda>tf. Files tf lf) (token_file_save we team tok tf)"
| "save_token we team tok (Database d) = apsnd Database (token_bolt_save (tx_of we) team tok d)"

fun get_link :: "error option \<Rightarrow> string \<Rightarrow> string \<Rightarrow> backing \<Rightarrow> user_link result" where
  "get_link re team user (Files tf lf) = link_file_get (link_key team user) lf"
| "get_link re team user (Database d) = link_bolt_get re (link_key team user) d"

fun save_link :: "write_env \<Rightarrow> string \<Rightarrow> string \<Rightarrow> user_link \<Rightarrow> backing \<Rightarrow> error option \<times> backing" where
  "save_link we team user l (Files tf lf) = apsnd (Files tf) (link_file_save we (link_key team user) l lf)"
| "save_link we team user l (Database d) = apsnd Database (link_bolt_save (tx_of we) (link_key team user) l d)"

fun delete_link :: "write_env \<Rightarrow> string \<Rightarrow> string \<Rightarrow> backing \<Rightarrow> error option \<times> backing" where
  "delete_link we team user (Files tf lf) = apsnd (Files tf) (link_file_delete we (link_key team user) lf)"
| "delete_link we team user (Database d) = apsnd Database (link_bolt_delete (we_write we) (link_key team user) d)"

fun list_links :: "error option \<Rightarrow> backing \<Rightarrow> (string \<times> string) list result" where
  "list_links re (Files tf lf) = link_file_list lf"
| "list_links re (Database d) = link_bolt_list re d"

section \<open>Signatures\<close>

record request =
  rq_method :: string
  rq_path :: string
  rq_query :: string
  rq_timestamp :: string
  rq_signature :: string
  rq_body :: string

abbreviation max_skew :: duration where "max_skew \<equiv> 5 * minute"
definition max_body :: int where "max_body = 1048576"

text \<open>\<open>io.LimitReader\<close>: a longer body is cut, not refused.\<close>

definition limit_body :: "string \<Rightarrow> string" where
  "limit_body b = (if int (length b) \<le> max_body then b else take (nat max_body) b)"

definition unix_time :: "int \<Rightarrow> gotime" where
  "unix_time secs = \<lparr>t_ns = secs * second, t_loc = UTC\<rparr>"

definition signed_text :: "string \<Rightarrow> string \<Rightarrow> string" where
  "signed_text ts body = ''v0:'' @ ts @ '':'' @ body"

definition request_signature :: "(string \<Rightarrow> string \<Rightarrow> string) \<Rightarrow> string \<Rightarrow> string \<Rightarrow> string \<Rightarrow> string" where
  "request_signature mac secret ts body = ''v0='' @ hex_encode (mac secret (signed_text ts body))"

definition verify :: "(string \<Rightarrow> string \<Rightarrow> string) \<Rightarrow> string \<Rightarrow> gotime \<Rightarrow> request \<Rightarrow> string result" where
  "verify mac secret t r =
     (let body = limit_body (rq_body r) in
      case parse_int64 (rq_timestamp r) of
        None \<Rightarrow> Inl (Errorf ''invalid timestamp'' [])
      | Some secs \<Rightarrow>
          (let drift = time_sub t (unix_time secs) in
           if drift < - max_skew \<or> max_skew < drift then Inl (Errorf ''stale timestamp'' [])
           else if request_signature mac secret (rq_timestamp r) body \<noteq> rq_signature r
           then Inl (Errorf ''invalid signature'' [])
           else Inr body))"

section \<open>Approval values\<close>

record approval =
  ap_hold :: string
  ap_team :: string
  ap_user :: string
  ap_approver :: string

definition zero_approval :: approval where
  "zero_approval = \<lparr>ap_hold = [], ap_team = [], ap_user = [], ap_approver = []\<rparr>"

definition approval_json :: "approval \<Rightarrow> json" where
  "approval_json p = JObj ([(''h'', JStr (ap_hold p))]
     @ omit_empty ''t'' (ap_team p) @ omit_empty ''u'' (ap_user p) @ omit_empty ''a'' (ap_approver p))"

definition approval_field :: "approval \<Rightarrow> string \<Rightarrow> json \<Rightarrow> approval option" where
  "approval_field p k v =
     (if equal_fold k ''h'' then map_option (\<lambda>x. p\<lparr>ap_hold := x\<rparr>) (as_string (ap_hold p) v)
      else if equal_fold k ''t'' then map_option (\<lambda>x. p\<lparr>ap_team := x\<rparr>) (as_string (ap_team p) v)
      else if equal_fold k ''u'' then map_option (\<lambda>x. p\<lparr>ap_user := x\<rparr>) (as_string (ap_user p) v)
      else if equal_fold k ''a'' then map_option (\<lambda>x. p\<lparr>ap_approver := x\<rparr>) (as_string (ap_approver p) v)
      else Some p)"

fun as_approval :: "json \<Rightarrow> approval option" where
  "as_approval (JObj kvs) = fold_fields approval_field zero_approval kvs"
| "as_approval JNull = Some zero_approval"
| "as_approval _ = None"

definition sign_value :: "(string \<Rightarrow> string \<Rightarrow> string) \<Rightarrow> string \<Rightarrow> string \<Rightarrow> string" where
  "sign_value mac secret enc = raw_url_encode (mac secret enc)"

definition approval_value :: "(string \<Rightarrow> string \<Rightarrow> string) \<Rightarrow> string \<Rightarrow> approval \<Rightarrow> string" where
  "approval_value mac secret p =
     (let enc = raw_url_encode (show_json (approval_json p)) in enc @ ''.'' @ sign_value mac secret enc)"

definition decode_approval :: "(string \<Rightarrow> string \<Rightarrow> string) \<Rightarrow> string \<Rightarrow> string \<Rightarrow> approval option" where
  "decode_approval mac secret val =
     (case cut_on (CHR ''.'') val of (enc, sig, found) \<Rightarrow>
        if \<not> found then None
        else if sig \<noteq> sign_value mac secret enc then None
        else case raw_url_decode enc of
          None \<Rightarrow> None
        | Some t \<Rightarrow>
            (case scan_json t of
               Json j \<Rightarrow>
                 (case as_approval j of None \<Rightarrow> None | Some p \<Rightarrow> if ap_hold p = [] then None else Some p)
             | _ \<Rightarrow> None))"

lemma approval_keys:
  "\<not> equal_fold ''t'' ''h''" "\<not> equal_fold ''u'' ''h''" "\<not> equal_fold ''a'' ''h''" "\<not> equal_fold ''u'' ''t''"
  "\<not> equal_fold ''a'' ''t''" "\<not> equal_fold ''a'' ''u''"
  by code_simp+

lemma as_approval_json: "as_approval (approval_json p) = Some p"
  by (cases p) (simp add: approval_json_def omit_empty_def approval_field_def approval_keys zero_approval_def)

lemma plain_approval: "plain_json (approval_json p)"
  by (auto simp: approval_json_def omit_empty_def)

lemma decode_approval_value:
  "ap_hold p \<noteq> [] \<Longrightarrow> decode_approval mac secret (approval_value mac secret p) = Some p"
proof -
  let ?enc = "raw_url_encode (show_json (approval_json p))"
  assume h: "ap_hold p \<noteq> []"
  have "CHR ''.'' \<notin> set ?enc" using raw_url_encode_chars url_alphabet_facts(5) by blast
  then have "cut_on (CHR ''.'') (?enc @ CHR ''.'' # sign_value mac secret ?enc) = (?enc, sign_value mac secret ?enc, True)"
    by simp
  then show ?thesis
    using h by (simp add: decode_approval_def approval_value_def Let_def raw_url_roundtrip
      scan_show_json[OF plain_approval] as_approval_json)
qed

text \<open>A value decodes only with the signature of what precedes its first dot.\<close>

lemma decode_approval_signed:
  "decode_approval mac secret val = Some p \<Longrightarrow>
     \<exists>enc. val = enc @ ''.'' @ sign_value mac secret enc \<and> ap_hold p \<noteq> []"
  by (auto simp: decode_approval_def split: prod.splits if_splits option.splits json_text.splits dest!: cut_on_found)

section \<open>Running commands\<close>

text \<open>\<open>Error()\<close> of an error that wraps others after a colon.\<close>

fun error_text :: "error \<Rightarrow> string" where
  "error_text (Sentinel m) = m"
| "error_text (Errorf m es) = m @ concat (map (\<lambda>e. '': '' @ error_text e) es)"

definition post :: "string \<Rightarrow> message \<Rightarrow> server \<Rightarrow> server" where
  "post url m s = (if url = [] then s else sv_emit (Sent url m) s)"

definition run_sub :: "slack_env \<Rightarrow> string list \<Rightarrow> string list \<Rightarrow> server \<Rightarrow> (string \<times> error option) \<times> server" where
  "run_sub env args vars s = (se_run env (sv_tick s) args vars, sv_emit (Ran args vars) (sv_step s))"

definition resolve_approver_id :: "slack_env \<Rightarrow> slack_config \<Rightarrow> string \<Rightarrow> string \<Rightarrow> server \<Rightarrow> string \<times> server" where
  "resolve_approver_id env cf team out s =
     (if team = [] \<or> \<not> sc_installs cf then ([], s)
      else case approver_email out of
        None \<Rightarrow> ([], s)
      | Some email \<Rightarrow>
          (case get_token (se_read env (sv_tick s)) team (sv_backing s) of
             Inl e \<Rightarrow> ([], sv_step s)
           | Inr tok \<Rightarrow>
               (case se_lookup_email env (Suc (sv_tick s)) tok email of
                  Inl e \<Rightarrow> ([], sv_step (sv_step s))
                | Inr uid \<Rightarrow> (uid, sv_step (sv_step s)))))"

definition withheld_text :: string where
  "withheld_text = '' The approver can accept the calendar invite to approve.''"

definition run_command ::
  "slack_env \<Rightarrow> slack_config \<Rightarrow> string \<Rightarrow> string list \<Rightarrow> string list \<Rightarrow> string \<Rightarrow> string \<Rightarrow> server \<Rightarrow> server" where
  "run_command env cf url args vars team user s =
     (case run_sub env args vars s of
        ((out, Some e), s) \<Rightarrow> post url (Ephemeral (''Command failed: '' @ error_text e)) (inc mx_errors s)
      | ((out, None), s) \<Rightarrow>
          (let hid = hold_id_in out in
           if hid \<noteq> [] \<and> asks_approval out then
             (let (approver, s) = resolve_approver_id env cf team out s in
              if approver = [] then post url (In_Channel (first_line out @ withheld_text)) s
              else post url (Approval_Buttons (first_line out)
                (approval_value (se_mac env) (sc_secret cf)
                  \<lparr>ap_hold = hid, ap_team = team, ap_user = user, ap_approver = approver\<rparr>)) s)
           else post url (Ephemeral (code_block out)) s))"

definition user_env :: "slack_env \<Rightarrow> slack_config \<Rightarrow> string \<Rightarrow> string \<Rightarrow> server \<Rightarrow> string list result \<times> server" where
  "user_env env cf team user s =
     (case get_link (se_read env (sv_tick s)) team user (sv_backing s) of
        Inl e \<Rightarrow> (Inl e, sv_step s)
      | Inr l \<Rightarrow>
          (if ul_provider l \<notin> set (sc_linkers cf)
           then (Inl (Errorf (''no linker configured for '' @ ul_provider l) []), sv_step s)
           else (se_run_env env (Suc (sv_tick s)) (ul_provider l) l, sv_step (sv_step s))))"

definition extra_env :: "slack_config \<Rightarrow> string \<Rightarrow> string \<Rightarrow> string list" where
  "extra_env cf team user = (case sc_extra_env cf of None \<Rightarrow> [] | Some f \<Rightarrow> f team user)"

text \<open>\<open>aProvider\<close>: google when it is linked, otherwise some linker; Go's map order is left to the list.\<close>

definition a_provider :: "slack_config \<Rightarrow> string" where
  "a_provider cf = (if ''google'' \<in> set (sc_linkers cf) then ''google''
     else case sc_linkers cf of [] \<Rightarrow> ''google'' | p # ps \<Rightarrow> p)"

definition run_as_user :: "slack_env \<Rightarrow> slack_config \<Rightarrow> string \<Rightarrow> string \<Rightarrow> string \<Rightarrow> string list \<Rightarrow> server \<Rightarrow> server" where
  "run_as_user env cf url team user args s =
     (case user_env env cf team user s of
        (Inl e, s) \<Rightarrow>
          (if errors_is e ErrNotLinked then post url (Ephemeral (''Link a calendar first: `/vamoose link '' @ a_provider cf @ ''`'')) s
           else post url (Ephemeral (''Could not authorize your calendar: '' @ error_text e)) s)
      | (Inr vars, s) \<Rightarrow> run_command env cf url args (vars @ extra_env cf team user) team user s)"

definition action_args :: "string \<Rightarrow> string \<Rightarrow> (string list \<times> string \<times> string) option" where
  "action_args action hid =
     (if action = ''vamoose_approve'' then Some ([''promote'', ''--id'', hid], ''Approved'', ''approve'')
      else if action = ''vamoose_decline'' then Some ([''cancel'', ''--id'', hid], ''Declined'', ''decline'')
      else None)"

definition run_action :: "slack_env \<Rightarrow> slack_config \<Rightarrow> string \<Rightarrow> string \<Rightarrow> string \<Rightarrow> string \<Rightarrow> server \<Rightarrow> server" where
  "run_action env cf url clicker action val s =
     (case decode_approval (se_mac env) (sc_secret cf) val of
        None \<Rightarrow> post url (Ephemeral ''This approval action is invalid or has expired.'') (inc mx_rejected s)
      | Some p \<Rightarrow>
          (if ap_approver p \<noteq> [] \<and> clicker \<noteq> ap_approver p
           then post url (Ephemeral (''Only <@'' @ ap_approver p @ ''> can act on this request.'')) (inc mx_rejected s)
           else let s = inc mx_actions s in
             case action_args action (ap_hold p) of
               None \<Rightarrow> s
             | Some (args, done_text, verb) \<Rightarrow>
                 (let (vars, s) =
                    (if ap_user p \<noteq> [] \<and> sc_per_user cf
                     then (case user_env env cf (ap_team p) (ap_user p) s of
                             (Inl e, s) \<Rightarrow> ([], s)
                           | (Inr vars, s) \<Rightarrow> (vars, s))
                     else ([], s))
                  in case run_sub env args vars s of
                       ((out, Some e), s) \<Rightarrow> post url (Replace_Original (''Could not '' @ verb @ '': the server logged the details.'')) s
                     | ((out, None), s) \<Rightarrow> post url (Replace_Original (done_text @ ''.'')) s)))"

text \<open>\<open>PollUsers\<close>: the daemon once for every linked user, with the user's credentials and files.\<close>

fun poll_each :: "slack_env \<Rightarrow> slack_config \<Rightarrow> (string \<times> string) list \<Rightarrow> server \<Rightarrow> server" where
  "poll_each env cf [] s = s"
| "poll_each env cf ((team, user) # ids) s =
     (case user_env env cf team user s of
        (Inl e, s) \<Rightarrow> poll_each env cf ids s
      | (Inr vars, s) \<Rightarrow>
          poll_each env cf ids (snd (run_sub env [''daemon'', ''--once''] (vars @ extra_env cf team user) s)))"

definition poll_users :: "slack_env \<Rightarrow> slack_config \<Rightarrow> server \<Rightarrow> server" where
  "poll_users env cf s =
     (if \<not> sc_per_user cf then s
      else case list_links (se_read env (sv_tick s)) (sv_backing s) of
        Inl e \<Rightarrow> sv_step s
      | Inr ids \<Rightarrow> poll_each env cf ids (sv_step s))"

end
