(* ===== verification/Slack_Flows.thy ===== *)
theory Slack_Flows
  imports Slack_Server
begin

text \<open>
  The HTTP handlers of the Slack server: slash commands, linking and unlinking, interactivity with
  the credential modal (\<open>internal/slack/slack.go\<close>) and the install flow (\<open>internal/slack/oauth.go\<close>),
  behind the routes of \<open>Handler\<close>. A handler that starts a goroutine is modelled as answering and then
  running it to the end.
\<close>

datatype response =
    Http_Error nat string
  | Reply message
  | Modal_Errors string string
  | Status nat
  | Page string
  | Redirect string

section \<open>Linking\<close>

definition provider_names :: "slack_config \<Rightarrow> string list" where
  "provider_names cf = sort (sc_linkers cf)"

definition link_redirect :: "slack_config \<Rightarrow> string" where
  "link_redirect cf = trim_slashes (sc_public_url cf) @ ''/slack/link/callback''"

definition open_credential_modal ::
  "slack_env \<Rightarrow> slack_config \<Rightarrow> string \<Rightarrow> string \<Rightarrow> string \<Rightarrow> server \<Rightarrow> error option \<times> server" where
  "open_credential_modal env cf team trigger provider s =
     (if \<not> sc_installs cf then (Some (Errorf ''credential linking needs the app installed to this workspace'' []), s)
      else if trigger = [] then (Some (Errorf ''missing trigger id'' []), s)
      else case get_token (se_read env (sv_tick s)) team (sv_backing s) of
        Inl e \<Rightarrow> (Some (Errorf ''workspace not installed'' [e]), sv_step s)
      | Inr tok \<Rightarrow> (se_open_view env (Suc (sv_tick s)) tok trigger provider, sv_step (sv_step s)))"

text \<open>\<open>issue\<close> of the link store reads the clock twice and the random source once.\<close>

definition issue_link_state ::
  "slack_env \<Rightarrow> string \<Rightarrow> string \<Rightarrow> string \<Rightarrow> server \<Rightarrow> string \<times> server" where
  "issue_link_state env team user provider s =
     (let n = sv_tick s;
          (tok, ls) = link_issue (se_entropy env n) (se_now env (n + 1)) (se_now env (n + 2)) team user provider (sv_link_states s)
      in (tok, s\<lparr>sv_tick := n + 3, sv_link_states := ls\<rparr>))"

definition handle_link :: "slack_env \<Rightarrow> slack_config \<Rightarrow> form \<Rightarrow> string list \<Rightarrow> server \<Rightarrow> response \<times> server" where
  "handle_link env cf f args s =
     (case args of
        link # provider # rest \<Rightarrow>
          (if provider \<notin> set (sc_linkers cf)
           then (Reply (Ephemeral (''Unknown provider '' @ provider @ ''. Options: '' @ join_with '', '' (provider_names cf))), s)
           else let (state, s) = issue_link_state env (form_get f ''team_id'') (form_get f ''user_id'') provider s;
                    url = se_auth_url env provider state (link_redirect cf)
             in if url \<noteq> [] then (Reply (Ephemeral (''Link your '' @ provider @ '' calendar: '' @ url)), s)
                else case open_credential_modal env cf (form_get f ''team_id'') (form_get f ''trigger_id'') provider s of
                  (Some e, s) \<Rightarrow>
                    (Reply (Ephemeral (''Could not open the '' @ provider @ '' link form: '' @ error_text e)), s)
                | (None, s) \<Rightarrow> (Status 200, s))
      | _ \<Rightarrow> (Reply (Ephemeral (''Usage: /vamoose link <'' @ join_with ''|'' (provider_names cf) @ ''>'')), s))"

definition handle_unlink :: "slack_env \<Rightarrow> form \<Rightarrow> server \<Rightarrow> response \<times> server" where
  "handle_unlink env f s =
     (case delete_link (se_write env (sv_tick s)) (form_get f ''team_id'') (form_get f ''user_id'') (sv_backing s) of
        (Some e, b) \<Rightarrow> (Reply (Ephemeral (''Could not unlink: '' @ error_text e)), sv_step s)
      | (None, b) \<Rightarrow> (Reply (Ephemeral ''Unlinked your calendar.''), sv_step (s\<lparr>sv_backing := b\<rparr>)))"

definition store_link :: "slack_env \<Rightarrow> string \<Rightarrow> string \<Rightarrow> user_link \<Rightarrow> server \<Rightarrow> error option \<times> server" where
  "store_link env team user l s =
     (case save_link (se_write env (sv_tick s)) team user l (sv_backing s) of
        (r, b) \<Rightarrow> (r, sv_step (s\<lparr>sv_backing := b\<rparr>)))"

definition handle_link_callback :: "slack_env \<Rightarrow> slack_config \<Rightarrow> form \<Rightarrow> server \<Rightarrow> response \<times> server" where
  "handle_link_callback env cf q s =
     (case link_consume (se_now env (sv_tick s)) (form_get q ''state'') (sv_link_states s) of
        (st, ls) \<Rightarrow>
          (let s = sv_step (s\<lparr>sv_link_states := ls\<rparr>); code = form_get q ''code'' in
           case st of
             None \<Rightarrow> (Http_Error 400 ''invalid or expired link request'', s)
           | Some st \<Rightarrow>
               (if code = [] then (Http_Error 400 ''missing code'', s)
                else if ls_provider st \<notin> set (sc_linkers cf) then (Http_Error 400 ''unknown provider'', s)
                else case se_exchange_link env (sv_tick s) (ls_provider st) code (link_redirect cf) of
                  Inl e \<Rightarrow> (Http_Error 502 ''link exchange failed'', sv_step s)
                | Inr l \<Rightarrow>
                    (case store_link env (ls_team st) (ls_user st) l (sv_step s) of
                       (Some e, s) \<Rightarrow> (Http_Error 500 ''could not save link'', s)
                     | (None, s) \<Rightarrow>
                         (Page (''Your '' @ ls_provider st @ '' calendar is linked. You can close this tab.''), s)))))"

section \<open>Slash commands\<close>

definition unauthorized :: response where "unauthorized = Http_Error 401 ''unauthorized''"

definition handle_command :: "slack_env \<Rightarrow> slack_config \<Rightarrow> request \<Rightarrow> server \<Rightarrow> response \<times> server" where
  "handle_command env cf r s =
     (case verify (se_mac env) (sc_secret cf) (se_now env (sv_tick s)) r of
        Inl e \<Rightarrow> (unauthorized, sv_step s)
      | Inr body \<Rightarrow>
          (let s = sv_step s in
           case parse_query body of
             None \<Rightarrow> (Http_Error 400 ''bad request'', s)
           | Some f \<Rightarrow>
               (let cmd = form_get f ''text''; team = form_get f ''team_id''; user = form_get f ''user_id'';
                    url = form_get f ''response_url'';
                    running = Reply (Ephemeral (''Running `vamoose '' @ cmd @ ''` ...'')) in
                case tokenize cmd of
                  Inl e \<Rightarrow> (Reply (Ephemeral (''Could not parse the command: '' @ error_text e)), s)
                | Inr [] \<Rightarrow> (Reply (Ephemeral ''Usage: /vamoose <command>, for example /vamoose off next week''), s)
                | Inr (sub # rest) \<Rightarrow>
                    (if sc_per_user cf \<and> sub = ''link'' then handle_link env cf f (sub # rest) s
                     else if sc_per_user cf \<and> sub = ''unlink'' then handle_unlink env f s
                     else if \<not> allowed_subcommand sub
                     then (Reply (Ephemeral (''The `'' @ sub @ ''` command is not available from Slack.'')), s)
                     else if sc_per_user cf then (running, run_as_user env cf url team user (sub # rest) (inc mx_commands s))
                     else (running, run_command env cf url (sub # rest) [] team [] (inc mx_commands s))))))"

section \<open>Buttons and modals\<close>

text \<open>The payload of an interaction, decoded into the fields the handler reads.\<close>

type_synonym modal_values = "(string \<times> (string \<times> string) list) list"

record interaction =
  in_type :: string
  in_url :: string
  in_actions :: "(string \<times> string) list"
  in_team :: string
  in_user :: string
  in_callback :: string
  in_metadata :: string
  in_values :: modal_values

definition zero_interaction :: interaction where
  "zero_interaction = \<lparr>in_type = [], in_url = [], in_actions = [], in_team = [], in_user = [], in_callback = [],
     in_metadata = [], in_values = []\<rparr>"

text \<open>A struct with string fields: the value of the named field, when the value is an object or null.\<close>

fun string_field :: "string \<Rightarrow> string \<Rightarrow> json \<Rightarrow> string option" where
  "string_field name old (JObj kvs) =
     fold_fields (\<lambda>x k v. if equal_fold k name then as_string x v else Some x) old kvs"
| "string_field name old JNull = Some old"
| "string_field name old _ = None"

fun as_action :: "json \<Rightarrow> (string \<times> string) option" where
  "as_action (JObj kvs) =
     fold_fields (\<lambda>(a, x) k v.
       if equal_fold k ''action_id'' then map_option (\<lambda>a. (a, x)) (as_string a v)
       else if equal_fold k ''value'' then map_option (\<lambda>x. (a, x)) (as_string x v) else Some (a, x)) ([], []) kvs"
| "as_action JNull = Some ([], [])"
| "as_action _ = None"

fun as_actions :: "json \<Rightarrow> (string \<times> string) list option" where
  "as_actions (JArr vs) = those (map as_action vs)"
| "as_actions JNull = Some []"
| "as_actions _ = None"

fun as_block :: "json \<Rightarrow> (string \<times> string) list option" where
  "as_block (JObj kvs) = fold_fields (map_entry (string_field ''value'' [])) [] kvs"
| "as_block JNull = Some []"
| "as_block _ = None"

fun as_values :: "modal_values \<Rightarrow> json \<Rightarrow> modal_values option" where
  "as_values old (JObj kvs) = fold_fields (map_entry as_block) old kvs"
| "as_values old JNull = Some []"
| "as_values old _ = None"

fun as_state :: "modal_values \<Rightarrow> json \<Rightarrow> modal_values option" where
  "as_state old (JObj kvs) =
     fold_fields (\<lambda>x k v. if equal_fold k ''values'' then as_values x v else Some x) old kvs"
| "as_state old JNull = Some old"
| "as_state old _ = None"

definition view_field :: "interaction \<Rightarrow> string \<Rightarrow> json \<Rightarrow> interaction option" where
  "view_field i k v =
     (if equal_fold k ''callback_id'' then map_option (\<lambda>x. i\<lparr>in_callback := x\<rparr>) (as_string (in_callback i) v)
      else if equal_fold k ''private_metadata'' then map_option (\<lambda>x. i\<lparr>in_metadata := x\<rparr>) (as_string (in_metadata i) v)
      else if equal_fold k ''state'' then map_option (\<lambda>x. i\<lparr>in_values := x\<rparr>) (as_state (in_values i) v)
      else Some i)"

fun as_view :: "interaction \<Rightarrow> json \<Rightarrow> interaction option" where
  "as_view i (JObj kvs) = fold_fields view_field i kvs"
| "as_view i JNull = Some i"
| "as_view i _ = None"

definition interaction_field :: "interaction \<Rightarrow> string \<Rightarrow> json \<Rightarrow> interaction option" where
  "interaction_field i k v =
     (if equal_fold k ''type'' then map_option (\<lambda>x. i\<lparr>in_type := x\<rparr>) (as_string (in_type i) v)
      else if equal_fold k ''response_url'' then map_option (\<lambda>x. i\<lparr>in_url := x\<rparr>) (as_string (in_url i) v)
      else if equal_fold k ''actions'' then map_option (\<lambda>x. i\<lparr>in_actions := x\<rparr>) (as_actions v)
      else if equal_fold k ''team'' then map_option (\<lambda>x. i\<lparr>in_team := x\<rparr>) (string_field ''id'' (in_team i) v)
      else if equal_fold k ''user'' then map_option (\<lambda>x. i\<lparr>in_user := x\<rparr>) (string_field ''id'' (in_user i) v)
      else if equal_fold k ''view'' then as_view i v
      else Some i)"

fun as_interaction :: "json \<Rightarrow> interaction option" where
  "as_interaction (JObj kvs) = fold_fields interaction_field zero_interaction kvs"
| "as_interaction JNull = Some zero_interaction"
| "as_interaction _ = None"

definition parse_interaction :: "string \<Rightarrow> interaction option" where
  "parse_interaction t = (case scan_json t of Json j \<Rightarrow> as_interaction j | _ \<Rightarrow> None)"

definition modal_value :: "modal_values \<Rightarrow> string \<Rightarrow> string" where
  "modal_value vs blk =
     (case map_of vs blk of None \<Rightarrow> [] | Some b \<Rightarrow> (case map_of b ''value'' of None \<Rightarrow> [] | Some v \<Rightarrow> v))"

definition credential_modal_callback :: string where
  "credential_modal_callback = ''vamoose_link_credentials''"

definition handle_view_submission :: "slack_env \<Rightarrow> slack_config \<Rightarrow> interaction \<Rightarrow> server \<Rightarrow> response \<times> server" where
  "handle_view_submission env cf i s =
     (if in_callback i \<noteq> credential_modal_callback \<or> \<not> sc_per_user cf then (Status 200, s)
      else let user = modal_value (in_values i) ''username''; pass = modal_value (in_values i) ''password'' in
        if user = [] \<or> pass = [] then (Modal_Errors ''username'' ''Enter your Apple ID and app-specific password.'', s)
        else case store_link env (in_team i) (in_user i)
               \<lparr>ul_provider = in_metadata i, ul_refresh_token = [], ul_icloud_user = user, ul_icloud_password = pass\<rparr> s of
          (Some e, s) \<Rightarrow> (Status 500, s)
        | (None, s) \<Rightarrow> (Status 200, s))"

definition handle_interactivity :: "slack_env \<Rightarrow> slack_config \<Rightarrow> request \<Rightarrow> server \<Rightarrow> response \<times> server" where
  "handle_interactivity env cf r s =
     (case verify (se_mac env) (sc_secret cf) (se_now env (sv_tick s)) r of
        Inl e \<Rightarrow> (unauthorized, sv_step s)
      | Inr body \<Rightarrow>
          (let s = sv_step s in
           case parse_query body of
             None \<Rightarrow> (Http_Error 400 ''bad request'', s)
           | Some f \<Rightarrow>
               (case parse_interaction (form_get f ''payload'') of
                  None \<Rightarrow> (Http_Error 400 ''bad payload'', s)
                | Some i \<Rightarrow>
                    (if in_type i = ''view_submission'' then handle_view_submission env cf i s
                     else case in_actions i of
                       [] \<Rightarrow> (Status 200, s)
                     | (action, val) # rest \<Rightarrow>
                         (Status 200, run_action env cf (in_url i) (in_user i) action val s)))))"

section \<open>Installing\<close>

definition install_scopes :: string where "install_scopes = ''commands,chat:write,users:read.email''"

definition redirect_uri :: "slack_config \<Rightarrow> string" where
  "redirect_uri cf = trim_slashes (sc_public_url cf) @ ''/slack/oauth/callback''"

definition consent_query :: "slack_config \<Rightarrow> string \<Rightarrow> form" where
  "consent_query cf state =
     [(''client_id'', sc_client_id cf), (''redirect_uri'', redirect_uri cf), (''scope'', install_scopes), (''state'', state)]"

definition handle_install :: "slack_env \<Rightarrow> slack_config \<Rightarrow> server \<Rightarrow> response \<times> server" where
  "handle_install env cf s =
     (if sc_client_id cf = [] then (Http_Error 503 ''install not configured'', s)
      else let n = sv_tick s;
               (tok, st) = state_issue (se_entropy env n) (se_now env (n + 1)) (se_now env (n + 2)) (sv_states s)
        in (Redirect (''https://slack.com/oauth/v2/authorize?'' @ encode_form (consent_query cf tok)),
            s\<lparr>sv_tick := n + 3, sv_states := st\<rparr>))"

definition handle_oauth_callback :: "slack_env \<Rightarrow> slack_config \<Rightarrow> form \<Rightarrow> server \<Rightarrow> response \<times> server" where
  "handle_oauth_callback env cf q s =
     (case state_consume (se_now env (sv_tick s)) (form_get q ''state'') (sv_states s) of
        (ok, st) \<Rightarrow>
          (let s = sv_step (s\<lparr>sv_states := st\<rparr>); code = form_get q ''code'' in
           if \<not> ok then (Http_Error 400 ''invalid state'', s)
           else if code = [] then (Http_Error 400 ''missing code'', s)
           else case se_exchange_install env (sv_tick s) code (redirect_uri cf) of
             Inl e \<Rightarrow> (Http_Error 502 ''install failed'', sv_step s)
           | Inr (team, tok) \<Rightarrow>
               (let s = sv_step s in
                case save_token (se_write env (sv_tick s)) team tok (sv_backing s) of
                  (Some e, b) \<Rightarrow> (Http_Error 500 ''could not save install'', sv_step s)
                | (None, b) \<Rightarrow>
                    (Page ''vamoose installed to your workspace. You can close this tab.'',
                     inc mx_installs (sv_step (s\<lparr>sv_backing := b\<rparr>))))))"

section \<open>Routes\<close>

datatype route = To_Command | To_Interactivity | To_Health | To_Metrics | To_Install | To_Callback | To_Link_Callback

definition routes :: "slack_config \<Rightarrow> (string \<times> string \<times> route) list" where
  "routes cf =
     [(''/slack/commands'', ''POST'', To_Command), (''/slack/interactivity'', ''POST'', To_Interactivity),
      (''/health'', ''GET'', To_Health), (''/metrics'', ''GET'', To_Metrics)]
     @ (if sc_client_id cf \<noteq> []
        then [(''/slack/install'', ''GET'', To_Install), (''/slack/oauth/callback'', ''GET'', To_Callback)] else [])
     @ (if sc_linkers cf \<noteq> [] then [(''/slack/link/callback'', ''GET'', To_Link_Callback)] else [])"

text \<open>A GET route of the mux also answers HEAD; another method on a known path is refused.\<close>

definition method_allowed :: "string \<Rightarrow> string \<Rightarrow> bool" where
  "method_allowed want got \<longleftrightarrow> got = want \<or> (want = ''GET'' \<and> got = ''HEAD'')"

definition serve :: "slack_env \<Rightarrow> slack_config \<Rightarrow> request \<Rightarrow> server \<Rightarrow> response \<times> server" where
  "serve env cf r s =
     (case map_of (routes cf) (rq_path r) of
        None \<Rightarrow> (Http_Error 404 ''404 page not found'', s)
      | Some (want, route) \<Rightarrow>
          (if \<not> method_allowed want (rq_method r) then (Http_Error 405 ''Method Not Allowed'', s)
           else case route of
             To_Command \<Rightarrow> handle_command env cf r s
           | To_Interactivity \<Rightarrow> handle_interactivity env cf r s
           | To_Health \<Rightarrow> (Page ''ok'', s)
           | To_Metrics \<Rightarrow> (Page (write_text (sv_registry s)), s)
           | To_Install \<Rightarrow> handle_install env cf s
           | To_Callback \<Rightarrow> handle_oauth_callback env cf (url_query (rq_query r)) s
           | To_Link_Callback \<Rightarrow> handle_link_callback env cf (url_query (rq_query r)) s))"

text \<open>The server at work: requests, and the poll of the linked users on a timer.\<close>

datatype input = Request request | Poll

fun serve_all :: "slack_env \<Rightarrow> slack_config \<Rightarrow> input list \<Rightarrow> server \<Rightarrow> server" where
  "serve_all env cf [] s = s"
| "serve_all env cf (Request r # xs) s = serve_all env cf xs (snd (serve env cf r s))"
| "serve_all env cf (Poll # xs) s = serve_all env cf xs (poll_users env cf s)"

definition new_server :: "backing \<Rightarrow> server" where
  "new_server b = \<lparr>sv_tick = 0, sv_trace = [], sv_states = Map.empty, sv_link_states = Map.empty, sv_backing = b,
     sv_registry = new_metrics\<rparr>"

end
