(* ===== verification/Slack_Safety.thy ===== *)
theory Slack_Safety
  imports Slack_Flows
begin

text \<open>
  What the Slack server may do: which subcommands it runs, which approval values it issues, and who
  can make it act on a hold. An operation extends the trace; \<open>extends Q\<close> says that every effect it
  adds satisfies \<open>Q\<close> with respect to the trace before that effect.
\<close>

section \<open>Extending the trace\<close>

definition extends :: "(slack_effect list \<Rightarrow> slack_effect \<Rightarrow> bool) \<Rightarrow> server \<Rightarrow> server \<Rightarrow> bool" where
  "extends Q s s' \<longleftrightarrow>
     (\<exists>es. sv_trace s' = sv_trace s @ es \<and> (\<forall>pre e post. es = pre @ e # post \<longrightarrow> Q (sv_trace s @ pre) e))"

named_theorems trace_simps \<open>operations that leave the trace alone\<close>

lemma extends_same: "sv_trace s' = sv_trace s \<Longrightarrow> extends Q s s'"
  by (simp add: extends_def)

lemma extends_trans:
  assumes "extends Q s t" and "extends Q t u" shows "extends Q s u"
proof -
  obtain es where es: "sv_trace t = sv_trace s @ es" "\<And>pre e post. es = pre @ e # post \<Longrightarrow> Q (sv_trace s @ pre) e"
    using assms(1) unfolding extends_def by blast
  obtain fs where fs: "sv_trace u = sv_trace t @ fs" "\<And>pre e post. fs = pre @ e # post \<Longrightarrow> Q (sv_trace t @ pre) e"
    using assms(2) unfolding extends_def by blast
  have "Q (sv_trace s @ pre) e" if "es @ fs = pre @ e # post" for pre e post
  proof (cases "length pre < length es")
    case True
    then have "es = pre @ e # take (length es - length pre - 1) post"
      using arg_cong[OF that, of "take (length es)"] by (simp add: take_Cons')
    then show ?thesis by (rule es(2))
  next
    case False
    then have pre: "pre = es @ drop (length es) pre"
      using arg_cong[OF that, of "take (length es)"] by (metis append_eq_append_conv_if append_take_drop_id leI that)
    then have "fs = drop (length es) pre @ e # post" using that by (metis append.assoc same_append_eq)
    from fs(2)[OF this] show ?thesis using pre es(1) by (metis append.assoc)
  qed
  then show ?thesis unfolding extends_def using es(1) fs(1) by fastforce
qed

lemma extends_emit: "Q (sv_trace s) x \<Longrightarrow> extends Q s (sv_emit x s)"
  unfolding extends_def by (rule exI[of _ "[x]"]) (auto simp: sv_emit_def Cons_eq_append_conv)

lemma extends_mono: "extends Q s s' \<Longrightarrow> (\<And>tr e. Q tr e \<Longrightarrow> R tr e) \<Longrightarrow> extends R s s'"
  unfolding extends_def by blast

lemma trace_ops [simp, trace_simps]:
  "sv_trace (sv_step s) = sv_trace s" "sv_trace (inc name s) = sv_trace s"
  "sv_trace (sv_emit x s) = sv_trace s @ [x]"
  by (simp_all add: sv_step_def inc_def sv_emit_def)

lemma extends_post: "(\<And>u. Q (sv_trace s) (Sent u m)) \<Longrightarrow> extends Q s (post url m s)"
  by (auto simp: post_def intro: extends_emit extends_same)

lemma extends_from: "sv_trace s' = sv_trace s \<Longrightarrow> extends Q s' t \<Longrightarrow> extends Q s t"
  using extends_trans extends_same by blast

lemma run_sub_trace: "run_sub env args vars s = (r, s') \<Longrightarrow> sv_trace s' = sv_trace s @ [Ran args vars]"
  by (auto simp: run_sub_def)

lemma run_sub_result: "run_sub env args vars s = (r, s') \<Longrightarrow> r = se_run env (sv_tick s) args vars"
  by (simp add: run_sub_def)

lemma extends_run_sub: "run_sub env args vars s = (r, s') \<Longrightarrow> Q (sv_trace s) (Ran args vars) \<Longrightarrow> extends Q s s'"
  unfolding extends_def using run_sub_trace by (auto simp: Cons_eq_append_conv)

lemma resolve_approver_trace [trace_simps]:
  "resolve_approver_id env cf team out s = (a, s') \<Longrightarrow> sv_trace s' = sv_trace s"
  by (auto simp: resolve_approver_id_def split: if_splits option.splits sum.splits)

lemma user_env_trace [trace_simps]: "user_env env cf team user s = (r, s') \<Longrightarrow> sv_trace s' = sv_trace s"
  by (auto simp: user_env_def split: if_splits sum.splits)

lemma store_link_trace [trace_simps]: "store_link env team user l s = (r, s') \<Longrightarrow> sv_trace s' = sv_trace s"
  by (auto simp: store_link_def split: prod.splits)

lemma issue_link_state_trace [trace_simps]: "issue_link_state env team user p s = (r, s') \<Longrightarrow> sv_trace s' = sv_trace s"
  by (auto simp: issue_link_state_def Let_def split: prod.splits)

lemma open_modal_trace [trace_simps]: "open_credential_modal env cf team trig p s = (r, s') \<Longrightarrow> sv_trace s' = sv_trace s"
  by (auto simp: open_credential_modal_def split: if_splits sum.splits)

lemma handle_link_trace [trace_simps]: "sv_trace (snd (handle_link env cf f args s)) = sv_trace s"
  by (auto simp: handle_link_def Let_def dest!: issue_link_state_trace open_modal_trace
      split: list.splits prod.splits option.splits)

lemma handle_unlink_trace [trace_simps]: "sv_trace (snd (handle_unlink env f s)) = sv_trace s"
  by (auto simp: handle_unlink_def split: prod.splits option.splits)

lemma handle_link_callback_trace [trace_simps]: "sv_trace (snd (handle_link_callback env cf q s)) = sv_trace s"
  by (auto simp: handle_link_callback_def Let_def dest!: store_link_trace split: prod.splits option.splits sum.splits)

lemma handle_view_trace [trace_simps]: "sv_trace (snd (handle_view_submission env cf i s)) = sv_trace s"
  by (auto simp: handle_view_submission_def Let_def dest!: store_link_trace split: prod.splits option.splits)

lemma handle_install_trace [trace_simps]: "sv_trace (snd (handle_install env cf s)) = sv_trace s"
  by (auto simp: handle_install_def Let_def split: prod.splits)

lemma handle_oauth_callback_trace [trace_simps]: "sv_trace (snd (handle_oauth_callback env cf q s)) = sv_trace s"
  by (auto simp: handle_oauth_callback_def Let_def split: prod.splits option.splits sum.splits)

section \<open>What the server issues and runs\<close>

text \<open>
  \<open>issued env tr p\<close>: an allowed subcommand run before asked for approval, its output named the hold, and the
  approver is the Slack user the address in that output was looked up to.
\<close>

definition issued :: "slack_env \<Rightarrow> slack_effect list \<Rightarrow> approval \<Rightarrow> bool" where
  "issued env tr p \<longleftrightarrow> ap_hold p \<noteq> [] \<and> ap_approver p \<noteq> [] \<and>
     (\<exists>n sub rest vars out email m tok. Ran (sub # rest) vars \<in> set tr \<and> allowed_subcommand sub
        \<and> se_run env n (sub # rest) vars = (out, None) \<and> asks_approval out \<and> hold_id_in out = ap_hold p \<and> approver_email out = Some email
        \<and> se_lookup_email env m tok email = Inr (ap_approver p))"

fun button_issued :: "slack_env \<Rightarrow> slack_config \<Rightarrow> slack_effect list \<Rightarrow> slack_effect \<Rightarrow> bool" where
  "button_issued env cf tr (Sent url (Approval_Buttons summary v)) \<longleftrightarrow>
     (\<exists>p. v = approval_value (se_mac env) (sc_secret cf) p \<and> issued env tr p)"
| "button_issued env cf tr e \<longleftrightarrow> True"

definition action_of :: "string list \<Rightarrow> bool" where
  "action_of args \<longleftrightarrow> (\<exists>h. args = [''promote'', ''--id'', h] \<or> args = [''cancel'', ''--id'', h])"

fun runs_only :: "slack_effect list \<Rightarrow> slack_effect \<Rightarrow> bool" where
  "runs_only tr (Ran args vars) \<longleftrightarrow>
     (\<exists>sub rest. args = sub # rest \<and> allowed_subcommand sub) \<or> args = [''daemon'', ''--once''] \<or> action_of args"
| "runs_only tr e \<longleftrightarrow> True"

text \<open>The two together, closed under the steps every handler is made of.\<close>

definition server_effect :: "slack_env \<Rightarrow> slack_config \<Rightarrow> slack_effect list \<Rightarrow> slack_effect \<Rightarrow> bool" where
  "server_effect env cf tr e \<longleftrightarrow> button_issued env cf tr e \<and> runs_only tr e"

definition slash_effect :: "slack_env \<Rightarrow> slack_config \<Rightarrow> slack_effect list \<Rightarrow> slack_effect \<Rightarrow> bool" where
  "slash_effect env cf tr e \<longleftrightarrow> button_issued env cf tr e
     \<and> (\<forall>args vars. e = Ran args vars \<longrightarrow> (\<exists>sub rest. args = sub # rest \<and> allowed_subcommand sub))"

lemma slash_server_effect: "slash_effect env cf tr e \<Longrightarrow> server_effect env cf tr e"
  by (cases e) (auto simp: slash_effect_def server_effect_def)

lemma resolved_approver:
  "resolve_approver_id env cf team out s = (a, s') \<Longrightarrow> a \<noteq> [] \<Longrightarrow>
     \<exists>email m tok. approver_email out = Some email \<and> se_lookup_email env m tok email = Inr a"
  by (fastforce simp: resolve_approver_id_def split: if_splits option.splits sum.splits)

lemma run_command_effects:
  assumes "allowed_subcommand sub"
  shows "extends (slash_effect env cf) s (run_command env cf url (sub # rest) vars team user s)"
proof -
  let ?Q = "slash_effect env cf"
  obtain out err s1 where r: "run_sub env (sub # rest) vars s = ((out, err), s1)" by (metis prod.exhaust)
  have tr: "sv_trace s1 = sv_trace s @ [Ran (sub # rest) vars]" using run_sub_trace[OF r] .
  have first: "extends ?Q s s1"
    by (rule extends_run_sub[OF r]) (simp add: slash_effect_def assms)
  have out: "se_run env (sv_tick s) (sub # rest) vars = (out, err)" using run_sub_result[OF r] by simp
  show ?thesis
  proof (cases err)
    case (Some e)
    have "extends ?Q (inc mx_errors s1) (post url (Ephemeral m) (inc mx_errors s1))" for m
      by (rule extends_post) (simp add: slash_effect_def)
    then have "extends ?Q s1 (post url (Ephemeral m) (inc mx_errors s1))" for m
      using extends_from[OF trace_ops(2)] by blast
    then show ?thesis
      unfolding run_command_def r Some prod.case option.case by (rule extends_trans[OF first])
  next
    case None
    show ?thesis
    proof (cases "hold_id_in out \<noteq> [] \<and> asks_approval out")
      case False
      have "extends ?Q s1 (post url (Ephemeral (code_block out)) s1)" by (rule extends_post) (simp add: slash_effect_def)
      then show ?thesis using extends_trans[OF first] r None False by (auto simp: run_command_def Let_def)
    next
      case True
      obtain a s2 where a: "resolve_approver_id env cf team out s1 = (a, s2)" by fastforce
      have s2: "sv_trace s2 = sv_trace s1" using resolve_approver_trace[OF a] .
      let ?p = "\<lparr>ap_hold = hold_id_in out, ap_team = team, ap_user = user, ap_approver = a\<rparr>"
      let ?m = "if a = [] then In_Channel (first_line out @ withheld_text)
        else Approval_Buttons (first_line out) (approval_value (se_mac env) (sc_secret cf) ?p)"
      have "issued env (sv_trace s2) ?p" if ne: "a \<noteq> []"
      proof -
        obtain email m tok where "approver_email out = Some email" "se_lookup_email env m tok email = Inr a"
          using resolved_approver[OF a ne] by blast
        moreover have "Ran (sub # rest) vars \<in> set (sv_trace s2)" using s2 tr by simp
        ultimately show ?thesis unfolding issued_def using out None True ne assms by fastforce
      qed
      then have "extends ?Q s2 (post url ?m s2)" by (intro extends_post) (auto simp: slash_effect_def)
      then have "extends ?Q s (post url ?m s2)" using extends_trans[OF first] extends_from[OF s2] by blast
      then show ?thesis using r None True a by (simp add: run_command_def Let_def split: if_splits)
    qed
  qed
qed

lemma run_as_user_effects:
  assumes "allowed_subcommand sub"
  shows "extends (slash_effect env cf) s (run_as_user env cf url team user (sub # rest) s)"
proof -
  obtain r s1 where u: "user_env env cf team user s = (r, s1)" by fastforce
  have tr: "sv_trace s1 = sv_trace s" using user_env_trace[OF u] .
  show ?thesis
  proof (cases r)
    case (Inl e)
    have "extends (slash_effect env cf) s1 (post url (Ephemeral m) s1)" for m
      by (rule extends_post) (simp add: slash_effect_def)
    then show ?thesis using u Inl extends_from[OF tr] by (simp add: run_as_user_def)
  next
    case (Inr vars)
    then show ?thesis
      using u extends_from[OF tr run_command_effects[OF assms]] by (simp add: run_as_user_def)
  qed
qed

lemma handle_command_effects: "extends (slash_effect env cf) s (snd (handle_command env cf r s))"
proof -
  have i: "sv_trace (inc mx_commands (sv_step s)) = sv_trace s" by simp
  have c: "allowed_subcommand sub \<Longrightarrow>
      extends (slash_effect env cf) s (run_command env cf url (sub # rest) [] team [] (inc mx_commands (sv_step s)))" for sub url rest team
    using extends_from[OF i run_command_effects] .
  have u: "allowed_subcommand sub \<Longrightarrow>
      extends (slash_effect env cf) s (run_as_user env cf url team user (sub # rest) (inc mx_commands (sv_step s)))" for sub url rest team user
    using extends_from[OF i run_as_user_effects] .
  note quiet = extends_same[OF trans[OF handle_link_trace trace_ops(1)]] extends_same[OF trans[OF handle_unlink_trace trace_ops(1)]]
    extends_same[OF trace_ops(1)]
  show ?thesis
  proof (cases "verify (se_mac env) (sc_secret cf) (se_now env (sv_tick s)) r")
    case (Inl e)
    then show ?thesis by (simp add: handle_command_def quiet)
  next
    case body: (Inr body)
    show ?thesis
    proof (cases "parse_query body")
      case None
      then show ?thesis by (simp add: handle_command_def body quiet)
    next
      case f: (Some f)
      show ?thesis
      proof (cases "tokenize (form_get f ''text'')")
        case (Inl e)
        then show ?thesis by (simp add: handle_command_def body f Let_def quiet)
      next
        case args: (Inr args)
        show ?thesis
        proof (cases args)
          case Nil
          then show ?thesis using args by (simp add: handle_command_def body f Let_def quiet)
        next
          case (Cons sub rest)
          let ?link = "sc_per_user cf \<and> sub = ''link''" and ?unlink = "sc_per_user cf \<and> sub = ''unlink''"
          have e: "handle_command env cf r s =
              (if ?link then handle_link env cf f (sub # rest) (sv_step s)
               else if ?unlink then handle_unlink env f (sv_step s)
               else if \<not> allowed_subcommand sub
               then (Reply (Ephemeral (''The `'' @ sub @ ''` command is not available from Slack.'')), sv_step s)
               else (Reply (Ephemeral (''Running `vamoose '' @ form_get f ''text'' @ ''` ...'')),
                 if sc_per_user cf
                 then run_as_user env cf (form_get f ''response_url'') (form_get f ''team_id'') (form_get f ''user_id'') (sub # rest)
                   (inc mx_commands (sv_step s))
                 else run_command env cf (form_get f ''response_url'') (sub # rest) [] (form_get f ''team_id'') []
                   (inc mx_commands (sv_step s))))"
            by (simp add: handle_command_def body f args Cons Let_def)
          consider "?link" | "\<not> ?link" "?unlink" | "\<not> ?link" "\<not> ?unlink" "\<not> allowed_subcommand sub"
            | "\<not> ?link" "\<not> ?unlink" "allowed_subcommand sub" by blast
          then show ?thesis
          proof cases
            case 1
            show ?thesis unfolding e if_P[OF 1] by (rule quiet(1))
          next
            case 2
            show ?thesis unfolding e if_not_P[OF 2(1)] if_P[OF 2(2)] by (rule quiet(2))
          next
            case 3
            show ?thesis unfolding e if_not_P[OF 3(1)] if_not_P[OF 3(2)] if_P[OF 3(3)] snd_conv by (rule quiet(3))
          next
            case 4
            then have n: "\<not> \<not> allowed_subcommand sub" by simp
            show ?thesis
              unfolding e if_not_P[OF 4(1)] if_not_P[OF 4(2)] if_not_P[OF n] snd_conv
              by (cases "sc_per_user cf") (simp_all only: if_True if_False c[OF 4(3)] u[OF 4(3)])
          qed
        qed
      qed
    qed
  qed
qed

text \<open>An action runs only with a valid value, for its approver, on its hold.\<close>

definition action_ok :: "slack_env \<Rightarrow> slack_config \<Rightarrow> string \<Rightarrow> string \<Rightarrow> string \<Rightarrow> slack_effect list \<Rightarrow> slack_effect \<Rightarrow> bool" where
  "action_ok env cf clicker action val tr e \<longleftrightarrow>
     (\<forall>args vars. e = Ran args vars \<longrightarrow>
        (\<exists>p t v. decode_approval (se_mac env) (sc_secret cf) val = Some p \<and> action_args action (ap_hold p) = Some (args, t, v)
           \<and> (ap_approver p = [] \<or> clicker = ap_approver p)))
     \<and> (\<forall>url summary v. e \<noteq> Sent url (Approval_Buttons summary v))"

lemma run_action_effects: "extends (action_ok env cf clicker action val) s (run_action env cf url clicker action val s)"
proof -
  let ?Q = "action_ok env cf clicker action val"
  have sent: "extends ?Q t (post url m t)" if "\<And>summary v. m \<noteq> Approval_Buttons summary v" for m t
    using that by (intro extends_post) (simp add: action_ok_def)
  show ?thesis
  proof (cases "decode_approval (se_mac env) (sc_secret cf) val")
    case None
    then show ?thesis using extends_from[OF trace_ops(2) sent] by (simp add: run_action_def)
  next
    case (Some p)
    show ?thesis
    proof (cases "(ap_approver p \<noteq> [] \<and> clicker \<noteq> ap_approver p) \<or> action_args action (ap_hold p) = None")
      case True
      then show ?thesis
        by (cases "ap_approver p \<noteq> [] \<and> clicker \<noteq> ap_approver p")
          (simp_all add: run_action_def Let_def Some extends_from[OF trace_ops(2) sent] extends_same del: append_Cons append.simps)
    next
      case False
      then obtain args d v where aa: "action_args action (ap_hold p) = Some (args, d, v)" by auto
      have n: "\<not> (ap_approver p \<noteq> [] \<and> clicker \<noteq> ap_approver p)" using False by blast
      let ?s = "inc mx_actions s"
      obtain vars s1 where e: "(if ap_user p \<noteq> [] \<and> sc_per_user cf
           then (case user_env env cf (ap_team p) (ap_user p) ?s of (Inl e, s) \<Rightarrow> ([], s) | (Inr vars, s) \<Rightarrow> (vars, s))
           else ([], ?s)) = (vars, s1)" by fastforce
      then have tr: "sv_trace s1 = sv_trace s"
        by (auto dest!: user_env_trace split: if_splits prod.splits sum.splits)
      obtain out err s2 where r: "run_sub env args vars s1 = ((out, err), s2)" by (metis prod.exhaust)
      have ran: "extends ?Q s s2"
        using extends_from[OF tr extends_run_sub[OF r]] Some aa False by (auto simp: action_ok_def)
      have fin: "run_action env cf url clicker action val s =
          post url (Replace_Original (case err of Some e \<Rightarrow> ''Could not '' @ v @ '': the server logged the details.'' | None \<Rightarrow> d @ ''.'')) s2"
        unfolding run_action_def Some option.case if_not_P[OF n] Let_def aa prod.case e r
        by (cases err) simp_all
      show ?thesis unfolding fin by (rule extends_trans[OF ran sent]) simp
    qed
  qed
qed

section \<open>The whole server\<close>

text \<open>The button click a request presents, when it is signed and of that kind.\<close>

definition presents :: "slack_env \<Rightarrow> slack_config \<Rightarrow> request \<Rightarrow> server \<Rightarrow> (interaction \<times> string \<times> string) option" where
  "presents env cf r s =
     (case verify (se_mac env) (sc_secret cf) (se_now env (sv_tick s)) r of
        Inl e \<Rightarrow> None
      | Inr body \<Rightarrow>
          (case parse_query body of
             None \<Rightarrow> None
           | Some f \<Rightarrow>
               (case parse_interaction (form_get f ''payload'') of
                  None \<Rightarrow> None
                | Some i \<Rightarrow>
                    (if in_type i = ''view_submission'' then None
                     else case in_actions i of [] \<Rightarrow> None | (a, v) # rest \<Rightarrow> Some (i, a, v)))))"

lemma handle_interactivity_presents:
  "case presents env cf r s of
     None \<Rightarrow> sv_trace (snd (handle_interactivity env cf r s)) = sv_trace s
   | Some (i, a, v) \<Rightarrow>
       snd (handle_interactivity env cf r s) = run_action env cf (in_url i) (in_user i) a v (sv_step s)"
proof (cases "verify (se_mac env) (sc_secret cf) (se_now env (sv_tick s)) r")
  case body: (Inr body)
  show ?thesis
  proof (cases "parse_query body")
    case f: (Some f)
    show ?thesis
    proof (cases "parse_interaction (form_get f ''payload'')")
      case i: (Some i)
      show ?thesis
      proof (cases "in_type i = ''view_submission''")
        case True
        show ?thesis
          unfolding presents_def handle_interactivity_def body f i sum.case option.case Let_def if_P[OF True]
          using handle_view_trace[of env cf i "sv_step s"] by simp
      next
        case False
        show ?thesis
          unfolding presents_def handle_interactivity_def body f i sum.case option.case Let_def if_not_P[OF False]
          by (simp split: list.split)
      qed
    qed (simp add: presents_def handle_interactivity_def body f Let_def)
  qed (simp add: presents_def handle_interactivity_def body Let_def)
qed (simp add: presents_def handle_interactivity_def)

lemma poll_each_effects: "extends (server_effect env cf) s (poll_each env cf ids s)"
proof (induction env cf ids s rule: poll_each.induct)
  case (1 env cf s)
  show ?case by (simp add: extends_same)
next
  case (2 env cf team user ids s)
  obtain r s1 where u: "user_env env cf team user s = (r, s1)" by fastforce
  have tr: "sv_trace s1 = sv_trace s" using user_env_trace[OF u] .
  show ?case
  proof (cases r)
    case (Inl e)
    then show ?thesis using 2(1)[OF u[symmetric]] u extends_from[OF tr] by simp
  next
    case (Inr vars)
    obtain o2 s2 where rs: "run_sub env [''daemon'', ''--once''] (vars @ extra_env cf team user) s1 = (o2, s2)" by fastforce
    have "extends (server_effect env cf) s1 s2"
      by (rule extends_run_sub[OF rs]) (simp add: server_effect_def)
    then have "extends (server_effect env cf) s s2" using extends_from[OF tr] by blast
    then show ?thesis
      using 2(2)[OF u[symmetric] Inr] u Inr rs extends_trans by (simp add: run_sub_def)
  qed
qed

lemma poll_users_effects: "extends (server_effect env cf) s (poll_users env cf s)"
  using extends_from[OF trace_ops(1) poll_each_effects]
  by (auto simp: poll_users_def intro: extends_same split: sum.splits)

lemma action_args_action_of: "action_args action h = Some (args, t, v) \<Longrightarrow> action_of args"
  by (auto simp: action_args_def action_of_def split: if_splits)

lemma action_ok_server_effect: "action_ok env cf clicker action val tr e \<Longrightarrow> server_effect env cf tr e"
proof (cases e)
  case (Ran args vars)
  assume "action_ok env cf clicker action val tr e"
  then have "action_of args" using Ran action_args_action_of by (fastforce simp: action_ok_def)
  then show ?thesis using Ran by (simp add: server_effect_def)
next
  case (Sent url m)
  assume "action_ok env cf clicker action val tr e"
  then show ?thesis using Sent by (cases m) (auto simp: server_effect_def action_ok_def)
qed

lemma handle_interactivity_effects: "extends (server_effect env cf) s (snd (handle_interactivity env cf r s))"
  using handle_interactivity_presents[of env cf r s] extends_mono[OF run_action_effects action_ok_server_effect]
    extends_from[OF trace_ops(1)]
  by (cases "presents env cf r s") (auto intro: extends_same)

lemma serve_effects: "extends (server_effect env cf) s (snd (serve env cf r s))"
proof (cases "map_of (routes cf) (rq_path r)")
  case (Some wr)
  obtain want route where wr: "wr = (want, route)" by (cases wr)
  show ?thesis
  proof (cases "method_allowed want (rq_method r)")
    case True
    then show ?thesis
      using Some wr extends_mono[OF handle_command_effects slash_server_effect] handle_interactivity_effects
      by (cases route) (simp_all add: serve_def extends_same handle_install_trace handle_oauth_callback_trace
          handle_link_callback_trace)
  qed (simp add: serve_def Some wr extends_same)
qed (simp add: serve_def extends_same)

lemma serve_all_effects: "extends (server_effect env cf) s (serve_all env cf xs s)"
proof (induction env cf xs s rule: serve_all.induct)
  case (1 env cf s)
  show ?case by (simp add: extends_same)
next
  case (2 env cf r xs s)
  then show ?case using extends_trans[OF serve_effects] by simp
next
  case (3 env cf xs s)
  then show ?case using extends_trans[OF poll_users_effects] by simp
qed

lemma reached_effect:
  assumes "sv_trace (serve_all env cf xs (new_server b)) = pre @ e # later"
  shows "server_effect env cf pre e"
  using serve_all_effects[of env cf "new_server b" xs] assms by (auto simp: extends_def new_server_def)

text \<open>The values the server has put on buttons.\<close>

fun button_values :: "slack_effect list \<Rightarrow> string list" where
  "button_values [] = []"
| "button_values (Sent url (Approval_Buttons summary v) # es) = v # button_values es"
| "button_values (e # es) = button_values es"

lemma button_values_mem: "v \<in> set (button_values es) \<Longrightarrow> \<exists>url summary. Sent url (Approval_Buttons summary v) \<in> set es"
  by (induction es rule: button_values.induct) auto

lemma issued_mono: "issued env tr p \<Longrightarrow> set tr \<subseteq> set tr' \<Longrightarrow> issued env tr' p"
  unfolding issued_def by blast

lemma button_was_issued:
  assumes "v \<in> set (button_values (sv_trace (serve_all env cf xs (new_server b))))"
  shows "\<exists>p. v = approval_value (se_mac env) (sc_secret cf) p \<and> issued env (sv_trace (serve_all env cf xs (new_server b))) p"
proof -
  let ?tr = "sv_trace (serve_all env cf xs (new_server b))"
  obtain url summary where "Sent url (Approval_Buttons summary v) \<in> set ?tr" using button_values_mem[OF assms] by blast
  then obtain pre post where sp: "?tr = pre @ Sent url (Approval_Buttons summary v) # post" by (meson split_list)
  from reached_effect[OF sp] obtain p where "v = approval_value (se_mac env) (sc_secret cf) p" "issued env pre p"
    by (auto simp: server_effect_def)
  then show ?thesis using issued_mono[of env pre p ?tr] sp by auto
qed

text \<open>The effects one request adds.\<close>

definition new_effects :: "slack_env \<Rightarrow> slack_config \<Rightarrow> request \<Rightarrow> server \<Rightarrow> slack_effect list" where
  "new_effects env cf r s = drop (length (sv_trace s)) (sv_trace (snd (serve env cf r s)))"

lemma extends_new: "extends Q s s' \<Longrightarrow> e \<in> set (drop (length (sv_trace s)) (sv_trace s')) \<Longrightarrow> \<exists>pre. Q (sv_trace s @ pre) e"
proof -
  assume x: "extends Q s s'" and e: "e \<in> set (drop (length (sv_trace s)) (sv_trace s'))"
  obtain es where es: "sv_trace s' = sv_trace s @ es" "\<And>pre e later. es = pre @ e # later \<Longrightarrow> Q (sv_trace s @ pre) e"
    using x unfolding extends_def by blast
  from e es(1) obtain pre later where "es = pre @ e # later" by (auto simp: in_set_conv_decomp)
  from es(2)[OF this] show ?thesis by blast
qed

lemma action_not_slash: "action_of args \<Longrightarrow> args = sub # rest \<Longrightarrow> \<not> allowed_subcommand sub"
proof -
  have "\<not> allowed_subcommand ''promote''" "\<not> allowed_subcommand ''cancel''" by code_simp+
  then show "action_of args \<Longrightarrow> args = sub # rest \<Longrightarrow> \<not> allowed_subcommand sub" by (auto simp: action_of_def)
qed

end
