(* ===== verification/Slack_Link.thy ===== *)
theory Slack_Link
  imports Slack_Server
begin

text \<open>
  How the Slack command sets the server up (\<open>cmd/slack.go\<close>) and what a linked user's commands run
  with (\<open>cmd/slacklink.go\<close>): the environment of the subprocess, the files of a user, the linkers.
\<close>

section \<open>The environment of a subprocess\<close>

text \<open>
  An environment is a list of \<open>KEY=value\<close>. \<open>os/exec\<close> keeps the last of several values of a key, which is
  what the child reads.
\<close>

definition env_key :: "string \<Rightarrow> string" where
  "env_key kv = fst (cut_on (CHR ''='') kv)"

definition child_env :: "string list \<Rightarrow> string \<Rightarrow> string option" where
  "child_env vars k = map_option (\<lambda>kv. fst (snd (cut_on (CHR ''='') kv)))
     (find (\<lambda>kv. has_prefix kv (k @ ''='')) (rev vars))"

definition per_user_env_keys :: "string list" where
  "per_user_env_keys = [''VAMOOSE_PROVIDER'', ''VAMOOSE_GOOGLE_ACCESS_TOKEN'', ''VAMOOSE_GRAPH_ACCESS_TOKEN'',
     ''VAMOOSE_ICLOUD_USERNAME'', ''VAMOOSE_ICLOUD_APP_PASSWORD'', ''VAMOOSE_ICLOUD_CALENDAR'']"

definition merge_env :: "string list \<Rightarrow> string list \<Rightarrow> string list" where
  "merge_env base inject =
     (if inject = [] then base
      else filter (\<lambda>kv. \<not> list_ex (\<lambda>k. has_prefix kv (k @ ''='')) per_user_env_keys) base @ inject)"

text \<open>\<open>filepath.Join\<close> of components without separators or dots.\<close>

definition join_path :: "string list \<Rightarrow> string" where
  "join_path parts = join_with ''/'' parts"

definition slack_user_files_env :: "string result \<Rightarrow> string \<Rightarrow> string \<Rightarrow> string list" where
  "slack_user_files_env config_dir team user =
     (case config_dir of
        Inl e \<Rightarrow> []
      | Inr dir \<Rightarrow>
          [''VAMOOSE_WATCH_FILE='' @ join_path [dir, ''vamoose'', ''watches'', team @ ''-'' @ user @ ''.json''],
           ''VAMOOSE_AUDIT_FILE='' @ join_path [dir, ''vamoose'', ''audit'', team @ ''-'' @ user @ ''.json'']])"

section \<open>Linkers\<close>

definition google_run_env :: "string result \<Rightarrow> string list result" where
  "google_run_env refreshed =
     (case refreshed of
        Inl e \<Rightarrow> Inl e
      | Inr tok \<Rightarrow> Inr [''VAMOOSE_PROVIDER=google'', ''VAMOOSE_GOOGLE_ACCESS_TOKEN='' @ tok])"

definition graph_run_env :: "string result \<Rightarrow> string list result" where
  "graph_run_env refreshed =
     (case refreshed of
        Inl e \<Rightarrow> Inl e
      | Inr tok \<Rightarrow> Inr [''VAMOOSE_PROVIDER=graph'', ''VAMOOSE_GRAPH_ACCESS_TOKEN='' @ tok])"

definition icloud_run_env :: "user_link \<Rightarrow> string list result" where
  "icloud_run_env l =
     (if ul_icloud_user l = [] \<or> ul_icloud_password l = [] then Inl (Errorf ''icloud link is missing credentials'' [])
      else Inr [''VAMOOSE_PROVIDER=icloud'', ''VAMOOSE_ICLOUD_USERNAME='' @ ul_icloud_user l,
                ''VAMOOSE_ICLOUD_APP_PASSWORD='' @ ul_icloud_password l])"

text \<open>\<open>refresh\<close> is the token endpoint of a provider.\<close>

definition linker_run_env :: "(string \<Rightarrow> string \<Rightarrow> string result) \<Rightarrow> string \<Rightarrow> user_link \<Rightarrow> string list result" where
  "linker_run_env refresh provider l =
     (if provider = ''google'' then google_run_env (refresh provider (ul_refresh_token l))
      else if provider = ''graph'' then graph_run_env (refresh provider (ul_refresh_token l))
      else icloud_run_env l)"

definition linker_exchange :: "(string \<Rightarrow> string \<Rightarrow> string result) \<Rightarrow> string \<Rightarrow> string \<Rightarrow> user_link result" where
  "linker_exchange redeem provider code =
     (if provider = ''icloud'' then Inl (Errorf ''icloud links via a modal, not oauth'' [])
      else case redeem provider code of
        Inl e \<Rightarrow> Inl e
      | Inr tok \<Rightarrow> Inr (zero_link\<lparr>ul_provider := provider, ul_refresh_token := tok\<rparr>))"

section \<open>Starting the server\<close>

definition token_store_name :: "(string \<Rightarrow> string) \<Rightarrow> string" where
  "token_store_name getenv = (if getenv key_env \<noteq> [] then ''slack-tokens.enc'' else ''slack-tokens.json'')"

definition link_store_name :: "(string \<Rightarrow> string) \<Rightarrow> string" where
  "link_store_name getenv = (if getenv key_env \<noteq> [] then ''slack-user-links.enc'' else ''slack-user-links.json'')"

definition slack_linkers :: "(string \<Rightarrow> string) \<Rightarrow> string list" where
  "slack_linkers getenv =
     (if getenv ''VAMOOSE_GOOGLE_CLIENT_ID'' \<noteq> [] \<and> getenv ''VAMOOSE_GOOGLE_CLIENT_SECRET'' \<noteq> [] then [''google''] else [])
     @ (if getenv ''VAMOOSE_CLIENT_ID'' \<noteq> [] \<and> getenv ''VAMOOSE_GRAPH_CLIENT_SECRET'' \<noteq> [] then [''graph''] else [])
     @ [''icloud'']"

text \<open>
  The configuration \<open>runSlack\<close> passes to \<open>NewServer\<close>, after it has opened the stores. \<open>exe_err\<close> is the failure of finding
  the executable, \<open>open_at\<close> what opens the database.
\<close>

definition store_error ::
  "(string \<Rightarrow> aead) \<Rightarrow> (string \<Rightarrow> string) \<Rightarrow> string result \<Rightarrow> bool \<Rightarrow> error option" where
  "store_error aes_gcm getenv config_dir in_db =
     (if in_db then None
      else case config_dir of
        Inl e \<Rightarrow> Some e
      | Inr dir \<Rightarrow> (case box_from_env aes_gcm getenv of Inl e \<Rightarrow> Some e | Inr box \<Rightarrow> None))"

definition slack_setup ::
  "(string \<Rightarrow> aead) \<Rightarrow> (string \<Rightarrow> string) \<Rightarrow> error option \<Rightarrow> (string \<Rightarrow> db result) \<Rightarrow> string result \<Rightarrow> slack_config result" where
  "slack_setup aes_gcm getenv exe_err open_at config_dir =
     (let secret = getenv ''VAMOOSE_SLACK_SIGNING_SECRET''; path = getenv ''VAMOOSE_DB_PATH'';
          cid = getenv ''VAMOOSE_SLACK_CLIENT_ID''; csec = getenv ''VAMOOSE_SLACK_CLIENT_SECRET'';
          pub = getenv ''VAMOOSE_SLACK_PUBLIC_URL''; in_db = (path \<noteq> []);
          per_user = (getenv ''VAMOOSE_SLACK_PER_USER'' \<noteq> [] \<and> getenv ''VAMOOSE_SLACK_PER_USER'' \<noteq> ''0'');
          installs = (cid \<noteq> [] \<and> csec \<noteq> [] \<and> pub \<noteq> []);
          store_err = store_error aes_gcm getenv config_dir in_db
      in if secret = [] then Inl (Errorf ''VAMOOSE_SLACK_SIGNING_SECRET not set: copy it from your Slack app's Basic Information'' [])
         else case exe_err of Some e \<Rightarrow> Inl (Errorf ''resolve executable'' [e]) | None \<Rightarrow>
           (case (if in_db then (case open_at path of Inl e \<Rightarrow> Some e | Inr d \<Rightarrow> None) else None) of Some e \<Rightarrow> Inl (Errorf ''open database'' [e]) | None \<Rightarrow>
             (case (if installs then store_err else None) of Some e \<Rightarrow> Inl (Errorf ''slack token store'' [e]) | None \<Rightarrow>
               (if per_user \<and> pub = []
                then Inl (Errorf ''per-user mode requires VAMOOSE_SLACK_PUBLIC_URL for the OAuth callback'' [])
                else case (if per_user then store_err else None) of Some e \<Rightarrow> Inl (Errorf ''slack user link store'' [e]) | None \<Rightarrow>
                  Inr \<lparr>sc_secret = secret, sc_client_id = (if installs then cid else []),
                    sc_public_url = (if installs \<or> per_user then pub else []), sc_installs = installs, sc_per_user = per_user,
                    sc_linkers = (if per_user then slack_linkers getenv else []),
                    sc_extra_env = (if per_user then Some (slack_user_files_env config_dir) else None)\<rparr>))))"

section \<open>What a linked user's command inherits\<close>

lemma find_filter_out: "(\<And>x. P x \<Longrightarrow> \<not> Q x) \<Longrightarrow> find P (filter Q xs) = None"
  by (auto simp: find_None_iff_all)

lemma merged_credentials:
  assumes "inject \<noteq> []" and "k \<in> set per_user_env_keys"
  shows "child_env (merge_env base inject) k = child_env inject k"
proof -
  let ?P = "\<lambda>kv. has_prefix kv (k @ ''='')"
  let ?Q = "\<lambda>kv. \<not> list_ex (\<lambda>k. has_prefix kv (k @ ''='')) per_user_env_keys"
  have "find ?P (rev (filter ?Q base)) = None"
    unfolding rev_filter using assms(2) by (intro find_filter_out) (auto simp: list_ex_iff)
  then show ?thesis
    using assms(1) by (simp add: merge_env_def child_env_def find_append split: option.splits)
qed

lemma merged_others:
  assumes "\<And>u. u \<in> set per_user_env_keys \<Longrightarrow> \<not> has_prefix (k @ ''='') (u @ ''='')" and "CHR ''='' \<notin> set k"
    and "child_env inject k = None"
  shows "child_env (merge_env base inject) k = child_env base k"
proof (cases "inject = []")
  case False
  let ?P = "\<lambda>kv. has_prefix kv (k @ ''='')"
  let ?Q = "\<lambda>kv. \<not> list_ex (\<lambda>k. has_prefix kv (k @ ''='')) per_user_env_keys"
  have keys: "list_all (\<lambda>u. CHR ''='' \<notin> set u) per_user_env_keys" by code_simp
  have "?Q kv" if pk: "?P kv" for kv
  proof -
    obtain v where kv: "kv = k @ CHR ''='' # v" using pk by (auto simp: has_prefix_iff)
    have "\<not> has_prefix kv (u @ ''='')" if u: "u \<in> set per_user_env_keys" for u
    proof
      assume "has_prefix kv (u @ ''='')"
      then obtain v2 where "kv = u @ CHR ''='' # v2" by (auto simp: has_prefix_iff)
      moreover have "CHR ''='' \<notin> set u" using keys u by (simp add: list_all_iff)
      ultimately have "cut_on (CHR ''='') kv = (u, v2, True)" by simp
      moreover have "cut_on (CHR ''='') kv = (k, v, True)" using assms(2) by (simp add: kv)
      ultimately show False using assms(1)[OF u] by (simp add: has_prefix_iff)
    qed
    then show ?thesis by (auto simp: list_ex_iff)
  qed
  then have "find ?P (filter ?Q (rev base)) = find ?P (rev base)" by (intro find_filter_cong) blast
  then show ?thesis
    using assms(3) False
    by (auto simp: merge_env_def child_env_def find_append rev_filter split: option.splits)
qed (simp add: merge_env_def)

end
