(* ===== verification/Commands.thy ===== *)
theory Commands
  imports Run When Loader
begin

text \<open>
  The command line: the flag parser of the standard library, \<open>Execute\<close> (\<open>cmd/execute.go\<close>), and the
  commands that act on a hold, \<open>run\<close>, \<open>request\<close>, \<open>off\<close>, \<open>away\<close>, \<open>event\<close>, \<open>check\<close>, \<open>promote\<close> and \<open>cancel\<close>, from
  their arguments. What they print up to the creation of the hold, and the plan of a dry run, is
  modelled as text, since the Slack server reads it. A command that never returns is \<open>None\<close>.
\<close>

section \<open>Flags\<close>

datatype flag_kind = Flag_String | Flag_Bool

type_synonym flags = "(string \<times> string) list"

abbreviation ErrHelp :: error where "ErrHelp \<equiv> Sentinel ''flag: help requested''"

datatype flag_arg = Not_Flag | Terminator | Bad_Syntax | Named string "string option"

definition flag_name :: "string \<Rightarrow> flag_arg" where
  "flag_name n =
     (if n = [] \<or> has_prefix n ''-'' \<or> has_prefix n ''='' then Bad_Syntax
      else case cut_on (CHR ''='') n of (k, v, found) \<Rightarrow> Named k (if found then Some v else None))"

fun flag_syntax :: "string \<Rightarrow> flag_arg" where
  "flag_syntax (a # b # s) =
     (if a \<noteq> CHR ''-'' then Not_Flag
      else if b \<noteq> CHR ''-'' then flag_name (b # s)
      else if s = [] then Terminator else flag_name s)"
| "flag_syntax s = Not_Flag"

definition parse_bool :: "string \<Rightarrow> bool option" where
  "parse_bool s =
     (if s \<in> set [''1'', ''t'', ''T'', ''true'', ''TRUE'', ''True''] then Some True
      else if s \<in> set [''0'', ''f'', ''F'', ''false'', ''FALSE'', ''False''] then Some False else None)"

definition bool_text :: "bool \<Rightarrow> string" where
  "bool_text b = (if b then ''true'' else ''false'')"

fun parse_flags :: "(string \<times> flag_kind) list \<Rightarrow> flags \<Rightarrow> string list \<Rightarrow> (flags \<times> string list) result" where
  "parse_flags spec vs [] = Inr (vs, [])"
| "parse_flags spec vs (s # rest) =
     (case flag_syntax s of
        Not_Flag \<Rightarrow> Inr (vs, s # rest)
      | Terminator \<Rightarrow> Inr (vs, rest)
      | Bad_Syntax \<Rightarrow> Inl (Errorf (''bad flag syntax: '' @ s) [])
      | Named n val \<Rightarrow>
          (case map_of spec n of
             None \<Rightarrow> Inl (if n = ''help'' \<or> n = ''h'' then ErrHelp else Errorf (''flag provided but not defined: -'' @ n) [])
           | Some Flag_Bool \<Rightarrow>
               (case parse_bool (case val of None \<Rightarrow> ''true'' | Some v \<Rightarrow> v) of
                  None \<Rightarrow> Inl (Errorf (''invalid boolean value for -'' @ n) [])
                | Some b \<Rightarrow> parse_flags spec (AList.update n (bool_text b) vs) rest)
           | Some Flag_String \<Rightarrow>
               (case val of
                  Some v \<Rightarrow> parse_flags spec (AList.update n v vs) rest
                | None \<Rightarrow>
                    (case rest of
                       [] \<Rightarrow> Inl (Errorf (''flag needs an argument: -'' @ n) [])
                     | v # others \<Rightarrow> parse_flags spec (AList.update n v vs) others))))"

definition flag_str :: "flags \<Rightarrow> string \<Rightarrow> string" where
  "flag_str vs n = (case map_of vs n of None \<Rightarrow> [] | Some v \<Rightarrow> v)"

definition flag_set :: "flags \<Rightarrow> string \<Rightarrow> bool" where
  "flag_set vs n \<longleftrightarrow> flag_str vs n = ''true''"

definition strings :: "string list \<Rightarrow> (string \<times> flag_kind) list" where
  "strings ns = map (\<lambda>n. (n, Flag_String)) ns"

definition bools :: "string list \<Rightarrow> (string \<times> flag_kind) list" where
  "bools ns = map (\<lambda>n. (n, Flag_Bool)) ns"

text \<open>A string flag takes the next argument whatever it looks like.\<close>

lemma string_flag_takes_next:
  "map_of spec n = Some Flag_String \<Longrightarrow> n \<noteq> [] \<Longrightarrow> \<not> has_prefix n ''-'' \<Longrightarrow> CHR ''='' \<notin> set n \<Longrightarrow>
     parse_flags spec vs ((''--'' @ n) # v # rest) = parse_flags spec (AList.update n v vs) rest"
proof -
  assume n: "map_of spec n = Some Flag_String" "n \<noteq> []" "\<not> has_prefix n ''-''" "CHR ''='' \<notin> set n"
  then have "\<not> has_prefix n ''=''" by (cases n) auto
  then show ?thesis using n by (simp add: flag_name_def cut_on_no_sep)
qed

section \<open>Text\<close>

text \<open>\<open>%q\<close>: \<open>strconv.Quote\<close> of printable UTF-8 with escapes for the control bytes.\<close>

definition go_quote_char :: "char \<Rightarrow> string" where
  "go_quote_char c =
     (if c = CHR 0x22 \<or> c = CHR 0x5C then [CHR 0x5C, c]
      else if c = CHR 0x07 then [CHR 0x5C, CHR ''a'']
      else if c = CHR 0x08 then [CHR 0x5C, CHR ''b'']
      else if c = CHR 0x0C then [CHR 0x5C, CHR ''f'']
      else if c = CHR 0x0A then [CHR 0x5C, CHR ''n'']
      else if c = CHR 0x0D then [CHR 0x5C, CHR ''r'']
      else if c = CHR 0x09 then [CHR 0x5C, CHR ''t'']
      else if c = CHR 0x0B then [CHR 0x5C, CHR ''v'']
      else if byte c < 32 \<or> byte c = 127
      then [CHR 0x5C, CHR ''x'', hex_digits ! (byte c div 16), hex_digits ! (byte c mod 16)]
      else [c])"

definition go_quote :: "string \<Rightarrow> string" where
  "go_quote s = CHR 0x22 # concat (map go_quote_char s) @ [CHR 0x22]"

definition newline :: string where "newline = [CHR 0x0A]"

definition weekday_abbrev :: "weekday \<Rightarrow> string" where
  "weekday_abbrev d = (case d of Sunday \<Rightarrow> ''Sun'' | Monday \<Rightarrow> ''Mon'' | Tuesday \<Rightarrow> ''Tue'' | Wednesday \<Rightarrow> ''Wed''
     | Thursday \<Rightarrow> ''Thu'' | Friday \<Rightarrow> ''Fri'' | Saturday \<Rightarrow> ''Sat'')"

definition day_text :: "gotime \<Rightarrow> string" where
  "day_text t = weekday_abbrev (weekday_at t) @ '' '' @ format_date t"

section \<open>The plan of a dry run\<close>

definition message_target :: "step \<Rightarrow> string" where
  "message_target s = (if step_verb s = VerbMessage \<and> step_channel s \<noteq> [] then '' -> '' @ step_channel s else [])"

definition wait_for :: "step \<Rightarrow> string" where
  "wait_for s = (if step_verb s = VerbWait \<and> step_for s \<noteq> [] then '' for '' @ step_for s else [])"

definition when_summary :: "when_guard \<Rightarrow> string" where
  "when_summary w =
     (let parts = (if day_of_week w \<noteq> [] then [day_of_week w] else [])
        @ (if 0 < min_attendees w \<and> 0 < max_attendees w
           then [show_int (min_attendees w) @ ''-'' @ show_int (max_attendees w) @ '' attendees'']
           else if 0 < min_attendees w then [show_int (min_attendees w) @ ''+ attendees'']
           else if 0 < max_attendees w then [''up to '' @ show_int (max_attendees w) @ '' attendees''] else [])
      in if parts = [] then [] else '' when '' @ join_with '', '' parts)"

definition branch_summary :: "step \<Rightarrow> string" where
  "branch_summary s =
     join_with '', ''
       ((case map_of (step_on s) ''accepted'' of None \<Rightarrow> [] | Some t \<Rightarrow> [''accepted -> '' @ t])
        @ (case map_of (step_on s) ''declined'' of None \<Rightarrow> [] | Some t \<Rightarrow> [''declined -> '' @ t]))"

definition step_label :: "step \<Rightarrow> string" where
  "step_label s =
     (let v = verb_name (step_verb s) in
      if step_id s \<noteq> [] \<and> step_id s \<noteq> v then step_id s @ '' ('' @ v @ '')'' else v)"

definition person_label :: "person \<Rightarrow> string" where
  "person_label p = (if person_name p \<noteq> [] then person_name p @ '' <'' @ person_email p @ ''>'' else person_email p)"

definition preview_step :: "step \<Rightarrow> string" where
  "preview_step s =
     (if step_verb s = VerbApprove \<and> step_on s \<noteq> []
      then ''  approve, then '' @ branch_summary s @ when_summary (step_when s)
      else ''  '' @ step_label s @ message_target s @ wait_for s @ when_summary (step_when s))"

definition preview_workflow :: "workflow \<Rightarrow> hold \<Rightarrow> string" where
  "preview_workflow k h =
     ''Workflow '' @ go_quote (wf_name k) @ '' (dry run)'' @ newline
     @ ''  create '' @ go_quote (hold_subject h) @ '' as '' @ show_as_name (hold_show_as h) @ '', ''
     @ format_rfc3339 (hold_start h) @ '' -> '' @ format_rfc3339 (hold_end h) @ newline
     @ concat (map (\<lambda>a. ''  invite '' @ person_label (att_person a) @ '' ('' @ role_name (att_role a) @ '')'' @ newline) (hold_attendees h))
     @ concat (map (\<lambda>s. preview_step s @ newline) (tl (wf_steps k)))"

section \<open>Running a workflow from the command line\<close>

text \<open>
  What is outside every command: the builtin and user workflows, the failure of building a provider,
  the local zone and the zones by name.
\<close>

record outside =
  su_builtin :: dir
  su_user :: user_dir
  su_provider :: "string \<Rightarrow> error option"
  su_local :: location
  su_zone :: "string \<Rightarrow> location option"

definition time_location :: "outside \<Rightarrow> string \<Rightarrow> location" where
  "time_location su tz = (case su_zone su tz of None \<Rightarrow> UTC | Some l \<Rightarrow> l)"

text \<open>What \<open>runWorkflowOn\<close> has printed when the hold exists: the plan, or the line on the new hold.\<close>

definition started_output :: "env \<Rightarrow> string \<Rightarrow> workflow \<Rightarrow> run_options \<Rightarrow> world \<Rightarrow> string" where
  "started_output env prov k opt w =
     (case initial_hold env k opt w of
        (Inl e, w) \<Rightarrow> []
      | (Inr h, w) \<Rightarrow>
          (if opt_dry_run opt then preview_workflow k h
           else case prov_create env h w of
             (Inl e, w) \<Rightarrow> []
           | (Inr created, w) \<Rightarrow>
               (case w_save_state env \<lparr>ref_provider = prov, ref_id = hold_id created\<rparr> w of
                  (Some e, w) \<Rightarrow> []
                | (None, w) \<Rightarrow> started_message k created @ newline)))"

type_synonym outcome = "string \<times> error option \<times> world"

definition execute_output :: "outside \<Rightarrow> env \<Rightarrow> workflow \<Rightarrow> run_options \<Rightarrow> world \<Rightarrow> outcome" where
  "execute_output su env k opt w =
     (let name = resolve_provider (e_getenv env) (opt_provider opt);
          out = (if su_provider su name = None then started_output env name k opt w else [])
      in (out, execute_workflow env (su_provider su) k opt w))"

definition command_window :: "outside \<Rightarrow> env \<Rightarrow> string \<Rightarrow> string \<Rightarrow> string \<Rightarrow> world \<Rightarrow> window result \<times> world" where
  "command_window su env start fin phrase w =
     (if (start \<noteq> [] \<and> fin \<noteq> []) \<or> phrase = [] then (resolve_window (su_local su) zero_time start fin phrase, w)
      else let (t, w) = now env w in (resolve_window (su_local su) t start fin phrase, w))"

definition run_flags :: "(string \<times> flag_kind) list" where
  "run_flags = strings [''start'', ''end'', ''subject'', ''body'', ''manager'', ''attendees'', ''provider'', ''tz'']
     @ bools [''watch'', ''dry-run'']"

definition flag_options :: "flags \<Rightarrow> string \<Rightarrow> gotime \<Rightarrow> gotime \<Rightarrow> bool \<Rightarrow> run_options" where
  "flag_options vs subject s f all_day =
     \<lparr>opt_provider = flag_str vs ''provider'', opt_tz = flag_str vs ''tz'', opt_subject = subject,
      opt_body = flag_str vs ''body'', opt_manager = flag_str vs ''manager'', opt_attendees = flag_str vs ''attendees'',
      opt_start = s, opt_end = f, opt_all_day = all_day, opt_watch = flag_set vs ''watch'',
      opt_dry_run = flag_set vs ''dry-run''\<rparr>"

definition run_run :: "outside \<Rightarrow> env \<Rightarrow> string list \<Rightarrow> world \<Rightarrow> outcome" where
  "run_run su env args w =
     (case args of
        [] \<Rightarrow> ([], Some (Errorf ''run: name a workflow to run (see vamoose workflows)'' []), w)
      | name # rest \<Rightarrow>
          (case split_phrase rest of (words, fargs) \<Rightarrow>
             (case parse_flags run_flags [] fargs of
                Inl e \<Rightarrow> ([], Some e, w)
              | Inr (vs, left) \<Rightarrow>
                  (case load (su_builtin su) (su_user su) name of
                     Inl e \<Rightarrow> ([], Some (Errorf ''run'' [e]), w)
                   | Inr k \<Rightarrow>
                       (case command_window su env (flag_str vs ''start'') (flag_str vs ''end'') (command_phrase words left) w of
                          (Inl e, w) \<Rightarrow> ([], Some (Errorf (''run '' @ name) [e]), w)
                        | (Inr (s, f, all_day), w) \<Rightarrow>
                            (let subject = (if flag_str vs ''subject'' = [] then default_subject k else flag_str vs ''subject'')
                             in execute_output su env k (flag_options vs subject s f all_day) w))))))"

definition create_hold :: "outside \<Rightarrow> env \<Rightarrow> run_options \<Rightarrow> world \<Rightarrow> outcome" where
  "create_hold su env opt w =
     (case load (su_builtin su) (su_user su) ''pto'' of
        Inl e \<Rightarrow> ([], Some (Errorf ''load pto workflow'' [e]), w)
      | Inr k \<Rightarrow> execute_output su env k opt w)"

definition request_flags :: "(string \<times> flag_kind) list" where
  "request_flags = strings [''start'', ''end'', ''subject'', ''body'', ''manager'', ''provider'', ''tz''] @ bools [''dry-run'', ''watch'']"

definition run_request :: "outside \<Rightarrow> env \<Rightarrow> string list \<Rightarrow> world \<Rightarrow> outcome" where
  "run_request su env args w =
     (case parse_flags request_flags [] args of
        Inl e \<Rightarrow> ([], Some e, w)
      | Inr (vs, left) \<Rightarrow>
          (if flag_str vs ''subject'' = [] \<or> flag_str vs ''start'' = [] \<or> flag_str vs ''end'' = []
           then ([], Some (Errorf ''request: --start, --end, and --subject are required'' []), w)
           else case parse_window (su_local su) (flag_str vs ''start'') (flag_str vs ''end'') of
             Inl e \<Rightarrow> ([], Some (Errorf ''request'' [e]), w)
           | Inr (s, f, all_day) \<Rightarrow> create_hold su env (flag_options vs (flag_str vs ''subject'') s f all_day) w))"

section \<open>Time off\<close>

definition off_flags :: "(string \<times> flag_kind) list" where
  "off_flags = strings [''start'', ''end'', ''subject'', ''body'', ''manager'', ''provider'', ''tz'', ''half''] @ bools [''watch'', ''dry-run'']"

definition half_line :: "string \<Rightarrow> string \<Rightarrow> gotime \<Rightarrow> string" where
  "half_line phrase half s =
     ''Reading '' @ go_quote phrase @ '' as the '' @ portion_label half @ '' of '' @ day_text s @ '' (half a working day).'' @ newline"

definition day_lines :: "string \<Rightarrow> bool \<Rightarrow> int \<Rightarrow> gotime \<Rightarrow> gotime \<Rightarrow> string" where
  "day_lines phrase no_flags n s f =
     (if no_flags
      then ''Reading '' @ go_quote phrase @ '' as '' @ day_text s @ '' through '' @ day_text (add_days f (-1))
        @ '' ('' @ workday_phrase n @ '').'' @ newline
      else ''That is '' @ workday_phrase n @ ''.'' @ newline)
     @ (if n = 0 then ''Heads up: that window has no working days (all weekend or holidays).'' @ newline else [])"

definition warn_line :: "env \<Rightarrow> gotime \<Rightarrow> gotime \<Rightarrow> world \<Rightarrow> string" where
  "warn_line env s f w =
     (case warn_coverage (e_ledger_path env) (e_getenv env ''VAMOOSE_MAX_TEAM_OFF'') s f (w_ledger w) of
        None \<Rightarrow> []
      | Some (n, limit) \<Rightarrow>
          ''Heads up: '' @ show_int n @ '' already have time off overlapping this window (limit '' @ show_int limit @ '').'' @ newline)"

definition then_create :: "string \<Rightarrow> outcome \<Rightarrow> outcome" where
  "then_create printed r = (case r of (out, rest) \<Rightarrow> (printed @ out, rest))"

definition off_window ::
  "outside \<Rightarrow> env \<Rightarrow> flags \<Rightarrow> string \<Rightarrow> world \<Rightarrow> window result \<times> world" where
  "off_window su env vs phrase w =
     (case command_window su env (flag_str vs ''start'') (flag_str vs ''end'') phrase w of
        (Inl e, w) \<Rightarrow> (Inl (Errorf ''off'' [e]), w)
      | (Inr (s, f, all_day), w) \<Rightarrow>
          (if flag_str vs ''half'' = [] then (Inr (s, f, all_day), w)
           else case apply_half_day s f (time_location su (resolve_time_zone (e_getenv env) (flag_str vs ''tz''))) (flag_str vs ''half'') of
             Inl e \<Rightarrow> (Inl (Errorf ''off'' [e]), w)
           | Inr (s, f) \<Rightarrow> (Inr (s, f, False), w)))"

definition run_off :: "outside \<Rightarrow> env \<Rightarrow> string list \<Rightarrow> world \<Rightarrow> outcome option" where
  "run_off su env args w =
     (case split_phrase args of (words, fargs) \<Rightarrow>
        (case parse_flags off_flags [(''subject'', ''Out of office'')] fargs of
           Inl e \<Rightarrow> Some ([], Some e, w)
         | Inr (vs, left) \<Rightarrow>
             (let phrase = command_phrase words left in
              case off_window su env vs phrase w of
                (Inl e, w) \<Rightarrow> Some ([], Some e, w)
              | (Inr (s, f, all_day), w) \<Rightarrow>
                  (case from_env (e_getenv env) of
                     Inl e \<Rightarrow> Some ([], Some (Errorf ''off'' [e]), w)
                   | Inr wd \<Rightarrow>
                       (let opt = flag_options vs (flag_str vs ''subject'') s f all_day;
                            finish = (\<lambda>out. Some (then_create (out @ warn_line env s f w) (create_hold su env opt w)))
                        in if flag_str vs ''half'' \<noteq> [] then finish (half_line phrase (flag_str vs ''half'') s)
                           else if \<not> all_day then finish []
                           else case count wd s f of
                             None \<Rightarrow> None
                           | Some n \<Rightarrow>
                               finish (day_lines phrase (flag_str vs ''start'' = [] \<and> flag_str vs ''end'' = []) n s f))))))"

section \<open>Events without approval\<close>

definition created_output :: "env \<Rightarrow> hold \<Rightarrow> string \<Rightarrow> (hold \<Rightarrow> string) \<Rightarrow> world \<Rightarrow> outcome" where
  "created_output env h failed printed w =
     (case prov_create env h w of
        (Inl e, w) \<Rightarrow> ([], Some (Errorf failed [e]), w)
      | (Inr created, w) \<Rightarrow> (printed created, None, w))"

definition away_flags :: "(string \<times> flag_kind) list" where
  "away_flags = strings [''start'', ''end'', ''subject'', ''provider'', ''tz'', ''half'']"

definition away_window :: "outside \<Rightarrow> env \<Rightarrow> flags \<Rightarrow> window result" where
  "away_window su env vs =
     (case parse_window (su_local su) (flag_str vs ''start'') (flag_str vs ''end'') of
        Inl e \<Rightarrow> Inl (Errorf ''away'' [e])
      | Inr (s, f, all_day) \<Rightarrow>
          (if flag_str vs ''half'' = [] then Inr (s, f, all_day)
           else case apply_half_day s f (time_location su (resolve_time_zone (e_getenv env) (flag_str vs ''tz''))) (flag_str vs ''half'') of
             Inl e \<Rightarrow> Inl (Errorf ''away'' [e])
           | Inr (s, f) \<Rightarrow> Inr (s, f, False)))"

definition run_away :: "outside \<Rightarrow> env \<Rightarrow> string list \<Rightarrow> world \<Rightarrow> outcome" where
  "run_away su env args w =
     (case parse_flags away_flags [(''subject'', ''Out of office'')] args of
        Inl e \<Rightarrow> ([], Some e, w)
      | Inr (vs, left) \<Rightarrow>
          (if flag_str vs ''start'' = [] \<or> flag_str vs ''end'' = []
           then ([], Some (Errorf ''away: --start and --end are required'' []), w)
           else case away_window su env vs of
             Inl e \<Rightarrow> ([], Some e, w)
           | Inr (s, f, all_day) \<Rightarrow>
               (case su_provider su (resolve_provider (e_getenv env) (flag_str vs ''provider'')) of
                  Some e \<Rightarrow> ([], Some e, w)
                | None \<Rightarrow>
                    created_output env
                      \<lparr>hold_id = [], hold_subject = flag_str vs ''subject'', hold_body = [], hold_start = s, hold_end = f,
                       hold_all_day = all_day, hold_show_as = ShowOOF, hold_attendees = []\<rparr> ''create away event''
                      (\<lambda>h. ''Marked out of office '' @ format_rfc3339 s @ '' to '' @ format_rfc3339 f @ ''.'' @ newline
                         @ ''Event id: '' @ hold_id h @ newline) w)))"

definition event_flags :: "(string \<times> flag_kind) list" where
  "event_flags = strings [''start'', ''end'', ''subject'', ''body'', ''attendees'', ''provider'', ''tz''] @ bools [''free'']"

definition run_event :: "outside \<Rightarrow> env \<Rightarrow> string list \<Rightarrow> world \<Rightarrow> outcome" where
  "run_event su env args w =
     (case parse_flags event_flags [] args of
        Inl e \<Rightarrow> ([], Some e, w)
      | Inr (vs, left) \<Rightarrow>
          (if flag_str vs ''subject'' = [] \<or> flag_str vs ''start'' = [] \<or> flag_str vs ''end'' = []
           then ([], Some (Errorf ''event: --start, --end, and --subject are required'' []), w)
           else case parse_window (su_local su) (flag_str vs ''start'') (flag_str vs ''end'') of
             Inl e \<Rightarrow> ([], Some (Errorf ''event'' [e]), w)
           | Inr (s, f, all_day) \<Rightarrow>
               (case su_provider su (resolve_provider (e_getenv env) (flag_str vs ''provider'')) of
                  Some e \<Rightarrow> ([], Some e, w)
                | None \<Rightarrow>
                    created_output env
                      \<lparr>hold_id = [], hold_subject = flag_str vs ''subject'', hold_body = flag_str vs ''body'', hold_start = s,
                       hold_end = f, hold_all_day = all_day,
                       hold_show_as = (if flag_set vs ''free'' then ShowFree else ShowBusy),
                       hold_attendees = attendees_from_csv (e_address env) (flag_str vs ''attendees'')\<rparr> ''create event''
                      (\<lambda>h. ''Created '' @ go_quote (flag_str vs ''subject'') @ '' '' @ format_rfc3339 s @ '' to '' @ format_rfc3339 f
                         @ ''.'' @ newline @ ''Event id: '' @ hold_id h @ newline) w)))"

section \<open>Commands on a hold\<close>

definition hold_flags :: "(string \<times> flag_kind) list" where
  "hold_flags = strings [''id'', ''provider'', ''tz'']"

text \<open>What \<open>promote\<close> prints is not modelled.\<close>

definition promote_command :: "outside \<Rightarrow> env \<Rightarrow> string list \<Rightarrow> world \<Rightarrow> outcome" where
  "promote_command su env args w =
     (case parse_flags (hold_flags @ bools [''force'']) [] args of
        Inl e \<Rightarrow> ([], Some e, w)
      | Inr (vs, left) \<Rightarrow>
          ([], run_promote env (su_provider su) (flag_str vs ''id'') (flag_str vs ''provider'') (flag_set vs ''force'') w))"

definition cancel_command :: "outside \<Rightarrow> env \<Rightarrow> string list \<Rightarrow> world \<Rightarrow> outcome" where
  "cancel_command su env args w =
     (case parse_flags hold_flags [] args of
        Inl e \<Rightarrow> ([], Some e, w)
      | Inr (vs, left) \<Rightarrow>
          (case run_cancel env (su_provider su) (flag_str vs ''id'') (flag_str vs ''provider'') w of
             (Some e, w') \<Rightarrow> ([], Some e, w')
           | (None, w') \<Rightarrow>
               (case resolve_hold (e_getenv env) (e_state_path env) (flag_str vs ''id'') (flag_str vs ''provider'') (w_state w) of
                  Inl e \<Rightarrow> ([], None, w')
                | Inr ref \<Rightarrow> (''Canceled hold '' @ ref_id ref @ '' and notified attendees.'' @ newline, None, w'))))"

fun report_text :: "bool \<Rightarrow> check_report \<Rightarrow> string" where
  "report_text auto (ApprovedReport who) = ''Approved by '' @ who @ ''.'' @ newline
     @ (if auto then [] else ''Fan out to the team with: vamoose promote'' @ newline)"
| "report_text auto (DeclinedReport who) = ''Declined by '' @ who @ ''.'' @ newline"
| "report_text auto (WaitingReport who r) = ''Waiting on '' @ who @ '' (status: '' @ response_name r @ '').'' @ newline"

definition check_command :: "outside \<Rightarrow> env \<Rightarrow> string list \<Rightarrow> world \<Rightarrow> outcome" where
  "check_command su env args w =
     (case parse_flags (hold_flags @ bools [''promote'']) [] args of
        Inl e \<Rightarrow> ([], Some e, w)
      | Inr (vs, left) \<Rightarrow>
          (case run_check env (su_provider su) (flag_str vs ''id'') (flag_str vs ''provider'') (flag_set vs ''promote'') w of
             (report, err, w) \<Rightarrow>
               ((case report of None \<Rightarrow> [] | Some r \<Rightarrow> report_text (flag_set vs ''promote'') r), err, w)))"

section \<open>Execute\<close>

definition code_ok :: int where "code_ok = 0"
definition code_runtime :: int where "code_runtime = 1"
definition code_usage :: int where "code_usage = 2"

definition exit_code :: "error option \<Rightarrow> int" where
  "exit_code err = (case err of None \<Rightarrow> code_ok | Some e \<Rightarrow> if errors_is e ErrHelp then code_ok else code_runtime)"

type_synonym command = "string list \<Rightarrow> world \<Rightarrow> outcome option"

definition modelled_commands :: "outside \<Rightarrow> env \<Rightarrow> (string \<times> command) list" where
  "modelled_commands su env =
     [(''run'', \<lambda>args w. Some (run_run su env args w)), (''request'', \<lambda>args w. Some (run_request su env args w)),
      (''off'', run_off su env), (''check'', \<lambda>args w. Some (check_command su env args w)),
      (''promote'', \<lambda>args w. Some (promote_command su env args w)),
      (''cancel'', \<lambda>args w. Some (cancel_command su env args w)),
      (''away'', \<lambda>args w. Some (run_away su env args w)), (''event'', \<lambda>args w. Some (run_event su env args w))]"

definition other_commands :: "string list" where
  "other_commands = [''workflows'', ''history'', ''balance'', ''coverage'', ''daemon'', ''service'', ''mcp'', ''slack'', ''app'',
     ''tray'', ''login'', ''whoami'', ''calendars'', ''team'', ''schedule'', ''doctor'']"

text \<open>\<open>others\<close> are the commands modelled elsewhere or not at all; the banner and the version are not text here.\<close>

definition execute :: "outside \<Rightarrow> env \<Rightarrow> (string \<Rightarrow> command) \<Rightarrow> string list \<Rightarrow> world \<Rightarrow> (int \<times> outcome) option" where
  "execute su env others args w =
     (case args of
        [] \<Rightarrow> Some (code_usage, [], None, w)
      | sub # rest \<Rightarrow>
          (let finish = map_option (\<lambda>r. (exit_code (fst (snd r)), r)) in
           case map_of (modelled_commands su env) sub of
             Some c \<Rightarrow> finish (c rest w)
           | None \<Rightarrow>
               (if sub \<in> set other_commands then finish (others sub rest w)
                else if sub \<in> set [''version'', ''-v'', ''--version'', ''help'', ''-h'', ''--help''] then Some (code_ok, [], None, w)
                else Some (code_usage, [], None, w))))"

section \<open>What promote and cancel take from a button\<close>

lemma parse_id: "map_of spec ''id'' = Some Flag_String \<Longrightarrow> parse_flags spec [] [''--id'', h] = Inr ([(''id'', h)], [])"
  using string_flag_takes_next[of spec "''id''" "[]" h "[]"] by simp

lemma promote_button:
  "promote_command su env [''--id'', h] w = ([], run_promote env (su_provider su) h [] False w)"
proof -
  have "map_of (hold_flags @ bools [''force'']) ''id'' = Some Flag_String" by code_simp
  from parse_id[OF this, of h] show ?thesis unfolding promote_command_def by (simp add: flag_str_def flag_set_def)
qed

lemma execute_promote:
  "execute su env others [''promote'', ''--id'', h] w =
     (let r = run_promote env (su_provider su) h [] False w in Some (exit_code (fst r), [], r))"
  by (simp add: execute_def modelled_commands_def promote_button Let_def)

end
