(* ===== verification/Slack_Properties.thy ===== *)
theory Slack_Properties
  imports Slack_Safety Slack_Link Commands Templates Scenario
begin

text \<open>
  What the Slack server guarantees, on its own and together with the commands it runs: which
  subcommands run and for whom, what its signatures bind, how its one-time tokens and stores behave,
  and where a button does less, or more, than it shows. The scenario at the start is the concrete
  server of the witnesses: a workspace with a bot token, a manager known to Slack as \<open>U7\<close>.
\<close>

section \<open>A server at work\<close>

definition demo_env :: slack_env where
  "demo_env =
     \<lparr>se_mac = \<lambda>key text. key @ rev (take 6 text), se_now = \<lambda>n. unix_time 1000,
      se_entropy = \<lambda>n. Some (\<lambda>i. char_of (n + i)),
      se_run = \<lambda>n args vars.
        (if args = [''off'', ''next'', ''week'']
         then (''Hold created and sent to boss@x.com for approval. Hold id: h1'' @ newline, None) else (''ok'', None)),
      se_lookup_email = \<lambda>n tok email. if email = ''boss@x.com'' then Inr ''U7'' else Inl (Errorf ''users_not_found'' []),
      se_exchange_install = \<lambda>n code uri. Inr (''T1'', ''xoxb''), se_auth_url = \<lambda>p state uri. ''https://consent'',
      se_exchange_link = \<lambda>n p code uri. Inr (zero_link\<lparr>ul_provider := p, ul_refresh_token := code\<rparr>),
      se_run_env = \<lambda>n p l. Inr [''VAMOOSE_PROVIDER='' @ p], se_open_view = \<lambda>n tok trig p. None,
      se_write = \<lambda>n. \<lparr>we_mkdir = None, we_entropy = None, we_write = None\<rparr>, se_read = \<lambda>n. None\<rparr>"

definition demo_config :: slack_config where
  "demo_config = \<lparr>sc_secret = ''s3cr3t'', sc_client_id = ''c1'', sc_public_url = ''https://v'', sc_installs = True,
     sc_per_user = False, sc_linkers = [], sc_extra_env = None\<rparr>"

definition plain_file :: "json \<Rightarrow> file_store" where
  "plain_file j = \<lparr>fs_box = None, fs_file = Content (show_json j)\<rparr>"

definition demo_backing :: backing where
  "demo_backing = Files (plain_file (JObj [(''T1'', JStr ''xoxb'')])) \<lparr>fs_box = None, fs_file = Absent\<rparr>"

definition signed_request :: "string \<Rightarrow> form \<Rightarrow> request" where
  "signed_request path f =
     (let body = encode_form f in
      \<lparr>rq_method = ''POST'', rq_path = path, rq_query = [], rq_timestamp = ''1000'',
       rq_signature = request_signature (se_mac demo_env) (sc_secret demo_config) ''1000'' body, rq_body = body\<rparr>)"

definition off_request :: request where
  "off_request = signed_request ''/slack/commands''
     [(''text'', ''off next week''), (''team_id'', ''T1''), (''user_id'', ''U1''), (''response_url'', ''u'')]"

definition demo_approval :: approval where
  "demo_approval = \<lparr>ap_hold = ''h1'', ap_team = ''T1'', ap_user = [], ap_approver = ''U7''\<rparr>"

definition demo_value :: string where
  "demo_value = approval_value (se_mac demo_env) (sc_secret demo_config) demo_approval"

definition click_request :: "string \<Rightarrow> request" where
  "click_request user = signed_request ''/slack/interactivity''
     [(''payload'', show_json (JObj [(''type'', JStr ''block_actions''), (''response_url'', JStr ''u''),
        (''user'', JObj [(''id'', JStr user)]),
        (''actions'', JArr [JObj [(''action_id'', JStr ''vamoose_approve''), (''value'', JStr demo_value)]])]))]"

definition demo_server :: server where
  "demo_server = serve_all demo_env demo_config [Request off_request] (new_server demo_backing)"

lemma demo_button: "button_values (sv_trace demo_server) = [demo_value]"
  by code_simp

lemma demo_presents: "map_option (\<lambda>(i, a, v). (in_user i, a, v)) (presents demo_env demo_config (click_request ''U7'') demo_server)
    = Some (''U7'', ''vamoose_approve'', demo_value)"
  by code_simp

lemma demo_new_effects: "list_ex (\<lambda>e. e = Ran [''promote'', ''--id'', ''h1''] []) (new_effects demo_env demo_config (click_request ''U7'') demo_server)"
  by code_simp

section \<open>What the theory establishes\<close>

lemma new_action:
  assumes "Ran args vars \<in> set (new_effects env cf r s)" and "action_of args"
  shows "\<exists>i action val p t v. presents env cf r s = Some (i, action, val)
     \<and> decode_approval (se_mac env) (sc_secret cf) val = Some p \<and> action_args action (ap_hold p) = Some (args, t, v)
     \<and> (ap_approver p = [] \<or> in_user i = ap_approver p)"
proof -
  let ?e = "Ran args vars"
  have quiet: "\<not> sv_trace (snd (serve env cf r s)) = sv_trace s" using assms(1) by (auto simp: new_effects_def)
  have slash: "\<not> extends (slash_effect env cf) s (snd (serve env cf r s))"
  proof
    assume "extends (slash_effect env cf) s (snd (serve env cf r s))"
    from extends_new[OF this, of ?e] assms(1) obtain sub rest where "args = sub # rest" "allowed_subcommand sub"
      by (auto simp: new_effects_def slash_effect_def)
    then show False using action_not_slash[OF assms(2)] by blast
  qed
  obtain want route where w: "map_of (routes cf) (rq_path r) = Some (want, route)" "method_allowed want (rq_method r)"
    using quiet by (auto simp: serve_def split: option.splits if_splits)
  then have "snd (serve env cf r s) = snd (handle_interactivity env cf r s)"
    using quiet slash handle_command_effects[of env cf s r]
    by (cases route) (simp_all add: serve_def handle_install_trace handle_oauth_callback_trace handle_link_callback_trace)
  then obtain i action val where p: "presents env cf r s = Some (i, action, val)"
    and e: "snd (serve env cf r s) = run_action env cf (in_url i) (in_user i) action val (sv_step s)"
    using handle_interactivity_presents[of env cf r s] quiet by (cases "presents env cf r s") auto
  have "extends (action_ok env cf (in_user i) action val) s (snd (serve env cf r s))"
    unfolding e by (rule extends_from[OF trace_ops(1) run_action_effects])
  from extends_new[OF this, of ?e] assms(1) p show ?thesis by (auto simp: new_effects_def action_ok_def)
qed

text \<open>
  What the server reads is what the run printed: after a run that created a hold for approval, the
  hold id and the approver on the buttons are those of the created hold, whatever is printed below.
\<close>

theorem server_reads_the_created_hold:
  assumes "has_verb k VerbApprove" and "step_verb (step_at k 0) = VerbHold"
    and "hold_id h \<noteq> []" and "\<forall>c \<in> set (hold_id h). \<not> re_space c"
    and "\<forall>c \<in> set (att_email (manager_attendee h)). \<not> re_space c"
    and "CHR ''@'' \<in> set (butlast (tl (att_email (manager_attendee h))))"
  shows "hold_id_in (started_message k h @ newline @ rest) = hold_id h
     \<and> approver_email (started_message k h @ newline @ rest) = Some (att_email (manager_attendee h))"
proof -
  let ?e = "att_email (manager_attendee h)"
  have msg: "started_message k h @ newline @ rest
      = ''Hold created and sent to '' @ ?e @ '' for approval. Hold id: '' @ hold_id h @ (newline @ rest)"
    using assms(1,2) by (simp add: started_message_def)
  have msg2: "started_message k h @ newline @ rest
      = ''Hold created and sent to '' @ ?e @ '' for approval'' @ (''. Hold id: '' @ hold_id h @ newline @ rest)"
    using assms(1,2) by (simp add: started_message_def)
  have "CHR '' '' \<notin> set ?e" using assms(5) by (auto simp: re_space_def)
  moreover have "re_space (hd (newline @ rest))" by (simp add: newline_def re_space_def)
  ultimately have "hold_id_in (started_message k h @ newline @ rest) = hold_id h"
    unfolding msg using assms(3,4) by (intro read_hold_id) auto
  moreover have "approver_email (started_message k h @ newline @ rest) = Some ?e"
    unfolding msg2 by (rule read_approver[OF assms(5,6)])
  ultimately show ?thesis ..
qed

lemma asked_hold_facts:
  "att_email (manager_attendee asked_hold) = ''boss@example.com''" "hold_id asked_hold = ''h1''"
  "has_verb chain VerbApprove" "step_verb (step_at chain 0) = VerbHold"
  by code_simp+

theorem server_reads_the_created_hold_witness:
  "hold_id_in (started_message chain asked_hold @ newline @ ''Watching for approval.'') = hold_id asked_hold
     \<and> approver_email (started_message chain asked_hold @ newline @ ''Watching for approval.'') = Some (att_email (manager_attendee asked_hold))"
  by (rule server_reads_the_created_hold) (simp_all only: asked_hold_facts, simp_all add: re_space_def)

text \<open>
  The message of a run that created a hold for approval, whose id and approver's address are single words.
\<close>

definition started_for :: "workflow \<Rightarrow> hold \<Rightarrow> bool" where
  "started_for k h \<longleftrightarrow> has_verb k VerbApprove \<and> step_verb (step_at k 0) = VerbHold \<and> hold_id h \<noteq> []
     \<and> list_all (\<lambda>c. \<not> re_space c) (hold_id h @ att_email (manager_attendee h))
     \<and> CHR ''@'' \<in> set (butlast (tl (att_email (manager_attendee h))))"

lemma started_read:
  "started_for k h \<Longrightarrow> hold_id_in (started_message k h @ newline @ rest) = hold_id h
     \<and> approver_email (started_message k h @ newline @ rest) = Some (att_email (manager_attendee h))"
  by (rule server_reads_the_created_hold) (auto simp: started_for_def list_all_iff)

text \<open>
  C5. A hold is promoted or canceled only by the approver its command named. From any reachable server, when every
  button value a request presents was put on a button by the server (nobody else can make a signature), a request
  that makes it promote or cancel a hold is a click, and an earlier slash command asked for approval: the id of the
  hold and the address of the approver are what the server read in the output of that one command, and the clicking
  user is the one the address was looked up to. When the output starts with the message of a run that created a
  hold, these are the created hold and its approver. Another output is taken at its word: it can name another
  hold.
\<close>

theorem only_the_approver_acts:
  assumes "s = serve_all env cf xs (new_server b)"
    and "\<And>i action val. presents env cf r s = Some (i, action, val) \<Longrightarrow>
      decode_approval (se_mac env) (sc_secret cf) val \<noteq> None \<Longrightarrow> val \<in> set (button_values (sv_trace s))"
    and "Ran args vars \<in> set (new_effects env cf r s)" and "action_of args"
  shows "\<exists>i action val p t v n sub rest vars0 out email m tok. presents env cf r s = Some (i, action, val)
     \<and> decode_approval (se_mac env) (sc_secret cf) val = Some p \<and> action_args action (ap_hold p) = Some (args, t, v)
     \<and> Ran (sub # rest) vars0 \<in> set (sv_trace s) \<and> allowed_subcommand sub
     \<and> se_run env n (sub # rest) vars0 = (out, None) \<and> asks_approval out
     \<and> hold_id_in out = ap_hold p \<and> approver_email out = Some email
     \<and> se_lookup_email env m tok email = Inr (in_user i) \<and> in_user i \<noteq> []
     \<and> (\<forall>k h below. out = started_message k h @ newline @ below \<and> started_for k h \<longrightarrow>
          ap_hold p = hold_id h \<and> email = att_email (manager_attendee h))"
proof -
  obtain i action val p t v where p: "presents env cf r s = Some (i, action, val)"
    and d: "decode_approval (se_mac env) (sc_secret cf) val = Some p" and a: "action_args action (ap_hold p) = Some (args, t, v)"
    and c: "ap_approver p = [] \<or> in_user i = ap_approver p"
    using new_action[OF assms(3,4)] by blast
  have "val \<in> set (button_values (sv_trace s))" using assms(2)[OF p] d by simp
  then obtain q where q: "val = approval_value (se_mac env) (sc_secret cf) q" "issued env (sv_trace s) q"
    using button_was_issued assms(1) by blast
  have "q = p" using d decode_approval_value[of q "se_mac env" "sc_secret cf"] q by (simp add: issued_def)
  then obtain n sub rest vars0 out email m tok where "in_user i = ap_approver p" "ap_approver p \<noteq> []"
    "Ran (sub # rest) vars0 \<in> set (sv_trace s)" "allowed_subcommand sub" "se_run env n (sub # rest) vars0 = (out, None)"
    "asks_approval out" "hold_id_in out = ap_hold p" "approver_email out = Some email"
    "se_lookup_email env m tok email = Inr (ap_approver p)"
    using q(2) c unfolding issued_def by blast
  moreover from this have "ap_hold p = hold_id h \<and> email = att_email (manager_attendee h)"
    if "out = started_message k h @ newline @ below" "started_for k h" for k h below
    using started_read[OF that(2), of below] that(1) by simp
  ultimately show ?thesis using p d a by metis
qed

theorem only_the_approver_acts_witness:
  "\<exists>out email m tok. hold_id_in out = ''h1'' \<and> approver_email out = Some email \<and> se_lookup_email demo_env m tok email = Inr ''U7''"
proof -
  have pr: "\<exists>i. in_user i = ''U7'' \<and> presents demo_env demo_config (click_request ''U7'') demo_server = Some (i, ''vamoose_approve'', demo_value)"
    using demo_presents by auto
  have "Ran [''promote'', ''--id'', ''h1''] [] \<in> set (new_effects demo_env demo_config (click_request ''U7'') demo_server)"
    using demo_new_effects by (auto simp: list_ex_iff)
  moreover have "action_of [''promote'', ''--id'', ''h1'']" by (simp add: action_of_def)
  moreover have "val \<in> set (button_values (sv_trace demo_server))"
    if "presents demo_env demo_config (click_request ''U7'') demo_server = Some (i, action, val)" for i action val
    using that pr demo_button by auto
  ultimately have "\<exists>i action val p t v n sub rest vars0 out email m tok.
      presents demo_env demo_config (click_request ''U7'') demo_server = Some (i, action, val)
      \<and> decode_approval (se_mac demo_env) (sc_secret demo_config) val = Some p
      \<and> action_args action (ap_hold p) = Some ([''promote'', ''--id'', ''h1''], t, v)
      \<and> Ran (sub # rest) vars0 \<in> set (sv_trace demo_server) \<and> allowed_subcommand sub
      \<and> se_run demo_env n (sub # rest) vars0 = (out, None) \<and> asks_approval out
      \<and> hold_id_in out = ap_hold p \<and> approver_email out = Some email
      \<and> se_lookup_email demo_env m tok email = Inr (in_user i) \<and> in_user i \<noteq> []
      \<and> (\<forall>k h below. out = started_message k h @ newline @ below \<and> started_for k h \<longrightarrow>
           ap_hold p = hold_id h \<and> email = att_email (manager_attendee h))"
    by (intro only_the_approver_acts[OF demo_server_def])
  then obtain i action val p t v out email m tok where
    i: "presents demo_env demo_config (click_request ''U7'') demo_server = Some (i, action, val)" and
    "decode_approval (se_mac demo_env) (sc_secret demo_config) val = Some p" and
    a: "action_args action (ap_hold p) = Some ([''promote'', ''--id'', ''h1''], t, v)" and
    o: "hold_id_in out = ap_hold p" "approver_email out = Some email" "se_lookup_email demo_env m tok email = Inr (in_user i)"
    by (elim exE conjE) (rule that, assumption+)
  have "in_user i = ''U7''" using i pr by auto
  moreover have "ap_hold p = ''h1''" using a by (auto simp: action_args_def split: if_splits)
  ultimately show ?thesis using o by auto
qed

text \<open>
  C23. Whatever is sent to it, the server only ever runs a subcommand that slash commands are allowed,
  the daemon for one round, or promote and cancel of one hold with no further argument.
\<close>

theorem server_runs_only:
  assumes "Ran args vars \<in> set (sv_trace (serve_all env cf xs (new_server b)))"
  shows "allowed_subcommand (hd args) \<or> args = [''daemon'', ''--once'']
     \<or> (\<exists>h. args = [''promote'', ''--id'', h] \<or> args = [''cancel'', ''--id'', h])"
proof -
  obtain pre later where "sv_trace (serve_all env cf xs (new_server b)) = pre @ Ran args vars # later"
    using split_list[OF assms] by blast
  from reached_effect[OF this] show ?thesis by (auto simp: server_effect_def action_of_def)
qed

lemma demo_ran: "list_ex (\<lambda>e. e = Ran [''off'', ''next'', ''week''] []) (sv_trace demo_server)"
  by code_simp

theorem server_runs_only_witness:
  "allowed_subcommand (hd [''off'', ''next'', ''week'']) \<or> [''off'', ''next'', ''week''] = [''daemon'', ''--once'']
     \<or> (\<exists>h. [''off'', ''next'', ''week''] = [''promote'', ''--id'', h] \<or> [''off'', ''next'', ''week''] = [''cancel'', ''--id'', h])"
proof -
  have "Ran [''off'', ''next'', ''week''] [] \<in> set (sv_trace (serve_all demo_env demo_config [Request off_request] (new_server demo_backing)))"
    using demo_ran by (auto simp: list_ex_iff demo_server_def)
  then show ?thesis by (rule server_runs_only)
qed

text \<open>
  A signature made for one purpose does not serve the other, although both use the signing secret:
  what an accepted approval value signs is never a text that a request signature signs.
\<close>

theorem signatures_do_not_mix:
  assumes "decode_approval mac secret val = Some p"
  shows "\<exists>enc. val = enc @ ''.'' @ sign_value mac secret enc \<and> (\<forall>ts body. enc \<noteq> signed_text ts body)"
proof -
  obtain enc sig where c: "cut_on (CHR ''.'') val = (enc, sig, True)" and s: "sig = sign_value mac secret enc"
    and r: "raw_url_decode enc \<noteq> None"
    using assms by (auto simp: decode_approval_def split: prod.splits if_splits option.splits)
  have "enc \<noteq> signed_text ts body" for ts body
  proof
    assume e: "enc = signed_text ts body"
    obtain vs where "b64_values url_alphabet (without_newlines enc) = Some vs"
      using r by (auto simp: raw_url_decode_def split: option.splits)
    moreover have "CHR '':'' \<in> set (without_newlines enc)" by (simp add: e signed_text_def without_newlines_def)
    ultimately have "CHR '':'' \<in> set url_alphabet" using b64_values_alphabet by blast
    then show False using url_alphabet_facts(6) by blast
  qed
  then show ?thesis using cut_on_found[OF c] s by auto
qed

theorem signatures_do_not_mix_witness:
  "\<exists>enc. demo_value = enc @ ''.'' @ sign_value (se_mac demo_env) (sc_secret demo_config) enc
     \<and> (\<forall>ts body. enc \<noteq> signed_text ts body)"
proof -
  have "decode_approval (se_mac demo_env) (sc_secret demo_config) demo_value = Some demo_approval"
    unfolding demo_value_def by (rule decode_approval_value) (simp add: demo_approval_def)
  then show ?thesis by (rule signatures_do_not_mix)
qed

text \<open>
  A request is accepted exactly when its timestamp is within five minutes of now and its signature
  is the one of that timestamp and its first megabyte, which is what the handlers then read.
\<close>

theorem verify_accepts_signed:
  "verify mac secret t r = Inr body \<longleftrightarrow>
     body = limit_body (rq_body r) \<and> rq_signature r = request_signature mac secret (rq_timestamp r) body
     \<and> (\<exists>secs. parse_int64 (rq_timestamp r) = Some secs \<and> \<bar>t_ns t - secs * second\<bar> \<le> max_skew)"
proof -
  have sat: "- max_skew \<le> saturate d \<and> saturate d \<le> max_skew \<longleftrightarrow> \<bar>d\<bar> \<le> max_skew" for d
    by (auto simp: saturate_def max_duration_def min_duration_def)
  show ?thesis
  proof (cases "parse_int64 (rq_timestamp r)")
    case (Some secs)
    let ?d = "t_ns t - secs * second"
    have drift: "time_sub t (unix_time secs) = saturate ?d" by (simp add: time_sub_def unix_time_def)
    have "\<not> (saturate ?d < - max_skew \<or> max_skew < saturate ?d) \<longleftrightarrow> \<bar>?d\<bar> \<le> max_skew" using sat[of ?d] by linarith
    then show ?thesis unfolding verify_def Let_def Some option.case drift by auto
  qed (simp add: verify_def Let_def)
qed

text \<open>
  Every list of arguments has a command text: the text that quotes each byte is split into exactly
  those arguments, whatever quotes, spaces or empty strings they hold.
\<close>

theorem command_text_round_trip: "tokenize (command_text args) = Inr args"
  using tokenize_command_loop[of "[]" args] by (simp add: tokenize_def)

text \<open>
  A link token works once. In every history of the link store, an accepted callback was preceded by
  the issue of its token for the same workspace, user and provider, less than ten minutes before by the
  clock, and the token was not presented in between.
\<close>

theorem link_token_spent_once:
  assumes "token_history pending_link spend_link xs Map.empty = (pre @ (Consume t tok, Consumed (Some v)) # later, s)"
  shows "\<exists>before_issue ent tr t0 between. pre = before_issue @ (Issue ent tr t0 v, Issued tok) # between
     \<and> before t (time_add t0 state_ttl) \<and> \<not> list_ex (consumes tok) between"
proof -
  have "link_pending Map.empty tok = None" for tok by (simp add: link_pending_def)
  from linking.spent_was_issued[OF this assms] show ?thesis by (fastforce simp: issued_for_def)
qed

definition demo_entropy :: "nat \<Rightarrow> entropy" where
  "demo_entropy k = Some (\<lambda>i. char_of (k + i))"

definition demo_history :: "(string \<times> string \<times> string) token_op list" where
  "demo_history = [Issue (demo_entropy 1) (unix_time 0) (unix_time 0) (''T1'', ''U1'', ''google''),
     Consume (unix_time 60) (fresh_token (demo_entropy 1))]"

lemma demo_link_history:
  "token_history pending_link spend_link demo_history Map.empty =
     ([(Issue (demo_entropy 1) (unix_time 0) (unix_time 0) (''T1'', ''U1'', ''google''), Issued (fresh_token (demo_entropy 1)))]
        @ (Consume (unix_time 60) (fresh_token (demo_entropy 1)), Consumed (Some (''T1'', ''U1'', ''google''))) # [],
      snd (token_history pending_link spend_link demo_history Map.empty))"
proof -
  have "random_bytes (demo_entropy 1) 16 = Inr (map (\<lambda>i. char_of (1 + i)) [0..<16])"
    by (simp add: random_bytes_def demo_entropy_def)
  moreover have "hex_encode (map (\<lambda>i. char_of (1 + i)) [0..<16]) \<noteq> []" by simp
  ultimately show ?thesis
    by (simp add: demo_history_def pending_link_def link_issue_def fresh_token_def spend_link_def link_consume_def
        before_def time_add_def unix_time_def link_value_def)
qed

theorem link_token_spent_once_witness:
  "\<exists>before_issue ent tr t0 between.
     [(Issue (demo_entropy 1) (unix_time 0) (unix_time 0) (''T1'', ''U1'', ''google''), Issued (fresh_token (demo_entropy 1)))]
       = before_issue @ (Issue ent tr t0 (''T1'', ''U1'', ''google''), Issued (fresh_token (demo_entropy 1))) # between
     \<and> before (unix_time 60) (time_add t0 state_ttl) \<and> \<not> list_ex (consumes (fresh_token (demo_entropy 1))) between"
  by (rule link_token_spent_once[OF demo_link_history])

text \<open>
  C35. An install link that was issued can be used until it expires: whatever else the store is asked in
  between, as long as nobody presents the token, the random source does not repeat it and no reaping
  reads a clock past its expiry, its callback is accepted.
\<close>

theorem install_token_can_be_used:
  assumes "fresh_token ent \<noteq> []" and "list_all (leaves (fresh_token ent) (time_add t state_ttl)) ops"
    and "before t' (time_add t state_ttl)"
  shows "fst (state_consume t' (fresh_token ent)
     (snd (token_history install_issue install_consume ops (snd (state_issue ent tr t s))))) = True"
  using install.issued_can_be_spent[OF assms, of tr "()" s]
  by (auto simp: install_consume_def install_issue_def split: prod.splits if_splits)

theorem install_token_can_be_used_witness:
  "fst (state_consume (unix_time 60) (fresh_token (demo_entropy 1))
     (snd (token_history install_issue install_consume [Consume (unix_time 30) ''guess'']
        (snd (state_issue (demo_entropy 1) (unix_time 0) (unix_time 0) Map.empty))))) = True"
proof (rule install_token_can_be_used)
  show "fresh_token (demo_entropy 1) \<noteq> []" by (simp add: fresh_token_def random_bytes_def demo_entropy_def)
  have "fresh_token (demo_entropy 1) \<noteq> ''guess''" by code_simp
  then show "list_all (leaves (fresh_token (demo_entropy 1)) (time_add (unix_time 0) state_ttl)) [Consume (unix_time 30) ''guess'']"
    by (simp add: leaves_def)
qed (simp add: before_def time_add_def unix_time_def)

section \<open>Stores\<close>

fun backing_usable :: "backing \<Rightarrow> bool" where
  "backing_usable (Files tf lf) \<longleftrightarrow> file_usable tf \<and> file_usable lf"
| "backing_usable (Database d) \<longleftrightarrow> db_usable d"

lemma save_token_fails: "save_token e k v s = (Some x, s') \<Longrightarrow> s' = s"
proof (cases s)
  case (Files tf lf)
  then show "save_token e k v s = (Some x, s') \<Longrightarrow> s' = s"
    using token_file.save_fail[of e k v tf] by (cases "token_file_save e k v tf") auto
next
  case (Database d)
  then show "save_token e k v s = (Some x, s') \<Longrightarrow> s' = s"
    using token_bolt.save_fail[of "tx_of e" k v d] by (cases "token_bolt_save (tx_of e) k v d") auto
qed

lemma save_token_usable: "backing_usable s \<Longrightarrow> save_token e k v s = (None, s') \<Longrightarrow> backing_usable s'"
proof (cases s)
  case (Files tf lf)
  then show "backing_usable s \<Longrightarrow> save_token e k v s = (None, s') \<Longrightarrow> backing_usable s'"
    using token_file.save_usable[of tf e k v] by (cases "token_file_save e k v tf") auto
next
  case (Database d)
  then show "backing_usable s \<Longrightarrow> save_token e k v s = (None, s') \<Longrightarrow> backing_usable s'"
    using token_bolt.save_usable[of d "tx_of e" k v] by (cases "token_bolt_save (tx_of e) k v d") auto
qed

interpretation tokens: value_store save_token "get_token None" backing_usable
proof
  show "save_token e k v s = (Some x, s') \<Longrightarrow> s' = s" for e k v s x s'
    by (rule save_token_fails)
  show "backing_usable s \<Longrightarrow> save_token e k v s = (None, s') \<Longrightarrow> backing_usable s'" for e k v s s'
    by (rule save_token_usable)
  show "backing_usable s \<Longrightarrow> save_token e k v s = (None, s') \<Longrightarrow>
      get_token None l s' = (if l = k then Inr v else get_token None l s)" for e k v s s' l
  proof (cases s)
    case (Files tf lf)
    then show "backing_usable s \<Longrightarrow> save_token e k v s = (None, s') \<Longrightarrow> ?thesis"
      using token_file.look_save[of tf e k v] by (cases "token_file_save e k v tf") auto
  next
    case (Database d)
    then show "backing_usable s \<Longrightarrow> save_token e k v s = (None, s') \<Longrightarrow> ?thesis"
      using token_bolt.look_save[of d "tx_of e" k v] by (cases "token_bolt_save (tx_of e) k v d") auto
  qed
qed

text \<open>
  The bot token of a workspace is the last one that was saved for it, over any sequence of installs
  of which some failed, whether the tokens are in a plain file, in a sealed one or in the database.
\<close>

theorem workspace_token_is_last_saved:
  assumes "backing_usable b"
  shows "get_token None team (save_all save_token ws b) =
     (case find (\<lambda>(k, v). k = team) (rev (saved save_token ws b)) of
        Some (k, tok) \<Rightarrow> Inr tok | None \<Rightarrow> get_token None team b)"
  by (rule tokens.last_saved_wins[OF assms])

definition toy_aead :: aead where
  "toy_aead = \<lparr>nonce_size = 1, gcm_seal = \<lambda>n p. n @ rev p, gcm_open = \<lambda>n c. if has_prefix c n then Some (rev (drop 1 c)) else None\<rparr>"

definition sealed_backing :: backing where
  "sealed_backing = Database \<lparr>db_box = Some toy_aead, db_buckets = []\<rparr>"

definition demo_write :: write_env where
  "demo_write = \<lparr>we_mkdir = None, we_entropy = demo_entropy 7, we_write = None\<rparr>"

lemma toy_aead_opens: "opens_sealed toy_aead"
  by (auto simp: opens_sealed_def toy_aead_def)

theorem workspace_token_is_last_saved_witness:
  "get_token None ''T1'' (save_all save_token
     [(demo_write, ''T1'', ''old''), (demo_write, ''T2'', ''x''), (demo_write, ''T1'', ''new'')] sealed_backing) = Inr ''new''"
proof -
  have u: "backing_usable sealed_backing"
    using toy_aead_opens by (simp add: sealed_backing_def db_usable_def box_ok_def)
  have fnd: "find (\<lambda>(k, v). k = ''T1'') (rev (saved save_token
     [(demo_write, ''T1'', ''old''), (demo_write, ''T2'', ''x''), (demo_write, ''T1'', ''new'')] sealed_backing)) = Some (''T1'', ''new'')"
    by code_simp
  show ?thesis unfolding workspace_token_is_last_saved[OF u] fnd by simp
qed

text \<open>
  Linking a calendar changes the link of that user of that workspace and of nobody else, in either
  kind of store, as long as workspace ids hold no colon, which the keys use as a separator.
\<close>

lemma link_key_inj: "CHR '':'' \<notin> set t \<Longrightarrow> CHR '':'' \<notin> set t' \<Longrightarrow> link_key t u = link_key t' u' \<longleftrightarrow> t = t' \<and> u = u'"
proof -
  assume n: "CHR '':'' \<notin> set t" "CHR '':'' \<notin> set t'"
  have "cut_on (CHR '':'') (link_key t u) = (t, u, True)" "cut_on (CHR '':'') (link_key t' u') = (t', u', True)"
    using n by (simp_all add: link_key_def)
  then show ?thesis by (metis prod.inject)
qed

theorem linking_is_per_user:
  assumes "backing_usable b" and "save_link we team user l b = (None, b')"
    and "CHR '':'' \<notin> set team" and "CHR '':'' \<notin> set team'"
  shows "get_link None team' user' b' = (if team' = team \<and> user' = user then Inr l else get_link None team' user' b)"
proof (cases b)
  case (Files tf lf)
  then show ?thesis
    using assms link_file.look_save[of lf we "link_key team user" l] link_key_inj[OF assms(4,3)]
    by (cases "link_file_save we (link_key team user) l lf") auto
next
  case (Database d)
  then show ?thesis
    using assms link_bolt.look_save[of d "tx_of we" "link_key team user" l] link_key_inj[OF assms(4,3)]
    by (cases "link_bolt_save (tx_of we) (link_key team user) l d") auto
qed

theorem linking_is_per_user_witness:
  "get_link None ''T1'' ''U2'' (snd (save_link demo_write ''T1'' ''U1'' zero_link sealed_backing)) = Inl ErrNotLinked"
proof -
  have u: "backing_usable sealed_backing"
    using toy_aead_opens by (simp add: sealed_backing_def db_usable_def box_ok_def)
  have ok: "fst (save_link demo_write ''T1'' ''U1'' zero_link sealed_backing) = None" by code_simp
  have none: "get_link None ''T1'' ''U2'' sealed_backing = Inl ErrNotLinked" by code_simp
  from ok have "save_link demo_write ''T1'' ''U1'' zero_link sealed_backing
      = (None, snd (save_link demo_write ''T1'' ''U1'' zero_link sealed_backing))" by (metis prod.collapse)
  from linking_is_per_user[OF u this, of "''T1''" "''U2''"] none show ?thesis by simp
qed

text \<open>
  A key made by GenerateKey is accepted as VAMOOSE_SECRET_KEY, and what is sealed under it opens to
  itself, given that the cipher of every key opens what it sealed.
\<close>

theorem generated_key_seals_and_opens:
  assumes "\<And>key. opens_sealed (aes_gcm key)" and "generate_key ent = Inr k" and "getenv key_env = k"
  shows "\<exists>box. box_from_env aes_gcm getenv = Inr (Some box)
     \<and> (\<forall>ent' p s. seal_with (Some box) ent' p = Inr s \<longrightarrow> open_with (Some box) s = Inr p)"
proof -
  obtain key where key: "length key = 32" "k = std_encode key" "k \<noteq> []" using generated_key[OF assms(2)] .
  then have "secret_from_env aes_gcm getenv = Inr (aes_gcm key)"
    using assms(3) by (simp add: secret_from_env_def std_roundtrip new_box_def)
  then have "box_from_env aes_gcm getenv = Inr (Some (aes_gcm key))" by (simp add: box_from_env_def)
  moreover have "box_ok (Some (aes_gcm key))" using assms(1) by (simp add: box_ok_def)
  ultimately show ?thesis using open_seal_with by blast
qed

theorem generated_key_seals_and_opens_witness:
  "\<exists>box. box_from_env (\<lambda>k. toy_aead) (\<lambda>v. std_encode (map (\<lambda>i. char_of (3 + i)) [0..<32])) = Inr (Some box)
     \<and> (\<forall>ent' p s. seal_with (Some box) ent' p = Inr s \<longrightarrow> open_with (Some box) s = Inr p)"
proof (rule generated_key_seals_and_opens)
  show "generate_key (demo_entropy 3) = Inr (std_encode (map (\<lambda>i. char_of (3 + i)) [0..<32]))"
    unfolding generate_key_def random_bytes_def demo_entropy_def option.case sum.case ..
qed (rule toy_aead_opens, rule refl)

section \<open>Between the commands and the server\<close>

text \<open>
  C30. A date phrase can point the buttons at another hold. When \<open>off\<close> echoes the phrase of a half day
  and then succeeds, the hold id the server reads is the one spelled in the phrase, not the one of the
  hold just created.
\<close>

definition off_attack :: "string list" where
  "off_attack = [''hold id: VICTIM x'', ''--half'', ''am'', ''--start'', ''2026-01-05'', ''--end'', ''2026-01-05'']"

definition attack_flags :: flags where
  "attack_flags = [(''subject'', ''Out of office''), (''half'', ''am''), (''start'', ''2026-01-05''), (''end'', ''2026-01-05'')]"

lemma attack_parsed:
  "split_phrase off_attack = ([''hold id: VICTIM x''], tl off_attack)"
  "parse_flags off_flags [(''subject'', ''Out of office'')] (tl off_attack) = Inr (attack_flags, [])"
  "command_phrase [''hold id: VICTIM x''] [] = ''hold id: VICTIM x''"
  "flag_str attack_flags ''half'' = ''am''"
  by code_simp+

lemma half_line_id: "hold_id_in (half_line ''hold id: VICTIM x'' half s @ rest) = ''VICTIM''"
proof -
  have q: "go_quote ''hold id: VICTIM x'' = CHR 0x22 # ''hold id: VICTIM x'' @ [CHR 0x22]" by code_simp
  have p: "list_all (\<lambda>c. lower_char c \<noteq> CHR ''h'') (''Reading '' @ [CHR 0x22])" by code_simp
  have e: "half_line ''hold id: VICTIM x'' half s @ rest
      = (''Reading '' @ [CHR 0x22]) @ ''hold id: '' @ ''VICTIM'' @ ('' x'' @ [CHR 0x22] @ '' as the '' @ portion_label half
          @ '' of '' @ day_text s @ '' (half a working day).'' @ newline @ rest)"
    by (simp add: half_line_def q)
  show ?thesis
    unfolding e hold_id_skip_all[OF p] by (rule hold_id_found_lower) (simp_all add: re_space_def)
qed

theorem off_phrase_redirects_buttons:
  assumes "run_off su env off_attack w = Some (out, None, w')"
  shows "hold_id_in out = ''VICTIM''"
proof -
  have "\<exists>s rest. out = half_line ''hold id: VICTIM x'' ''am'' s @ rest"
    using assms unfolding run_off_def attack_parsed prod.case sum.case Let_def
    by (auto simp: then_create_def split: prod.splits sum.splits)
  then show ?thesis using half_line_id by auto
qed

definition demo_outside :: outside where
  "demo_outside = \<lparr>su_builtin = builtin_dir, su_user = NoUserDir, su_provider = \<lambda>n. None, su_local = UTC, su_zone = \<lambda>z. Some UTC\<rparr>"

lemma attack_runs:
  "case run_off demo_outside quiet_env off_attack empty_world of
     Some (out, None, w') \<Rightarrow> load_state None (w_state w') = Inr \<lparr>ref_provider = ''graph'', ref_id = ''h1''\<rparr> | _ \<Rightarrow> False"
  by code_simp

theorem off_phrase_redirects_buttons_witness:
  "\<exists>out w'. run_off demo_outside quiet_env off_attack empty_world = Some (out, None, w')
     \<and> load_state None (w_state w') = Inr \<lparr>ref_provider = ''graph'', ref_id = ''h1''\<rparr> \<and> hold_id_in out = ''VICTIM''"
proof -
  obtain out w' where r: "run_off demo_outside quiet_env off_attack empty_world = Some (out, None, w')"
    "load_state None (w_state w') = Inr \<lparr>ref_provider = ''graph'', ref_id = ''h1''\<rparr>"
    using attack_runs by (auto split: option.splits)
  with off_phrase_redirects_buttons[OF r(1)] show ?thesis by blast
qed

text \<open>
  The Approve button does not approve. What it runs, promote of the hold, fails and changes
  nothing outside unless the calendar already reports that the approver accepted the invitation, which
  some calendars never do; it does not record the click as an approval.
\<close>

theorem approve_button_needs_calendar_answer:
  assumes "action_args ''vamoose_approve'' hid = Some (args, d, v)" and "hid \<noteq> []"
    and "su_provider su (resolve_provider (e_getenv env) []) = None"
    and "e_get env (w_tick w) hid = Inr h" and "att_response (manager_attendee h) \<noteq> ResponseAccepted"
  shows "\<exists>e w'. execute su env others args w = Some (code_runtime, [], Some e, w') \<and> w_trace w' = w_trace w"
proof -
  have args: "args = [''promote'', ''--id'', hid]" using assms(1) by (simp add: action_args_def)
  have "resolve_hold (e_getenv env) (e_state_path env) hid [] (w_state w)
      = Inr \<lparr>ref_provider = resolve_provider (e_getenv env) [], ref_id = hid\<rparr>"
    using assms(2) by (simp add: resolve_hold_def)
  then have "run_promote env (su_provider su) hid [] False w
      = (Some (Errorf ''not approved yet; use --force to override'' []), tick w)"
    using assms(3-5) by (simp add: run_promote_def prov_get_def)
  then show ?thesis by (simp add: args execute_promote exit_code_def code_runtime_def)
qed

theorem approve_button_needs_calendar_answer_witness:
  "\<exists>e w'. execute demo_outside (quiet_env\<lparr>e_get := \<lambda>n i. Inr (answered_hold ResponseNone)\<rparr>) (\<lambda>n a w. None)
     [''promote'', ''--id'', ''h1''] empty_world = Some (code_runtime, [], Some e, w') \<and> w_trace w' = w_trace empty_world"
proof (rule approve_button_needs_calendar_answer)
  show "action_args ''vamoose_approve'' ''h1'' = Some ([''promote'', ''--id'', ''h1''], ''Approved'', ''approve'')"
    by (simp add: action_args_def)
  have "att_response (manager_attendee (answered_hold ResponseNone)) = ResponseNone" by code_simp
  then show "att_response (manager_attendee (answered_hold ResponseNone)) \<noteq> ResponseAccepted" by simp
qed (simp_all add: demo_outside_def)

text \<open>
  An approval that belongs to a linked user runs as the server when that user's calendar cannot be
  reached any more: the subprocess gets no credentials of the user, and inherits the server's own.
\<close>

theorem unlinked_owner_acts_as_server:
  assumes "decode_approval (se_mac env) (sc_secret cf) val = Some p" and "clicker = ap_approver p"
    and "action_args action (ap_hold p) = Some (args, d, v)" and "ap_user p \<noteq> []" and "sc_per_user cf"
    and "get_link (se_read env (sv_tick s)) (ap_team p) (ap_user p) (sv_backing s) = Inl e"
  shows "\<exists>vars. Ran args vars \<in> set (sv_trace (run_action env cf url clicker action val s)) \<and> merge_env base vars = base"
proof -
  have n: "\<not> (ap_approver p \<noteq> [] \<and> clicker \<noteq> ap_approver p)" using assms(2) by simp
  have u: "user_env env cf (ap_team p) (ap_user p) (inc mx_actions s) = (Inl e, sv_step (inc mx_actions s))"
    using assms(6) by (simp add: user_env_def inc_def)
  have c: "ap_user p \<noteq> [] \<and> sc_per_user cf" using assms(4,5) by simp
  have posted: "Ran args [] \<in> set (sv_trace t) \<Longrightarrow> Ran args [] \<in> set (sv_trace (post url m t))" for m t
    by (simp add: post_def)
  have "Ran args [] \<in> set (sv_trace (run_action env cf url clicker action val s))"
    unfolding run_action_def assms(1) option.case if_not_P[OF n] Let_def assms(3) prod.case if_P[OF c] u sum.case run_sub_def
    by (cases "se_run env (sv_tick (sv_step (inc mx_actions s))) args []"; cases "snd (se_run env (sv_tick (sv_step (inc mx_actions s))) args [])")
      (simp_all add: posted)
  then show ?thesis by (intro exI[of _ "[]"]) (simp add: merge_env_def)
qed

theorem unlinked_owner_acts_as_server_witness:
  "\<exists>vars. Ran [''cancel'', ''--id'', ''h1''] vars \<in> set (sv_trace (run_action demo_env (demo_config\<lparr>sc_per_user := True\<rparr>) ''u'' ''U7''
      ''vamoose_decline'' (approval_value (se_mac demo_env) (sc_secret demo_config) (demo_approval\<lparr>ap_user := ''U1''\<rparr>))
      (new_server demo_backing))) \<and> merge_env [''VAMOOSE_GRAPH_ACCESS_TOKEN=server''] vars = [''VAMOOSE_GRAPH_ACCESS_TOKEN=server'']"
proof (rule unlinked_owner_acts_as_server)
  show "decode_approval (se_mac demo_env) (sc_secret (demo_config\<lparr>sc_per_user := True\<rparr>))
      (approval_value (se_mac demo_env) (sc_secret demo_config) (demo_approval\<lparr>ap_user := ''U1''\<rparr>)) = Some (demo_approval\<lparr>ap_user := ''U1''\<rparr>)"
    using decode_approval_value[of "demo_approval\<lparr>ap_user := ''U1''\<rparr>"] by (simp add: demo_approval_def)
  show "get_link (se_read demo_env (sv_tick (new_server demo_backing))) (ap_team (demo_approval\<lparr>ap_user := ''U1''\<rparr>))
      (ap_user (demo_approval\<lparr>ap_user := ''U1''\<rparr>)) (sv_backing (new_server demo_backing)) = Inl ErrNotLinked"
    by code_simp
qed (simp_all add: demo_approval_def action_args_def)

text \<open>
  A command of a linked user never sees the server's own sign-in: for each variable that carries a
  provider or a credential of a user, the subprocess reads what the link gives, not what the server
  was started with.
\<close>

theorem linked_command_has_own_credentials:
  assumes "linker_run_env refresh provider l = Inr vars" and "k \<in> set per_user_env_keys"
  shows "child_env (merge_env base (vars @ extra)) k = child_env (vars @ extra) k"
proof (rule merged_credentials[OF _ assms(2)])
  show "vars @ extra \<noteq> []"
    using assms(1) by (auto simp: linker_run_env_def google_run_env_def graph_run_env_def icloud_run_env_def
        split: if_splits sum.splits)
qed

theorem linked_command_has_own_credentials_witness:
  "child_env (merge_env [''VAMOOSE_GRAPH_ACCESS_TOKEN=server'', ''PATH=/bin'']
     ([''VAMOOSE_PROVIDER=google'', ''VAMOOSE_GOOGLE_ACCESS_TOKEN=t''] @ [])) ''VAMOOSE_GRAPH_ACCESS_TOKEN''
   = child_env ([''VAMOOSE_PROVIDER=google'', ''VAMOOSE_GOOGLE_ACCESS_TOKEN=t''] @ []) ''VAMOOSE_GRAPH_ACCESS_TOKEN''"
proof (rule linked_command_has_own_credentials)
  show "linker_run_env (\<lambda>p t. Inr t) ''google'' (zero_link\<lparr>ul_refresh_token := ''t''\<rparr>)
      = Inr [''VAMOOSE_PROVIDER=google'', ''VAMOOSE_GOOGLE_ACCESS_TOKEN=t'']"
    by (simp add: linker_run_env_def google_run_env_def)
  show "''VAMOOSE_GRAPH_ACCESS_TOKEN'' \<in> set per_user_env_keys" by (simp add: per_user_env_keys_def)
qed

text \<open>The account of a generic CalDAV server is not among those variables, so a linked user reaches it by \<open>--provider caldav\<close>.\<close>

lemma linked_command_keeps_caldav_account:
  assumes "child_env vars ''VAMOOSE_CALDAV_PASSWORD'' = None"
  shows "child_env (merge_env base vars) ''VAMOOSE_CALDAV_PASSWORD'' = child_env base ''VAMOOSE_CALDAV_PASSWORD''"
proof (rule merged_others[OF _ _ assms])
  have "list_all (\<lambda>u. \<not> has_prefix (''VAMOOSE_CALDAV_PASSWORD'' @ ''='') (u @ ''='')) per_user_env_keys" by code_simp
  then show "u \<in> set per_user_env_keys \<Longrightarrow> \<not> has_prefix (''VAMOOSE_CALDAV_PASSWORD'' @ ''='') (u @ ''='')" for u
    by (simp add: list_all_iff)
qed simp

end
