(* ===== verification/Go_Http.thy ===== *)
theory Go_Http
  imports Vamoose_Prelude Go_Json Go_Url
begin

text \<open>
  One exchange of \<open>net/http\<close> as the clients of the program use it: a request that is built and sent, a
  response whose body is read to the end. The outside answers a request with a response or an
  error. Path segments are escaped as by \<open>url.PathEscape\<close>.
\<close>

section \<open>Requests\<close>

record http_request =
  hq_method :: string
  hq_url :: string
  hq_headers :: "(string \<times> string) list"
  hq_body :: string

record http_response =
  hs_status :: int
  hs_body :: string
  hs_location :: string

type_synonym http_call = "http_request \<Rightarrow> http_response result"

definition ok_status :: "int \<Rightarrow> bool" where
  "ok_status s \<longleftrightarrow> 200 \<le> s \<and> s < 300"

text \<open>How much of a response the HR and webhook clients read.\<close>

definition max_resp :: int where "max_resp = 2 ^ 16"

definition limit_resp :: "string \<Rightarrow> string" where
  "limit_resp b = (if int (length b) \<le> max_resp then b else take (nat max_resp) b)"

text \<open>\<open>json.Unmarshal\<close> of a text by a decoder of values.\<close>

definition unmarshal :: "(json \<Rightarrow> 'a option) \<Rightarrow> string \<Rightarrow> 'a result" where
  "unmarshal dec t =
     (case scan_json t of
        Json j \<Rightarrow> (case dec j of None \<Rightarrow> Inl (Errorf ''json: cannot unmarshal'' []) | Some x \<Rightarrow> Inr x)
      | _ \<Rightarrow> Inl (Errorf ''invalid JSON'' []))"

lemma unmarshal_show: "plain_json j \<Longrightarrow> unmarshal dec (show_json j) =
    (case dec j of None \<Rightarrow> Inl (Errorf ''json: cannot unmarshal'' []) | Some x \<Rightarrow> Inr x)"
  by (simp add: unmarshal_def scan_show_json)

text \<open>
  Members left out by \<open>omitempty\<close>, and the decoding of nested objects, pointers to them and lists. A
  nested object keeps what an earlier occurrence of its key set; a list is replaced.
\<close>

definition omit_none :: "string \<Rightarrow> ('a \<Rightarrow> json) \<Rightarrow> 'a option \<Rightarrow> (string \<times> json) list" where
  "omit_none k f v = (case v of None \<Rightarrow> [] | Some x \<Rightarrow> [(k, f x)])"

definition omit_false :: "string \<Rightarrow> bool \<Rightarrow> (string \<times> json) list" where
  "omit_false k b = (if b then [(k, JBool True)] else [])"

definition omit_nil :: "string \<Rightarrow> ('a \<Rightarrow> json) \<Rightarrow> 'a list \<Rightarrow> (string \<times> json) list" where
  "omit_nil k f xs = (if xs = [] then [] else [(k, JArr (map f xs))])"

fun in_object :: "('r \<Rightarrow> string \<Rightarrow> json \<Rightarrow> 'r option) \<Rightarrow> 'r \<Rightarrow> json \<Rightarrow> 'r option" where
  "in_object f r (JObj kvs) = fold_fields f r kvs"
| "in_object f r JNull = Some r"
| "in_object f r _ = None"

fun in_pointer :: "('r \<Rightarrow> string \<Rightarrow> json \<Rightarrow> 'r option) \<Rightarrow> 'r \<Rightarrow> 'r option \<Rightarrow> json \<Rightarrow> 'r option option" where
  "in_pointer f zero p JNull = Some None"
| "in_pointer f zero p j = map_option Some (in_object f (case p of None \<Rightarrow> zero | Some r \<Rightarrow> r) j)"

fun in_list :: "(json \<Rightarrow> 'r option) \<Rightarrow> json \<Rightarrow> 'r list option" where
  "in_list f (JArr js) = those (map f js)"
| "in_list f JNull = Some []"
| "in_list f _ = None"

text \<open>A decoder whose error is ignored: a member of the wrong type is skipped.\<close>

definition keep_on_fail :: "('r \<Rightarrow> string \<Rightarrow> json \<Rightarrow> 'r option) \<Rightarrow> 'r \<Rightarrow> string \<Rightarrow> json \<Rightarrow> 'r option" where
  "keep_on_fail f r k v = Some (case f r k v of None \<Rightarrow> r | Some r' \<Rightarrow> r')"

lemma fold_fields_append:
  "fold_fields f r (xs @ ys) = (case fold_fields f r xs of None \<Rightarrow> None | Some r' \<Rightarrow> fold_fields f r' ys)"
  by (induction xs arbitrary: r) (auto split: option.splits)

lemma fold_omit_empty:
  "fold_fields f r (omit_empty k v) = (if v = [] then Some r else f r k (JStr v))"
  by (simp add: omit_empty_def split: option.splits)

lemma fold_omit_none:
  "fold_fields f r (omit_none k g v) = (case v of None \<Rightarrow> Some r | Some x \<Rightarrow> f r k (g x))"
  by (simp add: omit_none_def split: option.splits)

lemma fold_omit_false:
  "fold_fields f r (omit_false k b) = (if b then f r k (JBool True) else Some r)"
  by (simp add: omit_false_def split: option.splits)

lemma fold_omit_nil:
  "fold_fields f r (omit_nil k g xs) = (if xs = [] then Some r else f r k (JArr (map g xs)))"
  by (simp add: omit_nil_def split: option.splits)

lemmas fold_omits = fold_omit_nil fold_omit_empty fold_omit_none fold_omit_false

lemma those_decode: "(\<And>x. x \<in> set xs \<Longrightarrow> f (g x) = Some x) \<Longrightarrow> those (map f (map g xs)) = Some xs"
  by (induction xs) auto

section \<open>Path segments\<close>

definition segment_char :: "char \<Rightarrow> bool" where
  "segment_char c \<longleftrightarrow> unreserved c \<or> c \<in> set ''$&+=:@''"

definition path_escape :: "string \<Rightarrow> string" where
  "path_escape s = concat (map (\<lambda>c. if segment_char c then [c]
     else [CHR 0x25, upper_hex ! (byte c div 16), upper_hex ! (byte c mod 16)]) s)"

fun path_unescape :: "string \<Rightarrow> string option" where
  "path_unescape [] = Some []"
| "path_unescape (c # s) =
     (if c = CHR 0x25 then
        (case s of
           a # b # r \<Rightarrow>
             (case (hex_digit_value a, hex_digit_value b) of
                (Some x, Some y) \<Rightarrow> map_option (Cons (char_of (x * 16 + y))) (path_unescape r)
              | _ \<Rightarrow> None)
         | _ \<Rightarrow> None)
      else map_option (Cons c) (path_unescape s))"

lemma segment_char_marks: "\<not> segment_char (CHR 0x25)" "\<not> segment_char (CHR ''/'')" "\<not> segment_char (CHR 0x3F)"
  "\<not> segment_char (CHR 0x23)"
  by code_simp+

lemma upper_hex_segment: "x < 16 \<Longrightarrow> segment_char (upper_hex ! x)"
proof -
  have "list_all segment_char upper_hex" "length upper_hex = 16" by code_simp+
  then show "x < 16 \<Longrightarrow> segment_char (upper_hex ! x)" by (simp add: list_all_length)
qed

lemma path_escape_chars: "c \<in> set (path_escape s) \<Longrightarrow> segment_char c \<or> c = CHR 0x25"
  by (auto simp: path_escape_def upper_hex_segment split: if_splits)

lemma path_escape_roundtrip [simp]: "path_unescape (path_escape s) = Some s"
proof (induction s)
  case (Cons c s)
  have "c = CHR 0x25 \<Longrightarrow> \<not> segment_char c" using segment_char_marks by simp
  moreover have "byte c div 16 * 16 + byte c mod 16 = byte c" by simp
  ultimately show ?case using Cons by (auto simp: path_escape_def hex_pair)
qed (simp add: path_escape_def)

lemma path_escape_inj [simp]: "path_escape s = path_escape t \<longleftrightarrow> s = t"
  by (metis path_escape_roundtrip option.inject)

text \<open>An escaped text stays within its segment of the path, and is not cut off by a query.\<close>

lemma path_escape_segment: "CHR ''/'' \<notin> set (path_escape s)" "CHR 0x3F \<notin> set (path_escape s)" "CHR 0x23 \<notin> set (path_escape s)"
  using path_escape_chars segment_char_marks by fastforce+

section \<open>A client of a JSON service\<close>

text \<open>
  \<open>do\<close>, which the Graph and the Google provider share word for word: encode the body, get a token, send
  the request, map a status outside 2xx to an error. The result is the body of the response.
\<close>

definition rest_headers :: "string \<Rightarrow> bool \<Rightarrow> (string \<times> string) list" where
  "rest_headers tok has_body =
     [(''Authorization'', ''Bearer '' @ tok), (''Accept'', ''application/json'')]
     @ (if has_body then [(''Content-Type'', ''application/json'')] else [])"

definition rest_request :: "string \<Rightarrow> string \<Rightarrow> string \<Rightarrow> string \<Rightarrow> json option \<Rightarrow> http_request" where
  "rest_request tok base meth path body =
     \<lparr>hq_method = meth, hq_url = base @ path, hq_headers = rest_headers tok (body \<noteq> None),
      hq_body = (case body of None \<Rightarrow> [] | Some j \<Rightarrow> show_json j)\<rparr>"

definition rest_do ::
  "(int \<Rightarrow> string \<Rightarrow> error) \<Rightarrow> http_call \<Rightarrow> string result \<Rightarrow> string \<Rightarrow> string \<Rightarrow> string \<Rightarrow> json option \<Rightarrow> string result" where
  "rest_do api_error call token base meth path body =
     (case token of
        Inl e \<Rightarrow> Inl (Errorf ''acquire token'' [e])
      | Inr tok \<Rightarrow>
          (case call (rest_request tok base meth path body) of
             Inl e \<Rightarrow> Inl e
           | Inr r \<Rightarrow> if ok_status (hs_status r) then Inr (hs_body r) else Inl (api_error (hs_status r) (hs_body r))))"

text \<open>Decoding what it returned: an empty body leaves the zero value.\<close>

definition rest_into :: "(json \<Rightarrow> 'a option) \<Rightarrow> 'a \<Rightarrow> string result \<Rightarrow> 'a result" where
  "rest_into dec zero r =
     (case r of Inl e \<Rightarrow> Inl e | Inr t \<Rightarrow> if t = [] then Inr zero else unmarshal dec t)"

definition rest_done :: "string result \<Rightarrow> error option" where
  "rest_done r = (case r of Inl e \<Rightarrow> Some e | Inr t \<Rightarrow> None)"

end
