(* ===== verification/Graph.thy ===== *)
theory Graph
  imports Calendar Go_Date_Text Go_Http World
begin

text \<open>
  The Microsoft Graph provider (\<open>internal/graph\<close>): the event resource and its JSON, the conversions
  between events and holds, and the calendar operations over the exchanges of \<open>Go_Http\<close>. An operation
  is given the answer of the service, and the token source, for each request it makes.
\<close>

section \<open>Resources\<close>

definition ErrGraph :: error where "ErrGraph = Sentinel ''graph request failed''"

record graph_user =
  gu_display :: string
  gu_mail :: string
  gu_principal :: string

record graph_time =
  gt_text :: string
  gt_zone :: string

record graph_attendee =
  ga_address :: string
  ga_name :: string
  ga_type :: string
  ga_status :: "string option"

record graph_body =
  gb_type :: string
  gb_content :: string

record graph_event =
  ge_id :: string
  ge_subject :: string
  ge_body :: "graph_body option"
  ge_start :: "graph_time option"
  ge_end :: "graph_time option"
  ge_all_day :: bool
  ge_show_as :: string
  ge_wants_reply :: bool
  ge_attendees :: "graph_attendee list"

definition zero_event :: graph_event where
  "zero_event = \<lparr>ge_id = [], ge_subject = [], ge_body = None, ge_start = None, ge_end = None, ge_all_day = False,
     ge_show_as = [], ge_wants_reply = False, ge_attendees = []\<rparr>"

definition user_person :: "graph_user \<Rightarrow> person" where
  "user_person u = \<lparr>person_name = gu_display u, person_email = (if gu_mail u = [] then gu_principal u else gu_mail u)\<rparr>"

section \<open>The JSON of an event\<close>

definition time_json :: "graph_time \<Rightarrow> json" where
  "time_json t = JObj [(''dateTime'', JStr (gt_text t)), (''timeZone'', JStr (gt_zone t))]"

definition attendee_json :: "graph_attendee \<Rightarrow> json" where
  "attendee_json a =
     JObj ([(''emailAddress'', JObj [(''address'', JStr (ga_address a)), (''name'', JStr (ga_name a))]),
            (''type'', JStr (ga_type a))]
       @ (case ga_status a of None \<Rightarrow> [] | Some r \<Rightarrow> [(''status'', JObj [(''response'', JStr r)])]))"

definition body_json :: "graph_body \<Rightarrow> json" where
  "body_json b = JObj [(''contentType'', JStr (gb_type b)), (''content'', JStr (gb_content b))]"

definition event_json :: "graph_event \<Rightarrow> json" where
  "event_json e =
     JObj (omit_empty ''id'' (ge_id e) @ omit_empty ''subject'' (ge_subject e) @ omit_none ''body'' body_json (ge_body e)
       @ omit_none ''start'' time_json (ge_start e) @ omit_none ''end'' time_json (ge_end e)
       @ omit_false ''isAllDay'' (ge_all_day e) @ omit_empty ''showAs'' (ge_show_as e)
       @ omit_false ''responseRequested'' (ge_wants_reply e)
       @ omit_nil ''attendees'' attendee_json (ge_attendees e))"

text \<open>Decoding, field by field; keys are matched without regard to case.\<close>

definition time_field :: "graph_time \<Rightarrow> string \<Rightarrow> json \<Rightarrow> graph_time option" where
  "time_field t k v =
     (if equal_fold k ''dateTime'' then map_option (\<lambda>x. t\<lparr>gt_text := x\<rparr>) (as_string (gt_text t) v)
      else if equal_fold k ''timeZone'' then map_option (\<lambda>x. t\<lparr>gt_zone := x\<rparr>) (as_string (gt_zone t) v)
      else Some t)"

definition body_field :: "graph_body \<Rightarrow> string \<Rightarrow> json \<Rightarrow> graph_body option" where
  "body_field b k v =
     (if equal_fold k ''contentType'' then map_option (\<lambda>x. b\<lparr>gb_type := x\<rparr>) (as_string (gb_type b) v)
      else if equal_fold k ''content'' then map_option (\<lambda>x. b\<lparr>gb_content := x\<rparr>) (as_string (gb_content b) v)
      else Some b)"

definition address_field :: "graph_attendee \<Rightarrow> string \<Rightarrow> json \<Rightarrow> graph_attendee option" where
  "address_field a k v =
     (if equal_fold k ''address'' then map_option (\<lambda>x. a\<lparr>ga_address := x\<rparr>) (as_string (ga_address a) v)
      else if equal_fold k ''name'' then map_option (\<lambda>x. a\<lparr>ga_name := x\<rparr>) (as_string (ga_name a) v)
      else Some a)"

definition status_field :: "string \<Rightarrow> string \<Rightarrow> json \<Rightarrow> string option" where
  "status_field r k v = (if equal_fold k ''response'' then as_string r v else Some r)"

definition attendee_field :: "graph_attendee \<Rightarrow> string \<Rightarrow> json \<Rightarrow> graph_attendee option" where
  "attendee_field a k v =
     (if equal_fold k ''emailAddress'' then in_object address_field a v
      else if equal_fold k ''type'' then map_option (\<lambda>x. a\<lparr>ga_type := x\<rparr>) (as_string (ga_type a) v)
      else if equal_fold k ''status'' then map_option (\<lambda>x. a\<lparr>ga_status := x\<rparr>) (in_pointer status_field [] (ga_status a) v)
      else Some a)"

definition as_attendee :: "json \<Rightarrow> graph_attendee option" where
  "as_attendee = in_object attendee_field \<lparr>ga_address = [], ga_name = [], ga_type = [], ga_status = None\<rparr>"

definition event_field :: "graph_event \<Rightarrow> string \<Rightarrow> json \<Rightarrow> graph_event option" where
  "event_field e k v =
     (if equal_fold k ''id'' then map_option (\<lambda>x. e\<lparr>ge_id := x\<rparr>) (as_string (ge_id e) v)
      else if equal_fold k ''subject'' then map_option (\<lambda>x. e\<lparr>ge_subject := x\<rparr>) (as_string (ge_subject e) v)
      else if equal_fold k ''body''
      then map_option (\<lambda>x. e\<lparr>ge_body := x\<rparr>) (in_pointer body_field \<lparr>gb_type = [], gb_content = []\<rparr> (ge_body e) v)
      else if equal_fold k ''start''
      then map_option (\<lambda>x. e\<lparr>ge_start := x\<rparr>) (in_pointer time_field \<lparr>gt_text = [], gt_zone = []\<rparr> (ge_start e) v)
      else if equal_fold k ''end''
      then map_option (\<lambda>x. e\<lparr>ge_end := x\<rparr>) (in_pointer time_field \<lparr>gt_text = [], gt_zone = []\<rparr> (ge_end e) v)
      else if equal_fold k ''isAllDay'' then map_option (\<lambda>x. e\<lparr>ge_all_day := x\<rparr>) (as_bool (ge_all_day e) v)
      else if equal_fold k ''showAs'' then map_option (\<lambda>x. e\<lparr>ge_show_as := x\<rparr>) (as_string (ge_show_as e) v)
      else if equal_fold k ''responseRequested'' then map_option (\<lambda>x. e\<lparr>ge_wants_reply := x\<rparr>) (as_bool (ge_wants_reply e) v)
      else if equal_fold k ''attendees'' then map_option (\<lambda>x. e\<lparr>ge_attendees := x\<rparr>) (in_list as_attendee v)
      else Some e)"

definition as_event :: "json \<Rightarrow> graph_event option" where
  "as_event = in_object event_field zero_event"

section \<open>Enumerations\<close>

fun show_as_to_graph :: "show_as \<Rightarrow> string" where
  "show_as_to_graph ShowFree = ''free''"
| "show_as_to_graph ShowTentative = ''tentative''"
| "show_as_to_graph ShowOOF = ''oof''"
| "show_as_to_graph _ = ''busy''"

definition show_as_from_graph :: "string \<Rightarrow> show_as" where
  "show_as_from_graph s =
     (if s = ''free'' then ShowFree else if s = ''tentative'' then ShowTentative
      else if s = ''oof'' then ShowOOF else ShowBusy)"

definition role_to_graph :: "role \<Rightarrow> string" where
  "role_to_graph r = (if r = RoleOptional then ''optional'' else ''required'')"

definition role_from_graph :: "string \<Rightarrow> role" where
  "role_from_graph t = (if t = ''optional'' then RoleOptional else RoleRequired)"

definition response_from_graph :: "string \<Rightarrow> response" where
  "response_from_graph s =
     (if s = ''notResponded'' then ResponseNotResponded
      else if s = ''tentativelyAccepted'' then ResponseTentative
      else if s = ''accepted'' \<or> s = ''organizer'' then ResponseAccepted
      else if s = ''declined'' then ResponseDeclined
      else ResponseNone)"

section \<open>Events and holds\<close>

text \<open>A provider: the root of the API, the name of its zone, and the zones \<open>time.LoadLocation\<close> finds.\<close>

record graph_provider =
  gp_base :: string
  gp_zone :: string
  gp_zones :: "string \<Rightarrow> location option"

definition graph_location :: "graph_provider \<Rightarrow> location" where
  "graph_location p = (case gp_zones p (gp_zone p) of Some l \<Rightarrow> l | None \<Rightarrow> UTC)"

definition graph_format_time :: "gotime \<Rightarrow> bool \<Rightarrow> location \<Rightarrow> string" where
  "graph_format_time t all_day loc =
     (if all_day then format_date t @ ''T00:00:00''
      else let u = t\<lparr>t_loc := loc\<rparr> in format_date u @ ''T'' @ format_clock u)"

definition to_graph_attendees :: "attendee list \<Rightarrow> graph_attendee list" where
  "to_graph_attendees as =
     map (\<lambda>a. \<lparr>ga_address = att_email a, ga_name = person_name (att_person a), ga_type = role_to_graph (att_role a),
       ga_status = None\<rparr>) as"

definition to_graph_event :: "graph_provider \<Rightarrow> hold \<Rightarrow> graph_event" where
  "to_graph_event p h =
     \<lparr>ge_id = [], ge_subject = hold_subject h,
      ge_body = (if hold_body h = [] then None else Some \<lparr>gb_type = ''HTML'', gb_content = hold_body h\<rparr>),
      ge_start = Some \<lparr>gt_text = graph_format_time (hold_start h) (hold_all_day h) (graph_location p), gt_zone = gp_zone p\<rparr>,
      ge_end = Some \<lparr>gt_text = graph_format_time (hold_end h) (hold_all_day h) (graph_location p), gt_zone = gp_zone p\<rparr>,
      ge_all_day = hold_all_day h, ge_show_as = show_as_to_graph (hold_show_as h), ge_wants_reply = True,
      ge_attendees = to_graph_attendees (hold_attendees h)\<rparr>"

definition from_graph_attendee :: "graph_attendee \<Rightarrow> attendee" where
  "from_graph_attendee a =
     \<lparr>att_person = \<lparr>person_name = ga_name a, person_email = ga_address a\<rparr>, att_role = role_from_graph (ga_type a),
      att_response = (case ga_status a of None \<Rightarrow> ResponseNone | Some r \<Rightarrow> response_from_graph r)\<rparr>"

text \<open>\<open>fromGraphEvent\<close> reads neither the start nor the end, which stay the zero time.\<close>

definition from_graph_event :: "graph_event \<Rightarrow> hold" where
  "from_graph_event e =
     \<lparr>hold_id = ge_id e, hold_subject = ge_subject e,
      hold_body = (case ge_body e of None \<Rightarrow> [] | Some b \<Rightarrow> gb_content b),
      hold_start = zero_time, hold_end = zero_time, hold_all_day = ge_all_day e,
      hold_show_as = show_as_from_graph (ge_show_as e),
      hold_attendees = map from_graph_attendee (ge_attendees e)\<rparr>"

section \<open>The operations\<close>

text \<open>
  \<open>apiError\<close>: code and message of the error object, when the body holds one. The error of \<open>Unmarshal\<close> is
  ignored, and a member of the wrong type does not keep it from filling the others.
\<close>

definition graph_fault_field :: "string \<times> string \<Rightarrow> string \<Rightarrow> json \<Rightarrow> (string \<times> string) option" where
  "graph_fault_field r k v =
     (if equal_fold k ''code'' then map_option (\<lambda>x. (x, snd r)) (as_string (fst r) v)
      else if equal_fold k ''message'' then map_option (\<lambda>x. (fst r, x)) (as_string (snd r) v)
      else Some r)"

definition graph_fault :: "string \<Rightarrow> string \<times> string" where
  "graph_fault t =
     (case unmarshal (in_object (keep_on_fail (\<lambda>r k v.
             if equal_fold k ''error'' then in_object (keep_on_fail graph_fault_field) r v else Some r)) ([], [])) t of
        Inl e \<Rightarrow> ([], []) | Inr r \<Rightarrow> r)"

definition graph_error :: "int \<Rightarrow> string \<Rightarrow> error" where
  "graph_error status t =
     (case graph_fault t of (code, msg) \<Rightarrow>
        if status = 404 then Errorf ('': '' @ msg) [ErrNotFound]
        else if code \<noteq> [] then Errorf ('': '' @ show_int status @ '' '' @ code @ '': '' @ msg) [ErrGraph]
        else Errorf ('': status '' @ show_int status) [ErrGraph])"

definition graph_do ::
  "graph_provider \<Rightarrow> http_call \<Rightarrow> string result \<Rightarrow> string \<Rightarrow> string \<Rightarrow> json option \<Rightarrow> string result" where
  "graph_do p call token meth path body = rest_do graph_error call token (gp_base p) meth path body"

definition user_field :: "graph_user \<Rightarrow> string \<Rightarrow> json \<Rightarrow> graph_user option" where
  "user_field u k v =
     (if equal_fold k ''displayName'' then map_option (\<lambda>x. u\<lparr>gu_display := x\<rparr>) (as_string (gu_display u) v)
      else if equal_fold k ''mail'' then map_option (\<lambda>x. u\<lparr>gu_mail := x\<rparr>) (as_string (gu_mail u) v)
      else if equal_fold k ''userPrincipalName'' then map_option (\<lambda>x. u\<lparr>gu_principal := x\<rparr>) (as_string (gu_principal u) v)
      else Some u)"

definition zero_user :: graph_user where
  "zero_user = \<lparr>gu_display = [], gu_mail = [], gu_principal = []\<rparr>"

definition user_select :: string where "user_select = ''?$select=displayName,mail,userPrincipalName''"

definition read_user :: "string result \<Rightarrow> person result" where
  "read_user r = (case rest_into (in_object user_field zero_user) zero_user r of Inl e \<Rightarrow> Inl e | Inr u \<Rightarrow> Inr (user_person u))"

definition graph_me :: "graph_provider \<Rightarrow> http_call \<Rightarrow> string result \<Rightarrow> person result" where
  "graph_me p call token = read_user (graph_do p call token ''GET'' (''/me'' @ user_select) None)"

definition graph_manager :: "graph_provider \<Rightarrow> http_call \<Rightarrow> string result \<Rightarrow> person result" where
  "graph_manager p call token =
     (case read_user (graph_do p call token ''GET'' (''/me/manager'' @ user_select) None) of
        Inl e \<Rightarrow> (if errors_is e ErrNotFound then Inl ErrNoManager else Inl e)
      | Inr u \<Rightarrow> Inr u)"

definition reports_field :: "graph_user list \<Rightarrow> string \<Rightarrow> json \<Rightarrow> graph_user list option" where
  "reports_field us k v = (if equal_fold k ''value'' then in_list (in_object user_field zero_user) v else Some us)"

definition graph_team ::
  "graph_provider \<Rightarrow> http_call \<Rightarrow> string result \<Rightarrow> http_call \<Rightarrow> string result \<Rightarrow> person list result" where
  "graph_team p call token call2 token2 =
     (case rest_into (in_object reports_field []) []
             (graph_do p call token ''GET'' (''/me/manager/directReports'' @ user_select) None) of
        Inl e \<Rightarrow> Inl e
      | Inr us \<Rightarrow>
          (case graph_me p call2 token2 of
             Inl e \<Rightarrow> Inl e
           | Inr me \<Rightarrow> Inr (filter (\<lambda>q. \<not> equal_fold (person_email q) (person_email me)) (map user_person us))))"

definition read_event :: "string result \<Rightarrow> hold result" where
  "read_event r = (case rest_into as_event zero_event r of Inl e \<Rightarrow> Inl e | Inr ev \<Rightarrow> Inr (from_graph_event ev))"

definition graph_create :: "graph_provider \<Rightarrow> http_call \<Rightarrow> string result \<Rightarrow> hold \<Rightarrow> hold result" where
  "graph_create p call token h =
     read_event (graph_do p call token ''POST'' ''/me/events'' (Some (event_json (to_graph_event p h))))"

definition event_path :: "string \<Rightarrow> string" where
  "event_path hid = ''/me/events/'' @ path_escape hid"

definition graph_get :: "graph_provider \<Rightarrow> http_call \<Rightarrow> string result \<Rightarrow> string \<Rightarrow> hold result" where
  "graph_get p call token hid =
     read_event (graph_do p call token ''GET'' (event_path hid @ ''?$select=id,subject,showAs,isAllDay,body,attendees'') None)"

definition graph_patch :: "hold \<Rightarrow> graph_event" where
  "graph_patch h =
     zero_event\<lparr>ge_subject := hold_subject h, ge_show_as := show_as_to_graph (hold_show_as h), ge_wants_reply := True,
       ge_attendees := to_graph_attendees (hold_attendees h)\<rparr>"

definition graph_update :: "graph_provider \<Rightarrow> http_call \<Rightarrow> string result \<Rightarrow> hold \<Rightarrow> hold result" where
  "graph_update p call token h =
     (if hold_id h = [] then Inl ErrNotFound
      else read_event (graph_do p call token ''PATCH'' (event_path (hold_id h)) (Some (event_json (graph_patch h)))))"

definition graph_delete :: "graph_provider \<Rightarrow> http_call \<Rightarrow> string result \<Rightarrow> string \<Rightarrow> error option" where
  "graph_delete p call token hid = rest_done (graph_do p call token ''DELETE'' (event_path hid) None)"

text \<open>
  The outside of a program that runs on Graph: the provider's answers are those of the operations, given
  the service and the token source. A call of the program makes at most two requests, numbered 0 and 1.
\<close>

record graph_service =
  gs_answer :: "nat \<Rightarrow> nat \<Rightarrow> http_call"
  gs_token :: "nat \<Rightarrow> nat \<Rightarrow> string result"

definition on_graph :: "graph_provider \<Rightarrow> graph_service \<Rightarrow> env \<Rightarrow> env" where
  "on_graph p s env = env\<lparr>
     e_me := (\<lambda>n. graph_me p (gs_answer s n 0) (gs_token s n 0)),
     e_manager := (\<lambda>n. graph_manager p (gs_answer s n 0) (gs_token s n 0)),
     e_team := (\<lambda>n. graph_team p (gs_answer s n 0) (gs_token s n 0) (gs_answer s n 1) (gs_token s n 1)),
     e_create := (\<lambda>n. graph_create p (gs_answer s n 0) (gs_token s n 0)),
     e_get := (\<lambda>n. graph_get p (gs_answer s n 0) (gs_token s n 0)),
     e_update := (\<lambda>n. graph_update p (gs_answer s n 0) (gs_token s n 0)),
     e_delete := (\<lambda>n. graph_delete p (gs_answer s n 0) (gs_token s n 0))\<rparr>"

section \<open>What is read is what was written\<close>

lemma graph_keys:
  "\<not> equal_fold ''timeZone'' ''dateTime''" "\<not> equal_fold ''content'' ''contentType''"
  "\<not> equal_fold ''name'' ''address''"
  "\<not> equal_fold ''type'' ''emailAddress''" "\<not> equal_fold ''status'' ''emailAddress''" "\<not> equal_fold ''status'' ''type''"
  by code_simp+

lemma event_keys:
  "list_all (\<lambda>k. \<not> equal_fold k ''id'') [''subject'', ''body'', ''start'', ''end'', ''isAllDay'', ''showAs'', ''responseRequested'', ''attendees'']"
  "list_all (\<lambda>k. \<not> equal_fold k ''subject'') [''body'', ''start'', ''end'', ''isAllDay'', ''showAs'', ''responseRequested'', ''attendees'']"
  "list_all (\<lambda>k. \<not> equal_fold k ''body'') [''start'', ''end'', ''isAllDay'', ''showAs'', ''responseRequested'', ''attendees'']"
  "list_all (\<lambda>k. \<not> equal_fold k ''start'') [''end'', ''isAllDay'', ''showAs'', ''responseRequested'', ''attendees'']"
  "list_all (\<lambda>k. \<not> equal_fold k ''end'') [''isAllDay'', ''showAs'', ''responseRequested'', ''attendees'']"
  "list_all (\<lambda>k. \<not> equal_fold k ''isAllDay'') [''showAs'', ''responseRequested'', ''attendees'']"
  "list_all (\<lambda>k. \<not> equal_fold k ''showAs'') [''responseRequested'', ''attendees'']"
  "list_all (\<lambda>k. \<not> equal_fold k ''responseRequested'') [''attendees'']"
  by code_simp+

lemma as_time: "in_object time_field t0 (time_json t) = Some t"
  by (cases t; cases t0) (simp add: time_json_def time_field_def graph_keys)

lemma as_body: "in_object body_field b0 (body_json b) = Some b"
  by (cases b; cases b0) (simp add: body_json_def body_field_def graph_keys)

lemma as_attendee: "as_attendee (attendee_json a) = Some a"
  by (cases a) (simp add: as_attendee_def attendee_json_def attendee_field_def address_field_def status_field_def graph_keys
      split: option.splits)

lemma in_pointer_obj: "in_pointer f z p (JObj kvs) = map_option Some (in_object f (case p of None \<Rightarrow> z | Some r \<Rightarrow> r) (JObj kvs))"
  by simp

lemma event_field_at:
  "event_field e ''id'' v = map_option (\<lambda>x. e\<lparr>ge_id := x\<rparr>) (as_string (ge_id e) v)"
  "event_field e ''subject'' v = map_option (\<lambda>x. e\<lparr>ge_subject := x\<rparr>) (as_string (ge_subject e) v)"
  "event_field e ''body'' (body_json b) = Some (e\<lparr>ge_body := Some b\<rparr>)"
  "event_field e ''start'' (time_json t) = Some (e\<lparr>ge_start := Some t\<rparr>)"
  "event_field e ''end'' (time_json t) = Some (e\<lparr>ge_end := Some t\<rparr>)"
  "event_field e ''isAllDay'' v = map_option (\<lambda>x. e\<lparr>ge_all_day := x\<rparr>) (as_bool (ge_all_day e) v)"
  "event_field e ''showAs'' v = map_option (\<lambda>x. e\<lparr>ge_show_as := x\<rparr>) (as_string (ge_show_as e) v)"
  "event_field e ''responseRequested'' v = map_option (\<lambda>x. e\<lparr>ge_wants_reply := x\<rparr>) (as_bool (ge_wants_reply e) v)"
  "event_field e ''attendees'' v = map_option (\<lambda>x. e\<lparr>ge_attendees := x\<rparr>) (in_list as_attendee v)"
  using event_keys as_body[of _ b] as_time[of _ t] unfolding event_field_def
  by (simp_all add: body_json_def time_json_def in_pointer_obj del: in_pointer.simps in_object.simps)

text \<open>Each member sets its field, when the field still holds the zero value it was left out for.\<close>

lemma event_members:
  "ge_id e = [] \<Longrightarrow> fold_fields event_field e (omit_empty ''id'' s) = Some (e\<lparr>ge_id := s\<rparr>)"
  "ge_subject e = [] \<Longrightarrow> fold_fields event_field e (omit_empty ''subject'' s) = Some (e\<lparr>ge_subject := s\<rparr>)"
  "ge_body e = None \<Longrightarrow> fold_fields event_field e (omit_none ''body'' body_json b) = Some (e\<lparr>ge_body := b\<rparr>)"
  "ge_start e = None \<Longrightarrow> fold_fields event_field e (omit_none ''start'' time_json t) = Some (e\<lparr>ge_start := t\<rparr>)"
  "ge_end e = None \<Longrightarrow> fold_fields event_field e (omit_none ''end'' time_json t) = Some (e\<lparr>ge_end := t\<rparr>)"
  "\<not> ge_all_day e \<Longrightarrow> fold_fields event_field e (omit_false ''isAllDay'' c) = Some (e\<lparr>ge_all_day := c\<rparr>)"
  "ge_show_as e = [] \<Longrightarrow> fold_fields event_field e (omit_empty ''showAs'' s) = Some (e\<lparr>ge_show_as := s\<rparr>)"
  "\<not> ge_wants_reply e \<Longrightarrow> fold_fields event_field e (omit_false ''responseRequested'' c) = Some (e\<lparr>ge_wants_reply := c\<rparr>)"
  "ge_attendees e = [] \<Longrightarrow> fold_fields event_field e (omit_nil ''attendees'' attendee_json as) = Some (e\<lparr>ge_attendees := as\<rparr>)"
  by (cases e; auto simp: fold_omits event_field_at those_decode as_attendee simp del: map_map split: option.splits)+

lemma as_event_json: "as_event (event_json e) = Some e"
  by (cases e) (simp add: as_event_def event_json_def fold_fields_append event_members zero_event_def)

end
