(* ===== verification/Hris.thy ===== *)
theory Hris
  imports World Go_Http Go_Date_Text
begin

text \<open>
  Filing leave (\<open>internal/hris\<close>): the BambooHR and the webhook filer, the id they read from the response,
  and the filer the environment selects (\<open>resolveFiler\<close> in \<open>cmd/run.go\<close>).
\<close>

section \<open>The id of the created request\<close>

text \<open>
  The members of an object with the text of their values, which \<open>json.RawMessage\<close> keeps. The text scans as
  a whole, so the fuel and the separators are not checked again.
\<close>

fun raw_members :: "nat \<Rightarrow> string \<Rightarrow> (string \<times> string) list" where
  "raw_members 0 s = []"
| "raw_members (Suc n) s =
     (case skip_ws s of
        [] \<Rightarrow> []
      | c # r \<Rightarrow>
          (case str_body r of
             None \<Rightarrow> []
           | Some (k, r) \<Rightarrow>
               (let val = skip_ws (tl (skip_ws r)) in
                case scan_value (json_fuel val) val of
                  None \<Rightarrow> []
                | Some (v, r) \<Rightarrow> (k, take (length val - length r) val) # raw_members n (tl (skip_ws r)))))"

definition raw_object :: "string \<Rightarrow> (string \<times> string) list" where
  "raw_object t = raw_members (length t) (tl (skip_ws t))"

text \<open>\<open>strings.Trim(s, cut)\<close> for one character.\<close>

definition trim_char :: "char \<Rightarrow> string \<Rightarrow> string" where
  "trim_char c s = rev (dropWhile (\<lambda>x. x = c) (rev (dropWhile (\<lambda>x. x = c) s)))"

definition raw_id :: "string \<Rightarrow> string" where
  "raw_id t =
     (case scan_json t of
        Json (JObj kvs) \<Rightarrow>
          (case find (\<lambda>(k, v). equal_fold k ''id'') (rev (raw_object t)) of
             None \<Rightarrow> [] | Some (k, v) \<Rightarrow> trim_char dquote v)
      | _ \<Rightarrow> [])"

definition last_segment :: "string \<Rightarrow> string" where
  "last_segment s = rev (takeWhile (\<lambda>c. c \<noteq> CHR ''/'') (rev s))"

definition request_id :: "string \<Rightarrow> string \<Rightarrow> string" where
  "request_id body location =
     (if raw_id body \<noteq> [] \<and> raw_id body \<noteq> ''null'' then raw_id body else last_segment location)"

lemma raw_id_reads:
  "raw_id ''{\"id\": 4711, \"status\": \"requested\"}'' = ''4711''"
  "raw_id ''{\"other\": [1, {}], \"id\": \"a-7\"}'' = ''a-7''"
  "request_id ''{\"id\": null}'' ''https://api/time_off/requests/9'' = ''9''"
  by code_simp+

section \<open>The filers\<close>

definition filed :: "string \<Rightarrow> http_response result \<Rightarrow> string result" where
  "filed what r =
     (case r of
        Inl e \<Rightarrow> Inl e
      | Inr resp \<Rightarrow>
          (let body = limit_resp (hs_body resp) in
           if \<not> ok_status (hs_status resp)
           then Inl (Errorf (what @ '': status '' @ show_int (hs_status resp) @ '': '' @ body) [])
           else Inr (request_id body (hs_location resp))))"

record bamboo =
  bb_subdomain :: string
  bb_key :: string
  bb_status :: string

definition new_bamboo :: "string \<Rightarrow> string \<Rightarrow> string \<Rightarrow> bamboo" where
  "new_bamboo sub key status =
     \<lparr>bb_subdomain = sub, bb_key = key, bb_status = (if status = [] then ''requested'' else status)\<rparr>"

definition basic_auth :: "string \<Rightarrow> string \<Rightarrow> string" where
  "basic_auth user pass = std_encode (user @ '':'' @ pass)"

definition bamboo_base :: string where "bamboo_base = ''https://api.bamboohr.com''"

definition bamboo_url :: "bamboo \<Rightarrow> string \<Rightarrow> string" where
  "bamboo_url f emp = bamboo_base @ ''/api/gateway.php/'' @ bb_subdomain f @ ''/v1/employees/'' @ path_escape emp
     @ ''/time_off/request/''"

text \<open>\<open>Marshal\<close> writes a map with its keys in order.\<close>

definition bamboo_body :: "bamboo \<Rightarrow> leave \<Rightarrow> json" where
  "bamboo_body f l =
     JObj [(''end'', JStr (format_date (lv_end l))), (''notes'', JStr (lv_note l)),
       (''start'', JStr (format_date (lv_start l))), (''status'', JStr (bb_status f)), (''timeOffTypeId'', JStr (lv_type l))]"

definition bamboo_request :: "bamboo \<Rightarrow> leave \<Rightarrow> http_request" where
  "bamboo_request f l =
     \<lparr>hq_method = ''PUT'', hq_url = bamboo_url f (lv_employee l),
      hq_headers = [(''Content-Type'', ''application/json''), (''Accept'', ''application/json''),
        (''Authorization'', ''Basic '' @ basic_auth (bb_key f) ''x'')],
      hq_body = show_json (bamboo_body f l)\<rparr>"

definition bamboo_file :: "bamboo \<Rightarrow> http_call \<Rightarrow> leave \<Rightarrow> string result" where
  "bamboo_file f call l =
     (if lv_employee l = [] \<or> lv_type l = []
      then Inl (Errorf ''bamboohr: employee id and time-off type id are required'' [])
      else filed ''bamboohr: file leave'' (call (bamboo_request f l)))"

definition webhook_body :: "leave \<Rightarrow> json" where
  "webhook_body l =
     JObj (omit_empty ''employee_id'' (lv_employee l) @ omit_empty ''type_id'' (lv_type l)
       @ [(''start'', JStr (format_date (lv_start l))), (''end'', JStr (format_date (lv_end l)))]
       @ omit_empty ''note'' (lv_note l))"

definition webhook_request :: "string \<Rightarrow> string \<Rightarrow> leave \<Rightarrow> http_request" where
  "webhook_request url auth l =
     \<lparr>hq_method = ''POST'', hq_url = url,
      hq_headers = [(''Content-Type'', ''application/json''), (''Accept'', ''application/json'')]
        @ (if auth = [] then [] else [(''Authorization'', auth)]),
      hq_body = show_json (webhook_body l)\<rparr>"

definition webhook_file :: "string \<Rightarrow> string \<Rightarrow> http_call \<Rightarrow> leave \<Rightarrow> string result" where
  "webhook_file url auth call l = filed ''leave webhook'' (call (webhook_request url auth l))"

text \<open>\<open>resolveFiler\<close>: BambooHR when it is configured, else the webhook, else none.\<close>

definition resolve_filer :: "(string \<Rightarrow> string) \<Rightarrow> (nat \<Rightarrow> http_call) \<Rightarrow> (nat \<Rightarrow> leave \<Rightarrow> string result) option" where
  "resolve_filer getenv calls =
     (let sub = getenv ''VAMOOSE_BAMBOOHR_SUBDOMAIN''; key = getenv ''VAMOOSE_BAMBOOHR_API_KEY'';
          url = getenv ''VAMOOSE_LEAVE_WEBHOOK_URL''
      in if sub \<noteq> [] \<and> key \<noteq> []
         then Some (\<lambda>n. bamboo_file (new_bamboo sub key (getenv ''VAMOOSE_BAMBOOHR_STATUS'')) (calls n))
         else if url \<noteq> [] then Some (\<lambda>n. webhook_file url (getenv ''VAMOOSE_LEAVE_WEBHOOK_AUTH'') (calls n))
         else None)"

section \<open>What is filed\<close>

lemma filed_ok: "filed what r = Inr lid \<Longrightarrow> \<exists>resp. r = Inr resp \<and> ok_status (hs_status resp)"
  by (auto simp: filed_def Let_def split: sum.splits if_splits)

text \<open>The days a request asks for, as the service reads them.\<close>

fun json_member :: "string \<Rightarrow> json \<Rightarrow> json option" where
  "json_member k (JObj kvs) = map_of kvs k"
| "json_member k _ = None"

lemma bamboo_days:
  "scan_json (hq_body (bamboo_request f l)) = Json (bamboo_body f l)"
  "json_member ''start'' (bamboo_body f l) = Some (JStr (format_date (lv_start l)))"
  "json_member ''end'' (bamboo_body f l) = Some (JStr (format_date (lv_end l)))"
  by (simp_all add: bamboo_request_def bamboo_body_def scan_show_json)

lemma webhook_days:
  "scan_json (hq_body (webhook_request url auth l)) = Json (webhook_body l)"
  "json_member ''start'' (webhook_body l) = Some (JStr (format_date (lv_start l)))"
  "json_member ''end'' (webhook_body l) = Some (JStr (format_date (lv_end l)))"
  by (simp_all add: webhook_request_def webhook_body_def scan_show_json omit_empty_def map_add_def)

end
