(* ===== verification/Graph_Properties.thy ===== *)
theory Graph_Properties
  imports Graph Hris Run_Properties
begin

text \<open>
  What a run does on Microsoft Graph. The conversion from an event drops its dates, so the holds the
  provider returns carry the zero time; what the steps after the creation do with those dates follows
  from the theorems about runs.
\<close>

section \<open>Holds without dates\<close>

definition undated :: "hold \<Rightarrow> bool" where
  "undated h \<longleftrightarrow> hold_start h = zero_time \<and> hold_end h = zero_time"

lemma read_event_undated: "read_event r = Inr h \<Longrightarrow> undated h"
  by (auto simp: read_event_def undated_def from_graph_event_def split: sum.splits)

lemma graph_holds_undated:
  "graph_create p call tok h = Inr h' \<Longrightarrow> undated h'"
  "graph_get p call tok hid = Inr h' \<Longrightarrow> undated h'"
  "graph_update p call tok h = Inr h' \<Longrightarrow> undated h'"
  by (auto simp: graph_create_def graph_get_def graph_update_def dest: read_event_undated split: if_splits)

lemma on_graph_create: "e_create (on_graph p s env) n h = graph_create p (gs_answer s n 0) (gs_token s n 0) h"
  by (simp add: on_graph_def)

text \<open>The effects whose dates come from the hold the step was given.\<close>

fun effect_undated :: "effect \<Rightarrow> bool" where
  "effect_undated (Filed l) \<longleftrightarrow> lv_start l = zero_time \<and> lv_end l = zero_time"
| "effect_undated (Created h) \<longleftrightarrow> undated h"
| "effect_undated _ \<longleftrightarrow> True"

lemma step_block_undated: "step_block env k h i b \<Longrightarrow> undated h \<Longrightarrow> list_all effect_undated b"
  by (cases "step_verb (step_at k i)") (auto simp: step_block_def Let_def undated_def note_hold_def step_leave_def)

lemma step_blocks_undated: "list_all2 (step_block env k h) xs bs \<Longrightarrow> undated h \<Longrightarrow> list_all effect_undated (concat bs)"
  by (induction rule: list_all2_induct) (auto dest: step_block_undated)

lemma gate_waiting_frame:
  "gate_waiting env prov k i h watch w = (r, w') \<Longrightarrow> w_trace w' = w_trace w \<and> w_ledger w' = w_ledger w"
  using w_add_watch_frame[of env "gate_item prov k i h (e_now env (w_tick w))" "tick w"]
  by (cases "w_add_watch env (gate_item prov k i h (e_now env (w_tick w))) (tick w)")
    (auto simp: gate_waiting_def now_def split: if_splits option.splits)

lemma run_steps_undated:
  assumes "runnable k" and "undated h" and "run_steps env cp prov k i h watch w = (err, w')"
  shows "\<exists>xs. w_trace w' = w_trace w @ xs \<and> list_all effect_undated xs"
proof -
  obtain g e w2 where walk: "walk_steps env cp prov k [] i h w = (g, e, w2)" by (cases "walk_steps env cp prov k [] i h w")
  obtain xs where "walks env cp prov k h i w xs (g, e, w2)"
    using walk_steps_result[OF assms(1), of env cp prov h i w] walk by auto
  then obtain bs where bs: "list_all2 (step_block env k h) xs bs" "w_trace w2 = w_trace w @ concat bs"
    using walks_trace[OF _ refl] by blast
  moreover have "w_trace w' = w_trace w2"
    using assms(3) walk by (auto simp: run_steps_def dest: gate_waiting_frame split: option.splits if_splits)
  ultimately show ?thesis using step_blocks_undated[OF bs(1) assms(2)] by auto
qed

section \<open>The ledger\<close>

definition ledger_entries :: "world \<Rightarrow> entry set" where
  "ledger_entries w = (case load_ledger (w_ledger w) of Inl e \<Rightarrow> {} | Inr es \<Rightarrow> set es)"

lemma undated_not_recorded: "undated h \<Longrightarrow> w_ledger (w_record_coverage env h w) = w_ledger w"
  by (simp add: w_record_coverage_def prov_me_def now_def record_coverage_def record_entry_def undated_def after_def before_def
      split: sum.splits option.splits)

lemma ledger_entries_cong: "w_ledger w = w_ledger w' \<Longrightarrow> ledger_entries w = ledger_entries w'"
  by (simp add: ledger_entries_def)

lemma forget_coverage_entries: "ledger_entries (w_forget_coverage env hid w) \<subseteq> ledger_entries w"
  by (auto simp: ledger_entries_def w_forget_coverage_def forget_coverage_def remove_entry_def with_file_lock_def
      store_ledger_def load_ledger_def Let_def split: sum.splits option.splits if_splits)

lemma forget_hold_entries: "ledger_entries (forget_hold env ref w) \<subseteq> ledger_entries w"
proof -
  let ?w = "snd (w_remove_watch env (ref_provider ref) (ref_id ref) w)"
  have "ledger_entries (forget_hold env ref w) = ledger_entries (w_forget_coverage env (ref_id ref) ?w)"
    by (rule ledger_entries_cong) (simp add: forget_hold_def Let_def split: sum.splits)
  moreover have "ledger_entries ?w = ledger_entries w" by (rule ledger_entries_cong) simp
  ultimately show ?thesis using forget_coverage_entries by metis
qed

lemma action_ledger:
  "promote_hold env h w = (r, w') \<Longrightarrow> w_ledger w' = w_ledger w"
  "create_note env s h w = (r, w') \<Longrightarrow> w_ledger w' = w_ledger w"
  "send_message env s h w = (r, w') \<Longrightarrow> w_ledger w' = w_ledger w"
  "file_leave env s h w = (r, w') \<Longrightarrow> w_ledger w' = w_ledger w"
  by (metis promote_hold_frame(3) snd_conv) (metis create_note_frame(3) snd_conv,
      metis send_message_frame(3) snd_conv, metis file_leave_frame(3) snd_conv)

lemma finish_step_ledger:
  "finish_step env cp ev n r = (res, w') \<Longrightarrow> w_ledger w' = w_ledger (snd r)"
  by (auto simp: finish_step_def split: prod.splits option.splits)

lemma delete_ledger: "prov_delete env hid w = (r, w') \<Longrightarrow> w_ledger w' = w_ledger w"
  by (auto simp: prov_delete_def split: option.splits)

lemma exec_step_entries: "exec_step env cp prov k i h w = (res, w') \<Longrightarrow> ledger_entries w' \<subseteq> ledger_entries w"
proof (cases "step_verb (step_at k i)")
  case VerbCancel
  assume e: "exec_step env cp prov k i h w = (res, w')"
  obtain r w1 where d: "prov_delete env (hold_id h) w = (r, w1)" by fastforce
  have w1: "ledger_entries w1 = ledger_entries w" by (rule ledger_entries_cong) (rule delete_ledger[OF d])
  show ?thesis
  proof (cases r)
    case None
    let ?w = "forget_hold env \<lparr>ref_provider = prov, ref_id = hold_id h\<rparr> w1"
    have "ledger_entries w' = ledger_entries ?w"
      using e d None VerbCancel by (intro ledger_entries_cong) (auto simp: exec_step_def Let_def)
    then show ?thesis using forget_hold_entries[of env _ w1] w1 by blast
  next
    case (Some x)
    then show ?thesis using e d w1 VerbCancel by (auto simp: exec_step_def Let_def)
  qed
qed (auto simp: exec_step_def Let_def ledger_entries_def action_ledger[OF surjective_pairing] dest!: finish_step_ledger)

lemma walks_entries:
  "walks env cp prov k h i w xs r \<Longrightarrow> r = (g, err, w') \<Longrightarrow> ledger_entries w' \<subseteq> ledger_entries w"
proof (induction arbitrary: g err w' rule: walks.induct)
  case (walks_skip i w xs r)
  moreover have "ledger_entries (tick w) = ledger_entries w" by (rule ledger_entries_cong) simp
  ultimately show ?case by simp
next
  case (walks_gate i w)
  then show ?case by (auto simp: ledger_entries_def)
next
  case (walks_fail i w e w2)
  have "ledger_entries (tick w) = ledger_entries w" by (rule ledger_entries_cong) simp
  then show ?case using exec_step_entries[OF walks_fail.hyps(4)] walks_fail.prems by simp
next
  case (walks_cancel i w w2)
  have "ledger_entries (tick w) = ledger_entries w" by (rule ledger_entries_cong) simp
  then show ?case using exec_step_entries[OF walks_cancel.hyps(4)] walks_cancel.prems by simp
next
  case (walks_next i w w2 xs r)
  have "ledger_entries (tick w) = ledger_entries w" by (rule ledger_entries_cong) simp
  then show ?case using exec_step_entries[OF walks_next.hyps(4)] walks_next.IH[OF walks_next.prems] by blast
qed simp

lemma run_steps_entries:
  assumes "runnable k" and "run_steps env cp prov k i h watch w = (err, w')"
  shows "ledger_entries w' \<subseteq> ledger_entries w"
proof -
  obtain g e w2 where walk: "walk_steps env cp prov k [] i h w = (g, e, w2)" by (cases "walk_steps env cp prov k [] i h w")
  obtain xs where "walks env cp prov k h i w xs (g, e, w2)"
    using walk_steps_result[OF assms(1), of env cp prov h i w] walk by auto
  then have "ledger_entries w2 \<subseteq> ledger_entries w" using walks_entries[OF _ refl] by blast
  moreover have "ledger_entries w' = ledger_entries w2"
    using assms(2) walk
    by (intro ledger_entries_cong) (auto simp: run_steps_def dest: gate_waiting_frame split: option.splits if_splits)
  ultimately show ?thesis by simp
qed

section \<open>What the theory establishes\<close>

lemma graph_run_cases:
  assumes "run_workflow_on (on_graph p s env) prov k opt w = (err, w')"
  obtains "w_trace w' = w_trace w" "w_ledger w' = w_ledger w"
  | h where "w_trace w' = w_trace w @ [Created h]" "w_ledger w' = w_ledger w"
  | h created w2 err' where "undated created" "w_trace w2 = w_trace w @ [Created h]" "w_ledger w2 = w_ledger w"
      "run_steps (on_graph p s env) None prov k (next_step k 0 []) created (opt_watch opt) w2 = (err', w')"
proof -
  let ?env = "on_graph p s env"
  obtain r w1 where init: "initial_hold ?env k opt w = (r, w1)" by fastforce
  have w1: "w_trace w1 = w_trace w" "w_ledger w1 = w_ledger w" using initial_hold_frame[OF init] by simp_all
  show thesis
  proof (cases r)
    case (Inl e)
    then show thesis using assms init w1 that(1) by (simp add: run_workflow_on_def)
  next
    case (Inr h)
    show thesis
    proof (cases "opt_dry_run opt")
      case True
      then show thesis using assms init Inr w1 that(1) by (simp add: run_workflow_on_def)
    next
      case False
      obtain c w2 where c: "prov_create ?env h w1 = (c, w2)" by fastforce
      show thesis
      proof (cases c)
        case (Inl e)
        then have "w_trace w2 = w_trace w1" "w_ledger w2 = w_ledger w1"
          using c by (auto simp: prov_create_def split: sum.splits)
        then show thesis using assms init Inr False c Inl w1 that(1) by (simp add: run_workflow_on_def)
      next
        case (Inr created)
        have w2: "w_trace w2 = w_trace w @ [Created h]" "w_ledger w2 = w_ledger w" and u: "undated created"
          using c w1 unfolding Inr prov_create_def on_graph_create
          by (auto split: sum.splits dest: graph_holds_undated)
        obtain e w3 where sv: "w_save_state ?env \<lparr>ref_provider = prov, ref_id = hold_id created\<rparr> w2 = (e, w3)" by fastforce
        have w3: "w_trace w3 = w_trace w2" "w_ledger w3 = w_ledger w2"
          using w_save_state_frame[of ?env "\<lparr>ref_provider = prov, ref_id = hold_id created\<rparr>" w2] sv by simp_all
        show thesis
        proof (cases e)
          case (Some x)
          then show thesis
            using assms init \<open>r = Inr h\<close> False c Inr sv w2 w3 that(2) by (auto simp: run_workflow_on_def)
        next
          case None
          define w4 where "w4 = (let w = record_audit ?env (step_event k prov created ActionCreated []) w3 in
              if step_verb (step_at k 0) \<noteq> VerbEvent then w_record_coverage ?env created w else w)"
          have "run_steps ?env None prov k (next_step k 0 []) created (opt_watch opt) w4 = (err, w')"
            using assms init \<open>r = Inr h\<close> False c Inr sv None by (simp add: run_workflow_on_def w4_def Let_def)
          moreover have "w_trace w4 = w_trace w @ [Created h]" "w_ledger w4 = w_ledger w"
            using w2 w3 undated_not_recorded[OF u] by (simp_all add: w4_def Let_def)
          ultimately show thesis using u that(3) by blast
        qed
      qed
    qed
  qed
qed

text \<open>A Graph service that accepts every request, a workflow that files leave, and its run on them.\<close>

definition demo_graph :: graph_provider where
  "demo_graph = \<lparr>gp_base = ''https://graph'', gp_zone = ''UTC'', gp_zones = (\<lambda>z. Some UTC)\<rparr>"

definition demo_graph_service :: graph_service where
  "demo_graph_service =
     \<lparr>gs_answer = (\<lambda>n i r. Inr \<lparr>hs_status = 201, hs_body = ''{\"id\": \"g1\", \"subject\": \"PTO\"}'', hs_location = []\<rparr>),
      gs_token = (\<lambda>n i. Inr ''tok'')\<rparr>"

definition leave_flow :: workflow where
  "leave_flow = \<lparr>wf_name = ''leave'', wf_description = ''file at once'',
     wf_steps = [zero_step\<lparr>step_verb := VerbHold\<rparr>, zero_step\<lparr>step_verb := VerbLeave\<rparr>]\<rparr>"

lemma leave_flow_well_formed: "well_formed leave_flow"
  unfolding validate_spec[symmetric] by code_simp

abbreviation "graph_env \<equiv> on_graph demo_graph demo_graph_service quiet_env"

lemma demo_create: "e_create graph_env n h = Inr \<lparr>hold_id = ''g1'', hold_subject = ''PTO'', hold_body = [], hold_start = zero_time,
   hold_end = zero_time, hold_all_day = False, hold_show_as = ShowBusy, hold_attendees = []\<rparr>"
proof -
  have "read_event (Inr ''{\"id\": \"g1\", \"subject\": \"PTO\"}'') = Inr \<lparr>hold_id = ''g1'', hold_subject = ''PTO'', hold_body = [],
    hold_start = zero_time, hold_end = zero_time, hold_all_day = False, hold_show_as = ShowBusy, hold_attendees = []\<rparr>"
    by code_simp
  then show ?thesis
    by (simp add: on_graph_create graph_create_def graph_do_def rest_do_def demo_graph_service_def ok_status_def)
qed

text \<open>
  On Microsoft Graph the dates of a run are lost once the hold is created. Whatever Graph answers,
  every leave the run files and every note it puts on the calendar has the zero time, the first day of
  the year one, as its start and its end: the hold Graph returned was converted without its dates.
\<close>

theorem graph_run_loses_dates:
  assumes "well_formed k" and "run_workflow_on (on_graph p s env) prov k opt w = (err, w')"
  shows "\<exists>xs. w_trace w' = w_trace w @ xs \<and> list_all effect_undated (tl xs)"
  using assms(2)
proof (cases rule: graph_run_cases)
  case (3 h created w2 err')
  then obtain xs where "w_trace w' = w_trace w2 @ xs" "list_all effect_undated xs"
    using run_steps_undated[OF well_formed_runnable[OF assms(1)] 3(1) 3(4)] by blast
  then show ?thesis using 3(2) by (intro exI[of _ "Created h # xs"]) simp
qed auto

definition demo_run :: "error option \<times> world" where
  "demo_run = run_workflow_on graph_env ''graph'' leave_flow chain_options empty_world"

lemma leave_flow_steps:
  "step_verb (step_at leave_flow 0) = VerbHold" "\<not> has_verb leave_flow VerbApprove" "next_step leave_flow 0 [] = 1"
  "step_verb (step_at leave_flow 1) = VerbLeave" "step_when (step_at leave_flow 1) = no_guard" "next_step leave_flow 1 [] = -1"
  "in_range leave_flow 1" "step_subject (step_at leave_flow 1) = []"
  by (simp_all add: in_range_def) code_simp+

lemma graph_env_rest:
  "e_state_path graph_env = None" "e_write graph_env n = None" "e_filer graph_env = Some (\<lambda>n l. Inr ''1'')"
  "e_now graph_env n = noon" "e_getenv graph_env v = []"
  by (simp_all add: on_graph_def quiet_env_def)

lemma demo_walk:
  "\<exists>w'. walk_steps graph_env None ''graph'' leave_flow [] 1 h w = (-1, None, w')
     \<and> w_trace w' = w_trace w @ [Filed (step_leave graph_env (step_at leave_flow 1) h)]"
  unfolding walk_steps_go[OF leave_flow_steps(7), of "[]", simplified]
  using leave_flow_steps(3-8)[simplified]
  by (simp add: allowed_at_def waits_def exec_step_def file_leave_def graph_env_rest finish_step_def Let_def
      walk_steps_stop in_range_def checkpoint_at_def)

lemma demo_files: "\<exists>h l. w_trace (snd demo_run) = [Created h, Filed l]"
proof -
  obtain h0 where i: "initial_hold graph_env leave_flow chain_options empty_world = (Inr h0, empty_world)"
    using leave_flow_steps(1,2)[simplified] by (simp add: initial_hold_def Let_def)
  obtain c where c: "prov_create graph_env h0 empty_world = (Inr c, emit (Created h0) (tick empty_world))"
    by (simp add: prov_create_def demo_create)
  have s: "\<exists>w'. w_save_state graph_env r w = (None, w') \<and> w_trace w' = w_trace w" for r w
    by (simp add: w_save_state_def save_state_def graph_env_rest)
  obtain w2 where w2: "w_save_state graph_env \<lparr>ref_provider = ''graph'', ref_id = hold_id c\<rparr> (emit (Created h0) (tick empty_world)) = (None, w2)"
    "w_trace w2 = [Created h0]"
    using s[of _ "emit (Created h0) (tick empty_world)"] by (auto simp: empty_world_def)
  let ?w4 = "w_record_coverage graph_env c (record_audit graph_env (step_event leave_flow ''graph'' c ActionCreated []) w2)"
  obtain w5 where w5: "walk_steps graph_env None ''graph'' leave_flow [] 1 c ?w4 = (-1, None, w5)"
    "w_trace w5 = w_trace ?w4 @ [Filed (step_leave graph_env (step_at leave_flow 1) c)]"
    using demo_walk by blast
  have "\<not> opt_dry_run chain_options" by (simp add: chain_options_def)
  then have run: "demo_run = (None, w5)"
    using leave_flow_steps(1,3) by (simp add: demo_run_def run_workflow_on_def i c w2(1) Let_def run_steps_def w5(1))
  have "w_trace w5 = [Created h0, Filed (step_leave graph_env (step_at leave_flow 1) c)]" using w5(2) w2(2) by simp
  then show ?thesis unfolding run by (intro exI) simp
qed

theorem graph_run_loses_dates_witness:
  "\<exists>xs l. w_trace (snd demo_run) = xs \<and> list_all effect_undated (tl xs) \<and> Filed l \<in> set (tl xs)
     \<and> format_date (lv_start l) = ''0001-01-01''"
proof -
  obtain err w' where r: "demo_run = (err, w')" by fastforce
  obtain xs where "w_trace w' = w_trace empty_world @ xs" "list_all effect_undated (tl xs)"
    using graph_run_loses_dates[OF leave_flow_well_formed r[unfolded demo_run_def]] by blast
  then have "list_all effect_undated (tl (w_trace w'))" by (simp add: empty_world_def)
  moreover obtain l where "Filed l \<in> set (tl (w_trace w'))" using demo_files by (auto simp: r)
  moreover have "format_date zero_time = ''0001-01-01''" by code_simp
  ultimately show ?thesis by (intro exI[of _ "w_trace w'"] exI[of _ l]) (auto simp: r list_all_iff)
qed

text \<open>
  On Microsoft Graph no run ever enters time off in the coverage ledger, which refuses an entry that
  does not end after it starts. So the coverage command and its warnings see none of it.
\<close>

theorem graph_run_covers_nothing:
  assumes "well_formed k" and "run_workflow_on (on_graph p s env) prov k opt w = (err, w')"
  shows "ledger_entries w' \<subseteq> ledger_entries w"
  using assms(2)
proof (cases rule: graph_run_cases)
  case (3 h created w2 err')
  have "ledger_entries w2 = ledger_entries w" by (rule ledger_entries_cong[OF 3(3)])
  then show ?thesis using run_steps_entries[OF well_formed_runnable[OF assms(1)] 3(4)] by simp
qed (auto dest: ledger_entries_cong)

theorem graph_run_covers_nothing_witness: "ledger_entries (snd demo_run) = {}"
proof -
  obtain err w' where r: "demo_run = (err, w')" by fastforce
  have "ledger_entries w' \<subseteq> ledger_entries empty_world"
    by (rule graph_run_covers_nothing[OF leave_flow_well_formed r[unfolded demo_run_def]])
  moreover have "ledger_entries empty_world = {}" by (simp add: ledger_entries_def load_ledger_def empty_world_def)
  ultimately show ?thesis by (simp add: r)
qed

end
