(* ===== verification/Comms.thy ===== *)
theory Comms
  imports Go_Http Go_Strings
begin

text \<open>
  Messages (\<open>internal/comms\<close>): the route of a channel to a backend, the email, Slack and webhook
  notifiers, and the notifier the environment selects (\<open>resolveNotifier\<close> in \<open>cmd/run.go\<close>). A backend that
  sends mail is a function from sender, recipient and message.
\<close>

section \<open>Routing\<close>

type_synonym notifier = "string \<Rightarrow> string \<Rightarrow> error option"

definition is_url :: "string \<Rightarrow> bool" where
  "is_url channel \<longleftrightarrow> has_prefix channel ''https://'' \<or> has_prefix channel ''http://''"

definition route :: "notifier option \<Rightarrow> notifier option \<Rightarrow> notifier option \<Rightarrow> notifier" where
  "route slack email webhook channel text =
     (if is_url channel
      then (case webhook of None \<Rightarrow> Some (Errorf ''no webhook backend'' []) | Some notify \<Rightarrow> notify channel text)
      else if CHR ''@'' \<in> set channel
      then (case email of None \<Rightarrow> Some (Errorf ''no email backend: set VAMOOSE_SMTP_HOST'' []) | Some notify \<Rightarrow> notify channel text)
      else (case slack of None \<Rightarrow> Some (Errorf ''no slack backend: set VAMOOSE_SLACK_BOT_TOKEN'' [])
            | Some notify \<Rightarrow> notify channel text))"

section \<open>Email\<close>

abbreviation lf :: char where "lf \<equiv> CHR 0x0A"
abbreviation cr :: char where "cr \<equiv> CHR 0x0D"

definition crlf :: string where "crlf = [cr, lf]"

text \<open>\<open>firstLine\<close>: the text before the first line feed.\<close>

definition text_first_line :: "string \<Rightarrow> string" where
  "text_first_line s = takeWhile (\<lambda>c. c \<noteq> lf) s"

definition build_email :: "string \<Rightarrow> string \<Rightarrow> string \<Rightarrow> string \<Rightarrow> string" where
  "build_email sender to subject body =
     ''From: '' @ sender @ crlf @ ''To: '' @ to @ crlf @ ''Subject: '' @ subject @ crlf
     @ ''MIME-Version: 1.0'' @ crlf @ ''Content-Type: text/plain; charset=utf-8'' @ crlf @ crlf @ body"

record email_config =
  em_host :: string
  em_port :: string
  em_username :: string
  em_password :: string
  em_from :: string

text \<open>\<open>smtp.SendMail\<close>: address, whether it signs in, sender, recipients and message.\<close>

type_synonym mailer = "string \<Rightarrow> bool \<Rightarrow> string \<Rightarrow> string list \<Rightarrow> string \<Rightarrow> error option"

text \<open>\<open>net.JoinHostPort\<close> puts a host with a colon in brackets.\<close>

definition join_host_port :: "string \<Rightarrow> string \<Rightarrow> string" where
  "join_host_port host port =
     (if CHR '':'' \<in> set host then ''['' @ host @ '']:'' @ port else host @ '':'' @ port)"

definition email_notify :: "mailer \<Rightarrow> email_config \<Rightarrow> notifier" where
  "email_notify send cf to text =
     (if to = [] then Some (Errorf ''email notify: empty recipient'' [])
      else let line = text_first_line text;
               subject = (if line = [] then ''Calendar update'' else line);
               addr = join_host_port (em_host cf) (if em_port cf = [] then ''587'' else em_port cf)
           in case send addr (em_username cf \<noteq> []) (em_from cf) [to] (build_email (em_from cf) to subject text) of
                Some e \<Rightarrow> Some (Errorf ''email notify'' [e])
              | None \<Rightarrow> None)"

section \<open>Slack and webhooks\<close>

definition slack_reply_field :: "bool \<times> string \<Rightarrow> string \<Rightarrow> json \<Rightarrow> (bool \<times> string) option" where
  "slack_reply_field r k v =
     (if equal_fold k ''ok'' then map_option (\<lambda>x. (x, snd r)) (as_bool (fst r) v)
      else if equal_fold k ''error'' then map_option (\<lambda>x. (fst r, x)) (as_string (snd r) v)
      else Some r)"

text \<open>A \<open>Decoder\<close> reads one value and leaves what follows it.\<close>

definition decode_first :: "(json \<Rightarrow> 'a option) \<Rightarrow> string \<Rightarrow> 'a result" where
  "decode_first dec t =
     (case scan_value (json_fuel t) t of
        None \<Rightarrow> Inl (Errorf ''invalid JSON'' [])
      | Some (j, r) \<Rightarrow> (case dec j of None \<Rightarrow> Inl (Errorf ''json: cannot unmarshal'' []) | Some x \<Rightarrow> Inr x))"

definition slack_request :: "string \<Rightarrow> string \<Rightarrow> string \<Rightarrow> http_request" where
  "slack_request tok channel text =
     \<lparr>hq_method = ''POST'', hq_url = ''https://slack.com/api/chat.postMessage'',
      hq_headers = [(''Content-Type'', ''application/json; charset=utf-8''), (''Authorization'', ''Bearer '' @ tok)],
      hq_body = show_json (JObj [(''channel'', JStr channel), (''text'', JStr text)])\<rparr>"

definition slack_notify :: "http_call \<Rightarrow> string \<Rightarrow> notifier" where
  "slack_notify call tok channel text =
     (if channel = [] then Some (Errorf ''slack notify: empty channel'' [])
      else case call (slack_request tok channel text) of
        Inl e \<Rightarrow> Some (Errorf ''slack notify'' [e])
      | Inr r \<Rightarrow>
          (case decode_first (in_object slack_reply_field (False, [])) (hs_body r) of
             Inl e \<Rightarrow> Some (Errorf ''slack notify: decode response'' [e])
           | Inr (ok, msg) \<Rightarrow>
               (if ok then None
                else Some (Errorf (''slack notify: '' @ (if msg = [] then ''unknown error'' else msg)) []))))"

definition webhook_notify :: "http_call \<Rightarrow> string \<Rightarrow> notifier" where
  "webhook_notify call auth channel text =
     (case call \<lparr>hq_method = ''POST'', hq_url = channel,
         hq_headers = (''Content-Type'', ''application/json'') # (if auth = [] then [] else [(''Authorization'', auth)]),
         hq_body = show_json (JObj [(''text'', JStr text)])\<rparr> of
        Inl e \<Rightarrow> Some e
      | Inr r \<Rightarrow>
          (if ok_status (hs_status r) then None
           else Some (Errorf (''webhook '' @ channel @ '': status '' @ show_int (hs_status r) @ '': '' @ limit_resp (hs_body r)) [])))"

text \<open>\<open>resolveNotifier\<close>: there is always a route, whose Slack and email sides may be missing.\<close>

definition resolve_notifier :: "(string \<Rightarrow> string) \<Rightarrow> mailer \<Rightarrow> http_call \<Rightarrow> notifier" where
  "resolve_notifier getenv send call =
     (let tok = getenv ''VAMOOSE_SLACK_BOT_TOKEN''; host = getenv ''VAMOOSE_SMTP_HOST'' in
      route (if tok = [] then None else Some (slack_notify call tok))
        (if host = [] then None
         else Some (email_notify send \<lparr>em_host = host, em_port = getenv ''VAMOOSE_SMTP_PORT'',
           em_username = getenv ''VAMOOSE_SMTP_USERNAME'', em_password = getenv ''VAMOOSE_SMTP_PASSWORD'',
           em_from = getenv ''VAMOOSE_SMTP_FROM''\<rparr>))
        (Some (webhook_notify call (getenv ''VAMOOSE_WEBHOOK_AUTH''))))"

section \<open>Reading a message\<close>

text \<open>
  A reader of mail: header lines end at a line feed, with the carriage return before it dropped, and the
  first empty line ends the headers.
\<close>

function read_mail :: "string \<Rightarrow> string list \<times> string" where
  "read_mail m =
     (if lf \<notin> set m then ([], m)
      else let line = takeWhile (\<lambda>c. c \<noteq> lf) m; rest = tl (dropWhile (\<lambda>c. c \<noteq> lf) m);
               line = trim_suffix line [cr]
           in if line = [] then ([], rest) else (case read_mail rest of (hs, b) \<Rightarrow> (line # hs, b)))"
  by pat_completeness auto

termination read_mail
proof (relation "measure length")
  fix m :: string and line rest
  assume h: "\<not> lf \<notin> set m" and r: "rest = tl (dropWhile (\<lambda>c. c \<noteq> lf) m)"
  have "dropWhile (\<lambda>c. c \<noteq> lf) m \<noteq> []" using h by (auto simp: dropWhile_eq_Nil_conv)
  then have "length rest < length (dropWhile (\<lambda>c. c \<noteq> lf) m)" using r by simp
  also have "\<dots> \<le> length m" by (rule length_dropWhile_le)
  finally show "(rest, m) \<in> measure length" by simp
qed simp

declare read_mail.simps [simp del]

lemma read_mail_line:
  assumes "lf \<notin> set l" and "l \<noteq> []" and "l \<noteq> [cr]"
  shows "read_mail (l @ crlf @ r) = (l # fst (read_mail r), snd (read_mail r))"
proof -
  have "takeWhile (\<lambda>c. c \<noteq> lf) (l @ crlf @ r) = l @ [cr]" "dropWhile (\<lambda>c. c \<noteq> lf) (l @ crlf @ r) = lf # r"
    using assms(1) by (induction l) (auto simp: crlf_def)
  moreover have "lf \<in> set (l @ crlf @ r)" by (simp add: crlf_def)
  ultimately show ?thesis using assms(2) by (simp add: read_mail.simps[of "l @ crlf @ r"] split: prod.splits)
qed

lemma read_mail_end: "read_mail (crlf @ r) = ([], r)"
  by (simp add: crlf_def read_mail.simps[of "cr # lf # r"] trim_suffix_def has_suffix_iff)

lemma read_mail_lines:
  "list_all (\<lambda>l. lf \<notin> set l \<and> l \<noteq> [] \<and> l \<noteq> [cr]) hs \<Longrightarrow>
     read_mail (concat (map (\<lambda>l. l @ crlf) hs) @ crlf @ body) = (hs, body)"
  by (induction hs) (simp_all add: read_mail_end read_mail_line)

definition mail_headers :: "string \<Rightarrow> string \<Rightarrow> string \<Rightarrow> string list" where
  "mail_headers sender to subject =
     [''From: '' @ sender, ''To: '' @ to, ''Subject: '' @ subject, ''MIME-Version: 1.0'', ''Content-Type: text/plain; charset=utf-8'']"

lemma build_email_lines:
  "build_email sender to subject body = concat (map (\<lambda>l. l @ crlf) (mail_headers sender to subject)) @ crlf @ body"
  by (simp add: build_email_def mail_headers_def)

lemma read_build_email:
  assumes "lf \<notin> set sender" and "lf \<notin> set to" and "lf \<notin> set subject"
  shows "read_mail (build_email sender to subject body) = (mail_headers sender to subject, body)"
  unfolding build_email_lines by (rule read_mail_lines) (use assms in \<open>simp add: mail_headers_def\<close>)

section \<open>What the theory establishes\<close>

text \<open>
  The text of a message cannot add headers to the mail: whatever it holds, line breaks included, a
  reader of the sent message finds exactly the five headers, with the first line of the text as subject,
  and the text as the body.
\<close>

theorem email_text_stays_body:
  assumes "to \<noteq> []" and "lf \<notin> set to" and "lf \<notin> set (em_from cf)"
  shows "\<exists>addr m subject. email_notify send cf to text =
       map_option (\<lambda>e. Errorf ''email notify'' [e]) (send addr (em_username cf \<noteq> []) (em_from cf) [to] m)
     \<and> read_mail m = ([''From: '' @ em_from cf, ''To: '' @ to, ''Subject: '' @ subject, ''MIME-Version: 1.0'',
           ''Content-Type: text/plain; charset=utf-8''], text)
     \<and> (subject = text_first_line text \<or> text_first_line text = [] \<and> subject = ''Calendar update'')"
proof -
  let ?subject = "if text_first_line text = [] then ''Calendar update'' else text_first_line text"
  let ?addr = "join_host_port (em_host cf) (if em_port cf = [] then ''587'' else em_port cf)"
  let ?m = "build_email (em_from cf) to ?subject text"
  have "lf \<notin> set (text_first_line text)" using set_takeWhileD[of lf] by (auto simp: text_first_line_def)
  then have "lf \<notin> set ?subject" by simp
  then have "read_mail ?m = (mail_headers (em_from cf) to ?subject, text)" using assms(2,3) by (intro read_build_email)
  moreover have "email_notify send cf to text =
      map_option (\<lambda>e. Errorf ''email notify'' [e]) (send ?addr (em_username cf \<noteq> []) (em_from cf) [to] ?m)"
    using assms(1) by (simp add: email_notify_def Let_def split: option.splits)
  ultimately show ?thesis unfolding mail_headers_def by (intro exI[of _ ?addr] exI[of _ ?m] exI[of _ ?subject]) simp
qed

theorem email_text_stays_body_witness:
  "\<exists>addr m subject. email_notify (\<lambda>a au f t m. None) (\<lparr>em_host = ''h'', em_port = [], em_username = [], em_password = [], em_from = ''v@x''\<rparr>)
       ''team@x'' ([lf] @ ''Bcc: all@x'') =
       map_option (\<lambda>e. Errorf ''email notify'' [e]) ((\<lambda>a au f t m. None) addr False ''v@x'' [''team@x''] m)
     \<and> read_mail m = ([''From: '' @ ''v@x'', ''To: '' @ ''team@x'', ''Subject: '' @ subject, ''MIME-Version: 1.0'',
           ''Content-Type: text/plain; charset=utf-8''], [lf] @ ''Bcc: all@x'')
     \<and> (subject = text_first_line ([lf] @ ''Bcc: all@x'') \<or> text_first_line ([lf] @ ''Bcc: all@x'') = [] \<and> subject = ''Calendar update'')"
  using email_text_stays_body[of "''team@x''" "\<lparr>em_host = ''h'', em_port = [], em_username = [], em_password = [], em_from = ''v@x''\<rparr>"
      "\<lambda>a au f t m. None" "[lf] @ ''Bcc: all@x''"] by simp

end
