(* ===== verification/Mcp.thy ===== *)
theory Mcp
  imports Go_Http
begin

text \<open>
  The Model Context Protocol server (\<open>internal/mcp\<close>): JSON-RPC over lines of text. A raw message is the
  value it scans to, so an id is echoed as a value; a number with a fraction or an exponent is not
  told from another one. A tool is its name, description, schema and handler, which acts on a state
  of type \<open>'w\<close>. A handler is given \<open>None\<close> when the call carries no arguments.
\<close>

section \<open>Tools and the server\<close>

type_synonym 'w handler = "json option \<Rightarrow> 'w \<Rightarrow> (string \<times> error option) \<times> 'w"

record 'w tool =
  tl_name :: string
  tl_description :: string
  tl_schema :: "json option"
  tl_handler :: "'w handler"

record 'w mcp_server =
  ms_name :: string
  ms_version :: string
  ms_tools :: "'w tool list"

definition new_mcp_server :: "string \<Rightarrow> string \<Rightarrow> 'w mcp_server" where
  "new_mcp_server name version = \<lparr>ms_name = name, ms_version = version, ms_tools = []\<rparr>"

definition find_tool :: "'w mcp_server \<Rightarrow> string \<Rightarrow> 'w tool option" where
  "find_tool s name = find (\<lambda>t. tl_name t = name) (ms_tools s)"

text \<open>\<open>Register\<close> keeps the order; it panics, here \<open>None\<close>, on an empty or a repeated name.\<close>

definition register_tool :: "'w tool \<Rightarrow> 'w mcp_server \<Rightarrow> 'w mcp_server option" where
  "register_tool t s =
     (if tl_name t = [] \<or> find_tool s (tl_name t) \<noteq> None then None else Some (s\<lparr>ms_tools := ms_tools s @ [t]\<rparr>))"

fun register_all :: "'w tool list \<Rightarrow> 'w mcp_server \<Rightarrow> 'w mcp_server option" where
  "register_all [] s = Some s"
| "register_all (t # ts) s = (case register_tool t s of None \<Rightarrow> None | Some s \<Rightarrow> register_all ts s)"

section \<open>Messages\<close>

record rpc_request =
  rpc_id :: "json option"
  rpc_method :: string
  rpc_params :: "json option"

definition rpc_field :: "rpc_request \<Rightarrow> string \<Rightarrow> json \<Rightarrow> rpc_request option" where
  "rpc_field q k v =
     (if equal_fold k ''id'' then Some (q\<lparr>rpc_id := Some v\<rparr>)
      else if equal_fold k ''method'' then map_option (\<lambda>x. q\<lparr>rpc_method := x\<rparr>) (as_string (rpc_method q) v)
      else if equal_fold k ''params'' then Some (q\<lparr>rpc_params := Some v\<rparr>)
      else Some q)"

definition read_request :: "string \<Rightarrow> rpc_request result" where
  "read_request line = unmarshal (in_object rpc_field \<lparr>rpc_id = None, rpc_method = [], rpc_params = None\<rparr>) line"

definition ok_response :: "json \<Rightarrow> json \<Rightarrow> json" where
  "ok_response i r = JObj [(''jsonrpc'', JStr ''2.0''), (''id'', i), (''result'', r)]"

definition fail_response :: "json \<Rightarrow> int \<Rightarrow> string \<Rightarrow> json" where
  "fail_response i code msg =
     JObj [(''jsonrpc'', JStr ''2.0''), (''id'', i), (''error'', JObj [(''code'', JInt code), (''message'', JStr msg)])]"

definition parse_error_response :: json where
  "parse_error_response = fail_response JNull (-32700) ''parse error''"

section \<open>Handling a request\<close>

definition default_protocol :: string where "default_protocol = ''2025-06-18''"

definition version_field :: "string \<Rightarrow> string \<Rightarrow> json \<Rightarrow> string option" where
  "version_field p k v = (if equal_fold k ''protocolVersion'' then as_string p v else Some p)"

text \<open>\<open>Marshal\<close> writes maps with their keys in order.\<close>

definition initialize_result :: "'w mcp_server \<Rightarrow> json option \<Rightarrow> json" where
  "initialize_result s params =
     (let version =
        (case params of None \<Rightarrow> default_protocol
         | Some p \<Rightarrow> (case in_object version_field [] p of None \<Rightarrow> default_protocol
             | Some v \<Rightarrow> if v = [] then default_protocol else v))
      in JObj [(''capabilities'', JObj [(''tools'', JObj [(''listChanged'', JBool False)])]),
               (''protocolVersion'', JStr version),
               (''serverInfo'', JObj [(''name'', JStr (ms_name s)), (''version'', JStr (ms_version s))])])"

definition tool_json :: "'w tool \<Rightarrow> json" where
  "tool_json t =
     JObj [(''name'', JStr (tl_name t)), (''description'', JStr (tl_description t)),
       (''inputSchema'', case tl_schema t of None \<Rightarrow> JObj [(''type'', JStr ''object'')] | Some j \<Rightarrow> j)]"

definition tool_list :: "'w mcp_server \<Rightarrow> json" where
  "tool_list s = JObj [(''tools'', JArr (map tool_json (ms_tools s)))]"

text \<open>The arguments as a map: the last of equal keys counts; anything but an object is the empty map.\<close>

fun args_map :: "json option \<Rightarrow> string \<Rightarrow> json option" where
  "args_map (Some (JObj kvs)) = map_of (rev kvs)"
| "args_map _ = Map.empty"

fun schema_required :: "json option \<Rightarrow> string list" where
  "schema_required (Some (JObj kvs)) =
     (case map_of kvs ''required'' of
        Some (JArr js) \<Rightarrow> List.map_filter (\<lambda>j. case j of JStr n \<Rightarrow> Some n | _ \<Rightarrow> None) js
      | _ \<Rightarrow> [])"
| "schema_required _ = []"

definition lacks :: "json option \<Rightarrow> string \<Rightarrow> bool" where
  "lacks args n \<longleftrightarrow> args_map args n \<in> {None, Some JNull, Some (JStr [])}"

definition missing_required :: "json option \<Rightarrow> json option \<Rightarrow> string option" where
  "missing_required schema args = find (lacks args) (schema_required schema)"

definition tool_result :: "string \<Rightarrow> bool \<Rightarrow> json" where
  "tool_result t err =
     JObj [(''content'', JArr [JObj [(''text'', JStr t), (''type'', JStr ''text'')]]), (''isError'', JBool err)]"

text \<open>The parameters of a call: the name and the arguments as they came.\<close>

definition call_field :: "string \<times> json option \<Rightarrow> string \<Rightarrow> json \<Rightarrow> (string \<times> json option) option" where
  "call_field c k v =
     (if equal_fold k ''name'' then map_option (\<lambda>x. (x, snd c)) (as_string (fst c) v)
      else if equal_fold k ''arguments'' then Some (fst c, Some v)
      else Some c)"

definition call_params :: "json option \<Rightarrow> (string \<times> json option) option" where
  "call_params params = Option.bind params (in_object call_field ([], None))"

definition error_message :: "error \<Rightarrow> string" where
  "error_message e = (case e of Sentinel m \<Rightarrow> m | Errorf m es \<Rightarrow> m)"

definition call_tool :: "'w mcp_server \<Rightarrow> json \<Rightarrow> json option \<Rightarrow> 'w \<Rightarrow> json \<times> 'w" where
  "call_tool s i params w =
     (case call_params params of
        None \<Rightarrow> (fail_response i (-32602) ''invalid tool call params'', w)
      | Some (name, args) \<Rightarrow>
          (case find_tool s name of
             None \<Rightarrow> (fail_response i (-32602) (''unknown tool: '' @ name), w)
           | Some t \<Rightarrow>
               (case missing_required (tl_schema t) args of
                  Some n \<Rightarrow> (fail_response i (-32602) (''missing required argument: '' @ n), w)
                | None \<Rightarrow>
                    (case tl_handler t args w of
                       ((out, None), w) \<Rightarrow> (ok_response i (tool_result out False), w)
                     | ((out, Some e), w) \<Rightarrow>
                         (ok_response i (tool_result (if out = [] then error_message e else out) True), w)))))"

definition handle_rpc :: "'w mcp_server \<Rightarrow> rpc_request \<Rightarrow> 'w \<Rightarrow> json option \<times> 'w" where
  "handle_rpc s q w =
     (case rpc_id q of
        None \<Rightarrow> (None, w)
      | Some i \<Rightarrow>
          (if rpc_method q = ''initialize'' then (Some (ok_response i (initialize_result s (rpc_params q))), w)
           else if rpc_method q = ''ping'' then (Some (ok_response i (JObj [])), w)
           else if rpc_method q = ''tools/list'' then (Some (ok_response i (tool_list s)), w)
           else if rpc_method q = ''tools/call''
           then (case call_tool s i (rpc_params q) w of (r, w) \<Rightarrow> (Some r, w))
           else (Some (fail_response i (-32601) (''method not found: '' @ rpc_method q)), w)))"

section \<open>Serving\<close>

text \<open>
  One line: skipped when blank, refused when it does not parse, handled otherwise. \<open>Serve\<close> reads lines
  until the input ends, a line is too long for the scanner, or a response cannot be written;
  \<open>out_err\<close> says whether the next write fails, given the responses written before it.
\<close>

definition serve_line :: "'w mcp_server \<Rightarrow> string \<Rightarrow> 'w \<Rightarrow> json option \<times> 'w" where
  "serve_line s line w =
     (if trim_space line = [] then (None, w)
      else case read_request line of
        Inl e \<Rightarrow> (Some parse_error_response, w)
      | Inr q \<Rightarrow> handle_rpc s q w)"

definition max_line :: int where "max_line = 2 ^ 20"

definition err_too_long :: error where "err_too_long = Sentinel ''bufio.Scanner: token too long''"

fun serve_lines ::
  "'w mcp_server \<Rightarrow> (json list \<Rightarrow> error option) \<Rightarrow> string list \<Rightarrow> json list \<Rightarrow> 'w \<Rightarrow> json list \<times> error option \<times> 'w" where
  "serve_lines s out_err [] outs w = (outs, None, w)"
| "serve_lines s out_err (l # ls) outs w =
     (if max_line \<le> int (length l) then (outs, Some err_too_long, w)
      else case serve_line s (trim_suffix l [CHR 0x0D]) w of
        (None, w) \<Rightarrow> serve_lines s out_err ls outs w
      | (Some r, w) \<Rightarrow>
          (case out_err outs of
             Some e \<Rightarrow> (outs, Some e, w)
           | None \<Rightarrow> serve_lines s out_err ls (outs @ [r]) w))"

definition input_lines :: "string \<Rightarrow> string list" where
  "input_lines t = (let ls = split_on (CHR 0x0A) t in if last ls = [] then butlast ls else ls)"

definition serve_mcp :: "'w mcp_server \<Rightarrow> (json list \<Rightarrow> error option) \<Rightarrow> string \<Rightarrow> 'w \<Rightarrow> json list \<times> error option \<times> 'w" where
  "serve_mcp s out_err input w = serve_lines s out_err (input_lines input) [] w"

section \<open>What a line is answered with\<close>

text \<open>The id a line is answered under; \<open>None\<close> when it gets no answer.\<close>

definition answered_id :: "string \<Rightarrow> json option" where
  "answered_id line =
     (if trim_space line = [] then None
      else case read_request line of Inl e \<Rightarrow> Some JNull | Inr q \<Rightarrow> rpc_id q)"

fun response_id :: "json \<Rightarrow> json option" where
  "response_id (JObj kvs) = map_of kvs ''id''"
| "response_id _ = None"

lemma response_ids [simp]:
  "response_id (ok_response i r) = Some i" "response_id (fail_response i c m) = Some i"
  "response_id parse_error_response = Some JNull"
  by (simp_all add: ok_response_def fail_response_def parse_error_response_def)

lemma call_tool_id: "call_tool s i p w = (r, w') \<Longrightarrow> response_id r = Some i"
  by (auto simp: call_tool_def split: option.splits prod.splits)

lemma handle_rpc_id: "map_option response_id (fst (handle_rpc s q w)) = map_option Some (rpc_id q)"
  by (cases "rpc_id q") (auto simp: handle_rpc_def dest: call_tool_id split: prod.splits)

lemma serve_line_id: "map_option response_id (fst (serve_line s l w)) = map_option Some (answered_id l)"
  using handle_rpc_id by (auto simp: serve_line_def answered_id_def split: sum.splits)

lemma serve_lines_ids:
  "(\<And>r. out_err r = None) \<Longrightarrow> list_all (\<lambda>l. int (length l) < max_line) ls \<Longrightarrow>
   serve_lines s out_err ls outs w = (rs, e, w') \<Longrightarrow>
     e = None \<and> map response_id rs = map response_id outs
       @ map Some (List.map_filter (\<lambda>l. answered_id (trim_suffix l [CHR 0x0D])) ls)"
proof (induction ls arbitrary: outs w)
  case (Cons l ls)
  obtain r w1 where l: "serve_line s (trim_suffix l [CHR 0x0D]) w = (r, w1)" by fastforce
  have "map_option response_id r = map_option Some (answered_id (trim_suffix l [CHR 0x0D]))"
    using serve_line_id[of s "trim_suffix l [CHR 0x0D]" w] by (simp add: l)
  then show ?case using Cons.prems Cons.IH[OF Cons.prems(1)]
    by (cases r; cases "answered_id (trim_suffix l [CHR 0x0D])") (simp_all add: l List.map_filter_simps)
qed (simp add: List.map_filter_simps)

text \<open>Only the handler of a tool changes the state.\<close>

definition handler_runs :: "'w mcp_server \<Rightarrow> rpc_request \<Rightarrow> 'w tool \<Rightarrow> json option \<Rightarrow> bool" where
  "handler_runs s q t args \<longleftrightarrow> rpc_id q \<noteq> None \<and> rpc_method q = ''tools/call''
     \<and> (\<exists>name. call_params (rpc_params q) = Some (name, args) \<and> find_tool s name = Some t)
     \<and> missing_required (tl_schema t) args = None"

lemma call_tool_acts:
  "call_tool s i p w = (r, w') \<Longrightarrow> w' = w \<or> (\<exists>name args t. call_params p = Some (name, args) \<and> find_tool s name = Some t
     \<and> missing_required (tl_schema t) args = None \<and> w' = snd (tl_handler t args w))"
  by (auto simp: call_tool_def split: option.splits prod.splits)

lemma handle_rpc_acts:
  assumes "handle_rpc s q w = (r, w')"
  shows "w' = w \<or> (\<exists>t args. handler_runs s q t args \<and> w' = snd (tl_handler t args w))"
proof (cases "rpc_id q \<noteq> None \<and> rpc_method q = ''tools/call''")
  case True
  then obtain i where i: "rpc_id q = Some i" by auto
  then obtain r0 where c: "call_tool s i (rpc_params q) w = (r0, w')"
    using assms True by (cases "call_tool s i (rpc_params q) w") (auto simp: handle_rpc_def)
  from call_tool_acts[OF this] show ?thesis using True unfolding handler_runs_def by blast
qed (use assms in \<open>auto simp: handle_rpc_def split: option.splits if_splits\<close>)

end
