(* ===== verification/Mcp_Tools.thy ===== *)
theory Mcp_Tools
  imports Mcp Commands
begin

text \<open>
  The tools of the MCP server (\<open>cmd/mcp.go\<close>). A tool turns its arguments into a command line and runs
  the program itself with it. That subprocess, the temporary files and the path of the executable are
  \<open>self\<close>; the subprocess is tied to the command line of \<open>Commands\<close> by \<open>runs_self\<close>.
\<close>

section \<open>Arguments\<close>

definition arg_string :: "(string \<Rightarrow> json option) \<Rightarrow> string \<Rightarrow> string" where
  "arg_string m k = (case m k of Some (JStr s) \<Rightarrow> s | _ \<Rightarrow> [])"

definition arg_bool :: "(string \<Rightarrow> json option) \<Rightarrow> string \<Rightarrow> bool" where
  "arg_bool m k \<longleftrightarrow> m k = Some (JBool True)"

text \<open>A flag and its value, when the arguments carry one.\<close>

definition opt_flag :: "string \<Rightarrow> string \<Rightarrow> string list" where
  "opt_flag n v = (if v = [] then [] else [n, v])"

definition with_provider :: "string list \<Rightarrow> (string \<Rightarrow> json option) \<Rightarrow> string list" where
  "with_provider args m = args @ opt_flag ''--provider'' (arg_string m ''provider'')"

definition with_id :: "string list \<Rightarrow> (string \<Rightarrow> json option) \<Rightarrow> string list" where
  "with_id args m = with_provider (args @ opt_flag ''--id'' (arg_string m ''id'')) m"

definition run_keys :: "(string \<times> string) list" where
  "run_keys = [(''start'', ''--start''), (''end'', ''--end''), (''subject'', ''--subject''), (''manager'', ''--manager''),
     (''attendees'', ''--attendees'')]"

definition run_workflow_args :: "(string \<Rightarrow> json option) \<Rightarrow> bool \<Rightarrow> string list" where
  "run_workflow_args m preview =
     with_provider
       ([''run'', arg_string m ''workflow'']
        @ (if arg_string m ''phrase'' = [] then [] else [arg_string m ''phrase''])
        @ concat (map (\<lambda>(k, f). opt_flag f (arg_string m k)) run_keys)
        @ (if preview then [''--dry-run''] else if arg_bool m ''watch'' then [''--watch''] else [])) m"

definition schedule_workflow_args :: "(string \<Rightarrow> json option) \<Rightarrow> string list" where
  "schedule_workflow_args m =
     with_provider
       ([''schedule'', ''add'', arg_string m ''workflow'', ''--every'', arg_string m ''every'', ''--phrase'', arg_string m ''phrase'']
        @ opt_flag ''--subject'' (arg_string m ''subject'') @ opt_flag ''--manager'' (arg_string m ''manager'')) m"

definition request_args :: "(string \<Rightarrow> json option) \<Rightarrow> string list" where
  "request_args m =
     with_provider
       ([''request'', ''--start'', arg_string m ''start'', ''--end'', arg_string m ''end'', ''--subject'', arg_string m ''subject'']
        @ opt_flag ''--manager'' (arg_string m ''manager'') @ (if arg_bool m ''watch'' then [''--watch''] else [])) m"

definition away_args :: "(string \<Rightarrow> json option) \<Rightarrow> string list" where
  "away_args m =
     with_provider ([''away'', ''--start'', arg_string m ''start'', ''--end'', arg_string m ''end'']
       @ opt_flag ''--subject'' (arg_string m ''subject'')) m"

definition balance_args :: "(string \<Rightarrow> json option) \<Rightarrow> string list" where
  "balance_args m = ''balance'' # opt_flag ''--as-of'' (arg_string m ''as_of'')"

definition coverage_args :: "(string \<Rightarrow> json option) \<Rightarrow> string list" where
  "coverage_args m =
     ''coverage'' # (if arg_string m ''phrase'' = [] then [] else [arg_string m ''phrase''])
     @ opt_flag ''--start'' (arg_string m ''start'') @ opt_flag ''--end'' (arg_string m ''end'')"

definition event_args :: "(string \<Rightarrow> json option) \<Rightarrow> string list" where
  "event_args m =
     with_provider
       ([''event'', ''--start'', arg_string m ''start'', ''--end'', arg_string m ''end'', ''--subject'', arg_string m ''subject'']
        @ opt_flag ''--attendees'' (arg_string m ''attendees'') @ (if arg_bool m ''free'' then [''--free''] else [])) m"

section \<open>The program run by itself\<close>

record 'w self =
  sf_executable :: "'w \<Rightarrow> error option"
  sf_exec :: "string list \<Rightarrow> 'w \<Rightarrow> (string \<times> error option) \<times> 'w"
  sf_create_temp :: "'w \<Rightarrow> string result \<times> 'w"
  sf_write_temp :: "string \<Rightarrow> string \<Rightarrow> 'w \<Rightarrow> error option \<times> 'w"
  sf_remove :: "string \<Rightarrow> 'w \<Rightarrow> 'w"

definition exec_self :: "'w self \<Rightarrow> string list \<Rightarrow> 'w \<Rightarrow> (string \<times> error option) \<times> 'w" where
  "exec_self sf args w = (case sf_executable sf w of Some e \<Rightarrow> (([], Some e), w) | None \<Rightarrow> sf_exec sf args w)"

definition create_workflow_tool :: "'w self \<Rightarrow> 'w handler" where
  "create_workflow_tool sf args w =
     (let def = arg_string (args_map args) ''definition'' in
      if def = [] then (([], Some (Errorf ''create_workflow: definition is required'' [])), w)
      else case sf_create_temp sf w of
        (Inl e, w) \<Rightarrow> (([], Some e), w)
      | (Inr f, w) \<Rightarrow>
          (case sf_write_temp sf f def w of
             (Some e, w) \<Rightarrow> (([], Some e), sf_remove sf f w)
           | (None, w) \<Rightarrow>
               (case exec_self sf [''workflows'', ''add'', ''--file'', f] w of (r, w) \<Rightarrow> (r, sf_remove sf f w))))"

definition exec_tool :: "'w self \<Rightarrow> ((string \<Rightarrow> json option) \<Rightarrow> string list) \<Rightarrow> 'w handler" where
  "exec_tool sf f args w = exec_self sf (f (args_map args)) w"

section \<open>Schemas\<close>

type_synonym props = "(string \<times> json) list"

definition str_prop :: "string \<Rightarrow> json" where
  "str_prop desc = JObj [(''description'', JStr desc), (''type'', JStr ''string'')]"

definition bool_prop :: "string \<Rightarrow> json" where
  "bool_prop desc = JObj [(''description'', JStr desc), (''type'', JStr ''boolean'')]"

definition object_schema :: "string list \<Rightarrow> props \<Rightarrow> json" where
  "object_schema required props =
     JObj ([(''properties'', JObj (sort_key fst props))]
       @ (if required = [] then [] else [(''required'', JArr (map JStr required))]) @ [(''type'', JStr ''object'')])"

definition merge_props :: "props \<Rightarrow> props \<Rightarrow> props" where
  "merge_props base extra = foldl (\<lambda>m (k, v). AList.update k v m) base extra"

definition provider_prop :: "string \<times> json" where
  "provider_prop = (''provider'', str_prop ''Calendar provider: graph, google, icloud, or caldav'')"

definition hold_props :: props where
  "hold_props = [(''id'', str_prop ''Hold id; omit for the most recent hold''), provider_prop]"

definition day_props :: props where
  "day_props = [(''start'', str_prop ''Start date as YYYY-MM-DD or an RFC3339 time''),
     (''end'', str_prop ''End date as YYYY-MM-DD or an RFC3339 time'')]"

definition workflow_run_props :: props where
  "workflow_run_props =
     [(''workflow'', str_prop ''Workflow name, e.g. pto, notify-only, away (see list_workflows)''),
      (''phrase'', str_prop (''Date phrase like '' @ [CHR 0x22] @ ''next week'' @ [CHR 0x22] @ '' or '' @ [CHR 0x22] @ ''tomorrow'' @ [CHR 0x22])),
      (''start'', str_prop ''Start date as YYYY-MM-DD; overrides the phrase''),
      (''end'', str_prop ''End date as YYYY-MM-DD; overrides the phrase''),
      (''subject'', str_prop ''Event subject; defaults per workflow''),
      (''manager'', str_prop ''Approver email for a directory-less backend''),
      (''attendees'', str_prop ''Comma-separated attendees, for an event workflow''), provider_prop]"

section \<open>The tools\<close>

definition tool_of :: "string \<Rightarrow> string \<Rightarrow> string list \<Rightarrow> props \<Rightarrow> 'w handler \<Rightarrow> 'w tool" where
  "tool_of n d req props h = \<lparr>tl_name = n, tl_description = d, tl_schema = Some (object_schema req props), tl_handler = h\<rparr>"

definition command_tools :: "'w self \<Rightarrow> 'w tool list" where
  "command_tools sf =
     [tool_of ''whoami'' ''Print the signed-in user, manager, and resolved team.'' [] [provider_prop]
        (exec_tool sf (with_provider [''whoami''])),
      tool_of ''request_time_off'' ''Create a time-off hold shown as free and invite the manager to approve it.''
        [''start'', ''end'', ''subject'']
        (day_props @ [(''subject'', str_prop ''Event subject''),
           (''manager'', str_prop ''Manager email; omit to resolve from the directory''), provider_prop,
           (''watch'', bool_prop ''Auto-promote to the team once approved'')])
        (exec_tool sf request_args),
      tool_of ''time_off_status'' ''Show whether the manager has approved the latest or given hold.'' [] hold_props
        (exec_tool sf (with_id [''check''])),
      tool_of ''promote_to_team'' ''Add the team as optional attendees to an approved hold.'' [] hold_props
        (exec_tool sf (with_id [''promote''])),
      tool_of ''cancel_hold'' ''Cancel a hold and notify its attendees.'' [] hold_props
        (exec_tool sf (with_id [''cancel''])),
      tool_of ''set_away'' ''Mark yourself out of office over a date range, with no approval.'' [''start'', ''end'']
        (day_props @ [(''subject'', str_prop ''Event subject (default: Out of office)''), provider_prop])
        (exec_tool sf away_args),
      tool_of ''leave_balance'' ''Show remaining time off read from the configured HR system.'' []
        [(''as_of'', str_prop ''Date to check the balance as of, YYYY-MM-DD; omit for today'')]
        (exec_tool sf balance_args),
      tool_of ''team_coverage'' ''Show who already has time off booked in a window, before booking or approving more.'' []
        [(''phrase'', str_prop (''Date phrase such as '' @ [CHR 0x22] @ ''next week'' @ [CHR 0x22] @ ''; omit for next week'')),
         (''start'', str_prop ''Explicit start date as YYYY-MM-DD; overrides the phrase''),
         (''end'', str_prop ''Explicit end date as YYYY-MM-DD; overrides the phrase'')]
        (exec_tool sf coverage_args),
      tool_of ''create_event'' ''Create a quick calendar event, optionally inviting attendees.'' [''start'', ''end'', ''subject'']
        (day_props @ [(''subject'', str_prop ''Event subject''),
           (''attendees'', str_prop ''Comma-separated attendee emails to invite''),
           (''free'', bool_prop ''Show the event as free instead of busy''), provider_prop])
        (exec_tool sf event_args)]"

definition workflow_tools :: "'w self \<Rightarrow> 'w tool list" where
  "workflow_tools sf =
     [tool_of ''list_workflows''
        ''List every workflow that can be run, built-in and user-defined, with its description. Call this first to discover what run_workflow and preview_workflow can run.''
        [] [] (exec_tool sf (\<lambda>m. [''workflows''])),
      tool_of ''preview_workflow''
        ''Show the plan a workflow would carry out for a date window, without creating or changing anything. Use this to explain what will happen before calling run_workflow.''
        [''workflow''] workflow_run_props (exec_tool sf (\<lambda>m. run_workflow_args m True)),
      tool_of ''run_workflow''
        ''Run a named workflow over a date phrase or explicit dates: it creates the hold and runs the steps up to any approval gate. Set watch so the daemon advances it once approved. Prefer preview_workflow first.''
        [''workflow'']
        (merge_props workflow_run_props
          [(''watch'', bool_prop ''Watch for approval so the daemon advances the workflow once the manager accepts'')])
        (exec_tool sf (\<lambda>m. run_workflow_args m False)),
      tool_of ''list_schedules'' ''List the recurring workflow schedules and when each next runs.'' [] []
        (exec_tool sf (\<lambda>m. [''schedule'', ''list''])),
      tool_of ''schedule_workflow''
        ''Schedule a workflow to rerun on an interval, such as weekly. The daemon fires it, resolving the date phrase fresh each run. Intervals are Go durations, so weekly is 168h.''
        [''workflow'', ''every'', ''phrase'']
        [(''workflow'', str_prop ''Workflow name to rerun (see list_workflows)''),
         (''every'', str_prop ''Interval between runs as a Go duration, e.g. 168h for weekly''),
         (''phrase'', str_prop (''Date phrase resolved each run, e.g. '' @ [CHR 0x22] @ ''next week'' @ [CHR 0x22])),
         (''subject'', str_prop ''Event subject''),
         (''manager'', str_prop ''Approver email for a directory-less backend''), provider_prop]
        (exec_tool sf schedule_workflow_args),
      tool_of ''create_workflow''
        ''Create or replace a reusable user workflow from a JSON definition, so it can then be previewed and run by name. The definition is validated and rejected with the reason if invalid. Model it on the built-ins from list_workflows.''
        [''definition'']
        [(''definition'', str_prop ''The workflow as a JSON object with a name, description, and steps. Step verbs are hold, approve, notify, note, away, event, cancel, message, and wait.'')]
        (create_workflow_tool sf)]"

definition mcp_tools :: "'w self \<Rightarrow> 'w tool list" where
  "mcp_tools sf = command_tools sf @ workflow_tools sf"

definition run_mcp :: "string \<Rightarrow> 'w self \<Rightarrow> (json list \<Rightarrow> error option) \<Rightarrow> string list \<Rightarrow> string \<Rightarrow> 'w \<Rightarrow> (json list \<times> error option \<times> 'w) option" where
  "run_mcp version sf out_err args input w =
     (case parse_flags [] [] args of
        Inl e \<Rightarrow> Some ([], Some e, w)
      | Inr r \<Rightarrow> map_option (\<lambda>s. serve_mcp s out_err input w) (register_all (mcp_tools sf) (new_mcp_server ''vamoose'' version)))"

section \<open>Command lines whose flags stay in step\<close>

text \<open>
  A list of flags each followed by its value is read as those flags, whatever the values are; a value
  never becomes a flag.
\<close>

definition str_flag :: "(string \<times> flag_kind) list \<Rightarrow> string \<Rightarrow> bool" where
  "str_flag spec n \<longleftrightarrow> map_of spec n = Some Flag_String \<and> n \<noteq> [] \<and> \<not> has_prefix n ''-'' \<and> CHR ''='' \<notin> set n"

definition pairs :: "(string \<times> string) list \<Rightarrow> string list" where
  "pairs nvs = concat (map (\<lambda>(n, v). [''--'' @ n, v]) nvs)"

definition set_flags :: "(string \<times> string) list \<Rightarrow> flags \<Rightarrow> flags" where
  "set_flags nvs vs = foldl (\<lambda>vs (n, v). AList.update n v vs) vs nvs"

lemma pairs_simps [simp]:
  "pairs [] = []" "pairs ((n, v) # nvs) = (''--'' @ n) # v # pairs nvs" "pairs (xs @ ys) = pairs xs @ pairs ys"
  by (simp_all add: pairs_def)

lemma parse_pairs:
  "list_all (\<lambda>(n, v). str_flag spec n) nvs \<Longrightarrow>
     parse_flags spec vs (pairs nvs @ rest) = parse_flags spec (set_flags nvs vs) rest"
proof (induction nvs arbitrary: vs)
  case (Cons p nvs)
  obtain n v where p: "p = (n, v)" by fastforce
  show ?case using Cons string_flag_takes_next[of spec n vs v "pairs nvs @ rest"]
    by (simp add: p str_flag_def set_flags_def)
qed (simp add: set_flags_def)

lemma flag_str_update: "flag_str (AList.update n v vs) m = (if m = n then v else flag_str vs m)"
  by (simp add: flag_str_def update_conv')

lemma flag_str_set_flags: "m \<notin> fst ` set nvs \<Longrightarrow> flag_str (set_flags nvs vs) m = flag_str vs m"
  by (induction nvs arbitrary: vs) (auto simp: set_flags_def flag_str_update)

definition present :: "(string \<times> string) list \<Rightarrow> (string \<times> string) list" where
  "present nvs = filter (\<lambda>(n, v). v \<noteq> []) nvs"

lemma opt_flag_pairs: "opt_flag (''--'' @ n) v = pairs (present [(n, v)])"
  by (simp add: opt_flag_def present_def)

lemma present_names: "fst ` set (present nvs) \<subseteq> fst ` set nvs"
  by (auto simp: present_def)

lemma present_all: "list_all (\<lambda>(n, v). str_flag spec n) nvs \<Longrightarrow> list_all (\<lambda>(n, v). str_flag spec n) (present nvs)"
  by (auto simp: present_def list_all_iff)

lemma bool_flag_read:
  "map_of spec n = Some Flag_Bool \<Longrightarrow> n \<noteq> [] \<Longrightarrow> \<not> has_prefix n ''-'' \<Longrightarrow> CHR ''='' \<notin> set n \<Longrightarrow>
     parse_flags spec vs ((''--'' @ n) # rest) = parse_flags spec (AList.update n ''true'' vs) rest"
proof -
  assume n: "map_of spec n = Some Flag_Bool" "n \<noteq> []" "\<not> has_prefix n ''-''" "CHR ''='' \<notin> set n"
  then have "\<not> has_prefix n ''=''" by (cases n) auto
  then show ?thesis using n by (simp add: flag_name_def cut_on_no_sep parse_bool_def bool_text_def)
qed

end
