(* ===== verification/Mcp_Properties.thy ===== *)
theory Mcp_Properties
  imports Mcp_Tools Run_Properties Scenario Templates
begin

text \<open>
  What an agent can and cannot do through the MCP server: which requests are answered, which reach a
  tool, and what the preview and promote tools do to the calendar, whatever arguments they are given.
\<close>

section \<open>The arguments of a preview\<close>

definition window_pairs :: "(string \<Rightarrow> json option) \<Rightarrow> (string \<times> string) list" where
  "window_pairs m = present (map (\<lambda>k. (k, arg_string m k)) [''start'', ''end'', ''subject'', ''manager'', ''attendees''])"

definition preview_tail :: "string \<Rightarrow> string list" where
  "preview_tail p = ''--dry-run'' # pairs (present [(''provider'', p)])"

lemma run_keys_pairs:
  "concat (map (\<lambda>(k, f). opt_flag f (arg_string m k)) run_keys) = pairs (window_pairs m)"
  using opt_flag_pairs[of "''start''" "arg_string m ''start''"] opt_flag_pairs[of "''end''" "arg_string m ''end''"]
    opt_flag_pairs[of "''subject''" "arg_string m ''subject''"] opt_flag_pairs[of "''manager''" "arg_string m ''manager''"]
    opt_flag_pairs[of "''attendees''" "arg_string m ''attendees''"]
  by (simp add: run_keys_def window_pairs_def present_def)

lemma preview_args:
  "run_workflow_args m True = ''run'' # arg_string m ''workflow''
     # (if arg_string m ''phrase'' = [] then [] else [arg_string m ''phrase''])
     @ pairs (window_pairs m) @ preview_tail (arg_string m ''provider'')"
  using opt_flag_pairs[of "''provider''" "arg_string m ''provider''"]
  by (simp add: run_workflow_args_def run_keys_pairs with_provider_def preview_tail_def)

abbreviation run_str :: "string \<Rightarrow> bool" where "run_str \<equiv> str_flag run_flags"

lemma run_strs:
  "run_str ''start''" "run_str ''end''" "run_str ''subject''" "run_str ''manager''" "run_str ''attendees''" "run_str ''provider''"
  by code_simp+

lemma window_pairs_str: "list_all (\<lambda>(n, v). run_str n) (window_pairs m)"
  unfolding window_pairs_def by (rule present_all) (simp add: run_strs)

lemma provider_str: "list_all (\<lambda>(n, v). run_str n) (present [(''provider'', p)])"
  by (rule present_all) (simp add: run_strs)

lemma dry_run_bool: "map_of run_flags ''dry-run'' = Some Flag_Bool"
  by code_simp

lemma aligned_preview:
  assumes "list_all (\<lambda>(n, v). run_str n) nvs"
  shows "\<exists>vs'. parse_flags run_flags vs (pairs nvs @ preview_tail p) = Inr (vs', []) \<and> flag_set vs' ''dry-run''"
proof -
  let ?vs = "AList.update ''dry-run'' ''true'' (set_flags nvs vs)"
  let ?ps = "present [(''provider'', p)]"
  have "parse_flags run_flags vs (pairs nvs @ preview_tail p) = parse_flags run_flags ?vs (pairs ?ps @ [])"
    using bool_flag_read[OF dry_run_bool, of "set_flags nvs vs" "pairs ?ps"]
    by (simp add: parse_pairs[OF assms] preview_tail_def)
  also have "\<dots> = Inr (set_flags ?ps ?vs, [])" unfolding parse_pairs[OF provider_str] by simp
  finally show ?thesis
    using flag_str_set_flags[of "''dry-run''" ?ps ?vs] present_names[of "[(''provider'', p)]"]
    by (auto simp: flag_set_def flag_str_update)
qed

text \<open>
  A phrase that looks like a flag may take the first flag as its value, and a value of the request the
  next one, up to \<open>--dry-run\<close>. Then the start is no date, and whatever is left over holds \<open>--dry-run\<close>.
\<close>

definition no_date :: "string \<Rightarrow> bool" where
  "no_date s \<longleftrightarrow> s = [] \<or> has_prefix s ''-''"

definition harmless :: "flags \<Rightarrow> string list \<Rightarrow> bool" where
  "harmless vs left \<longleftrightarrow>
     flag_set vs ''dry-run'' \<or> no_date (flag_str vs ''start'') \<and> (left = [] \<or> ''--dry-run'' \<in> set left)"

lemma flag_key_no_date: "no_date (''--'' @ n)"
  by (simp add: no_date_def)

lemma no_date_key_update: "no_date (flag_str vs ''start'') \<Longrightarrow> no_date (flag_str (AList.update n (''--'' @ k) vs) ''start'')"
  using flag_key_no_date[of k] by (simp add: flag_str_update)

lemma flag_step:
  assumes "parse_flags spec vs (t # rest) = Inr (vs', left)"
  obtains (stopped) "vs' = vs" "left = t # rest \<or> left = rest"
  | (alone) vs1 where "parse_flags spec vs1 rest = Inr (vs', left)"
  | (takes) n k rest' where "rest = k # rest'" "parse_flags spec (AList.update n k vs) rest' = Inr (vs', left)"
proof -
  note r = assms[unfolded parse_flags.simps(2)]
  show thesis
  proof (cases "flag_syntax t")
    case (Named n val)
    with r obtain k where k: "map_of spec n = Some k" by (cases "map_of spec n") simp_all
    show thesis
    proof (cases k)
      case Flag_Bool
      with r Named k alone show thesis
        by (cases "parse_bool (case val of None \<Rightarrow> ''true'' | Some v \<Rightarrow> v)") simp_all
    next
      case Flag_String
      show thesis
      proof (cases val)
        case None
        with r Named k Flag_String takes show thesis by (cases rest) simp_all
      qed (use r Named k Flag_String alone in simp)
    qed
  qed (use r stopped in simp_all)
qed

lemma swallowed_provider:
  assumes "no_date (flag_str vs ''start'')" and "parse_flags run_flags vs (pairs (present [(''provider'', p)])) = Inr (vs', left)"
  shows "harmless vs' left"
proof -
  let ?ps = "present [(''provider'', p)]"
  have r: "vs' = set_flags ?ps vs" "left = []"
    using assms(2) parse_pairs[OF provider_str, of vs p "[]"] by simp_all
  have "''start'' \<notin> fst ` set ?ps" using present_names[of "[(''provider'', p)]"] by fastforce
  then show ?thesis using assms(1) by (simp add: harmless_def r flag_str_set_flags)
qed

lemma misaligned_preview:
  assumes "list_all (\<lambda>(n, v). run_str n) nvs" and "no_date (flag_str vs ''start'')"
    and "parse_flags run_flags vs (t # pairs nvs @ preview_tail p) = Inr (vs', left)"
  shows "harmless vs' left"
  using assms
proof (induction nvs arbitrary: vs t)
  case Nil
  from Nil.prems(3) show ?case
  proof (cases rule: flag_step)
    case stopped
    then show ?thesis using Nil.prems(2) by (auto simp: harmless_def preview_tail_def)
  next
    case (alone vs1)
    then show ?thesis using aligned_preview[OF Nil.prems(1), of vs1 p] by (auto simp: harmless_def)
  next
    case (takes n k rest')
    then have "parse_flags run_flags (AList.update n (''--'' @ ''dry-run'') vs) (pairs (present [(''provider'', p)])) = Inr (vs', left)"
      by (simp add: preview_tail_def)
    from swallowed_provider[OF no_date_key_update[OF Nil.prems(2)] this] show ?thesis .
  qed
next
  case (Cons q nvs)
  obtain m v where q: "q = (m, v)" by fastforce
  from Cons.prems(3) show ?case
  proof (cases rule: flag_step)
    case stopped
    then show ?thesis using Cons.prems(2) by (auto simp: harmless_def preview_tail_def)
  next
    case (alone vs1)
    then show ?thesis using aligned_preview[OF Cons.prems(1), of vs1 p] by (auto simp: harmless_def)
  next
    case (takes n k rest')
    then have "parse_flags run_flags (AList.update n (''--'' @ m) vs) (v # pairs nvs @ preview_tail p) = Inr (vs', left)"
      by (simp add: q)
    with Cons.IH[OF _ no_date_key_update[OF Cons.prems(2)]] Cons.prems(1) show ?thesis by simp
  qed
qed

lemma preview_flags:
  assumes "split_phrase (tl (tl (run_workflow_args m True))) = (words, fargs)"
    and "parse_flags run_flags [] fargs = Inr (vs, left)"
  shows "flag_set vs ''dry-run'' \<or> no_date (flag_str vs ''start'') \<and> words = [] \<and> (left = [] \<or> ''--dry-run'' \<in> set left)"
proof -
  define ph where "ph = arg_string m ''phrase''"
  define rest where "rest = pairs (window_pairs m) @ preview_tail (arg_string m ''provider'')"
  have hd: "split_phrase rest = ([], rest)"
    unfolding rest_def by (cases "window_pairs m") (auto simp: preview_tail_def)
  have args: "tl (tl (run_workflow_args m True)) = (if ph = [] then [] else [ph]) @ rest"
    by (simp add: preview_args ph_def rest_def)
  show ?thesis
  proof (cases "ph \<noteq> [] \<and> has_prefix ph ''-''")
    case True
    then have f: "words = []" "fargs = ph # rest" using assms(1) by (simp_all add: args)
    have "harmless vs left"
      using misaligned_preview[OF window_pairs_str, of "[]" ph m _ vs left] assms(2)
      by (simp add: f rest_def flag_str_def no_date_def)
    then show ?thesis by (simp add: harmless_def f)
  next
    case False
    then have "fargs = rest" using assms(1) hd by (auto simp: args split: if_splits)
    moreover obtain vs' where "parse_flags run_flags [] rest = Inr (vs', [])" "flag_set vs' ''dry-run''"
      using aligned_preview[OF window_pairs_str, of "[]" m] unfolding rest_def by blast
    ultimately show ?thesis using assms(2) by simp
  qed
qed

section \<open>No window without a date\<close>

lemma parse_civil_no_date: "no_date s \<Longrightarrow> parse_civil s = None"
  by (cases s rule: parse_civil.cases) (auto simp: no_date_def is_digit_def)

lemma parse_when_no_date: "no_date s \<Longrightarrow> \<exists>e. parse_when loc s = Inl e"
  by (simp add: parse_when_def parse_rfc3339_def parse_date_def parse_civil_no_date)

lemma in_trim_space: "c \<in> set s \<Longrightarrow> \<not> is_space c \<Longrightarrow> c \<in> set (trim_space s)"
proof -
  have keeps: "c \<in> set (dropWhile is_space xs)" if "c \<in> set xs" "\<not> is_space c" for xs
    using that by (induction xs) auto
  assume "c \<in> set s" "\<not> is_space c"
  then show ?thesis using keeps[of s] keeps[of "rev (dropWhile is_space s)"] by (simp add: trim_space_def)
qed

lemma relative_words:
  assumes "resolve_relative t phrase = Inr r"
  shows "CHR ''-'' \<notin> set (to_lower (trim_space phrase))"
proof -
  let ?p = "to_lower (trim_space phrase)"
  have names: "CHR ''-'' \<notin> set ?p" if "map_of weekday_names (trim_prefix ?p ''next '') = Some d" for d
  proof -
    have "(trim_prefix ?p ''next '', d) \<in> set weekday_names" using map_of_SomeD[OF that] .
    then have "CHR ''-'' \<notin> set (trim_prefix ?p ''next '')" by (auto simp: weekday_names_def)
    moreover have "set ?p \<subseteq> set (trim_prefix ?p ''next '') \<union> set ''next ''"
      unfolding trim_prefix_def has_prefix_iff by (cases "\<exists>r. ?p = ''next '' @ r") auto
    ultimately show ?thesis by auto
  qed
  show ?thesis
  proof (cases "?p \<in> {''today'', ''tomorrow'', ''next week''}")
    case False
    then have "resolve_relative t phrase = (case map_of weekday_names (trim_prefix ?p ''next '') of
        Some wd \<Rightarrow> (let start = next_weekday t wd in Inr (start, add_days start 1))
      | None \<Rightarrow> Inl (Errorf (''unrecognized date phrase '' @ phrase) []))"
      by (simp add: resolve_relative_def Let_def)
    with assms obtain d where "map_of weekday_names (trim_prefix ?p ''next '') = Some d"
      by (cases "map_of weekday_names (trim_prefix ?p ''next '')") simp_all
    then show ?thesis by (rule names)
  qed auto
qed

lemma relative_no_dash:
  assumes "CHR ''-'' \<in> set phrase"
  shows "\<exists>e. resolve_relative t phrase = Inl e"
proof -
  have "CHR ''-'' \<in> set (to_lower (trim_space phrase))"
    using in_trim_space[OF assms] image_eqI[of "CHR ''-''" lower_char "CHR ''-''" "set (trim_space phrase)"]
    by (simp add: to_lower_def is_space_def lower_char_def)
  then show ?thesis using relative_words[of t phrase] by (cases "resolve_relative t phrase") auto
qed

lemma no_window:
  assumes "no_date start" and "phrase = [] \<or> CHR ''-'' \<in> set phrase"
  shows "\<exists>e n. command_window su env start fin phrase w = (Inl e, w\<lparr>w_tick := n\<rparr>)"
proof -
  have r: "\<exists>e. resolve_window loc t start fin phrase = Inl e" for loc t
    using parse_when_no_date[OF assms(1), of loc] assms(2) relative_no_dash[of phrase t]
    by (auto simp: resolve_window_def parse_window_def)
  obtain n t where "command_window su env start fin phrase w = (resolve_window (su_local su) t start fin phrase, w\<lparr>w_tick := n\<rparr>)"
  proof (cases "(start \<noteq> [] \<and> fin \<noteq> []) \<or> phrase = []")
    case True
    then show thesis using that[of zero_time "w_tick w"] by (simp add: command_window_def)
  next
    case False
    then show thesis using that[of "e_now env (w_tick w)" "Suc (w_tick w)"]
      unfolding command_window_def if_not_P[OF False] by (simp add: now_def tick_def)
  qed
  then show ?thesis using r[of "su_local su" t] by auto
qed

section \<open>A dry run acts on nothing\<close>

definition untouched :: "world \<Rightarrow> world \<Rightarrow> bool" where
  "untouched w w' \<longleftrightarrow> w' = w\<lparr>w_tick := w_tick w'\<rparr>"

lemma untouched_refl [simp]: "untouched w w" "untouched w (w\<lparr>w_tick := n\<rparr>)" "untouched w (tick w)"
  by (simp_all add: untouched_def tick_def)

lemma untouched_trans: "untouched w w1 \<Longrightarrow> untouched w1 w2 \<Longrightarrow> untouched w w2"
  by (simp add: untouched_def) (metis world.surjective world.update_convs(1))

lemma untouched_files:
  "untouched w w' \<Longrightarrow> w_trace w' = w_trace w \<and> w_watches w' = w_watches w \<and> w_state w' = w_state w
     \<and> w_audit w' = w_audit w \<and> w_ledger w' = w_ledger w \<and> w_team w' = w_team w"
  unfolding untouched_def by (metis world.select_convs(2-7) world.surjective world.update_convs(1))

lemma initial_hold_untouched: "initial_hold env k opt w = (r, w') \<Longrightarrow> untouched w w'"
  by (auto simp: initial_hold_def resolve_approver_def resolve_manager_def prov_manager_def Let_def
      split: if_splits verb.splits sum.splits)

lemma dry_run_untouched:
  assumes "opt_dry_run opt"
  shows "untouched w (snd (snd (execute_output su env k opt w)))"
proof -
  obtain r w1 where i: "initial_hold env k opt w = (r, w1)" by fastforce
  show ?thesis
    using initial_hold_untouched[OF i] assms
    by (cases r; cases "su_provider su (resolve_provider (e_getenv env) (opt_provider opt))")
      (simp_all add: execute_output_def execute_workflow_def run_workflow_on_def i)
qed

lemma dash_in_phrase: "s \<in> set left \<Longrightarrow> c \<in> set s \<Longrightarrow> c \<in> set (join_with sep left)"
  by (induction sep left rule: join_with.induct) auto

lemma window_untouched: "command_window su env start fin phrase w = (r, w') \<Longrightarrow> untouched w w'"
  by (auto simp: command_window_def now_def Let_def split: if_splits)

lemma preview_untouched: "untouched w (snd (snd (run_run su env (tl (run_workflow_args m True)) w)))"
proof -
  let ?args = "tl (tl (run_workflow_args m True))"
  define name where "name = arg_string m ''workflow''"
  have args: "tl (run_workflow_args m True) = name # ?args" by (simp add: preview_args name_def)
  obtain words fargs where sp: "split_phrase ?args = (words, fargs)" by fastforce
  show ?thesis
  proof (cases "parse_flags run_flags [] fargs")
    case (Inl e)
    then show ?thesis by (subst args) (simp add: run_run_def sp)
  next
    case (Inr r)
    obtain vs left where r: "r = (vs, left)" by fastforce
    note flags = preview_flags[OF sp Inr[unfolded r]]
    show ?thesis
    proof (cases "load (su_builtin su) (su_user su) name")
      case Inl
      then show ?thesis by (subst args) (simp add: run_run_def sp \<open>parse_flags run_flags [] fargs = Inr r\<close> r)
    next
      case k: (Inr k)
      let ?win = "command_window su env (flag_str vs ''start'') (flag_str vs ''end'') (command_phrase words left) w"
      obtain x w1 where win: "?win = (x, w1)" by fastforce
      have run: "snd (snd (run_run su env (tl (run_workflow_args m True)) w)) =
          (case x of Inl e \<Rightarrow> w1
           | Inr (s, f, d) \<Rightarrow> snd (snd (execute_output su env k
               (flag_options vs (if flag_str vs ''subject'' = [] then default_subject k else flag_str vs ''subject'') s f d) w1)))"
        by (subst args) (simp add: run_run_def sp Inr r k win Let_def split: sum.splits prod.splits)
      show ?thesis
      proof (cases "flag_set vs ''dry-run''")
        case True
        then have "opt_dry_run (flag_options vs su s f d)" for su s f d by (simp add: flag_options_def)
        then show ?thesis
          using dry_run_untouched untouched_trans window_untouched[OF win]
          unfolding run by (auto split: sum.splits prod.splits)
      next
        case False
        have "command_phrase words left = [] \<or> CHR ''-'' \<in> set (command_phrase words left)"
          using False flags dash_in_phrase[of "''--dry-run''" left "CHR ''-''" "'' ''"] by (auto simp: command_phrase_def)
        with False flags win obtain e where "x = Inl e"
          using no_window[of "flag_str vs ''start''" "command_phrase words left" su env "flag_str vs ''end''" w] by auto
        then show ?thesis unfolding run using window_untouched[OF win] by simp
      qed
    qed
  qed
qed

section \<open>The server and the program it runs\<close>

text \<open>What the server needs of the subprocess: it is this program, on the same calendar and files.\<close>

definition runs_self :: "world self \<Rightarrow> outside \<Rightarrow> env \<Rightarrow> (string \<Rightarrow> command) \<Rightarrow> bool" where
  "runs_self sf su env others \<longleftrightarrow>
     (\<forall>args w code out err w'. execute su env others args w = Some (code, out, err, w') \<longrightarrow> snd (sf_exec sf args w) = w')"

lemma execute_run:
  "run_run su env a w = (out, err, w') \<Longrightarrow> execute su env others (''run'' # a) w = Some (exit_code err, out, err, w')"
  by (simp add: execute_def modelled_commands_def)

lemma execute_promote_args:
  "promote_command su env a w = (out, err, w') \<Longrightarrow>
     execute su env others (''promote'' # a) w = Some (exit_code err, out, err, w')"
  by (simp add: execute_def modelled_commands_def)

lemma exec_self_world:
  assumes "runs_self sf su env others" and "execute su env others args w = Some (code, out, err, w')"
  shows "snd (exec_self sf args w) = w \<or> snd (exec_self sf args w) = w'"
  using assms by (auto simp: exec_self_def runs_self_def split: option.splits)

lemma register_all_appends:
  "distinct (map tl_name (ms_tools s @ ts)) \<Longrightarrow> [] \<notin> tl_name ` set ts \<Longrightarrow>
     register_all ts s = Some (s\<lparr>ms_tools := ms_tools s @ ts\<rparr>)"
proof (induction ts arbitrary: s)
  case (Cons t ts)
  have "tl_name t \<notin> set (map tl_name (ms_tools s))" using Cons.prems(1) by simp
  then have "\<not> (\<exists>x. x \<in> set (ms_tools s) \<and> tl_name x = tl_name t)" by (metis image_eqI set_map)
  then have "find_tool s (tl_name t) = None" unfolding find_tool_def find_None_iff .
  moreover have "tl_name t \<noteq> []" using Cons.prems(2) by auto
  ultimately have "register_tool t s = Some (s\<lparr>ms_tools := ms_tools s @ [t]\<rparr>)" by (simp add: register_tool_def)
  then show ?case using Cons.IH[of "s\<lparr>ms_tools := ms_tools s @ [t]\<rparr>"] Cons.prems by simp
qed simp

definition tool_names :: "string list" where
  "tool_names = [''whoami'', ''request_time_off'', ''time_off_status'', ''promote_to_team'', ''cancel_hold'', ''set_away'',
     ''leave_balance'', ''team_coverage'', ''create_event'', ''list_workflows'', ''preview_workflow'', ''run_workflow'',
     ''list_schedules'', ''schedule_workflow'', ''create_workflow'']"

lemma tool_of_name: "tl_name (tool_of n d req props h) = n"
  by (simp add: tool_of_def)

lemma mcp_tool_names: "map tl_name (mcp_tools sf) = tool_names"
  unfolding mcp_tools_def command_tools_def workflow_tools_def tool_names_def
  by (simp only: list.map append.simps map_append tool_of_name)

lemma tool_names_distinct: "distinct tool_names" "[] \<notin> set tool_names"
  by code_simp+

lemma mcp_tools_register:
  "register_all (mcp_tools sf) (new_mcp_server n v) = Some \<lparr>ms_name = n, ms_version = v, ms_tools = mcp_tools sf\<rparr>"
proof -
  have names: "tl_name ` set (mcp_tools sf) = set tool_names" by (metis mcp_tool_names set_map)
  then show ?thesis
    using register_all_appends[of "new_mcp_server n v" "mcp_tools sf"] tool_names_distinct
    by (simp add: new_mcp_server_def mcp_tool_names names)
qed

lemma find_tool_in:
  assumes "t \<in> set (ms_tools s)" and "distinct (map tl_name (ms_tools s))"
  shows "find_tool s (tl_name t) = Some t"
proof -
  obtain t' where f: "find_tool s (tl_name t) = Some t'"
    using assms(1) by (cases "find_tool s (tl_name t)") (auto simp: find_tool_def find_None_iff)
  then have "t' \<in> set (ms_tools s)" "tl_name t' = tl_name t" by (auto simp: find_tool_def find_Some_iff)
  then have "t' = t" using assms by (meson distinct_map inj_on_eq_iff)
  with f show ?thesis by simp
qed

lemma find_preview:
  "ms_tools s = mcp_tools sf \<Longrightarrow>
     \<exists>t. find_tool s ''preview_workflow'' = Some t \<and> tl_handler t = exec_tool sf (\<lambda>m. run_workflow_args m True)"
proof -
  assume s: "ms_tools s = mcp_tools sf"
  obtain d req props where t: "tool_of ''preview_workflow'' d req props (exec_tool sf (\<lambda>m. run_workflow_args m True)) \<in> set (mcp_tools sf)"
    unfolding mcp_tools_def workflow_tools_def set_append list.set by blast
  from find_tool_in[of _ s] t s tool_names_distinct mcp_tool_names[of sf] show ?thesis
    by (metis tool_of_name tool_of_def tool.select_convs(4))
qed

lemma find_promote:
  "ms_tools s = mcp_tools sf \<Longrightarrow>
     \<exists>t. find_tool s ''promote_to_team'' = Some t \<and> tl_handler t = exec_tool sf (with_id [''promote''])"
proof -
  assume s: "ms_tools s = mcp_tools sf"
  obtain d req props where t: "tool_of ''promote_to_team'' d req props (exec_tool sf (with_id [''promote''])) \<in> set (mcp_tools sf)"
    unfolding mcp_tools_def command_tools_def set_append list.set by blast
  from find_tool_in[of _ s] t s tool_names_distinct mcp_tool_names[of sf] show ?thesis
    by (metis tool_of_name tool_of_def tool.select_convs(4))
qed

text \<open>A call of a tool leaves the state alone or runs the handler.\<close>

lemma call_runs_tool:
  assumes "handle_rpc s q w = (r, w')" and "call_params (rpc_params q) = Some (name, args)"
    and "find_tool s name = Some t" and "tl_handler t = exec_tool sf f"
  shows "w' = w \<or> w' = snd (exec_self sf (f (args_map args)) w)"
  using handle_rpc_acts[OF assms(1)] assms(2-4) by (auto simp: handler_runs_def exec_tool_def)

section \<open>The promote tool\<close>

lemma promote_args:
  "with_id [''promote''] m
     = ''promote'' # pairs (present [(''id'', arg_string m ''id''), (''provider'', arg_string m ''provider'')])"
  using opt_flag_pairs[of "''id''" "arg_string m ''id''"] opt_flag_pairs[of "''provider''" "arg_string m ''provider''"]
  by (simp add: with_id_def with_provider_def present_def)

lemma flag_str_present:
  "flag_str (set_flags (present [(''id'', x), (''provider'', y)]) []) ''id'' = x"
  "flag_str (set_flags (present [(''id'', x), (''provider'', y)]) []) ''provider'' = y"
  "flag_str (set_flags (present [(''id'', x), (''provider'', y)]) []) ''force'' = []"
  by (simp_all add: present_def set_flags_def flag_str_def)

lemma promote_tool_command:
  "promote_command su env (tl (with_id [''promote''] m)) w
     = ([], run_promote env (su_provider su) (arg_string m ''id'') (arg_string m ''provider'') False w)"
proof -
  let ?ps = "present [(''id'', arg_string m ''id''), (''provider'', arg_string m ''provider'')]"
  let ?spec = "hold_flags @ bools [''force'']"
  have "str_flag ?spec ''id''" "str_flag ?spec ''provider''" by code_simp+
  then have "list_all (\<lambda>(n, v). str_flag ?spec n) ?ps" by (intro present_all) simp
  from parse_pairs[OF this, of "[]" "[]"] have "parse_flags ?spec [] (pairs ?ps) = Inr (set_flags ?ps [], [])" by simp
  then show ?thesis by (simp add: promote_command_def promote_args flag_str_present flag_set_def)
qed

lemma unapproved_not_promoted:
  assumes "run_promote env prov_err hid prov False w = (err, w')" and "w_trace w' \<noteq> w_trace w"
  shows "\<exists>ref h. resolve_hold (e_getenv env) (e_state_path env) hid prov (w_state w) = Inr ref
    \<and> e_get env (w_tick w) (ref_id ref) = Inr h \<and> att_response (manager_attendee h) = ResponseAccepted"
  using assms by (auto simp: run_promote_def prov_get_def split: sum.splits option.splits if_splits)

section \<open>What the theory establishes\<close>

text \<open>
  C25. Every request line is answered once. While the responses can be written and no line exceeds the
  scanner's limit, \<open>Serve\<close> ends without an error and its responses carry, in the order of the lines,
  the id of each line that has one, null for a line that is no request, and nothing for a blank line
  or a notification.
\<close>

theorem each_request_answered_once:
  assumes "\<And>rs. out_err rs = None" and "list_all (\<lambda>l. int (length l) < max_line) (input_lines input)"
    and "serve_mcp s out_err input w = (rs, e, w')"
  shows "e = None \<and> map response_id rs
    = map Some (List.map_filter (\<lambda>l. answered_id (trim_suffix l [CHR 0x0D])) (input_lines input))"
  using serve_lines_ids[OF assms(1,2) assms(3)[unfolded serve_mcp_def]] by simp

definition ping_line :: string where
  "ping_line = show_json (JObj [(''id'', JInt 7), (''method'', JStr ''ping'')])"

theorem each_request_answered_once_witness:
  "map response_id (fst (serve_mcp (new_mcp_server ''vamoose'' ''1'') (\<lambda>rs. None) (ping_line @ newline @ newline @ ''nonsense'') ()))
     = [Some (JInt 7), Some JNull]"
proof -
  let ?s = "new_mcp_server ''vamoose'' ''1'' :: unit mcp_server"
  obtain rs e w where r: "serve_mcp ?s (\<lambda>rs. None) (ping_line @ newline @ newline @ ''nonsense'') () = (rs, e, w)"
    by (metis prod_cases3)
  have lines: "input_lines (ping_line @ newline @ newline @ ''nonsense'') = [ping_line, [], ''nonsense'']" by code_simp
  have ids: "answered_id (trim_suffix ping_line [CHR 0x0D]) = Some (JInt 7)" "answered_id (trim_suffix [] [CHR 0x0D]) = None"
    "answered_id (trim_suffix ''nonsense'' [CHR 0x0D]) = Some JNull" by code_simp+
  have short: "list_all (\<lambda>l. int (length l) < max_line) [ping_line, [], ''nonsense'']" by code_simp
  from each_request_answered_once[OF refl short[folded lines] r] show ?thesis
    by (simp add: lines ids r List.map_filter_simps)
qed

text \<open>
  C24. Only a complete tool call acts. When handling a request changed the state, the request had an
  id, it was \<open>tools/call\<close> for a registered tool, every argument the tool's schema requires was there,
  neither null nor an empty string, and the change is the one of that tool's handler.
\<close>

theorem only_complete_calls_act:
  assumes "handle_rpc s q w = (r, w')" and "w' \<noteq> w"
  shows "rpc_id q \<noteq> None \<and> rpc_method q = ''tools/call'' \<and>
    (\<exists>t args. call_params (rpc_params q) = Some (tl_name t, args) \<and> t \<in> set (ms_tools s)
      \<and> (\<forall>n \<in> set (schema_required (tl_schema t)). args_map args n \<notin> {None, Some JNull, Some (JStr [])})
      \<and> w' = snd (tl_handler t args w))"
proof -
  obtain t args where h: "handler_runs s q t args" "w' = snd (tl_handler t args w)"
    using handle_rpc_acts[OF assms(1)] assms(2) by blast
  then obtain name where n: "call_params (rpc_params q) = Some (name, args)" "find_tool s name = Some t"
    unfolding handler_runs_def by blast
  have "t \<in> set (ms_tools s)" "tl_name t = name" using n(2) by (auto simp: find_tool_def find_Some_iff)
  moreover have "\<forall>m \<in> set (schema_required (tl_schema t)). \<not> lacks args m"
    using h(1) by (auto simp: handler_runs_def missing_required_def find_None_iff)
  ultimately show ?thesis using h n(1) unfolding handler_runs_def lacks_def by blast
qed

definition counting :: "nat self" where
  "counting = \<lparr>sf_executable = \<lambda>w. None, sf_exec = \<lambda>args w. ((''ok'', None), w + 1), sf_create_temp = \<lambda>w. (Inr ''f'', w),
     sf_write_temp = \<lambda>f d w. (None, w), sf_remove = \<lambda>f w. w\<rparr>"

definition preview_request :: rpc_request where
  "preview_request = \<lparr>rpc_id = Some (JInt 1), rpc_method = ''tools/call'',
     rpc_params = Some (JObj [(''name'', JStr ''preview_workflow''),
       (''arguments'', JObj [(''workflow'', JStr ''pto''), (''phrase'', JStr ''next week'')])])\<rparr>"

theorem only_complete_calls_act_witness:
  "\<exists>t \<in> set (mcp_tools counting). call_params (rpc_params preview_request)
     = Some (tl_name t, Some (JObj [(''workflow'', JStr ''pto''), (''phrase'', JStr ''next week'')]))"
proof -
  let ?s = "\<lparr>ms_name = ''vamoose'', ms_version = ''1'', ms_tools = mcp_tools counting\<rparr>"
  have r: "handle_rpc ?s preview_request 0 = (Some (ok_response (JInt 1) (tool_result ''ok'' False)), 1)"
    by code_simp
  have p: "call_params (rpc_params preview_request)
     = Some (''preview_workflow'', Some (JObj [(''workflow'', JStr ''pto''), (''phrase'', JStr ''next week'')]))" by code_simp
  from only_complete_calls_act[OF r] show ?thesis by (auto simp: p)
qed

text \<open>
  C4. A preview changes nothing, whatever it is asked for. A call of the tool \<open>preview_workflow\<close>,
  with any arguments, leaves the calendar, the messages, the filed leave and every file as they were:
  a phrase or a value that looks like a flag cannot take the place of \<open>--dry-run\<close> in a command line
  that goes on to create something. It is assumed that the subprocess is this program.
\<close>

theorem preview_never_acts:
  assumes "runs_self sf su env others" and "register_all (mcp_tools sf) (new_mcp_server n v) = Some s"
    and "call_params (rpc_params q) = Some (''preview_workflow'', args)" and "handle_rpc s q w = (r, w')"
  shows "w_trace w' = w_trace w \<and> w_watches w' = w_watches w \<and> w_state w' = w_state w
    \<and> w_audit w' = w_audit w \<and> w_ledger w' = w_ledger w \<and> w_team w' = w_team w"
proof -
  let ?args = "run_workflow_args (args_map args) True"
  have "ms_tools s = mcp_tools sf" using assms(2) mcp_tools_register[of sf n v] by auto
  then obtain t where "find_tool s ''preview_workflow'' = Some t"
    "tl_handler t = exec_tool sf (\<lambda>m. run_workflow_args m True)" using find_preview by blast
  from call_runs_tool[OF assms(4,3) this] have w: "w' = w \<or> w' = snd (exec_self sf ?args w)" .
  obtain out err w1 where r: "run_run su env (tl ?args) w = (out, err, w1)" by (metis prod_cases3)
  have "?args = ''run'' # tl ?args" by (simp add: preview_args)
  with execute_run[OF r] have "execute su env others ?args w = Some (exit_code err, out, err, w1)" by metis
  with exec_self_world[OF assms(1)] w have "w' = w \<or> w' = w1" by blast
  moreover have "untouched w w1" using preview_untouched[of w su env "args_map args"] by (simp add: r)
  ultimately show ?thesis using untouched_files by auto
qed

definition agent_outside :: outside where
  "agent_outside = \<lparr>su_builtin = builtin_dir, su_user = NoUserDir, su_provider = \<lambda>n. None, su_local = UTC,
     su_zone = \<lambda>z. Some UTC\<rparr>"

text \<open>The program as its own subprocess.\<close>

definition vamoose_self :: "outside \<Rightarrow> env \<Rightarrow> (string \<Rightarrow> command) \<Rightarrow> world self" where
  "vamoose_self su env others =
     \<lparr>sf_executable = \<lambda>w. None,
      sf_exec = \<lambda>args w. (case execute su env others args w of
          None \<Rightarrow> (([], Some (Errorf ''killed'' [])), w) | Some (code, out, err, w') \<Rightarrow> ((out, err), w')),
      sf_create_temp = \<lambda>w. (Inr ''f'', w), sf_write_temp = \<lambda>f d w. (None, w), sf_remove = \<lambda>f w. w\<rparr>"

lemma vamoose_runs_self: "runs_self (vamoose_self su env others) su env others"
  by (simp add: runs_self_def vamoose_self_def)

definition flag_phrase_request :: rpc_request where
  "flag_phrase_request = \<lparr>rpc_id = Some (JInt 1), rpc_method = ''tools/call'',
     rpc_params = Some (JObj [(''name'', JStr ''preview_workflow''),
       (''arguments'', JObj [(''workflow'', JStr ''pto''), (''phrase'', JStr ''--subject'')])])\<rparr>"

theorem preview_never_acts_witness:
  "\<exists>s r w'. register_all (mcp_tools (vamoose_self agent_outside quiet_env (\<lambda>n a w. None))) (new_mcp_server ''vamoose'' ''1'') = Some s
     \<and> handle_rpc s flag_phrase_request empty_world = (r, w') \<and> w_trace w' = w_trace empty_world"
proof -
  let ?sf = "vamoose_self agent_outside quiet_env (\<lambda>n a w. None)"
  obtain s where s: "register_all (mcp_tools ?sf) (new_mcp_server ''vamoose'' ''1'') = Some s"
    using mcp_tools_register by blast
  obtain r w' where r: "handle_rpc s flag_phrase_request empty_world = (r, w')" by fastforce
  have p: "call_params (rpc_params flag_phrase_request) = Some (''preview_workflow'',
      Some (JObj [(''workflow'', JStr ''pto''), (''phrase'', JStr ''--subject'')]))" by code_simp
  from preview_never_acts[OF vamoose_runs_self s p r] s r show ?thesis by blast
qed

text \<open>
  The promote tool cannot be forced. When a call of \<open>promote_to_team\<close> changed the calendar, the
  hold it named was reported as accepted by its approver, whatever arguments the call carried: none of
  them reaches \<open>--force\<close>.
\<close>

theorem promote_tool_needs_approval:
  assumes "runs_self sf su env others" and "register_all (mcp_tools sf) (new_mcp_server n v) = Some s"
    and "call_params (rpc_params q) = Some (''promote_to_team'', args)" and "handle_rpc s q w = (r, w')"
    and "w_trace w' \<noteq> w_trace w"
  shows "\<exists>ref h. resolve_hold (e_getenv env) (e_state_path env) (arg_string (args_map args) ''id'')
      (arg_string (args_map args) ''provider'') (w_state w) = Inr ref
    \<and> e_get env (w_tick w) (ref_id ref) = Inr h \<and> att_response (manager_attendee h) = ResponseAccepted"
proof -
  let ?m = "args_map args"
  let ?args = "with_id [''promote''] ?m"
  have "ms_tools s = mcp_tools sf" using assms(2) mcp_tools_register[of sf n v] by auto
  then obtain t where "find_tool s ''promote_to_team'' = Some t" "tl_handler t = exec_tool sf (with_id [''promote''])"
    using find_promote by blast
  from call_runs_tool[OF assms(4,3) this] have w: "w' = snd (exec_self sf ?args w)" using assms(5) by auto
  obtain err w1 where r: "run_promote env (su_provider su) (arg_string ?m ''id'') (arg_string ?m ''provider'') False w = (err, w1)"
    by fastforce
  have "?args = ''promote'' # tl ?args" by (simp add: promote_args)
  moreover have "promote_command su env (tl ?args) w = ([], err, w1)" using r by (simp add: promote_tool_command)
  ultimately have "execute su env others ?args w = Some (exit_code err, [], err, w1)"
    using execute_promote_args by metis
  from exec_self_world[OF assms(1) this] w assms(5) have "w' = w1" by auto
  with unapproved_not_promoted[OF r] assms(5) show ?thesis by blast
qed

definition promote_request :: rpc_request where
  "promote_request = \<lparr>rpc_id = Some (JInt 1), rpc_method = ''tools/call'',
     rpc_params = Some (JObj [(''name'', JStr ''promote_to_team''), (''arguments'', JObj [(''id'', JStr ''h1'')])])\<rparr>"

theorem promote_tool_needs_approval_witness:
  "\<exists>ref h. resolve_hold (e_getenv quiet_env) None ''h1'' [] (w_state empty_world) = Inr ref
     \<and> e_get quiet_env 0 (ref_id ref) = Inr h \<and> att_response (manager_attendee h) = ResponseAccepted"
proof -
  let ?sf = "vamoose_self agent_outside quiet_env (\<lambda>n a w. None)"
  let ?s = "\<lparr>ms_name = ''vamoose'', ms_version = ''1'', ms_tools = mcp_tools ?sf\<rparr>"
  obtain r w' where r: "handle_rpc ?s promote_request empty_world = (r, w')" by fastforce
  have p: "call_params (rpc_params promote_request) = Some (''promote_to_team'', Some (JObj [(''id'', JStr ''h1'')]))"
    by code_simp
  have "w_trace (snd (handle_rpc ?s promote_request empty_world)) \<noteq> w_trace empty_world" by code_simp
  with r have t: "w_trace w' \<noteq> w_trace empty_world" by simp
  have a: "arg_string (args_map (Some (JObj [(''id'', JStr ''h1'')]))) ''id'' = ''h1''"
    "arg_string (args_map (Some (JObj [(''id'', JStr ''h1'')]))) ''provider'' = []" by code_simp+
  have e: "e_state_path quiet_env = None" "w_tick empty_world = 0" by (simp_all add: quiet_env_def empty_world_def)
  from promote_tool_needs_approval[OF vamoose_runs_self mcp_tools_register p r t] show ?thesis
    unfolding a e .
qed

end
