(* ===== verification/Go_Rfc3339.thy ===== *)
theory Go_Rfc3339
  imports Go_Date_Text
begin

text \<open>
  A time written by \<open>Format\<close> is read back by \<open>Parse\<close>: every day number has a valid date, and the clock and
  the offset of an RFC 3339 timestamp are read as they were written.
\<close>

section \<open>Every date is valid\<close>

text \<open>The last day of a civil year that starts in March exists in leap years only.\<close>

lemma leap_bounds:
  fixes doe a b c q e f :: int
  assumes "0 \<le> doe" "doe < 146097"
    "1460 * a \<le> doe" "doe \<le> 1460 * a + 1459"
    "36524 * b \<le> doe" "doe \<le> 36524 * b + 36523"
    "146096 * c \<le> doe" "doe \<le> 146096 * c + 146095"
    "365 * q \<le> doe - a + b - c" "doe - a + b - c \<le> 365 * q + 364"
    "4 * e \<le> q" "q \<le> 4 * e + 3" "100 * f \<le> q" "q \<le> 100 * f + 99"
    "365 \<le> doe - (365 * q + e - f)" "doe - (365 * q + e - f) \<le> 366" "q \<le> 399" "0 \<le> q"
  shows "doe - (365 * q + e - f) = 365 \<and> q = 4 * e + 3 \<and> (q \<noteq> 100 * f + 99 \<or> q = 399)"
proof -
  define doy where "doy = doe - (365 * q + e - f)"
  have doe: "doe = 365 * q + e - f + doy" by (simp add: doy_def)
  have doy: "365 \<le> doy" "doy \<le> 366" using assms by (simp_all add: doy_def)
  have e: "25 * f \<le> e" using assms by linarith
  have c: "c = 0 \<or> c = 1" using assms by linarith
  have bf: "f \<le> b" using assms doe doy e by linarith
  have a1: "a \<le> e + 1" using assms doe doy by linarith
  have a2: "e - f + b - c + (doy - 364) \<le> a" using assms doe by linarith
  show ?thesis
  proof (cases "c = 0")
    case True
    then have *: "b = f" "a = e + 1" "doy = 365" using a1 a2 bf doy by linarith+
    have q: "q = 4 * e + 3" using assms doe * by linarith
    have "q \<noteq> 100 * f + 99" using assms doe * q by linarith
    with * q show ?thesis by (simp add: doy_def)
  next
    case False
    with c have c: "c = 1" by simp
    then have d: "doe = 146096" using assms by linarith
    then have ab: "a = 100" "b = 4" using assms by linarith+
    have q: "q = 399" using assms ab c d by linarith
    then have "e = 99" "f = 3" using assms by linarith+
    with d q show ?thesis by simp
  qed
qed

lemma month_cases:
  fixes mp :: int
  assumes "0 \<le> mp" "mp \<le> 11"
  obtains "mp = 0" | "mp = 1" | "mp = 2" | "mp = 3" | "mp = 4" | "mp = 5" | "mp = 6" | "mp = 7" | "mp = 8" | "mp = 9" | "mp = 10" | "mp = 11"
proof -
  have "mp = 0 \<or> mp = 1 \<or> mp = 2 \<or> mp = 3 \<or> mp = 4 \<or> mp = 5 \<or> mp = 6 \<or> mp = 7 \<or> mp = 8 \<or> mp = 9 \<or> mp = 10 \<or> mp = 11"
    using assms by presburger
  then show thesis using that by blast
qed

lemma valid_month_day:
  fixes mp doy :: int
  assumes "0 \<le> doy" and "mp = (5 * doy + 2) div 153" and "mp \<le> 11" and "doy \<le> 365" and "doy = 365 \<Longrightarrow> is_leap (y + 1)"
  shows "valid_civil (if mp < 10 then y else y + 1, if mp < 10 then mp + 3 else mp - 9, doy - (153 * mp + 2) div 5 + 1)"
proof -
  have m: "153 * mp \<le> 5 * doy + 2" "5 * doy + 2 \<le> 153 * mp + 152" using assms(2) by linarith+
  have "0 \<le> mp" using assms(1,2) by simp
  from this assms(3) show ?thesis
  proof (cases rule: month_cases)
    case 12
    have "doy = 365 \<or> doy \<le> 364" using assms(4) by linarith
    then show ?thesis using 12 m assms(5) by (auto simp: valid_civil_def days_in_def)
  qed (use m in \<open>auto simp: valid_civil_def days_in_def\<close>)
qed

lemma last_of_block:
  fixes q k :: int
  assumes "0 < k" and "(q + 1) mod k = 0"
  shows "q = k * (q div k) + (k - 1)"
proof -
  have "q + 1 = k * ((q + 1) div k)" using assms(2) div_mult_mod_eq[of "q + 1" k] by (simp add: mult.commute)
  then have q: "q = (k - 1) + k * ((q + 1) div k - 1)" by (simp add: algebra_simps)
  have "q div k = (q + 1) div k - 1"
    by (subst q, subst div_mult_self2) (use assms(1) in simp_all)
  with q show ?thesis by simp
qed

lemma leap_year:
  fixes q era :: int
  assumes "q = 4 * (q div 4) + 3" and "q \<noteq> 100 * (q div 100) + 99 \<or> q = 399"
  shows "is_leap (q + era * 400 + 1)"
proof -
  have eqs: "q + era * 400 + 1 = (q + 1) + 4 * (100 * era)" "q + era * 400 + 1 = (q + 1) + 100 * (4 * era)"
    "q + era * 400 + 1 = (q + 1) + 400 * era" by simp_all
  have shift: "(q + era * 400 + 1) mod 4 = (q + 1) mod 4" "(q + era * 400 + 1) mod 100 = (q + 1) mod 100"
    "(q + era * 400 + 1) mod 400 = (q + 1) mod 400"
    by (subst eqs(1), rule mod_mult_self2, subst eqs(2), rule mod_mult_self2, subst eqs(3), rule mod_mult_self2)
  have "q + 1 = 4 * (q div 4 + 1)" using assms(1) by presburger
  then have "(q + 1) mod 4 = 0" by (metis mod_mult_self1_is_0)
  moreover have "(q + 1) mod 100 \<noteq> 0" if "q \<noteq> 100 * (q div 100) + 99" using that last_of_block[of 100 q] by auto
  moreover have "(q + 1) mod 400 = 0" if "q = 399" using that by simp
  ultimately show ?thesis using assms(2) unfolding is_leap_def shift by metis
qed

lemma valid_civil_from_days: "valid_civil (civil_from_days n)"
proof -
  define z where "z = n + 719468"
  define doe where "doe = z - (z div 146097) * 146097"
  define yoe where "yoe = (doe - doe div 1460 + doe div 36524 - doe div 146096) div 365"
  define doy where "doy = doe - (365 * yoe + yoe div 4 - yoe div 100)"
  define mp where "mp = (5 * doy + 2) div 153"
  have b: "0 \<le> yoe" "yoe \<le> 399" "0 \<le> doy" "doy \<le> 366"
    unfolding doy_def yoe_def doe_def by (rule yoe_doy_bounds)+
  have doe: "0 \<le> doe" "doe < 146097" unfolding doe_def by presburger+
  have leap: "doy = 365 \<and> yoe = 4 * (yoe div 4) + 3 \<and> (yoe \<noteq> 100 * (yoe div 100) + 99 \<or> yoe = 399)" if "365 \<le> doy"
    unfolding doy_def
    by (rule leap_bounds[where a = "doe div 1460" and b = "doe div 36524" and c = "doe div 146096"])
      (use doe b that div_bounds[of 1460 doe] div_bounds[of 36524 doe] div_bounds[of 146096 doe]
         div_bounds[of 365 "doe - doe div 1460 + doe div 36524 - doe div 146096"]
         div_bounds[of 4 yoe] div_bounds[of 100 yoe] in \<open>simp_all add: yoe_def[symmetric] doy_def[symmetric]\<close>)
  have year: "is_leap (yoe + z div 146097 * 400 + 1)" if "doy = 365"
    using leap_year[of yoe "z div 146097"] leap that by auto
  have mp: "0 \<le> mp" "mp \<le> 11" using b unfolding mp_def by linarith+
  have "doy \<le> 365" using leap by (cases "365 \<le> doy") simp_all
  moreover have "civil_from_days n =
      (if mp < 10 then yoe + z div 146097 * 400 else yoe + z div 146097 * 400 + 1,
       if mp < 10 then mp + 3 else mp - 9, doy - (153 * mp + 2) div 5 + 1)"
    using mp unfolding civil_from_days_def Let_def
    by (simp add: z_def[symmetric] doe_def[symmetric] yoe_def[symmetric] doy_def[symmetric] mp_def[symmetric])
  ultimately show ?thesis using valid_month_day[OF b(3) mp_def mp(2) _ year] by simp
qed

section \<open>Reading a clock and an offset\<close>

lemma two_digits:
  assumes "n < 100"
  shows "get_num (pad_nat 2 n @ r) = Some (int n, r)" "get_num2 (pad_nat 2 n @ r) = Some (int n, r)"
proof -
  have "10 * int (n div 10) + int (n mod 10) = int n" by (simp flip: of_nat_mult of_nat_add add: zdiv_int zmod_int)
  then show "get_num (pad_nat 2 n @ r) = Some (int n, r)" "get_num2 (pad_nat 2 n @ r) = Some (int n, r)"
    using assms by (simp_all add: pad_nat_2)
qed

lemma get_clock_format:
  assumes "get_fraction r = (ns, r')"
  shows "get_clock (format_clock t @ r) = Some (local_sec t mod 86400, ns, r')"
proof -
  define s where "s = nat (local_sec t mod 86400)"
  have s: "s < 86400" "int s = local_sec t mod 86400" by (simp_all add: s_def)
  have b: "s div 3600 < 24" "s div 60 mod 60 < 60" "s mod 60 < 60" using s(1) by simp_all
  have "s = s div 60 div 60 * 3600 + s div 60 mod 60 * 60 + s mod 60"
    using div_mult_mod_eq[of s 60] div_mult_mod_eq[of "s div 60" 60] by linarith
  then have sum: "int (s div 3600) * 3600 + int (s div 60 mod 60) * 60 + int (s mod 60) = int s"
    by (simp add: div_mult2_eq[symmetric] flip: of_nat_mult of_nat_add)
  have "format_clock t = pad_nat 2 (s div 3600) @ CHR '':'' # pad_nat 2 (s div 60 mod 60) @ CHR '':'' # pad_nat 2 (s mod 60)"
    by (simp add: format_clock_def s_def Let_def)
  then show ?thesis using assms b s(2) sum by (simp add: get_clock_def two_digits)
qed

lemma get_zone_format:
  assumes "off mod 60 = 0" and "\<bar>off\<bar> < 86400"
  shows "get_zone (format_offset off) = Some (if off = 0 then None else Some off)"
proof (cases "off = 0")
  case True
  then show ?thesis by (simp add: format_offset_def get_zone_def)
next
  case False
  define m where "m = nat (\<bar>off\<bar> div 60)"
  have "\<bar>off\<bar> mod 60 = 0" using assms(1) by (simp add: mod_eq_0_iff_dvd)
  then have m: "int m * 60 = \<bar>off\<bar>" using div_mult_mod_eq[of "\<bar>off\<bar>" 60] pos_imp_zdiv_nonneg_iff[of 60 "\<bar>off\<bar>"]
    by (simp add: m_def)
  have b: "m div 60 < 24" "m mod 60 < 60" using m assms(2) by linarith+
  have sum: "int (m div 60) * 60 + int (m mod 60) = int m"
    using div_mult_mod_eq[of "int m" 60] by (simp add: zdiv_int zmod_int)
  have f: "format_offset off = (if off < 0 then CHR ''-'' else CHR ''+'') # pad_nat 2 (m div 60) @ CHR '':'' # pad_nat 2 (m mod 60) @ []"
    using False by (simp add: format_offset_def m_def Let_def)
  have last: "get_num2 (pad_nat 2 (m mod 60)) = Some (int (m mod 60), [])"
    using two_digits(2)[of "m mod 60" "[]"] b(2) by simp
  show ?thesis
    using False b m sum unfolding get_zone_def f by (auto simp: two_digits last)
qed

lemma offset_no_fraction: "get_fraction (format_offset off) = (0, format_offset off)"
  by (auto simp: format_offset_def get_fraction_def Let_def split: list.splits)

text \<open>
  What the writer needs of a time: a year of at most four digits, and an offset of whole minutes below
  a day, which every offset of the zone database since 1972 is.
\<close>

definition dated :: "gotime \<Rightarrow> bool" where
  "dated t \<longleftrightarrow> (case date_of t of (y, m, d) \<Rightarrow> 0 \<le> y \<and> y < 10000)
     \<and> lookup_offset (t_loc t) (unix_sec t) mod 60 = 0 \<and> \<bar>lookup_offset (t_loc t) (unix_sec t)\<bar> < 86400"

definition writable :: "gotime \<Rightarrow> bool" where
  "writable t \<longleftrightarrow> dated t \<and> t_ns t mod second = 0"

lemma parse_format_date:
  assumes "case date_of t of (y, m, d) \<Rightarrow> 0 \<le> y \<and> y < 10000"
  shows "parse_civil (format_date t @ r) = Some (date_of t, r)" "parse_date (format_date t) = Some (midnight_utc (date_of t))"
proof -
  obtain y m d where c: "date_of t = (y, m, d)" by (cases "date_of t")
  have "valid_civil (y, m, d)" using valid_civil_from_days[of "day_number t"] by (simp add: date_of_def[symmetric] c)
  from parse_civil_format[OF this] assms
  have p: "parse_civil (format_date t @ r) = Some (date_of t, r)" for r by (simp add: format_date_def c)
  then show "parse_civil (format_date t @ r) = Some (date_of t, r)" .
  show "parse_date (format_date t) = Some (midnight_utc (date_of t))" using p[of "[]"] by (simp add: parse_date_def)
qed

text \<open>\<open>frac\<close> is what stands between the clock and the offset.\<close>

lemma parse_format_clock:
  assumes "dated t" and "get_fraction (frac @ format_offset (lookup_offset (t_loc t) (unix_sec t)))
    = (t_ns t mod second, format_offset (lookup_offset (t_loc t) (unix_sec t)))"
  shows "\<exists>u. parse_rfc3339 local (format_date t @ ''T'' @ format_clock t @ frac @ format_offset (lookup_offset (t_loc t) (unix_sec t)))
    = Some u \<and> t_ns u = t_ns t \<and> lookup_offset (t_loc u) (unix_sec u) = lookup_offset (t_loc t) (unix_sec t)"
proof -
  let ?off = "lookup_offset (t_loc t) (unix_sec t)"
  obtain y m d where c: "date_of t = (y, m, d)" by (cases "date_of t")
  have y: "case date_of t of (y, m, d) \<Rightarrow> 0 \<le> y \<and> y < 10000" using assms by (simp add: dated_def)
  have days: "days_from_civil y m d = day_number t"
    using days_civil_roundtrip[of "day_number t"] c by (simp add: date_of_def)
  have ns: "t_ns t = unix_sec t * second + t_ns t mod second" by (simp add: unix_sec_def)
  have loc: "day_number t * 86400 + local_sec t mod 86400 = local_sec t" by (simp add: day_number_def)
  have z: "get_zone (format_offset ?off) = Some (if ?off = 0 then None else Some ?off)"
    using assms(1) by (intro get_zone_format) (simp_all add: dated_def)
  have utc: "t_ns (time_date (day_number t) (local_sec t mod 86400) (t_ns t mod second) UTC) = local_sec t * second + t_ns t mod second"
    using loc by (simp add: time_date_def resolve_local_def)
  have "parse_civil (format_date t @ ''T'' @ format_clock t @ frac @ format_offset ?off)
      = Some ((y, m, d), CHR ''T'' # format_clock t @ frac @ format_offset ?off)"
    using parse_format_date(1)[OF y] by (simp add: c)
  then show ?thesis
    using utc ns get_clock_format[OF assms(2)] z
    by (auto simp: parse_rfc3339_def days Let_def local_sec_def unix_sec_def time_date_def algebra_simps)
qed

lemma parse_format_rfc3339:
  assumes "writable t"
  shows "\<exists>u. parse_rfc3339 local (format_rfc3339 t) = Some u \<and> t_ns u = t_ns t"
  using parse_format_clock[of t "[]" local] assms offset_no_fraction
  by (auto simp: writable_def format_rfc3339_def)

section \<open>Fractions of a second\<close>

text \<open>\<open>RFC3339Nano\<close>: nine digits without the zeros at their end, none when the second is whole.\<close>

definition format_nanos :: "nat \<Rightarrow> string" where
  "format_nanos n = (if n = 0 then [] else CHR ''.'' # rev (dropWhile (\<lambda>c. c = CHR ''0'') (rev (pad_nat 9 n))))"

definition format_rfc3339_nano :: "gotime \<Rightarrow> string" where
  "format_rfc3339_nano t = format_date t @ ''T'' @ format_clock t @ format_nanos (nat (t_ns t mod second))
     @ format_offset (lookup_offset (t_loc t) (unix_sec t))"

lemma show_nat_length: "n < 10 ^ Suc k \<Longrightarrow> length (show_nat n) \<le> Suc k"
proof (induction k arbitrary: n)
  case 0
  then show ?case by (simp add: show_nat_1)
next
  case (Suc k)
  show ?case
  proof (cases "n < 10")
    case False
    then have "show_nat n = show_nat (n div 10) @ [digit_char (n mod 10)]" by (simp add: show_nat_step)
    moreover have "n div 10 < 10 ^ Suc k" using Suc.prems by auto
    ultimately show ?thesis using Suc.IH by simp
  qed (simp add: show_nat_1)
qed

lemma digits_val_zeros: "digits_val acc (replicate k (CHR ''0'')) = acc * 10 ^ k"
  by (induction k arbitrary: acc) (simp_all add: digit_val_def)

lemma pad_nat_9:
  assumes "n < 10 ^ 9"
  shows "length (pad_nat 9 n) = 9" "\<forall>c \<in> set (pad_nat 9 n). is_digit c" "digits_val 0 (pad_nat 9 n) = int n"
proof -
  have "length (show_nat n) \<le> 9" using show_nat_length[of n 8] assms by simp
  then show "length (pad_nat 9 n) = 9" by (simp add: pad_nat_def Let_def)
  have "is_digit (CHR ''0'')" by code_simp
  then show "\<forall>c \<in> set (pad_nat 9 n). is_digit c" using show_nat_digits[of n] by (auto simp: pad_nat_def Let_def)
  show "digits_val 0 (pad_nat 9 n) = int n" by (simp add: pad_nat_def Let_def digits_val_append digits_val_zeros)
qed

lemma trailing_split:
  obtains k where "xs = rev (dropWhile (\<lambda>c. c = z) (rev xs)) @ replicate k z"
proof -
  have "takeWhile (\<lambda>c. c = z) (rev xs) = replicate (length (takeWhile (\<lambda>c. c = z) (rev xs))) z"
    by (metis (mono_tags, lifting) replicate_length_same set_takeWhileD)
  then have "rev xs = replicate (length (takeWhile (\<lambda>c. c = z) (rev xs))) z @ dropWhile (\<lambda>c. c = z) (rev xs)"
    by (metis takeWhile_dropWhile_id)
  then have "xs = rev (replicate (length (takeWhile (\<lambda>c. c = z) (rev xs))) z @ dropWhile (\<lambda>c. c = z) (rev xs))"
    by (metis rev_rev_ident)
  then show ?thesis using that by simp
qed

lemma get_nanos:
  assumes "n < 10 ^ 9" and "get_fraction r = (0, r)" and "\<And>c s. r = c # s \<Longrightarrow> \<not> is_digit c"
  shows "get_fraction (format_nanos n @ r) = (int n, r)"
proof (cases "n = 0")
  case True
  then show ?thesis using assms(2) by (simp add: format_nanos_def)
next
  case False
  note pad = pad_nat_9[OF assms(1)]
  define ds where "ds = rev (dropWhile (\<lambda>c. c = CHR ''0'') (rev (pad_nat 9 n)))"
  obtain k where k: "pad_nat 9 n = ds @ replicate k (CHR ''0'')"
    unfolding ds_def using trailing_split[of "pad_nat 9 n" "CHR ''0''"] by blast
  have len: "length ds + k = 9" using arg_cong[OF k, of length] pad(1) by simp
  have dig: "\<forall>c \<in> set ds. is_digit c" using pad(2) k by simp
  have val: "digits_val 0 ds * 10 ^ k = int n" using pad(3) unfolding k by (simp add: digits_val_append digits_val_zeros)
  then have "ds \<noteq> []" using False by auto
  then obtain d s where ds: "ds = d # s" by (cases ds) auto
  have take_r: "takeWhile is_digit r = []" "dropWhile is_digit r = r" using assms(3) by (cases r; auto)+
  have tw: "takeWhile is_digit (ds @ r) = ds" "dropWhile is_digit (ds @ r) = r"
    using dig take_r by (simp_all add: takeWhile_append dropWhile_append)
  have "format_nanos n @ r = CHR ''.'' # d # s @ r" using False ds by (simp add: format_nanos_def ds_def[symmetric])
  moreover have "take 9 ds = ds" "9 - length ds = k" using len by simp_all
  ultimately show ?thesis
    using tw dig val ds unfolding get_fraction_def by (auto simp: Let_def)
qed

lemma offset_no_digit: "format_offset off = c # s \<Longrightarrow> \<not> is_digit c"
  by (auto simp: format_offset_def is_digit_def Let_def split: if_splits)

lemma parse_format_offset:
  assumes "dated t"
  shows "\<exists>u. parse_rfc3339 local (format_rfc3339_nano t) = Some u \<and> t_ns u = t_ns t
    \<and> lookup_offset (t_loc u) (unix_sec u) = lookup_offset (t_loc t) (unix_sec t)"
proof -
  have r: "0 \<le> t_ns t mod second" "t_ns t mod second < 10 ^ 9" by simp_all
  then have "nat (t_ns t mod second) < 10 ^ 9" by (simp add: nat_less_iff)
  from get_nanos[OF this offset_no_fraction] offset_no_digit r
  have "get_fraction (format_nanos (nat (t_ns t mod second)) @ format_offset (lookup_offset (t_loc t) (unix_sec t)))
      = (t_ns t mod second, format_offset (lookup_offset (t_loc t) (unix_sec t)))" by simp
  from parse_format_clock[OF assms this] show ?thesis by (simp add: format_rfc3339_nano_def)
qed

lemma parse_format_rfc3339_nano: "dated t \<Longrightarrow> \<exists>u. parse_rfc3339 local (format_rfc3339_nano t) = Some u \<and> t_ns u = t_ns t"
  using parse_format_offset by blast

end
