(* ===== verification/Sign_In.thy ===== *)
theory Sign_In
  imports Go_Rfc3339 Go_Http Secret
begin

text \<open>
  Signing in to Microsoft (\<open>internal/auth\<close>): tokens and where they are kept, the device flow with its polling
  loop, refreshing, and the exchange of a web code. Files hold text, sealed when a key is configured; the
  keychain is an entry that is there or not. The clock, the HTTP exchanges and the end of the context are
  functions of a counter. \<open>Unmarshal\<close> of a time is the parser of \<open>Go_Date_Text\<close>, which is laxer than the
  strict one of the library on texts no version of the program writes.
\<close>

section \<open>Tokens\<close>

record token =
  tk_access :: string
  tk_refresh :: string
  tk_scope :: string
  tk_expiry :: gotime

definition zero_token :: token where
  "zero_token = \<lparr>tk_access = [], tk_refresh = [], tk_scope = [], tk_expiry = zero_time\<rparr>"

definition token_valid :: "gotime \<Rightarrow> token \<Rightarrow> bool" where
  "token_valid t tok \<longleftrightarrow> tk_access tok \<noteq> [] \<and> before t (time_add (tk_expiry tok) (- minute))"

text \<open>\<open>Time.MarshalJSON\<close> refuses a year of more than four digits and an offset of a day or more.\<close>

definition marshal_time :: "gotime \<Rightarrow> json result" where
  "marshal_time t =
     (if \<not> (case date_of t of (y, m, d) \<Rightarrow> 0 \<le> y \<and> y < 10000)
      then Inl (Errorf ''Time.MarshalJSON: year outside of range [0,9999]'' [])
      else if 86400 \<le> \<bar>lookup_offset (t_loc t) (unix_sec t)\<bar>
      then Inl (Errorf ''Time.MarshalJSON: timezone hour outside of range [0,23]'' [])
      else Inr (JStr (format_rfc3339_nano t)))"

fun as_time :: "location \<Rightarrow> gotime \<Rightarrow> json \<Rightarrow> gotime option" where
  "as_time local old (JStr s) = parse_rfc3339 local s"
| "as_time local old JNull = Some old"
| "as_time local old _ = None"

definition token_json :: "token \<Rightarrow> json result" where
  "token_json tok =
     (case marshal_time (tk_expiry tok) of
        Inl e \<Rightarrow> Inl e
      | Inr x \<Rightarrow> Inr (JObj [(''access_token'', JStr (tk_access tok)), (''refresh_token'', JStr (tk_refresh tok)),
          (''scope'', JStr (tk_scope tok)), (''expiry'', x)]))"

definition token_field :: "location \<Rightarrow> token \<Rightarrow> string \<Rightarrow> json \<Rightarrow> token option" where
  "token_field local r k v =
     (if equal_fold k ''access_token'' then map_option (\<lambda>x. r\<lparr>tk_access := x\<rparr>) (as_string (tk_access r) v)
      else if equal_fold k ''refresh_token'' then map_option (\<lambda>x. r\<lparr>tk_refresh := x\<rparr>) (as_string (tk_refresh r) v)
      else if equal_fold k ''scope'' then map_option (\<lambda>x. r\<lparr>tk_scope := x\<rparr>) (as_string (tk_scope r) v)
      else if equal_fold k ''expiry'' then map_option (\<lambda>x. r\<lparr>tk_expiry := x\<rparr>) (as_time local (tk_expiry r) v)
      else Some r)"

definition read_token :: "location \<Rightarrow> string \<Rightarrow> token result" where
  "read_token local t = unmarshal (in_object (token_field local) zero_token) t"

text \<open>Two tokens a reader cannot tell apart: the expiry is the same instant.\<close>

definition same_token :: "token \<Rightarrow> token \<Rightarrow> bool" where
  "same_token a b \<longleftrightarrow> tk_access a = tk_access b \<and> tk_refresh a = tk_refresh b \<and> tk_scope a = tk_scope b
     \<and> t_ns (tk_expiry a) = t_ns (tk_expiry b)"

definition whole_minutes :: "token \<Rightarrow> bool" where
  "whole_minutes tok \<longleftrightarrow> lookup_offset (t_loc (tk_expiry tok)) (unix_sec (tk_expiry tok)) mod 60 = 0"

lemma token_keys:
  "list_all (\<lambda>k. \<not> equal_fold k ''access_token'') [''refresh_token'', ''scope'', ''expiry'']"
  "list_all (\<lambda>k. \<not> equal_fold k ''refresh_token'') [''scope'', ''expiry'']" "\<not> equal_fold ''expiry'' ''scope''"
  by code_simp+

lemma token_json_read:
  assumes "token_json tok = Inr j" and "whole_minutes tok"
  shows "plain_json j" and "\<exists>tok'. in_object (token_field local) zero_token j = Some tok' \<and> same_token tok tok'"
proof -
  obtain x where x: "marshal_time (tk_expiry tok) = Inr x" using assms(1) by (auto simp: token_json_def split: sum.splits)
  then have d: "dated (tk_expiry tok)" "x = JStr (format_rfc3339_nano (tk_expiry tok))"
    using assms(2) by (auto simp: marshal_time_def dated_def whole_minutes_def split: if_splits)
  obtain u where u: "parse_rfc3339 local (format_rfc3339_nano (tk_expiry tok)) = Some u" "t_ns u = t_ns (tk_expiry tok)"
    using parse_format_rfc3339_nano[OF d(1)] by blast
  have j: "j = JObj [(''access_token'', JStr (tk_access tok)), (''refresh_token'', JStr (tk_refresh tok)),
      (''scope'', JStr (tk_scope tok)), (''expiry'', x)]" using assms(1) x by (simp add: token_json_def)
  show "plain_json j" by (simp add: j d(2))
  show "\<exists>tok'. in_object (token_field local) zero_token j = Some tok' \<and> same_token tok tok'"
    using token_keys u by (simp add: j d(2) token_field_def same_token_def)
qed

section \<open>Where tokens are kept\<close>

text \<open>What can fail around a store, and the zone of the machine.\<close>

record token_io =
  ti_mkdir :: "error option"
  ti_write :: "error option"
  ti_entropy :: entropy
  ti_get :: "error option"
  ti_set :: "error option"
  ti_remove :: "error option"
  ti_local :: location

text \<open>The plain file, the sealed file, and the keychain with the file it took over from.\<close>

datatype token_store =
    File_Store "string stored"
  | Sealed_Store aead "string stored"
  | Keychain_Store "string option" "string stored"

definition load_plain :: "token_io \<Rightarrow> string stored \<Rightarrow> token result" where
  "load_plain io f =
     (case f of Absent \<Rightarrow> Inr zero_token | Corrupt e \<Rightarrow> Inl e | Content t \<Rightarrow> read_token (ti_local io) t)"

definition load_sealed :: "token_io \<Rightarrow> aead \<Rightarrow> string stored \<Rightarrow> token result" where
  "load_sealed io b f =
     (case f of
        Absent \<Rightarrow> Inr zero_token
      | Corrupt e \<Rightarrow> Inl e
      | Content s \<Rightarrow> (case box_open b s of Inl e \<Rightarrow> Inl e | Inr t \<Rightarrow> read_token (ti_local io) t))"

definition save_file :: "token_io \<Rightarrow> (string \<Rightarrow> string result) \<Rightarrow> string result \<Rightarrow> string stored \<Rightarrow> error option \<times> string stored" where
  "save_file io seal text f =
     (case ti_mkdir io of
        Some e \<Rightarrow> (Some e, f)
      | None \<Rightarrow>
          (case text of
             Inl e \<Rightarrow> (Some e, f)
           | Inr t \<Rightarrow>
               (case seal t of
                  Inl e \<Rightarrow> (Some e, f)
                | Inr s \<Rightarrow> (case ti_write io of Some e \<Rightarrow> (Some e, f) | None \<Rightarrow> (None, Content s)))))"

definition token_text :: "(json \<Rightarrow> string) \<Rightarrow> token \<Rightarrow> string result" where
  "token_text show_j tok = (case token_json tok of Inl e \<Rightarrow> Inl e | Inr j \<Rightarrow> Inr (show_j j))"

definition keychain_save :: "token_io \<Rightarrow> token \<Rightarrow> string option \<Rightarrow> error option \<times> string option" where
  "keychain_save io tok entry =
     (case token_text show_json tok of
        Inl e \<Rightarrow> (Some e, entry)
      | Inr t \<Rightarrow> (case ti_set io of Some e \<Rightarrow> (Some e, entry) | None \<Rightarrow> (None, Some t)))"

fun save_token :: "token_io \<Rightarrow> token \<Rightarrow> token_store \<Rightarrow> error option \<times> token_store" where
  "save_token io tok (File_Store f) =
     (case save_file io Inr (token_text indent_json tok) f of (err, f) \<Rightarrow> (err, File_Store f))"
| "save_token io tok (Sealed_Store b f) =
     (case save_file io (box_seal (ti_entropy io) b) (token_text show_json tok) f of (err, f) \<Rightarrow> (err, Sealed_Store b f))"
| "save_token io tok (Keychain_Store entry legacy) =
     (case keychain_save io tok entry of (err, entry) \<Rightarrow> (err, Keychain_Store entry legacy))"

text \<open>The first load from an empty keychain moves the token of the file over, and then removes the file.\<close>

definition keychain_load :: "token_io \<Rightarrow> string option \<Rightarrow> string stored \<Rightarrow> token result \<times> string option \<times> string stored" where
  "keychain_load io entry legacy =
     (case ti_get io of
        Some e \<Rightarrow> (Inl e, entry, legacy)
      | None \<Rightarrow>
          (case entry of
             Some t \<Rightarrow> (read_token (ti_local io) t, entry, legacy)
           | None \<Rightarrow>
               (case load_plain io legacy of
                  Inl e \<Rightarrow> (Inr zero_token, entry, legacy)
                | Inr tok \<Rightarrow>
                    (if tk_access tok = [] then (Inr zero_token, entry, legacy)
                     else case keychain_save io tok entry of
                       (Some e, entry) \<Rightarrow> (Inr tok, entry, legacy)
                     | (None, entry) \<Rightarrow> (Inr tok, entry, if ti_remove io = None then Absent else legacy)))))"

fun load_token :: "token_io \<Rightarrow> token_store \<Rightarrow> token result \<times> token_store" where
  "load_token io (File_Store f) = (load_plain io f, File_Store f)"
| "load_token io (Sealed_Store b f) = (load_sealed io b f, Sealed_Store b f)"
| "load_token io (Keychain_Store entry legacy) =
     (case keychain_load io entry legacy of (r, entry, legacy) \<Rightarrow> (r, Keychain_Store entry legacy))"

text \<open>
  \<open>NewStore\<close>: sealed with a key, an error with a bad key, else the keychain when it works, else the plain
  file. The stores name their file or entry after the provider.
\<close>

definition token_suffix :: "string \<Rightarrow> string" where
  "token_suffix name = (if name = [] then [] else ''-'' @ name)"

datatype store_choice = Use_Sealed aead string | Use_Keychain string string | Use_File string

definition new_store ::
  "(string \<Rightarrow> aead) \<Rightarrow> (string \<Rightarrow> string) \<Rightarrow> string result \<Rightarrow> bool \<Rightarrow> string \<Rightarrow> store_choice result" where
  "new_store aes_gcm getenv config_dir keychain name =
     (let at = (\<lambda>ext. case config_dir of Inl e \<Rightarrow> Inl e
                 | Inr dir \<Rightarrow> Inr (dir @ ''/vamoose/token'' @ token_suffix name @ ext));
          encrypted = (case secret_from_env aes_gcm getenv of
              Inl e \<Rightarrow> Inl e
            | Inr b \<Rightarrow> (case at ''.enc'' of Inl e \<Rightarrow> Inl e | Inr p \<Rightarrow> Inr (Use_Sealed b p)))
      in case encrypted of
           Inr st \<Rightarrow> Inr st
         | Inl e \<Rightarrow>
             (if \<not> errors_is e err_no_key then Inl e
              else case at ''.json'' of
                Inl e \<Rightarrow> Inl e
              | Inr p \<Rightarrow> Inr (if keychain then Use_Keychain (''token'' @ token_suffix name) p else Use_File p)))"

section \<open>Getting a token\<close>

text \<open>
  \<open>Authenticator.Token\<close>, which both packages have word for word: the stored token while it is valid, else
  a refreshed one, else an interactive sign-in, which may not end. Whatever was obtained is saved.
\<close>

definition keep_token :: "('s \<Rightarrow> error option \<times> 's) \<Rightarrow> token \<Rightarrow> 's \<Rightarrow> token result \<times> 's" where
  "keep_token save tok s = (case save s of (Some e, s) \<Rightarrow> (Inl (Errorf ''save token'' [e]), s) | (None, s) \<Rightarrow> (Inr tok, s))"

definition get_token ::
  "('s \<Rightarrow> token result \<times> 's) \<Rightarrow> (token \<Rightarrow> 's \<Rightarrow> error option \<times> 's) \<Rightarrow> gotime \<Rightarrow> (string \<Rightarrow> token result)
   \<Rightarrow> token result option \<Rightarrow> 's \<Rightarrow> (token result \<times> 's) option" where
  "get_token load save t refresh interactive s =
     (case load s of
        (Inl e, s) \<Rightarrow> Some (Inl (Errorf ''load token'' [e]), s)
      | (Inr tok, s) \<Rightarrow>
          (let ask = (case interactive of
                 None \<Rightarrow> None
               | Some (Inl e) \<Rightarrow> Some (Inl e, s)
               | Some (Inr fresh) \<Rightarrow> Some (keep_token (save fresh) fresh s))
           in if token_valid t tok then Some (Inr tok, s)
              else if tk_refresh tok = [] then ask
              else case refresh (tk_refresh tok) of
                Inl e \<Rightarrow> ask
              | Inr renewed \<Rightarrow> Some (keep_token (save renewed) renewed s)))"

text \<open>What a client relies on of a store; \<open>good\<close> is a store that can be used, \<open>working\<close> an undisturbed access.\<close>

locale token_storage =
  fixes load :: "'e \<Rightarrow> 's \<Rightarrow> token result \<times> 's" and save :: "'e \<Rightarrow> token \<Rightarrow> 's \<Rightarrow> error option \<times> 's"
    and good :: "'s \<Rightarrow> bool" and working :: "'e \<Rightarrow> bool"
  assumes save_fail: "save e tok s = (Some x, s') \<Longrightarrow> s' = s"
    and save_good: "good s \<Longrightarrow> save e tok s = (r, s') \<Longrightarrow> good s'"
    and load_good: "good s \<Longrightarrow> load e s = (got, s') \<Longrightarrow> good s'"
    and load_saved: "good s \<Longrightarrow> save e tok s = (None, s') \<Longrightarrow> working e' \<Longrightarrow> whole_minutes tok \<Longrightarrow>
      \<exists>tok'. load e' s' = (Inr tok', s') \<and> same_token tok tok'"
    and load_again: "working e \<Longrightarrow> working e' \<Longrightarrow> good s \<Longrightarrow> load e s = (Inr tok, s') \<Longrightarrow> whole_minutes tok \<Longrightarrow>
      \<exists>tok'. fst (load e' s') = Inr tok' \<and> same_token tok tok'"
begin

text \<open>The token a caller was given is the one the next load finds.\<close>

lemma get_token_stored:
  assumes "good s" and "working e" and "working e'"
    and "get_token (load e) (save e) t refresh interactive s = Some (Inr tok, s')" and "whole_minutes tok"
  shows "\<exists>tok'. fst (load e' s') = Inr tok' \<and> same_token tok tok'"
proof -
  obtain r s1 where l: "load e s = (r, s1)" by fastforce
  then obtain old where old: "r = Inr old" using assms(4) by (cases r) (auto simp: get_token_def)
  have s1: "good s1" using load_good[OF assms(1) l] .
  have kept: "\<exists>tok'. fst (load e' s') = Inr tok' \<and> same_token tok tok'" if "keep_token (save e new) new s1 = (Inr tok, s')" for new
  proof -
    have "save e new s1 = (None, s')" "new = tok" using that by (auto simp: keep_token_def split: prod.splits option.splits)
    then show ?thesis using load_saved[OF s1 _ assms(3,5)] by force
  qed
  have "(tok = old \<and> s' = s1) \<or> (\<exists>new. keep_token (save e new) new s1 = (Inr tok, s'))"
    using assms(4) by (auto simp: get_token_def l old Let_def split: if_splits option.splits sum.splits)
  then show ?thesis using kept load_again[OF assms(2,3,1) l[unfolded old]] assms(5) by blast
qed

end

definition store_good :: "token_store \<Rightarrow> bool" where
  "store_good st \<longleftrightarrow> (case st of Sealed_Store b f \<Rightarrow> opens_sealed b | _ \<Rightarrow> True)"

definition io_working :: "token_io \<Rightarrow> bool" where
  "io_working io \<longleftrightarrow> ti_get io = None"

lemma read_written:
  assumes "token_text show_j tok = Inr t" and "whole_minutes tok" and "\<And>j. plain_json j \<Longrightarrow> scan_json (show_j j) = Json j"
  shows "\<exists>tok'. read_token local t = Inr tok' \<and> same_token tok tok'"
proof -
  obtain j where j: "token_json tok = Inr j" "t = show_j j" using assms(1) by (auto simp: token_text_def split: sum.splits)
  note r = token_json_read[OF j(1) assms(2)]
  obtain tok' where "in_object (token_field local) zero_token j = Some tok'" "same_token tok tok'" using r(2) by blast
  then show ?thesis using assms(3)[OF r(1)] by (simp add: read_token_def unmarshal_def j(2))
qed

lemma save_file_ok:
  "save_file io seal text f = (None, f') \<Longrightarrow> \<exists>t s. text = Inr t \<and> seal t = Inr s \<and> f' = Content s"
  by (auto simp: save_file_def split: option.splits sum.splits)

lemma save_file_fails: "save_file io seal text f = (Some e, f') \<Longrightarrow> f' = f"
  by (auto simp: save_file_def split: option.splits sum.splits)

lemma keychain_save_ok: "keychain_save io tok entry = (None, entry') \<Longrightarrow> \<exists>t. token_text show_json tok = Inr t \<and> entry' = Some t"
  by (auto simp: keychain_save_def split: option.splits sum.splits)

lemma keychain_save_fails: "keychain_save io tok entry = (Some e, entry') \<Longrightarrow> entry' = entry"
  by (auto simp: keychain_save_def split: option.splits sum.splits)

lemma same_token_refl [simp]: "same_token a a"
  by (simp add: same_token_def)

lemma load_saved_token:
  assumes "store_good st" and "save_token io tok st = (None, st')" and "io_working io'" and "whole_minutes tok"
  shows "\<exists>tok'. load_token io' st' = (Inr tok', st') \<and> same_token tok tok'"
proof (cases st)
  case (File_Store f)
  then obtain t where t: "st' = File_Store (Content t)" "token_text indent_json tok = Inr t"
    using assms(2) by (auto dest: save_file_ok split: prod.splits)
  then show ?thesis using read_written[OF t(2) assms(4) scan_indent_json] by (auto simp: load_plain_def)
next
  case (Sealed_Store b f)
  then obtain t s where t: "st' = Sealed_Store b (Content s)" "token_text show_json tok = Inr t" "box_seal (ti_entropy io) b t = Inr s"
    using assms(2) by (auto dest: save_file_ok split: prod.splits)
  have "box_open b s = Inr t" using assms(1) Sealed_Store box_open_seal[OF _ t(3)] by (simp add: store_good_def)
  then show ?thesis using t(1) read_written[OF t(2) assms(4) scan_show_json] by (auto simp: load_sealed_def)
next
  case (Keychain_Store entry legacy)
  then obtain t where t: "st' = Keychain_Store (Some t) legacy" "token_text show_json tok = Inr t"
    using assms(2) by (auto dest: keychain_save_ok split: prod.splits)
  then show ?thesis
    using read_written[OF t(2) assms(4) scan_show_json] assms(3) by (auto simp: keychain_load_def io_working_def)
qed

text \<open>The zone of the machine only labels the expiry.\<close>

lemma parse_rfc3339_zone: "map_option t_ns (parse_rfc3339 l s) = map_option t_ns (parse_rfc3339 l' s)"
  by (auto simp: parse_rfc3339_def Let_def split: Option.bind_splits option.splits)

lemma as_time_zone: "t_ns old = t_ns old' \<Longrightarrow> rel_option (\<lambda>t u. t_ns t = t_ns u) (as_time l old v) (as_time l' old' v)"
proof (cases v)
  case (JStr s)
  then show ?thesis using parse_rfc3339_zone[of l s l']
    by (cases "parse_rfc3339 l s"; cases "parse_rfc3339 l' s") auto
qed auto

lemma token_field_zone:
  assumes "same_token a b"
  shows "rel_option same_token (token_field l a k v) (token_field l' b k v)"
proof -
  have time: "rel_option (\<lambda>t u. t_ns t = t_ns u) (as_time l (tk_expiry a) v) (as_time l' (tk_expiry b) v)"
    using assms by (intro as_time_zone) (simp add: same_token_def)
  have texts: "as_string (tk_access a) v = as_string (tk_access b) v" "as_string (tk_refresh a) v = as_string (tk_refresh b) v"
    "as_string (tk_scope a) v = as_string (tk_scope b) v" using assms by (simp_all add: same_token_def)
  show ?thesis
    using assms time unfolding token_field_def texts
    by (auto simp: option.rel_map same_token_def intro!: option.rel_refl elim!: option.rel_mono_strong)
qed

lemma fold_token_zone:
  "same_token a b \<Longrightarrow> rel_option same_token (fold_fields (token_field l) a kvs) (fold_fields (token_field l') b kvs)"
proof (induction kvs arbitrary: a b)
  case (Cons kv kvs)
  obtain k v where kv: "kv = (k, v)" by fastforce
  show ?case
    using token_field_zone[OF Cons.prems, of l k v l'] Cons.IH
    by (cases "token_field l a k v"; cases "token_field l' b k v") (auto simp: kv)
qed simp

lemma read_token_zone:
  assumes "read_token l t = Inr a"
  shows "\<exists>b. read_token l' t = Inr b \<and> same_token a b"
proof -
  obtain j where j: "scan_json t = Json j" "in_object (token_field l) zero_token j = Some a"
    using assms by (auto simp: read_token_def unmarshal_def split: json_text.splits option.splits)
  have "rel_option same_token (in_object (token_field l) zero_token j) (in_object (token_field l') zero_token j)"
    using fold_token_zone[of zero_token zero_token l _ l'] by (cases j) auto
  then show ?thesis using j by (auto simp: read_token_def unmarshal_def rel_option_iff split: option.splits)
qed

lemma load_plain_zone: "load_plain io f = Inr a \<Longrightarrow> \<exists>b. load_plain io' f = Inr b \<and> same_token a b"
  using read_token_zone by (auto simp: load_plain_def split: stored.splits)

lemma load_sealed_zone: "load_sealed io box f = Inr a \<Longrightarrow> \<exists>b. load_sealed io' box f = Inr b \<and> same_token a b"
  using read_token_zone by (auto simp: load_sealed_def split: stored.splits sum.splits)

text \<open>Loading twice gives the same token, also when the first load moved it to the keychain.\<close>

lemma keychain_load_fst:
  assumes "ti_get io = None" and "entry = None"
  shows "fst (keychain_load io entry legacy)
    = (case load_plain io legacy of Inl e \<Rightarrow> Inr zero_token | Inr tok \<Rightarrow> if tk_access tok = [] then Inr zero_token else Inr tok)"
  using assms by (auto simp: keychain_load_def split: sum.splits prod.splits option.splits)

lemma keychain_kept:
  assumes "ti_get io = None" and "keychain_load io entry legacy = (r, entry', legacy')"
  shows "(entry' = entry \<and> legacy' = legacy)
    \<or> (\<exists>tok t. entry = None \<and> r = Inr tok \<and> token_text show_json tok = Inr t \<and> entry' = Some t)"
  using assms by (auto simp: keychain_load_def split: option.splits sum.splits prod.splits if_splits
      dest: keychain_save_ok keychain_save_fails)

lemma load_plain_zone_fails: "load_plain io f = Inl e \<Longrightarrow> \<exists>e'. load_plain io' f = Inl e'"
  using load_plain_zone[of io' f _ io] by (cases "load_plain io' f") auto

lemma keychain_load_again:
  assumes "ti_get io = None" and "ti_get io' = None"
    and "keychain_load io entry legacy = (Inr tok, entry', legacy')" and "whole_minutes tok"
  shows "\<exists>tok'. fst (keychain_load io' entry' legacy') = Inr tok' \<and> same_token tok tok'"
proof -
  consider "entry' = entry" "legacy' = legacy"
    | t where "entry = None" "token_text show_json tok = Inr t" "entry' = Some t"
    using keychain_kept[OF assms(1,3)] by auto
  then show ?thesis
  proof cases
    case 1
    show ?thesis
    proof (cases entry)
      case None
      show ?thesis
        using assms(3) keychain_load_fst[OF assms(1) None, of legacy] keychain_load_fst[OF assms(2) None, of legacy]
          load_plain_zone[of io legacy _ io'] load_plain_zone_fails[of io legacy _ io'] 1
        by (auto simp: same_token_def split: sum.splits if_splits)
    next
      case (Some t)
      then show ?thesis
        using assms(1-3) 1 read_token_zone by (auto simp: keychain_load_def)
    qed
  next
    case 2
    then show ?thesis
      using read_written[OF 2(2) assms(4) scan_show_json] assms(2) by (auto simp: keychain_load_def)
  qed
qed

lemma load_token_again:
  assumes "io_working io" and "io_working io'" and "load_token io st = (Inr tok, st')" and "whole_minutes tok"
  shows "\<exists>tok'. fst (load_token io' st') = Inr tok' \<and> same_token tok tok'"
proof (cases st)
  case (Keychain_Store entry legacy)
  then show ?thesis
    using assms keychain_load_again[of io io' entry legacy tok] by (force simp: io_working_def split: prod.splits)
next
  case (File_Store f)
  then show ?thesis using assms(3) load_plain_zone[of io f tok io'] by auto
next
  case (Sealed_Store b f)
  then show ?thesis using assms(3) load_sealed_zone[of io b f tok io'] by auto
qed

lemma save_token_good: "store_good st \<Longrightarrow> save_token io tok st = (r, st') \<Longrightarrow> store_good st'"
  by (cases st) (auto simp: store_good_def split: prod.splits)

lemma load_token_good: "store_good st \<Longrightarrow> load_token io st = (r, st') \<Longrightarrow> store_good st'"
  by (cases st) (auto simp: store_good_def split: prod.splits)

lemma failed_save_keeps: "save_token io tok st = (Some e, st') \<Longrightarrow> st' = st"
  by (cases st) (auto split: prod.splits dest: save_file_fails keychain_save_fails)

interpretation kept_tokens: token_storage load_token save_token store_good io_working
proof
  fix e tok s x s'
  show "save_token e tok s = (Some x, s') \<Longrightarrow> s' = s" by (rule failed_save_keeps)
next
  fix e tok s r s'
  show "store_good s \<Longrightarrow> save_token e tok s = (r, s') \<Longrightarrow> store_good s'" by (rule save_token_good)
next
  fix e s got s'
  show "store_good s \<Longrightarrow> load_token e s = (got, s') \<Longrightarrow> store_good s'" by (rule load_token_good)
next
  fix e e' tok s s'
  show "store_good s \<Longrightarrow> save_token e tok s = (None, s') \<Longrightarrow> io_working e' \<Longrightarrow> whole_minutes tok \<Longrightarrow>
      \<exists>tok'. load_token e' s' = (Inr tok', s') \<and> same_token tok tok'" by (rule load_saved_token)
next
  fix e e' s tok s'
  show "io_working e \<Longrightarrow> io_working e' \<Longrightarrow> store_good s \<Longrightarrow> load_token e s = (Inr tok, s') \<Longrightarrow> whole_minutes tok \<Longrightarrow>
      \<exists>tok'. fst (load_token e' s') = Inr tok' \<and> same_token tok tok'" by (rule load_token_again)
qed

section \<open>What the theory establishes\<close>

lemma same_token_valid: "same_token a b \<Longrightarrow> token_valid t a = token_valid t b"
  by (simp add: same_token_def token_valid_def before_def time_add_def)

text \<open>
  C11. Signing in once is enough. The token a call returned, whether it was stored, refreshed or obtained
  from a sign-in, is the one the next call returns while it is valid, from each of the three stores and also
  when the first load moved it into the keychain: that call neither refreshes nor asks again. The keychain
  answers in both calls, a sealed file is opened with the key that sealed it, and the time zone of the expiry is whole
  minutes away from UTC, as the JSON of a timestamp needs.
\<close>

theorem signed_in_once:
  assumes "store_good st" and "io_working io" and "io_working io'"
    and "get_token (load_token io) (save_token io) t refresh interactive st = Some (Inr tok, st')"
    and "whole_minutes tok" and "token_valid t' tok"
  shows "\<exists>tok' st''. same_token tok tok' \<and> (\<forall>refresh' interactive'.
    get_token (load_token io') (save_token io') t' refresh' interactive' st' = Some (Inr tok', st''))"
proof -
  obtain tok' where again: "fst (load_token io' st') = Inr tok'" "same_token tok tok'"
    using kept_tokens.get_token_stored[OF assms(1-5)] by blast
  then have "token_valid t' tok'" using assms(6) same_token_valid by blast
  moreover obtain st'' where "load_token io' st' = (Inr tok', st'')" using again(1) by (cases "load_token io' st'") auto
  ultimately show ?thesis using again(2) by (auto simp: get_token_def)
qed

definition plain_io :: token_io where
  "plain_io = \<lparr>ti_mkdir = None, ti_write = None, ti_entropy = None, ti_get = None, ti_set = None, ti_remove = None, ti_local = UTC\<rparr>"

definition day_token :: token where
  "day_token = \<lparr>tk_access = ''at'', tk_refresh = ''rt'', tk_scope = [], tk_expiry = \<lparr>t_ns = 86400 * second, t_loc = UTC\<rparr>\<rparr>"

definition epoch :: gotime where "epoch = \<lparr>t_ns = 0, t_loc = UTC\<rparr>"

definition old_file :: "string stored" where
  "old_file = (case token_text indent_json day_token of Inl e \<Rightarrow> Absent | Inr s \<Rightarrow> Content s)"

theorem signed_in_once_witness:
  "\<exists>st. get_token (load_token plain_io) (save_token plain_io) epoch (\<lambda>rt. Inl err_no_key) None (Keychain_Store None old_file)
      = Some (Inr day_token, st)
    \<and> (\<exists>tok' st''. same_token day_token tok' \<and>
        get_token (load_token plain_io) (save_token plain_io) epoch (\<lambda>rt. Inl err_no_key) None st = Some (Inr tok', st''))"
proof -
  have "case get_token (load_token plain_io) (save_token plain_io) epoch (\<lambda>rt. Inl err_no_key) None (Keychain_Store None old_file)
    of Some (Inr tok, Keychain_Store (Some t) Absent) \<Rightarrow> tok = day_token | _ \<Rightarrow> False" by code_simp
  then obtain st where st: "get_token (load_token plain_io) (save_token plain_io) epoch (\<lambda>rt. Inl err_no_key) None
      (Keychain_Store None old_file) = Some (Inr day_token, st)"
    by (auto split: option.splits prod.splits sum.splits token_store.splits stored.splits)
  have "token_valid epoch day_token" "whole_minutes day_token" by code_simp+
  with signed_in_once[OF _ _ _ st, of plain_io epoch] show ?thesis
    using st by (auto simp: store_good_def io_working_def plain_io_def)
qed

end
