(* ===== verification/Device_Flow.thy ===== *)
theory Device_Flow
  imports Sign_In
begin

text \<open>
  The Microsoft authenticator (\<open>internal/auth/device.go\<close>): the device flow, whose polling loop is a
  partial function, refreshing and the web code flow. The forms list their fields in the order \<open>Encode\<close>
  writes them.
\<close>

section \<open>Forms and replies\<close>

record auth_out =
  ao_now :: "nat \<Rightarrow> gotime"
  ao_call :: "nat \<Rightarrow> http_call"
  ao_done :: "nat \<Rightarrow> error option"

text \<open>A product of durations wraps around as a signed 64 bit integer.\<close>

definition int64 :: "int \<Rightarrow> int" where
  "int64 x = (x + 2 ^ 63) mod 2 ^ 64 - 2 ^ 63"

lemma int64_id: "- (2 ^ 63) \<le> x \<Longrightarrow> x < 2 ^ 63 \<Longrightarrow> int64 x = x"
  by (simp add: int64_def)

definition form_request :: "string \<Rightarrow> form \<Rightarrow> http_request" where
  "form_request url f = \<lparr>hq_method = ''POST'', hq_url = url,
     hq_headers = [(''Content-Type'', ''application/x-www-form-urlencoded'')], hq_body = encode_form f\<rparr>"

text \<open>\<open>postForm\<close> decodes the body whatever the status says.\<close>

definition post_form :: "http_call \<Rightarrow> string \<Rightarrow> form \<Rightarrow> (json \<Rightarrow> 'a option) \<Rightarrow> 'a result" where
  "post_form call url f dec =
     (case call (form_request url f) of Inl e \<Rightarrow> Inl e | Inr r \<Rightarrow> unmarshal dec (hs_body r))"

record token_reply =
  tr_access :: string
  tr_refresh :: string
  tr_scope :: string
  tr_expires :: int
  tr_error :: string
  tr_description :: string

definition zero_reply :: token_reply where
  "zero_reply = \<lparr>tr_access = [], tr_refresh = [], tr_scope = [], tr_expires = 0, tr_error = [], tr_description = []\<rparr>"

definition reply_field :: "token_reply \<Rightarrow> string \<Rightarrow> json \<Rightarrow> token_reply option" where
  "reply_field r k v =
     (if equal_fold k ''access_token'' then map_option (\<lambda>x. r\<lparr>tr_access := x\<rparr>) (as_string (tr_access r) v)
      else if equal_fold k ''refresh_token'' then map_option (\<lambda>x. r\<lparr>tr_refresh := x\<rparr>) (as_string (tr_refresh r) v)
      else if equal_fold k ''scope'' then map_option (\<lambda>x. r\<lparr>tr_scope := x\<rparr>) (as_string (tr_scope r) v)
      else if equal_fold k ''expires_in'' then map_option (\<lambda>x. r\<lparr>tr_expires := x\<rparr>) (as_int (tr_expires r) v)
      else if equal_fold k ''error'' then map_option (\<lambda>x. r\<lparr>tr_error := x\<rparr>) (as_string (tr_error r) v)
      else if equal_fold k ''error_description''
      then map_option (\<lambda>x. r\<lparr>tr_description := x\<rparr>) (as_string (tr_description r) v)
      else Some r)"

definition as_token_reply :: "json \<Rightarrow> token_reply option" where
  "as_token_reply = in_object reply_field zero_reply"

definition token_from :: "gotime \<Rightarrow> token_reply \<Rightarrow> token" where
  "token_from t tr = \<lparr>tk_access = tr_access tr, tk_refresh = tr_refresh tr, tk_scope = tr_scope tr,
     tk_expiry = time_add t (int64 (tr_expires tr * second))\<rparr>"

section \<open>The Microsoft authenticator\<close>

definition ErrDeviceCode :: error where "ErrDeviceCode = Sentinel ''device code: empty response''"
definition ErrDeviceDeclined :: error where "ErrDeviceDeclined = Sentinel ''device code: authorization declined''"
definition ErrDeviceExpired :: error where "ErrDeviceExpired = Sentinel ''device code: expired before authorization''"
definition ErrToken :: error where "ErrToken = Sentinel ''token request failed''"

record ms_auth =
  ma_tenant :: string
  ma_client :: string
  ma_scopes :: "string list"
  ma_secret :: string
  ma_host :: string

definition ms_scopes :: "string list" where
  "ms_scopes = [''offline_access'', ''User.Read'', ''User.Read.All'', ''Calendars.ReadWrite'', ''MailboxSettings.ReadWrite'']"

definition auth_host :: string where "auth_host = ''https://login.microsoftonline.com''"

text \<open>Without a tenant or a client id the constructor panics, here \<open>None\<close>.\<close>

definition new_ms_auth :: "string \<Rightarrow> string \<Rightarrow> string \<Rightarrow> ms_auth option" where
  "new_ms_auth tenant client secret =
     (if tenant = [] \<or> client = [] then None
      else Some \<lparr>ma_tenant = tenant, ma_client = client, ma_scopes = ms_scopes, ma_secret = secret, ma_host = auth_host\<rparr>)"

definition endpoint :: "ms_auth \<Rightarrow> string \<Rightarrow> string" where
  "endpoint a what = ma_host a @ ''/'' @ ma_tenant a @ ''/oauth2/v2.0/'' @ what"

definition scope_text :: "ms_auth \<Rightarrow> string" where
  "scope_text a = join_with '' '' (ma_scopes a)"

definition refresh_form :: "ms_auth \<Rightarrow> string \<Rightarrow> form" where
  "refresh_form a rt =
     [(''client_id'', ma_client a)] @ (if ma_secret a = [] then [] else [(''client_secret'', ma_secret a)])
     @ [(''grant_type'', ''refresh_token''), (''refresh_token'', rt), (''scope'', scope_text a)]"

definition ms_refresh :: "ms_auth \<Rightarrow> http_call \<Rightarrow> gotime \<Rightarrow> string \<Rightarrow> token result" where
  "ms_refresh a call t rt =
     (case post_form call (endpoint a ''token'') (refresh_form a rt) as_token_reply of
        Inl e \<Rightarrow> Inl e
      | Inr tr \<Rightarrow>
          (if tr_error tr \<noteq> [] then Inl (Errorf ('': '' @ tr_error tr) [ErrToken])
           else let tok = token_from t tr in Inr (if tk_refresh tok = [] then tok\<lparr>tk_refresh := rt\<rparr> else tok)))"

definition web_code_url :: "ms_auth \<Rightarrow> string \<Rightarrow> string \<Rightarrow> string" where
  "web_code_url a redirect state =
     endpoint a ''authorize'' @ ''?'' @ encode_form [(''client_id'', ma_client a), (''redirect_uri'', redirect),
       (''response_mode'', ''query''), (''response_type'', ''code''), (''scope'', scope_text a), (''state'', state)]"

definition ms_exchange :: "ms_auth \<Rightarrow> http_call \<Rightarrow> gotime \<Rightarrow> string \<Rightarrow> string \<Rightarrow> token result" where
  "ms_exchange a call t code redirect =
     (case post_form call (endpoint a ''token'') [(''client_id'', ma_client a), (''client_secret'', ma_secret a),
         (''code'', code), (''grant_type'', ''authorization_code''), (''redirect_uri'', redirect), (''scope'', scope_text a)]
         as_token_reply of
        Inl e \<Rightarrow> Inl e
      | Inr tr \<Rightarrow>
          (if tr_error tr \<noteq> [] then Inl (Errorf ('': '' @ tr_error tr @ '': '' @ tr_description tr) [ErrToken])
           else Inr (token_from t tr)))"

section \<open>The device flow\<close>

record device_code =
  dc_code :: string
  dc_user :: string
  dc_uri :: string
  dc_expires :: int
  dc_interval :: int
  dc_message :: string

definition zero_code :: device_code where
  "zero_code = \<lparr>dc_code = [], dc_user = [], dc_uri = [], dc_expires = 0, dc_interval = 0, dc_message = []\<rparr>"

definition code_field :: "device_code \<Rightarrow> string \<Rightarrow> json \<Rightarrow> device_code option" where
  "code_field r k v =
     (if equal_fold k ''device_code'' then map_option (\<lambda>x. r\<lparr>dc_code := x\<rparr>) (as_string (dc_code r) v)
      else if equal_fold k ''user_code'' then map_option (\<lambda>x. r\<lparr>dc_user := x\<rparr>) (as_string (dc_user r) v)
      else if equal_fold k ''verification_uri'' then map_option (\<lambda>x. r\<lparr>dc_uri := x\<rparr>) (as_string (dc_uri r) v)
      else if equal_fold k ''expires_in'' then map_option (\<lambda>x. r\<lparr>dc_expires := x\<rparr>) (as_int (dc_expires r) v)
      else if equal_fold k ''interval'' then map_option (\<lambda>x. r\<lparr>dc_interval := x\<rparr>) (as_int (dc_interval r) v)
      else if equal_fold k ''message'' then map_option (\<lambda>x. r\<lparr>dc_message := x\<rparr>) (as_string (dc_message r) v)
      else Some r)"

definition request_device_code :: "ms_auth \<Rightarrow> http_call \<Rightarrow> device_code result" where
  "request_device_code a call =
     (case post_form call (endpoint a ''devicecode'') [(''client_id'', ma_client a), (''scope'', scope_text a)]
         (in_object code_field zero_code) of
        Inl e \<Rightarrow> Inl (Errorf ''device code request'' [e])
      | Inr dc \<Rightarrow> if dc_code dc = [] then Inl ErrDeviceCode else Inr dc)"

definition poll_form :: "ms_auth \<Rightarrow> device_code \<Rightarrow> form" where
  "poll_form a dc = [(''client_id'', ma_client a), (''device_code'', dc_code dc),
     (''grant_type'', ''urn:ietf:params:oauth:grant-type:device_code'')]"

datatype poll_answer = Poll_Done "token result" | Poll_Again duration

text \<open>What a reply means; the time is the one \<open>tokenFrom\<close> reads.\<close>

definition poll_reply :: "gotime \<Rightarrow> duration \<Rightarrow> token_reply \<Rightarrow> poll_answer" where
  "poll_reply t interval tr =
     (if tr_error tr = [] then Poll_Done (Inr (token_from t tr))
      else if tr_error tr = ''authorization_pending'' then Poll_Again interval
      else if tr_error tr = ''slow_down'' then Poll_Again (int64 (interval + 5 * second))
      else if tr_error tr = ''authorization_declined'' then Poll_Done (Inl ErrDeviceDeclined)
      else if tr_error tr = ''expired_token'' then Poll_Done (Inl ErrDeviceExpired)
      else Poll_Done (Inl (Errorf ('': '' @ tr_error tr @ '': '' @ tr_description tr) [ErrToken])))"

text \<open>
  The clock \<open>ao_now\<close> shows what passes besides the waiting; a wait of \<open>time.After\<close> takes its duration, and no
  time when that is not positive.
\<close>

definition ao_clock :: "auth_out \<Rightarrow> duration \<Rightarrow> nat \<Rightarrow> gotime" where
  "ao_clock ao waited n = time_add (ao_now ao n) waited"

text \<open>
  The loop. A round reads the clock, waits for the interval or the end of the context, posts and reads
  the reply; \<open>waited\<close> is how long the rounds before have waited, the list holds the intervals of this one
  and those after it.
\<close>

partial_function (option) poll_token ::
  "ms_auth \<Rightarrow> auth_out \<Rightarrow> device_code \<Rightarrow> gotime \<Rightarrow> duration \<Rightarrow> duration \<Rightarrow> nat \<Rightarrow> (token result \<times> duration list) option" where
  "poll_token a ao dc deadline interval waited n =
     (if after (ao_clock ao waited n) deadline then Some (Inl ErrDeviceExpired, [])
      else case ao_done ao (n + 1) of
        Some e \<Rightarrow> Some (Inl e, [])
      | None \<Rightarrow>
          (case post_form (ao_call ao (n + 1)) (endpoint a ''token'') (poll_form a dc) as_token_reply of
             Inl e \<Rightarrow> Some (Inl e, [interval])
           | Inr tr \<Rightarrow>
               (case poll_reply (ao_clock ao (waited + max 0 interval) (n + 2)) interval tr of
                  Poll_Done r \<Rightarrow> Some (r, [interval])
                | Poll_Again next \<Rightarrow>
                    Option.bind (poll_token a ao dc deadline next (waited + max 0 interval) (n + 2))
                      (\<lambda>(r, ws). Some (r, interval # ws)))))"

definition poll_interval :: "device_code \<Rightarrow> duration" where
  "poll_interval dc = (let i = int64 (dc_interval dc * second) in if i \<le> 0 then 5 * second else i)"

definition device_flow :: "ms_auth \<Rightarrow> auth_out \<Rightarrow> nat \<Rightarrow> (token result \<times> duration list) option" where
  "device_flow a ao n =
     (case request_device_code a (ao_call ao n) of
        Inl e \<Rightarrow> Some (Inl e, [])
      | Inr dc \<Rightarrow>
          poll_token a ao dc (time_add (ao_now ao (n + 1)) (int64 (dc_expires dc * second))) (poll_interval dc) 0 (n + 2))"

definition device_prompt :: "device_code \<Rightarrow> string" where
  "device_prompt dc =
     (if dc_message dc \<noteq> [] then dc_message dc else ''Open '' @ dc_uri dc @ '' and enter code '' @ dc_user dc) @ [CHR 0x0A]"

definition ms_token :: "ms_auth \<Rightarrow> auth_out \<Rightarrow> token_io \<Rightarrow> token_store \<Rightarrow> (token result \<times> token_store) option" where
  "ms_token a ao io st =
     get_token (load_token io) (save_token io) (ao_now ao 0) (ms_refresh a (ao_call ao 1) (ao_now ao 1))
       (map_option fst (device_flow a ao 2)) st"

section \<open>The loop ends\<close>

lemma poll_reply_again: "poll_reply t iv tr = Poll_Again next \<Longrightarrow> next = iv \<or> next = int64 (iv + 5 * second)"
  by (auto simp: poll_reply_def split: if_splits)

definition runs_forward :: "auth_out \<Rightarrow> bool" where
  "runs_forward ao \<longleftrightarrow> (\<forall>n. t_ns (ao_now ao n) \<le> t_ns (ao_now ao (n + 1)))"

lemma runs_forward_le: "runs_forward ao \<Longrightarrow> n \<le> m \<Longrightarrow> t_ns (ao_now ao n) \<le> t_ns (ao_now ao m)"
  by (rule lift_Suc_mono_le[of "\<lambda>n. t_ns (ao_now ao n)"]) (simp_all add: runs_forward_def)

text \<open>The intervals of a loop that was asked to wait \<open>i\<close>: never less, each the one before or five seconds more.\<close>

definition keeps_distance :: "duration \<Rightarrow> duration \<Rightarrow> duration list \<Rightarrow> bool" where
  "keeps_distance i left ws \<longleftrightarrow> (\<forall>w \<in> set ws. i \<le> w) \<and> successively (\<lambda>x y. y = x \<or> y = x + 5 * second) ws
     \<and> sum_list (butlast ws) \<le> max 0 left"

text \<open>
  While the deadline is ahead, the last interval is part of the time that passed since the start \<open>b\<close>, so adding
  five seconds does not wrap around.
\<close>

definition loop_ok :: "gotime \<Rightarrow> int \<Rightarrow> duration \<Rightarrow> gotime \<Rightarrow> duration \<Rightarrow> bool" where
  "loop_ok deadline b i now iv \<longleftrightarrow> (t_ns now \<le> t_ns deadline \<longrightarrow> i \<le> iv \<and> iv < 2 ^ 63)"

lemma next_ok:
  assumes "loop_ok deadline b i now iv" and "next = iv \<or> next = int64 (iv + 5 * second)" and "0 < i" and "i \<le> iv"
    and "b + iv \<le> t_ns now'" and "t_ns deadline - b < 2 ^ 63 - 5 * second" and "t_ns now' \<le> t_ns deadline"
  shows "(next = iv \<or> next = iv + 5 * second) \<and> i \<le> next \<and> next < 2 ^ 63"
proof -
  have "iv + 5 * second < 2 ^ 63" using assms(5-7) by linarith
  then show ?thesis using assms(2-4) int64_id[of "iv + 5 * second"] by auto
qed

lemma poll_ends:
  assumes clk: "runs_forward ao" and i: "0 < i" and wrap: "t_ns deadline - b < 2 ^ 63 - 5 * second"
  shows "t_ns deadline - t_ns (ao_clock ao waited n) < int k * i \<Longrightarrow> loop_ok deadline b i (ao_clock ao waited n) iv \<Longrightarrow>
    b \<le> t_ns (ao_now ao n) \<Longrightarrow> 0 \<le> waited \<Longrightarrow>
    \<exists>r ws. poll_token a ao dc deadline iv waited n = Some (r, ws) \<and> length ws \<le> k
      \<and> keeps_distance i (t_ns deadline - t_ns (ao_clock ao waited n)) ws
      \<and> (ws \<noteq> [] \<longrightarrow> hd ws = iv \<and> t_ns (ao_clock ao waited n) \<le> t_ns deadline)"
proof (induction k arbitrary: n iv waited)
  case 0
  then have "after (ao_clock ao waited n) deadline" by (simp add: after_def before_def)
  then show ?case by (subst poll_token.simps) (simp add: keeps_distance_def)
next
  case (Suc k)
  let ?now = "ao_clock ao waited n"
  show ?case
  proof (cases "after ?now deadline \<or> ao_done ao (n + 1) \<noteq> None")
    case True
    then show ?thesis by (subst poll_token.simps) (auto simp: keeps_distance_def)
  next
    case False
    then have ahead: "t_ns ?now \<le> t_ns deadline" by (simp add: after_def before_def)
    then have iv: "i \<le> iv" "iv < 2 ^ 63" using Suc.prems(2) by (simp_all add: loop_ok_def)
    have one: "keeps_distance i left [iv]" for left using iv by (simp add: keeps_distance_def)
    show ?thesis
    proof (cases "post_form (ao_call ao (n + 1)) (endpoint a ''token'') (poll_form a dc) as_token_reply")
      case (Inl e)
      then show ?thesis using False one ahead by (subst poll_token.simps) simp
    next
      case (Inr tr)
      let ?w2 = "waited + max 0 iv"
      let ?now2 = "ao_clock ao ?w2 (n + 2)"
      show ?thesis
      proof (cases "poll_reply ?now2 iv tr")
        case (Poll_Done r)
        then show ?thesis using False Inr one ahead by (subst poll_token.simps) simp
      next
        case (Poll_Again iv2)
        have now2: "t_ns ?now + iv \<le> t_ns ?now2" and b2: "b \<le> t_ns (ao_now ao (n + 2))" and far: "b + iv \<le> t_ns ?now2"
          using runs_forward_le[OF clk, of n "n + 2"] i iv Suc.prems(3,4) by (simp_all add: ao_clock_def time_add_def)
        have less: "t_ns deadline - t_ns ?now2 < int k * i" using Suc.prems(1) now2 iv by (simp add: algebra_simps)
        note step = next_ok[OF Suc.prems(2) poll_reply_again[OF Poll_Again] i iv(1) far wrap]
        have ok: "loop_ok deadline b i ?now2 iv2" using step by (simp add: loop_ok_def)
        obtain r ws where w: "poll_token a ao dc deadline iv2 ?w2 (n + 2) = Some (r, ws)" "length ws \<le> k"
          "keeps_distance i (t_ns deadline - t_ns ?now2) ws" "ws \<noteq> [] \<longrightarrow> hd ws = iv2 \<and> t_ns ?now2 \<le> t_ns deadline"
          using Suc.IH[OF less ok b2] Suc.prems(4) by auto
        have run: "poll_token a ao dc deadline iv waited n = Some (r, iv # ws)"
          using False Inr Poll_Again w(1) by (subst poll_token.simps) simp
        have "keeps_distance i (t_ns deadline - t_ns ?now) (iv # ws)"
        proof (cases "ws = []")
          case True
          then show ?thesis using one by simp
        next
          case False
          then show ?thesis using w(3,4) step now2 iv(1) by (cases ws) (auto simp: keeps_distance_def)
        qed
        then show ?thesis using run w(2) ahead by simp
      qed
    qed
  qed
qed

section \<open>What the theory establishes\<close>

text \<open>
  C13. The device flow ends and keeps its distance. Whatever Microsoft answers, the sign-in returns. Every wait
  between polls is at least the interval Microsoft asked for, five seconds when it asked for none; it is the
  one before, or five seconds more; all waits but the last fit in the time the code is valid, so there is at
  most one poll for each interval of that time and one more. It is assumed that the clock does not run
  backwards and that the two numbers of seconds in the reply stay below 285 years, past which the durations
  of the source wrap around.
\<close>

theorem device_flow_ends:
  assumes "runs_forward ao" and "request_device_code a (ao_call ao n) = Inr dc"
    and "\<bar>dc_expires dc\<bar> \<le> 9000000000" and "\<bar>dc_interval dc\<bar> \<le> 9000000000"
    and "i = (if 0 < dc_interval dc then dc_interval dc * second else 5 * second)"
  shows "\<exists>r ws. device_flow a ao n = Some (r, ws) \<and> (\<forall>w \<in> set ws. i \<le> w) \<and> (ws \<noteq> [] \<longrightarrow> hd ws = i)
    \<and> successively (\<lambda>x y. y = x \<or> y = x + 5 * second) ws
    \<and> sum_list (butlast ws) \<le> max 0 (dc_expires dc * second)
    \<and> int (length ws) \<le> max 0 (dc_expires dc * second) div i + 1"
proof -
  let ?d = "dc_expires dc * second" and ?t = "ao_now ao (n + 1)"
  let ?deadline = "time_add ?t ?d"
  have d: "int64 ?d = ?d" "int64 (dc_interval dc * second) = dc_interval dc * second"
    using assms(3,4) by (simp_all add: int64_id)
  have "i < 2 ^ 63" using assms(4,5) by (cases "0 < dc_interval dc") simp_all
  then have i: "0 < i" "poll_interval dc = i" "i < 2 ^ 63"
    using assms(5) d(2) by (simp_all add: poll_interval_def)
  define k where "k = nat (max 0 ?d div i + 1)"
  have pos: "0 \<le> max 0 ?d div i" using i(1) by (simp add: pos_imp_zdiv_nonneg_iff)
  have "max 0 ?d < (max 0 ?d div i + 1) * i"
    using pos_mod_bound[OF i(1), of "max 0 ?d"] div_mult_mod_eq[of "max 0 ?d" i] unfolding distrib_right mult_1_left by linarith
  then have "?d < int k * i" using pos by (simp add: k_def)
  moreover have start: "t_ns ?t \<le> t_ns (ao_clock ao 0 (n + 2))" "t_ns ?t \<le> t_ns (ao_now ao (n + 2))"
    using runs_forward_le[OF assms(1), of "n + 1" "n + 2"] by (simp_all add: ao_clock_def time_add_def)
  ultimately have less: "t_ns ?deadline - t_ns (ao_clock ao 0 (n + 2)) < int k * i" by (simp add: time_add_def)
  have wrap: "t_ns ?deadline - t_ns ?t < 2 ^ 63 - 5 * second" using assms(3) by (simp add: time_add_def)
  have ok: "loop_ok ?deadline (t_ns ?t) i (ao_clock ao 0 (n + 2)) i" using i by (simp add: loop_ok_def)
  from poll_ends[OF assms(1) i(1) wrap less ok start(2), of a dc] obtain r ws where
    w: "device_flow a ao n = Some (r, ws)" "length ws \<le> k"
    "keeps_distance i (t_ns ?deadline - t_ns (ao_clock ao 0 (n + 2))) ws" "ws \<noteq> [] \<longrightarrow> hd ws = i"
    by (auto simp: device_flow_def assms(2) d(1) i(2))
  moreover have "max 0 (t_ns ?deadline - t_ns (ao_clock ao 0 (n + 2))) \<le> max 0 ?d" using start(1) by (simp add: time_add_def)
  ultimately show ?thesis using pos
    by (intro exI[of _ r] exI[of _ ws]) (auto simp: keeps_distance_def k_def)
qed

text \<open>A service that never decides: the code is valid for three seconds, then it has expired.\<close>

definition undecided :: auth_out where
  "undecided = \<lparr>ao_now = \<lambda>n. \<lparr>t_ns = (1000 + int n) * second, t_loc = UTC\<rparr>,
     ao_call = \<lambda>n q. Inr \<lparr>hs_status = 200, hs_body = show_json (if n = 0
       then JObj [(''device_code'', JStr ''d''), (''expires_in'', JInt 3), (''interval'', JInt 1)]
       else JObj [(''error'', JStr ''authorization_pending'')]), hs_location = []\<rparr>, ao_done = \<lambda>n. None\<rparr>"

definition contoso :: ms_auth where
  "contoso = \<lparr>ma_tenant = ''contoso'', ma_client = ''c1'', ma_scopes = ms_scopes, ma_secret = [], ma_host = auth_host\<rparr>"

theorem device_flow_ends_witness:
  "\<exists>r ws. device_flow contoso undecided 0 = Some (r, ws) \<and> (\<forall>w \<in> set ws. second \<le> w) \<and> int (length ws) \<le> 4"
proof -
  have clk: "runs_forward undecided" by (simp add: runs_forward_def undecided_def)
  have "request_device_code contoso (ao_call undecided 0)
    = Inr (zero_code\<lparr>dc_code := ''d'', dc_expires := 3, dc_interval := 1\<rparr>)" by code_simp
  from device_flow_ends[OF clk this] show ?thesis by (fastforce simp: zero_code_def)
qed

end
