(* ===== verification/Google_Sign_In.thy ===== *)
theory Google_Sign_In
  imports Device_Flow
begin

text \<open>
  The Google authenticator (\<open>internal/googleauth\<close>): the loopback flow with PKCE, the token endpoint and the
  web flow. The SHA-256 of PKCE is an argument. The requests that reach the loopback server are a list of
  query strings, in the order their answers are decided; the first decides the flow.
\<close>

definition ErrAuthorization :: error where "ErrAuthorization = Sentinel ''authorization failed''"
definition ErrState :: error where "ErrState = Sentinel ''authorization state mismatch''"
definition ErrNoCode :: error where "ErrNoCode = Sentinel ''no authorization code received''"
definition ErrGoogleToken :: error where "ErrGoogleToken = Sentinel ''token request failed''"

record google_auth =
  gc_client :: string
  gc_secret :: string
  gc_scopes :: "string list"
  gc_auth_url :: string
  gc_token_url :: string

definition google_scopes :: "string list" where
  "google_scopes = [''https://www.googleapis.com/auth/calendar.events'', ''https://www.googleapis.com/auth/calendar.readonly'']"

definition google_auth_endpoint :: string where "google_auth_endpoint = ''https://accounts.google.com/o/oauth2/v2/auth''"
definition google_token_endpoint :: string where "google_token_endpoint = ''https://oauth2.googleapis.com/token''"

definition new_google_auth :: "string \<Rightarrow> string \<Rightarrow> google_auth option" where
  "new_google_auth client secret =
     (if client = [] \<or> secret = [] then None
      else Some \<lparr>gc_client = client, gc_secret = secret, gc_scopes = google_scopes,
        gc_auth_url = google_auth_endpoint, gc_token_url = google_token_endpoint\<rparr>)"

section \<open>The token endpoint\<close>

definition google_post_token :: "google_auth \<Rightarrow> http_call \<Rightarrow> gotime \<Rightarrow> form \<Rightarrow> token result" where
  "google_post_token g call t f =
     (case post_form call (gc_token_url g) f as_token_reply of
        Inl e \<Rightarrow> Inl e
      | Inr tr \<Rightarrow>
          (if tr_error tr \<noteq> [] then Inl (Errorf ('': '' @ tr_error tr @ '': '' @ tr_description tr) [ErrGoogleToken])
           else if tr_access tr = [] then Inl (Errorf '': empty access token'' [ErrGoogleToken])
           else Inr (token_from t tr)))"

definition google_refresh :: "google_auth \<Rightarrow> http_call \<Rightarrow> gotime \<Rightarrow> string \<Rightarrow> token result" where
  "google_refresh g call t rt =
     (case google_post_token g call t [(''client_id'', gc_client g), (''client_secret'', gc_secret g),
         (''grant_type'', ''refresh_token''), (''refresh_token'', rt)] of
        Inl e \<Rightarrow> Inl e
      | Inr tok \<Rightarrow> Inr (if tk_refresh tok = [] then tok\<lparr>tk_refresh := rt\<rparr> else tok))"

definition exchange_form :: "google_auth \<Rightarrow> string \<Rightarrow> string \<Rightarrow> string \<Rightarrow> form" where
  "exchange_form g code verifier redirect =
     [(''client_id'', gc_client g), (''client_secret'', gc_secret g), (''code'', code), (''code_verifier'', verifier),
      (''grant_type'', ''authorization_code''), (''redirect_uri'', redirect)]"

definition google_exchange :: "google_auth \<Rightarrow> http_call \<Rightarrow> gotime \<Rightarrow> string \<Rightarrow> string \<Rightarrow> string \<Rightarrow> token result" where
  "google_exchange g call t code verifier redirect = google_post_token g call t (exchange_form g code verifier redirect)"

definition google_web_exchange :: "google_auth \<Rightarrow> http_call \<Rightarrow> gotime \<Rightarrow> string \<Rightarrow> string \<Rightarrow> token result" where
  "google_web_exchange g call t code redirect =
     google_post_token g call t [(''client_id'', gc_client g), (''client_secret'', gc_secret g), (''code'', code),
       (''grant_type'', ''authorization_code''), (''redirect_uri'', redirect)]"

definition google_web_url :: "google_auth \<Rightarrow> string \<Rightarrow> string \<Rightarrow> string" where
  "google_web_url g redirect state =
     gc_auth_url g @ ''?'' @ encode_form [(''access_type'', ''offline''), (''client_id'', gc_client g), (''prompt'', ''consent''),
       (''redirect_uri'', redirect), (''response_type'', ''code''), (''scope'', join_with '' '' (gc_scopes g)), (''state'', state)]"

section \<open>The loopback flow\<close>

text \<open>A verifier of 32 random bytes and its challenge, and a state of 16 random bytes.\<close>

definition pkce :: "(string \<Rightarrow> string) \<Rightarrow> entropy \<Rightarrow> (string \<times> string) result" where
  "pkce sha256 ent =
     (case random_bytes ent 32 of
        Inl e \<Rightarrow> Inl e
      | Inr b \<Rightarrow> Inr (raw_url_encode b, raw_url_encode (sha256 (raw_url_encode b))))"

definition random_state :: "entropy \<Rightarrow> string result" where
  "random_state ent = (case random_bytes ent 16 of Inl e \<Rightarrow> Inl e | Inr b \<Rightarrow> Inr (raw_url_encode b))"

definition consent_form :: "google_auth \<Rightarrow> string \<Rightarrow> string \<Rightarrow> string \<Rightarrow> form" where
  "consent_form g redirect challenge state =
     [(''access_type'', ''offline''), (''client_id'', gc_client g), (''code_challenge'', challenge),
      (''code_challenge_method'', ''S256''), (''prompt'', ''consent''), (''redirect_uri'', redirect),
      (''response_type'', ''code''), (''scope'', join_with '' '' (gc_scopes g)), (''state'', state)]"

definition auth_code_url :: "google_auth \<Rightarrow> string \<Rightarrow> string \<Rightarrow> string \<Rightarrow> string" where
  "auth_code_url g redirect challenge state = gc_auth_url g @ ''?'' @ encode_form (consent_form g redirect challenge state)"

text \<open>What the handler makes of one redirect; an error shows the failure page, a code the success page.\<close>

definition redirect_answer :: "string \<Rightarrow> form \<Rightarrow> string result" where
  "redirect_answer want q =
     (if form_get q ''error'' \<noteq> [] then Inl (Errorf ('': '' @ form_get q ''error'') [ErrAuthorization])
      else if form_get q ''state'' \<noteq> want then Inl ErrState
      else if form_get q ''code'' = [] then Inl ErrNoCode
      else Inr (form_get q ''code''))"

datatype arrival = Cancelled error | Redirects "string list"

fun wait_for_code :: "string \<Rightarrow> arrival \<Rightarrow> string result option" where
  "wait_for_code want (Cancelled e) = Some (Inl e)"
| "wait_for_code want (Redirects []) = None"
| "wait_for_code want (Redirects (q # qs)) = Some (redirect_answer want (url_query q))"

record loop_out =
  lo_address :: "string result"
  lo_verifier :: entropy
  lo_state :: entropy
  lo_arrival :: "string \<Rightarrow> arrival"

text \<open>\<open>lo_arrival\<close> is what comes back from the consent page at the URL the flow opens.\<close>

definition loopback :: "google_auth \<Rightarrow> (string \<Rightarrow> string) \<Rightarrow> loop_out \<Rightarrow> http_call \<Rightarrow> gotime \<Rightarrow> token result option" where
  "loopback g sha256 lo call t =
     (case lo_address lo of
        Inl e \<Rightarrow> Some (Inl (Errorf ''start loopback listener'' [e]))
      | Inr addr \<Rightarrow>
          (case pkce sha256 (lo_verifier lo) of
             Inl e \<Rightarrow> Some (Inl e)
           | Inr (verifier, challenge) \<Rightarrow>
               (case random_state (lo_state lo) of
                  Inl e \<Rightarrow> Some (Inl e)
                | Inr state \<Rightarrow>
                    (let redirect = ''http://'' @ addr in
                     case wait_for_code state (lo_arrival lo (auth_code_url g redirect challenge state)) of
                       None \<Rightarrow> None
                     | Some (Inl e) \<Rightarrow> Some (Inl e)
                     | Some (Inr code) \<Rightarrow> Some (google_exchange g call t code verifier redirect)))))"

definition google_token ::
  "google_auth \<Rightarrow> (string \<Rightarrow> string) \<Rightarrow> loop_out \<Rightarrow> auth_out \<Rightarrow> token_io \<Rightarrow> token_store \<Rightarrow> (token result \<times> token_store) option" where
  "google_token g sha256 lo ao io st =
     get_token (load_token io) (save_token io) (ao_now ao 0) (google_refresh g (ao_call ao 1) (ao_now ao 1))
       (loopback g sha256 lo (ao_call ao 2) (ao_now ao 2)) st"

section \<open>What it accepts\<close>

lemma google_post_token_usable: "google_post_token g call t f = Inr tok \<Longrightarrow> tk_access tok \<noteq> []"
  by (auto simp: google_post_token_def token_from_def split: sum.splits if_splits)

lemma google_refresh_usable: "google_refresh g call t rt = Inr tok \<Longrightarrow> tk_access tok \<noteq> []"
  by (auto simp: google_refresh_def split: sum.splits if_splits dest: google_post_token_usable)

lemma loopback_exchange:
  assumes "loopback g sha256 lo call t = Some (Inr tok)"
  obtains addr verifier state code q qs where
    "lo_address lo = Inr addr" "pkce sha256 (lo_verifier lo) = Inr (verifier, raw_url_encode (sha256 verifier))"
    "random_state (lo_state lo) = Inr state"
    "lo_arrival lo (auth_code_url g (''http://'' @ addr) (raw_url_encode (sha256 verifier)) state) = Redirects (q # qs)"
    "redirect_answer state (url_query q) = Inr code"
    "google_exchange g call t code verifier (''http://'' @ addr) = Inr tok"
proof -
  obtain addr where addr: "lo_address lo = Inr addr" using assms by (cases "lo_address lo") (auto simp: loopback_def)
  obtain v ch where v: "pkce sha256 (lo_verifier lo) = Inr (v, ch)"
    using assms addr by (cases "pkce sha256 (lo_verifier lo)") (auto simp: loopback_def)
  then have ch: "ch = raw_url_encode (sha256 v)" by (auto simp: pkce_def split: sum.splits)
  obtain state where state: "random_state (lo_state lo) = Inr state"
    using assms addr v by (cases "random_state (lo_state lo)") (auto simp: loopback_def)
  define redirect where "redirect = ''http://'' @ addr"
  define reply where "reply = lo_arrival lo (auth_code_url g redirect ch state)"
  have run: "(case wait_for_code state reply of None \<Rightarrow> None | Some (Inl e) \<Rightarrow> Some (Inl e)
      | Some (Inr code) \<Rightarrow> Some (google_exchange g call t code v redirect)) = Some (Inr tok)"
    using assms unfolding loopback_def Let_def addr v state sum.case prod.case redirect_def[symmetric] reply_def[symmetric] .
  obtain q qs code where "reply = Redirects (q # qs)" "redirect_answer state (url_query q) = Inr code"
  proof (cases reply)
    case (Cancelled e)
    then show thesis using run by simp
  next
    case (Redirects l)
    then show thesis using run that by (cases l) (auto split: sum.splits)
  qed
  moreover from this have "google_exchange g call t code v redirect = Inr tok" using run by simp
  ultimately show thesis using that[OF addr _ state] v unfolding ch reply_def redirect_def by blast
qed

lemma google_exchange_posts:
  assumes "google_exchange g call t code verifier redirect = Inr tok"
  shows "tk_access tok \<noteq> []"
    and "\<exists>r tr. call (form_request (gc_token_url g) (exchange_form g code verifier redirect)) = Inr r
      \<and> unmarshal as_token_reply (hs_body r) = Inr tr \<and> tok = token_from t tr"
  using assms google_post_token_usable
  by (auto simp: google_exchange_def google_post_token_def post_form_def split: sum.splits if_splits)

lemma get_token_cases:
  assumes "get_token load_it save t refresh interactive s = Some (Inr tok, s')"
  obtains "token_valid t tok" | rt where "refresh rt = Inr tok" | "interactive = Some (Inr tok)"
proof -
  have kept: "tok = new" if "keep_token (save new) new s1 = (Inr tok, s2)" for new s1 s2
    using that by (auto simp: keep_token_def split: prod.splits option.splits)
  show thesis
    using assms that
    by (auto simp: get_token_def Let_def split: prod.splits sum.splits option.splits if_splits dest!: kept)
qed

section \<open>What the theory establishes\<close>

text \<open>
  C10. The loopback sign-in accepts only the answer to its own request. A token is obtained only when the
  first redirect carries no error, the fresh state that the consent page was opened with, and a code; the
  consent page got the challenge of the verifier, and the token endpoint the verifier, that code and the same
  redirect address. The token is the one of that reply, and it is not empty.
\<close>

theorem loopback_accepts_only_its_answer:
  assumes "loopback g sha256 lo call t = Some (Inr tok)"
  shows "\<exists>verifier state redirect consent code q qs post r tr.
    pkce sha256 (lo_verifier lo) = Inr (verifier, raw_url_encode (sha256 verifier)) \<and> random_state (lo_state lo) = Inr state
    \<and> lo_arrival lo (gc_auth_url g @ ''?'' @ encode_form consent) = Redirects (q # qs)
    \<and> parse_query (encode_form consent) = Some consent \<and> form_get consent ''state'' = state
    \<and> form_get consent ''code_challenge'' = raw_url_encode (sha256 verifier) \<and> form_get consent ''redirect_uri'' = redirect
    \<and> form_get (url_query q) ''error'' = [] \<and> form_get (url_query q) ''state'' = state
    \<and> form_get (url_query q) ''code'' = code \<and> code \<noteq> []
    \<and> parse_query (hq_body (form_request (gc_token_url g) post)) = Some post \<and> form_get post ''code'' = code
    \<and> form_get post ''code_verifier'' = verifier \<and> form_get post ''redirect_uri'' = redirect
    \<and> call (form_request (gc_token_url g) post) = Inr r \<and> unmarshal as_token_reply (hs_body r) = Inr tr
    \<and> tok = token_from t tr \<and> tk_access tok \<noteq> []"
proof -
  from assms obtain addr verifier state code q qs where
    a: "pkce sha256 (lo_verifier lo) = Inr (verifier, raw_url_encode (sha256 verifier))" "random_state (lo_state lo) = Inr state"
      "lo_arrival lo (auth_code_url g (''http://'' @ addr) (raw_url_encode (sha256 verifier)) state) = Redirects (q # qs)"
      "redirect_answer state (url_query q) = Inr code" "google_exchange g call t code verifier (''http://'' @ addr) = Inr tok"
    by (rule loopback_exchange)
  define redirect where "redirect = ''http://'' @ addr"
  let ?consent = "consent_form g redirect (raw_url_encode (sha256 verifier)) state"
  let ?post = "exchange_form g code verifier redirect"
  obtain r tr where post: "call (form_request (gc_token_url g) ?post) = Inr r" "unmarshal as_token_reply (hs_body r) = Inr tr"
    "tok = token_from t tr" "tk_access tok \<noteq> []" using google_exchange_posts[OF a(5)] unfolding redirect_def by blast
  have answer: "form_get (url_query q) ''error'' = []" "form_get (url_query q) ''state'' = state"
    "form_get (url_query q) ''code'' = code" "code \<noteq> []"
    using a(4) unfolding redirect_answer_def by (simp_all split: if_splits)
  have consent: "form_get ?consent ''state'' = state" "form_get ?consent ''redirect_uri'' = redirect"
    "form_get ?consent ''code_challenge'' = raw_url_encode (sha256 verifier)" by (simp_all add: consent_form_def form_get_def)
  have sent: "form_get ?post ''code'' = code" "form_get ?post ''code_verifier'' = verifier"
    "form_get ?post ''redirect_uri'' = redirect" by (simp_all add: exchange_form_def form_get_def)
  have opened: "lo_arrival lo (gc_auth_url g @ ''?'' @ encode_form ?consent) = Redirects (q # qs)"
    using a(3) unfolding auth_code_url_def redirect_def .
  have body: "parse_query (hq_body (form_request (gc_token_url g) ?post)) = Some ?post"
    by (simp add: form_request_def parse_encoded_form)
  show ?thesis
    using a(1,2) opened parse_encoded_form consent answer body sent post
    by (intro exI[of _ verifier] exI[of _ state] exI[of _ redirect] exI[of _ ?consent] exI[of _ code] exI[of _ q]
        exI[of _ qs] exI[of _ ?post] exI[of _ r] exI[of _ tr] conjI)
qed

text \<open>A consent page that is answered at once, whatever its address.\<close>

definition desktop_client :: google_auth where
  "desktop_client = \<lparr>gc_client = ''id'', gc_secret = ''s'', gc_scopes = google_scopes, gc_auth_url = ''https://a'', gc_token_url = ''https://t''\<rparr>"

definition answered :: loop_out where
  "answered = \<lparr>lo_address = Inr ''127.0.0.1:5000'', lo_verifier = Some (\<lambda>n. CHR ''v''), lo_state = Some (\<lambda>n. CHR ''s''),
     lo_arrival = \<lambda>u. Redirects [''code=c1&state='' @ raw_url_encode (replicate 16 CHR ''s'')]\<rparr>"

definition issues_token :: http_call where
  "issues_token q = Inr \<lparr>hs_status = 200, hs_body = show_json (JObj [(''access_token'', JStr ''at'')]), hs_location = []\<rparr>"

definition issued :: token where
  "issued = \<lparr>tk_access = ''at'', tk_refresh = [], tk_scope = [], tk_expiry = zero_time\<rparr>"

lemma answered_run: "loopback desktop_client rev answered issues_token zero_time = Some (Inr issued)"
  by code_simp

theorem loopback_accepts_only_its_answer_witness:
  "\<exists>consent q qs. lo_arrival answered (gc_auth_url desktop_client @ ''?'' @ encode_form consent) = Redirects (q # qs)
    \<and> form_get consent ''state'' = form_get (url_query q) ''state'' \<and> form_get (url_query q) ''code'' \<noteq> []"
  using loopback_accepts_only_its_answer[OF answered_run] by (elim exE conjE) (intro exI conjI, assumption, simp_all)

text \<open>
  Whatever the stored token, the service and the browser do, a token the Google sign-in hands out has
  an access token in it.
\<close>

theorem google_token_is_usable:
  assumes "google_token g sha256 lo ao io st = Some (Inr tok, st')"
  shows "tk_access tok \<noteq> []"
  using assms unfolding google_token_def
  by (cases rule: get_token_cases)
    (auto simp: token_valid_def dest: google_refresh_usable elim!: loopback_exchange dest!: google_exchange_posts(1))

definition signs_in :: auth_out where
  "signs_in = \<lparr>ao_now = \<lambda>n. zero_time, ao_call = \<lambda>n. issues_token, ao_done = \<lambda>n. None\<rparr>"

theorem google_token_is_usable_witness:
  "\<exists>tok st. google_token desktop_client rev answered signs_in plain_io (File_Store Absent) = Some (Inr tok, st) \<and> tk_access tok \<noteq> []"
proof -
  have "case google_token desktop_client rev answered signs_in plain_io (File_Store Absent) of
      Some (Inr tok, st) \<Rightarrow> tk_access tok = ''at'' | _ \<Rightarrow> False" by code_simp
  then obtain tok st where "google_token desktop_client rev answered signs_in plain_io (File_Store Absent) = Some (Inr tok, st)"
    by (simp split: option.splits prod.splits sum.splits)
  with google_token_is_usable[OF this] show ?thesis by blast
qed

end
