(* ===== verification/EventKit.thy ===== *)
theory EventKit
  imports Calendar Go_Http
begin

text \<open>
  The answers of guests as the macOS calendar knows them (\<open>internal/eventkit\<close>, \<open>applyStatuses\<close> of
  \<open>internal/caldav\<close>): where the helper is found, what is made of its output, and what it does to a hold.
  The helper itself, a Swift program, is a function from the UID to its output.
\<close>

section \<open>Finding the helper\<close>

definition helper_name :: string where "helper_name = ''vamoose-eventkit''"
definition helper_bundle :: string where
  "helper_bundle = ''vamoose-eventkit.app/Contents/MacOS/vamoose-eventkit''"

text \<open>\<open>filepath.Dir\<close> and \<open>filepath.Join\<close> of the clean absolute path of the executable.\<close>

definition dir_of :: "string \<Rightarrow> string" where
  "dir_of p = (let d = rev (tl (dropWhile (\<lambda>c. c \<noteq> CHR ''/'') (rev p))) in if d = [] then ''/'' else d)"

definition join_dir :: "string \<Rightarrow> string \<Rightarrow> string" where
  "join_dir d f = (if d = ''/'' then d @ f else d @ ''/'' @ f)"

definition helper_path ::
  "(string \<Rightarrow> string) \<Rightarrow> string result \<Rightarrow> (string \<Rightarrow> bool) \<Rightarrow> (string \<Rightarrow> string result) \<Rightarrow> string result" where
  "helper_path getenv exe exists look_path =
     (if getenv ''VAMOOSE_EVENTKIT_HELPER'' \<noteq> [] then Inr (getenv ''VAMOOSE_EVENTKIT_HELPER'')
      else case (case exe of Inl e \<Rightarrow> None
                 | Inr x \<Rightarrow> find exists [join_dir (dir_of x) helper_bundle, join_dir (dir_of x) helper_name]) of
        Some p \<Rightarrow> Inr p
      | None \<Rightarrow>
          (case look_path helper_name of
             Inr p \<Rightarrow> Inr p
           | Inl e \<Rightarrow> Inl (Errorf (''eventkit helper '' @ helper_name @ '' not found; build it with make eventkit'') [])))"

section \<open>Its output\<close>

record kit_attendee =
  ka_email :: string
  ka_status :: string

definition no_kit_attendee :: kit_attendee where
  "no_kit_attendee = \<lparr>ka_email = [], ka_status = []\<rparr>"

definition kit_field :: "kit_attendee \<Rightarrow> string \<Rightarrow> json \<Rightarrow> kit_attendee option" where
  "kit_field r k v =
     (if equal_fold k ''email'' then map_option (\<lambda>x. r\<lparr>ka_email := x\<rparr>) (as_string (ka_email r) v)
      else if equal_fold k ''status'' then map_option (\<lambda>x. r\<lparr>ka_status := x\<rparr>) (as_string (ka_status r) v)
      else Some r)"

definition kit_reply_field :: "kit_attendee list \<Rightarrow> string \<Rightarrow> json \<Rightarrow> kit_attendee list option" where
  "kit_reply_field r k v =
     (if equal_fold k ''attendees'' then in_list (in_object kit_field no_kit_attendee) v else Some r)"

definition kit_response :: "string \<Rightarrow> response" where
  "kit_response s =
     (let w = to_lower s in
      if w = ''accepted'' then ResponseAccepted
      else if w = ''declined'' then ResponseDeclined
      else if w = ''tentative'' then ResponseTentative
      else ResponseNotResponded)"

fun response_rank :: "response \<Rightarrow> nat" where
  "response_rank ResponseDeclined = 4"
| "response_rank ResponseAccepted = 3"
| "response_rank ResponseTentative = 2"
| "response_rank ResponseNotResponded = 1"
| "response_rank _ = 0"

type_synonym statuses = "string \<rightharpoonup> response"

text \<open>One round of the loop over the attendees.\<close>

definition keep_stronger :: "kit_attendee \<Rightarrow> statuses \<Rightarrow> statuses" where
  "keep_stronger a m =
     (if ka_email a = [] then m
      else let key = to_lower (ka_email a); next_one = kit_response (ka_status a) in
           case m key of
             None \<Rightarrow> m(key \<mapsto> next_one)
           | Some cur \<Rightarrow> if response_rank cur < response_rank next_one then m(key \<mapsto> next_one) else m)"

definition strongest :: "kit_attendee list \<Rightarrow> statuses" where
  "strongest as = fold keep_stronger as (\<lambda>k. None)"

definition kit_status :: "string result \<Rightarrow> (string \<Rightarrow> string \<Rightarrow> string result) \<Rightarrow> string \<Rightarrow> statuses result" where
  "kit_status helper run uid =
     (case helper of
        Inl e \<Rightarrow> Inl e
      | Inr p \<Rightarrow>
          (case run p uid of
             Inl e \<Rightarrow> Inl (Errorf ''eventkit helper'' [e])
           | Inr out \<Rightarrow>
               (case unmarshal (in_object kit_reply_field []) out of
                  Inl e \<Rightarrow> Inl (Errorf ''eventkit helper output'' [e])
                | Inr as \<Rightarrow> Inr (strongest as))))"

section \<open>What it does to a hold\<close>

definition apply_statuses :: "statuses \<Rightarrow> hold \<Rightarrow> hold" where
  "apply_statuses m h = h\<lparr>hold_attendees := map (\<lambda>a.
     case m (to_lower (att_email a)) of None \<Rightarrow> a | Some r \<Rightarrow> a\<lparr>att_response := r\<rparr>) (hold_attendees h)\<rparr>"

text \<open>The answers reported for an address, in the order of the copies of the event.\<close>

definition reports :: "kit_attendee list \<Rightarrow> string \<Rightarrow> response list" where
  "reports as email = map (\<lambda>a. kit_response (ka_status a))
     (filter (\<lambda>a. ka_email a \<noteq> [] \<and> equal_fold (ka_email a) email) as)"

definition stronger :: "response option \<Rightarrow> response \<Rightarrow> response option" where
  "stronger cur r = (case cur of None \<Rightarrow> Some r | Some c \<Rightarrow> Some (if response_rank c < response_rank r then r else c))"

lemma stronger_simps [simp]:
  "stronger None r = Some r" "stronger (Some c) r = Some (if response_rank c < response_rank r then r else c)"
  by (simp_all add: stronger_def)

lemma keep_stronger_at:
  "keep_stronger a m (to_lower email)
    = (if ka_email a \<noteq> [] \<and> equal_fold (ka_email a) email then stronger (m (to_lower email)) (kit_response (ka_status a))
       else m (to_lower email))"
  by (auto simp: keep_stronger_def Let_def equal_fold_def split: option.splits)

lemma strongest_at: "strongest as (to_lower email) = foldl stronger None (reports as email)"
proof -
  have "fold keep_stronger as m (to_lower email) = foldl stronger (m (to_lower email)) (reports as email)" for m
    by (induction as arbitrary: m) (auto simp: reports_def keep_stronger_at)
  then show ?thesis by (simp add: strongest_def)
qed

lemma foldl_stronger:
  "\<exists>x. foldl stronger (Some c) rs = Some x \<and> x \<in> set (c # rs) \<and> (\<forall>r \<in> set (c # rs). response_rank r \<le> response_rank x)"
proof (induction rs arbitrary: c)
  case (Cons r rs)
  let ?c = "if response_rank c < response_rank r then r else c"
  obtain x where "foldl stronger (Some ?c) rs = Some x" "x \<in> set (?c # rs)" "\<forall>r \<in> set (?c # rs). response_rank r \<le> response_rank x"
    using Cons.IH by blast
  then show ?case by (intro exI[of _ x]) (auto split: if_splits)
qed simp

lemma kit_response_cases:
  "kit_response s \<in> {ResponseAccepted, ResponseDeclined, ResponseTentative, ResponseNotResponded}"
  by (simp add: kit_response_def Let_def)

lemma strongest_report:
  assumes "reports as email \<noteq> []"
  obtains x where "strongest as (to_lower email) = Some x" "x \<in> set (reports as email)"
    "\<And>r. r \<in> set (reports as email) \<Longrightarrow> response_rank r \<le> response_rank x"
proof -
  obtain c rs where c: "reports as email = c # rs" using assms by (cases "reports as email") auto
  then have "strongest as (to_lower email) = foldl stronger (Some c) rs" by (simp add: strongest_at)
  then show thesis using foldl_stronger[of c rs] that unfolding c by auto
qed

lemma report_cases:
  "r \<in> set (reports as email) \<Longrightarrow> r \<in> {ResponseAccepted, ResponseDeclined, ResponseTentative, ResponseNotResponded}"
  using kit_response_cases unfolding reports_def by auto

lemma strongest_decides:
  assumes "reports as email \<noteq> []"
  shows "strongest as (to_lower email) = Some ResponseDeclined \<longleftrightarrow> ResponseDeclined \<in> set (reports as email)"
    and "strongest as (to_lower email) = Some ResponseAccepted \<longleftrightarrow>
      ResponseAccepted \<in> set (reports as email) \<and> ResponseDeclined \<notin> set (reports as email)"
proof -
  obtain x where x: "strongest as (to_lower email) = Some x" "x \<in> set (reports as email)"
    "\<And>r. r \<in> set (reports as email) \<Longrightarrow> response_rank r \<le> response_rank x"
    by (rule strongest_report[OF assms]) blast
  note kinds = report_cases[OF x(2)]
  show "strongest as (to_lower email) = Some ResponseDeclined \<longleftrightarrow> ResponseDeclined \<in> set (reports as email)"
    using x(1,2) x(3)[of ResponseDeclined] kinds by auto
  show "strongest as (to_lower email) = Some ResponseAccepted \<longleftrightarrow>
      ResponseAccepted \<in> set (reports as email) \<and> ResponseDeclined \<notin> set (reports as email)"
    using x(1,2) x(3)[of ResponseDeclined] x(3)[of ResponseAccepted] kinds by auto
qed

lemma find_map_statuses:
  "find (\<lambda>a. equal_fold (att_email a) email) (hold_attendees (apply_statuses m h))
    = map_option (\<lambda>a. case m (to_lower (att_email a)) of None \<Rightarrow> a | Some r \<Rightarrow> a\<lparr>att_response := r\<rparr>)
        (find (\<lambda>a. equal_fold (att_email a) email) (hold_attendees h))"
proof -
  let ?f = "\<lambda>a. case m (to_lower (att_email a)) of None \<Rightarrow> a | Some r \<Rightarrow> a\<lparr>att_response := r\<rparr>"
  have same: "att_email (?f a) = att_email a" for a by (simp split: option.splits)
  have "find (\<lambda>a. equal_fold (att_email a) email) (map ?f as) = map_option ?f (find (\<lambda>a. equal_fold (att_email a) email) as)" for as
    by (induction as) (simp_all add: same)
  then show ?thesis by (simp add: apply_statuses_def)
qed

lemma find_fold_email:
  "find (\<lambda>a. equal_fold (att_email a) email) as = Some a \<Longrightarrow> to_lower (att_email a) = to_lower email"
  by (auto simp: equal_fold_def find_Some_iff)

lemma no_reports: "reports as email = [] \<Longrightarrow> strongest as (to_lower email) = None"
  by (simp add: strongest_at)

section \<open>What the theory establishes\<close>

text \<open>
  Conflicting copies are never read as approval. When the macOS calendar knows the event in several
  calendars, an address has approved the hold exactly when one copy says so and none says it declined; it
  has declined as soon as one copy says so. An address the calendar does not report keeps the answer of the
  server. Letter case does not matter on either side.
\<close>

theorem conflict_is_not_approval:
  "(approved_by (apply_statuses (strongest as) h) email \<longleftrightarrow>
     (\<exists>a. find (\<lambda>a. equal_fold (att_email a) email) (hold_attendees h) = Some a \<and>
        (if reports as email = [] then att_response a = ResponseAccepted
         else ResponseAccepted \<in> set (reports as email) \<and> ResponseDeclined \<notin> set (reports as email))))
   \<and> (declined_by (apply_statuses (strongest as) h) email \<longleftrightarrow>
     (\<exists>a. find (\<lambda>a. equal_fold (att_email a) email) (hold_attendees h) = Some a \<and>
        (if reports as email = [] then att_response a = ResponseDeclined else ResponseDeclined \<in> set (reports as email))))"
proof (cases "find (\<lambda>a. equal_fold (att_email a) email) (hold_attendees h)")
  case None
  then show ?thesis by (simp add: approved_by_def declined_by_def approved_in_find declined_in_find find_map_statuses)
next
  case (Some a)
  show ?thesis
  proof (cases "reports as email = []")
    case True
    then show ?thesis
      using Some by (simp add: approved_by_def declined_by_def approved_in_find declined_in_find find_map_statuses
          find_fold_email no_reports)
  next
    case False
    obtain x where x: "strongest as (to_lower email) = Some x" using strongest_report[OF False] by blast
    show ?thesis
      using Some False strongest_decides[OF False] x
      by (simp add: approved_by_def declined_by_def approved_in_find declined_in_find find_map_statuses find_fold_email)
  qed
qed

end
