(* ===== verification/Google.thy ===== *)
theory Google
  imports Calendar Go_Rfc3339 Go_Http World
begin

text \<open>
  The Google Calendar provider (\<open>internal/google\<close>): the event resource and its JSON, the conversions
  between events and holds, and the calendar operations over the exchanges of \<open>Go_Http\<close>. Google has no
  directory: there is no manager and no team to find.
\<close>

section \<open>Resources\<close>

definition ErrGoogle :: error where "ErrGoogle = Sentinel ''google calendar request failed''"

record google_time =
  gd_date :: string
  gd_time :: string
  gd_zone :: string

record google_attendee =
  gx_email :: string
  gx_name :: string
  gx_optional :: bool
  gx_response :: string
  gx_organizer :: bool
  gx_self :: bool

record google_event =
  gv_id :: string
  gv_summary :: string
  gv_description :: string
  gv_start :: "google_time option"
  gv_end :: "google_time option"
  gv_transparency :: string
  gv_type :: string
  gv_attendees :: "google_attendee list"

definition no_google_time :: google_time where
  "no_google_time = \<lparr>gd_date = [], gd_time = [], gd_zone = []\<rparr>"

definition no_google_attendee :: google_attendee where
  "no_google_attendee =
     \<lparr>gx_email = [], gx_name = [], gx_optional = False, gx_response = [], gx_organizer = False, gx_self = False\<rparr>"

definition no_google_event :: google_event where
  "no_google_event = \<lparr>gv_id = [], gv_summary = [], gv_description = [], gv_start = None, gv_end = None,
     gv_transparency = [], gv_type = [], gv_attendees = []\<rparr>"

section \<open>The JSON of an event\<close>

definition google_time_json :: "google_time \<Rightarrow> json" where
  "google_time_json t =
     JObj (omit_empty ''date'' (gd_date t) @ omit_empty ''dateTime'' (gd_time t) @ omit_empty ''timeZone'' (gd_zone t))"

definition google_attendee_json :: "google_attendee \<Rightarrow> json" where
  "google_attendee_json a =
     JObj ((''email'', JStr (gx_email a)) # omit_empty ''displayName'' (gx_name a) @ omit_false ''optional'' (gx_optional a)
       @ omit_empty ''responseStatus'' (gx_response a) @ omit_false ''organizer'' (gx_organizer a)
       @ omit_false ''self'' (gx_self a))"

definition google_event_json :: "google_event \<Rightarrow> json" where
  "google_event_json e =
     JObj (omit_empty ''id'' (gv_id e) @ omit_empty ''summary'' (gv_summary e)
       @ omit_empty ''description'' (gv_description e) @ omit_none ''start'' google_time_json (gv_start e)
       @ omit_none ''end'' google_time_json (gv_end e) @ omit_empty ''transparency'' (gv_transparency e)
       @ omit_empty ''eventType'' (gv_type e) @ omit_nil ''attendees'' google_attendee_json (gv_attendees e))"

definition google_time_field :: "google_time \<Rightarrow> string \<Rightarrow> json \<Rightarrow> google_time option" where
  "google_time_field t k v =
     (if equal_fold k ''date'' then map_option (\<lambda>x. t\<lparr>gd_date := x\<rparr>) (as_string (gd_date t) v)
      else if equal_fold k ''dateTime'' then map_option (\<lambda>x. t\<lparr>gd_time := x\<rparr>) (as_string (gd_time t) v)
      else if equal_fold k ''timeZone'' then map_option (\<lambda>x. t\<lparr>gd_zone := x\<rparr>) (as_string (gd_zone t) v)
      else Some t)"

definition google_attendee_field :: "google_attendee \<Rightarrow> string \<Rightarrow> json \<Rightarrow> google_attendee option" where
  "google_attendee_field a k v =
     (if equal_fold k ''email'' then map_option (\<lambda>x. a\<lparr>gx_email := x\<rparr>) (as_string (gx_email a) v)
      else if equal_fold k ''displayName'' then map_option (\<lambda>x. a\<lparr>gx_name := x\<rparr>) (as_string (gx_name a) v)
      else if equal_fold k ''optional'' then map_option (\<lambda>x. a\<lparr>gx_optional := x\<rparr>) (as_bool (gx_optional a) v)
      else if equal_fold k ''responseStatus'' then map_option (\<lambda>x. a\<lparr>gx_response := x\<rparr>) (as_string (gx_response a) v)
      else if equal_fold k ''organizer'' then map_option (\<lambda>x. a\<lparr>gx_organizer := x\<rparr>) (as_bool (gx_organizer a) v)
      else if equal_fold k ''self'' then map_option (\<lambda>x. a\<lparr>gx_self := x\<rparr>) (as_bool (gx_self a) v)
      else Some a)"

definition google_event_field :: "google_event \<Rightarrow> string \<Rightarrow> json \<Rightarrow> google_event option" where
  "google_event_field e k v =
     (if equal_fold k ''id'' then map_option (\<lambda>x. e\<lparr>gv_id := x\<rparr>) (as_string (gv_id e) v)
      else if equal_fold k ''summary'' then map_option (\<lambda>x. e\<lparr>gv_summary := x\<rparr>) (as_string (gv_summary e) v)
      else if equal_fold k ''description'' then map_option (\<lambda>x. e\<lparr>gv_description := x\<rparr>) (as_string (gv_description e) v)
      else if equal_fold k ''start''
      then map_option (\<lambda>x. e\<lparr>gv_start := x\<rparr>) (in_pointer google_time_field no_google_time (gv_start e) v)
      else if equal_fold k ''end''
      then map_option (\<lambda>x. e\<lparr>gv_end := x\<rparr>) (in_pointer google_time_field no_google_time (gv_end e) v)
      else if equal_fold k ''transparency'' then map_option (\<lambda>x. e\<lparr>gv_transparency := x\<rparr>) (as_string (gv_transparency e) v)
      else if equal_fold k ''eventType'' then map_option (\<lambda>x. e\<lparr>gv_type := x\<rparr>) (as_string (gv_type e) v)
      else if equal_fold k ''attendees''
      then map_option (\<lambda>x. e\<lparr>gv_attendees := x\<rparr>) (in_list (in_object google_attendee_field no_google_attendee) v)
      else Some e)"

definition as_google_event :: "json \<Rightarrow> google_event option" where
  "as_google_event = in_object google_event_field no_google_event"

section \<open>Events and holds\<close>

definition transparency_of :: "show_as \<Rightarrow> string" where
  "transparency_of s = (if s = ShowFree then ''transparent'' else ''opaque'')"

definition show_as_of :: "string \<Rightarrow> show_as" where
  "show_as_of t = (if t = ''transparent'' then ShowFree else ShowBusy)"

definition optional_of :: "role \<Rightarrow> bool" where
  "optional_of r \<longleftrightarrow> r = RoleOptional"

definition role_of_optional :: "bool \<Rightarrow> role" where
  "role_of_optional b = (if b then RoleOptional else RoleRequired)"

definition response_from_google :: "string \<Rightarrow> response" where
  "response_from_google s =
     (if s = ''needsAction'' then ResponseNotResponded else if s = ''tentative'' then ResponseTentative
      else if s = ''accepted'' then ResponseAccepted else if s = ''declined'' then ResponseDeclined else ResponseNone)"

text \<open>The provider, with the zones \<open>time.LoadLocation\<close> finds and the machine's own, which \<open>time.Parse\<close> uses.\<close>

record google_provider =
  gl_base :: string
  gl_zone :: string
  gl_calendar :: string
  gl_zones :: "string \<Rightarrow> location option"
  gl_local :: location

definition google_location :: "google_provider \<Rightarrow> location" where
  "google_location p = (case gl_zones p (gl_zone p) of Some l \<Rightarrow> l | None \<Rightarrow> UTC)"

definition boundary :: "google_provider \<Rightarrow> gotime \<Rightarrow> bool \<Rightarrow> google_time" where
  "boundary p t all_day =
     (if all_day then no_google_time\<lparr>gd_date := format_date t\<rparr>
      else let u = t\<lparr>t_loc := google_location p\<rparr>
           in no_google_time\<lparr>gd_time := format_date u @ ''T'' @ format_clock u, gd_zone := gl_zone p\<rparr>)"

definition to_google_attendees :: "attendee list \<Rightarrow> google_attendee list" where
  "to_google_attendees as =
     map (\<lambda>a. no_google_attendee\<lparr>gx_email := att_email a, gx_name := person_name (att_person a),
       gx_optional := optional_of (att_role a)\<rparr>) as"

definition to_google_event :: "google_provider \<Rightarrow> hold \<Rightarrow> google_event" where
  "to_google_event p h =
     no_google_event\<lparr>gv_summary := hold_subject h, gv_description := hold_body h,
       gv_transparency := transparency_of (hold_show_as h),
       gv_start := Some (boundary p (hold_start h) (hold_all_day h)),
       gv_end := Some (boundary p (hold_end h) (hold_all_day h)),
       gv_attendees := to_google_attendees (hold_attendees h)\<rparr>"

definition parse_boundary :: "location \<Rightarrow> google_time option \<Rightarrow> gotime" where
  "parse_boundary local b =
     (case b of
        None \<Rightarrow> zero_time
      | Some t \<Rightarrow>
          (case (if gd_date t \<noteq> [] then parse_date (gd_date t) else parse_rfc3339 local (gd_time t)) of
             None \<Rightarrow> zero_time | Some u \<Rightarrow> u))"

definition from_google_attendee :: "google_attendee \<Rightarrow> attendee" where
  "from_google_attendee a =
     \<lparr>att_person = \<lparr>person_name = gx_name a, person_email = gx_email a\<rparr>, att_role = role_of_optional (gx_optional a),
      att_response = response_from_google (gx_response a)\<rparr>"

definition from_google_event :: "location \<Rightarrow> google_event \<Rightarrow> hold" where
  "from_google_event local e =
     \<lparr>hold_id = gv_id e, hold_subject = gv_summary e, hold_body = gv_description e,
      hold_start = parse_boundary local (gv_start e), hold_end = parse_boundary local (gv_end e),
      hold_all_day = (case gv_start e of None \<Rightarrow> False | Some t \<Rightarrow> gd_date t \<noteq> []),
      hold_show_as = (if gv_type e = ''outOfOffice'' then ShowOOF else show_as_of (gv_transparency e)),
      hold_attendees = map from_google_attendee (gv_attendees e)\<rparr>"

section \<open>The operations\<close>

definition google_fault_field :: "string \<Rightarrow> string \<Rightarrow> json \<Rightarrow> string option" where
  "google_fault_field r k v = (if equal_fold k ''message'' then as_string r v else Some r)"

definition google_fault :: "string \<Rightarrow> string" where
  "google_fault t =
     (case unmarshal (in_object (keep_on_fail (\<lambda>r k v.
             if equal_fold k ''error'' then in_object (keep_on_fail google_fault_field) r v else Some r)) []) t of
        Inl e \<Rightarrow> [] | Inr r \<Rightarrow> r)"

definition google_error :: "int \<Rightarrow> string \<Rightarrow> error" where
  "google_error status t =
     (let msg = google_fault t in
      if status = 404 then Errorf ('': '' @ msg) [ErrNotFound]
      else if msg \<noteq> [] then Errorf ('': '' @ show_int status @ '' '' @ msg) [ErrGoogle]
      else Errorf ('': status '' @ show_int status) [ErrGoogle])"

definition google_do ::
  "google_provider \<Rightarrow> http_call \<Rightarrow> string result \<Rightarrow> string \<Rightarrow> string \<Rightarrow> json option \<Rightarrow> string result" where
  "google_do p call token meth path body = rest_do google_error call token (gl_base p) meth path body"

definition calendar_field :: "string \<Rightarrow> string \<Rightarrow> json \<Rightarrow> string option" where
  "calendar_field r k v = (if equal_fold k ''id'' then as_string r v else Some r)"

definition google_me :: "google_provider \<Rightarrow> http_call \<Rightarrow> string result \<Rightarrow> person result" where
  "google_me p call token =
     (case rest_into (in_object calendar_field []) [] (google_do p call token ''GET'' ''/calendars/primary'' None) of
        Inl e \<Rightarrow> Inl e | Inr i \<Rightarrow> Inr \<lparr>person_name = [], person_email = i\<rparr>)"

definition google_manager :: "person result" where
  "google_manager = Inl ErrNoManager"

definition google_team :: "person list result" where
  "google_team = Inl ErrNoDirectory"

definition events_path :: "google_provider \<Rightarrow> string" where
  "events_path p = ''/calendars/'' @ path_escape (gl_calendar p) @ ''/events''"

definition google_event_path :: "google_provider \<Rightarrow> string \<Rightarrow> string" where
  "google_event_path p hid = events_path p @ ''/'' @ path_escape hid"

definition read_google :: "google_provider \<Rightarrow> string result \<Rightarrow> hold result" where
  "read_google p r =
     (case rest_into as_google_event no_google_event r of Inl e \<Rightarrow> Inl e | Inr ev \<Rightarrow> Inr (from_google_event (gl_local p) ev))"

definition google_create :: "google_provider \<Rightarrow> http_call \<Rightarrow> string result \<Rightarrow> hold \<Rightarrow> hold result" where
  "google_create p call token h =
     read_google p (google_do p call token ''POST'' (events_path p @ ''?sendUpdates=all'')
       (Some (google_event_json (to_google_event p h))))"

definition google_get :: "google_provider \<Rightarrow> http_call \<Rightarrow> string result \<Rightarrow> string \<Rightarrow> hold result" where
  "google_get p call token hid = read_google p (google_do p call token ''GET'' (google_event_path p hid) None)"

definition google_patch :: "hold \<Rightarrow> google_event" where
  "google_patch h =
     no_google_event\<lparr>gv_summary := hold_subject h, gv_transparency := transparency_of (hold_show_as h),
       gv_attendees := to_google_attendees (hold_attendees h)\<rparr>"

definition google_update :: "google_provider \<Rightarrow> http_call \<Rightarrow> string result \<Rightarrow> hold \<Rightarrow> hold result" where
  "google_update p call token h =
     (if hold_id h = [] then Inl ErrNotFound
      else read_google p (google_do p call token ''PATCH'' (google_event_path p (hold_id h) @ ''?sendUpdates=all'')
        (Some (google_event_json (google_patch h)))))"

definition google_delete :: "google_provider \<Rightarrow> http_call \<Rightarrow> string result \<Rightarrow> string \<Rightarrow> error option" where
  "google_delete p call token hid =
     rest_done (google_do p call token ''DELETE'' (google_event_path p hid @ ''?sendUpdates=all'') None)"

text \<open>The outside of a program that runs on Google, given the answer and the token of each call.\<close>

definition on_google :: "google_provider \<Rightarrow> (nat \<Rightarrow> http_call) \<Rightarrow> (nat \<Rightarrow> string result) \<Rightarrow> env \<Rightarrow> env" where
  "on_google p answer token env = env\<lparr>
     e_me := (\<lambda>n. google_me p (answer n) (token n)), e_manager := (\<lambda>n. google_manager), e_team := (\<lambda>n. google_team),
     e_create := (\<lambda>n. google_create p (answer n) (token n)), e_get := (\<lambda>n. google_get p (answer n) (token n)),
     e_update := (\<lambda>n. google_update p (answer n) (token n)), e_delete := (\<lambda>n. google_delete p (answer n) (token n))\<rparr>"

section \<open>What is read is what was written\<close>

lemma google_time_keys:
  "list_all (\<lambda>k. \<not> equal_fold k ''date'') [''dateTime'', ''timeZone'']"
  "list_all (\<lambda>k. \<not> equal_fold k ''dateTime'') [''timeZone'']"
  by code_simp+

lemma google_attendee_keys:
  "list_all (\<lambda>k. \<not> equal_fold k ''email'') [''displayName'', ''optional'', ''responseStatus'', ''organizer'', ''self'']"
  "list_all (\<lambda>k. \<not> equal_fold k ''displayName'') [''optional'', ''responseStatus'', ''organizer'', ''self'']"
  "list_all (\<lambda>k. \<not> equal_fold k ''optional'') [''responseStatus'', ''organizer'', ''self'']"
  "list_all (\<lambda>k. \<not> equal_fold k ''responseStatus'') [''organizer'', ''self'']"
  "list_all (\<lambda>k. \<not> equal_fold k ''organizer'') [''self'']"
  by code_simp+

lemma google_event_keys:
  "list_all (\<lambda>k. \<not> equal_fold k ''id'') [''summary'', ''description'', ''start'', ''end'', ''transparency'', ''eventType'', ''attendees'']"
  "list_all (\<lambda>k. \<not> equal_fold k ''summary'') [''description'', ''start'', ''end'', ''transparency'', ''eventType'', ''attendees'']"
  "list_all (\<lambda>k. \<not> equal_fold k ''description'') [''start'', ''end'', ''transparency'', ''eventType'', ''attendees'']"
  "list_all (\<lambda>k. \<not> equal_fold k ''start'') [''end'', ''transparency'', ''eventType'', ''attendees'']"
  "list_all (\<lambda>k. \<not> equal_fold k ''end'') [''transparency'', ''eventType'', ''attendees'']"
  "list_all (\<lambda>k. \<not> equal_fold k ''transparency'') [''eventType'', ''attendees'']"
  "list_all (\<lambda>k. \<not> equal_fold k ''eventType'') [''attendees'']"
  by code_simp+

lemma as_google_time: "in_object google_time_field no_google_time (google_time_json t) = Some t"
  using google_time_keys
  by (cases t) (simp add: google_time_json_def google_time_field_def no_google_time_def fold_fields_append fold_omits)

lemma as_google_attendee: "in_object google_attendee_field no_google_attendee (google_attendee_json a) = Some a"
  using google_attendee_keys
  by (cases a) (simp add: google_attendee_json_def google_attendee_field_def no_google_attendee_def fold_fields_append fold_omits)

lemma google_event_field_at:
  "google_event_field e ''id'' v = map_option (\<lambda>x. e\<lparr>gv_id := x\<rparr>) (as_string (gv_id e) v)"
  "google_event_field e ''summary'' v = map_option (\<lambda>x. e\<lparr>gv_summary := x\<rparr>) (as_string (gv_summary e) v)"
  "google_event_field e ''description'' v = map_option (\<lambda>x. e\<lparr>gv_description := x\<rparr>) (as_string (gv_description e) v)"
  "gv_start e = None \<Longrightarrow> google_event_field e ''start'' (google_time_json t) = Some (e\<lparr>gv_start := Some t\<rparr>)"
  "gv_end e = None \<Longrightarrow> google_event_field e ''end'' (google_time_json t) = Some (e\<lparr>gv_end := Some t\<rparr>)"
  "google_event_field e ''transparency'' v = map_option (\<lambda>x. e\<lparr>gv_transparency := x\<rparr>) (as_string (gv_transparency e) v)"
  "google_event_field e ''eventType'' v = map_option (\<lambda>x. e\<lparr>gv_type := x\<rparr>) (as_string (gv_type e) v)"
  "google_event_field e ''attendees'' v
     = map_option (\<lambda>x. e\<lparr>gv_attendees := x\<rparr>) (in_list (in_object google_attendee_field no_google_attendee) v)"
  using google_event_keys as_google_time[of t] unfolding google_event_field_def
  by (simp_all add: google_time_json_def del: in_object.simps)

lemma google_event_members:
  "gv_id e = [] \<Longrightarrow> fold_fields google_event_field e (omit_empty ''id'' s) = Some (e\<lparr>gv_id := s\<rparr>)"
  "gv_summary e = [] \<Longrightarrow> fold_fields google_event_field e (omit_empty ''summary'' s) = Some (e\<lparr>gv_summary := s\<rparr>)"
  "gv_description e = [] \<Longrightarrow> fold_fields google_event_field e (omit_empty ''description'' s) = Some (e\<lparr>gv_description := s\<rparr>)"
  "gv_start e = None \<Longrightarrow> fold_fields google_event_field e (omit_none ''start'' google_time_json t) = Some (e\<lparr>gv_start := t\<rparr>)"
  "gv_end e = None \<Longrightarrow> fold_fields google_event_field e (omit_none ''end'' google_time_json t) = Some (e\<lparr>gv_end := t\<rparr>)"
  "gv_transparency e = [] \<Longrightarrow> fold_fields google_event_field e (omit_empty ''transparency'' s) = Some (e\<lparr>gv_transparency := s\<rparr>)"
  "gv_type e = [] \<Longrightarrow> fold_fields google_event_field e (omit_empty ''eventType'' s) = Some (e\<lparr>gv_type := s\<rparr>)"
  "gv_attendees e = [] \<Longrightarrow>
     fold_fields google_event_field e (omit_nil ''attendees'' google_attendee_json as) = Some (e\<lparr>gv_attendees := as\<rparr>)"
  by (cases e; auto simp: fold_omits google_event_field_at those_decode as_google_attendee simp del: map_map split: option.splits)+

lemma as_google_event_json: "as_google_event (google_event_json e) = Some e"
  by (cases e) (simp add: as_google_event_def google_event_json_def fold_fields_append google_event_members no_google_event_def)

lemma plain_google_event: "plain_json (google_event_json e)"
  by (auto simp: google_event_json_def google_time_json_def google_attendee_json_def omit_empty_def omit_none_def
      omit_false_def omit_nil_def split: option.splits)

text \<open>An answer that carries an event is read as its hold.\<close>

definition answers_event :: "http_response result \<Rightarrow> google_event \<Rightarrow> bool" where
  "answers_event r ev \<longleftrightarrow> (\<exists>resp. r = Inr resp \<and> ok_status (hs_status resp) \<and> hs_body resp = show_json (google_event_json ev))"

lemma show_json_obj_not_Nil: "show_json (JObj kvs) \<noteq> []"
  using show_with_head[of "\<lambda>_. []" "[]" 0 "JObj kvs"] by (auto simp: show_json_def)

lemma read_google_event:
  assumes "answers_event (call (rest_request tok (gl_base p) meth path body)) ev"
  shows "read_google p (google_do p call (Inr tok) meth path body) = Inr (from_google_event (gl_local p) ev)"
proof -
  obtain resp where r: "call (rest_request tok (gl_base p) meth path body) = Inr resp" "ok_status (hs_status resp)"
    "hs_body resp = show_json (google_event_json ev)" using assms unfolding answers_event_def by blast
  have "hs_body resp \<noteq> []" unfolding r(3) google_event_json_def by (rule show_json_obj_not_Nil)
  then show ?thesis
    by (simp add: read_google_def google_do_def rest_do_def rest_into_def r unmarshal_show[OF plain_google_event] as_google_event_json)
qed

section \<open>What Google does with an event\<close>

text \<open>
  What Google keeps of a boundary it is sent, as its reference documents it: a date as it is; a time without
  an offset as an RFC 3339 timestamp, with any offset, of an instant at which a clock in the named zone shows
  that time. An hour that the clock shows twice leaves Google two instants to choose from.
\<close>

definition wall_text :: "gotime \<Rightarrow> string" where
  "wall_text t = format_date t @ ''T'' @ format_clock t"

definition keeps_boundary :: "(string \<Rightarrow> location option) \<Rightarrow> google_time option \<Rightarrow> google_time option \<Rightarrow> bool" where
  "keeps_boundary zones sent kept \<longleftrightarrow>
     (case sent of None \<Rightarrow> False
      | Some x \<Rightarrow>
          (if gd_date x \<noteq> [] then kept = Some (no_google_time\<lparr>gd_date := gd_date x\<rparr>)
           else \<exists>l v z. zones (gd_zone x) = Some l \<and> gd_time x = wall_text (v\<lparr>t_loc := l\<rparr>) \<and> dated (v\<lparr>t_loc := l\<rparr>)
             \<and> writable v \<and> kept = Some \<lparr>gd_date = [], gd_time = format_rfc3339 v, gd_zone = z\<rparr>))"

text \<open>The event kept for the one that was sent: with an id, the same texts and guests, nobody having answered.\<close>

definition keeps_event :: "(string \<Rightarrow> location option) \<Rightarrow> google_event \<Rightarrow> string \<Rightarrow> google_event \<Rightarrow> bool" where
  "keeps_event zones sent i ev \<longleftrightarrow>
     gv_id ev = i \<and> gv_summary ev = gv_summary sent \<and> gv_description ev = gv_description sent
     \<and> keeps_boundary zones (gv_start sent) (gv_start ev) \<and> keeps_boundary zones (gv_end sent) (gv_end ev)
     \<and> gv_transparency ev = gv_transparency sent \<and> gv_type ev = ''default''
     \<and> gv_attendees ev = map (\<lambda>a. a\<lparr>gx_response := ''needsAction''\<rparr>) (gv_attendees sent)"

text \<open>
  Google, as far as it is asked to insert an event: an authorized POST to the events of the calendar is
  answered with the event Google keeps for the one in the body, if it can keep one.
\<close>

definition inserts_events :: "(string \<Rightarrow> location option) \<Rightarrow> string \<Rightarrow> string \<Rightarrow> string \<Rightarrow> http_call \<Rightarrow> string \<Rightarrow> bool" where
  "inserts_events zones base cal tok call i \<longleftrightarrow>
     (\<forall>q e. hq_method q = ''POST'' \<and> hq_url q = base @ ''/calendars/'' @ path_escape cal @ ''/events?sendUpdates=all''
        \<and> (''Authorization'', ''Bearer '' @ tok) \<in> set (hq_headers q) \<and> hq_body q = show_json (google_event_json e)
        \<and> (\<exists>ev. keeps_event zones e i ev) \<longrightarrow> (\<exists>ev. answers_event (call q) ev \<and> keeps_event zones e i ev))"

definition four_digit_year :: "gotime \<Rightarrow> bool" where
  "four_digit_year t \<longleftrightarrow> (case date_of t of (y, m, d) \<Rightarrow> 0 \<le> y \<and> y < 10000)"

lemma format_date_not_Nil: "four_digit_year t \<Longrightarrow> format_date t \<noteq> []"
  using parse_format_date(1)[of t "[]"] by (auto simp: four_digit_year_def)

lemma date_of_midnight_utc: "date_of (midnight_utc (date_of t)) = date_of t"
proof -
  obtain y m d where c: "date_of t = (y, m, d)" by (cases "date_of t")
  then have "days_from_civil y m d = day_number t"
    using days_civil_roundtrip[of "day_number t"] by (simp add: date_of_def)
  then have "day_number (midnight_utc (date_of t)) = day_number t"
    by (simp add: c midnight_utc_def time_date_def day_number_def local_sec_def unix_sec_def resolve_local_def)
  then show ?thesis by (simp add: date_of_eq_iff)
qed

text \<open>Two times whose wall texts are the same show the same local second.\<close>

lemma wall_text_inj:
  assumes "wall_text t = wall_text u" and "dated t" and "dated u"
  shows "local_sec t = local_sec u"
proof -
  have y: "case date_of t of (y, m, d) \<Rightarrow> 0 \<le> y \<and> y < 10000" "case date_of u of (y, m, d) \<Rightarrow> 0 \<le> y \<and> y < 10000"
    using assms(2,3) by (simp_all add: dated_def)
  have e: "date_of t = date_of u" "format_clock t = format_clock u"
    using parse_format_date(1)[OF y(1), of "''T'' @ format_clock t"] parse_format_date(1)[OF y(2), of "''T'' @ format_clock u"] assms(1)
    by (simp_all add: wall_text_def)
  then have "day_number t = day_number u" by (simp add: date_of_eq_iff)
  moreover have "get_fraction [] = (0, [])" by (simp add: get_fraction_def)
  from get_clock_format[OF this, of t] get_clock_format[OF this, of u] e(2)
  have "local_sec t mod 86400 = local_sec u mod 86400" by simp
  ultimately show ?thesis unfolding day_number_def by (metis div_mult_mod_eq)
qed

text \<open>
  The same time on a clock in the zone \<open>l\<close>, and the same second, when the clock shows it only once.
\<close>

definition shown_once :: "location \<Rightarrow> gotime \<Rightarrow> bool" where
  "shown_once l t \<longleftrightarrow> (\<forall>s. s + lookup_offset l s = local_sec (t\<lparr>t_loc := l\<rparr>) \<longrightarrow> s = unix_sec t)"

definition same_wall :: "location \<Rightarrow> gotime \<Rightarrow> gotime \<Rightarrow> bool" where
  "same_wall l t u \<longleftrightarrow> local_sec (u\<lparr>t_loc := l\<rparr>) = local_sec (t\<lparr>t_loc := l\<rparr>) \<and> (shown_once l t \<longrightarrow> t_ns u = unix_sec t * second)"

text \<open>What a boundary can carry, and that Google can keep it and it is read back.\<close>

definition boundary_time :: "location \<Rightarrow> bool \<Rightarrow> gotime \<Rightarrow> bool" where
  "boundary_time l all_day t \<longleftrightarrow> (if all_day then four_digit_year t else dated (t\<lparr>t_loc := l\<rparr>))"

lemma timed_boundary:
  "gl_zones p (gl_zone p) = Some l \<Longrightarrow> \<not> all_day \<Longrightarrow>
     boundary p t all_day = \<lparr>gd_date = [], gd_time = wall_text (t\<lparr>t_loc := l\<rparr>), gd_zone = gl_zone p\<rparr>"
  by (simp add: boundary_def google_location_def no_google_time_def wall_text_def Let_def)

lemma boundary_kept:
  assumes "gl_zones p (gl_zone p) = Some l" and "boundary_time l all_day t"
  shows "\<exists>b. keeps_boundary (gl_zones p) (Some (boundary p t all_day)) b"
proof (cases all_day)
  case True
  then show ?thesis using assms(2) format_date_not_Nil[of t]
    by (auto simp: keeps_boundary_def boundary_def boundary_time_def no_google_time_def)
next
  case False
  let ?v = "\<lparr>t_ns = unix_sec t * second, t_loc = l\<rparr>"
  have sec: "unix_sec ?v = unix_sec t" by (simp add: unix_sec_def)
  have same: "local_sec ?v = local_sec (t\<lparr>t_loc := l\<rparr>)" by (simp add: local_sec_def sec) (simp add: unix_sec_def)
  then have "date_of ?v = date_of (t\<lparr>t_loc := l\<rparr>)" by (simp add: date_of_def day_number_def)
  then have "dated ?v" "wall_text ?v = wall_text (t\<lparr>t_loc := l\<rparr>)"
    using assms(2) False sec same by (simp_all add: boundary_time_def dated_def wall_text_def format_date_def format_clock_def)
      (simp_all add: unix_sec_def)
  then have "keeps_boundary (gl_zones p) (Some (boundary p t all_day))
      (Some \<lparr>gd_date = [], gd_time = format_rfc3339 ?v, gd_zone = []\<rparr>)"
    using False assms(1) unfolding keeps_boundary_def timed_boundary[OF assms(1) False]
    by (auto simp: writable_def intro!: exI[of _ ?v])
  then show ?thesis by blast
qed

lemma parse_kept_boundary:
  assumes "gl_zones p (gl_zone p) = Some l" and "boundary_time l all_day t"
    and "keeps_boundary (gl_zones p) (Some (boundary p t all_day)) b"
  shows "all_day \<Longrightarrow> date_of (parse_boundary local b) = date_of t"
    and "\<not> all_day \<Longrightarrow> same_wall l t (parse_boundary local b)"
    and "(case b of None \<Rightarrow> False | Some x \<Rightarrow> gd_date x \<noteq> []) = all_day"
proof -
  show "date_of (parse_boundary local b) = date_of t" if all_day
    using assms(2,3) that format_date_not_Nil[of t] parse_format_date(2)[of t]
    by (auto simp: keeps_boundary_def boundary_def boundary_time_def parse_boundary_def no_google_time_def four_digit_year_def
        date_of_midnight_utc)
  show "same_wall l t (parse_boundary local b)" if timed: "\<not> all_day"
  proof -
    let ?t = "t\<lparr>t_loc := l\<rparr>"
    obtain v z where v: "wall_text ?t = wall_text (v\<lparr>t_loc := l\<rparr>)" "dated (v\<lparr>t_loc := l\<rparr>)" "writable v"
      "b = Some \<lparr>gd_date = [], gd_time = format_rfc3339 v, gd_zone = z\<rparr>"
      using assms(1,3) unfolding keeps_boundary_def timed_boundary[OF assms(1) timed] by auto
    obtain u where u: "parse_boundary local b = u" "t_ns u = t_ns v"
      using parse_format_rfc3339[OF v(3), of local] by (auto simp: parse_boundary_def v(4))
    have wall: "local_sec (v\<lparr>t_loc := l\<rparr>) = local_sec ?t"
      using wall_text_inj[OF v(1) _ v(2)] assms(2) timed by (simp add: boundary_time_def)
    have "t_ns v = unix_sec v * second"
      using v(3) div_mult_mod_eq[of "t_ns v" second] unfolding writable_def unix_sec_def by linarith
    moreover have "unix_sec v = unix_sec t" if "shown_once l t"
      using that wall by (simp add: shown_once_def local_sec_def unix_sec_def)
    ultimately have "shown_once l t \<longrightarrow> t_ns u = unix_sec t * second" using u(2) by auto
    then show ?thesis using u wall by (simp add: same_wall_def local_sec_def unix_sec_def)
  qed
  show "(case b of None \<Rightarrow> False | Some x \<Rightarrow> gd_date x \<noteq> []) = all_day"
    using assms(2,3) format_date_not_Nil[of t]
    by (auto simp: keeps_boundary_def boundary_def boundary_time_def no_google_time_def Let_def split: if_splits)
qed

section \<open>What the theory establishes\<close>

text \<open>
  C17. A hold created on Google comes back as it was asked for. When Google answers the insertion of an event
  with the event it keeps for the one it was sent, the hold the provider returns has the new id, the same
  subject and body, the same guests in the same order, optional exactly when they were, nobody having
  answered, and it starts and ends on the same days when it is all day, at the same time on a clock in the
  provider's zone when it is not, which is the same second unless that clock shows the time twice. Only
  the way it is shown is reduced to free or busy. It is assumed that the provider's zone is known and that
  the times have a year of at most four digits.
\<close>

theorem google_hold_comes_back:
  assumes "inserts_events (gl_zones p) (gl_base p) (gl_calendar p) tok call i" and "gl_zones p (gl_zone p) = Some l"
    and "boundary_time l (hold_all_day h) (hold_start h)" and "boundary_time l (hold_all_day h) (hold_end h)"
  shows "\<exists>h'. google_create p call (Inr tok) h = Inr h' \<and> hold_id h' = i
    \<and> hold_subject h' = hold_subject h \<and> hold_body h' = hold_body h \<and> hold_all_day h' = hold_all_day h
    \<and> map att_person (hold_attendees h') = map att_person (hold_attendees h)
    \<and> map att_role (hold_attendees h') = map (\<lambda>a. if att_role a = RoleOptional then RoleOptional else RoleRequired) (hold_attendees h)
    \<and> (\<forall>a \<in> set (hold_attendees h'). att_response a = ResponseNotResponded)
    \<and> hold_show_as h' = (if hold_show_as h = ShowFree then ShowFree else ShowBusy)
    \<and> (if hold_all_day h
       then date_of (hold_start h') = date_of (hold_start h) \<and> date_of (hold_end h') = date_of (hold_end h)
       else same_wall l (hold_start h) (hold_start h') \<and> same_wall l (hold_end h) (hold_end h'))"
proof -
  let ?e = "to_google_event p h"
  have sent: "gv_start ?e = Some (boundary p (hold_start h) (hold_all_day h))" "gv_end ?e = Some (boundary p (hold_end h) (hold_all_day h))"
    by (simp_all add: to_google_event_def)
  obtain b c where "keeps_boundary (gl_zones p) (gv_start ?e) b" "keeps_boundary (gl_zones p) (gv_end ?e) c"
    using boundary_kept[OF assms(2,3)] boundary_kept[OF assms(2,4)] sent by auto
  then have "keeps_event (gl_zones p) ?e i (?e\<lparr>gv_id := i, gv_start := b, gv_end := c, gv_type := ''default'',
      gv_attendees := map (\<lambda>a. a\<lparr>gx_response := ''needsAction''\<rparr>) (gv_attendees ?e)\<rparr>)" by (simp add: keeps_event_def)
  then have can: "\<exists>ev. keeps_event (gl_zones p) ?e i ev" by blast
  let ?q = "rest_request tok (gl_base p) ''POST'' (events_path p @ ''?sendUpdates=all'') (Some (google_event_json ?e))"
  have "hq_method ?q = ''POST''" "hq_url ?q = gl_base p @ ''/calendars/'' @ path_escape (gl_calendar p) @ ''/events?sendUpdates=all''"
    "(''Authorization'', ''Bearer '' @ tok) \<in> set (hq_headers ?q)" "hq_body ?q = show_json (google_event_json ?e)"
    by (simp_all add: rest_request_def rest_headers_def events_path_def)
  with assms(1) can obtain ev where ev: "keeps_event (gl_zones p) ?e i ev" "answers_event (call ?q) ev"
    unfolding inserts_events_def by blast
  let ?h = "from_google_event (gl_local p) ev"
  have "google_create p call (Inr tok) h = Inr ?h"
    unfolding google_create_def by (rule read_google_event) (rule ev(2))
  moreover note k = ev(1)[unfolded keeps_event_def]
  note start = parse_kept_boundary[OF assms(2,3), of "gv_start ev", folded sent(1)]
    and fin = parse_kept_boundary[OF assms(2,4), of "gv_end ev", folded sent(2)]
  have "hold_attendees ?h = map (\<lambda>a. \<lparr>att_person = att_person a, att_role = role_of_optional (optional_of (att_role a)),
      att_response = ResponseNotResponded\<rparr>) (hold_attendees h)"
    using k by (simp add: from_google_event_def to_google_event_def to_google_attendees_def from_google_attendee_def
        no_google_attendee_def no_google_event_def response_from_google_def)
  moreover have "hold_show_as ?h = (if hold_show_as h = ShowFree then ShowFree else ShowBusy)"
    using k by (simp add: from_google_event_def to_google_event_def transparency_of_def show_as_of_def)
  moreover have "hold_all_day ?h = hold_all_day h" "hold_id ?h = i" "hold_subject ?h = hold_subject h" "hold_body ?h = hold_body h"
    "hold_start ?h = parse_boundary (gl_local p) (gv_start ev)" "hold_end ?h = parse_boundary (gl_local p) (gv_end ev)"
    using k start(3) by (simp_all add: from_google_event_def to_google_event_def)
  ultimately show ?thesis
    using k start(1,2)[of "gl_local p"] fin(1,2)[of "gl_local p"]
    by (intro exI[of _ ?h]) (simp add: role_of_optional_def optional_of_def)
qed

text \<open>A Google whose every zone is UTC: it decodes the body and keeps the event, a time with a \<open>Z\<close>.\<close>

definition google_demo :: google_provider where
  "google_demo = \<lparr>gl_base = ''https://g'', gl_zone = ''UTC'', gl_calendar = ''primary'', gl_zones = \<lambda>z. Some UTC, gl_local = UTC\<rparr>"

definition keep_time :: "google_time \<Rightarrow> google_time" where
  "keep_time x = (if gd_date x \<noteq> [] then no_google_time\<lparr>gd_date := gd_date x\<rparr>
     else \<lparr>gd_date = [], gd_time = gd_time x @ ''Z'', gd_zone = gd_zone x\<rparr>)"

definition keep_event :: "google_event \<Rightarrow> google_event" where
  "keep_event e = e\<lparr>gv_id := ''e1'', gv_start := map_option keep_time (gv_start e), gv_end := map_option keep_time (gv_end e),
     gv_type := ''default'', gv_attendees := map (\<lambda>a. a\<lparr>gx_response := ''needsAction''\<rparr>) (gv_attendees e)\<rparr>"

definition keeping_google :: http_call where
  "keeping_google q = (case unmarshal as_google_event (hq_body q) of
     Inl e \<Rightarrow> Inr \<lparr>hs_status = 400, hs_body = [], hs_location = []\<rparr>
   | Inr e \<Rightarrow> Inr \<lparr>hs_status = 200, hs_body = show_json (google_event_json (keep_event e)), hs_location = []\<rparr>)"

lemma keep_time_kept:
  assumes "keeps_boundary (\<lambda>z. Some UTC) sent b"
  shows "keeps_boundary (\<lambda>z. Some UTC) sent (map_option keep_time sent)"
proof -
  obtain x where x: "sent = Some x" using assms by (cases sent) (simp_all add: keeps_boundary_def)
  show ?thesis
  proof (cases "gd_date x = []")
    case True
    then obtain v where v: "gd_time x = wall_text (v\<lparr>t_loc := UTC\<rparr>)" "dated (v\<lparr>t_loc := UTC\<rparr>)" "writable v"
      using assms x by (auto simp: keeps_boundary_def)
    let ?v = "v\<lparr>t_loc := UTC\<rparr>"
    have "writable ?v" using v(2,3) by (simp add: writable_def)
    moreover have "gd_time x @ ''Z'' = format_rfc3339 ?v"
      using v(1) by (simp add: wall_text_def format_rfc3339_def format_offset_def)
    ultimately show ?thesis using True v(1,2) x
      unfolding keeps_boundary_def by (auto simp: keep_time_def intro!: exI[of _ ?v])
  qed (simp add: keeps_boundary_def x keep_time_def)
qed

lemma keeping_google_inserts: "inserts_events (\<lambda>z. Some UTC) base cal tok keeping_google ''e1''"
proof -
  have "answers_event (keeping_google q) (keep_event e) \<and> keeps_event (\<lambda>z. Some UTC) e ''e1'' (keep_event e)"
    if "hq_body q = show_json (google_event_json e)" "keeps_event (\<lambda>z. Some UTC) e ''e1'' ev" for q e ev
    using that keep_time_kept by (auto simp: keeping_google_def answers_event_def ok_status_def unmarshal_show[OF plain_google_event]
        as_google_event_json keeps_event_def keep_event_def)
  then show ?thesis unfolding inserts_events_def by blast
qed

definition days_off :: hold where
  "days_off = \<lparr>hold_id = [], hold_subject = ''PTO'', hold_body = [], hold_start = midnight_utc (2026, 7, 1),
     hold_end = midnight_utc (2026, 7, 4), hold_all_day = False, hold_show_as = ShowOOF,
     hold_attendees = [\<lparr>att_person = \<lparr>person_name = ''Bo'', person_email = ''bo@x''\<rparr>, att_role = RoleRequired, att_response = ResponseNone\<rparr>]\<rparr>"

theorem google_hold_comes_back_witness:
  "\<exists>h'. google_create google_demo keeping_google (Inr ''tok'') days_off = Inr h' \<and> hold_id h' = ''e1''
     \<and> t_ns (hold_start h') = t_ns (midnight_utc (2026, 7, 1)) \<and> hold_show_as h' = ShowBusy"
proof -
  have d: "dated ((midnight_utc (2026, 7, 1))\<lparr>t_loc := UTC\<rparr>)" "dated ((midnight_utc (2026, 7, 4))\<lparr>t_loc := UTC\<rparr>)" by code_simp+
  have zones: "gl_zones google_demo = (\<lambda>z. Some UTC)" by (simp add: google_demo_def)
  have zone: "gl_zones google_demo (gl_zone google_demo) = Some UTC" by (simp add: zones)
  have t: "boundary_time UTC (hold_all_day days_off) (hold_start days_off)" "boundary_time UTC (hold_all_day days_off) (hold_end days_off)"
    using d by (simp_all add: boundary_time_def days_off_def)
  have h: "\<not> hold_all_day days_off" "hold_show_as days_off = ShowOOF" "hold_start days_off = midnight_utc (2026, 7, 1)"
    by (simp_all add: days_off_def)
  have "shown_once UTC (midnight_utc (2026, 7, 1))" by (simp add: shown_once_def local_sec_def unix_sec_def)
  moreover have "unix_sec (midnight_utc (2026, 7, 1)) * second = t_ns (midnight_utc (2026, 7, 1))" by code_simp
  ultimately show ?thesis
    using google_hold_comes_back[OF keeping_google_inserts[of "gl_base google_demo" "gl_calendar google_demo" "''tok''", folded zones] zone t]
    by (auto simp: h same_wall_def)
qed

end
