(* ===== verification/Caldav.thy ===== *)
theory Caldav
  imports EventKit Secret Google Daemon Scenario
begin

text \<open>
  The CalDAV provider (\<open>internal/caldav\<close>), for iCloud and any CalDAV host. The iCalendar library and the CalDAV
  client are not part of the program: \<open>ical_lib\<close> holds the operations on properties the code calls and \<open>dav\<close> the
  requests it makes, each answered by a function; \<open>ical_lawful\<close> is what the library documents of the former.
  Two cached paths are the state of a provider.
\<close>

definition ErrCalDAV :: error where "ErrCalDAV = Sentinel ''caldav''"

definition caldav_error :: "string \<Rightarrow> error" where
  "caldav_error what = Errorf ('': '' @ what) [ErrCalDAV]"

section \<open>The iCalendar library\<close>

record ical_prop =
  ip_name :: string
  ip_params :: "string \<rightharpoonup> string list"
  ip_value :: string

text \<open>
  The properties of a component have the type \<open>'p\<close>. \<open>il_text\<close> gives the text that is read, empty when
  there is none, whose error every caller drops.
\<close>

record 'p ical_lib =
  il_empty :: 'p
  il_values :: "'p \<Rightarrow> string \<Rightarrow> ical_prop list"
  il_get :: "'p \<Rightarrow> string \<Rightarrow> ical_prop option"
  il_text :: "'p \<Rightarrow> string \<Rightarrow> string"
  il_date_time :: "'p \<Rightarrow> string \<Rightarrow> location \<Rightarrow> gotime result"
  il_set_text :: "string \<Rightarrow> string \<Rightarrow> 'p \<Rightarrow> 'p"
  il_set_date :: "string \<Rightarrow> gotime \<Rightarrow> 'p \<Rightarrow> 'p"
  il_set_date_time :: "string \<Rightarrow> gotime \<Rightarrow> 'p \<Rightarrow> 'p"
  il_set :: "ical_prop \<Rightarrow> 'p \<Rightarrow> 'p"
  il_add :: "ical_prop \<Rightarrow> 'p \<Rightarrow> 'p"
  il_del :: "string \<Rightarrow> 'p \<Rightarrow> 'p"

datatype 'p component = Component (co_name: string) (co_props: 'p) (co_children: "'p component list")

definition param :: "ical_prop option \<Rightarrow> string \<Rightarrow> string" where
  "param p name = (case p of None \<Rightarrow> []
     | Some pr \<Rightarrow> (case ip_params pr name of Some (v # vs) \<Rightarrow> v | _ \<Rightarrow> []))"

section \<open>Values\<close>

definition transparency :: "show_as \<Rightarrow> string" where
  "transparency s = (if s = ShowFree then ''TRANSPARENT'' else ''OPAQUE'')"

fun partstat :: "response \<Rightarrow> string" where
  "partstat ResponseAccepted = ''ACCEPTED''"
| "partstat ResponseDeclined = ''DECLINED''"
| "partstat ResponseTentative = ''TENTATIVE''"
| "partstat _ = ''NEEDS-ACTION''"

definition response_from :: "string \<Rightarrow> response" where
  "response_from v =
     (let u = to_upper v in
      if u = ''ACCEPTED'' then ResponseAccepted
      else if u = ''DECLINED'' then ResponseDeclined
      else if u = ''TENTATIVE'' then ResponseTentative
      else ResponseNotResponded)"

definition role_from :: "string \<Rightarrow> role" where
  "role_from v = (if equal_fold v ''OPT-PARTICIPANT'' then RoleOptional else RoleRequired)"

definition mailto :: "string \<Rightarrow> string" where
  "mailto email = (if CHR '':'' \<in> set email then email else ''mailto:'' @ email)"

definition un_mailto :: "string \<Rightarrow> string" where
  "un_mailto v = trim_prefix (trim_prefix v ''mailto:'') ''MAILTO:''"

definition attendee_prop :: "attendee \<Rightarrow> ical_prop" where
  "attendee_prop a =
     \<lparr>ip_name = ''ATTENDEE'',
      ip_params = (let ps = [''ROLE'' \<mapsto> [if att_role a = RoleOptional then ''OPT-PARTICIPANT'' else ''REQ-PARTICIPANT''],
          ''PARTSTAT'' \<mapsto> [partstat (att_response a)], ''RSVP'' \<mapsto> [''TRUE'']]
        in if person_name (att_person a) = [] then ps else ps(''CN'' \<mapsto> [person_name (att_person a)])),
      ip_value = mailto (att_email a)\<rparr>"

definition attendee_from :: "ical_prop \<Rightarrow> attendee" where
  "attendee_from pr =
     \<lparr>att_person = \<lparr>person_name = param (Some pr) ''CN'', person_email = un_mailto (ip_value pr)\<rparr>,
      att_role = role_from (param (Some pr) ''ROLE''), att_response = response_from (param (Some pr) ''PARTSTAT'')\<rparr>"

section \<open>The provider\<close>

text \<open>\<open>cp_zone\<close> is the location the configured zone loads as, if it does.\<close>

record 'p caldav =
  cp_lib :: "'p ical_lib"
  cp_endpoint :: string
  cp_user :: string
  cp_password :: string
  cp_calendar_name :: string
  cp_zone :: "location option"
  cp_status :: "(string \<Rightarrow> statuses result) option"

definition cp_location :: "'p caldav \<Rightarrow> location" where
  "cp_location p = (case cp_zone p of None \<Rightarrow> UTC | Some l \<Rightarrow> l)"

definition apply_hold :: "'p caldav \<Rightarrow> hold \<Rightarrow> 'p \<Rightarrow> 'p" where
  "apply_hold p h props =
     (let l = cp_lib p;
          props = il_set_text l ''SUMMARY'' (hold_subject h) props;
          props = (if hold_body h = [] then il_del l ''DESCRIPTION'' props
                   else il_set_text l ''DESCRIPTION'' (hold_body h) props);
          props = (if hold_all_day h
                   then il_set_date l ''DTEND'' (hold_end h) (il_set_date l ''DTSTART'' (hold_start h) props)
                   else il_set_date_time l ''DTEND'' ((hold_end h)\<lparr>t_loc := UTC\<rparr>)
                     (il_set_date_time l ''DTSTART'' ((hold_start h)\<lparr>t_loc := UTC\<rparr>) props));
          props = il_set_text l ''TRANSP'' (transparency (hold_show_as h)) props;
          props = il_set l \<lparr>ip_name = ''ORGANIZER'', ip_params = Map.empty, ip_value = mailto (cp_user p)\<rparr> props;
          props = il_del l ''ATTENDEE'' props
      in fold (il_add l) (map attendee_prop (hold_attendees h)) props)"

definition to_calendar :: "'p caldav \<Rightarrow> hold \<Rightarrow> string \<Rightarrow> gotime \<Rightarrow> 'p component" where
  "to_calendar p h uid stamp =
     (let l = cp_lib p in
      Component ''VCALENDAR'' (il_set_text l ''PRODID'' ''-//vamoose//caldav//EN'' (il_set_text l ''VERSION'' ''2.0'' (il_empty l)))
        [Component ''VEVENT'' (apply_hold p h (il_set_date_time l ''DTSTAMP'' stamp (il_set_text l ''UID'' uid (il_empty l)))) []])"

definition ok_time :: "gotime result \<Rightarrow> gotime" where
  "ok_time r = (case r of Inl e \<Rightarrow> zero_time | Inr t \<Rightarrow> t)"

definition from_event :: "'p caldav \<Rightarrow> 'p \<Rightarrow> string \<Rightarrow> hold" where
  "from_event p props i =
     (let l = cp_lib p; loc = cp_location p; dt = il_get l props ''DTSTART'' in
      \<lparr>hold_id = i, hold_subject = il_text l props ''SUMMARY'', hold_body = il_text l props ''DESCRIPTION'',
       hold_start = (if dt = None then zero_time else ok_time (il_date_time l props ''DTSTART'' loc)),
       hold_end = ok_time (il_date_time l props ''DTEND'' loc),
       hold_all_day = (dt \<noteq> None \<and> equal_fold (param dt ''VALUE'') ''DATE''),
       hold_show_as = (if equal_fold (il_text l props ''TRANSP'') ''TRANSPARENT'' then ShowFree else ShowBusy),
       hold_attendees = map attendee_from (il_values l props ''ATTENDEE'')\<rparr>)"

definition first_event :: "'p component option \<Rightarrow> 'p component option" where
  "first_event cal = (case cal of None \<Rightarrow> None | Some c \<Rightarrow> find (\<lambda>x. co_name x = ''VEVENT'') (co_children c))"

text \<open>The component that was found is changed in place, in the calendar that is written back.\<close>

fun map_first_event :: "('p \<Rightarrow> 'p) \<Rightarrow> 'p component list \<Rightarrow> 'p component list" where
  "map_first_event f [] = []"
| "map_first_event f (c # cs) =
     (if co_name c = ''VEVENT'' then Component (co_name c) (f (co_props c)) (co_children c) # cs
      else c # map_first_event f cs)"

definition with_first_event :: "('p \<Rightarrow> 'p) \<Rightarrow> 'p component \<Rightarrow> 'p component" where
  "with_first_event f cal = Component (co_name cal) (co_props cal) (map_first_event f (co_children cal))"

section \<open>Requests\<close>

record dav_calendar =
  dc_name :: string
  dc_path :: string
  dc_supported :: "string list"

text \<open>
  The answers to one operation. A write may report the path it was kept at; a read may carry no
  calendar.
\<close>

record 'p dav =
  dv_principal :: "string result"
  dv_home :: "string \<Rightarrow> string result"
  dv_calendars :: "string \<Rightarrow> dav_calendar list result"
  dv_put :: "string \<Rightarrow> 'p component \<Rightarrow> string option result"
  dv_get :: "string \<Rightarrow> 'p component option result"
  dv_remove :: "string \<Rightarrow> error option"
  dv_now :: gotime
  dv_entropy :: entropy

record paths =
  pa_calendar :: string
  pa_home :: string

definition no_paths :: paths where "no_paths = \<lparr>pa_calendar = [], pa_home = []\<rparr>"

definition supports_events :: "dav_calendar \<Rightarrow> bool" where
  "supports_events c \<longleftrightarrow> dc_supported c = [] \<or> ''VEVENT'' \<in> set (dc_supported c)"

definition pick_calendar :: "dav_calendar list \<Rightarrow> string \<Rightarrow> string" where
  "pick_calendar cals name =
     (case (if name = [] then None else find (\<lambda>c. equal_fold (dc_name c) name) cals) of
        Some c \<Rightarrow> dc_path c
      | None \<Rightarrow>
          (case find supports_events cals of
             Some c \<Rightarrow> dc_path c
           | None \<Rightarrow> (case cals of [] \<Rightarrow> [] | c # cs \<Rightarrow> dc_path c)))"

definition ensure :: "string \<Rightarrow> 'p dav \<Rightarrow> paths \<Rightarrow> error option \<times> paths" where
  "ensure name dv st =
     (if pa_calendar st \<noteq> [] then (None, st)
      else case dv_principal dv of
        Inl e \<Rightarrow> (Some (caldav_error ''find principal''), st)
      | Inr who \<Rightarrow>
          (case dv_home dv who of
             Inl e \<Rightarrow> (Some (caldav_error ''find calendar home''), st)
           | Inr home \<Rightarrow>
               (case dv_calendars dv home of
                  Inl e \<Rightarrow> (Some (caldav_error ''list calendars''), st)
                | Inr cals \<Rightarrow>
                    (let path = pick_calendar cals name in
                     if path = [] then (Some (caldav_error ''no writable calendar found''), st)
                     else (None, st\<lparr>pa_calendar := if has_suffix path ''/'' then path else path @ ''/''\<rparr>)))))"

definition home_path :: "'p dav \<Rightarrow> paths \<Rightarrow> string result \<times> paths" where
  "home_path dv st =
     (if pa_home st \<noteq> [] then (Inr (pa_home st), st)
      else case dv_principal dv of
        Inl e \<Rightarrow> (Inl (caldav_error ''find principal''), st)
      | Inr who \<Rightarrow>
          (case dv_home dv who of
             Inl e \<Rightarrow> (Inl (caldav_error ''find calendar home''), st)
           | Inr home \<Rightarrow> (Inr home, st\<lparr>pa_home := home\<rparr>)))"

definition list_calendars :: "'p dav \<Rightarrow> paths \<Rightarrow> (string \<times> string) list result \<times> paths" where
  "list_calendars dv st =
     (case home_path dv st of
        (Inl e, st) \<Rightarrow> (Inl e, st)
      | (Inr home, st) \<Rightarrow>
          (case dv_calendars dv home of
             Inl e \<Rightarrow> (Inl (caldav_error ''list calendars''), st)
           | Inr cals \<Rightarrow> (Inr (map (\<lambda>c. (dc_name c, dc_path c)) cals), st)))"

definition new_uid :: "entropy \<Rightarrow> string result" where
  "new_uid ent = (case random_bytes ent 16 of Inl e \<Rightarrow> Inl (caldav_error ''uid'') | Inr b \<Rightarrow> Inr (hex_encode b @ ''@vamoose''))"

definition is_event_path :: "string \<Rightarrow> bool" where
  "is_event_path i \<longleftrightarrow> i \<noteq> [] \<and> \<not> has_suffix i ''/'' \<and> has_suffix i ''.ics''"

definition caldav_me :: "'p caldav \<Rightarrow> person result" where
  "caldav_me p = Inr (email_person (cp_user p))"

definition caldav_create :: "'p caldav \<Rightarrow> 'p dav \<Rightarrow> hold \<Rightarrow> paths \<Rightarrow> hold result \<times> paths" where
  "caldav_create p dv h st =
     (case ensure (cp_calendar_name p) dv st of
        (Some e, st) \<Rightarrow> (Inl e, st)
      | (None, st) \<Rightarrow>
          (case new_uid (dv_entropy dv) of
             Inl e \<Rightarrow> (Inl e, st)
           | Inr uid \<Rightarrow>
               (let path = pa_calendar st @ uid @ ''.ics'' in
                case dv_put dv path (to_calendar p h uid ((dv_now dv)\<lparr>t_loc := UTC\<rparr>)) of
                  Inl e \<Rightarrow> (Inl (caldav_error ''create''), st)
                | Inr kept \<Rightarrow> (Inr (h\<lparr>hold_id := (case kept of None \<Rightarrow> path | Some q \<Rightarrow> if q = [] then path else q)\<rparr>), st))))"

definition caldav_get :: "'p caldav \<Rightarrow> 'p dav \<Rightarrow> string \<Rightarrow> hold result" where
  "caldav_get p dv i =
     (case dv_get dv i of
        Inl e \<Rightarrow> Inl (caldav_error ''get'')
      | Inr cal \<Rightarrow>
          (case first_event cal of
             None \<Rightarrow> Inl ErrNotFound
           | Some ev \<Rightarrow>
               (let h = from_event p (co_props ev) i; uid = il_text (cp_lib p) (co_props ev) ''UID'' in
                case cp_status p of
                  None \<Rightarrow> Inr h
                | Some status \<Rightarrow>
                    (if uid = [] then Inr h
                     else case status uid of Inl e \<Rightarrow> Inr h | Inr m \<Rightarrow> Inr (apply_statuses m h)))))"

definition caldav_update :: "'p caldav \<Rightarrow> 'p dav \<Rightarrow> hold \<Rightarrow> hold result" where
  "caldav_update p dv h =
     (if hold_id h = [] then Inl ErrNotFound
      else case dv_get dv (hold_id h) of
        Inl e \<Rightarrow> Inl (caldav_error ''get for update'')
      | Inr cal \<Rightarrow>
          (case (first_event cal, cal) of
             (Some ev, Some c) \<Rightarrow>
               (case dv_put dv (hold_id h) (with_first_event (apply_hold p h) c) of
                  Inl e \<Rightarrow> Inl (caldav_error ''update'')
                | Inr kept \<Rightarrow> Inr h)
           | _ \<Rightarrow> Inl ErrNotFound))"

definition caldav_delete :: "'p dav \<Rightarrow> string \<Rightarrow> error option" where
  "caldav_delete dv i =
     (if \<not> is_event_path i then Some (caldav_error (''refusing to delete '' @ i @ '': not a single event''))
      else map_option (\<lambda>e. caldav_error ''delete'') (dv_remove dv i))"

text \<open>
  The outside of a program that runs on CalDAV, given the answers and the cached paths at each call.
\<close>

definition on_caldav :: "'p caldav \<Rightarrow> (nat \<Rightarrow> 'p dav) \<Rightarrow> (nat \<Rightarrow> paths) \<Rightarrow> env \<Rightarrow> env" where
  "on_caldav p dv st env = env\<lparr>
     e_me := (\<lambda>n. caldav_me p), e_manager := (\<lambda>n. Inl ErrNoManager), e_team := (\<lambda>n. Inl ErrNoDirectory),
     e_create := (\<lambda>n h. fst (caldav_create p (dv n) h (st n))), e_get := (\<lambda>n. caldav_get p (dv n)),
     e_update := (\<lambda>n. caldav_update p (dv n)), e_delete := (\<lambda>n. caldav_delete (dv n))\<rparr>"

text \<open>
  \<open>NewProvider\<close>: \<open>client\<close> is the failure of making a client for the endpoint, \<open>load_location\<close> the zones of the
  machine; an empty zone is UTC.
\<close>

definition new_caldav ::
  "'p ical_lib \<Rightarrow> (string \<Rightarrow> location option) \<Rightarrow> (string \<Rightarrow> error option) \<Rightarrow> string \<Rightarrow> string \<Rightarrow> string
   \<Rightarrow> string \<Rightarrow> string \<Rightarrow> (string \<Rightarrow> statuses result) option \<Rightarrow> 'p caldav result" where
  "new_caldav l load_location client endpoint user password zone name status =
     (if endpoint = [] \<or> user = [] \<or> password = [] then Inl (caldav_error ''endpoint, username, and password required'')
      else case client endpoint of
        Some e \<Rightarrow> Inl (caldav_error ''client'')
      | None \<Rightarrow> Inr \<lparr>cp_lib = l, cp_endpoint = endpoint, cp_user = user, cp_password = password, cp_calendar_name = name,
          cp_zone = (if zone = [] then Some UTC else load_location zone), cp_status = status\<rparr>)"

section \<open>What the library documents\<close>

text \<open>
  A property is read as it was written, a write to one name leaves the others, \<open>Get\<close> is the first of the
  values. A date is read as its midnight in the zone, a time of UTC to the second.
\<close>

definition midnight_in :: "location \<Rightarrow> gotime \<Rightarrow> gotime" where
  "midnight_in l t = (case date_of t of (y, m, d) \<Rightarrow> date_at y m d 0 l)"

definition reads_same :: "'p ical_lib \<Rightarrow> 'p \<Rightarrow> 'p \<Rightarrow> string \<Rightarrow> bool" where
  "reads_same l p q n \<longleftrightarrow> il_values l p n = il_values l q n \<and> il_get l p n = il_get l q n \<and> il_text l p n = il_text l q n
     \<and> (\<forall>loc. il_date_time l p n loc = il_date_time l q n loc)"

definition leaves_others :: "'p ical_lib \<Rightarrow> string \<Rightarrow> ('p \<Rightarrow> 'p) \<Rightarrow> bool" where
  "leaves_others l n f \<longleftrightarrow> (\<forall>p m. m \<noteq> n \<longrightarrow> reads_same l (f p) p m)"

definition writes_leave_others :: "'p ical_lib \<Rightarrow> bool" where
  "writes_leave_others l \<longleftrightarrow> (\<forall>n v. leaves_others l n (il_set_text l n v)) \<and> (\<forall>n t. leaves_others l n (il_set_date l n t))
     \<and> (\<forall>n t. leaves_others l n (il_set_date_time l n t)) \<and> (\<forall>n. leaves_others l n (il_del l n))
     \<and> (\<forall>pr. leaves_others l (ip_name pr) (il_set l pr)) \<and> (\<forall>pr. leaves_others l (ip_name pr) (il_add l pr))"

definition writes_are_read :: "'p ical_lib \<Rightarrow> bool" where
  "writes_are_read l \<longleftrightarrow>
     (\<forall>n v p. il_text l (il_set_text l n v p) n = v)
     \<and> (\<forall>n p. il_values l (il_del l n p) n = [] \<and> il_text l (il_del l n p) n = [])
     \<and> (\<forall>pr p. il_values l (il_add l pr p) (ip_name pr) = il_values l p (ip_name pr) @ [pr])
     \<and> (\<forall>n t p. four_digit_year t \<longrightarrow> param (il_get l (il_set_date l n t p) n) ''VALUE'' = ''DATE''
          \<and> (\<forall>loc. il_date_time l (il_set_date l n t p) n loc = Inr (midnight_in loc t)))
     \<and> (\<forall>n t p. four_digit_year t \<longrightarrow> t_loc t = UTC \<longrightarrow> il_get l (il_set_date_time l n t p) n \<noteq> None
          \<and> \<not> equal_fold (param (il_get l (il_set_date_time l n t p) n) ''VALUE'') ''DATE''
          \<and> (\<forall>loc. il_date_time l (il_set_date_time l n t p) n loc = Inr (t\<lparr>t_ns := unix_sec t * second\<rparr>)))"

definition ical_lawful :: "'p ical_lib \<Rightarrow> bool" where
  "ical_lawful l \<longleftrightarrow> writes_leave_others l \<and> writes_are_read l"

lemma reads_same_trans: "reads_same l p q n \<Longrightarrow> reads_same l q r n \<Longrightarrow> reads_same l p r n"
  by (simp add: reads_same_def)

lemma reads_same_refl [simp]: "reads_same l p p n"
  by (simp add: reads_same_def)

lemma write_frame:
  assumes "ical_lawful l"
  shows "m \<noteq> n \<Longrightarrow> reads_same l (il_set_text l n v p) q m \<longleftrightarrow> reads_same l p q m"
    and "m \<noteq> n \<Longrightarrow> reads_same l (il_set_date l n t p) q m \<longleftrightarrow> reads_same l p q m"
    and "m \<noteq> n \<Longrightarrow> reads_same l (il_set_date_time l n t p) q m \<longleftrightarrow> reads_same l p q m"
    and "m \<noteq> n \<Longrightarrow> reads_same l (il_del l n p) q m \<longleftrightarrow> reads_same l p q m"
    and "m \<noteq> ip_name pr \<Longrightarrow> reads_same l (il_set l pr p) q m \<longleftrightarrow> reads_same l p q m"
    and "m \<noteq> ip_name pr \<Longrightarrow> reads_same l (il_add l pr p) q m \<longleftrightarrow> reads_same l p q m"
  using assms unfolding ical_lawful_def writes_leave_others_def leaves_others_def reads_same_def by simp_all

lemma fold_add_frame:
  assumes "ical_lawful l" and "\<And>pr. pr \<in> set prs \<Longrightarrow> ip_name pr \<noteq> m"
  shows "reads_same l (fold (il_add l) prs p) q m \<longleftrightarrow> reads_same l p q m"
  using assms(2)
proof (induction prs arbitrary: p)
  case (Cons pr prs)
  then show ?case using write_frame(6)[OF assms(1), of m pr p q] by auto
qed simp

lemma fold_add_values:
  assumes "ical_lawful l" and "\<And>pr. pr \<in> set prs \<Longrightarrow> ip_name pr = n"
  shows "il_values l (fold (il_add l) prs p) n = il_values l p n @ prs"
  using assms(2)
proof (induction prs arbitrary: p)
  case (Cons pr prs)
  have "il_values l (il_add l pr p) n = il_values l p n @ [pr]"
    using assms(1) Cons.prems[of pr] by (auto simp: ical_lawful_def writes_are_read_def)
  then show ?case using Cons by simp
qed simp

text \<open>The names \<open>applyHold\<close> writes, and what it leaves.\<close>

definition hold_names :: "string list" where
  "hold_names = [''SUMMARY'', ''DESCRIPTION'', ''DTSTART'', ''DTEND'', ''TRANSP'', ''ORGANIZER'', ''ATTENDEE'']"

lemma attendee_prop_name [simp]: "ip_name (attendee_prop a) = ''ATTENDEE''"
  by (simp add: attendee_prop_def)

lemma apply_hold_leaves:
  assumes "ical_lawful (cp_lib p)" and "n \<notin> set hold_names"
  shows "reads_same (cp_lib p) (apply_hold p h props) props n"
proof -
  have n: "n \<noteq> ''SUMMARY''" "n \<noteq> ''DESCRIPTION''" "n \<noteq> ''DTSTART''" "n \<noteq> ''DTEND''" "n \<noteq> ''TRANSP''" "n \<noteq> ''ORGANIZER''"
    "n \<noteq> ''ATTENDEE''" using assms(2) unfolding hold_names_def by simp_all
  note frame = write_frame[OF assms(1)] and names = n
  show ?thesis
    unfolding apply_hold_def Let_def using names
    by (subst fold_add_frame[OF assms(1)]) (auto simp: frame)
qed

lemma read_frame:
  assumes "ical_lawful l" and "m \<noteq> n"
  shows "il_text l (il_set_text l n v p) m = il_text l p m" "il_text l (il_set_date l n t p) m = il_text l p m"
    "il_text l (il_set_date_time l n t p) m = il_text l p m" "il_text l (il_del l n p) m = il_text l p m"
    "il_get l (il_set_text l n v p) m = il_get l p m" "il_get l (il_set_date l n t p) m = il_get l p m"
    "il_get l (il_set_date_time l n t p) m = il_get l p m" "il_get l (il_del l n p) m = il_get l p m"
    "il_date_time l (il_set_text l n v p) m loc = il_date_time l p m loc"
    "il_date_time l (il_set_date l n t p) m loc = il_date_time l p m loc"
    "il_date_time l (il_set_date_time l n t p) m loc = il_date_time l p m loc"
    "il_date_time l (il_del l n p) m loc = il_date_time l p m loc"
    "ip_name pr = n \<Longrightarrow> il_text l (il_set l pr p) m = il_text l p m"
    "ip_name pr = n \<Longrightarrow> il_get l (il_set l pr p) m = il_get l p m"
    "ip_name pr = n \<Longrightarrow> il_date_time l (il_set l pr p) m loc = il_date_time l p m loc"
  using assms unfolding ical_lawful_def writes_leave_others_def leaves_others_def reads_same_def by auto

lemma written:
  assumes "ical_lawful l"
  shows "il_text l (il_set_text l n v p) n = v" "il_text l (il_del l n p) n = []" "il_values l (il_del l n p) n = []"
    "four_digit_year t \<Longrightarrow> param (il_get l (il_set_date l n t p) n) ''VALUE'' = ''DATE''"
    "four_digit_year t \<Longrightarrow> il_date_time l (il_set_date l n t p) n loc = Inr (midnight_in loc t)"
    "four_digit_year t \<Longrightarrow> t_loc t = UTC \<Longrightarrow> il_get l (il_set_date_time l n t p) n \<noteq> None"
    "four_digit_year t \<Longrightarrow> t_loc t = UTC \<Longrightarrow> \<not> equal_fold (param (il_get l (il_set_date_time l n t p) n) ''VALUE'') ''DATE''"
    "four_digit_year t \<Longrightarrow> t_loc t = UTC \<Longrightarrow> il_date_time l (il_set_date_time l n t p) n loc = Inr (t\<lparr>t_ns := unix_sec t * second\<rparr>)"
  using assms unfolding ical_lawful_def writes_are_read_def by blast+

text \<open>An invitation as the server gives it back: optional or required, and one of four answers.\<close>

definition plain_role :: "role \<Rightarrow> role" where
  "plain_role r = (if r = RoleOptional then RoleOptional else RoleRequired)"

definition plain_response :: "response \<Rightarrow> response" where
  "plain_response r = (if r \<in> {ResponseAccepted, ResponseDeclined, ResponseTentative} then r else ResponseNotResponded)"

definition plain_attendee :: "attendee \<Rightarrow> attendee" where
  "plain_attendee a = a\<lparr>att_role := plain_role (att_role a), att_response := plain_response (att_response a)\<rparr>"

lemma un_mailto_mailto: "CHR '':'' \<notin> set e \<Longrightarrow> un_mailto (mailto e) = e"
proof -
  assume e: "CHR '':'' \<notin> set e"
  have "\<not> has_prefix e ''MAILTO:''"
  proof
    assume "has_prefix e ''MAILTO:''"
    then obtain r where "e = ''MAILTO:'' @ r" by (auto simp: has_prefix_iff)
    with e show False by simp
  qed
  then show "un_mailto (mailto e) = e" using e trim_prefix_append[of "''mailto:''" e]
    by (simp add: un_mailto_def mailto_def trim_prefix_def[of e])
qed

lemma response_from_partstat: "response_from (partstat r) = plain_response r"
proof -
  have "response_from ''ACCEPTED'' = ResponseAccepted" "response_from ''DECLINED'' = ResponseDeclined"
    "response_from ''TENTATIVE'' = ResponseTentative" "response_from ''NEEDS-ACTION'' = ResponseNotResponded" by code_simp+
  then show ?thesis by (cases r) (simp_all add: plain_response_def)
qed

lemma role_from_written: "role_from (if r = RoleOptional then ''OPT-PARTICIPANT'' else ''REQ-PARTICIPANT'') = plain_role r"
proof -
  have "role_from ''OPT-PARTICIPANT'' = RoleOptional" "role_from ''REQ-PARTICIPANT'' = RoleRequired" by code_simp+
  then show ?thesis by (simp add: plain_role_def)
qed

lemma attendee_from_prop: "CHR '':'' \<notin> set (att_email a) \<Longrightarrow> attendee_from (attendee_prop a) = plain_attendee a"
  by (cases a; cases "att_person a")
    (auto simp: attendee_from_def attendee_prop_def Let_def param_def un_mailto_mailto response_from_partstat plain_attendee_def
      role_from_written[symmetric])

text \<open>A hold as it is read back in a zone: days at their midnight, times to the second.\<close>

definition read_time :: "location \<Rightarrow> bool \<Rightarrow> gotime \<Rightarrow> gotime" where
  "read_time l all_day t = (if all_day then midnight_in l t else \<lparr>t_ns = unix_sec t * second, t_loc = UTC\<rparr>)"

definition as_read :: "location \<Rightarrow> string \<Rightarrow> hold \<Rightarrow> hold" where
  "as_read l i h = h\<lparr>hold_id := i, hold_start := read_time l (hold_all_day h) (hold_start h),
     hold_end := read_time l (hold_all_day h) (hold_end h),
     hold_show_as := (if hold_show_as h = ShowFree then ShowFree else ShowBusy),
     hold_attendees := map plain_attendee (hold_attendees h)\<rparr>"

text \<open>Dates a four digit year can write, and addresses that are not already URIs.\<close>

definition calendar_time :: "hold \<Rightarrow> gotime \<Rightarrow> bool" where
  "calendar_time h t \<longleftrightarrow> four_digit_year (if hold_all_day h then t else t\<lparr>t_loc := UTC\<rparr>)"

definition caldav_hold :: "hold \<Rightarrow> bool" where
  "caldav_hold h \<longleftrightarrow> calendar_time h (hold_start h) \<and> calendar_time h (hold_end h)
     \<and> list_all (\<lambda>a. CHR '':'' \<notin> set (att_email a)) (hold_attendees h)"

definition start_end_written :: "'p ical_lib \<Rightarrow> hold \<Rightarrow> 'p \<Rightarrow> 'p" where
  "start_end_written l h props =
     (if hold_all_day h then il_set_date l ''DTEND'' (hold_end h) (il_set_date l ''DTSTART'' (hold_start h) props)
      else il_set_date_time l ''DTEND'' ((hold_end h)\<lparr>t_loc := UTC\<rparr>)
        (il_set_date_time l ''DTSTART'' ((hold_start h)\<lparr>t_loc := UTC\<rparr>) props))"

lemma start_end_read:
  assumes "ical_lawful l" and "calendar_time h (hold_start h)" and "calendar_time h (hold_end h)"
  shows "il_date_time l (start_end_written l h q) ''DTSTART'' loc = Inr (read_time loc (hold_all_day h) (hold_start h))"
    and "il_date_time l (start_end_written l h q) ''DTEND'' loc = Inr (read_time loc (hold_all_day h) (hold_end h))"
    and "il_get l (start_end_written l h q) ''DTSTART'' \<noteq> None"
    and "equal_fold (param (il_get l (start_end_written l h q) ''DTSTART'') ''VALUE'') ''DATE'' = hold_all_day h"
proof -
  have start: "''DTSTART'' \<noteq> ''DTEND''" by simp
  note w = written[OF assms(1)] and f = read_frame[OF assms(1) start]
  show "il_date_time l (start_end_written l h q) ''DTSTART'' loc = Inr (read_time loc (hold_all_day h) (hold_start h))"
    using assms(2) w(5,8) f
    by (cases "hold_all_day h"; cases "hold_start h") (simp_all add: start_end_written_def read_time_def calendar_time_def unix_sec_def)
  show "il_date_time l (start_end_written l h q) ''DTEND'' loc = Inr (read_time loc (hold_all_day h) (hold_end h))"
    using assms(3) w(5,8)
    by (cases "hold_all_day h"; cases "hold_end h") (simp_all add: start_end_written_def read_time_def calendar_time_def unix_sec_def)
  show all: "equal_fold (param (il_get l (start_end_written l h q) ''DTSTART'') ''VALUE'') ''DATE'' = hold_all_day h"
    using assms(2) w(4,7) f by (cases "hold_all_day h") (simp_all add: start_end_written_def calendar_time_def)
  show "il_get l (start_end_written l h q) ''DTSTART'' \<noteq> None"
  proof (cases "hold_all_day h")
    case True
    then have "param (il_get l (start_end_written l h q) ''DTSTART'') ''VALUE'' = ''DATE''"
      using assms(2) w(4) f by (simp add: start_end_written_def calendar_time_def)
    then show ?thesis by (cases "il_get l (start_end_written l h q) ''DTSTART''") (simp_all add: param_def)
  next
    case False
    then show ?thesis using assms(2) w(6) f by (simp add: start_end_written_def calendar_time_def)
  qed
qed

lemma transparent_read: "equal_fold (transparency s) ''TRANSPARENT'' = (s = ShowFree)"
proof -
  have "equal_fold ''TRANSPARENT'' ''TRANSPARENT''" "\<not> equal_fold ''OPAQUE'' ''TRANSPARENT''" by code_simp+
  then show ?thesis by (simp add: transparency_def)
qed

lemma from_event_apply_hold:
  assumes "ical_lawful (cp_lib p)" and "caldav_hold h"
  shows "from_event p (apply_hold p h props) i = as_read (cp_location p) i h"
proof -
  define l where "l = cp_lib p"
  define described where "described = (if hold_body h = [] then il_del l ''DESCRIPTION'' (il_set_text l ''SUMMARY'' (hold_subject h) props)
    else il_set_text l ''DESCRIPTION'' (hold_body h) (il_set_text l ''SUMMARY'' (hold_subject h) props))"
  define timed where "timed = start_end_written l h described"
  define shown where "shown = il_set_text l ''TRANSP'' (transparency (hold_show_as h)) timed"
  define base where "base = il_del l ''ATTENDEE''
    (il_set l \<lparr>ip_name = ''ORGANIZER'', ip_params = Map.empty, ip_value = mailto (cp_user p)\<rparr> shown)"
  have law: "ical_lawful l" using assms(1) by (simp add: l_def)
  note w = written[OF law] and f = read_frame[OF law]
  have h: "calendar_time h (hold_start h)" "calendar_time h (hold_end h)"
    "map (\<lambda>a. attendee_from (attendee_prop a)) (hold_attendees h) = map plain_attendee (hold_attendees h)"
    using assms(2) by (auto simp: caldav_hold_def list_all_iff attendee_from_prop)
  have all: "apply_hold p h props = fold (il_add l) (map attendee_prop (hold_attendees h)) base"
    unfolding apply_hold_def Let_def base_def shown_def timed_def start_end_written_def described_def l_def ..
  have others: "reads_same l (apply_hold p h props) base n" if "n \<noteq> ''ATTENDEE''" for n
    unfolding all by (rule fold_add_frame[OF law, THEN iffD2]) (use that in auto)
  have guests: "il_values l (apply_hold p h props) ''ATTENDEE'' = map attendee_prop (hold_attendees h)"
    unfolding all by (subst fold_add_values[OF law]) (auto simp: base_def w(3))
  have body: "il_text l described ''DESCRIPTION'' = hold_body h" "il_text l described ''SUMMARY'' = hold_subject h"
    using w(1,2) f(1,4)[of "''SUMMARY''" "''DESCRIPTION''"] by (simp_all add: described_def)
  have kept: "il_text l timed n = il_text l described n" if "n \<noteq> ''DTSTART''" "n \<noteq> ''DTEND''" for n
    using f(2,3)[OF that(1)] f(2,3)[OF that(2)] by (simp add: timed_def start_end_written_def)
  have same: "reads_same l base timed n" if "n \<noteq> ''TRANSP''" "n \<noteq> ''ORGANIZER''" "n \<noteq> ''ATTENDEE''" for n
    unfolding base_def shown_def using that write_frame[OF law] by auto
  have texts: "il_text l (apply_hold p h props) ''SUMMARY'' = hold_subject h" "il_text l (apply_hold p h props) ''DESCRIPTION'' = hold_body h"
    using reads_same_trans[OF others same, THEN reads_same_def[THEN iffD1]] kept body by simp_all
  have show_as: "il_text l (apply_hold p h props) ''TRANSP'' = transparency (hold_show_as h)"
    using others[of "''TRANSP''"] w(1) f(4)[of "''TRANSP''" "''ATTENDEE''"] f(13)[of "''TRANSP''" "''ORGANIZER''"]
    by (simp add: reads_same_def base_def shown_def)
  have time: "reads_same l (apply_hold p h props) timed ''DTSTART''" "reads_same l (apply_hold p h props) timed ''DTEND''"
    using reads_same_trans[OF others same] unfolding reads_same_def by simp_all
  note se = start_end_read[OF law h(1,2), of described, folded timed_def]
  obtain pr where pr: "il_get l timed ''DTSTART'' = Some pr" using se(3) by blast
  have day: "equal_fold (param (Some pr) ''VALUE'') ''DATE'' = hold_all_day h" using se(4) unfolding pr .
  show ?thesis
    unfolding from_event_def Let_def l_def[symmetric]
    by (rule hold.equality)
      (use time se(1,2) texts show_as guests h(3) pr day in
        \<open>simp_all add: reads_same_def ok_time_def transparent_read as_read_def comp_def\<close>)
qed

section \<open>What the theory establishes\<close>

text \<open>
  A server that keeps what it is sent. \<open>dv\<close> gives the answers of the server to one operation, \<open>later\<close> those it
  gives after it: an object that \<open>dv\<close> accepts is what \<open>later\<close> has at the path where it was kept. Since there is
  one object at a path, \<open>dv\<close> accepts there only the object the operation sends.
\<close>

definition kept_at :: "string \<Rightarrow> string option \<Rightarrow> string" where
  "kept_at path kept = (case kept of None \<Rightarrow> path | Some q \<Rightarrow> if q = [] then path else q)"

definition keeps_objects :: "'p dav \<Rightarrow> 'p dav \<Rightarrow> bool" where
  "keeps_objects dv later \<longleftrightarrow>
     (\<forall>path c kept. dv_put dv path c = Inr kept \<longrightarrow> dv_get later (kept_at path kept) = Inr (Some c))"

text \<open>The server keeps an object where it was put.\<close>

definition stays_put :: "'p dav \<Rightarrow> string \<Rightarrow> bool" where
  "stays_put dv path \<longleftrightarrow> (\<forall>c kept. dv_put dv path c = Inr kept \<longrightarrow> kept_at path kept = path)"

lemma first_event_with: "first_event (Some (with_first_event f c))
    = map_option (\<lambda>ev. Component (co_name ev) (f (co_props ev)) (co_children ev)) (first_event (Some c))"
proof -
  have "find (\<lambda>x. co_name x = ''VEVENT'') (map_first_event f cs)
      = map_option (\<lambda>ev. Component (co_name ev) (f (co_props ev)) (co_children ev)) (find (\<lambda>x. co_name x = ''VEVENT'') cs)" for cs
    by (induction cs) simp_all
  then show ?thesis by (simp add: first_event_def with_first_event_def)
qed

text \<open>
  C14. A hold comes back from CalDAV as it was written. When a creation succeeds and the server later gives back
  the object it was sent, the hold read from it has the same subject, body and guests; an all-day hold starts
  and ends on the same days, at their midnight in the zone of the provider, another at the same second. The same
  holds after an update that the server keeps at its path, which returns the hold as given and leaves every other
  property of the event, the UID among them, so that guests and the macOS calendar know the event again. Only
  the way it is shown is reduced to free or busy, a role to optional or required and an answer to one of four. It
  is assumed that the iCalendar library reads what it writes, that no other source of answers is configured, that
  years have four digits and that no address is already a URI.
\<close>

theorem caldav_hold_comes_back:
  assumes "ical_lawful (cp_lib p)" and "caldav_hold h" and "cp_status p = None" and "keeps_objects dv later"
  shows "(\<forall>h' st'. caldav_create p dv h st = (Inr h', st') \<longrightarrow>
      caldav_get p later (hold_id h') = Inr (as_read (cp_location p) (hold_id h') h)) \<and>
    (\<forall>h' c ev. caldav_update p dv h = Inr h' \<longrightarrow> stays_put dv (hold_id h) \<longrightarrow>
      dv_get dv (hold_id h) = Inr (Some c) \<longrightarrow> first_event (Some c) = Some ev \<longrightarrow>
      h' = h \<and> caldav_get p later (hold_id h) = Inr (as_read (cp_location p) (hold_id h) h) \<and>
      (\<exists>c' ev'. dv_get later (hold_id h) = Inr (Some c') \<and> first_event (Some c') = Some ev'
         \<and> (\<forall>n. n \<notin> {''SUMMARY'', ''DESCRIPTION'', ''DTSTART'', ''DTEND'', ''TRANSP'', ''ORGANIZER'', ''ATTENDEE''} \<longrightarrow>
              reads_same (cp_lib p) (co_props ev') (co_props ev) n)))"
proof (intro conjI allI impI)
  fix h' st'
  assume "caldav_create p dv h st = (Inr h', st')"
  then obtain uid path kept where "dv_put dv path (to_calendar p h uid ((dv_now dv)\<lparr>t_loc := UTC\<rparr>)) = Inr kept"
    "hold_id h' = kept_at path kept"
    by (auto simp: caldav_create_def kept_at_def Let_def split: prod.splits option.splits sum.splits)
  then have "dv_get later (hold_id h') = Inr (Some (to_calendar p h uid ((dv_now dv)\<lparr>t_loc := UTC\<rparr>)))"
    using assms(4) by (simp add: keeps_objects_def)
  then show "caldav_get p later (hold_id h') = Inr (as_read (cp_location p) (hold_id h') h)"
    by (simp add: to_calendar_def caldav_get_def first_event_def Let_def from_event_apply_hold[OF assms(1,2)] assms(3))
next
  fix h' c ev
  assume up: "caldav_update p dv h = Inr h'" and stays: "stays_put dv (hold_id h)"
    and old: "dv_get dv (hold_id h) = Inr (Some c)" and ev: "first_event (Some c) = Some ev"
  let ?c = "with_first_event (apply_hold p h) c"
  obtain kept where "dv_put dv (hold_id h) ?c = Inr kept" and h': "h' = h"
    using up old ev by (auto simp: caldav_update_def split: if_splits sum.splits)
  then have get: "dv_get later (hold_id h) = Inr (Some ?c)"
    using assms(4) stays unfolding keeps_objects_def stays_put_def by metis
  show "h' = h" by (rule h')
  show "caldav_get p later (hold_id h) = Inr (as_read (cp_location p) (hold_id h) h)"
    using get by (simp add: caldav_get_def first_event_with ev Let_def from_event_apply_hold[OF assms(1,2)] assms(3))
  show "\<exists>c' ev'. dv_get later (hold_id h) = Inr (Some c') \<and> first_event (Some c') = Some ev'
      \<and> (\<forall>n. n \<notin> {''SUMMARY'', ''DESCRIPTION'', ''DTSTART'', ''DTEND'', ''TRANSP'', ''ORGANIZER'', ''ATTENDEE''} \<longrightarrow>
           reads_same (cp_lib p) (co_props ev') (co_props ev) n)"
    using get ev apply_hold_leaves[OF assms(1), of _ h "co_props ev"]
    by (intro exI[of _ ?c] exI[of _ "Component (co_name ev) (apply_hold p h (co_props ev)) (co_children ev)"])
      (simp add: first_event_with hold_names_def)
qed

text \<open>A library that keeps the properties of each name, a date or time beside its property.\<close>

type_synonym table = "string \<Rightarrow> (ical_prop \<times> gotime) list"

definition bare :: "string \<Rightarrow> string \<Rightarrow> ical_prop" where
  "bare n v = \<lparr>ip_name = n, ip_params = Map.empty, ip_value = v\<rparr>"

definition table_lib :: "table ical_lib" where
  "table_lib = \<lparr>il_empty = \<lambda>n. [],
     il_values = \<lambda>p n. map fst (p n),
     il_get = \<lambda>p n. (case p n of [] \<Rightarrow> None | (pr, t) # xs \<Rightarrow> Some pr),
     il_text = \<lambda>p n. (case p n of [] \<Rightarrow> [] | (pr, t) # xs \<Rightarrow> ip_value pr),
     il_date_time = \<lambda>p n loc. (case p n of [] \<Rightarrow> Inl (Sentinel ''none'')
       | (pr, t) # xs \<Rightarrow> Inr (if ip_params pr ''VALUE'' = None then t\<lparr>t_ns := unix_sec t * second\<rparr> else midnight_in loc t)),
     il_set_text = \<lambda>n v p. p(n := [(bare n v, zero_time)]),
     il_set_date = \<lambda>n t p. p(n := [((bare n [])\<lparr>ip_params := [''VALUE'' \<mapsto> [''DATE'']]\<rparr>, t)]),
     il_set_date_time = \<lambda>n t p. p(n := [(bare n [], t)]),
     il_set = \<lambda>pr p. p(ip_name pr := [(pr, zero_time)]),
     il_add = \<lambda>pr p. p(ip_name pr := p (ip_name pr) @ [(pr, zero_time)]),
     il_del = \<lambda>n p. p(n := [])\<rparr>"

lemma table_lawful: "ical_lawful table_lib"
  by (auto simp: ical_lawful_def writes_leave_others_def writes_are_read_def leaves_others_def reads_same_def table_lib_def
      param_def bare_def equal_fold_def to_lower_def)

definition fastmail :: "table caldav" where
  "fastmail = \<lparr>cp_lib = table_lib, cp_endpoint = ''https://h'', cp_user = ''me@x'', cp_password = ''pw'', cp_calendar_name = [], cp_zone = None, cp_status = None\<rparr>"

definition keeps_nothing :: "table dav" where
  "keeps_nothing = \<lparr>dv_principal = Inr ''/p'', dv_home = \<lambda>w. Inr ''/h'',
     dv_calendars = \<lambda>h. Inr [\<lparr>dc_name = ''Work'', dc_path = ''/h/work'', dc_supported = [''VEVENT'']\<rparr>],
     dv_put = \<lambda>path c. Inr None, dv_get = \<lambda>path. Inl (Sentinel ''404''), dv_remove = \<lambda>path. None,
     dv_now = zero_time, dv_entropy = Some (\<lambda>n. CHR ''u'')\<rparr>"

definition beach_day :: hold where
  "beach_day = \<lparr>hold_id = [], hold_subject = ''Beach'', hold_body = [], hold_start = \<lparr>t_ns = 0, t_loc = UTC\<rparr>,
     hold_end = \<lparr>t_ns = 86400 * second, t_loc = UTC\<rparr>, hold_all_day = True, hold_show_as = ShowOOF,
     hold_attendees = [invite (email_person ''boss@x'') RoleRequired]\<rparr>"

definition beach_uid :: string where "beach_uid = concat (replicate 16 ''75'') @ ''@vamoose''"

definition beach_object :: "table component" where
  "beach_object = to_calendar fastmail beach_day beach_uid (zero_time\<lparr>t_loc := UTC\<rparr>)"

text \<open>The server accepts that object, then has it.\<close>

definition accepting :: "table dav" where
  "accepting = keeps_nothing\<lparr>dv_put := \<lambda>path c. if c = beach_object \<and> path = ''/h/work/'' @ beach_uid @ ''.ics'' then Inr None else Inl (Sentinel ''507'')\<rparr>"

definition holding_beach :: "table dav" where
  "holding_beach = keeps_nothing\<lparr>dv_get := \<lambda>path. if path = ''/h/work/'' @ beach_uid @ ''.ics'' then Inr (Some beach_object) else Inl (Sentinel ''404'')\<rparr>"

theorem caldav_hold_comes_back_witness:
  "\<exists>h' st'. caldav_create fastmail accepting beach_day no_paths = (Inr h', st') \<and> is_event_path (hold_id h') \<and>
     caldav_get fastmail holding_beach (hold_id h') = Inr (as_read UTC (hold_id h') beach_day)"
proof -
  have "new_uid (dv_entropy keeps_nothing) = Inr beach_uid" by code_simp
  then have uid: "new_uid (dv_entropy accepting) = Inr beach_uid" by (simp add: accepting_def)
  have "ensure (cp_calendar_name fastmail) keeps_nothing no_paths = (None, no_paths\<lparr>pa_calendar := ''/h/work/''\<rparr>)" by code_simp
  moreover have "ensure name accepting st = ensure name keeps_nothing st" for name st
    by (simp add: ensure_def accepting_def split: sum.split)
  ultimately have cal: "ensure (cp_calendar_name fastmail) accepting no_paths = (None, no_paths\<lparr>pa_calendar := ''/h/work/''\<rparr>)"
    by simp
  have path: "is_event_path (''/h/work/'' @ beach_uid @ ''.ics'')" by code_simp
  have c: "caldav_create fastmail accepting beach_day no_paths
      = (Inr (beach_day\<lparr>hold_id := ''/h/work/'' @ beach_uid @ ''.ics''\<rparr>), no_paths\<lparr>pa_calendar := ''/h/work/''\<rparr>)"
    unfolding caldav_create_def cal prod.case option.case uid sum.case
    by (simp add: Let_def accepting_def keeps_nothing_def beach_object_def)
  have "caldav_hold beach_day" by code_simp
  moreover have "ical_lawful (cp_lib fastmail)" "cp_status fastmail = None" "cp_location fastmail = UTC"
    by (simp_all add: fastmail_def table_lawful cp_location_def)
  moreover have "keeps_objects accepting holding_beach"
    by (simp add: keeps_objects_def accepting_def holding_beach_def kept_at_def)
  ultimately show ?thesis
    using caldav_hold_comes_back[of fastmail beach_day accepting holding_beach no_paths] c path by auto
qed

text \<open>
  A hold deleted on a CalDAV server stays on the watch list. Whatever error the server answers the daemon
  with, \<open>GetHold\<close> does not report that the hold is gone: each pass fails, keeps the watch as it is and
  writes nothing.
\<close>

theorem caldav_deleted_hold_stays_watched:
  assumes "ld (wi_workflow item) = Inr k" and "\<not> wi_done item" and "dv_get (dv (w_tick w)) (wi_hold_id item) = Inl e"
  shows "settle (on_caldav p dv st env) item (advance_run (on_caldav p dv st env) ld item w) = (Some item, tick w)
    \<and> (\<exists>x. advance_run (on_caldav p dv st env) ld item w = (PollFailed, item, Some x, tick w) \<and> errors_is x ErrCalDAV)"
  using assms
  by (simp add: advance_run_def prov_get_def on_caldav_def caldav_get_def caldav_error_def settle_def ErrNotFound_def ErrCalDAV_def)

theorem caldav_deleted_hold_stays_watched_witness:
  "settle (on_caldav fastmail (\<lambda>n. keeps_nothing) (\<lambda>n. no_paths) quiet_env) chain_item
     (advance_run (on_caldav fastmail (\<lambda>n. keeps_nothing) (\<lambda>n. no_paths) quiet_env) (\<lambda>n. Inr chain) chain_item empty_world)
   = (Some chain_item, tick empty_world)"
proof -
  have "\<not> wi_done chain_item" by code_simp
  from caldav_deleted_hold_stays_watched[of "\<lambda>n. Inr chain" chain_item chain "\<lambda>n. keeps_nothing" empty_world
      _ fastmail "\<lambda>n. no_paths" quiet_env, OF _ this]
  show ?thesis by (simp add: keeps_nothing_def)
qed

end
