(* ===== verification/Provider_Setup.thy ===== *)
theory Provider_Setup
  imports Google_Sign_In Caldav Slack_Link
begin

text \<open>
  Which calendar a command talks to and as whom (\<open>cmd/provider.go\<close>, \<open>cmd/googleclient.go\<close>): each factory reads the
  environment and ends with a provider and where its access token comes from. Together with the linkers of
  \<open>Slack_Link\<close> this decides whose calendar a Slack command changes.
\<close>

section \<open>The factories\<close>

datatype access =
    Given_Token string
  | Device_Sign_In ms_auth store_choice
  | Loopback_Sign_In google_auth store_choice

datatype 'p provider_setup =
    Graph_Setup access string
  | Google_Setup access string
  | Caldav_Setup "'p caldav"

record 'p setup_out =
  so_getenv :: "string \<Rightarrow> string"
  so_aes :: "string \<Rightarrow> aead"
  so_config_dir :: "string result"
  so_keychain :: bool
  so_builtin :: "string \<times> string"
  so_lib :: "'p ical_lib"
  so_location :: "string \<Rightarrow> location option"
  so_client :: "string \<Rightarrow> error option"
  so_mac :: bool
  so_status :: "string \<Rightarrow> statuses result"

definition open_store :: "'p setup_out \<Rightarrow> string \<Rightarrow> store_choice result" where
  "open_store so name = new_store (so_aes so) (so_getenv so) (so_config_dir so) (so_keychain so) name"

text \<open>\<open>None\<close> of a constructor is its panic, which the checks before it rule out.\<close>

definition new_graph_provider :: "'p setup_out \<Rightarrow> string \<Rightarrow> 'p provider_setup result" where
  "new_graph_provider so tz =
     (let tok = so_getenv so ''VAMOOSE_GRAPH_ACCESS_TOKEN''; client = so_getenv so ''VAMOOSE_CLIENT_ID'';
          tenant = (if so_getenv so ''VAMOOSE_TENANT'' = [] then ''organizations'' else so_getenv so ''VAMOOSE_TENANT'')
      in if tok \<noteq> [] then Inr (Graph_Setup (Given_Token tok) tz)
         else if client = [] then Inl (Errorf ''VAMOOSE_CLIENT_ID not set: register an Entra app and export its client id'' [])
         else case open_store so ''graph'' of
           Inl e \<Rightarrow> Inl (Errorf ''token store'' [e])
         | Inr st \<Rightarrow>
             (case new_ms_auth tenant client [] of
                None \<Rightarrow> Inl (Errorf ''auth.NewAuthenticator: tenant and clientID required'' [])
              | Some a \<Rightarrow> Inr (Graph_Setup (Device_Sign_In a st) tz)))"

definition google_client_creds :: "(string \<Rightarrow> string) \<Rightarrow> string \<times> string \<Rightarrow> (string \<times> string) option" where
  "google_client_creds getenv builtin =
     (let i = getenv ''VAMOOSE_GOOGLE_CLIENT_ID''; s = getenv ''VAMOOSE_GOOGLE_CLIENT_SECRET'';
          complete = (\<lambda>c. if fst c \<noteq> [] \<and> snd c \<noteq> [] then Some c else None)
      in if i \<noteq> [] \<or> s \<noteq> [] then complete (i, s) else complete builtin)"

definition new_google_provider :: "'p setup_out \<Rightarrow> string \<Rightarrow> 'p provider_setup result" where
  "new_google_provider so tz =
     (let tok = so_getenv so ''VAMOOSE_GOOGLE_ACCESS_TOKEN'' in
      if tok \<noteq> [] then Inr (Google_Setup (Given_Token tok) tz)
      else case google_client_creds (so_getenv so) (so_builtin so) of
        None \<Rightarrow> Inl (Errorf ''no Google client configured: run 'vamoose login', or set VAMOOSE_GOOGLE_CLIENT_ID and VAMOOSE_GOOGLE_CLIENT_SECRET'' [])
      | Some (i, s) \<Rightarrow>
          (case open_store so ''google'' of
             Inl e \<Rightarrow> Inl (Errorf ''token store'' [e])
           | Inr st \<Rightarrow>
               (case new_google_auth i s of
                  None \<Rightarrow> Inl (Errorf ''googleauth.NewAuthenticator: clientID and clientSecret required'' [])
                | Some g \<Rightarrow> Inr (Google_Setup (Loopback_Sign_In g st) tz))))"

definition open_caldav :: "'p setup_out \<Rightarrow> string \<Rightarrow> string \<Rightarrow> string \<Rightarrow> string \<Rightarrow> string \<Rightarrow> bool \<Rightarrow> 'p provider_setup result" where
  "open_caldav so tz url user password name helper =
     (case new_caldav (so_lib so) (so_location so) (so_client so) url user password tz name
         (if helper then Some (so_status so) else None) of
        Inl e \<Rightarrow> Inl e | Inr p \<Rightarrow> Inr (Caldav_Setup p))"

definition new_icloud_provider :: "'p setup_out \<Rightarrow> string \<Rightarrow> 'p provider_setup result" where
  "new_icloud_provider so tz =
     (let user = so_getenv so ''VAMOOSE_ICLOUD_USERNAME''; pass = so_getenv so ''VAMOOSE_ICLOUD_APP_PASSWORD'' in
      if user = [] then Inl (Errorf ''VAMOOSE_ICLOUD_USERNAME not set: your Apple ID email'' [])
      else if pass = [] then Inl (Errorf ''VAMOOSE_ICLOUD_APP_PASSWORD not set: create an app-specific password at appleid.apple.com'' [])
      else open_caldav so tz ''https://caldav.icloud.com'' user pass (so_getenv so ''VAMOOSE_ICLOUD_CALENDAR'') (so_mac so))"

definition new_caldav_provider :: "'p setup_out \<Rightarrow> string \<Rightarrow> 'p provider_setup result" where
  "new_caldav_provider so tz =
     (let url = so_getenv so ''VAMOOSE_CALDAV_URL''; user = so_getenv so ''VAMOOSE_CALDAV_USERNAME'';
          pass = so_getenv so ''VAMOOSE_CALDAV_PASSWORD''
      in if url = [] then Inl (Errorf ''VAMOOSE_CALDAV_URL not set: your CalDAV server URL, such as https://caldav.fastmail.com'' [])
         else if user = [] then Inl (Errorf ''VAMOOSE_CALDAV_USERNAME not set: your CalDAV account username'' [])
         else if pass = [] then Inl (Errorf ''VAMOOSE_CALDAV_PASSWORD not set: your CalDAV account password or app-specific password'' [])
         else open_caldav so tz url user pass (so_getenv so ''VAMOOSE_CALDAV_CALENDAR'') False)"

text \<open>\<open>newRegistry\<close>; the names are distinct, so no registration panics.\<close>

definition builtin_registry :: "'p setup_out \<Rightarrow> (string \<Rightarrow> 'p provider_setup result) Calendar.registry result" where
  "builtin_registry so =
     foldl (\<lambda>r (n, f). case r of Inl e \<Rightarrow> Inl e | Inr r \<Rightarrow> Calendar.register r n (Some (f so))) (Inr Calendar.new_registry)
       [(''graph'', new_graph_provider), (''google'', new_google_provider), (''icloud'', new_icloud_provider),
        (''caldav'', new_caldav_provider)]"

definition new_provider :: "'p setup_out \<Rightarrow> string \<Rightarrow> string \<Rightarrow> 'p provider_setup result" where
  "new_provider so name tz = (case builtin_registry so of Inl e \<Rightarrow> Inl e | Inr r \<Rightarrow> build r name tz)"

lemma builtin_registered:
  "builtin_registry so = Inr [(''caldav'', new_caldav_provider so), (''icloud'', new_icloud_provider so),
     (''google'', new_google_provider so), (''graph'', new_graph_provider so)]"
  by (simp add: builtin_registry_def Calendar.register_def Calendar.new_registry_def)

lemma new_provider_names:
  "new_provider so ''graph'' tz = new_graph_provider so tz" "new_provider so ''google'' tz = new_google_provider so tz"
  "new_provider so ''icloud'' tz = new_icloud_provider so tz" "new_provider so ''caldav'' tz = new_caldav_provider so tz"
  by (simp_all add: new_provider_def builtin_registered build_def)

section \<open>The environment of a child\<close>

definition child_getenv :: "string list \<Rightarrow> string \<Rightarrow> string" where
  "child_getenv vars k = (case child_env vars k of None \<Rightarrow> [] | Some v \<Rightarrow> v)"

text \<open>What a linker takes of a refreshed token.\<close>

definition access_of :: "token result \<Rightarrow> string result" where
  "access_of r = (case r of Inl e \<Rightarrow> Inl e | Inr tok \<Rightarrow> Inr (tk_access tok))"

definition server_keys :: "string list" where
  "server_keys = [''VAMOOSE_CLIENT_ID'', ''VAMOOSE_TENANT'', key_env]"

lemma child_env_append:
  "child_env (xs @ ys) k = (case child_env ys k of None \<Rightarrow> child_env xs k | Some v \<Rightarrow> Some v)"
  by (simp add: child_env_def find_append split: option.splits)

text \<open>The files of the user do not touch what selects a provider.\<close>

lemma files_env_other:
  assumes "k \<in> set per_user_env_keys \<union> set server_keys"
  shows "child_env (slack_user_files_env dir team user) k = None"
proof -
  have "list_all (\<lambda>k. \<not> has_prefix ''VAMOOSE_WATCH_FILE'' k \<and> \<not> has_prefix ''VAMOOSE_AUDIT_FILE'' k) (per_user_env_keys @ server_keys)"
    by code_simp
  with assms have "\<not> has_prefix ''VAMOOSE_WATCH_FILE'' k" "\<not> has_prefix ''VAMOOSE_AUDIT_FILE'' k" by (auto simp: list_all_iff)
  then show ?thesis using assms
    by (auto simp: child_env_def slack_user_files_env_def per_user_env_keys_def server_keys_def key_env_def split: sum.splits)
qed

lemma child_reads:
  assumes "k \<in> set per_user_env_keys" and "inject \<noteq> []"
  shows "child_getenv (merge_env base (inject @ slack_user_files_env dir team user)) k
    = (case child_env inject k of None \<Rightarrow> [] | Some v \<Rightarrow> v)"
  using merged_credentials[of "inject @ slack_user_files_env dir team user" k base] assms files_env_other[of k dir team user]
  by (simp add: child_getenv_def child_env_append)

lemma child_inherits:
  assumes "k \<in> set server_keys" and "child_env inject k = None"
  shows "child_getenv (merge_env base (inject @ slack_user_files_env dir team user)) k = child_getenv base k"
proof -
  have keys: "list_all (\<lambda>k. CHR ''='' \<notin> set k \<and> list_all (\<lambda>u. \<not> has_prefix (k @ ''='') (u @ ''='')) per_user_env_keys) server_keys"
    by code_simp
  then have "CHR ''='' \<notin> set k" "\<And>u. u \<in> set per_user_env_keys \<Longrightarrow> \<not> has_prefix (k @ ''='') (u @ ''='')"
    using assms(1) by (auto simp: list_all_iff)
  moreover have "child_env (inject @ slack_user_files_env dir team user) k = None"
    using assms files_env_other[of k dir team user] by (simp add: child_env_append)
  ultimately show ?thesis using merged_others[of k] by (simp add: child_getenv_def)
qed

lemma user_keys:
  "''VAMOOSE_PROVIDER'' \<in> set per_user_env_keys" "''VAMOOSE_GOOGLE_ACCESS_TOKEN'' \<in> set per_user_env_keys"
  "''VAMOOSE_GRAPH_ACCESS_TOKEN'' \<in> set per_user_env_keys" "''VAMOOSE_ICLOUD_USERNAME'' \<in> set per_user_env_keys"
  "''VAMOOSE_ICLOUD_APP_PASSWORD'' \<in> set per_user_env_keys" "''VAMOOSE_ICLOUD_CALENDAR'' \<in> set per_user_env_keys"
  by code_simp+

section \<open>What the theory establishes\<close>




definition server_vars :: "string list" where
  "server_vars = [''PATH=/bin'', ''VAMOOSE_PROVIDER=graph'', ''VAMOOSE_CLIENT_ID=c1'', ''VAMOOSE_ICLOUD_USERNAME=bot@icloud.com'']"

definition machine :: "string list \<Rightarrow> table setup_out" where
  "machine vars = \<lparr>so_getenv = child_getenv vars, so_aes = (\<lambda>key. \<lparr>nonce_size = 0, gcm_seal = \<lambda>n p. p, gcm_open = \<lambda>n c. Some c\<rparr>),
     so_config_dir = Inr ''/home/bot/.config'', so_keychain = False, so_builtin = ([], []), so_lib = table_lib,
     so_location = \<lambda>z. None, so_client = \<lambda>u. None, so_mac = False, so_status = \<lambda>u. Inl (Sentinel ''none'')\<rparr>"


text \<open>
  C32. A linked Outlook user can become the server. The refresh of the Microsoft authenticator accepts a reply
  without an access token, whatever its status, as long as it names no error. The link then gives the
  command an empty token, which the factory takes for none: when the server's own environment has no access token
  either, the subprocess uses the sign-in the server itself would use, so the command acts on the calendar of
  whoever runs the server.
\<close>

theorem empty_graph_token_acts_as_server:
  assumes "call (form_request (endpoint a ''token'') (refresh_form a (ul_refresh_token l))) = Inr r"
    and "unmarshal as_token_reply (hs_body r) = Inr tr" and "tr_error tr = []" and "tr_access tr = []"
    and "refresh = (\<lambda>p rt. access_of (ms_refresh a call t rt))"
    and "child_getenv base ''VAMOOSE_GRAPH_ACCESS_TOKEN'' = []"
  shows "\<exists>inject. linker_run_env refresh ''graph'' l = Inr inject \<and>
    (\<forall>so. new_provider (so\<lparr>so_getenv := child_getenv (merge_env base (inject @ slack_user_files_env dir team user))\<rparr>) ''graph'' tz
      = new_provider (so\<lparr>so_getenv := child_getenv base\<rparr>) ''graph'' tz)"
proof (intro exI conjI allI)
  let ?inj = "[''VAMOOSE_PROVIDER=graph'', ''VAMOOSE_GRAPH_ACCESS_TOKEN='']"
  have "ms_refresh a call t (ul_refresh_token l) = Inr ((token_from t tr)\<lparr>tk_refresh :=
      if tr_refresh tr = [] then ul_refresh_token l else tr_refresh tr\<rparr>)"
    using assms(1-3) by (simp add: ms_refresh_def post_form_def token_from_def Let_def)
  then show "linker_run_env refresh ''graph'' l = Inr ?inj"
    using assms(4) by (simp add: assms(5) linker_run_env_def graph_run_env_def access_of_def token_from_def)
  fix so :: "'p setup_out"
  let ?env = "child_getenv (merge_env base (?inj @ slack_user_files_env dir team user))"
  have "child_env ?inj ''VAMOOSE_GRAPH_ACCESS_TOKEN'' = Some []" by (simp add: child_env_def)
  then have tok: "?env ''VAMOOSE_GRAPH_ACCESS_TOKEN'' = []" using child_reads[OF user_keys(3), of ?inj base dir team user] by simp
  have "?env k = child_getenv base k" if k: "k \<in> set server_keys" for k
  proof (rule child_inherits[OF k])
    show "child_env ?inj k = None" using k by (auto simp: server_keys_def key_env_def child_env_def)
  qed
  then have keep: "?env ''VAMOOSE_CLIENT_ID'' = child_getenv base ''VAMOOSE_CLIENT_ID''" "?env ''VAMOOSE_TENANT'' = child_getenv base ''VAMOOSE_TENANT''"
    "?env key_env = child_getenv base key_env" by (simp_all add: server_keys_def)
  show "new_provider (so\<lparr>so_getenv := ?env\<rparr>) ''graph'' tz = new_provider (so\<lparr>so_getenv := child_getenv base\<rparr>) ''graph'' tz"
    by (cases so) (simp only: new_provider_names new_graph_provider_def open_store_def new_store_def secret_from_env_def
        setup_out.simps tok keep assms(6))
qed

definition answers_nothing :: http_call where
  "answers_nothing q = Inr \<lparr>hs_status = 503, hs_body = ''{}'', hs_location = []\<rparr>"

theorem empty_graph_token_acts_as_server_witness:
  "\<exists>inject. linker_run_env (\<lambda>p rt. access_of (ms_refresh contoso answers_nothing epoch rt)) ''graph'' zero_link = Inr inject \<and>
     new_provider (machine (merge_env server_vars (inject @ slack_user_files_env (Inr ''/d'') ''T1'' ''U1''))) ''graph'' ''UTC''
       = new_provider (machine server_vars) ''graph'' ''UTC''"
proof -
  have "unmarshal as_token_reply ''{}'' = Inr zero_reply" "child_getenv server_vars ''VAMOOSE_GRAPH_ACCESS_TOKEN'' = []" by code_simp+
  from empty_graph_token_acts_as_server[of answers_nothing contoso zero_link, OF _ _ _ _ refl this(2), of _ zero_reply epoch "Inr ''/d''" "''T1''" "''U1''" "''UTC''"]
    this(1)
  obtain inject where "linker_run_env (\<lambda>p rt. access_of (ms_refresh contoso answers_nothing epoch rt)) ''graph'' zero_link = Inr inject"
    "\<And>so :: table setup_out. new_provider (so\<lparr>so_getenv := child_getenv (merge_env server_vars (inject @ slack_user_files_env (Inr ''/d'') ''T1'' ''U1''))\<rparr>) ''graph'' ''UTC''
      = new_provider (so\<lparr>so_getenv := child_getenv server_vars\<rparr>) ''graph'' ''UTC''"
    by (auto simp: answers_nothing_def zero_reply_def)
  moreover have "machine vars = (machine [])\<lparr>so_getenv := child_getenv vars\<rparr>" for vars by (simp add: machine_def)
  ultimately show ?thesis by metis
qed

end
