(* ===== verification/Go_Origin.thy ===== *)
theory Go_Origin
  imports Go_Url
begin

text \<open>
  Hosts: \<open>net.SplitHostPort\<close>, and the host name \<open>url.Parse\<close> reads from an absolute reference, as
  far as the guard of the local dashboard uses them. \<open>None\<close> is the error.
\<close>

section \<open>Cutting at the last separator\<close>

definition cut_last :: "char \<Rightarrow> string \<Rightarrow> (string \<times> string) option" where
  "cut_last c s = (case cut_on c (rev s) of (a, b, found) \<Rightarrow> if found then Some (rev b, rev a) else None)"

lemma cut_last_append: "c \<notin> set b \<Longrightarrow> cut_last c (a @ c # b) = Some (a, b)"
  by (simp add: cut_last_def)

lemma cut_last_none: "c \<notin> set s \<Longrightarrow> cut_last c s = None"
  by (simp add: cut_last_def cut_on_no_sep)

section \<open>A host with its port\<close>

definition split_host_port :: "string \<Rightarrow> (string \<times> string) option" where
  "split_host_port s =
     (case cut_last (CHR '':'') s of
        None \<Rightarrow> None
      | Some (h, p) \<Rightarrow>
          (if has_prefix s ''['' then
             (case cut_on (CHR '']'') s of (a, rest, found) \<Rightarrow>
                if found \<and> h = a @ '']'' \<and> CHR ''['' \<notin> set (tl s) \<and> CHR '']'' \<notin> set rest then Some (tl a, p) else None)
           else if CHR '':'' \<in> set h \<or> CHR ''['' \<in> set s \<or> CHR '']'' \<in> set s then None
           else Some (h, p)))"

section \<open>The host of a URL\<close>

definition should_escape_host :: "char \<Rightarrow> bool" where
  "should_escape_host c \<longleftrightarrow> \<not> (unreserved c \<or> c \<in> set (''!$&'' @ [CHR 0x27] @ ''()*+,;=:[]<>'' @ [CHR 0x22]))"

fun unescape_host :: "(char \<Rightarrow> bool) \<Rightarrow> string \<Rightarrow> string option" where
  "unescape_host escaped_ok [] = Some []"
| "unescape_host escaped_ok (c # s) =
     (if c = CHR 0x25 then
        (case s of
           a # b # r \<Rightarrow>
             (case (hex_digit_value a, hex_digit_value b) of
                (Some x, Some y) \<Rightarrow>
                  (if escaped_ok (char_of (x * 16 + y)) then map_option (Cons (char_of (x * 16 + y))) (unescape_host escaped_ok r)
                   else None)
              | _ \<Rightarrow> None)
         | _ \<Rightarrow> None)
      else if byte c < 128 \<and> should_escape_host c then None
      else map_option (Cons c) (unescape_host escaped_ok s))"

text \<open>Only bytes beyond ASCII and the percent sign may be escaped in a host, more in a zone.\<close>

definition host_text :: "string \<Rightarrow> string option" where
  "host_text = unescape_host (\<lambda>c. 128 \<le> byte c \<or> c = CHR 0x25)"

definition zone_text :: "string \<Rightarrow> string option" where
  "zone_text = unescape_host (\<lambda>c. c = CHR 0x25 \<or> c = CHR 0x20 \<or> \<not> should_escape_host c)"

definition valid_optional_port :: "string \<Rightarrow> bool" where
  "valid_optional_port p \<longleftrightarrow> p = [] \<or> (hd p = CHR '':'' \<and> list_all is_digit (tl p))"

fun cut_zone :: "string \<Rightarrow> (string \<times> string) option" where
  "cut_zone [] = None"
| "cut_zone (c # s) = (if has_prefix (c # s) [CHR 0x25, CHR ''2'', CHR ''5''] then Some ([], c # s)
     else map_option (\<lambda>(a, b). (c # a, b)) (cut_zone s))"

definition parse_host :: "string \<Rightarrow> string option" where
  "parse_host host =
     (if has_prefix host ''['' then
        (case cut_last (CHR '']'') host of
           None \<Rightarrow> None
         | Some (a, port) \<Rightarrow>
             (if \<not> valid_optional_port port then None
              else case cut_zone a of
                None \<Rightarrow> host_text host
              | Some (h, z) \<Rightarrow>
                  (case (host_text h, zone_text z, host_text ('']'' @ port)) of
                     (Some x, Some y, Some p) \<Rightarrow> Some (x @ y @ p) | _ \<Rightarrow> None)))
      else (case cut_last (CHR '':'') host of
              Some (a, p) \<Rightarrow> (if valid_optional_port ('':'' @ p) then host_text host else None)
            | None \<Rightarrow> host_text host))"

definition userinfo_char :: "char \<Rightarrow> bool" where
  "userinfo_char c \<longleftrightarrow> unreserved c \<or> c \<in> set ('':!$&'' @ [CHR 0x27] @ ''()*+,;=%@'')"

fun valid_escapes :: "string \<Rightarrow> bool" where
  "valid_escapes [] = True"
| "valid_escapes (c # s) =
     (if c = CHR 0x25 then (case s of a # b # r \<Rightarrow> hex_digit_value a \<noteq> None \<and> hex_digit_value b \<noteq> None \<and> valid_escapes r | _ \<Rightarrow> False)
      else valid_escapes s)"

definition parse_authority :: "string \<Rightarrow> string option" where
  "parse_authority s =
     (case cut_last (CHR ''@'') s of
        None \<Rightarrow> parse_host s
      | Some (user, host) \<Rightarrow>
          (if parse_host host \<noteq> None \<and> list_all userinfo_char user \<and> valid_escapes user then parse_host host else None))"

text \<open>The scheme, if the reference has one; a colon at the start is an error.\<close>

datatype scheme = No_Scheme | Missing_Scheme | Scheme string string

definition scheme_letter :: "char \<Rightarrow> bool" where
  "scheme_letter c \<longleftrightarrow> (CHR ''a'' \<le> c \<and> c \<le> CHR ''z'') \<or> (CHR ''A'' \<le> c \<and> c \<le> CHR ''Z'')"

fun get_scheme :: "string \<Rightarrow> string \<Rightarrow> scheme" where
  "get_scheme acc [] = No_Scheme"
| "get_scheme acc (c # s) =
     (if scheme_letter c then get_scheme (acc @ [c]) s
      else if is_digit c \<or> c \<in> set ''+-.'' then (if acc = [] then No_Scheme else get_scheme (acc @ [c]) s)
      else if c = CHR '':'' then (if acc = [] then Missing_Scheme else Scheme acc s)
      else No_Scheme)"

text \<open>What follows the scheme: an authority after two slashes, then a path; otherwise there is no host.\<close>

definition rest_host :: "string \<Rightarrow> string \<Rightarrow> string option" where
  "rest_host sch whole =
     (let s = fst (cut_on (CHR 0x3F) whole) in
      if \<not> has_prefix s ''/'' \<and> sch \<noteq> [] then Some []
      else if \<not> has_prefix s ''/'' \<and> CHR '':'' \<in> set (fst (cut_on (CHR ''/'') s)) then None
      else if (sch \<noteq> [] \<or> \<not> has_prefix s ''///'') \<and> has_prefix s ''//'' then
        (case cut_on (CHR ''/'') (drop 2 s) of (authority, path, found) \<Rightarrow>
           if valid_escapes path then parse_authority authority else None)
      else if valid_escapes s then Some [] else None)"

definition strip_port :: "string \<Rightarrow> string" where
  "strip_port s =
     (let h = (case cut_last (CHR '':'') s of Some (a, p) \<Rightarrow> (if valid_optional_port ('':'' @ p) then a else s) | None \<Rightarrow> s) in
      if has_prefix h ''['' \<and> has_suffix h '']'' then butlast (tl h) else h)"

definition url_hostname :: "string \<Rightarrow> string option" where
  "url_hostname s =
     (case cut_on (CHR 0x23) s of (u, frag, found) \<Rightarrow>
        if list_ex (\<lambda>c. byte c < 32 \<or> byte c = 127) u then None
        else if u = ''*'' then (if valid_escapes frag then Some [] else None)
        else case (case get_scheme [] u of
            No_Scheme \<Rightarrow> rest_host [] u | Missing_Scheme \<Rightarrow> None | Scheme sch rest \<Rightarrow> rest_host sch rest) of
          None \<Rightarrow> None
        | Some h \<Rightarrow> if valid_escapes frag then Some (strip_port h) else None)"

section \<open>The origin a browser sends\<close>

text \<open>A host name, with a port or none.\<close>

definition plain_host :: "string \<Rightarrow> bool" where
  "plain_host h \<longleftrightarrow> h \<noteq> [] \<and> list_all unreserved h"

definition port_text :: "string \<Rightarrow> bool" where
  "port_text p \<longleftrightarrow> p = [] \<or> (\<exists>d. p = '':'' @ d \<and> list_all is_digit d)"

definition scheme_text :: "string \<Rightarrow> bool" where
  "scheme_text s \<longleftrightarrow> s \<noteq> [] \<and> list_all scheme_letter s"

lemma url_marks:
  "list_all (\<lambda>c. \<not> unreserved c) (''/:@[]#*'' @ [CHR 0x25, CHR 0x3F])" "\<not> unreserved (CHR 0x7F)"
  by code_simp+

lemma unreserved_plain:
  assumes "unreserved c"
  shows "c \<notin> set (''/:@[]#*'' @ [CHR 0x25, CHR 0x3F])" "32 \<le> byte c" "byte c \<noteq> 127" "\<not> should_escape_host c"
proof -
  show "c \<notin> set (''/:@[]#*'' @ [CHR 0x25, CHR 0x3F])" using assms url_marks(1) unfolding list_all_iff by blast
  show "32 \<le> byte c" using assms by (auto simp: unreserved_def is_digit_def less_eq_char_def byte_def)
  show "byte c \<noteq> 127"
  proof
    assume "byte c = 127"
    then have "byte c = byte (CHR 0x7F)" by (simp add: byte_def)
    then have "c = CHR 0x7F" by simp
    then show False using assms url_marks(2) by simp
  qed
  show "\<not> should_escape_host c" using assms by (simp add: should_escape_host_def)
qed

lemma plain_unreserved: "is_digit c \<or> scheme_letter c \<Longrightarrow> unreserved c"
  by (auto simp: unreserved_def scheme_letter_def)

lemma unescape_plain:
  "list_all (\<lambda>c. c \<noteq> CHR 0x25 \<and> \<not> should_escape_host c) s \<Longrightarrow> unescape_host f s = Some s"
  by (induction s) auto

lemma get_scheme_text: "list_all scheme_letter s \<Longrightarrow> acc @ s \<noteq> [] \<Longrightarrow> get_scheme acc (s @ CHR '':'' # r) = Scheme (acc @ s) r"
proof (induction s arbitrary: acc)
  case Nil
  have "\<not> scheme_letter (CHR '':'')" "\<not> is_digit (CHR '':'')" by code_simp+
  then show ?case using Nil by simp
qed simp

lemma unreserved_not: "list_all unreserved s \<Longrightarrow> c \<in> set (''/:@[]#*'' @ [CHR 0x25, CHR 0x3F]) \<Longrightarrow> c \<notin> set s"
  using unreserved_plain(1) unfolding list_all_iff by blast

lemma host_port_text:
  assumes "plain_host h" and "port_text p"
  shows "parse_host (h @ p) = Some (h @ p)" and "strip_port (h @ p) = h"
proof -
  have h: "h \<noteq> []" "list_all unreserved h" using assms(1) by (simp_all add: plain_host_def)
  have colon: "CHR '':'' \<notin> set h" "CHR ''['' \<notin> set h" using unreserved_not[OF h(2)] by simp_all
  then have open_bracket: "\<not> has_prefix (h @ q) ''[''" for q using h(1) by (cases h) auto
  have plain: "list_all (\<lambda>c. c \<noteq> CHR 0x25 \<and> \<not> should_escape_host c) h"
    using unreserved_plain h(2) unfolding list_all_iff by fastforce
  consider "p = []" | d where "p = CHR '':'' # d" "list_all is_digit d" using assms(2) by (auto simp: port_text_def)
  then have "parse_host (h @ p) = Some (h @ p) \<and> strip_port (h @ p) = h"
  proof cases
    case 1
    then show ?thesis using open_bracket[of "[]"] cut_last_none[OF colon(1)] unescape_plain[OF plain]
      by (simp add: parse_host_def host_text_def strip_port_def)
  next
    case 2
    have digits: "list_all unreserved d" using 2(2) plain_unreserved unfolding list_all_iff by blast
    then have "CHR '':'' \<notin> set d" using unreserved_not by simp
    from cut_last_append[OF this, of h] have cut: "cut_last (CHR '':'') (h @ p) = Some (h, d)" using 2(1) by simp
    have "\<not> should_escape_host (CHR '':'')" by code_simp
    then have "list_all (\<lambda>c. c \<noteq> CHR 0x25 \<and> \<not> should_escape_host c) (h @ p)"
      using plain digits unreserved_plain 2(1) unfolding list_all_iff by fastforce
    then show ?thesis using open_bracket[of p] open_bracket[of "[]"] cut 2 unescape_plain[of "h @ p"]
      by (simp add: parse_host_def host_text_def strip_port_def valid_optional_port_def)
  qed
  then show "parse_host (h @ p) = Some (h @ p)" "strip_port (h @ p) = h" by simp_all
qed

text \<open>
  What a browser can put in an origin: any scheme, and a host that is a name (with the marks a name may have beside
  letters, digits, \<open>-\<close>, \<open>_\<close>, \<open>.\<close> and \<open>~\<close>, but no percent escape) or an IPv6 address in brackets.
\<close>

definition web_scheme :: "string \<Rightarrow> bool" where
  "web_scheme s \<longleftrightarrow> s \<noteq> [] \<and> scheme_letter (hd s) \<and> list_all (\<lambda>c. scheme_letter c \<or> is_digit c \<or> c \<in> set ''+-.'') s"

definition name_mark :: "char \<Rightarrow> bool" where
  "name_mark c \<longleftrightarrow> unreserved c \<or> c \<in> set (''!$&'' @ [CHR 0x27] @ ''()*+,;='')"

definition host_name :: "string \<Rightarrow> bool" where
  "host_name h \<longleftrightarrow> h \<noteq> [] \<and> list_all name_mark h"

definition host_address :: "string \<Rightarrow> bool" where
  "host_address h \<longleftrightarrow> h = CHR ''['' # butlast (tl h) @ '']'' \<and> CHR '':'' \<in> set h
     \<and> list_all (\<lambda>c. unreserved c \<or> c = CHR '':'') (butlast (tl h))"

definition web_host :: "string \<Rightarrow> bool" where
  "web_host h \<longleftrightarrow> host_name h \<or> host_address h"

definition bare_host :: "string \<Rightarrow> string" where
  "bare_host h = (if host_address h then butlast (tl h) else h)"

lemma name_mark_plain:
  assumes "name_mark c"
  shows "c \<notin> set (''/:@[]#'' @ [CHR 0x25, CHR 0x3F])" "32 \<le> byte c" "byte c \<noteq> 127" "\<not> should_escape_host c"
proof -
  let ?m = "''!$&'' @ [CHR 0x27] @ ''()*+,;=''"
  have m: "list_all (\<lambda>c. c \<notin> set (''/:@[]#'' @ [CHR 0x25, CHR 0x3F]) \<and> 32 \<le> byte c \<and> byte c \<noteq> 127 \<and> \<not> should_escape_host c) ?m"
    by code_simp
  have "c \<notin> set (''/:@[]#'' @ [CHR 0x25, CHR 0x3F]) \<and> 32 \<le> byte c \<and> byte c \<noteq> 127 \<and> \<not> should_escape_host c"
  proof (cases "unreserved c")
    case True
    then show ?thesis using unreserved_plain[OF True] by auto
  next
    case False
    then have "c \<in> set ?m" using assms unfolding name_mark_def by blast
    then show ?thesis using m unfolding list_all_iff by blast
  qed
  then show "c \<notin> set (''/:@[]#'' @ [CHR 0x25, CHR 0x3F])" "32 \<le> byte c" "byte c \<noteq> 127" "\<not> should_escape_host c"
    by simp_all
qed

lemma unreserved_mark: "unreserved c \<Longrightarrow> name_mark c"
  by (simp add: name_mark_def)

lemma scheme_mark:
  assumes "scheme_letter c \<or> is_digit c \<or> c \<in> set ''+-.''"
  shows "name_mark c"
proof -
  have "list_all name_mark ''+-.''" by code_simp
  then show ?thesis using assms plain_unreserved[of c] unreserved_mark[of c] unfolding list_all_iff by blast
qed

lemma get_scheme_web:
  assumes "list_all (\<lambda>c. scheme_letter c \<or> is_digit c \<or> c \<in> set ''+-.'') s" and "acc \<noteq> []"
  shows "get_scheme acc (s @ CHR '':'' # r) = Scheme (acc @ s) r"
  using assms
proof (induction s arbitrary: acc)
  case Nil
  have "\<not> scheme_letter (CHR '':'')" "\<not> is_digit (CHR '':'')" by code_simp+
  then show ?case using Nil by simp
next
  case (Cons c s)
  then show ?case using Cons.IH[of "acc @ [c]"] by auto
qed

lemma web_scheme_read: "web_scheme s \<Longrightarrow> get_scheme [] (s @ CHR '':'' # r) = Scheme s r"
  using get_scheme_web[of "tl s" "[hd s]" r] by (cases s) (auto simp: web_scheme_def)

lemma cut_last_some: "cut_last c s = Some (a, b) \<Longrightarrow> s = a @ c # b \<and> c \<notin> set b"
proof -
  assume "cut_last c s = Some (a, b)"
  then have "cut_on c (rev s) = (rev b, rev a, True)" by (auto simp: cut_last_def split: prod.splits if_splits)
  from cut_on_found[OF this] show ?thesis by (metis append.assoc append_Cons append_Nil rev.simps(2) rev_append rev_swap set_rev)
qed

lemma address_text:
  assumes "host_address h"
  obtains a where "h = CHR ''['' # a @ '']''" "bare_host h = a" "CHR '':'' \<in> set a" "list_all (\<lambda>c. unreserved c \<or> c = CHR '':'') a"
proof -
  have h: "h = CHR ''['' # butlast (tl h) @ '']''" using assms unfolding host_address_def by blast
  have "set h \<subseteq> {CHR ''['', CHR '']''} \<union> set (butlast (tl h))" by (subst h) auto
  then have "CHR '':'' \<in> set (butlast (tl h))" using assms unfolding host_address_def by auto
  with h show thesis using that assms by (simp add: host_address_def bare_host_def)
qed

text \<open>A character of such a host, and what it is not.\<close>

lemma web_host_char:
  assumes "web_host h" and "c \<in> set h"
  shows "name_mark c \<or> c \<in> set '':[]''"
proof (cases "host_address h")
  case True
  then show ?thesis
  proof (rule address_text)
    fix a assume h: "h = CHR ''['' # a @ '']''" and a: "list_all (\<lambda>c. unreserved c \<or> c = CHR '':'') a"
    have "c = CHR ''['' \<or> c = CHR '']'' \<or> c \<in> set a" using assms(2) unfolding h by auto
    then show ?thesis using a unreserved_mark[of c] unfolding list_all_iff by fastforce
  qed
next
  case False
  then show ?thesis using assms by (auto simp: web_host_def host_name_def list_all_iff)
qed

lemma origin_char_plain:
  assumes "name_mark c \<or> c \<in> set '':[]''"
  shows "c \<notin> set (''/@#'' @ [CHR 0x25, CHR 0x3F])" "32 \<le> byte c" "byte c \<noteq> 127" "\<not> should_escape_host c"
proof -
  have m: "list_all (\<lambda>c. c \<notin> set (''/@#'' @ [CHR 0x25, CHR 0x3F]) \<and> 32 \<le> byte c \<and> byte c \<noteq> 127 \<and> \<not> should_escape_host c) '':[]''"
    by code_simp
  have "c \<notin> set (''/@#'' @ [CHR 0x25, CHR 0x3F]) \<and> 32 \<le> byte c \<and> byte c \<noteq> 127 \<and> \<not> should_escape_host c"
    using assms
  proof
    assume "c \<in> set '':[]''" then show ?thesis using m unfolding list_all_iff by blast
  qed (use name_mark_plain[of c] in auto)
  then show "c \<notin> set (''/@#'' @ [CHR 0x25, CHR 0x3F])" "32 \<le> byte c" "byte c \<noteq> 127" "\<not> should_escape_host c"
    by simp_all
qed

lemma port_char: "port_text p \<Longrightarrow> c \<in> set p \<Longrightarrow> c = CHR '':'' \<or> unreserved c"
  using plain_unreserved by (auto simp: port_text_def list_all_iff)

lemma web_authority_char:
  "web_host h \<Longrightarrow> port_text p \<Longrightarrow> c \<in> set (h @ p) \<Longrightarrow> name_mark c \<or> c \<in> set '':[]''"
  using web_host_char[of h c] port_char[of p c] unreserved_mark[of c] by fastforce

lemma cut_zone_plain: "CHR 0x25 \<notin> set s \<Longrightarrow> cut_zone s = None"
  by (induction s) auto

text \<open>The text before the port is the host, brackets and all.\<close>

lemma web_host_port:
  assumes "web_host h" and "port_text p"
  shows "parse_host (h @ p) = Some (h @ p)" and "strip_port (h @ p) = bare_host h"
proof -
  have plain: "unescape_host f (h @ p) = Some (h @ p)" for f
  proof (rule unescape_plain, unfold list_all_iff, rule ballI)
    fix c assume "c \<in> set (h @ p)"
    note c = web_authority_char[OF assms this]
    show "c \<noteq> CHR 0x25 \<and> \<not> should_escape_host c" using origin_char_plain(1)[OF c] origin_char_plain(4)[OF c] by auto
  qed
  have port: "valid_optional_port p" "CHR '']'' \<notin> set p"
    using assms(2) unreserved_plain(1)[of "CHR '']''"] port_char[OF assms(2)] by (auto simp: port_text_def valid_optional_port_def)
  have cutp: "cut_last (CHR '':'') (h @ CHR '':'' # d) = Some (h, d)" if "list_all is_digit d" for d
    using that unreserved_not[of d "CHR '':''"] plain_unreserved by (intro cut_last_append) (auto simp: list_all_iff)
  have "parse_host (h @ p) = Some (h @ p) \<and> strip_port (h @ p) = bare_host h"
  proof (cases "host_address h")
    case False
    then have h: "h \<noteq> []" "list_all name_mark h" "bare_host h = h" using assms(1) by (simp_all add: web_host_def host_name_def bare_host_def)
    then have marks: "CHR '':'' \<notin> set h" "CHR ''['' \<notin> set h" using name_mark_plain(1) unfolding list_all_iff by fastforce+
    then have nb: "\<not> has_prefix (h @ q) ''[''" for q using h(1) by (cases h) auto
    consider "p = []" | d where "p = CHR '':'' # d" "list_all is_digit d" using assms(2) by (auto simp: port_text_def)
    then show ?thesis
    proof cases
      case 1
      then show ?thesis using nb[of "[]"] cut_last_none[OF marks(1)] plain h(3) by (simp add: parse_host_def host_text_def strip_port_def)
    next
      case 2
      then show ?thesis using nb[of p] nb[of "[]"] cutp[OF 2(2)] plain h(3)
        by (simp add: parse_host_def host_text_def strip_port_def valid_optional_port_def)
    qed
  next
    case True
    then obtain a where h: "h = CHR ''['' # a @ '']''" "bare_host h = a" by (rule address_text) auto
    have "CHR 0x25 \<notin> set h" using origin_char_plain(1) web_host_char[OF assms(1)] by fastforce
    then have "cut_zone (CHR ''['' # a) = None" using h(1) by (intro cut_zone_plain) auto
    moreover have "cut_last (CHR '']'') (h @ p) = Some (CHR ''['' # a, p)"
      using cut_last_append[OF port(2), of "CHR ''['' # a"] h(1) by simp
    ultimately have "parse_host (h @ p) = Some (h @ p)" using port(1) plain h(1) by (simp add: parse_host_def host_text_def)
    moreover have "strip_port (h @ p) = a"
    proof -
      consider "p = []" | d where "p = CHR '':'' # d" "list_all is_digit d" using assms(2) by (auto simp: port_text_def)
      then show ?thesis
      proof cases
        case 1
        have "\<not> valid_optional_port (CHR '':'' # y)" if c: "cut_last (CHR '':'') h = Some (x, y)" for x y
        proof -
          have e: "CHR ''['' # a @ '']'' = x @ CHR '':'' # y" using cut_last_some[OF c] h(1) by simp
          have "last (CHR ''['' # a @ '']'') = last (x @ CHR '':'' # y)" using e by (rule arg_cong)
          then have l: "CHR '']'' = last (CHR '':'' # y)" by simp
          then have "y \<noteq> []" by auto
          then have "CHR '']'' \<in> set y" using l last_in_set[of y] by simp
          moreover have "\<not> is_digit (CHR '']'')" by code_simp
          ultimately show ?thesis by (auto simp: valid_optional_port_def list_all_iff)
        qed
        then show ?thesis using 1 h(1) by (cases "cut_last (CHR '':'') h") (auto simp: strip_port_def has_suffix_def)
      next
        case 2
        then show ?thesis using cutp[OF 2(2)] h(1) by (simp add: strip_port_def valid_optional_port_def has_suffix_def)
      qed
    qed
    ultimately show ?thesis using h(2) by simp
  qed
  then show "parse_host (h @ p) = Some (h @ p)" "strip_port (h @ p) = bare_host h" by simp_all
qed

text \<open>The host name of an origin is the one it names.\<close>

lemma origin_hostname:
  assumes "web_scheme sch" and "web_host h" and "port_text p"
  shows "url_hostname (sch @ ''://'' @ h @ p) = Some (bare_host h)"
proof -
  have sch: "sch \<noteq> []" "list_all name_mark sch"
    using assms(1) scheme_mark by (auto simp: web_scheme_def list_all_iff)
  have chars: "name_mark c \<or> c \<in> set '':[]''" if "c \<in> set sch \<or> c \<in> set (h @ p)" for c
    using that web_authority_char[OF assms(2,3), of c] sch(2) by (auto simp: list_all_iff)
  have absent: "c \<notin> set (h @ p)" "c \<notin> set sch" if "c \<in> set (''/@#'' @ [CHR 0x3F])" for c
    using chars[of c] origin_char_plain(1)[of c] that by auto
  let ?u = "sch @ CHR '':'' # ''//'' @ h @ p"
  have whole: "sch @ ''://'' @ h @ p = ?u" by simp
  have hash: "cut_on (CHR 0x23) ?u = (?u, [], False)"
    using absent[of "CHR 0x23"] by (intro cut_on_no_sep) auto
  have bytes: "32 \<le> byte c \<and> byte c \<noteq> 127" if "c \<in> set ?u" for c
  proof (cases "c = CHR ''/''")
    case False
    then show ?thesis using that origin_char_plain(2,3)[of c] chars[of c] by auto
  next
    case True
    have "32 \<le> byte (CHR ''/'') \<and> byte (CHR ''/'') \<noteq> 127" by code_simp
    then show ?thesis using True by simp
  qed
  then have ctl: "\<not> list_ex (\<lambda>c. byte c < 32 \<or> byte c = 127) ?u" unfolding list_ex_iff by (meson not_less)
  have star: "?u \<noteq> ''*''" using sch(1) by (cases sch) auto
  have scheme: "get_scheme [] ?u = Scheme sch (''//'' @ h @ p)" using web_scheme_read[OF assms(1)] by simp
  have query: "cut_on (CHR 0x3F) (''//'' @ h @ p) = (''//'' @ h @ p, [], False)"
    using absent(1)[of "CHR 0x3F"] by (intro cut_on_no_sep) auto
  have slash: "cut_on (CHR ''/'') (h @ p) = (h @ p, [], False)" using absent(1)[of "CHR ''/''"] by (intro cut_on_no_sep) auto
  have authority: "parse_authority (h @ p) = Some (h @ p)"
    using cut_last_none[of "CHR ''@''" "h @ p"] absent(1)[of "CHR ''@''"] web_host_port(1)[OF assms(2,3)] by (simp add: parse_authority_def)
  have "rest_host sch (''//'' @ h @ p) = Some (h @ p)"
    unfolding rest_host_def query Let_def fst_conv using sch(1) slash authority by simp
  then show ?thesis
    unfolding whole url_hostname_def hash prod.case if_not_P[OF ctl] if_not_P[OF star] scheme scheme.case
    using web_host_port(2)[OF assms(2,3)] by simp
qed

end
