(* ===== verification/Doctor.thy ===== *)
theory Doctor
  imports Provider_Setup Commands
begin

text \<open>
  The configuration report (\<open>cmd/doctor.go\<close>): the checks made from the environment, the report printed from
  them, and the live probe of the provider. The report is compared with what the factories of
  \<open>Provider_Setup\<close> require.
\<close>

section \<open>Checks\<close>

record doctor_check =
  ck_label :: string
  ck_ok :: bool
  ck_hint :: string
  ck_optional :: bool

definition needed :: "string \<Rightarrow> bool \<Rightarrow> string \<Rightarrow> doctor_check" where
  "needed label ok hint = \<lparr>ck_label = label, ck_ok = ok, ck_hint = hint, ck_optional = False\<rparr>"

definition informational :: "string \<Rightarrow> bool \<Rightarrow> string \<Rightarrow> doctor_check" where
  "informational label ok hint = \<lparr>ck_label = label, ck_ok = ok, ck_hint = hint, ck_optional = True\<rparr>"

definition provider_checks :: "(string \<Rightarrow> string) \<Rightarrow> string \<times> string \<Rightarrow> string \<Rightarrow> doctor_check list" where
  "provider_checks getenv builtin provider =
     (let given = (\<lambda>k. getenv k \<noteq> []) in
      if provider = ''graph'' then
        (if given ''VAMOOSE_GRAPH_ACCESS_TOKEN'' then [needed ''Graph access token set'' True []]
         else [needed ''VAMOOSE_CLIENT_ID (Entra app client id)'' (given ''VAMOOSE_CLIENT_ID'') ''register an Entra app and export its client id''])
      else if provider = ''google'' then
        (if given ''VAMOOSE_GOOGLE_ACCESS_TOKEN'' then [needed ''Google access token set'' True []]
         else case google_client_creds getenv builtin of
           Some c \<Rightarrow>
             (if given ''VAMOOSE_GOOGLE_CLIENT_ID'' then [needed ''Google OAuth client: your override (run 'vamoose login')'' True []]
              else [needed ''Google OAuth client: built-in (run 'vamoose login')'' True []])
         | None \<Rightarrow> [needed ''Google OAuth client'' False
             ''set VAMOOSE_GOOGLE_CLIENT_ID and VAMOOSE_GOOGLE_CLIENT_SECRET, or use a release build with a built-in client''])
      else if provider = ''icloud'' then
        [needed ''VAMOOSE_ICLOUD_USERNAME'' (given ''VAMOOSE_ICLOUD_USERNAME'') ''your Apple ID email'',
         needed ''VAMOOSE_ICLOUD_APP_PASSWORD'' (given ''VAMOOSE_ICLOUD_APP_PASSWORD'') ''app-specific password from appleid.apple.com'']
      else if provider = ''caldav'' then
        [needed ''VAMOOSE_CALDAV_URL'' (given ''VAMOOSE_CALDAV_URL'') ''your CalDAV server URL'',
         needed ''VAMOOSE_CALDAV_USERNAME'' (given ''VAMOOSE_CALDAV_USERNAME'') ''your CalDAV account username'',
         needed ''VAMOOSE_CALDAV_PASSWORD'' (given ''VAMOOSE_CALDAV_PASSWORD'') ''your CalDAV account password'']
      else [needed (''Unknown provider '' @ provider) False ''use graph, google, icloud, or caldav''])"

definition doctor_checks :: "(string \<Rightarrow> string) \<Rightarrow> string \<times> string \<Rightarrow> doctor_check list" where
  "doctor_checks getenv builtin =
     (let given = (\<lambda>k. getenv k \<noteq> []);
          provider = (if getenv ''VAMOOSE_PROVIDER'' = [] then ''graph'' else getenv ''VAMOOSE_PROVIDER'');
          tz = (if getenv ''VAMOOSE_TIMEZONE'' = [] then ''UTC (default)'' else getenv ''VAMOOSE_TIMEZONE'');
          secrets = (if given key_env then ''encrypted at rest (VAMOOSE_SECRET_KEY set)'' else ''OS keychain or a local file'')
      in [needed (''Provider: '' @ provider) True []] @ provider_checks getenv builtin provider
         @ [informational (''Time zone: '' @ tz) True [],
            informational ''Slack messaging (VAMOOSE_SLACK_BOT_TOKEN)'' (given ''VAMOOSE_SLACK_BOT_TOKEN'') ''set for message steps to Slack'',
            informational ''Email messaging (VAMOOSE_SMTP_HOST)'' (given ''VAMOOSE_SMTP_HOST'') ''set for message steps to email'',
            informational ''Webhook messaging: use an https URL as a message channel for Teams, Google Chat, and similar'' True [],
            informational ''HR leave filing (BambooHR or webhook)'' (given ''VAMOOSE_BAMBOOHR_SUBDOMAIN'' \<or> given ''VAMOOSE_LEAVE_WEBHOOK_URL'')
              ''set VAMOOSE_BAMBOOHR_* or VAMOOSE_LEAVE_WEBHOOK_URL to file approved time off as real leave'',
            informational ''Leave balance (BambooHR or balance webhook)'' (given ''VAMOOSE_BAMBOOHR_SUBDOMAIN'' \<or> given ''VAMOOSE_BALANCE_WEBHOOK_URL'')
              (''set VAMOOSE_BAMBOOHR_* or VAMOOSE_BALANCE_WEBHOOK_URL to read remaining time off with 'vamoose balance'' @ [CHR 0x27]),
            informational (''Secrets: '' @ secrets) True [],
            informational ''Run history: recorded to the audit log (see 'vamoose history')'' True []]
         @ (if getenv ''VAMOOSE_DB_PATH'' = [] then []
            else [informational (''Multi-tenant store: embedded database at '' @ getenv ''VAMOOSE_DB_PATH'') True []]))"

section \<open>The report\<close>

definition hint_suffix :: "string \<Rightarrow> string" where
  "hint_suffix hint = (if hint = [] then [] else '' -> '' @ hint)"

definition check_line :: "doctor_check \<Rightarrow> string" where
  "check_line c =
     (if ck_ok c then ''[ok]   '' @ ck_label c
      else if ck_optional c then ''[--]   '' @ ck_label c @ hint_suffix (ck_hint c)
      else ''[miss] '' @ ck_label c @ hint_suffix (ck_hint c)) @ newline"

definition missing_checks :: "doctor_check list \<Rightarrow> nat" where
  "missing_checks cs = length (filter (\<lambda>c. \<not> ck_ok c \<and> \<not> ck_optional c) cs)"

text \<open>\<open>--provider\<close> replaces the provider of the environment.\<close>

definition with_flag_provider :: "string \<Rightarrow> (string \<Rightarrow> string) \<Rightarrow> string \<Rightarrow> string" where
  "with_flag_provider flag getenv k = (if flag \<noteq> [] \<and> k = ''VAMOOSE_PROVIDER'' then flag else getenv k)"

text \<open>\<open>reportProbe\<close>: signing in, and the manager if the backend has one.\<close>

definition report_probe :: "env \<Rightarrow> world \<Rightarrow> string \<times> world" where
  "report_probe env w =
     (case prov_me env w of
        (Inl e, w) \<Rightarrow> (''[miss] Sign-in: '' @ error_text e @ newline, w)
      | (Inr me, w) \<Rightarrow>
          (case prov_manager env w of
             (r, w) \<Rightarrow>
               (''[ok]   Signed in as '' @ person_label me @ newline
                @ (case r of
                     Inl e \<Rightarrow> (if errors_is e ErrNoManager then ''[--]   Manager: none set in the directory''
                               else if errors_is e ErrNoDirectory then ''[--]   Manager: this backend has no directory''
                               else ''[--]   Manager: '' @ error_text e)
                   | Inr mgr \<Rightarrow> ''[ok]   Manager: '' @ person_label mgr) @ newline, w)))"

definition doctor_live :: "(string \<Rightarrow> error option) \<Rightarrow> env \<Rightarrow> string \<Rightarrow> world \<Rightarrow> string \<times> world" where
  "doctor_live provider env name w =
     (let head = newline @ ''Live check ('' @ name @ ''):'' @ newline in
      case provider name of
        Some e \<Rightarrow> (head @ ''[miss] Build provider: '' @ error_text e @ newline, w)
      | None \<Rightarrow> (case report_probe env w of (t, w) \<Rightarrow> (head @ t, w)))"

definition doctor_flags :: "(string \<times> flag_kind) list" where
  "doctor_flags = bools [''live''] @ strings [''provider'', ''tz'']"

definition run_doctor ::
  "outside \<Rightarrow> env \<Rightarrow> string \<times> string \<Rightarrow> string result \<Rightarrow> string list \<Rightarrow> world \<Rightarrow> outcome" where
  "run_doctor su env builtin config_dir args w =
     (case parse_flags doctor_flags [] args of
        Inl e \<Rightarrow> ([], Some e, w)
      | Inr (vs, left) \<Rightarrow>
          (let flag = flag_str vs ''provider'';
               checks = doctor_checks (with_flag_provider flag (e_getenv env)) builtin;
               missing = missing_checks checks;
               (live, w) = (if flag_set vs ''live'' then doctor_live (su_provider su) env (resolve_provider (e_getenv env) flag) w else ([], w))
           in (concat (map check_line checks)
               @ (case config_dir of Inl e \<Rightarrow> [] | Inr dir \<Rightarrow> ''[ok]   Config directory: '' @ dir @ ''/vamoose'' @ newline)
               @ live
               @ (if missing = 0 then newline @ ''Ready. Run 'vamoose whoami' to confirm access.'' @ newline
                  else newline @ show_nat missing @ '' required setting(s) missing. See the hints above.'' @ newline), None, w)))"

section \<open>What the theory establishes\<close>

lemma informational_simps [simp]:
  "ck_optional (informational l k h)" "\<not> ck_optional (needed l k h)" "ck_ok (needed l k h) = k"
  by (simp_all add: informational_def needed_def)

lemma missing_none:
  "missing_checks (doctor_checks getenv builtin) = 0 \<longleftrightarrow>
     list_all ck_ok (provider_checks getenv builtin (resolve_provider getenv []))"
proof -
  have opt: "list_all (\<lambda>c. \<not> ck_optional c) (provider_checks getenv builtin p)" for p
    by (simp add: provider_checks_def Let_def split: option.split)
  have p: "resolve_provider getenv [] = (if getenv ''VAMOOSE_PROVIDER'' = [] then ''graph'' else getenv ''VAMOOSE_PROVIDER'')"
    by (simp add: resolve_provider_def)
  show ?thesis
    unfolding missing_checks_def doctor_checks_def Let_def p[symmetric]
    using opt[of "resolve_provider getenv []"]
    by (auto simp: filter_empty_conv list_all_iff simp del: append.simps)
qed

text \<open>
  C16. The doctor's verdict is that of the factories. Provided a token store can be opened and the CalDAV
  client can be made, the report finds no required setting missing exactly when the provider the
  environment selects can be built, for each of the four providers and for an unknown name.
\<close>

theorem doctor_agrees_with_factories:
  assumes "\<And>name. \<exists>st. open_store so name = Inr st" and "\<And>url. so_client so url = None"
  shows "missing_checks (doctor_checks (so_getenv so) (so_builtin so)) = 0 \<longleftrightarrow>
    (\<exists>s. new_provider so (resolve_provider (so_getenv so) []) tz = Inr s)"
proof -
  define name where "name = resolve_provider (so_getenv so) []"
  obtain g where g: "open_store so ''graph'' = Inr g" using assms(1) by blast
  obtain o2 where o2: "open_store so ''google'' = Inr o2" using assms(1) by blast
  have known: "name \<in> {''graph'', ''google'', ''icloud'', ''caldav''} \<or> (\<exists>e. new_provider so name tz = Inl e)"
    by (simp add: new_provider_def builtin_registered build_def)
  have "list_all ck_ok (provider_checks (so_getenv so) (so_builtin so) name) \<longleftrightarrow> (\<exists>s. new_provider so name tz = Inr s)"
  proof -
    consider "name = ''graph''" | "name = ''google''" | "name = ''icloud''" | "name = ''caldav''"
      | "name \<notin> {''graph'', ''google'', ''icloud'', ''caldav''}" by blast
    then show ?thesis
    proof cases
      case 1
      then show ?thesis by (simp add: new_provider_names new_graph_provider_def provider_checks_def g new_ms_auth_def Let_def)
    next
      case 2
      then show ?thesis
        by (cases "so_builtin so") (auto simp: new_provider_names new_google_provider_def provider_checks_def o2 new_google_auth_def google_client_creds_def Let_def
            split: option.splits if_splits)
    next
      case 3
      then show ?thesis
        using assms(2) by (simp add: new_provider_names new_icloud_provider_def provider_checks_def open_caldav_def new_caldav_def Let_def)
    next
      case 4
      then show ?thesis
        using assms(2) by (simp add: new_provider_names new_caldav_provider_def provider_checks_def open_caldav_def new_caldav_def Let_def)
    next
      case 5
      then show ?thesis using known by (auto simp: provider_checks_def Let_def)
    qed
  qed
  then show ?thesis unfolding missing_none name_def .
qed

theorem doctor_agrees_with_factories_witness:
  "missing_checks (doctor_checks (child_getenv server_vars) ([], [])) = 0 \<longleftrightarrow>
    (\<exists>s. new_provider (machine server_vars) (resolve_provider (child_getenv server_vars) []) ''UTC'' = Inr s)"
proof -
  have "child_getenv server_vars key_env = []" by code_simp
  then have "\<exists>st. open_store (machine server_vars) name = Inr st" for name
    by (simp add: open_store_def new_store_def machine_def secret_from_env_def)
  moreover have "so_client (machine server_vars) url = None" for url by (simp add: machine_def)
  ultimately show ?thesis
    using doctor_agrees_with_factories[of "machine server_vars" "''UTC''"] by (simp add: machine_def)
qed

end
