(* ===== verification/App.thy ===== *)
theory App
  imports Mcp_Properties Schedule Go_Origin Go_Http Doctor
begin

text \<open>
  The local dashboard (\<open>cmd/app.go\<close>): the routes, the guard that keeps other machines and other sites out, and
  every handler as a function of the request and of what the dashboard reads and writes: the directory of user
  workflows, the schedule file and the world of the commands. Running and acting on a hold go through the program
  itself, a subprocess, which is an argument.
\<close>

section \<open>Requests, replies and state\<close>

record app_request =
  aq_method :: string
  aq_path :: string
  aq_host :: string
  aq_origin :: string
  aq_query :: string
  aq_body :: string

datatype app_body =
    Plain string
  | Page
  | Picture
  | Json_Reply json
  | Watch_List "watch_item list"
  | Event_List "event list"
  | Coverage_List "Coverage.entry list"
  | Definition_Of string source json_text

record app_reply =
  ar_status :: int
  ar_body :: app_body

record dashboard =
  db_dir :: dir
  db_schedules :: schedule_file
  db_world :: world

text \<open>
  The outside: the environment of \<open>World\<close>, the embedded workflows, the built-in Google client, the errors of finding
  the configuration files, and the subprocess, which reads the user workflows and acts on the world.
\<close>

record app_env =
  ae_env :: env
  ae_builtin :: dir
  ae_client :: "string \<times> string"
  ae_dir_error :: "error option"
  ae_schedule_error :: "error option"
  ae_version :: string
  ae_exec :: "dir \<Rightarrow> string list \<Rightarrow> world \<Rightarrow> (string \<times> error option) \<times> world"

type_synonym app_handler = "app_request \<Rightarrow> dashboard \<Rightarrow> app_reply \<times> dashboard"

definition reply_ok :: "app_body \<Rightarrow> app_reply" where
  "reply_ok b = \<lparr>ar_status = 200, ar_body = b\<rparr>"

definition http_error :: "int \<Rightarrow> string \<Rightarrow> app_reply" where
  "http_error code msg = \<lparr>ar_status = code, ar_body = Plain (msg @ newline)\<rparr>"

section \<open>The guard\<close>

definition hostname :: "string \<Rightarrow> string" where
  "hostname host = (case split_host_port host of Some (h, p) \<Rightarrow> h | None \<Rightarrow> host)"

definition is_loopback_host :: "string \<Rightarrow> bool" where
  "is_loopback_host h \<longleftrightarrow> h \<in> set [''127.0.0.1'', ''localhost'', ''::1'']"

definition local_only :: "app_request \<Rightarrow> bool" where
  "local_only q \<longleftrightarrow>
     is_loopback_host (hostname (aq_host q)) \<and>
     (aq_origin q = [] \<or> (case url_hostname (aq_origin q) of None \<Rightarrow> False | Some h \<Rightarrow> is_loopback_host h))"

definition guarded :: "app_handler \<Rightarrow> app_handler" where
  "guarded h q s = (if local_only q then h q s else (http_error 403 ''forbidden'', s))"

section \<open>Reading\<close>

text \<open>\<open>appJSON\<close>: the value of a reading function, or its error.\<close>

definition app_json :: "(dashboard \<Rightarrow> app_body result \<times> dashboard) \<Rightarrow> app_handler" where
  "app_json f = guarded (\<lambda>q s.
     case f s of (Inl e, s) \<Rightarrow> (http_error 500 (error_text e), s) | (Inr b, s) \<Rightarrow> (reply_ok b, s))"

definition app_user :: "app_env \<Rightarrow> dir \<Rightarrow> user_dir" where
  "app_user e d = (if ae_dir_error e = None then Dir d else NoUserDir)"

definition source_name :: "source \<Rightarrow> string" where
  "source_name s = (case s of SourceBuiltin \<Rightarrow> ''builtin'' | SourceUser \<Rightarrow> ''user'')"

definition app_workflows :: "app_env \<Rightarrow> dashboard \<Rightarrow> app_body result \<times> dashboard" where
  "app_workflows e s =
     (map_sum id (\<lambda>infos. Json_Reply (JArr (map (\<lambda>i. JObj [(''name'', JStr (info_name i)),
          (''description'', JStr (info_description i)), (''source'', JStr (source_name (info_source i)))]) infos)))
        (list_workflows (ae_builtin e) (app_user e (db_dir s))), s)"

definition check_json :: "doctor_check \<Rightarrow> json" where
  "check_json c = JObj ([(''label'', JStr (ck_label c)), (''ok'', JBool (ck_ok c))] @ omit_empty ''hint'' (ck_hint c)
     @ [(''optional'', JBool (ck_optional c))])"

definition app_doctor :: "app_env \<Rightarrow> dashboard \<Rightarrow> app_body result \<times> dashboard" where
  "app_doctor e s = (Inr (Json_Reply (JArr (map check_json (doctor_checks (e_getenv (ae_env e)) (ae_client e))))), s)"

definition app_watches :: "app_env \<Rightarrow> dashboard \<Rightarrow> app_body result \<times> dashboard" where
  "app_watches e s = (map_sum id Watch_List (w_load_watches (ae_env e) (db_world s)), s)"

definition app_history :: "app_env \<Rightarrow> dashboard \<Rightarrow> app_body result \<times> dashboard" where
  "app_history e s =
     (case e_audit_path (ae_env e) of Some err \<Rightarrow> (Inl err, s)
      | None \<Rightarrow> (map_sum id Event_List (load_events (w_audit (db_world s))), s))"

definition app_coverage_rows :: "app_env \<Rightarrow> dashboard \<Rightarrow> app_body result \<times> dashboard" where
  "app_coverage_rows e s =
     (case now (ae_env e) (db_world s) of (t, w) \<Rightarrow>
        (map_sum id Coverage_List (app_coverage (e_ledger_path (ae_env e)) t (w_ledger w)), s\<lparr>db_world := w\<rparr>))"

definition schedule_json :: "nat \<Rightarrow> schedule_item \<Rightarrow> json" where
  "schedule_json i c =
     JObj ([(''index'', JInt (int i)), (''workflow'', JStr (sc_workflow c))] @ omit_empty ''provider'' (sc_provider c)
       @ [(''every'', JStr (sc_every c)), (''next_run'', JStr (format_rfc3339 (sc_next_run c)))]
       @ omit_empty ''phrase'' (sc_phrase c) @ omit_empty ''subject'' (sc_subject c) @ omit_empty ''manager'' (sc_manager c))"

definition app_schedules :: "app_env \<Rightarrow> dashboard \<Rightarrow> app_body result \<times> dashboard" where
  "app_schedules e s =
     (map_sum id (\<lambda>cs. Json_Reply (JArr (map (\<lambda>(i, c). schedule_json i c) (enumerate 0 cs))))
        (load_schedules (ae_schedule_error e) (db_schedules s)), s)"

definition app_workflow_get :: "app_env \<Rightarrow> app_handler" where
  "app_workflow_get e = guarded (\<lambda>q s.
     let name = form_get (url_query (aq_query q)) ''name'' in
     case raw (ae_builtin e) (app_user e (db_dir s)) name of
       Inl err \<Rightarrow> (http_error 404 (error_text err), s)
     | Inr (t, src) \<Rightarrow> (reply_ok (Definition_Of name src t), s))"

section \<open>Bodies\<close>

text \<open>
  \<open>json.NewDecoder(...).Decode\<close> reads the first value of the body and ignores what follows. Members are
  matched like every decoded struct of the program; unknown ones are ignored.
\<close>

definition decode_body :: "('r \<Rightarrow> string \<Rightarrow> json \<Rightarrow> 'r option) \<Rightarrow> 'r \<Rightarrow> string \<Rightarrow> 'r option" where
  "decode_body field zero s =
     (case scan_json s of NotJson \<Rightarrow> None | Json v \<Rightarrow> in_object field zero v | JsonTrailing v \<Rightarrow> in_object field zero v)"

record run_body =
  rb_workflow :: string
  rb_phrase :: string
  rb_subject :: string
  rb_manager :: string
  rb_provider :: string
  rb_dry_run :: bool

definition zero_run_body :: run_body where
  "zero_run_body = \<lparr>rb_workflow = [], rb_phrase = [], rb_subject = [], rb_manager = [], rb_provider = [], rb_dry_run = False\<rparr>"

definition run_field :: "run_body \<Rightarrow> string \<Rightarrow> json \<Rightarrow> run_body option" where
  "run_field b k v =
     (if equal_fold k ''workflow'' then map_option (\<lambda>x. b\<lparr>rb_workflow := x\<rparr>) (as_string (rb_workflow b) v)
      else if equal_fold k ''phrase'' then map_option (\<lambda>x. b\<lparr>rb_phrase := x\<rparr>) (as_string (rb_phrase b) v)
      else if equal_fold k ''subject'' then map_option (\<lambda>x. b\<lparr>rb_subject := x\<rparr>) (as_string (rb_subject b) v)
      else if equal_fold k ''manager'' then map_option (\<lambda>x. b\<lparr>rb_manager := x\<rparr>) (as_string (rb_manager b) v)
      else if equal_fold k ''provider'' then map_option (\<lambda>x. b\<lparr>rb_provider := x\<rparr>) (as_string (rb_provider b) v)
      else if equal_fold k ''dryRun'' then map_option (\<lambda>x. b\<lparr>rb_dry_run := x\<rparr>) (as_bool (rb_dry_run b) v)
      else Some b)"

record action_body =
  ab_action :: string
  ab_provider :: string
  ab_hold_id :: string

definition action_field :: "action_body \<Rightarrow> string \<Rightarrow> json \<Rightarrow> action_body option" where
  "action_field b k v =
     (if equal_fold k ''action'' then map_option (\<lambda>x. b\<lparr>ab_action := x\<rparr>) (as_string (ab_action b) v)
      else if equal_fold k ''provider'' then map_option (\<lambda>x. b\<lparr>ab_provider := x\<rparr>) (as_string (ab_provider b) v)
      else if equal_fold k ''holdID'' then map_option (\<lambda>x. b\<lparr>ab_hold_id := x\<rparr>) (as_string (ab_hold_id b) v)
      else Some b)"

record schedule_body =
  sb_workflow :: string
  sb_every :: string
  sb_phrase :: string
  sb_subject :: string
  sb_manager :: string
  sb_provider :: string

definition schedule_field :: "schedule_body \<Rightarrow> string \<Rightarrow> json \<Rightarrow> schedule_body option" where
  "schedule_field b k v =
     (if equal_fold k ''workflow'' then map_option (\<lambda>x. b\<lparr>sb_workflow := x\<rparr>) (as_string (sb_workflow b) v)
      else if equal_fold k ''every'' then map_option (\<lambda>x. b\<lparr>sb_every := x\<rparr>) (as_string (sb_every b) v)
      else if equal_fold k ''phrase'' then map_option (\<lambda>x. b\<lparr>sb_phrase := x\<rparr>) (as_string (sb_phrase b) v)
      else if equal_fold k ''subject'' then map_option (\<lambda>x. b\<lparr>sb_subject := x\<rparr>) (as_string (sb_subject b) v)
      else if equal_fold k ''manager'' then map_option (\<lambda>x. b\<lparr>sb_manager := x\<rparr>) (as_string (sb_manager b) v)
      else if equal_fold k ''provider'' then map_option (\<lambda>x. b\<lparr>sb_provider := x\<rparr>) (as_string (sb_provider b) v)
      else Some b)"

text \<open>One member of a text, of the name given.\<close>

definition text_field :: "string \<Rightarrow> string \<Rightarrow> string \<Rightarrow> json \<Rightarrow> string option" where
  "text_field name x k v = (if equal_fold k name then as_string x v else Some x)"

definition index_field :: "int option \<Rightarrow> string \<Rightarrow> json \<Rightarrow> int option option" where
  "index_field x k v =
     (if equal_fold k ''index'' then
        (if v = JNull then Some None else map_option Some (as_int (case x of None \<Rightarrow> 0 | Some i \<Rightarrow> i) v))
      else Some x)"

section \<open>Running and acting\<close>

definition command_reply :: "string \<times> error option \<Rightarrow> app_reply" where
  "command_reply r =
     (case r of (out, err) \<Rightarrow>
        reply_ok (Json_Reply (JObj ((case err of None \<Rightarrow> [] | Some e \<Rightarrow> [(''error'', JStr (error_text e))])
          @ [(''output'', JStr out)]))))"

definition app_command :: "app_env \<Rightarrow> string list \<Rightarrow> dashboard \<Rightarrow> app_reply \<times> dashboard" where
  "app_command e args s =
     (case ae_exec e (db_dir s) args (db_world s) of (r, w) \<Rightarrow> (command_reply r, s\<lparr>db_world := w\<rparr>))"

definition app_run_args :: "run_body \<Rightarrow> string list" where
  "app_run_args b =
     [''run'', rb_workflow b] @ Go_Strings.fields (rb_phrase b) @ opt_flag ''--subject'' (rb_subject b)
     @ opt_flag ''--manager'' (rb_manager b) @ opt_flag ''--provider'' (rb_provider b)
     @ (if rb_dry_run b then [''--dry-run''] else [])"

definition app_run :: "app_env \<Rightarrow> app_handler" where
  "app_run e = guarded (\<lambda>q s.
     case decode_body run_field zero_run_body (aq_body q) of
       None \<Rightarrow> (http_error 400 ''a workflow is required'', s)
     | Some b \<Rightarrow>
         (if rb_workflow b = [] then (http_error 400 ''a workflow is required'', s)
          else app_command e (app_run_args b) s))"

definition app_action_args :: "action_body \<Rightarrow> string list" where
  "app_action_args b = [ab_action b, ''--id'', ab_hold_id b] @ opt_flag ''--provider'' (ab_provider b)"

definition app_action :: "app_env \<Rightarrow> app_handler" where
  "app_action e = guarded (\<lambda>q s.
     case decode_body action_field \<lparr>ab_action = [], ab_provider = [], ab_hold_id = []\<rparr> (aq_body q) of
       None \<Rightarrow> (http_error 400 ''an action and hold id are required'', s)
     | Some b \<Rightarrow>
         (if ab_hold_id b = [] then (http_error 400 ''an action and hold id are required'', s)
          else if ab_action b \<notin> set [''check'', ''promote'', ''cancel''] then (http_error 400 ''unknown action'', s)
          else app_command e (app_action_args b) s))"

section \<open>Editing workflows and schedules\<close>

definition app_write_error :: "error option \<Rightarrow> app_env \<Rightarrow> dashboard \<Rightarrow> error option" where
  "app_write_error path_error e s =
     (case path_error of Some err \<Rightarrow> Some err | None \<Rightarrow> e_write (ae_env e) (w_tick (db_world s)))"

definition tick_dashboard :: "dashboard \<Rightarrow> dashboard" where
  "tick_dashboard s = s\<lparr>db_world := tick (db_world s)\<rparr>"

definition app_workflow_save :: "app_env \<Rightarrow> app_handler" where
  "app_workflow_save e = guarded (\<lambda>q s.
     case decode_body (text_field ''definition'') [] (take (nat max_body) (aq_body q)) of
       None \<Rightarrow> (http_error 400 ''a definition is required'', s)
     | Some text \<Rightarrow>
         (if trim_space text = [] then (http_error 400 ''a definition is required'', s)
          else case save_user_workflow (app_write_error (ae_dir_error e) e s) (scan_json text) (db_dir s) of
            (Inl err, d) \<Rightarrow> (http_error 400 (error_text err), tick_dashboard (s\<lparr>db_dir := d\<rparr>))
          | (Inr k, d) \<Rightarrow> (reply_ok (Json_Reply (JObj [(''name'', JStr (wf_name k))])), tick_dashboard (s\<lparr>db_dir := d\<rparr>))))"

definition app_workflow_delete :: "app_env \<Rightarrow> app_handler" where
  "app_workflow_delete e = guarded (\<lambda>q s.
     case decode_body (text_field ''name'') [] (aq_body q) of
       None \<Rightarrow> (http_error 400 ''a name is required'', s)
     | Some name \<Rightarrow>
         (if name = [] then (http_error 400 ''a name is required'', s)
          else case (if safe_workflow_name name then ae_dir_error e else None) of
            Some err \<Rightarrow> (http_error 400 (error_text err), s)
          | None \<Rightarrow>
              (case remove_user_workflow (e_write (ae_env e) (w_tick (db_world s))) name (db_dir s) of
                 (Some err, d) \<Rightarrow> (http_error 400 (error_text err), tick_dashboard (s\<lparr>db_dir := d\<rparr>))
               | (None, d) \<Rightarrow> (reply_ok (Json_Reply (JObj [(''ok'', JBool True)])), tick_dashboard (s\<lparr>db_dir := d\<rparr>)))))"

definition app_schedule_add :: "app_env \<Rightarrow> app_handler" where
  "app_schedule_add e = guarded (\<lambda>q s.
     case decode_body schedule_field \<lparr>sb_workflow = [], sb_every = [], sb_phrase = [], sb_subject = [], sb_manager = [],
         sb_provider = []\<rparr> (aq_body q) of
       None \<Rightarrow> (http_error 400 ''a workflow is required'', s)
     | Some b \<Rightarrow>
         (if sb_workflow b = [] then (http_error 400 ''a workflow is required'', s)
          else let (t, w) = now (ae_env e) (db_world s); s = s\<lparr>db_world := w\<rparr> in
            case new_schedule (load (ae_builtin e) (app_user e (db_dir s))) t (sb_workflow b) (sb_every b) (sb_phrase b)
                (sb_subject b) (sb_manager b) (sb_provider b) of
              Inl err \<Rightarrow> (http_error 400 (error_text err), s)
            | Inr item \<Rightarrow>
                (case add_schedule (ae_schedule_error e) (e_write (ae_env e) (w_tick w)) item (db_schedules s) of
                   (Some err, f) \<Rightarrow> (http_error 400 (error_text err), tick_dashboard (s\<lparr>db_schedules := f\<rparr>))
                 | (None, f) \<Rightarrow>
                     (reply_ok (Json_Reply (JObj [(''ok'', JBool True)])), tick_dashboard (s\<lparr>db_schedules := f\<rparr>)))))"

definition app_schedule_remove :: "app_env \<Rightarrow> app_handler" where
  "app_schedule_remove e = guarded (\<lambda>q s.
     case decode_body index_field None (aq_body q) of
       None \<Rightarrow> (http_error 400 ''an index is required'', s)
     | Some None \<Rightarrow> (http_error 400 ''an index is required'', s)
     | Some (Some i) \<Rightarrow>
         (case remove_schedule_at (ae_schedule_error e) (e_write (ae_env e) (w_tick (db_world s))) i (db_schedules s) of
            (Inl err, f) \<Rightarrow> (http_error 400 (error_text err), tick_dashboard (s\<lparr>db_schedules := f\<rparr>))
          | (Inr name, f) \<Rightarrow>
              (reply_ok (Json_Reply (JObj [(''removed'', JStr name)])), tick_dashboard (s\<lparr>db_schedules := f\<rparr>))))"

section \<open>Routes\<close>

definition app_static :: "app_body \<Rightarrow> app_handler" where
  "app_static b = guarded (\<lambda>q s. (reply_ok b, s))"

definition app_routes :: "app_env \<Rightarrow> (string \<times> string \<times> app_handler) list" where
  "app_routes e =
     [(''GET'', ''/'', app_static Page), (''GET'', ''/health'', app_static (Plain ''ok'')),
      (''GET'', ''/api/version'', app_static (Plain (ae_version e))), (''GET'', ''/mark.png'', app_static Picture),
      (''GET'', ''/api/workflows'', app_json (app_workflows e)), (''GET'', ''/api/doctor'', app_json (app_doctor e)),
      (''GET'', ''/api/watches'', app_json (app_watches e)), (''GET'', ''/api/coverage'', app_json (app_coverage_rows e)),
      (''GET'', ''/api/history'', app_json (app_history e)), (''POST'', ''/api/run'', app_run e),
      (''POST'', ''/api/action'', app_action e), (''GET'', ''/api/workflow'', app_workflow_get e),
      (''POST'', ''/api/workflows/save'', app_workflow_save e), (''POST'', ''/api/workflows/delete'', app_workflow_delete e),
      (''GET'', ''/api/schedules'', app_json (app_schedules e)), (''POST'', ''/api/schedules/add'', app_schedule_add e),
      (''POST'', ''/api/schedules/remove'', app_schedule_remove e)]"

text \<open>
  The mux of \<open>net/http\<close>: a pattern for GET also serves HEAD; a path without a pattern is not found, one with patterns
  for other methods only is answered with 405. The path is the one the mux matches, cleaned.
\<close>

definition route_for :: "app_request \<Rightarrow> (string \<times> string \<times> app_handler) list \<Rightarrow> app_handler" where
  "route_for q routes =
     (case find (\<lambda>(m, p, h). p = aq_path q \<and> (m = aq_method q \<or> m = ''GET'' \<and> aq_method q = ''HEAD'')) routes of
        Some (m, p, h) \<Rightarrow> h
      | None \<Rightarrow>
          (if list_ex (\<lambda>(m, p, h). p = aq_path q) routes then (\<lambda>q s. (http_error 405 ''Method Not Allowed'', s))
           else (\<lambda>q s. (http_error 404 ''404 page not found'', s))))"

definition app_serve :: "app_env \<Rightarrow> app_handler" where
  "app_serve e q s = route_for q (app_routes e) q s"

end
