(* ===== verification/App_Properties.thy ===== *)
theory App_Properties
  imports App
begin

text \<open>
  What the dashboard promises: other machines and other sites cannot drive it, its previews act on nothing, its
  buttons cannot force a promotion, and its stores stay within their limits over any sequence of requests.
\<close>

section \<open>Every route is guarded\<close>

definition is_guarded :: "app_handler \<Rightarrow> bool" where
  "is_guarded h \<longleftrightarrow> (\<exists>g. h = guarded g)"

lemma guarded_handlers:
  "is_guarded (app_static b)" "is_guarded (app_json f)" "is_guarded (app_run e)" "is_guarded (app_action e)"
  "is_guarded (app_workflow_get e)" "is_guarded (app_workflow_save e)" "is_guarded (app_workflow_delete e)"
  "is_guarded (app_schedule_add e)" "is_guarded (app_schedule_remove e)"
  unfolding is_guarded_def app_static_def app_json_def app_run_def app_action_def app_workflow_get_def
    app_workflow_save_def app_workflow_delete_def app_schedule_add_def app_schedule_remove_def
  by (rule exI, rule refl)+

lemma app_routes_guarded:
  assumes "(m, p, h) \<in> set (app_routes e)"
  shows "is_guarded h"
proof -
  have "list_all (\<lambda>(m, p, h). is_guarded h) (app_routes e)" by (simp add: app_routes_def guarded_handlers)
  with assms show ?thesis by (auto simp: list_all_iff)
qed

lemma find_in: "find P xs = Some x \<Longrightarrow> x \<in> set xs \<and> P x"
  by (auto simp: find_Some_iff)

lemma route_for_cases:
  obtains (found) m p h where "(m, p, h) \<in> set rs" "route_for q rs = h" "p = aq_path q"
      "m = aq_method q \<or> m = ''GET'' \<and> aq_method q = ''HEAD''"
  | (missing) c msg where "c \<in> {404, 405}" "route_for q rs = (\<lambda>q s. (http_error c msg, s))"
proof (cases "find (\<lambda>(m, p, h). p = aq_path q \<and> (m = aq_method q \<or> m = ''GET'' \<and> aq_method q = ''HEAD'')) rs")
  case None
  show thesis
  proof (cases "list_ex (\<lambda>(m, p, h). p = aq_path q) rs")
    case True
    with None show thesis using missing[of 405 "''Method Not Allowed''"] by (simp add: route_for_def)
  next
    case False
    with None show thesis using missing[of 404 "''404 page not found''"] by (simp add: route_for_def)
  qed
next
  case (Some x)
  obtain m p h where x: "x = (m, p, h)" by (metis prod_cases3)
  from find_in[OF Some] x have "(m, p, h) \<in> set rs" "p = aq_path q" "m = aq_method q \<or> m = ''GET'' \<and> aq_method q = ''HEAD''"
    by auto
  with found[of m p h] Some x show thesis by (simp add: route_for_def)
qed

lemma refused_unless_local:
  assumes "\<not> local_only q"
  shows "snd (app_serve e q s) = s \<and> ar_status (fst (app_serve e q s)) \<in> {403, 404, 405}"
proof (cases rule: route_for_cases[of "app_routes e" q])
  case (found m p h)
  then obtain g where "h = guarded g" using app_routes_guarded is_guarded_def by blast
  with found(2) assms show ?thesis by (simp add: app_serve_def guarded_def http_error_def)
next
  case (missing c msg)
  then show ?thesis by (auto simp: app_serve_def http_error_def)
qed

lemma name_hostname:
  assumes "host_name h" and "port_text p"
  shows "hostname (h @ p) = h"
proof -
  have h: "h \<noteq> []" "list_all name_mark h" using assms(1) by (simp_all add: host_name_def)
  have marks: "CHR '':'' \<notin> set h" "CHR ''['' \<notin> set h" "CHR '']'' \<notin> set h"
    using h(2) name_mark_plain(1) unfolding list_all_iff by fastforce+
  consider "p = []" | d where "p = CHR '':'' # d" "list_all is_digit d" using assms(2) by (auto simp: port_text_def)
  then show ?thesis
  proof cases
    case 1
    then show ?thesis by (simp add: hostname_def split_host_port_def cut_last_none[OF marks(1)])
  next
    case 2
    have digits: "list_all unreserved d" using 2(2) plain_unreserved unfolding list_all_iff by blast
    then have d: "CHR '':'' \<notin> set d" "CHR ''['' \<notin> set d" "CHR '']'' \<notin> set d" using unreserved_not by simp_all
    from cut_last_append[OF d(1), of h] have "cut_last (CHR '':'') (h @ p) = Some (h, d)" using 2(1) by simp
    moreover have "\<not> has_prefix (h @ p) ''[''" using marks(2) h(1) by (cases h) auto
    ultimately show ?thesis using marks d 2(1) by (simp add: hostname_def split_host_port_def)
  qed
qed

text \<open>Of an address in brackets, the brackets go only with a port.\<close>

lemma address_hostname:
  assumes "host_address h" and "port_text p"
  shows "hostname (h @ p) \<in> {h, bare_host h}"
proof -
  obtain a where h: "h = CHR ''['' # a @ '']''" "bare_host h = a" and a: "list_all (\<lambda>c. unreserved c \<or> c = CHR '':'') a"
    using assms(1) by (rule address_text)
  show ?thesis
  proof (cases "split_host_port (h @ p)")
    case None
    consider "p = []" | d where "p = CHR '':'' # d" "list_all is_digit d" using assms(2) by (auto simp: port_text_def)
    then show ?thesis
    proof cases
      case 1
      then show ?thesis using None by (simp add: hostname_def)
    next
      case 2
      have "list_all unreserved d" using 2(2) plain_unreserved unfolding list_all_iff by blast
      then have d: "CHR '':'' \<notin> set d" "CHR ''['' \<notin> set d" "CHR '']'' \<notin> set d" using unreserved_not by simp_all
      have no: "CHR ''['' \<notin> set a" "CHR '']'' \<notin> set a" using a unreserved_plain(1) unfolding list_all_iff by fastforce+
      have "cut_last (CHR '':'') (h @ p) = Some (h, d)" using cut_last_append[OF d(1), of h] 2(1) by simp
      moreover have "cut_on (CHR '']'') (h @ p) = (CHR ''['' # a, p, True)"
        using no h(1) cut_on_append[of "CHR '']''" "CHR ''['' # a" p] by simp
      ultimately have "split_host_port (h @ p) = Some (a, d)" using h(1) 2(1) no d by (simp add: split_host_port_def)
      then show ?thesis using None by simp
    qed
  next
    case (Some x)
    have "fst x = a"
    proof -
      obtain g q where x: "x = (g, q)" by (cases x)
      have "has_prefix (h @ p) ''[''" using h(1) by simp
      moreover have "cut_on (CHR '']'') (h @ p) = (CHR ''['' # a, p, True)"
      proof -
        have "CHR '']'' \<notin> set a" using a unreserved_plain(1) unfolding list_all_iff by fastforce
        then show ?thesis using h(1) cut_on_append[of "CHR '']''" "CHR ''['' # a" p] by simp
      qed
      ultimately show ?thesis using Some by (auto simp: split_host_port_def x split: option.splits prod.splits if_splits)
    qed
    then show ?thesis using Some h(2) by (cases x) (simp add: hostname_def)
  qed
qed

text \<open>The host a browser names is the loopback only when it is one of its three names.\<close>

lemma web_host_elsewhere:
  assumes "web_host h" and "port_text p" and "h \<notin> {''localhost'', ''127.0.0.1'', ''[::1]''}"
  shows "\<not> is_loopback_host (hostname (h @ p)) \<and> \<not> is_loopback_host (bare_host h)"
proof (cases "host_address h")
  case True
  then obtain a where h: "h = CHR ''['' # a @ '']''" "bare_host h = a" "CHR '':'' \<in> set a" by (rule address_text)
  have "a \<noteq> ''localhost''" "a \<noteq> ''127.0.0.1''" using h(3) by auto
  moreover have "a \<noteq> ''::1''" using assms(3) h(1) by auto
  ultimately have "\<not> is_loopback_host a" by (simp add: is_loopback_host_def)
  moreover have "\<not> is_loopback_host h" using h(1) by (simp add: is_loopback_host_def)
  ultimately show ?thesis using address_hostname[OF True assms(2)] h(2) by auto
next
  case False
  then have n: "host_name h" "bare_host h = h" using assms(1) by (simp_all add: web_host_def bare_host_def)
  have "CHR '':'' \<notin> set h" using n(1) name_mark_plain(1) unfolding host_name_def list_all_iff by fastforce
  then have "h \<noteq> ''::1''" by auto
  then show ?thesis using assms(3) n name_hostname[OF n(1) assms(2)] by (auto simp: is_loopback_host_def)
qed

section \<open>The stores of the dashboard\<close>

text \<open>A user workflow the program saved: a checked definition, in the file of its own safe name.\<close>

definition saved_files :: "dir \<Rightarrow> bool" where
  "saved_files d \<longleftrightarrow> (\<forall>(f, x) \<in> set d. \<exists>t k. x = File_Data t \<and> parse_workflow t = Inr k
     \<and> safe_workflow_name (wf_name k) \<and> f = json_file (wf_name k))"

definition dashboard_ok :: "dashboard \<Rightarrow> bool" where
  "dashboard_ok s \<longleftrightarrow> saved_files (db_dir s) \<and> (\<forall>ss. read_file [] (db_schedules s) = Inr ss \<longrightarrow> schedules_ok ss)"

lemma in_update: "(a, b) \<in> set (AList.update k v xs) \<Longrightarrow> (a, b) = (k, v) \<or> (a, b) \<in> set xs"
  by (induction xs) (auto split: if_splits)

lemma in_delete: "(a, b) \<in> set (AList.delete k xs) \<Longrightarrow> (a, b) \<in> set xs"
  by (simp add: AList.delete_eq)

lemma save_keeps_files:
  assumes "saved_files d" and "save_user_workflow we t d = (r, d')"
  shows "saved_files d'"
proof (cases r)
  case (Inl err)
  then show ?thesis using assms save_failure[of we t d err d'] by simp
next
  case (Inr k)
  then have k: "parse_workflow t = Inr k" "safe_workflow_name (wf_name k)"
    "d' = AList.update (json_file (wf_name k)) (File_Data t) d" using assms(2) by (simp_all add: save_success)
  show ?thesis unfolding saved_files_def
  proof clarify
    fix f x assume "(f, x) \<in> set d'"
    then consider "f = json_file (wf_name k)" "x = File_Data t" | "(f, x) \<in> set d" using in_update k(3) by fastforce
    then show "\<exists>t k. x = File_Data t \<and> parse_workflow t = Inr k \<and> safe_workflow_name (wf_name k) \<and> f = json_file (wf_name k)"
      using k assms(1) by cases (auto simp: saved_files_def)
  qed
qed

lemma remove_keeps_files:
  assumes "saved_files d" and "remove_user_workflow re n d = (r, d')"
  shows "saved_files d'"
proof (cases r)
  case None
  then have "set d' \<subseteq> set d" using assms(2) by (auto simp: remove_success dest: in_delete)
  then show ?thesis using assms(1) by (auto simp: saved_files_def)
qed (use assms remove_failure[of re n d] in auto)

text \<open>A handler that leaves the two stores alone, or keeps them within their limits.\<close>

definition keeps_stores :: "app_handler \<Rightarrow> bool" where
  "keeps_stores h \<longleftrightarrow> (\<forall>q s r s'. h q s = (r, s') \<longrightarrow> dashboard_ok s \<longrightarrow> dashboard_ok s')"

lemma keeps_guarded: "keeps_stores h \<Longrightarrow> keeps_stores (guarded h)"
  by (auto simp: keeps_stores_def guarded_def)

lemma keeps_same: "(\<And>q s r s'. h q s = (r, s') \<Longrightarrow> db_dir s' = db_dir s \<and> db_schedules s' = db_schedules s) \<Longrightarrow> keeps_stores h"
  by (simp add: keeps_stores_def dashboard_ok_def)

lemma keeps_app_json:
  "(\<And>s r s'. f s = (r, s') \<Longrightarrow> db_dir s' = db_dir s \<and> db_schedules s' = db_schedules s) \<Longrightarrow> keeps_stores (app_json f)"
  unfolding app_json_def by (intro keeps_guarded keeps_same) (auto split: prod.splits sum.splits)

lemma keeps_reading:
  "keeps_stores (app_json (app_workflows e))" "keeps_stores (app_json (app_doctor e))" "keeps_stores (app_json (app_watches e))"
  "keeps_stores (app_json (app_history e))" "keeps_stores (app_json (app_coverage_rows e))" "keeps_stores (app_json (app_schedules e))"
  by (rule keeps_app_json; auto simp: app_workflows_def app_doctor_def app_watches_def app_history_def app_coverage_rows_def
      app_schedules_def split: option.splits prod.splits)+

lemma keeps_static: "keeps_stores (app_static b)"
  unfolding app_static_def by (intro keeps_guarded keeps_same) auto

lemma keeps_get: "keeps_stores (app_workflow_get e)"
  unfolding app_workflow_get_def by (intro keeps_guarded keeps_same) (auto simp: Let_def split: sum.splits prod.splits)

lemma app_command_stores: "app_command e args s = (r, s') \<Longrightarrow> db_dir s' = db_dir s \<and> db_schedules s' = db_schedules s"
  by (auto simp: app_command_def split: prod.splits)

lemma keeps_commands: "keeps_stores (app_run e)" "keeps_stores (app_action e)"
  unfolding app_run_def app_action_def
  by (intro keeps_guarded keeps_same; auto split: option.splits if_splits dest: app_command_stores)+

lemma keeps_workflow_edits: "keeps_stores (app_workflow_save e)" "keeps_stores (app_workflow_delete e)"
  unfolding app_workflow_save_def app_workflow_delete_def
  by (intro keeps_guarded; auto simp: keeps_stores_def dashboard_ok_def tick_dashboard_def
      split: option.splits if_splits prod.splits sum.splits dest: save_keeps_files remove_keeps_files)+

lemma add_keeps_limits:
  "add_schedule pe we c f = (r, f') \<Longrightarrow> (\<forall>ss. read_file [] f = Inr ss \<longrightarrow> schedules_ok ss) \<Longrightarrow>
     (\<forall>ss. read_file [] f' = Inr ss \<longrightarrow> schedules_ok ss)"
  using add_schedule_failure add_schedule_ok add_schedule_success by (cases r) fastforce+

lemma remove_keeps_limits:
  "remove_schedule_at pe we i f = (r, f') \<Longrightarrow> (\<forall>ss. read_file [] f = Inr ss \<longrightarrow> schedules_ok ss) \<Longrightarrow>
     (\<forall>ss. read_file [] f' = Inr ss \<longrightarrow> schedules_ok ss)"
proof (cases r)
  case (Inl err)
  assume "remove_schedule_at pe we i f = (r, f')" and "\<forall>ss. read_file [] f = Inr ss \<longrightarrow> schedules_ok ss"
  with Inl show ?thesis
    by (auto simp: remove_schedule_at_def load_schedules_def save_schedules_def Let_def split: option.splits sum.splits if_splits)
next
  case (Inr n)
  assume "remove_schedule_at pe we i f = (r, f')" and "\<forall>ss. read_file [] f = Inr ss \<longrightarrow> schedules_ok ss"
  with Inr show ?thesis using remove_schedule_success[of pe we i f n f'] remove_schedule_ok[of pe we i f n f'] by fastforce
qed

lemma keeps_schedule_edits: "keeps_stores (app_schedule_add e)" "keeps_stores (app_schedule_remove e)"
  unfolding app_schedule_add_def app_schedule_remove_def
  by (intro keeps_guarded; auto simp: keeps_stores_def dashboard_ok_def tick_dashboard_def Let_def
      split: option.splits if_splits prod.splits sum.splits dest: add_keeps_limits remove_keeps_limits)+

lemma app_serve_keeps:
  assumes "app_serve e q s = (r, s')" and "dashboard_ok s"
  shows "dashboard_ok s'"
proof (cases rule: route_for_cases[of "app_routes e" q])
  case (found m p h)
  have "list_all (\<lambda>(m, p, h). keeps_stores h) (app_routes e)"
    by (simp add: app_routes_def keeps_static keeps_reading keeps_get keeps_commands keeps_workflow_edits keeps_schedule_edits)
  with found(1) have "keeps_stores h" by (auto simp: list_all_iff)
  with found(2) assms show ?thesis by (auto simp: app_serve_def keeps_stores_def)
next
  case (missing c msg)
  then show ?thesis using assms by (auto simp: app_serve_def)
qed

section \<open>Previews and promotions\<close>

lemma dry_run_args_untouched:
  assumes "split_phrase rest = (words, fargs)" and "parse_flags run_flags [] fargs = Inr (vs, left)" and "flag_set vs ''dry-run''"
  shows "untouched w (snd (snd (run_run su env (name # rest) w)))"
proof (cases "load (su_builtin su) (su_user su) name")
  case Inl
  then show ?thesis by (simp add: run_run_def assms(1,2))
next
  case k: (Inr k)
  obtain x w1 where win: "command_window su env (flag_str vs ''start'') (flag_str vs ''end'') (command_phrase words left) w = (x, w1)"
    by fastforce
  have "opt_dry_run (flag_options vs su s f d)" for su s f d using assms(3) by (simp add: flag_options_def)
  then have "untouched w (snd (snd (execute_output su env k (flag_options vs sub s f d) w1)))" for sub s f d
    using dry_run_untouched untouched_trans window_untouched[OF win] by blast
  then show ?thesis using window_untouched[OF win]
    by (simp add: run_run_def assms(1,2) k win Let_def split: sum.splits prod.splits)
qed

definition plain_words :: "string \<Rightarrow> bool" where
  "plain_words phrase \<longleftrightarrow> list_all (\<lambda>v. \<not> has_prefix v ''-'') (Go_Strings.fields phrase)"

lemma split_plain:
  "list_all (\<lambda>v. \<not> has_prefix v ''-'') vs \<Longrightarrow> rest = [] \<or> has_prefix (hd rest) ''-'' \<Longrightarrow> split_phrase (vs @ rest) = (vs, rest)"
  by (induction vs) (cases rest; auto)+

definition run_pairs :: "run_body \<Rightarrow> (string \<times> string) list" where
  "run_pairs b = present [(''subject'', rb_subject b), (''manager'', rb_manager b), (''provider'', rb_provider b)]"

lemma app_run_args_pairs:
  "app_run_args b = ''run'' # rb_workflow b # Go_Strings.fields (rb_phrase b) @ pairs (run_pairs b)
     @ (if rb_dry_run b then [''--dry-run''] else [])"
  using opt_flag_pairs[of "''subject''" "rb_subject b"] opt_flag_pairs[of "''manager''" "rb_manager b"]
    opt_flag_pairs[of "''provider''" "rb_provider b"]
  by (simp add: app_run_args_def run_pairs_def present_def)

lemma run_pairs_str: "list_all (\<lambda>(n, v). run_str n) (run_pairs b)"
  unfolding run_pairs_def by (rule present_all) (simp add: run_strs)

lemma dashboard_preview_untouched:
  assumes "rb_dry_run b" and "plain_words (rb_phrase b)"
  shows "untouched w (snd (snd (run_run su env (tl (app_run_args b)) w)))"
proof -
  let ?rest = "pairs (run_pairs b) @ [''--dry-run'']"
  have "hd ?rest = ''--dry-run'' \<or> (\<exists>n. hd ?rest = ''--'' @ n)" by (cases "run_pairs b") auto
  then have "has_prefix (hd ?rest) ''-''" by auto
  from split_plain[OF assms(2)[unfolded plain_words_def] disjI2[OF this]]
  have sp: "split_phrase (Go_Strings.fields (rb_phrase b) @ ?rest) = (Go_Strings.fields (rb_phrase b), ?rest)" .
  have "parse_flags run_flags [] ?rest = parse_flags run_flags (set_flags (run_pairs b) []) [''--dry-run'']"
    by (rule parse_pairs[OF run_pairs_str])
  also have "\<dots> = Inr (AList.update ''dry-run'' ''true'' (set_flags (run_pairs b) []), [])"
    using bool_flag_read[OF dry_run_bool, of "set_flags (run_pairs b) []" "[]"] by simp
  finally have fl: "parse_flags run_flags [] ?rest = Inr (AList.update ''dry-run'' ''true'' (set_flags (run_pairs b) []), [])" .
  have "flag_set (AList.update ''dry-run'' ''true'' (set_flags (run_pairs b) [])) ''dry-run''"
    by (simp add: flag_set_def flag_str_update)
  from dry_run_args_untouched[OF sp fl this] show ?thesis by (simp add: app_run_args_pairs assms(1))
qed

text \<open>What the dashboard needs of the subprocess: it is this program, on the same files and the same calendar.\<close>

definition app_outside :: "app_env \<Rightarrow> outside \<Rightarrow> dir \<Rightarrow> outside" where
  "app_outside e su d = su\<lparr>su_builtin := ae_builtin e, su_user := app_user e d\<rparr>"

definition app_runs_self :: "app_env \<Rightarrow> outside \<Rightarrow> (string \<Rightarrow> command) \<Rightarrow> bool" where
  "app_runs_self e su others \<longleftrightarrow>
     (\<forall>d args w code out err w'. execute (app_outside e su d) (ae_env e) others args w = Some (code, out, err, w')
        \<longrightarrow> snd (ae_exec e d args w) = w')"

lemma app_command_world:
  assumes "app_runs_self e su others" and "execute (app_outside e su (db_dir s)) (ae_env e) others args (db_world s) = Some (code, out, err, w')"
    and "app_command e args s = (r, s')"
  shows "s' = s\<lparr>db_world := w'\<rparr>"
proof -
  from assms(1,2) have "snd (ae_exec e (db_dir s) args (db_world s)) = w'" unfolding app_runs_self_def by blast
  then show ?thesis using assms(3) by (auto simp: app_command_def split: prod.splits)
qed

lemma app_run_acts:
  assumes "app_run e q s = (r, s')" and "s' \<noteq> s"
  obtains b where "decode_body run_field zero_run_body (aq_body q) = Some b" "app_command e (app_run_args b) s = (r, s')"
  using assms by (auto simp: app_run_def guarded_def split: if_splits option.splits)

lemma app_action_acts:
  assumes "app_action e q s = (r, s')" and "s' \<noteq> s"
  obtains b where "decode_body action_field \<lparr>ab_action = [], ab_provider = [], ab_hold_id = []\<rparr> (aq_body q) = Some b"
    "ab_action b \<in> set [''check'', ''promote'', ''cancel'']" "app_command e (app_action_args b) s = (r, s')"
  using assms by (auto simp: app_action_def guarded_def split: if_splits option.splits)

lemma app_serve_run: "aq_method q = ''POST'' \<Longrightarrow> aq_path q = ''/api/run'' \<Longrightarrow> app_serve e q s = app_run e q s"
  by (simp add: app_serve_def route_for_def app_routes_def)

lemma app_serve_action: "aq_method q = ''POST'' \<Longrightarrow> aq_path q = ''/api/action'' \<Longrightarrow> app_serve e q s = app_action e q s"
  by (simp add: app_serve_def route_for_def app_routes_def)

lemma app_action_args_pairs:
  "app_action_args b = ab_action b # [''--id'', ab_hold_id b] @ pairs (present [(''provider'', ab_provider b)])"
  using opt_flag_pairs[of "''provider''" "ab_provider b"] by (simp add: app_action_args_def)

lemma app_promote_command:
  "promote_command su env (tl (app_action_args b)) w
     = ([], run_promote env (su_provider su) (ab_hold_id b) (ab_provider b) False w)"
proof -
  let ?ps = "(''id'', ab_hold_id b) # present [(''provider'', ab_provider b)]"
  let ?spec = "hold_flags @ bools [''force'']"
  have "str_flag ?spec ''id''" "str_flag ?spec ''provider''" by code_simp+
  then have "list_all (\<lambda>(n, v). str_flag ?spec n) ?ps" using present_all[of ?spec "[(''provider'', ab_provider b)]"] by simp
  from parse_pairs[OF this, of "[]" "[]"] have p: "parse_flags ?spec [] (pairs ?ps) = Inr (set_flags ?ps [], [])" by simp
  have "flag_str (set_flags ?ps []) ''id'' = ab_hold_id b" "flag_str (set_flags ?ps []) ''provider'' = ab_provider b"
    "flag_str (set_flags ?ps []) ''force'' = []"
    by (simp_all add: present_def set_flags_def flag_str_def)
  with p show ?thesis by (simp add: promote_command_def app_action_args_pairs flag_set_def)
qed

section \<open>What the theory establishes\<close>

text \<open>
  C6. No other site drives the dashboard. A request whose Host, or whose Origin under any scheme, names a host other
  than \<open>localhost\<close>, \<open>127.0.0.1\<close> and \<open>[::1]\<close>, with a port or none, or whose Origin is the opaque \<open>null\<close>, changes
  nothing: it gets 403, or the 404 or 405 of a request no route takes. The host is a name without percent escapes or
  an IPv6 address in brackets.
\<close>

theorem other_sites_cannot_act:
  assumes "web_host h" and "port_text p" and "web_scheme sch" and "h \<notin> {''localhost'', ''127.0.0.1'', ''[::1]''}"
    and "aq_host q = h @ p \<or> aq_origin q = sch @ ''://'' @ h @ p \<or> aq_origin q = ''null''"
  shows "snd (app_serve e q s) = s \<and> ar_status (fst (app_serve e q s)) \<in> {403, 404, 405}"
proof (rule refused_unless_local)
  have "url_hostname ''null'' = Some []" by code_simp
  then show "\<not> local_only q"
    using assms(5) web_host_elsewhere[OF assms(1,2,4)] origin_hostname[OF assms(3,1,2)]
    by (auto simp: local_only_def is_loopback_host_def)
qed

definition dashboard_env :: app_env where
  "dashboard_env = \<lparr>ae_env = quiet_env, ae_builtin = builtin_dir, ae_client = ([], []), ae_dir_error = None, ae_schedule_error = None,
     ae_version = ''1.0'', ae_exec = (\<lambda>d args w. case execute (agent_outside\<lparr>su_builtin := builtin_dir, su_user := Dir d\<rparr>)
         quiet_env (\<lambda>n a w. None) args w of
       None \<Rightarrow> (([], Some (Errorf ''killed'' [])), w) | Some (code, out, err, w') \<Rightarrow> ((out, err), w'))\<rparr>"

definition new_dashboard :: dashboard where
  "new_dashboard = \<lparr>db_dir = [], db_schedules = Absent, db_world = empty_world\<rparr>"

definition local_post :: "string \<Rightarrow> string \<Rightarrow> app_request" where
  "local_post path body = \<lparr>aq_method = ''POST'', aq_path = path, aq_host = ''127.0.0.1:8787'', aq_origin = [], aq_query = [],
     aq_body = body\<rparr>"

theorem other_sites_cannot_act_witness:
  "snd (app_serve dashboard_env ((local_post ''/api/run'' ''{}'')\<lparr>aq_origin := ''https://evil.example''\<rparr>) new_dashboard) = new_dashboard
     \<and> snd (app_serve dashboard_env ((local_post ''/api/run'' ''{}'')\<lparr>aq_origin := ''moz-extension://[2001:db8::1]:8787''\<rparr>) new_dashboard)
         = new_dashboard"
proof -
  have h: "web_host ''evil.example''" "web_host ''[2001:db8::1]''" "web_scheme ''https''" "web_scheme ''moz-extension''" by code_simp+
  have p: "port_text []" "port_text '':8787''" by (simp_all add: port_text_def is_digit_def less_eq_char_def)
  show ?thesis
    using other_sites_cannot_act[OF h(1) p(1) h(3), of "(local_post ''/api/run'' ''{}'')\<lparr>aq_origin := ''https://evil.example''\<rparr>" dashboard_env new_dashboard]
      other_sites_cannot_act[OF h(2) p(2) h(4), of "(local_post ''/api/run'' ''{}'')\<lparr>aq_origin := ''moz-extension://[2001:db8::1]:8787''\<rparr>" dashboard_env new_dashboard]
    by simp
qed

text \<open>
  C7. A preview from the dashboard acts on nothing as long as no word of its phrase looks like a flag: the request
  leaves the calendar, the messages, the filed leave and every file as they were. It is assumed that the subprocess
  is this program.
\<close>

theorem dashboard_preview_never_acts:
  assumes "app_runs_self e su others" and "aq_method q = ''POST''" and "aq_path q = ''/api/run''"
    and "decode_body run_field zero_run_body (aq_body q) = Some b" and "rb_dry_run b" and "plain_words (rb_phrase b)"
    and "app_serve e q s = (r, s')"
  shows "db_dir s' = db_dir s \<and> db_schedules s' = db_schedules s \<and> w_trace (db_world s') = w_trace (db_world s)
    \<and> w_watches (db_world s') = w_watches (db_world s) \<and> w_state (db_world s') = w_state (db_world s)
    \<and> w_audit (db_world s') = w_audit (db_world s) \<and> w_ledger (db_world s') = w_ledger (db_world s)
    \<and> w_team (db_world s') = w_team (db_world s)"
proof (cases "s' = s")
  case False
  let ?su = "app_outside e su (db_dir s)"
  have "app_run e q s = (r, s')" using assms(7) app_serve_run[OF assms(2,3)] by simp
  then obtain b' where "decode_body run_field zero_run_body (aq_body q) = Some b'" "app_command e (app_run_args b') s = (r, s')"
    using False by (rule app_run_acts)
  with assms(4) have c: "app_command e (app_run_args b) s = (r, s')" by simp
  obtain out err w1 where x: "run_run ?su (ae_env e) (tl (app_run_args b)) (db_world s) = (out, err, w1)" by (metis prod_cases3)
  have "app_run_args b = ''run'' # tl (app_run_args b)" by (simp add: app_run_args_pairs)
  with execute_run[OF x] have "execute ?su (ae_env e) others (app_run_args b) (db_world s) = Some (exit_code err, out, err, w1)"
    by metis
  from app_command_world[OF assms(1) this c] have "s' = s\<lparr>db_world := w1\<rparr>" .
  moreover have "untouched (db_world s) w1"
    using dashboard_preview_untouched[OF assms(5,6), of "db_world s" ?su "ae_env e"] by (simp add: x)
  ultimately show ?thesis using untouched_files by simp
qed simp

lemma dashboard_env_runs: "app_runs_self dashboard_env agent_outside (\<lambda>n a w. None)"
  by (simp add: app_runs_self_def dashboard_env_def app_outside_def app_user_def)

definition preview_body :: "string \<Rightarrow> run_body" where
  "preview_body phrase = zero_run_body\<lparr>rb_workflow := ''pto'', rb_phrase := phrase, rb_dry_run := True\<rparr>"

definition preview_post :: "string \<Rightarrow> app_request" where
  "preview_post phrase = local_post ''/api/run''
     (show_json (JObj [(''workflow'', JStr ''pto''), (''phrase'', JStr phrase), (''dryRun'', JBool True)]))"

theorem dashboard_preview_never_acts_witness:
  "\<exists>r s'. app_serve dashboard_env (preview_post ''next week'') new_dashboard = (r, s') \<and> w_trace (db_world s') = []"
proof -
  obtain r s' where r: "app_serve dashboard_env (preview_post ''next week'') new_dashboard = (r, s')" by fastforce
  have b: "decode_body run_field zero_run_body (aq_body (preview_post ''next week'')) = Some (preview_body ''next week'')"
    "plain_words (rb_phrase (preview_body ''next week''))" by code_simp+
  have q: "aq_method (preview_post ''next week'') = ''POST''" "aq_path (preview_post ''next week'') = ''/api/run''"
    "rb_dry_run (preview_body ''next week'')" by (simp_all add: preview_post_def local_post_def preview_body_def)
  from dashboard_preview_never_acts[OF dashboard_env_runs q(1,2) b(1) q(3) b(2) r] r show ?thesis
    by (simp add: new_dashboard_def empty_world_def)
qed

text \<open>
  The promote button cannot be forced. When a request to act on a hold with \<open>promote\<close> changed the calendar, the hold it
  named was reported as accepted by its approver: nothing in the request reaches \<open>--force\<close>.
\<close>

theorem dashboard_promote_needs_approval:
  assumes "app_runs_self e su others" and "aq_method q = ''POST''" and "aq_path q = ''/api/action''"
    and "decode_body action_field \<lparr>ab_action = [], ab_provider = [], ab_hold_id = []\<rparr> (aq_body q) = Some b"
    and "ab_action b = ''promote''" and "app_serve e q s = (r, s')" and "w_trace (db_world s') \<noteq> w_trace (db_world s)"
  shows "\<exists>ref h. resolve_hold (e_getenv (ae_env e)) (e_state_path (ae_env e)) (ab_hold_id b) (ab_provider b)
      (w_state (db_world s)) = Inr ref
    \<and> e_get (ae_env e) (w_tick (db_world s)) (ref_id ref) = Inr h \<and> att_response (manager_attendee h) = ResponseAccepted"
proof -
  let ?su = "app_outside e su (db_dir s)"
  have "app_action e q s = (r, s')" using assms(6) app_serve_action[OF assms(2,3)] by simp
  moreover have "s' \<noteq> s" using assms(7) by auto
  ultimately obtain b' where "decode_body action_field \<lparr>ab_action = [], ab_provider = [], ab_hold_id = []\<rparr> (aq_body q) = Some b'"
    "app_command e (app_action_args b') s = (r, s')" by (rule app_action_acts)
  with assms(4) have c: "app_command e (app_action_args b) s = (r, s')" by simp
  obtain err w1 where x: "run_promote (ae_env e) (su_provider ?su) (ab_hold_id b) (ab_provider b) False (db_world s) = (err, w1)"
    by fastforce
  have "promote_command ?su (ae_env e) (tl (app_action_args b)) (db_world s) = ([], err, w1)"
    using x by (simp add: app_promote_command)
  moreover have "app_action_args b = ''promote'' # tl (app_action_args b)" by (simp add: app_action_args_pairs assms(5))
  ultimately have "execute ?su (ae_env e) others (app_action_args b) (db_world s) = Some (exit_code err, [], err, w1)"
    using execute_promote_args by metis
  from app_command_world[OF assms(1) this c] have "db_world s' = w1" by simp
  with unapproved_not_promoted[OF x] assms(7) show ?thesis by simp
qed

inductive dashboard_steps :: "app_env \<Rightarrow> dashboard \<Rightarrow> dashboard \<Rightarrow> bool" for e where
  dashboard_start: "dashboard_steps e s s"
| dashboard_request: "dashboard_steps e s s' \<Longrightarrow> app_serve e q s' = (r, s'') \<Longrightarrow> dashboard_steps e s s''"
| dashboard_poll: "dashboard_steps e s s' \<Longrightarrow>
    poll_schedules (ae_env e) (ae_schedule_error e) run (db_schedules s', db_world s') = (f, w) \<Longrightarrow>
    dashboard_steps e s (s'\<lparr>db_schedules := f, db_world := w\<rparr>)"

lemma poll_keeps_limits:
  assumes "poll_schedules env pe run (f, w) = (f', w')" and "\<forall>ss. read_file [] f = Inr ss \<longrightarrow> schedules_ok ss"
  shows "\<forall>ss. read_file [] f' = Inr ss \<longrightarrow> schedules_ok ss"
proof (cases "load_schedules pe f")
  case (Inl err)
  then show ?thesis using assms by (simp add: poll_schedules_def)
next
  case (Inr items)
  have ok: "schedules_ok items" using Inr assms(2) by (simp add: load_schedules_def split: option.splits)
  show ?thesis
  proof (cases items)
    case Nil
    then show ?thesis using assms Inr by (simp add: poll_schedules_def)
  next
    case (Cons c cs)
    obtain t w1 where n: "now env w = (t, w1)" by fastforce
    obtain updated w2 where u: "fire_schedules t run items w1 = (updated, w2)" by fastforce
    have "schedules_ok updated" using fire_schedules_ok[OF ok, of t run w1] by (simp add: u)
    moreover have "f' = snd (save_schedules pe (e_write env (w_tick w2)) updated f)"
      using assms(1) Inr n u Cons by (simp add: poll_schedules_def)
    ultimately show ?thesis using assms(2) by (auto simp: save_schedules_def split: option.splits)
  qed
qed

text \<open>
  C12. The stores of the dashboard stay within their limits. Starting with workflow files the program saved and with at
  most 100 schedules, no two alike, every sequence of requests, mixed with polls of the daemon, keeps it that way:
  every user workflow is a checked definition in the file of its own safe name.
\<close>

theorem dashboard_keeps_limits:
  assumes "dashboard_steps e s s'" and "dashboard_ok s"
  shows "dashboard_ok s'"
  using assms
proof (induction rule: dashboard_steps.induct)
  case (dashboard_request s s' q r s'')
  then show ?case using app_serve_keeps by blast
next
  case (dashboard_poll s s' run f w)
  have ok: "saved_files (db_dir s')" "\<forall>ss. read_file [] (db_schedules s') = Inr ss \<longrightarrow> schedules_ok ss"
    using dashboard_poll.IH[OF dashboard_poll.prems] by (simp_all add: dashboard_ok_def)
  have t: "db_dir (s'\<lparr>db_schedules := f, db_world := w\<rparr>) = db_dir s'"
    "db_schedules (s'\<lparr>db_schedules := f, db_world := w\<rparr>) = f" by simp_all
  show ?case unfolding dashboard_ok_def t
    using ok(1) poll_keeps_limits[OF dashboard_poll.hyps(2) ok(2)] by blast
qed simp

theorem dashboard_keeps_limits_witness:
  "dashboard_ok (snd (app_serve dashboard_env (local_post ''/api/workflows/delete'' ''{}'') new_dashboard))"
proof -
  let ?s = "snd (app_serve dashboard_env (local_post ''/api/workflows/delete'' ''{}'') new_dashboard)"
  have "dashboard_steps dashboard_env new_dashboard ?s"
    by (rule dashboard_request[OF dashboard_start]) (rule prod.collapse[symmetric])
  moreover have "dashboard_ok new_dashboard"
    by (simp add: dashboard_ok_def new_dashboard_def saved_files_def schedules_ok_def)
  ultimately show ?thesis by (rule dashboard_keeps_limits)
qed

definition pto_flow :: workflow where
  "pto_flow = (case load builtin_dir (Dir []) ''pto'' of Inr k \<Rightarrow> k | Inl e \<Rightarrow> zero_workflow)"

lemma pto_flow_loads: "load builtin_dir (Dir []) ''pto'' = Inr pto_flow"
  by code_simp

definition slip_window :: "window result" where
  "slip_window = resolve_window UTC noon [] [] ''next week''"

definition first_body :: "effect list \<Rightarrow> string option" where
  "first_body xs = (case xs of Created h # ys \<Rightarrow> Some (hold_body h) | _ \<Rightarrow> None)"

lemma slip_runs:
  "case slip_window of Inl e \<Rightarrow> False
   | Inr (s, f, d) \<Rightarrow> first_body (w_trace (snd (run_workflow_on quiet_env ''graph'' pto_flow
       (flag_options [(''body'', ''--dry-run'')] (default_subject pto_flow) s f d) (tick empty_world)))) = Some ''--dry-run''"
  by code_simp

text \<open>
  C31. A phrase can take the place of the preview. The dashboard splits the phrase into words and adds \<open>--dry-run\<close> last, so a
  phrase that ends in a flag with a value, here \<open>next week --body\<close>, makes \<open>--dry-run\<close> the body of the event: what was
  asked for as a preview of \<open>pto\<close> books the hold. The MCP server passes the phrase as one word and is not affected.
\<close>

theorem phrase_flag_defeats_preview:
  "first_body (w_trace (db_world (snd (app_serve dashboard_env (preview_post ''next week --body'') new_dashboard)))) = Some ''--dry-run''"
proof -
  let ?args = "[''pto'', ''next'', ''week'', ''--body'', ''--dry-run'']"
  let ?su = "agent_outside\<lparr>su_builtin := builtin_dir, su_user := Dir []\<rparr>"
  obtain s f d where win: "slip_window = Inr (s, f, d)"
    using slip_runs by (auto split: sum.splits prod.splits)
  have body: "decode_body run_field zero_run_body (aq_body (preview_post ''next week --body'')) = Some (preview_body ''next week --body'')"
    "app_run_args (preview_body ''next week --body'') = ''run'' # ?args" "local_only (preview_post ''next week --body'')"
    by code_simp+
  have split: "split_phrase (tl ?args) = ([''next'', ''week''], [''--body'', ''--dry-run''])"
    "parse_flags run_flags [] [''--body'', ''--dry-run''] = Inr ([(''body'', ''--dry-run'')], [])"
    "command_phrase [''next'', ''week''] [] = ''next week''" by code_simp+
  have w: "command_window ?su quiet_env [] [] ''next week'' empty_world = (Inr (s, f, d), tick empty_world)"
    using win by (simp add: command_window_def slip_window_def agent_outside_def now_def quiet_env_def empty_world_def)
  have load: "load (su_builtin ?su) (su_user ?su) ''pto'' = Inr pto_flow" by (simp add: pto_flow_loads)
  let ?opt = "flag_options [(''body'', ''--dry-run'')] (default_subject pto_flow) s f d"
  have flags: "flag_str [(''body'', ''--dry-run'')] n = []" if "n \<noteq> ''body''" for n using that by (simp add: flag_str_def)
  have graph: "resolve_provider (e_getenv quiet_env) (opt_provider ?opt) = ''graph''"
    by (simp add: resolve_provider_def quiet_env_def flag_options_def flags)
  have "snd (snd (run_run ?su quiet_env ?args empty_world)) = snd (run_workflow_on quiet_env ''graph'' pto_flow ?opt (tick empty_world))"
    using split load w graph
    by (simp add: run_run_def flags Let_def execute_output_def execute_workflow_def agent_outside_def)
  moreover obtain out err w1 where r: "run_run ?su quiet_env ?args empty_world = (out, err, w1)" by (metis prod_cases3)
  ultimately have w1: "w1 = snd (run_workflow_on quiet_env ''graph'' pto_flow ?opt (tick empty_world))" by simp
  have "snd (ae_exec dashboard_env [] (''run'' # ?args) empty_world) = w1"
    using execute_run[OF r, of "\<lambda>n a w. None"] by (simp add: dashboard_env_def)
  then have "db_world (snd (app_serve dashboard_env (preview_post ''next week --body'') new_dashboard)) = w1"
    using body app_serve_run[of "preview_post ''next week --body''" dashboard_env new_dashboard]
    by (simp add: preview_post_def local_post_def app_run_def guarded_def preview_body_def zero_run_body_def app_command_def
        new_dashboard_def split: prod.splits)
  then show ?thesis using slip_runs by (simp add: win w1)
qed

end
