(* ===== verification/Store_Json.thy ===== *)
theory Store_Json
  imports Schedule Go_Rfc3339 Go_Http
begin

text \<open>
  The text of the JSON files: the run history (\<open>internal/audit/store.go\<close>), the watch list (\<open>cmd/watch.go\<close>), the coverage ledger
  (\<open>internal/coverage/coverage.go\<close>), the schedules (\<open>cmd/schedule.go\<close>), the last hold (\<open>cmd/state.go\<close>) and the team
  (\<open>cmd/team.go\<close>). The other theories keep each file as the value it holds; here the value is written to text and read back.
  An action is a string of the source; names the program does not write are not read.
\<close>

section \<open>Members\<close>

definition time_json :: "gotime \<Rightarrow> json" where
  "time_json t = JStr (format_rfc3339_nano t)"

fun as_time :: "location \<Rightarrow> gotime \<Rightarrow> json \<Rightarrow> gotime option" where
  "as_time local old (JStr s) = parse_rfc3339 local s"
| "as_time local old JNull = Some old"
| "as_time local old _ = None"

definition omit_zero :: "string \<Rightarrow> int \<Rightarrow> (string \<times> json) list" where
  "omit_zero k i = (if i = 0 then [] else [(k, JInt i)])"

definition all_actions :: "action list" where
  "all_actions = [ActionCreated, ActionApproved, ActionDeclined, ActionExpired, ActionAdvanced, ActionNotified, ActionNoted,
     ActionMessaged, ActionCanceled, ActionFiled]"

fun action_name :: "action \<Rightarrow> string" where
  "action_name ActionCreated = ''created''" | "action_name ActionApproved = ''approved''" | "action_name ActionDeclined = ''declined''"
| "action_name ActionExpired = ''expired''" | "action_name ActionAdvanced = ''advanced''" | "action_name ActionNotified = ''notified''"
| "action_name ActionNoted = ''noted''" | "action_name ActionMessaged = ''messaged''" | "action_name ActionCanceled = ''canceled''"
| "action_name ActionFiled = ''filed''"

fun as_action_name :: "action \<Rightarrow> json \<Rightarrow> action option" where
  "as_action_name old (JStr s) = find (\<lambda>a. action_name a = s) all_actions"
| "as_action_name old JNull = Some old"
| "as_action_name old _ = None"

section \<open>The records\<close>

definition event_json :: "event \<Rightarrow> json" where
  "event_json e = JObj ([(''time'', time_json (ev_time e))]
     @ omit_empty ''workflow'' (ev_workflow e) @ omit_empty ''provider'' (ev_provider e) @ omit_empty ''hold_id'' (ev_hold_id e)
     @ [(''action'', JStr (action_name (ev_action e)))]
     @ omit_empty ''actor'' (ev_actor e) @ omit_empty ''detail'' (ev_detail e))"

definition event_member :: "location \<Rightarrow> event \<Rightarrow> string \<Rightarrow> json \<Rightarrow> event option" where
  "event_member local e k v =
     (if equal_fold k ''time'' then map_option (\<lambda>x. e\<lparr>ev_time := x\<rparr>) (as_time local (ev_time e) v)
      else if equal_fold k ''workflow'' then map_option (\<lambda>x. e\<lparr>ev_workflow := x\<rparr>) (as_string (ev_workflow e) v)
      else if equal_fold k ''provider'' then map_option (\<lambda>x. e\<lparr>ev_provider := x\<rparr>) (as_string (ev_provider e) v)
      else if equal_fold k ''hold_id'' then map_option (\<lambda>x. e\<lparr>ev_hold_id := x\<rparr>) (as_string (ev_hold_id e) v)
      else if equal_fold k ''action'' then map_option (\<lambda>x. e\<lparr>ev_action := x\<rparr>) (as_action_name (ev_action e) v)
      else if equal_fold k ''actor'' then map_option (\<lambda>x. e\<lparr>ev_actor := x\<rparr>) (as_string (ev_actor e) v)
      else if equal_fold k ''detail'' then map_option (\<lambda>x. e\<lparr>ev_detail := x\<rparr>) (as_string (ev_detail e) v)
      else Some e)"

definition watch_json :: "watch_item \<Rightarrow> json" where
  "watch_json w = JObj ([(''provider'', JStr (wi_provider w)), (''hold_id'', JStr (wi_hold_id w)), (''workflow'', JStr (wi_workflow w)),
       (''step'', JInt (wi_step w))]
     @ omit_zero ''resume'' (wi_resume w) @ omit_false ''done'' (wi_done w)
     @ omit_empty ''approver'' (wi_approver w) @ omit_empty ''subject'' (wi_subject w) @ [(''created_at'', time_json (wi_created w))])"

definition watch_member :: "location \<Rightarrow> watch_item \<Rightarrow> string \<Rightarrow> json \<Rightarrow> watch_item option" where
  "watch_member local w k v =
     (if equal_fold k ''provider'' then map_option (\<lambda>x. w\<lparr>wi_provider := x\<rparr>) (as_string (wi_provider w) v)
      else if equal_fold k ''hold_id'' then map_option (\<lambda>x. w\<lparr>wi_hold_id := x\<rparr>) (as_string (wi_hold_id w) v)
      else if equal_fold k ''workflow'' then map_option (\<lambda>x. w\<lparr>wi_workflow := x\<rparr>) (as_string (wi_workflow w) v)
      else if equal_fold k ''step'' then map_option (\<lambda>x. w\<lparr>wi_step := x\<rparr>) (as_int (wi_step w) v)
      else if equal_fold k ''resume'' then map_option (\<lambda>x. w\<lparr>wi_resume := x\<rparr>) (as_int (wi_resume w) v)
      else if equal_fold k ''done'' then map_option (\<lambda>x. w\<lparr>wi_done := x\<rparr>) (as_bool (wi_done w) v)
      else if equal_fold k ''approver'' then map_option (\<lambda>x. w\<lparr>wi_approver := x\<rparr>) (as_string (wi_approver w) v)
      else if equal_fold k ''subject'' then map_option (\<lambda>x. w\<lparr>wi_subject := x\<rparr>) (as_string (wi_subject w) v)
      else if equal_fold k ''created_at'' then map_option (\<lambda>x. w\<lparr>wi_created := x\<rparr>) (as_time local (wi_created w) v)
      else Some w)"

definition entry_json :: "Coverage.entry \<Rightarrow> json" where
  "entry_json e = JObj ([(''owner'', JStr (ce_owner e))] @ omit_empty ''hold_id'' (ce_hold_id e)
     @ [(''start'', time_json (ce_start e)), (''end'', time_json (ce_end e))] @ omit_empty ''subject'' (ce_subject e))"

definition entry_member :: "location \<Rightarrow> Coverage.entry \<Rightarrow> string \<Rightarrow> json \<Rightarrow> Coverage.entry option" where
  "entry_member local e k v =
     (if equal_fold k ''owner'' then map_option (\<lambda>x. e\<lparr>ce_owner := x\<rparr>) (as_string (ce_owner e) v)
      else if equal_fold k ''hold_id'' then map_option (\<lambda>x. e\<lparr>ce_hold_id := x\<rparr>) (as_string (ce_hold_id e) v)
      else if equal_fold k ''start'' then map_option (\<lambda>x. e\<lparr>ce_start := x\<rparr>) (as_time local (ce_start e) v)
      else if equal_fold k ''end'' then map_option (\<lambda>x. e\<lparr>ce_end := x\<rparr>) (as_time local (ce_end e) v)
      else if equal_fold k ''subject'' then map_option (\<lambda>x. e\<lparr>ce_subject := x\<rparr>) (as_string (ce_subject e) v)
      else Some e)"

definition schedule_item_json :: "schedule_item \<Rightarrow> json" where
  "schedule_item_json s = JObj ([(''workflow'', JStr (sc_workflow s))] @ omit_empty ''provider'' (sc_provider s)
     @ [(''every'', JStr (sc_every s)), (''next_run'', time_json (sc_next_run s))]
     @ omit_empty ''phrase'' (sc_phrase s) @ omit_empty ''subject'' (sc_subject s) @ omit_empty ''manager'' (sc_manager s))"

definition schedule_member :: "location \<Rightarrow> schedule_item \<Rightarrow> string \<Rightarrow> json \<Rightarrow> schedule_item option" where
  "schedule_member local s k v =
     (if equal_fold k ''workflow'' then map_option (\<lambda>x. s\<lparr>sc_workflow := x\<rparr>) (as_string (sc_workflow s) v)
      else if equal_fold k ''provider'' then map_option (\<lambda>x. s\<lparr>sc_provider := x\<rparr>) (as_string (sc_provider s) v)
      else if equal_fold k ''every'' then map_option (\<lambda>x. s\<lparr>sc_every := x\<rparr>) (as_string (sc_every s) v)
      else if equal_fold k ''next_run'' then map_option (\<lambda>x. s\<lparr>sc_next_run := x\<rparr>) (as_time local (sc_next_run s) v)
      else if equal_fold k ''phrase'' then map_option (\<lambda>x. s\<lparr>sc_phrase := x\<rparr>) (as_string (sc_phrase s) v)
      else if equal_fold k ''subject'' then map_option (\<lambda>x. s\<lparr>sc_subject := x\<rparr>) (as_string (sc_subject s) v)
      else if equal_fold k ''manager'' then map_option (\<lambda>x. s\<lparr>sc_manager := x\<rparr>) (as_string (sc_manager s) v)
      else Some s)"

definition zero_event :: event where
  "zero_event = \<lparr>ev_time = zero_time, ev_workflow = [], ev_provider = [], ev_hold_id = [], ev_action = ActionCreated, ev_actor = [], ev_detail = []\<rparr>"

definition zero_watch :: watch_item where
  "zero_watch = \<lparr>wi_provider = [], wi_hold_id = [], wi_workflow = [], wi_step = 0, wi_resume = 0, wi_done = False, wi_approver = [],
     wi_subject = [], wi_created = zero_time\<rparr>"

definition zero_entry :: Coverage.entry where
  "zero_entry = \<lparr>ce_owner = [], ce_hold_id = [], ce_start = zero_time, ce_end = zero_time, ce_subject = []\<rparr>"

definition zero_schedule :: schedule_item where
  "zero_schedule = \<lparr>sc_workflow = [], sc_provider = [], sc_every = [], sc_next_run = zero_time, sc_phrase = [], sc_subject = [], sc_manager = []\<rparr>"

definition as_event :: "location \<Rightarrow> json \<Rightarrow> event option" where
  "as_event local = in_object (event_member local) zero_event"

definition as_watch :: "location \<Rightarrow> json \<Rightarrow> watch_item option" where
  "as_watch local = in_object (watch_member local) zero_watch"

definition as_entry :: "location \<Rightarrow> json \<Rightarrow> Coverage.entry option" where
  "as_entry local = in_object (entry_member local) zero_entry"

definition as_schedule :: "location \<Rightarrow> json \<Rightarrow> schedule_item option" where
  "as_schedule local = in_object (schedule_member local) zero_schedule"

section \<open>The files\<close>

text \<open>\<open>MarshalIndent\<close> of a list, and \<open>Unmarshal\<close>, for which \<open>null\<close> is the empty list.\<close>

definition list_text :: "('a \<Rightarrow> json) \<Rightarrow> 'a list \<Rightarrow> string" where
  "list_text enc xs = indent_json (JArr (map enc xs))"

definition read_list :: "(json \<Rightarrow> 'a option) \<Rightarrow> string \<Rightarrow> 'a list result" where
  "read_list dec t = unmarshal (in_list dec) t"

definition state_text :: "hold_ref \<Rightarrow> string" where
  "state_text h = indent_json (JObj [(''last_hold'', JObj [(''provider'', JStr (ref_provider h)), (''id'', JStr (ref_id h))])])"

definition ref_member :: "hold_ref \<Rightarrow> string \<Rightarrow> json \<Rightarrow> hold_ref option" where
  "ref_member h k v =
     (if equal_fold k ''provider'' then map_option (\<lambda>x. h\<lparr>ref_provider := x\<rparr>) (as_string (ref_provider h) v)
      else if equal_fold k ''id'' then map_option (\<lambda>x. h\<lparr>ref_id := x\<rparr>) (as_string (ref_id h) v)
      else Some h)"

definition read_state :: "string \<Rightarrow> hold_ref result" where
  "read_state t = unmarshal (in_object (\<lambda>h k v. if equal_fold k ''last_hold'' then in_object ref_member h v else Some h) no_ref) t"

section \<open>Reading what was written\<close>

text \<open>
  A codec: what is written for a value in \<open>fits\<close> is plain JSON and decodes to a value that \<open>agrees\<close> with it. A file of such values
  then comes back in order.
\<close>

locale record_codec =
  fixes enc :: "'a \<Rightarrow> json" and dec :: "json \<Rightarrow> 'a option" and fits :: "'a \<Rightarrow> bool" and agrees :: "'a \<Rightarrow> 'a \<Rightarrow> bool"
  assumes plain: "plain_json (enc x)" and decodes: "fits x \<Longrightarrow> \<exists>y. dec (enc x) = Some y \<and> agrees x y"
begin

lemma decodes_all: "list_all fits xs \<Longrightarrow> \<exists>ys. those (map dec (map enc xs)) = Some ys \<and> list_all2 agrees xs ys"
proof (induction xs)
  case (Cons x xs)
  then obtain ys where ys: "those (map dec (map enc xs)) = Some ys" "list_all2 agrees xs ys" by auto
  obtain y where "dec (enc x) = Some y" "agrees x y" using decodes[of x] Cons.prems by auto
  then show ?case using ys by auto
qed simp

lemma file_comes_back:
  assumes "list_all fits xs"
  shows "\<exists>ys. read_list dec (list_text enc xs) = Inr ys \<and> list_all2 agrees xs ys"
proof -
  have "plain_json (JArr (map enc xs))" using plain by simp
  then have "scan_json (list_text enc xs) = Json (JArr (map enc xs))" unfolding list_text_def by (rule scan_indent_json)
  moreover obtain ys where "those (map dec (map enc xs)) = Some ys" "list_all2 agrees xs ys" using decodes_all[OF assms] by blast
  ultimately show ?thesis by (simp add: read_list_def unmarshal_def)
qed

end

text \<open>A time that is read back is the same instant at the same offset, so it shows the same date and clock.\<close>

definition same_time :: "gotime \<Rightarrow> gotime \<Rightarrow> bool" where
  "same_time t u \<longleftrightarrow> t_ns u = t_ns t \<and> lookup_offset (t_loc u) (unix_sec u) = lookup_offset (t_loc t) (unix_sec t)"

lemma same_time_shows: "same_time t u \<Longrightarrow> date_of u = date_of t \<and> local_sec u = local_sec t \<and> format_rfc3339_nano u = format_rfc3339_nano t"
proof -
  assume a: "same_time t u"
  have ns: "t_ns u = t_ns t" using a by (simp add: same_time_def)
  then have sec: "unix_sec u = unix_sec t" by (simp add: unix_sec_def)
  have off: "lookup_offset (t_loc u) (unix_sec t) = lookup_offset (t_loc t) (unix_sec t)" using a by (simp add: same_time_def sec)
  show ?thesis
    by (simp add: date_of_def day_number_def local_sec_def format_rfc3339_nano_def format_date_def format_clock_def ns sec off)
qed

lemma time_comes_back: "dated t \<Longrightarrow> \<exists>u. as_time local old (time_json t) = Some u \<and> same_time t u"
  using parse_format_offset[of t local] by (auto simp: time_json_def same_time_def)

lemma action_comes_back: "as_action_name old (JStr (action_name a)) = Some a"
  by (cases a) (simp_all add: all_actions_def)

lemma fold_omit_zero: "fold_fields f r (omit_zero k i) = (if i = 0 then Some r else f r k (JInt i))"
  by (simp add: omit_zero_def split: option.splits)

lemma event_member_keys:
  "equal_fold ''time'' ''time''" "\<not> equal_fold ''workflow'' ''time''" "equal_fold ''workflow'' ''workflow''"
  "\<not> equal_fold ''provider'' ''time''" "\<not> equal_fold ''provider'' ''workflow''"
  "equal_fold ''provider'' ''provider''" "\<not> equal_fold ''hold_id'' ''time''"
  "\<not> equal_fold ''hold_id'' ''workflow''" "\<not> equal_fold ''hold_id'' ''provider''"
  "equal_fold ''hold_id'' ''hold_id''" "\<not> equal_fold ''action'' ''time''" "\<not> equal_fold ''action'' ''workflow''"
  "\<not> equal_fold ''action'' ''provider''" "\<not> equal_fold ''action'' ''hold_id''" "equal_fold ''action'' ''action''"
  "\<not> equal_fold ''actor'' ''time''" "\<not> equal_fold ''actor'' ''workflow''"
  "\<not> equal_fold ''actor'' ''provider''" "\<not> equal_fold ''actor'' ''hold_id''"
  "\<not> equal_fold ''actor'' ''action''" "equal_fold ''actor'' ''actor''" "\<not> equal_fold ''detail'' ''time''"
  "\<not> equal_fold ''detail'' ''workflow''" "\<not> equal_fold ''detail'' ''provider''"
  "\<not> equal_fold ''detail'' ''hold_id''" "\<not> equal_fold ''detail'' ''action''"
  "\<not> equal_fold ''detail'' ''actor''" "equal_fold ''detail'' ''detail''"
  by code_simp+

lemma watch_member_keys:
  "equal_fold ''provider'' ''provider''" "\<not> equal_fold ''hold_id'' ''provider''" "equal_fold ''hold_id'' ''hold_id''"
  "\<not> equal_fold ''workflow'' ''provider''" "\<not> equal_fold ''workflow'' ''hold_id''"
  "equal_fold ''workflow'' ''workflow''" "\<not> equal_fold ''step'' ''provider''" "\<not> equal_fold ''step'' ''hold_id''"
  "\<not> equal_fold ''step'' ''workflow''" "equal_fold ''step'' ''step''" "\<not> equal_fold ''resume'' ''provider''"
  "\<not> equal_fold ''resume'' ''hold_id''" "\<not> equal_fold ''resume'' ''workflow''"
  "\<not> equal_fold ''resume'' ''step''" "equal_fold ''resume'' ''resume''" "\<not> equal_fold ''done'' ''provider''"
  "\<not> equal_fold ''done'' ''hold_id''" "\<not> equal_fold ''done'' ''workflow''" "\<not> equal_fold ''done'' ''step''"
  "\<not> equal_fold ''done'' ''resume''" "equal_fold ''done'' ''done''" "\<not> equal_fold ''approver'' ''provider''"
  "\<not> equal_fold ''approver'' ''hold_id''" "\<not> equal_fold ''approver'' ''workflow''"
  "\<not> equal_fold ''approver'' ''step''" "\<not> equal_fold ''approver'' ''resume''"
  "\<not> equal_fold ''approver'' ''done''" "equal_fold ''approver'' ''approver''"
  "\<not> equal_fold ''subject'' ''provider''" "\<not> equal_fold ''subject'' ''hold_id''"
  "\<not> equal_fold ''subject'' ''workflow''" "\<not> equal_fold ''subject'' ''step''"
  "\<not> equal_fold ''subject'' ''resume''" "\<not> equal_fold ''subject'' ''done''"
  "\<not> equal_fold ''subject'' ''approver''" "equal_fold ''subject'' ''subject''"
  "\<not> equal_fold ''created_at'' ''provider''" "\<not> equal_fold ''created_at'' ''hold_id''"
  "\<not> equal_fold ''created_at'' ''workflow''" "\<not> equal_fold ''created_at'' ''step''"
  "\<not> equal_fold ''created_at'' ''resume''" "\<not> equal_fold ''created_at'' ''done''"
  "\<not> equal_fold ''created_at'' ''approver''" "\<not> equal_fold ''created_at'' ''subject''"
  "equal_fold ''created_at'' ''created_at''"
  by code_simp+

lemma entry_member_keys:
  "equal_fold ''owner'' ''owner''" "\<not> equal_fold ''hold_id'' ''owner''" "equal_fold ''hold_id'' ''hold_id''"
  "\<not> equal_fold ''start'' ''owner''" "\<not> equal_fold ''start'' ''hold_id''" "equal_fold ''start'' ''start''"
  "\<not> equal_fold ''end'' ''owner''" "\<not> equal_fold ''end'' ''hold_id''" "\<not> equal_fold ''end'' ''start''"
  "equal_fold ''end'' ''end''" "\<not> equal_fold ''subject'' ''owner''" "\<not> equal_fold ''subject'' ''hold_id''"
  "\<not> equal_fold ''subject'' ''start''" "\<not> equal_fold ''subject'' ''end''" "equal_fold ''subject'' ''subject''"
  by code_simp+

lemma schedule_member_keys:
  "equal_fold ''workflow'' ''workflow''" "\<not> equal_fold ''provider'' ''workflow''" "equal_fold ''provider'' ''provider''"
  "\<not> equal_fold ''every'' ''workflow''" "\<not> equal_fold ''every'' ''provider''" "equal_fold ''every'' ''every''"
  "\<not> equal_fold ''next_run'' ''workflow''" "\<not> equal_fold ''next_run'' ''provider''"
  "\<not> equal_fold ''next_run'' ''every''" "equal_fold ''next_run'' ''next_run''"
  "\<not> equal_fold ''phrase'' ''workflow''" "\<not> equal_fold ''phrase'' ''provider''"
  "\<not> equal_fold ''phrase'' ''every''" "\<not> equal_fold ''phrase'' ''next_run''" "equal_fold ''phrase'' ''phrase''"
  "\<not> equal_fold ''subject'' ''workflow''" "\<not> equal_fold ''subject'' ''provider''"
  "\<not> equal_fold ''subject'' ''every''" "\<not> equal_fold ''subject'' ''next_run''"
  "\<not> equal_fold ''subject'' ''phrase''" "equal_fold ''subject'' ''subject''"
  "\<not> equal_fold ''manager'' ''workflow''" "\<not> equal_fold ''manager'' ''provider''"
  "\<not> equal_fold ''manager'' ''every''" "\<not> equal_fold ''manager'' ''next_run''"
  "\<not> equal_fold ''manager'' ''phrase''" "\<not> equal_fold ''manager'' ''subject''" "equal_fold ''manager'' ''manager''"
  by code_simp+

definition same_event :: "event \<Rightarrow> event \<Rightarrow> bool" where
  "same_event e f \<longleftrightarrow> same_time (ev_time e) (ev_time f) \<and> f = e\<lparr>ev_time := ev_time f\<rparr>"

definition same_watch :: "watch_item \<Rightarrow> watch_item \<Rightarrow> bool" where
  "same_watch w v \<longleftrightarrow> same_time (wi_created w) (wi_created v) \<and> v = w\<lparr>wi_created := wi_created v\<rparr>"

definition same_entry :: "Coverage.entry \<Rightarrow> Coverage.entry \<Rightarrow> bool" where
  "same_entry e f \<longleftrightarrow> same_time (ce_start e) (ce_start f) \<and> same_time (ce_end e) (ce_end f)
     \<and> f = e\<lparr>ce_start := ce_start f, ce_end := ce_end f\<rparr>"

definition same_schedule :: "schedule_item \<Rightarrow> schedule_item \<Rightarrow> bool" where
  "same_schedule s u \<longleftrightarrow> same_time (sc_next_run s) (sc_next_run u) \<and> u = s\<lparr>sc_next_run := sc_next_run u\<rparr>"

text \<open>
  Texts that \<open>Marshal\<close> writes byte for byte as \<open>quote_char\<close> says: valid UTF-8 (without overlong forms, surrogates
  and code points past the last) and neither of the separators U+2028 and U+2029, which it escapes. A byte that is
  not UTF-8 is replaced when it is written, so such a text does not come back.
\<close>

definition continuation :: "char \<Rightarrow> bool" where
  "continuation c \<longleftrightarrow> 128 \<le> byte c \<and> byte c < 192"

definition two_bytes :: "char \<Rightarrow> char \<Rightarrow> bool" where
  "two_bytes c d \<longleftrightarrow> 194 \<le> byte c \<and> byte c < 224 \<and> continuation d"

definition three_bytes :: "char \<Rightarrow> char \<Rightarrow> char \<Rightarrow> bool" where
  "three_bytes c d e \<longleftrightarrow> 224 \<le> byte c \<and> byte c < 240 \<and> continuation d \<and> continuation e
     \<and> (byte c = 224 \<longrightarrow> 160 \<le> byte d) \<and> (byte c = 237 \<longrightarrow> byte d < 160)
     \<and> \<not> (byte c = 226 \<and> byte d = 128 \<and> (byte e = 168 \<or> byte e = 169))"

definition four_bytes :: "char \<Rightarrow> char \<Rightarrow> char \<Rightarrow> char \<Rightarrow> bool" where
  "four_bytes c d e f \<longleftrightarrow> 240 \<le> byte c \<and> byte c < 245 \<and> continuation d \<and> continuation e \<and> continuation f
     \<and> (byte c = 240 \<longrightarrow> 144 \<le> byte d) \<and> (byte c = 244 \<longrightarrow> byte d < 144)"

fun as_is_text :: "string \<Rightarrow> bool" where
  "as_is_text [] = True"
| "as_is_text [c] = (byte c < 128)"
| "as_is_text [c, d] = (if byte c < 128 then as_is_text [d] else two_bytes c d)"
| "as_is_text [c, d, e] =
     (if byte c < 128 then as_is_text [d, e] else if two_bytes c d then as_is_text [e] else three_bytes c d e)"
| "as_is_text (c # d # e # f # s) =
     (if byte c < 128 then as_is_text (d # e # f # s) else if two_bytes c d then as_is_text (e # f # s)
      else if three_bytes c d e then as_is_text (f # s) else four_bytes c d e f \<and> as_is_text s)"

text \<open>What a record needs to come back: dates of four digits, numbers of 64 bits, texts that are written as they are.\<close>

definition event_fits :: "event \<Rightarrow> bool" where
  "event_fits e \<longleftrightarrow> dated (ev_time e)
     \<and> list_all as_is_text [ev_workflow e, ev_provider e, ev_hold_id e, ev_actor e, ev_detail e]"

definition watch_fits :: "watch_item \<Rightarrow> bool" where
  "watch_fits w \<longleftrightarrow> dated (wi_created w) \<and> \<bar>wi_step w\<bar> < 2 ^ 63 \<and> \<bar>wi_resume w\<bar> < 2 ^ 63
     \<and> list_all as_is_text [wi_provider w, wi_hold_id w, wi_workflow w, wi_approver w, wi_subject w]"

definition entry_fits :: "Coverage.entry \<Rightarrow> bool" where
  "entry_fits e \<longleftrightarrow> dated (ce_start e) \<and> dated (ce_end e) \<and> list_all as_is_text [ce_owner e, ce_hold_id e, ce_subject e]"

definition schedule_fits :: "schedule_item \<Rightarrow> bool" where
  "schedule_fits s \<longleftrightarrow> dated (sc_next_run s)
     \<and> list_all as_is_text [sc_workflow s, sc_provider s, sc_every s, sc_phrase s, sc_subject s, sc_manager s]"

interpretation history_codec: record_codec event_json "as_event local" event_fits same_event for local
proof
  show "plain_json (event_json e)" for e by (auto simp: event_json_def time_json_def omit_empty_def)
  show "\<exists>f. as_event local (event_json e) = Some f \<and> same_event e f" if "event_fits e" for e
  proof -
    have d: "dated (ev_time e)" using that by (simp add: event_fits_def)
    obtain u where "as_time local zero_time (time_json (ev_time e)) = Some u" "same_time (ev_time e) u" using time_comes_back[OF d] by blast
    then show ?thesis
      by (cases e) (simp add: as_event_def event_json_def zero_event_def fold_fields_append fold_omits event_member_def event_member_keys
          action_comes_back same_event_def del: as_action_name.simps)
  qed
qed

interpretation watch_codec: record_codec watch_json "as_watch local" watch_fits same_watch for local
proof
  show "plain_json (watch_json w)" for w by (auto simp: watch_json_def time_json_def omit_empty_def omit_zero_def omit_false_def)
  show "\<exists>v. as_watch local (watch_json w) = Some v \<and> same_watch w v" if "watch_fits w" for w
  proof -
    have d: "dated (wi_created w)" and i: "- (2 ^ 63) \<le> wi_step w" "wi_step w < 2 ^ 63" "- (2 ^ 63) \<le> wi_resume w" "wi_resume w < 2 ^ 63"
      using that by (auto simp: watch_fits_def)
    obtain u where "as_time local zero_time (time_json (wi_created w)) = Some u" "same_time (wi_created w) u" using time_comes_back[OF d] by blast
    then show ?thesis using i
      by (cases w) (simp add: as_watch_def watch_json_def zero_watch_def fold_fields_append fold_omits fold_omit_zero watch_member_def watch_member_keys
          same_watch_def)
  qed
qed

interpretation ledger_codec: record_codec entry_json "as_entry local" entry_fits same_entry for local
proof
  show "plain_json (entry_json e)" for e by (auto simp: entry_json_def time_json_def omit_empty_def)
  show "\<exists>f. as_entry local (entry_json e) = Some f \<and> same_entry e f" if "entry_fits e" for e
  proof -
    have d: "dated (ce_start e)" "dated (ce_end e)" using that by (simp_all add: entry_fits_def)
    obtain u where "as_time local zero_time (time_json (ce_start e)) = Some u" "same_time (ce_start e) u" using time_comes_back[OF d(1)] by blast
    moreover obtain v where "as_time local zero_time (time_json (ce_end e)) = Some v" "same_time (ce_end e) v" using time_comes_back[OF d(2)] by blast
    ultimately show ?thesis
      by (cases e) (simp add: as_entry_def entry_json_def zero_entry_def fold_fields_append fold_omits entry_member_def entry_member_keys same_entry_def)
  qed
qed

interpretation schedule_codec: record_codec schedule_item_json "as_schedule local" schedule_fits same_schedule for local
proof
  show "plain_json (schedule_item_json s)" for s by (auto simp: schedule_item_json_def time_json_def omit_empty_def)
  show "\<exists>t. as_schedule local (schedule_item_json s) = Some t \<and> same_schedule s t" if "schedule_fits s" for s
  proof -
    have d: "dated (sc_next_run s)" using that by (simp add: schedule_fits_def)
    obtain u where "as_time local zero_time (time_json (sc_next_run s)) = Some u" "same_time (sc_next_run s) u"
      using time_comes_back[OF d] by blast
    then show ?thesis
      by (cases s) (simp add: as_schedule_def schedule_item_json_def zero_schedule_def fold_fields_append fold_omits schedule_member_def
          schedule_member_keys same_schedule_def)
  qed
qed

section \<open>What the theory establishes\<close>

text \<open>
  C15. The files come back as they were written. Whatever runs, watches, time off and schedules are saved, reading
  the file on a machine in any zone gives the same list: every field is the same, and every time is the same
  instant and shows the same date and clock. The texts are UTF-8 without the separators U+2028 and U+2029, so that
  the file has them as they are; the times have a year of at most four digits and an offset of whole minutes
  below a day, which is what an RFC 3339 timestamp can say; the numbers have 64 bits.
\<close>

theorem saved_files_come_back:
  assumes "list_all event_fits es" and "list_all watch_fits ws" and "list_all entry_fits cs" and "list_all schedule_fits ss"
  shows "(\<exists>es'. read_list (as_event local) (list_text event_json es) = Inr es' \<and> list_all2 same_event es es')
    \<and> (\<exists>ws'. read_list (as_watch local) (list_text watch_json ws) = Inr ws' \<and> list_all2 same_watch ws ws')
    \<and> (\<exists>cs'. read_list (as_entry local) (list_text entry_json cs) = Inr cs' \<and> list_all2 same_entry cs cs')
    \<and> (\<exists>ss'. read_list (as_schedule local) (list_text schedule_item_json ss) = Inr ss' \<and> list_all2 same_schedule ss ss')"
  using history_codec.file_comes_back[OF assms(1)] watch_codec.file_comes_back[OF assms(2)]
    ledger_codec.file_comes_back[OF assms(3)] schedule_codec.file_comes_back[OF assms(4)] by blast

lemma state_member_keys: "\<not> equal_fold ''id'' ''provider''" "equal_fold ''id'' ''id''" "equal_fold ''provider'' ''provider''"
  "equal_fold ''last_hold'' ''last_hold''"
  by code_simp+

lemma state_comes_back: "read_state (state_text h) = Inr h"
  by (cases h) (simp add: read_state_def state_text_def unmarshal_def scan_indent_json ref_member_def state_member_keys no_ref_def)

lemma team_comes_back: "read_list (as_string []) (list_text JStr emails) = Inr emails"
proof -
  have "scan_json (list_text JStr emails) = Json (JArr (map JStr emails))" unfolding list_text_def by (rule scan_indent_json) simp
  moreover have "those (map (as_string []) (map JStr emails)) = Some emails" by (rule those_decode) simp
  ultimately show ?thesis by (simp add: read_list_def unmarshal_def)
qed

definition berlin_summer :: gotime where
  "berlin_summer = \<lparr>t_ns = 1751364000123456789, t_loc = Location 3600 [(1743296400, 7200), (1761440400, 3600)]\<rparr>"

definition odd_watch :: watch_item where
  "odd_watch = \<lparr>wi_provider = ''graph'', wi_hold_id = [CHR 0x22, CHR ''}'', CHR 0x0A], wi_workflow = ''pto'', wi_step = 2, wi_resume = 4,
     wi_done = False, wi_approver = ''b@x.com'', wi_subject = ''<off> '' @ [char_of (195::nat), char_of (188::nat)], wi_created = berlin_summer\<rparr>"

theorem saved_files_come_back_witness:
  "\<exists>ws'. read_list (as_watch UTC) (list_text watch_json [odd_watch]) = Inr ws' \<and> list_all2 same_watch [odd_watch] ws'"
proof -
  have "dated berlin_summer" by code_simp
  moreover have "list_all as_is_text [wi_provider odd_watch, wi_hold_id odd_watch, wi_workflow odd_watch, wi_approver odd_watch,
      wi_subject odd_watch]" by code_simp
  ultimately have "list_all watch_fits [odd_watch]" by (simp add: watch_fits_def odd_watch_def)
  then show ?thesis using saved_files_come_back[of "[]" "[odd_watch]" "[]" "[]" UTC] by simp
qed

end
