(* ===== verification/Listings.thy ===== *)
theory Listings
  imports App Hris Store_Json
begin

text \<open>
  The commands that list and edit what the program keeps: \<open>workflows\<close>, \<open>schedule\<close>, \<open>history\<close>, \<open>coverage\<close>, \<open>team\<close>,
  \<open>whoami\<close>, \<open>login\<close>, and the manifest of \<open>service\<close>. Each returns what it prints. The integer and duration flags of
  \<open>history\<close> and \<open>service\<close> are taken as read.
\<close>

section \<open>Columns\<close>

text \<open>\<open>%-ns\<close>: padding counts runes, not bytes.\<close>

definition rune_count :: "string \<Rightarrow> nat" where
  "rune_count s = length (filter (\<lambda>c. \<not> (128 \<le> byte c \<and> byte c < 192)) s)"

definition pad_to :: "nat \<Rightarrow> string \<Rightarrow> string" where
  "pad_to n s = s @ replicate (n - rune_count s) (CHR '' '')"

section \<open>Workflows\<close>

type_synonym edit_outcome = "string \<times> error option \<times> dashboard"

definition workflow_line :: "info \<Rightarrow> string" where
  "workflow_line i = pad_to 13 (info_name i) @ '' '' @ (if info_description i = [] then ''-'' else info_description i)
     @ (if info_source i = SourceUser then '' (user)'' else []) @ newline"

definition workflow_list :: "app_env \<Rightarrow> dashboard \<Rightarrow> edit_outcome" where
  "workflow_list e s =
     (case list_workflows (ae_builtin e) (app_user e (db_dir s)) of
        Inl err \<Rightarrow> ([], Some (Errorf ''workflows'' [err]), s)
      | Inr infos \<Rightarrow> (concat (map workflow_line infos), None, s))"

text \<open>The definition is read from the file of \<open>--file\<close>, or from the standard input.\<close>

definition workflow_add :: "app_env \<Rightarrow> (string \<Rightarrow> string result) \<Rightarrow> string list \<Rightarrow> dashboard \<Rightarrow> edit_outcome" where
  "workflow_add e read args s =
     (case parse_flags (strings [''file'']) [] args of
        Inl err \<Rightarrow> ([], Some err, s)
      | Inr (vs, left) \<Rightarrow>
          (case read (flag_str vs ''file'') of
             Inl err \<Rightarrow> ([], Some (Errorf ''workflows add: read definition'' [err]), s)
           | Inr text \<Rightarrow>
               (case save_user_workflow (app_write_error (ae_dir_error e) e s) (scan_json text) (db_dir s) of
                  (Inl err, d) \<Rightarrow> ([], Some (Errorf ''workflows add'' [err]), tick_dashboard (s\<lparr>db_dir := d\<rparr>))
                | (Inr k, d) \<Rightarrow>
                    (''Saved workflow '' @ go_quote (wf_name k) @ newline, None, tick_dashboard (s\<lparr>db_dir := d\<rparr>)))))"

definition workflow_remove :: "app_env \<Rightarrow> string list \<Rightarrow> dashboard \<Rightarrow> edit_outcome" where
  "workflow_remove e args s =
     (case args of
        [] \<Rightarrow> ([], Some (Errorf ''workflows remove: name a workflow'' []), s)
      | name # rest \<Rightarrow>
          (case (if safe_workflow_name name then ae_dir_error e else None) of
             Some err \<Rightarrow> ([], Some (Errorf ''workflows remove'' [err]), s)
           | None \<Rightarrow>
               (case remove_user_workflow (e_write (ae_env e) (w_tick (db_world s))) name (db_dir s) of
                  (Some err, d) \<Rightarrow> ([], Some (Errorf ''workflows remove'' [err]), tick_dashboard (s\<lparr>db_dir := d\<rparr>))
                | (None, d) \<Rightarrow> (''Removed workflow '' @ go_quote name @ newline, None, tick_dashboard (s\<lparr>db_dir := d\<rparr>)))))"

definition run_workflows :: "app_env \<Rightarrow> (string \<Rightarrow> string result) \<Rightarrow> string list \<Rightarrow> dashboard \<Rightarrow> edit_outcome" where
  "run_workflows e read args s =
     (case args of
        [] \<Rightarrow> workflow_list e s
      | sub # rest \<Rightarrow>
          (if sub = ''list'' then workflow_list e s
           else if sub = ''add'' then workflow_add e read rest s
           else if sub \<in> set [''remove'', ''rm''] then workflow_remove e rest s
           else ([], Some (Errorf (''workflows: unknown subcommand '' @ go_quote sub @ ''; use list, add, or remove'') []), s)))"

section \<open>Schedules\<close>

definition schedule_flags :: "(string \<times> flag_kind) list" where
  "schedule_flags = strings [''every'', ''phrase'', ''subject'', ''manager'', ''provider'']"

definition schedule_add_command :: "app_env \<Rightarrow> string list \<Rightarrow> dashboard \<Rightarrow> edit_outcome" where
  "schedule_add_command e args s =
     (case args of
        [] \<Rightarrow> ([], Some (Errorf ''schedule add: name a workflow to schedule'' []), s)
      | name # rest \<Rightarrow>
          (case parse_flags schedule_flags [] rest of
             Inl err \<Rightarrow> ([], Some err, s)
           | Inr (vs, left) \<Rightarrow>
               (let (t, w) = now (ae_env e) (db_world s); s = s\<lparr>db_world := w\<rparr> in
                case new_schedule (load (ae_builtin e) (app_user e (db_dir s))) t name (flag_str vs ''every'') (flag_str vs ''phrase'')
                    (flag_str vs ''subject'') (flag_str vs ''manager'') (flag_str vs ''provider'') of
                  Inl err \<Rightarrow> ([], Some (Errorf ''schedule add'' [err]), s)
                | Inr item \<Rightarrow>
                    (case add_schedule (ae_schedule_error e) (e_write (ae_env e) (w_tick w)) item (db_schedules s) of
                       (Some err, f) \<Rightarrow> ([], Some err, tick_dashboard (s\<lparr>db_schedules := f\<rparr>))
                     | (None, f) \<Rightarrow>
                         (''Scheduled '' @ go_quote name @ '' every '' @ flag_str vs ''every'' @ '' for '' @ go_quote (flag_str vs ''phrase'')
                            @ ''. Run 'vamoose daemon' to fire it.'' @ newline, None, tick_dashboard (s\<lparr>db_schedules := f\<rparr>))))))"

definition schedule_line :: "nat \<Rightarrow> schedule_item \<Rightarrow> string" where
  "schedule_line i c = show_nat i @ ''  '' @ sc_workflow c @ ''  every '' @ sc_every c @ ''  next ''
     @ format_rfc3339 (sc_next_run c) @ ''  '' @ go_quote (sc_phrase c) @ newline"

definition schedule_list :: "app_env \<Rightarrow> dashboard \<Rightarrow> edit_outcome" where
  "schedule_list e s =
     (case load_schedules (ae_schedule_error e) (db_schedules s) of
        Inl err \<Rightarrow> ([], Some err, s)
      | Inr cs \<Rightarrow>
          (if cs = [] then ''No schedules. Add one with 'vamoose schedule add <workflow> --every <dur> --phrase <window>'.'' @ newline
           else concat (map (\<lambda>(i, c). schedule_line i c) (enumerate 0 cs)), None, s))"

definition schedule_remove_command :: "app_env \<Rightarrow> string list \<Rightarrow> dashboard \<Rightarrow> edit_outcome" where
  "schedule_remove_command e args s =
     (case schedule_remove (ae_schedule_error e) (e_write (ae_env e) (w_tick (db_world s))) args (db_schedules s) of
        (Inl err, f) \<Rightarrow> ([], Some err, tick_dashboard (s\<lparr>db_schedules := f\<rparr>))
      | (Inr removed, f) \<Rightarrow>
          ((case parse_int64 (hd args) of None \<Rightarrow> [] | Some i \<Rightarrow> ''Removed schedule '' @ show_int i) @ '' ('' @ removed @ '').'' @ newline,
           None, tick_dashboard (s\<lparr>db_schedules := f\<rparr>)))"

definition run_schedule :: "app_env \<Rightarrow> string list \<Rightarrow> dashboard \<Rightarrow> edit_outcome" where
  "run_schedule e args s =
     (case args of
        [] \<Rightarrow> ([], Some (Errorf ''schedule: use add, list, or remove'' []), s)
      | sub # rest \<Rightarrow>
          (if sub = ''add'' then schedule_add_command e rest s
           else if sub = ''list'' then schedule_list e s
           else if sub \<in> set [''remove'', ''rm''] then schedule_remove_command e rest s
           else ([], Some (Errorf (''schedule: unknown subcommand '' @ go_quote sub @ ''; use add, list, or remove'') []), s)))"

section \<open>History and coverage\<close>

definition event_line :: "location \<Rightarrow> event \<Rightarrow> string" where
  "event_line loc v =
     (let t = (ev_time v)\<lparr>t_loc := loc\<rparr> in
      format_date t @ '' '' @ format_clock t @ ''  '' @ pad_to 9 (action_name (ev_action v)) @ ''  '' @ pad_to 14 (ev_workflow v)
      @ ''  '' @ pad_to 16 (ev_hold_id v) @ ''  '' @ (if ev_actor v = [] then ev_detail v else ev_actor v) @ newline)"

text \<open>\<open>vamoose history\<close>; the encoder of \<open>--json\<close> writes an empty list, never \<open>null\<close>, and ends with a line feed.\<close>

definition history_output :: "env \<Rightarrow> location \<Rightarrow> bool \<Rightarrow> string \<Rightarrow> int \<Rightarrow> world \<Rightarrow> string \<times> error option" where
  "history_output env loc as_json hid limit w =
     (case e_audit_path env of Some err \<Rightarrow> ([], Some (Errorf ''open history'' [err]))
      | None \<Rightarrow>
          (case run_history hid limit (w_audit w) of
             Inl err \<Rightarrow> ([], Some err)
           | Inr vs \<Rightarrow>
               (if as_json then list_text event_json vs @ newline
                else if vs = [] then ''No run history yet.'' @ newline else concat (map (event_line loc) vs), None)))"

text \<open>The last day of an entry is the day before its end.\<close>

definition last_day :: "gotime \<Rightarrow> gotime" where
  "last_day t = add_days t (-1)"

definition coverage_line :: "Coverage.entry \<Rightarrow> string" where
  "coverage_line c = ''  '' @ pad_to 28 (ce_owner c) @ '' '' @ format_date (ce_start c) @ '' to '' @ format_date (last_day (ce_end c))
     @ ''  '' @ ce_subject c @ newline"

definition coverage_flags :: "(string \<times> flag_kind) list" where
  "coverage_flags = strings [''start'', ''end'']"

definition run_coverage :: "outside \<Rightarrow> env \<Rightarrow> string list \<Rightarrow> world \<Rightarrow> outcome" where
  "run_coverage su env args w =
     (case split_phrase args of (words, fargs) \<Rightarrow>
        (case parse_flags coverage_flags [] fargs of
           Inl e \<Rightarrow> ([], Some e, w)
         | Inr (vs, left) \<Rightarrow>
             (let p = command_phrase words left;
                  phrase = (if p = [] \<and> flag_str vs ''start'' = [] then ''next week'' else p)
              in case command_window su env (flag_str vs ''start'') (flag_str vs ''end'') phrase w of
                (Inl e, w) \<Rightarrow> ([], Some (Errorf ''coverage'' [e]), w)
              | (Inr (s, f, all_day), w) \<Rightarrow>
                  (case e_ledger_path env of Some e \<Rightarrow> ([], Some e, w)
                   | None \<Rightarrow>
                       (case overlapping s f [] (w_ledger w) of
                          Inl e \<Rightarrow> ([], Some (Errorf ''coverage'' [e]), w)
                        | Inr es \<Rightarrow>
                            (let label = day_text s @ '' through '' @ day_text (last_day f) in
                             (if es = [] then ''No one is off '' @ label @ ''.'' @ newline
                              else ''Off '' @ label @ '':'' @ newline @ concat (map coverage_line es), None, w)))))))"

section \<open>Who is who\<close>

definition source_text :: "team_source \<Rightarrow> string" where
  "source_text s = (case s of SourceConfig \<Rightarrow> ''config'' | SourceDirectory \<Rightarrow> ''directory'')"

definition person_lines :: "person list \<Rightarrow> string" where
  "person_lines ps = concat (map (\<lambda>p. ''  '' @ person_label p @ newline) ps)"

definition team_lines :: "env \<Rightarrow> world \<Rightarrow> outcome" where
  "team_lines env w =
     (case resolve_team env w of
        (Inl e, w) \<Rightarrow>
          (if errors_is e ErrNoDirectory
           then (''team:    no directory for this provider; set one with vamoose team set'' @ newline, None, w)
           else ([], Some (Errorf ''resolve team'' [e]), w))
      | (Inr (team, src), w) \<Rightarrow>
          (''team:    '' @ show_nat (length team) @ '' ('' @ source_text src @ '')'' @ newline @ person_lines team, None, w))"

definition after_lines :: "string \<Rightarrow> outcome \<Rightarrow> outcome" where
  "after_lines t r = (case r of (out, err, w) \<Rightarrow> (t @ out, err, w))"

definition whoami_flags :: "(string \<times> flag_kind) list" where
  "whoami_flags = strings [''provider'', ''tz'']"

definition run_whoami :: "outside \<Rightarrow> env \<Rightarrow> string list \<Rightarrow> world \<Rightarrow> outcome" where
  "run_whoami su env args w =
     (case parse_flags whoami_flags [] args of
        Inl e \<Rightarrow> ([], Some e, w)
      | Inr (vs, left) \<Rightarrow>
          (case su_provider su (resolve_provider (e_getenv env) (flag_str vs ''provider'')) of
             Some e \<Rightarrow> ([], Some e, w)
           | None \<Rightarrow>
               (case prov_me env w of
                  (Inl e, w) \<Rightarrow> ([], Some (Errorf ''resolve me'' [e]), w)
                | (Inr me, w) \<Rightarrow>
                    after_lines (''me:      '' @ person_label me @ newline)
                      (case prov_manager env w of
                         (Inl e, w) \<Rightarrow>
                           (if errors_is e ErrNoManager then after_lines (''manager: none set in directory'' @ newline) (team_lines env w)
                            else ([], Some (Errorf ''resolve manager'' [e]), w))
                       | (Inr mgr, w) \<Rightarrow> after_lines (''manager: '' @ person_label mgr @ newline) (team_lines env w)))))"

definition run_login :: "outside \<Rightarrow> env \<Rightarrow> string list \<Rightarrow> world \<Rightarrow> outcome" where
  "run_login su env args w =
     (case parse_flags whoami_flags [] args of
        Inl e \<Rightarrow> ([], Some e, w)
      | Inr (vs, left) \<Rightarrow>
          (let name = resolve_provider (e_getenv env) (flag_str vs ''provider'') in
           case su_provider su name of
             Some e \<Rightarrow> ([], Some e, w)
           | None \<Rightarrow>
               (case prov_me env w of
                  (Inl e, w) \<Rightarrow> ([], Some (Errorf ''sign in'' [e]), w)
                | (Inr me, w) \<Rightarrow>
                    ((if name \<in> set [''google'', ''graph''] then ''Signed in as '' @ person_label me @ newline
                      else ''Configured '' @ name @ '' as '' @ person_label me @ ''. Credentials are verified on first calendar access.'' @ newline),
                     None, w))))"

definition team_header :: "team_source \<Rightarrow> person list \<Rightarrow> string" where
  "team_header src ps = ''Team ('' @ source_text src @ '', '' @ show_nat (length ps) @ ''):'' @ newline @ person_lines ps"

definition run_team_list :: "outside \<Rightarrow> env \<Rightarrow> world \<Rightarrow> outcome" where
  "run_team_list su env w =
     (case load_team_config (e_team_path env) (w_team w) of
        Inl e \<Rightarrow> ([], Some e, w)
      | Inr emails \<Rightarrow>
          (let people = people_from_emails (e_address env) emails in
           if people \<noteq> [] then (team_header SourceConfig people, None, w)
           else case su_provider su (resolve_provider (e_getenv env) []) of
             Some e \<Rightarrow> ([], Some e, w)
           | None \<Rightarrow>
               (case resolve_team env w of
                  (Inl e, w) \<Rightarrow> ([], Some (Errorf ''resolve team'' [e]), w)
                | (Inr (team, src), w) \<Rightarrow> (team_header src team, None, w))))"

definition run_team :: "outside \<Rightarrow> env \<Rightarrow> string list \<Rightarrow> world \<Rightarrow> outcome" where
  "run_team su env args w =
     (let act = (case args of [] \<Rightarrow> ''list'' | a # r \<Rightarrow> a); rest = tl args; we = e_write env (w_tick w) in
      if act = ''list'' then run_team_list su env w
      else if act = ''set'' then
        (case run_team_set (e_team_path env) we rest (w_team w) of
           (Some e, f) \<Rightarrow> ([], Some e, tick (w\<lparr>w_team := f\<rparr>))
         | (None, f) \<Rightarrow> (''Saved '' @ show_nat (length rest) @ '' team member(s) to your default team.'' @ newline, None,
             tick (w\<lparr>w_team := f\<rparr>)))
      else if act = ''clear'' then
        (case clear_team_config (e_team_path env) we (w_team w) of
           (Some e, f) \<Rightarrow> ([], Some e, tick (w\<lparr>w_team := f\<rparr>))
         | (None, f) \<Rightarrow> (''Team config cleared; promote will use the directory.'' @ newline, None, tick (w\<lparr>w_team := f\<rparr>)))
      else ([], Some (Errorf (''team: unknown action '' @ go_quote act @ '' (use list, set, or clear)'') []), w))"

section \<open>Balance and service\<close>

definition resolve_employee :: "(string \<Rightarrow> string) \<Rightarrow> string" where
  "resolve_employee getenv =
     (if getenv ''VAMOOSE_HRIS_EMPLOYEE_ID'' \<noteq> [] then getenv ''VAMOOSE_HRIS_EMPLOYEE_ID'' else getenv ''VAMOOSE_BAMBOOHR_EMPLOYEE_ID'')"

datatype balance_source = Bamboo_Balance string string | Webhook_Balance string string

definition resolve_balance_reader :: "(string \<Rightarrow> string) \<Rightarrow> (balance_source \<times> string) option" where
  "resolve_balance_reader getenv =
     (let sub = getenv ''VAMOOSE_BAMBOOHR_SUBDOMAIN''; key = getenv ''VAMOOSE_BAMBOOHR_API_KEY''; url = getenv ''VAMOOSE_BALANCE_WEBHOOK_URL''
      in if sub \<noteq> [] \<and> key \<noteq> [] then Some (Bamboo_Balance sub key, resolve_employee getenv)
         else if url \<noteq> [] then Some (Webhook_Balance url (getenv ''VAMOOSE_BALANCE_WEBHOOK_AUTH''), resolve_employee getenv)
         else None)"

definition tab :: string where "tab = [CHR 0x09]"

text \<open>The two manifests; \<open>text/template\<close> writes the values as they are.\<close>

definition xml_line :: "string \<Rightarrow> string" where
  "xml_line v = tab @ tab @ ''<string>'' @ v @ ''</string>'' @ newline"

definition launchd_manifest :: "string \<Rightarrow> string list \<Rightarrow> string \<Rightarrow> string" where
  "launchd_manifest label args log =
     (let q = [CHR 0x22]; key = (\<lambda>k. tab @ ''<key>'' @ k @ ''</key>'' @ newline); str = (\<lambda>v. tab @ ''<string>'' @ v @ ''</string>'' @ newline);
          yes = tab @ ''<true/>'' @ newline
      in ''<?xml version='' @ q @ ''1.0'' @ q @ '' encoding='' @ q @ ''UTF-8'' @ q @ ''?>'' @ newline
         @ ''<!DOCTYPE plist PUBLIC '' @ q @ ''-//Apple//DTD PLIST 1.0//EN'' @ q @ '' '' @ q
         @ ''http://www.apple.com/DTDs/PropertyList-1.0.dtd'' @ q @ ''>'' @ newline
         @ ''<plist version='' @ q @ ''1.0'' @ q @ ''>'' @ newline @ ''<dict>'' @ newline
         @ key ''Label'' @ str label @ key ''ProgramArguments'' @ tab @ ''<array>'' @ newline
         @ concat (map xml_line args) @ tab @ ''</array>'' @ newline
         @ key ''RunAtLoad'' @ yes @ key ''KeepAlive'' @ yes
         @ key ''StandardOutPath'' @ str log @ key ''StandardErrorPath'' @ str log
         @ ''</dict>'' @ newline @ ''</plist>'' @ newline)"

definition exec_line :: "string \<Rightarrow> string \<Rightarrow> string" where
  "exec_line exe interval = exe @ '' daemon --interval '' @ interval"

definition systemd_manifest :: "string \<Rightarrow> string \<Rightarrow> string" where
  "systemd_manifest exe interval =
     ''[Unit]'' @ newline @ ''Description=vamoose calendar-workflow daemon'' @ newline @ ''After=network-online.target'' @ newline @ newline
     @ ''[Service]'' @ newline @ ''ExecStart='' @ exec_line exe interval @ newline @ ''Restart=on-failure'' @ newline @ newline
     @ ''[Install]'' @ newline @ ''WantedBy=default.target'' @ newline"

definition render_service :: "string \<Rightarrow> string \<Rightarrow> string \<Rightarrow> string \<Rightarrow> string \<Rightarrow> string result" where
  "render_service goos label exe interval log =
     (if goos = ''darwin'' then Inr (launchd_manifest label [exe, ''daemon'', ''--interval'', interval] log)
      else if goos = ''linux'' then Inr (systemd_manifest exe interval)
      else if goos = ''windows'' then Inl (Errorf (''no service manifest for Windows; run 'vamoose daemon' in a terminal, ''
        @ ''or add a Task Scheduler task that starts it at logon'') [])
      else Inl (Errorf (''unsupported platform '' @ go_quote goos @ ''; run 'vamoose daemon' manually'') []))"

definition service_instructions :: "string \<Rightarrow> string \<Rightarrow> string" where
  "service_instructions goos label =
     (if goos = ''darwin'' then
        newline @ ''# Save the plist above, then load it:'' @ newline
        @ ''#   vamoose service > ~/Library/LaunchAgents/'' @ label @ ''.plist'' @ newline
        @ ''#   launchctl load ~/Library/LaunchAgents/'' @ label @ ''.plist'' @ newline
      else if goos = ''linux'' then
        newline @ ''# Save the unit above, then enable it:'' @ newline
        @ ''#   vamoose service > ~/.config/systemd/user/vamoose.service'' @ newline
        @ ''#   systemctl --user enable --now vamoose'' @ newline
      else [])"

definition daemon_log_path :: "string result \<Rightarrow> string result" where
  "daemon_log_path config_dir = map_sum id (\<lambda>dir. join_path [dir, ''vamoose'', ''daemon.log'']) config_dir"

text \<open>What \<open>service\<close> prints on its two outputs.\<close>

definition service_command :: "string result \<Rightarrow> string result \<Rightarrow> string \<Rightarrow> string \<Rightarrow> string \<Rightarrow> (string \<times> string) result" where
  "service_command executable config_dir goos label interval =
     (case executable of Inl e \<Rightarrow> Inl (Errorf ''resolve executable'' [e])
      | Inr exe \<Rightarrow>
          (case daemon_log_path config_dir of Inl e \<Rightarrow> Inl e
           | Inr log \<Rightarrow>
               (case render_service goos label exe interval log of
                  Inl e \<Rightarrow> Inl (Errorf ''service'' [e]) | Inr m \<Rightarrow> Inr (m, service_instructions goos label))))"

section \<open>What the theory establishes\<close>

lemma fields_acc_word:
  "list_all (\<lambda>c. \<not> is_space c) a \<Longrightarrow> fields_acc cur (a @ s) = fields_acc (rev a @ cur) s"
  by (induction a arbitrary: cur) auto

lemma fields_word:
  "a \<noteq> [] \<Longrightarrow> list_all (\<lambda>c. \<not> is_space c) a \<Longrightarrow> is_space c \<Longrightarrow> Go_Strings.fields (a @ c # s) = a # Go_Strings.fields s"
  by (simp add: Go_Strings.fields_def fields_acc_word)

lemma fields_last_word: "a \<noteq> [] \<Longrightarrow> list_all (\<lambda>c. \<not> is_space c) a \<Longrightarrow> Go_Strings.fields a = [a]"
  using fields_acc_word[of a "[]" "[]"] by (simp add: Go_Strings.fields_def)

text \<open>
  The command line of the unit, split at white space, is the daemon's exactly when the path of the program has no
  white space in it.
\<close>

theorem unit_runs_the_program:
  assumes "exe \<noteq> []" and "interval \<noteq> []" and "list_all (\<lambda>c. \<not> is_space c) interval"
  shows "Go_Strings.fields (exec_line exe interval) = [exe, ''daemon'', ''--interval'', interval] \<longleftrightarrow>
    list_all (\<lambda>c. \<not> is_space c) exe"
proof
  assume "Go_Strings.fields (exec_line exe interval) = [exe, ''daemon'', ''--interval'', interval]"
  then have "exe \<in> set (Go_Strings.fields (exec_line exe interval))" by simp
  from fields_words[OF this] show "list_all (\<lambda>c. \<not> is_space c) exe" by (simp add: list_all_iff)
next
  assume exe: "list_all (\<lambda>c. \<not> is_space c) exe"
  have "is_space (CHR '' '')" "list_all (\<lambda>c. \<not> is_space c) ''daemon''" "list_all (\<lambda>c. \<not> is_space c) ''--interval''" by code_simp+
  then show "Go_Strings.fields (exec_line exe interval) = [exe, ''daemon'', ''--interval'', interval]"
    using fields_word[OF assms(1) exe, of "CHR '' ''" "''daemon --interval '' @ interval"]
      fields_word[of "''daemon''" "CHR '' ''" "''--interval '' @ interval"]
      fields_word[of "''--interval''" "CHR '' ''" interval] fields_last_word[OF assms(2,3)]
    by (simp add: exec_line_def)
qed

text \<open>A user file whose name has a dot is listed, and cannot be run.\<close>

theorem dotted_workflow_listed_not_loaded:
  assumes "distinct (map fst b)" and "\<forall>(f, x) \<in> set b. has_suffix f json_suffix" and "distinct (map fst d)"
    and "map_of d (json_file n) = Some (File_Data t)" and "CHR ''.'' \<in> set n" and "list_workflows b (Dir d) = Inr infos"
  shows "n \<in> info_name ` set infos \<and> load b (Dir d) n = Inl (Errorf n [ErrUnknownWorkflow])"
proof -
  let ?i = "\<lparr>info_name = n, info_description = describe t, info_source = SourceUser\<rparr>"
  have "listed d SourceUser n = Some ?i" using assms(4) by (simp add: listed_def)
  then have "?i \<in> set infos" using list_workflows_map(3)[OF assms(1-3,6), of ?i] by simp
  moreover have "\<not> valid_name n" using assms(5) by (auto simp: valid_name_def list_ex_iff)
  ultimately show ?thesis by (force simp: load_def raw_def)
qed

lemma day_number_add_days:
  assumes "t_loc t = Location off []"
  shows "day_number (add_days t n) = day_number t + n"
proof -
  have "unix_sec (add_days t n) = unix_sec t + n * 86400"
    using assms by (simp add: add_days_fixed unix_sec_def)
  then have "local_sec (add_days t n) = local_sec t + n * 86400"
    using assms by (simp add: local_sec_def add_days_fixed)
  then show ?thesis by (simp add: day_number_def)
qed

text \<open>
  A half day is listed backwards. The listing takes every end for the exclusive midnight of an all-day hold, so time
  off that begins and ends on one day is printed as lasting from that day to the day before.
\<close>

theorem half_day_listed_backwards:
  assumes "t_loc (ce_end c) = Location off []" and "day_number (ce_start c) = day_number (ce_end c)"
  shows "\<exists>d. coverage_line c = ''  '' @ pad_to 28 (ce_owner c) @ '' '' @ format_date (ce_start c) @ '' to '' @ format_date d
      @ ''  '' @ ce_subject c @ newline \<and> day_number d = day_number (ce_start c) - 1"
proof (intro exI[of _ "last_day (ce_end c)"] conjI)
  show "day_number (last_day (ce_end c)) = day_number (ce_start c) - 1"
    using assms day_number_add_days[OF assms(1), of "-1"] by (simp add: last_day_def)
qed (simp add: coverage_line_def)


text \<open>An entry for the morning of 27 October 2024.\<close>

definition morning_off :: Coverage.entry where
  "morning_off = \<lparr>ce_owner = ''ann@example.com'', ce_hold_id = ''h1'', ce_start = time_date 20023 32400 0 UTC,
     ce_end = time_date 20023 43200 0 UTC, ce_subject = ''PTO''\<rparr>"

theorem half_day_listed_backwards_witness:
  "\<exists>d. coverage_line morning_off = ''  '' @ pad_to 28 ''ann@example.com'' @ '' '' @ ''2024-10-27'' @ '' to '' @ format_date d
      @ ''  '' @ ''PTO'' @ newline \<and> day_number d = 20022"
proof -
  have loc: "t_loc (ce_end morning_off) = Location 0 []" by code_simp
  have day: "day_number (ce_start morning_off) = 20023" "day_number (ce_end morning_off) = 20023" by code_simp+
  have start: "format_date (ce_start morning_off) = ''2024-10-27''" by code_simp
  from half_day_listed_backwards[OF loc] day start show ?thesis by (simp add: morning_off_def)
qed

section \<open>The dashboard and the command\<close>

definition schedule_pairs :: "schedule_body \<Rightarrow> (string \<times> string) list" where
  "schedule_pairs b = [(''every'', sb_every b), (''phrase'', sb_phrase b), (''subject'', sb_subject b), (''manager'', sb_manager b),
     (''provider'', sb_provider b)]"

lemma schedule_pairs_read:
  "\<exists>vs. parse_flags schedule_flags [] (pairs (schedule_pairs b)) = Inr (vs, []) \<and> flag_str vs ''every'' = sb_every b
     \<and> flag_str vs ''phrase'' = sb_phrase b \<and> flag_str vs ''subject'' = sb_subject b \<and> flag_str vs ''manager'' = sb_manager b
     \<and> flag_str vs ''provider'' = sb_provider b"
proof -
  have "str_flag schedule_flags ''every''" "str_flag schedule_flags ''phrase''" "str_flag schedule_flags ''subject''"
    "str_flag schedule_flags ''manager''" "str_flag schedule_flags ''provider''" by code_simp+
  then have "list_all (\<lambda>(n, v). str_flag schedule_flags n) (schedule_pairs b)" by (simp add: schedule_pairs_def)
  from parse_pairs[OF this, of "[]" "[]"]
  have "parse_flags schedule_flags [] (pairs (schedule_pairs b)) = Inr (set_flags (schedule_pairs b) [], [])" by simp
  moreover have "set_flags (schedule_pairs b) [] = [(''every'', sb_every b), (''phrase'', sb_phrase b), (''subject'', sb_subject b),
      (''manager'', sb_manager b), (''provider'', sb_provider b)]"
    by (simp add: schedule_pairs_def set_flags_def)
  ultimately show ?thesis by (intro exI conjI) (assumption | simp add: flag_str_def)+
qed

lemma app_serve_schedule:
  "aq_method q = ''POST'' \<Longrightarrow> aq_path q = ''/api/schedules/add'' \<Longrightarrow> app_serve e q s = app_schedule_add e q s"
  by (simp add: app_serve_def route_for_def app_routes_def)

text \<open>
  C28. The dashboard schedules what the command schedules. A local request to add a schedule leaves the files, and
  succeeds, exactly as \<open>vamoose schedule add\<close> does with the same workflow and the same values as flags, whatever the
  values are.
\<close>

theorem dashboard_schedules_as_the_command:
  assumes "local_only q" and "aq_method q = ''POST''" and "aq_path q = ''/api/schedules/add''"
    and "decode_body schedule_field \<lparr>sb_workflow = [], sb_every = [], sb_phrase = [], sb_subject = [], sb_manager = [],
           sb_provider = []\<rparr> (aq_body q) = Some b" and "sb_workflow b \<noteq> []"
    and "app_serve e q s = (r, s')"
    and "run_schedule e (''add'' # sb_workflow b # pairs (schedule_pairs b)) s = (out, err, t')"
  shows "s' = t' \<and> (ar_status r = 200 \<longleftrightarrow> err = None)"
proof -
  obtain vs where vs: "parse_flags schedule_flags [] (pairs (schedule_pairs b)) = Inr (vs, [])" "flag_str vs ''every'' = sb_every b"
    "flag_str vs ''phrase'' = sb_phrase b" "flag_str vs ''subject'' = sb_subject b" "flag_str vs ''manager'' = sb_manager b"
    "flag_str vs ''provider'' = sb_provider b" using schedule_pairs_read[of b] by blast
  have "app_schedule_add e q s = (r, s')" using assms(6) app_serve_schedule[OF assms(2,3)] by simp
  moreover have "schedule_add_command e (sb_workflow b # pairs (schedule_pairs b)) s = (out, err, t')"
    using assms(7) by (simp add: run_schedule_def)
  ultimately show ?thesis
    unfolding app_schedule_add_def guarded_def if_P[OF assms(1)] assms(4) schedule_add_command_def list.case vs sum.case prod.case
      option.case if_not_P[OF assms(5)] Let_def
    by (auto simp: reply_ok_def http_error_def split: prod.splits sum.splits option.splits)
qed

definition weekly_post :: app_request where
  "weekly_post = \<lparr>aq_method = ''POST'', aq_path = ''/api/schedules/add'', aq_host = ''localhost:8787'', aq_origin = [], aq_query = [],
     aq_body = show_json (JObj [(''workflow'', JStr ''pto''), (''every'', JStr ''168h''), (''phrase'', JStr ''--next week'')])\<rparr>"

definition weekly_body :: schedule_body where
  "weekly_body = \<lparr>sb_workflow = ''pto'', sb_every = ''168h'', sb_phrase = ''--next week'', sb_subject = [], sb_manager = [],
     sb_provider = []\<rparr>"

theorem dashboard_schedules_as_the_command_witness:
  "\<forall>e s. snd (app_serve e weekly_post s) = snd (snd (run_schedule e (''add'' # ''pto'' # pairs (schedule_pairs weekly_body)) s))"
proof (intro allI)
  fix e s
  have q: "local_only weekly_post" "aq_method weekly_post = ''POST''" "aq_path weekly_post = ''/api/schedules/add''" by code_simp+
  have b: "decode_body schedule_field \<lparr>sb_workflow = [], sb_every = [], sb_phrase = [], sb_subject = [], sb_manager = [],
      sb_provider = []\<rparr> (aq_body weekly_post) = Some weekly_body" "sb_workflow weekly_body \<noteq> []" by code_simp+
  obtain r s' where r: "app_serve e weekly_post s = (r, s')" by fastforce
  obtain out err t' where t: "run_schedule e (''add'' # sb_workflow weekly_body # pairs (schedule_pairs weekly_body)) s = (out, err, t')"
    by (metis prod_cases3)
  from dashboard_schedules_as_the_command[OF q b r t] r t show
    "snd (app_serve e weekly_post s) = snd (snd (run_schedule e (''add'' # ''pto'' # pairs (schedule_pairs weekly_body)) s))"
    by (simp add: weekly_body_def)
qed

end
