(* ===== verification/Tray.thy ===== *)
theory Tray
  imports App_Properties Listings
begin

text \<open>
  The system tray (\<open>cmd/tray.go\<close>, \<open>cmd/tray_gui.go\<close>): the client of the dashboard server, the lines of the menu, the
  child processes the tray owns and the rebuilding of its menu. The exchange with the server and the starting of a
  process are arguments; a URL that does not parse is an error of the exchange. The server the client talks to is
  the one of \<open>App\<close>.
\<close>

section \<open>The client\<close>

text \<open>One request to the server: an error, or a reply whose JSON body decodes to the list it was encoded from.\<close>

type_synonym 's exchange = "app_request \<Rightarrow> 's \<Rightarrow> app_reply result \<times> 's"

definition tray_request :: "string \<Rightarrow> string \<Rightarrow> string \<Rightarrow> string \<Rightarrow> app_request" where
  "tray_request addr method path body =
     \<lparr>aq_method = method, aq_path = path, aq_host = addr, aq_origin = [], aq_query = [], aq_body = body\<rparr>"

definition tray_health :: "'s exchange \<Rightarrow> string \<Rightarrow> 's \<Rightarrow> bool \<times> 's" where
  "tray_health ex addr s =
     (case ex (tray_request addr ''GET'' ''/health'' []) s of
        (Inl e, s) \<Rightarrow> (False, s) | (Inr r, s) \<Rightarrow> (ar_status r = 200, s))"

definition status_error :: "string \<Rightarrow> app_reply \<Rightarrow> error" where
  "status_error what r = Errorf (what @ '': '' @ show_int (ar_status r)) []"

definition tray_get :: "'s exchange \<Rightarrow> string \<Rightarrow> string \<Rightarrow> (app_body \<Rightarrow> 'a option) \<Rightarrow> 's \<Rightarrow> 'a result \<times> 's" where
  "tray_get ex addr path decode s =
     (case ex (tray_request addr ''GET'' path []) s of
        (Inl e, s) \<Rightarrow> (Inl e, s)
      | (Inr r, s) \<Rightarrow>
          (if ar_status r \<noteq> 200 then Inl (status_error path r)
           else case decode (ar_body r) of None \<Rightarrow> Inl (Errorf ''invalid response'' []) | Some x \<Rightarrow> Inr x, s))"

fun watch_list :: "app_body \<Rightarrow> watch_item list option" where
  "watch_list (Watch_List ws) = Some ws" | "watch_list _ = None"

fun event_list :: "app_body \<Rightarrow> event list option" where
  "event_list (Event_List es) = Some es" | "event_list _ = None"

definition tray_watches :: "'s exchange \<Rightarrow> string \<Rightarrow> 's \<Rightarrow> watch_item list result \<times> 's" where
  "tray_watches ex addr = tray_get ex addr ''/api/watches'' watch_list"

definition newest_first :: "nat \<Rightarrow> event list \<Rightarrow> event list" where
  "newest_first n es = rev (if n < length es then last_n n es else es)"

definition tray_history :: "'s exchange \<Rightarrow> string \<Rightarrow> nat \<Rightarrow> 's \<Rightarrow> event list result \<times> 's" where
  "tray_history ex addr n s =
     (case tray_get ex addr ''/api/history'' event_list s of (r, s) \<Rightarrow> (map_sum id (newest_first n) r, s))"

text \<open>The version is whatever text the server answers, whatever its status.\<close>

definition tray_version :: "(app_body \<Rightarrow> string) \<Rightarrow> 's exchange \<Rightarrow> string \<Rightarrow> 's \<Rightarrow> string \<times> 's" where
  "tray_version render ex addr s =
     (case ex (tray_request addr ''GET'' ''/api/version'' []) s of
        (Inl e, s) \<Rightarrow> ([], s) | (Inr r, s) \<Rightarrow> (trim_space (take 256 (render (ar_body r))), s))"

definition action_json :: "string \<Rightarrow> string \<Rightarrow> string \<Rightarrow> json" where
  "action_json act hid provider =
     JObj [(''action'', JStr act), (''holdID'', JStr hid), (''provider'', JStr provider)]"

definition tray_action ::
  "(app_body \<Rightarrow> string) \<Rightarrow> 's exchange \<Rightarrow> string \<Rightarrow> string \<Rightarrow> string \<Rightarrow> string \<Rightarrow> 's \<Rightarrow> error option \<times> 's" where
  "tray_action render ex addr act hid provider s =
     (case ex (tray_request addr ''POST'' ''/api/action'' (show_json (action_json act hid provider))) s of
        (Inl e, s) \<Rightarrow> (Some e, s)
      | (Inr r, s) \<Rightarrow>
          (if ar_status r = 200 then None
           else Some (Errorf (''action '' @ act @ '': '' @ show_int (ar_status r) @ '': '' @ trim_space (take 512 (render (ar_body r)))) []), s))"

section \<open>Lines\<close>

definition dot :: string where "dot = '' '' @ utf8_bytes 183 @ '' ''"

definition title_case :: "string \<Rightarrow> string" where
  "title_case s = (case s of [] \<Rightarrow> [] | c # r \<Rightarrow> utf8_bytes ((byte c + 224) mod 256) @ r)"

definition tray_watch_line :: "watch_item \<Rightarrow> string" where
  "tray_watch_line i =
     (if wi_subject i = [] then wi_hold_id i else wi_subject i) @ ''  ('' @ wi_workflow i
     @ (if wi_approver i = [] then [] else dot @ ''awaiting '' @ wi_approver i) @ '')''"

text \<open>The minute in the zone of the machine.\<close>

definition local_minute :: "location \<Rightarrow> gotime \<Rightarrow> string" where
  "local_minute loc t = (let t = t\<lparr>t_loc := loc\<rparr> in format_date t @ '' '' @ take 5 (format_clock t))"

definition tray_event_line :: "location \<Rightarrow> event \<Rightarrow> string" where
  "tray_event_line loc e =
     action_name (ev_action e) @ (if ev_workflow e = [] then [] else ''  '' @ ev_workflow e)
     @ (if ev_actor e = [] then [] else dot @ ev_actor e)
     @ (if is_zero (ev_time e) then [] else ''  '' @ local_minute loc (ev_time e))"

section \<open>The processes the tray owns\<close>

datatype child = No_Child | Running | Exited

definition alive :: "child \<Rightarrow> bool" where
  "alive c \<longleftrightarrow> c = Running"

definition stop_child :: "child \<Rightarrow> child" where
  "stop_child c = (if alive c then Exited else c)"

record services =
  ts_addr :: string
  ts_server :: child
  ts_daemon :: child

record 's tray_out =
  to_exchange :: "'s exchange"
  to_render :: "app_body \<Rightarrow> string"
  to_executable :: "error option"
  to_spawn :: "string list \<Rightarrow> 's \<Rightarrow> bool \<times> 's"
  to_local :: location

definition tray_spawn :: "'s tray_out \<Rightarrow> string list \<Rightarrow> 's \<Rightarrow> child \<times> 's" where
  "tray_spawn out args s = (case to_spawn out args s of (ok, s) \<Rightarrow> (if ok then Running else No_Child, s))"

definition ensure :: "'s tray_out \<Rightarrow> services \<Rightarrow> 's \<Rightarrow> (bool \<times> error option) \<times> services \<times> 's" where
  "ensure out sv s =
     (case tray_health (to_exchange out) (ts_addr sv) s of (up, s) \<Rightarrow>
        if up \<or> alive (ts_server sv) then ((False, None), sv, s)
        else case to_executable out of
          Some e \<Rightarrow> ((False, Some (Errorf ''locate vamoose binary'' [e])), sv, s)
        | None \<Rightarrow>
            (case tray_spawn out [''app'', ''--no-open'', ''--addr'', ts_addr sv] s of (c, s) \<Rightarrow>
               let sv = sv\<lparr>ts_server := c\<rparr> in
               if c = No_Child then ((False, Some (Errorf ''start vamoose app: spawn failed'' [])), sv, s)
               else if alive (ts_daemon sv) then ((True, None), sv, s)
               else (case tray_spawn out [''daemon''] s of (d, s) \<Rightarrow> ((True, None), sv\<lparr>ts_daemon := d\<rparr>, s))))"

definition terminate :: "services \<Rightarrow> services" where
  "terminate sv = sv\<lparr>ts_server := stop_child (ts_server sv), ts_daemon := stop_child (ts_daemon sv)\<rparr>"

section \<open>The menu\<close>

datatype menu_item =
    Line string
  | Hold_Menu string "(string \<times> string \<times> string \<times> string) list"
  | Separator
  | Button string

record tray_view =
  tv_title :: string
  tv_tooltip :: string
  tv_menu :: "menu_item list"

definition history_lines :: nat where "history_lines = 5"

definition hold_menu :: "watch_item \<Rightarrow> menu_item" where
  "hold_menu i = Hold_Menu (tray_watch_line i)
     (map (\<lambda>act. (title_case act, act, wi_hold_id i, wi_provider i)) [''check'', ''promote'', ''cancel''])"

definition moose :: string where "moose = utf8_bytes 129742"

definition tray_title :: "watch_item list \<Rightarrow> string" where
  "tray_title ws = (if ws = [] then moose else moose @ '' '' @ show_nat (length ws))"

definition tray_tooltip :: "watch_item list \<Rightarrow> string" where
  "tray_tooltip ws = (if ws = [] then ''vamoose'' else ''vamoose'' @ dot @ ''watching '' @ show_nat (length ws))"

definition tray_view_of :: "location \<Rightarrow> bool \<Rightarrow> string \<Rightarrow> watch_item list \<Rightarrow> event list \<Rightarrow> string \<Rightarrow> tray_view" where
  "tray_view_of loc up note ws es version =
     \<lparr>tv_title = tray_title ws, tv_tooltip = tray_tooltip ws,
       tv_menu =
         (if \<not> up then [Line note] else if ws = [] then [Line ''Nothing is being watched'']
          else Line ''Watching'' # map hold_menu ws)
         @ (if es = [] then [] else Separator # Line ''Recent'' # map (\<lambda>e. Line (tray_event_line loc e)) es)
         @ [Separator, Button ''Open dashboard'', Button ''Refresh'', Separator]
         @ (if version = [] then [] else [Line version]) @ [Button ''Quit vamoose tray'']\<rparr>"

definition starting_note :: string where
  "starting_note = ''Starting the vamoose server'' @ utf8_bytes 8230"

definition tray_rebuild :: "'s tray_out \<Rightarrow> services \<Rightarrow> 's \<Rightarrow> tray_view \<times> services \<times> 's" where
  "tray_rebuild out sv s =
     (let ex = to_exchange out; addr = ts_addr sv in
      case tray_health ex addr s of
        (False, s) \<Rightarrow>
          (case ensure out sv s of ((spawned, err), sv, s) \<Rightarrow>
             (tray_view_of (to_local out) False (case err of Some e \<Rightarrow> error_text e | None \<Rightarrow> starting_note) [] [] [], sv, s))
      | (True, s) \<Rightarrow>
          (let (ws, s) = tray_watches ex addr s; (es, s) = tray_history ex addr history_lines s;
               (version, s) = tray_version (to_render out) ex addr s
           in (tray_view_of (to_local out) True [] (case ws of Inl e \<Rightarrow> [] | Inr ws \<Rightarrow> ws) (case es of Inl e \<Rightarrow> [] | Inr es \<Rightarrow> es) version,
               sv, s)))"

section \<open>The tray and the dashboard\<close>

text \<open>The exchange of a tray attached to a running dashboard.\<close>

definition dashboard_exchange :: "app_env \<Rightarrow> dashboard exchange" where
  "dashboard_exchange e q s = (case app_serve e q s of (r, s) \<Rightarrow> (Inr r, s))"

lemma tray_requests_local: "is_loopback_host (hostname addr) \<Longrightarrow> local_only (tray_request addr m p b)"
  by (simp add: local_only_def tray_request_def)

lemma app_serve_history: "aq_method q = ''GET'' \<Longrightarrow> aq_path q = ''/api/history'' \<Longrightarrow> app_serve e q s = app_json (app_history e) q s"
  by (simp add: app_serve_def route_for_def app_routes_def)

lemma app_serve_watches: "aq_method q = ''GET'' \<Longrightarrow> aq_path q = ''/api/watches'' \<Longrightarrow> app_serve e q s = app_json (app_watches e) q s"
  by (simp add: app_serve_def route_for_def app_routes_def)

lemma action_fields:
  "equal_fold ''action'' ''action''" "\<not> equal_fold ''holdID'' ''action''" "\<not> equal_fold ''holdID'' ''provider''"
  "equal_fold ''holdID'' ''holdID''" "\<not> equal_fold ''provider'' ''action''" "equal_fold ''provider'' ''provider''"
  by code_simp+

lemma action_body_read:
  "decode_body action_field \<lparr>ab_action = [], ab_provider = [], ab_hold_id = []\<rparr> (show_json (action_json act hid provider))
     = Some \<lparr>ab_action = act, ab_provider = provider, ab_hold_id = hid\<rparr>"
  using scan_show_json[of "action_json act hid provider"]
  by (simp add: decode_body_def action_json_def action_field_def action_fields)

text \<open>
  A click runs the command, and its failure is not seen. For a hold the daemon watches, the tray's action reaches the
  program as that command on that hold with its provider; the dashboard answers 200 with the error in the body, so the
  tray reports success whether the command succeeded or not.
\<close>

theorem tray_action_hides_failure:
  assumes "is_loopback_host (hostname addr)" and "act \<in> {''check'', ''promote'', ''cancel''}" and "hid \<noteq> []"
    and "ae_exec e (db_dir s) ([act, ''--id'', hid] @ opt_flag ''--provider'' provider) (db_world s) = (r, w)"
  shows "tray_action render (dashboard_exchange e) addr act hid provider s = (None, s\<lparr>db_world := w\<rparr>)"
proof -
  let ?q = "tray_request addr ''POST'' ''/api/action'' (show_json (action_json act hid provider))"
  let ?b = "\<lparr>ab_action = act, ab_provider = provider, ab_hold_id = hid\<rparr>"
  have "app_action e ?q s = app_command e (app_action_args ?b) s"
    using tray_requests_local[OF assms(1)] assms(2,3) action_body_read[of act hid provider]
    by (auto simp: app_action_def guarded_def tray_request_def)
  also have "\<dots> = (command_reply r, s\<lparr>db_world := w\<rparr>)"
    using assms(4) by (simp add: app_command_def app_action_args_def)
  finally have "app_serve e ?q s = (command_reply r, s\<lparr>db_world := w\<rparr>)"
    using app_serve_action[of ?q] by (simp add: tray_request_def)
  then show ?thesis by (simp add: tray_action_def dashboard_exchange_def command_reply_def reply_ok_def split: prod.splits)
qed

text \<open>\<open>promote\<close> on a hold the calendar does not know fails, and the tray shows nothing of it.\<close>

definition lost_env :: app_env where
  "lost_env = dashboard_env\<lparr>ae_exec := \<lambda>d args w. ((''vamoose: hold not found'', Some (Sentinel ''exit status 1'')), w)\<rparr>"

theorem tray_action_hides_failure_witness:
  "tray_action (\<lambda>b. []) (dashboard_exchange lost_env) ''127.0.0.1:8787'' ''promote'' ''h9'' [] new_dashboard = (None, new_dashboard)"
proof -
  have "is_loopback_host (hostname ''127.0.0.1:8787'')" by code_simp
  from tray_action_hides_failure[OF this, of "''promote''" "''h9''" lost_env new_dashboard "[]" _ "db_world new_dashboard" "\<lambda>b. []"]
  show ?thesis by (simp add: lost_env_def)
qed

section \<open>What the menu shows\<close>

text \<open>
  What the tray relies on: a server that, while it serves, answers for its health, lists the holds it watches and the
  events it recorded, and is not changed by being asked.
\<close>

locale hold_server =
  fixes ex :: "'s exchange" and addr :: string and serving :: "'s \<Rightarrow> bool"
    and watched :: "'s \<Rightarrow> watch_item list" and recorded :: "'s \<Rightarrow> event list"
  assumes healthy: "serving s \<Longrightarrow> \<exists>b. ex (tray_request addr ''GET'' ''/health'' []) s = (Inr (reply_ok b), s)"
    and lists_watched: "serving s \<Longrightarrow> ex (tray_request addr ''GET'' ''/api/watches'' []) s = (Inr (reply_ok (Watch_List (watched s))), s)"
    and lists_recorded: "serving s \<Longrightarrow> ex (tray_request addr ''GET'' ''/api/history'' []) s = (Inr (reply_ok (Event_List (recorded s))), s)"
    and has_version: "serving s \<Longrightarrow> \<exists>b. ex (tray_request addr ''GET'' ''/api/version'' []) s = (Inr (reply_ok b), s)"
begin

lemma health: "serving s \<Longrightarrow> tray_health ex addr s = (True, s)"
  using healthy[of s] by (auto simp: tray_health_def reply_ok_def)

lemma history: "serving s \<Longrightarrow> tray_history ex addr n s = (Inr (rev (last_n n (recorded s))), s)"
proof -
  have "newest_first n es = rev (last_n n es)" for es by (simp add: newest_first_def last_n_def)
  then show "serving s \<Longrightarrow> tray_history ex addr n s = (Inr (rev (last_n n (recorded s))), s)"
    using lists_recorded[of s] by (simp add: tray_history_def tray_get_def reply_ok_def)
qed

lemma watches: "serving s \<Longrightarrow> tray_watches ex addr s = (Inr (watched s), s)"
  using lists_watched[of s] by (simp add: tray_watches_def tray_get_def reply_ok_def)

lemma rebuild:
  assumes "serving s" and "to_exchange out = ex" and "ts_addr sv = addr"
  shows "\<exists>version. tray_rebuild out sv s =
    (tray_view_of (to_local out) True [] (watched s) (rev (last_n history_lines (recorded s))) version, sv, s)"
proof -
  obtain b where "ex (tray_request addr ''GET'' ''/api/version'' []) s = (Inr (reply_ok b), s)"
    using has_version[OF assms(1)] by blast
  then show ?thesis
    using health[OF assms(1)] history[OF assms(1)] watches[OF assms(1)]
    by (intro exI[of _ "trim_space (take 256 (to_render out (ar_body (reply_ok b))))"])
      (simp add: tray_rebuild_def assms(2,3) tray_version_def Let_def)
qed

lemma ensure_attaches: "serving s \<Longrightarrow> to_exchange out = ex \<Longrightarrow> ts_addr sv = addr \<Longrightarrow> ensure out sv s = ((False, None), sv, s)"
  by (simp add: ensure_def health)

end

text \<open>The dashboard of \<open>App\<close> is such a server while its two files can be read.\<close>

definition readable :: "app_env \<Rightarrow> dashboard \<Rightarrow> bool" where
  "readable e s \<longleftrightarrow> e_audit_path (ae_env e) = None
     \<and> (case load_events (w_audit (db_world s)) of Inr es \<Rightarrow> True | Inl err \<Rightarrow> False)
     \<and> (case w_load_watches (ae_env e) (db_world s) of Inr ws \<Rightarrow> True | Inl err \<Rightarrow> False)"

definition recorded_events :: "dashboard \<Rightarrow> event list" where
  "recorded_events s = (case load_events (w_audit (db_world s)) of Inr es \<Rightarrow> es | Inl err \<Rightarrow> [])"

definition watched_holds :: "app_env \<Rightarrow> dashboard \<Rightarrow> watch_item list" where
  "watched_holds e s = (case w_load_watches (ae_env e) (db_world s) of Inr ws \<Rightarrow> ws | Inl err \<Rightarrow> [])"

lemma app_serve_plain:
  "aq_method q = ''GET'' \<Longrightarrow> aq_path q = ''/health'' \<Longrightarrow> app_serve e q s = app_static (Plain ''ok'') q s"
  "aq_method q = ''GET'' \<Longrightarrow> aq_path q = ''/api/version'' \<Longrightarrow> app_serve e q s = app_static (Plain (ae_version e)) q s"
  by (simp_all add: app_serve_def route_for_def app_routes_def)

lemma default_address: "is_loopback_host (hostname ''127.0.0.1:8787'')"
  by code_simp

interpretation local_dashboard: hold_server "dashboard_exchange e" "''127.0.0.1:8787''" "readable e" "watched_holds e" recorded_events for e
proof unfold_locales
  fix s
  let ?q = "\<lambda>p. tray_request ''127.0.0.1:8787'' ''GET'' p []"
  have here: "local_only (?q p)" for p by (rule tray_requests_local[OF default_address])
  show "\<exists>b. dashboard_exchange e (?q ''/health'') s = (Inr (reply_ok b), s)" if "readable e s"
    using app_serve_plain(1)[of "?q ''/health''" e s] here
    by (auto simp: dashboard_exchange_def app_static_def guarded_def tray_request_def)
  show "\<exists>b. dashboard_exchange e (?q ''/api/version'') s = (Inr (reply_ok b), s)" if "readable e s"
    using app_serve_plain(2)[of "?q ''/api/version''" e s] here
    by (auto simp: dashboard_exchange_def app_static_def guarded_def tray_request_def)
  show "dashboard_exchange e (?q ''/api/watches'') s = (Inr (reply_ok (Watch_List (watched_holds e s))), s)" if "readable e s"
    using that app_serve_watches[of "?q ''/api/watches''" e s] here[of "''/api/watches''"]
    by (auto simp: dashboard_exchange_def app_json_def guarded_def app_watches_def watched_holds_def readable_def tray_request_def
        split: sum.splits)
  show "dashboard_exchange e (?q ''/api/history'') s = (Inr (reply_ok (Event_List (recorded_events s))), s)" if "readable e s"
    using that app_serve_history[of "?q ''/api/history''" e s] here[of "''/api/history''"]
    by (auto simp: dashboard_exchange_def app_json_def guarded_def app_history_def recorded_events_def readable_def tray_request_def
        split: sum.splits)
qed

text \<open>The commands the menu offers: the action, the hold and its provider.\<close>

definition offered :: "menu_item list \<Rightarrow> (string \<times> string \<times> string) list" where
  "offered ms = concat (map (\<lambda>m. case m of Hold_Menu l acts \<Rightarrow> map snd acts | _ \<Rightarrow> []) ms)"

lemma offered_simps:
  "offered [] = []" "offered (Line l # ms) = offered ms" "offered (Separator # ms) = offered ms" "offered (Button l # ms) = offered ms"
  "offered (xs @ ys) = offered xs @ offered ys" "offered (map (\<lambda>e. Line (f e)) es) = []"
  by (simp_all add: offered_def comp_def)

lemma offered_holds:
  "offered (map hold_menu ws) = concat (map (\<lambda>i. map (\<lambda>act. (act, wi_hold_id i, wi_provider i)) [''check'', ''promote'', ''cancel'']) ws)"
  by (simp add: offered_def hold_menu_def comp_def)

lemma offered_view:
  "offered (tv_menu (tray_view_of loc True note ws es version))
     = concat (map (\<lambda>i. map (\<lambda>act. (act, wi_hold_id i, wi_provider i)) [''check'', ''promote'', ''cancel'']) ws)"
  by (simp add: tray_view_of_def Let_def offered_simps offered_holds)

text \<open>
  The menu offers what is watched. Attached to a dashboard whose files can be read, rebuilding the menu starts nothing
  and changes nothing, and the menu offers check, promote and cancel on exactly the watched holds, with their providers.
\<close>

theorem tray_offers_watched_holds:
  assumes "readable e s" and "to_exchange out = dashboard_exchange e" and "ts_addr sv = ''127.0.0.1:8787''"
    and "tray_rebuild out sv s = (v, sv', s')"
  shows "sv' = sv \<and> s' = s \<and> offered (tv_menu v)
    = concat (map (\<lambda>i. map (\<lambda>act. (act, wi_hold_id i, wi_provider i)) [''check'', ''promote'', ''cancel'']) (watched_holds e s))"
  using local_dashboard.rebuild[OF assms(1-3)] assms(4) offered_view by auto

section \<open>One server at a time\<close>

text \<open>What the tray does and what its children do, with the command lines it started and the exits it saw.\<close>

record tray_state =
  tr_services :: services
  tr_started :: "string list list"
  tr_server_exits :: nat
  tr_daemon_exits :: nat

definition recording :: "bool \<Rightarrow> (string list \<Rightarrow> bool) \<Rightarrow> error option \<Rightarrow> string list list tray_out" where
  "recording up spawn_ok exe =
     \<lparr>to_exchange = (\<lambda>q s. (if up then Inr (reply_ok (Plain ''ok'')) else Inl (Errorf ''connection refused'' []), s)),
      to_render = (\<lambda>b. []), to_executable = exe,
      to_spawn = (\<lambda>args s. (spawn_ok args, if spawn_ok args then s @ [args] else s)), to_local = UTC\<rparr>"

definition new_tray :: "string \<Rightarrow> tray_state" where
  "new_tray addr = \<lparr>tr_services = \<lparr>ts_addr = addr, ts_server = No_Child, ts_daemon = No_Child\<rparr>, tr_started = [],
     tr_server_exits = 0, tr_daemon_exits = 0\<rparr>"

inductive tray_step :: "tray_state \<Rightarrow> tray_state \<Rightarrow> bool" where
  tray_ensure: "ensure (recording up ok exe) (tr_services t) (tr_started t) = (r, sv, log) \<Longrightarrow>
     tray_step t (t\<lparr>tr_services := sv, tr_started := log\<rparr>)"
| server_exits: "alive (ts_server (tr_services t)) \<Longrightarrow>
     tray_step t (t\<lparr>tr_services := (tr_services t)\<lparr>ts_server := Exited\<rparr>, tr_server_exits := Suc (tr_server_exits t)\<rparr>)"
| daemon_exits: "alive (ts_daemon (tr_services t)) \<Longrightarrow>
     tray_step t (t\<lparr>tr_services := (tr_services t)\<lparr>ts_daemon := Exited\<rparr>, tr_daemon_exits := Suc (tr_daemon_exits t)\<rparr>)"

definition started :: "string \<Rightarrow> tray_state \<Rightarrow> nat" where
  "started c t = length (filter (\<lambda>args. hd args = c) (tr_started t))"

definition no_leak :: "tray_state \<Rightarrow> bool" where
  "no_leak t \<longleftrightarrow>
     started ''app'' t = tr_server_exits t + (if alive (ts_server (tr_services t)) then 1 else 0) \<and>
     started ''daemon'' t = tr_daemon_exits t + (if alive (ts_daemon (tr_services t)) then 1 else 0)"

lemma ensure_recording:
  assumes "ensure (recording up ok exe) sv log = ((spawned, err), sv', log')"
  shows "log' = log \<and> ts_daemon sv' = ts_daemon sv \<and> alive (ts_server sv') = alive (ts_server sv)
      \<or> \<not> up \<and> \<not> alive (ts_server sv) \<and> alive (ts_server sv')
        \<and> (log' = log @ [[''app'', ''--no-open'', ''--addr'', ts_addr sv]] \<and> alive (ts_daemon sv') = alive (ts_daemon sv)
          \<or> log' = log @ [[''app'', ''--no-open'', ''--addr'', ts_addr sv], [''daemon'']]
            \<and> \<not> alive (ts_daemon sv) \<and> alive (ts_daemon sv'))"
  using assms
  by (auto simp: ensure_def recording_def tray_health_def tray_spawn_def reply_ok_def alive_def Let_def split: if_splits option.splits)

lemma tray_step_no_leak: "tray_step t t' \<Longrightarrow> no_leak t \<Longrightarrow> no_leak t'"
proof (induction rule: tray_step.induct)
  case (tray_ensure up ok exe t r sv log)
  obtain spawned err where r: "r = (spawned, err)" by fastforce
  from ensure_recording[OF tray_ensure.hyps[unfolded r]] tray_ensure.prems show ?case
    by (auto simp: no_leak_def started_def)
qed (auto simp: no_leak_def started_def alive_def)

text \<open>
  C29. The tray loses none of its processes. However often the menu is rebuilt, whether the server answers or not, whether
  starting succeeds or not, and whenever the children exit: every server and every daemon the tray started has exited or
  is the one it still holds, so at most one of each is running, and quitting stops it.
\<close>

theorem tray_holds_its_children:
  assumes "tray_step\<^sup>*\<^sup>* (new_tray addr) t"
  shows "started ''app'' t \<le> Suc (tr_server_exits t) \<and> started ''daemon'' t \<le> Suc (tr_daemon_exits t)
    \<and> (alive (ts_server (terminate (tr_services t))) \<or> alive (ts_daemon (terminate (tr_services t))) \<longrightarrow> False)
    \<and> (started ''app'' t = Suc (tr_server_exits t) \<longrightarrow> alive (ts_server (tr_services t)))
    \<and> (started ''daemon'' t = Suc (tr_daemon_exits t) \<longrightarrow> alive (ts_daemon (tr_services t)))"
proof -
  have "no_leak t" using assms
  proof (induction rule: rtranclp_induct)
    case base
    show ?case by (simp add: no_leak_def started_def new_tray_def alive_def)
  qed (rule tray_step_no_leak)
  then show ?thesis by (auto simp: no_leak_def terminate_def stop_child_def alive_def split: if_splits)
qed

theorem tray_holds_its_children_witness:
  "\<exists>t. tray_step (new_tray ''127.0.0.1:8787'') t \<and> started ''app'' t = 1 \<and> started ''daemon'' t = 1
     \<and> alive (ts_server (tr_services t))"
proof -
  let ?fresh = "new_tray ''127.0.0.1:8787''"
  obtain r sv log where e: "ensure (recording False (\<lambda>a. True) None) (tr_services ?fresh) (tr_started ?fresh) = (r, sv, log)"
    by (metis prod_cases3)
  have log: "log = [[''app'', ''--no-open'', ''--addr'', ''127.0.0.1:8787''], [''daemon'']]"
    using e by (auto simp: ensure_def recording_def tray_health_def tray_spawn_def new_tray_def alive_def)
  let ?t = "?fresh\<lparr>tr_services := sv, tr_started := log\<rparr>"
  have step: "tray_step ?fresh ?t" by (rule tray_ensure[OF e])
  have n: "started ''app'' ?t = 1" "started ''daemon'' ?t = 1" "tr_server_exits ?t = 0"
    by (simp_all add: started_def log new_tray_def)
  from tray_holds_its_children[OF r_into_rtranclp[of tray_step, OF step]] n have "alive (ts_server (tr_services ?t))" by simp
  with step n show ?thesis by blast
qed

end
