(* ===== verification/Daemon_Lock.thy ===== *)
theory Daemon_Lock
  imports Schedule
begin

text \<open>
  One daemon per watch file (\<open>cmd/daemon.go\<close>, \<open>internal/util/filelock_unix.go\<close>): the lock file next to the watch file,
  taken without waiting, and removed by a daemon that stops. Any number of daemons are started, stopped and killed;
  each system call of the lock is a step. Then the loop a daemon runs while it holds the lock.
\<close>

section \<open>The lock file\<close>

text \<open>
  The file at the path, if there is one, and who holds the lock of each file. A lock belongs to the open file, not to
  the path: it survives the removal of the name.
\<close>

record lock_files =
  lf_path :: "nat option"
  lf_next :: nat
  lf_owner :: "nat \<Rightarrow> nat option"

definition open_create :: "lock_files \<Rightarrow> nat \<times> lock_files" where
  "open_create fs =
     (case lf_path fs of
        Some i \<Rightarrow> (i, fs)
      | None \<Rightarrow> (lf_next fs, fs\<lparr>lf_path := Some (lf_next fs), lf_next := Suc (lf_next fs)\<rparr>))"

definition flock :: "nat \<Rightarrow> nat \<Rightarrow> lock_files \<Rightarrow> lock_files option" where
  "flock pid i fs = (if lf_owner fs i = None then Some (fs\<lparr>lf_owner := (lf_owner fs)(i := Some pid)\<rparr>) else None)"

definition unlock :: "nat \<Rightarrow> lock_files \<Rightarrow> lock_files" where
  "unlock i fs = fs\<lparr>lf_owner := (lf_owner fs)(i := None)\<rparr>"

definition unlink :: "lock_files \<Rightarrow> lock_files" where
  "unlink fs = fs\<lparr>lf_path := None\<rparr>"

section \<open>Daemons as processes\<close>

datatype phase =
    Starting
  | Opened nat
  | Holding nat
  | Unlocked
  | Killed
  | Ended "error option"

record daemons =
  dm_files :: lock_files
  dm_phase :: "nat \<Rightarrow> phase"

definition lock_taken :: "string \<Rightarrow> error" where
  "lock_taken path = Errorf (''another vamoose daemon is already advancing these watches (lock '' @ path @ '')'') []"

definition enter :: "nat \<Rightarrow> phase \<Rightarrow> lock_files \<Rightarrow> daemons \<Rightarrow> daemons" where
  "enter pid ph fs m = \<lparr>dm_files = fs, dm_phase = (dm_phase m)(pid := ph)\<rparr>"

text \<open>
  The steps of \<open>acquireDaemonLock\<close> on the lock file at \<open>path\<close> and of the release it returns: the release unlocks the
  file, then removes its name. A daemon that is killed loses its lock and removes nothing.
\<close>

inductive daemon_step :: "string \<Rightarrow> daemons \<Rightarrow> daemons \<Rightarrow> bool" for path where
  opens: "dm_phase m pid = Starting \<Longrightarrow> open_create (dm_files m) = (i, fs) \<Longrightarrow> daemon_step path m (enter pid (Opened i) fs m)"
| unopened: "dm_phase m pid = Starting \<Longrightarrow> daemon_step path m (enter pid (Ended (Some (lock_taken path))) (dm_files m) m)"
| locks: "dm_phase m pid = Opened i \<Longrightarrow> flock pid i (dm_files m) = Some fs \<Longrightarrow> daemon_step path m (enter pid (Holding i) fs m)"
| refused: "dm_phase m pid = Opened i \<Longrightarrow> flock pid i (dm_files m) = None \<Longrightarrow>
    daemon_step path m (enter pid (Ended (Some (lock_taken path))) (dm_files m) m)"
| unlocks: "dm_phase m pid = Holding i \<Longrightarrow> daemon_step path m (enter pid Unlocked (unlock i (dm_files m)) m)"
| stops: "dm_phase m pid = Unlocked \<Longrightarrow> daemon_step path m (enter pid (Ended None) (unlink (dm_files m)) m)"
| killed: "dm_phase m pid = Holding i \<Longrightarrow> daemon_step path m (enter pid Killed (unlock i (dm_files m)) m)"
| killed_idle: "dm_phase m pid \<in> {Starting, Opened i, Unlocked} \<Longrightarrow> daemon_step path m (enter pid Killed (dm_files m) m)"

text \<open>No daemon runs; a lock file may be left from an earlier one.\<close>

definition no_daemons :: "nat option \<Rightarrow> daemons" where
  "no_daemons left = \<lparr>dm_files = \<lparr>lf_path = left, lf_next = (case left of None \<Rightarrow> 0 | Some i \<Rightarrow> Suc i), lf_owner = (\<lambda>i. None)\<rparr>,
     dm_phase = (\<lambda>pid. Starting)\<rparr>"

section \<open>The loop\<close>

definition min_interval :: duration where "min_interval = 10 * second"

definition daemon_interval :: "duration \<Rightarrow> duration" where
  "daemon_interval d = (if d < min_interval then min_interval else d)"

text \<open>The providers the daemon warned about, the schedule file and the world.\<close>

type_synonym daemon_state = "string list \<times> schedule_file \<times> world"

definition daemon_pass ::
  "env \<Rightarrow> (string \<Rightarrow> workflow result) \<Rightarrow> (string \<Rightarrow> error option) \<Rightarrow> location \<Rightarrow> error option \<Rightarrow> bool \<Rightarrow> daemon_state \<Rightarrow> daemon_state" where
  "daemon_pass env ld prov_err loc pe prune s =
     (case s of (warned, f, w) \<Rightarrow>
        case poll_all env ld prov_err prune warned w of
          (warned, w) \<Rightarrow> (warned, poll_schedules env pe (run_scheduled env loc ld prov_err) (f, w)))"

text \<open>\<open>ticks\<close> is how often the ticker fires before the daemon is interrupted, \<open>lock\<close> what acquiring the lock gave.\<close>

definition run_daemon :: "(daemon_state \<Rightarrow> daemon_state) \<Rightarrow> bool \<Rightarrow> nat \<Rightarrow> error option \<Rightarrow> daemon_state \<Rightarrow> error option \<times> daemon_state" where
  "run_daemon pass once ticks lock s =
     (case lock of Some e \<Rightarrow> (Some e, s) | None \<Rightarrow> (None, (pass ^^ (if once then 1 else Suc ticks)) s))"

section \<open>What the theory establishes\<close>

text \<open>While the file is not removed, every open file of a daemon is the one at the path, locked by its holder.\<close>

definition lock_inv :: "daemons \<Rightarrow> bool" where
  "lock_inv m \<longleftrightarrow> (\<forall>pid i. dm_phase m pid = Opened i \<or> dm_phase m pid = Holding i \<longrightarrow> lf_path (dm_files m) = Some i)
     \<and> (\<forall>pid i. dm_phase m pid = Holding i \<longrightarrow> lf_owner (dm_files m) i = Some pid)"

lemma lock_inv_drop:
  assumes "lock_inv m" and "dm_phase m pid = Holding i" and "\<And>j. ph \<noteq> Opened j \<and> ph \<noteq> Holding j"
  shows "lock_inv (enter pid ph (unlock i (dm_files m)) m)"
  unfolding lock_inv_def
proof (intro conjI allI impI)
  fix q j
  let ?m = "enter pid ph (unlock i (dm_files m)) m"
  show "lf_path (dm_files ?m) = Some j" if "dm_phase ?m q = Opened j \<or> dm_phase ?m q = Holding j"
    using that assms(1,3) by (auto simp: lock_inv_def enter_def unlock_def split: if_splits)
  show "lf_owner (dm_files ?m) j = Some q" if "dm_phase ?m q = Holding j"
  proof -
    have q: "q \<noteq> pid" "dm_phase m q = Holding j" using that assms(3) by (auto simp: enter_def split: if_splits)
    then have "lf_owner (dm_files m) j = Some q" "lf_owner (dm_files m) i = Some pid" using assms(1,2) by (auto simp: lock_inv_def)
    with q(1) have "j \<noteq> i" by auto
    then show ?thesis using \<open>lf_owner (dm_files m) j = Some q\<close> by (simp add: enter_def unlock_def)
  qed
qed

lemma lock_inv_leave:
  assumes "lock_inv m" and "\<And>j. ph \<noteq> Opened j \<and> ph \<noteq> Holding j"
  shows "lock_inv (enter pid ph (dm_files m) m)"
proof -
  have "dm_phase m q = ph'" if "dm_phase (enter pid ph (dm_files m) m) q = ph'" "\<exists>j. ph' = Opened j \<or> ph' = Holding j" for q ph'
    using that assms(2) by (auto simp: enter_def split: if_splits)
  moreover have "dm_files (enter pid ph (dm_files m) m) = dm_files m" by (simp add: enter_def)
  ultimately show ?thesis using assms(1) unfolding lock_inv_def by metis
qed

text \<open>A daemon that has stopped stays stopped, and only a daemon that stops removes the file.\<close>

definition none_stopped :: "daemons \<Rightarrow> bool" where
  "none_stopped m \<longleftrightarrow> (\<forall>pid. dm_phase m pid \<noteq> Ended None)"

lemma none_stopped_enter:
  "none_stopped (enter pid ph fs m) \<longleftrightarrow> ph \<noteq> Ended None \<and> (\<forall>q. q \<noteq> pid \<longrightarrow> dm_phase m q \<noteq> Ended None)"
  by (auto simp: none_stopped_def enter_def)

lemma none_stopped_before: "none_stopped (enter pid ph fs m) \<Longrightarrow> dm_phase m pid \<noteq> Ended None \<Longrightarrow> none_stopped m"
  unfolding none_stopped_enter by (metis none_stopped_def)

lemma stopped_stays: "daemon_step path m m' \<Longrightarrow> none_stopped m' \<Longrightarrow> none_stopped m"
  by (induction rule: daemon_step.induct) (erule none_stopped_before, fastforce)+

lemma lock_inv_step: "daemon_step path m m' \<Longrightarrow> none_stopped m' \<Longrightarrow> lock_inv m \<Longrightarrow> lock_inv m'"
proof (induction rule: daemon_step.induct)
  case (opens m pid i fs)
  then show ?case by (auto simp: lock_inv_def enter_def open_create_def split: option.splits)
next
  case (locks m pid i fs)
  then have path: "lf_path (dm_files m) = Some i" and free: "lf_owner (dm_files m) i = None"
    and fs: "fs = (dm_files m)\<lparr>lf_owner := (lf_owner (dm_files m))(i := Some pid)\<rparr>"
    by (auto simp: lock_inv_def flock_def split: if_splits)
  show ?case unfolding lock_inv_def
  proof (intro conjI allI impI)
    fix q j
    assume "dm_phase (enter pid (Holding i) fs m) q = Opened j \<or> dm_phase (enter pid (Holding i) fs m) q = Holding j"
    then have "q = pid \<and> j = i \<or> dm_phase m q = Opened j \<or> dm_phase m q = Holding j"
      by (auto simp: enter_def split: if_splits)
    then show "lf_path (dm_files (enter pid (Holding i) fs m)) = Some j"
      using path locks.prems(2) by (auto simp: enter_def fs lock_inv_def)
  next
    fix q j
    assume "dm_phase (enter pid (Holding i) fs m) q = Holding j"
    then have "q = pid \<and> j = i \<or> q \<noteq> pid \<and> dm_phase m q = Holding j" by (auto simp: enter_def split: if_splits)
    then show "lf_owner (dm_files (enter pid (Holding i) fs m)) j = Some q"
      using free locks.prems(2) by (auto simp: enter_def fs lock_inv_def)
  qed
next
  case (unlocks m pid i)
  then show ?case by (intro lock_inv_drop) simp_all
next
  case (killed m pid i)
  then show ?case by (intro lock_inv_drop) simp_all
next
  case (stops m pid)
  then show ?case by (simp add: none_stopped_enter)
qed (auto intro!: lock_inv_leave)

text \<open>
  C21. Until a daemon is stopped, the lock admits one. However many daemons are started and killed, in whatever order
  their system calls run, and whether or not a lock file was left behind: as long as none of them has been stopped in
  the ordinary way, at most one holds the lock.
\<close>

theorem one_daemon_until_one_stops:
  assumes "(daemon_step path)\<^sup>*\<^sup>* (no_daemons left) m" and "\<forall>pid. dm_phase m pid \<noteq> Ended None"
    and "dm_phase m p = Holding i" and "dm_phase m q = Holding j"
  shows "p = q"
proof -
  have "none_stopped m \<longrightarrow> lock_inv m" using assms(1)
  proof (induction rule: rtranclp_induct)
    case base
    show ?case by (simp add: lock_inv_def no_daemons_def)
  qed (blast intro: lock_inv_step stopped_stays)
  then have "lock_inv m" using assms(2) by (simp add: none_stopped_def)
  then have "i = j" "lf_owner (dm_files m) i = Some p" "lf_owner (dm_files m) j = Some q"
    using assms(3,4) unfolding lock_inv_def by (metis option.inject)+
  then show ?thesis by simp
qed

theorem one_daemon_until_one_stops_witness:
  "\<exists>m. (daemon_step ''watches.json.lock'')\<^sup>*\<^sup>* (no_daemons None) m \<and> dm_phase m 3 = Killed \<and> dm_phase m 7 = Holding 0
     \<and> (\<forall>q. dm_phase m q = Holding 0 \<longrightarrow> q = 7)"
proof -
  note defs = no_daemons_def open_create_def enter_def flock_def unlock_def
  let ?step = "daemon_step ''watches.json.lock''"
  let ?a = "no_daemons None"
  let ?b = "enter 3 (Opened 0) (snd (open_create (dm_files ?a))) ?a"
  let ?c = "enter 3 (Holding 0) (the (flock 3 0 (dm_files ?b))) ?b"
  let ?d = "enter 7 (Opened 0) (snd (open_create (dm_files ?c))) ?c"
  let ?e = "enter 3 Killed (unlock 0 (dm_files ?d)) ?d"
  let ?f = "enter 7 (Holding 0) (the (flock 7 0 (dm_files ?e))) ?e"
  have "?step ?a ?b" by (rule opens) (simp_all add: defs)
  moreover have "?step ?b ?c" by (rule locks) (simp_all add: defs)
  moreover have "?step ?c ?d" by (rule opens) (simp_all add: defs)
  moreover have "?step ?d ?e" by (rule killed) (simp add: defs)
  moreover have "?step ?e ?f" by (rule locks) (simp_all add: defs)
  ultimately have r: "?step\<^sup>*\<^sup>* ?a ?f" by (meson converse_rtranclp_into_rtranclp rtranclp.rtrancl_refl)
  have none: "\<forall>pid. dm_phase ?f pid \<noteq> Ended None" and h: "dm_phase ?f 3 = Killed" "dm_phase ?f 7 = Holding 0"
    by (simp_all add: defs)
  have "q = 7" if "dm_phase ?f q = Holding 0" for q using one_daemon_until_one_stops[OF r none that h(2)] .
  with r h show ?thesis by blast
qed

text \<open>
  C33. A daemon that stops lets two others run. The release unlocks the file and then removes the name: a second daemon
  that opened the file takes its lock in between, and a third one finds no file, makes a new one and locks that. Both
  hold a lock and advance the same watches.
\<close>

theorem stopping_daemon_admits_two:
  "\<exists>m. (daemon_step path)\<^sup>*\<^sup>* (no_daemons None) m \<and> dm_phase m 0 = Ended None \<and> dm_phase m 1 = Holding 0 \<and> dm_phase m 2 = Holding 1"
proof -
  note defs = no_daemons_def open_create_def enter_def flock_def unlock_def unlink_def
  let ?a = "no_daemons None"
  let ?b = "enter 0 (Opened 0) (snd (open_create (dm_files ?a))) ?a"
  let ?c = "enter 0 (Holding 0) (the (flock 0 0 (dm_files ?b))) ?b"
  let ?d = "enter 1 (Opened 0) (snd (open_create (dm_files ?c))) ?c"
  let ?e = "enter 0 Unlocked (unlock 0 (dm_files ?d)) ?d"
  let ?f = "enter 1 (Holding 0) (the (flock 1 0 (dm_files ?e))) ?e"
  let ?g = "enter 0 (Ended None) (unlink (dm_files ?f)) ?f"
  let ?h = "enter 2 (Opened 1) (snd (open_create (dm_files ?g))) ?g"
  let ?i = "enter 2 (Holding 1) (the (flock 2 1 (dm_files ?h))) ?h"
  have "daemon_step path ?a ?b" by (rule opens) (simp_all add: defs)
  moreover have "daemon_step path ?b ?c" by (rule locks) (simp_all add: defs)
  moreover have "daemon_step path ?c ?d" by (rule opens) (simp_all add: defs)
  moreover have "daemon_step path ?d ?e" by (rule unlocks) (simp add: defs)
  moreover have "daemon_step path ?e ?f" by (rule locks) (simp_all add: defs)
  moreover have "daemon_step path ?f ?g" by (rule stops) (simp add: defs)
  moreover have "daemon_step path ?g ?h" by (rule opens) (simp_all add: defs)
  moreover have "daemon_step path ?h ?i" by (rule locks) (simp_all add: defs)
  ultimately have "(daemon_step path)\<^sup>*\<^sup>* ?a ?i" by (meson converse_rtranclp_into_rtranclp rtranclp.rtrancl_refl)
  moreover have "dm_phase ?i 0 = Ended None \<and> dm_phase ?i 1 = Holding 0 \<and> dm_phase ?i 2 = Holding 1" by (simp add: defs)
  ultimately show ?thesis by blast
qed

end
