(* ===== verification/Slack_Api.thy ===== *)
theory Slack_Api
  imports Slack_Properties Comms
begin

text \<open>
  What the Slack server and Slack say to each other (\<open>internal/slack/slack.go\<close>, \<open>internal/slack/oauth.go\<close>): the JSON of
  the messages it posts, with the approval buttons, the form for credentials, and the calls of the web API. Maps are
  written with their keys in order, as \<open>encoding/json\<close> does.
\<close>

section \<open>Messages\<close>

definition plain_text :: "string \<Rightarrow> json" where
  "plain_text t = JObj [(''text'', JStr t), (''type'', JStr ''plain_text'')]"

definition approval_button :: "string \<Rightarrow> string \<Rightarrow> string \<Rightarrow> string \<Rightarrow> json" where
  "approval_button label style action val =
     JObj [(''action_id'', JStr action), (''style'', JStr style), (''text'', plain_text label), (''type'', JStr ''button''),
       (''value'', JStr val)]"

definition approval_blocks :: "string \<Rightarrow> string \<Rightarrow> json" where
  "approval_blocks summary val =
     JArr [JObj [(''text'', JObj [(''text'', JStr summary), (''type'', JStr ''mrkdwn'')]), (''type'', JStr ''section'')],
       JObj [(''elements'', JArr [approval_button ''Approve'' ''primary'' ''vamoose_approve'' val,
           approval_button ''Decline'' ''danger'' ''vamoose_decline'' val]), (''type'', JStr ''actions'')]]"

fun message_json :: "message \<Rightarrow> json" where
  "message_json (Ephemeral t) = JObj [(''response_type'', JStr ''ephemeral''), (''text'', JStr t)]"
| "message_json (In_Channel t) = JObj [(''response_type'', JStr ''in_channel''), (''text'', JStr t)]"
| "message_json (Approval_Buttons summary val) =
     JObj [(''blocks'', approval_blocks summary val), (''response_type'', JStr ''in_channel''), (''text'', JStr summary)]"
| "message_json (Replace_Original t) = JObj [(''replace_original'', JBool True), (''text'', JStr t)]"

text \<open>\<open>post\<close>: what is sent to the response URL, whose answer is not looked at.\<close>

definition post_request :: "string \<Rightarrow> message \<Rightarrow> http_request option" where
  "post_request url m =
     (if url = [] then None
      else Some \<lparr>hq_method = ''POST'', hq_url = url, hq_headers = [(''Content-Type'', ''application/json'')],
        hq_body = show_json (message_json m)\<rparr>)"

text \<open>What a handler writes: an encoder ends the value with a line feed.\<close>

definition write_message :: "message \<Rightarrow> (string \<times> string) list \<times> string" where
  "write_message m = ([(''Content-Type'', ''application/json'')], show_json (message_json m) @ [CHR 0x0A])"

definition field_errors :: "string \<Rightarrow> string \<Rightarrow> json" where
  "field_errors field t = JObj [(''errors'', JObj [(field, JStr t)]), (''response_action'', JStr ''errors'')]"

section \<open>The web API\<close>

definition form_call :: "string \<Rightarrow> (string \<times> string) list \<Rightarrow> form \<Rightarrow> http_request" where
  "form_call url headers f =
     \<lparr>hq_method = ''POST'', hq_url = url, hq_headers = (''Content-Type'', ''application/x-www-form-urlencoded'') # headers,
      hq_body = encode_form f\<rparr>"

record api_reply =
  rp_ok :: bool
  rp_error :: string
  rp_id :: string
  rp_token :: string

definition no_reply :: api_reply where
  "no_reply = \<lparr>rp_ok = False, rp_error = [], rp_id = [], rp_token = []\<rparr>"

definition status_field :: "api_reply \<Rightarrow> string \<Rightarrow> json \<Rightarrow> api_reply option" where
  "status_field a k v =
     (if equal_fold k ''ok'' then map_option (\<lambda>x. a\<lparr>rp_ok := x\<rparr>) (as_bool (rp_ok a) v)
      else if equal_fold k ''error'' then map_option (\<lambda>x. a\<lparr>rp_error := x\<rparr>) (as_string (rp_error a) v)
      else Some a)"

definition user_field :: "api_reply \<Rightarrow> string \<Rightarrow> json \<Rightarrow> api_reply option" where
  "user_field a k v =
     (if equal_fold k ''user'' then map_option (\<lambda>x. a\<lparr>rp_id := x\<rparr>) (string_field ''id'' (rp_id a) v)
      else status_field a k v)"

definition install_field :: "api_reply \<Rightarrow> string \<Rightarrow> json \<Rightarrow> api_reply option" where
  "install_field a k v =
     (if equal_fold k ''access_token'' then map_option (\<lambda>x. a\<lparr>rp_token := x\<rparr>) (as_string (rp_token a) v)
      else if equal_fold k ''team'' then map_option (\<lambda>x. a\<lparr>rp_id := x\<rparr>) (string_field ''id'' (rp_id a) v)
      else status_field a k v)"

text \<open>A call answers with a reply that says whether it was done; \<open>name\<close> is how its error is named.\<close>

definition api_call ::
  "http_call \<Rightarrow> http_request \<Rightarrow> (api_reply \<Rightarrow> string \<Rightarrow> json \<Rightarrow> api_reply option) \<Rightarrow> string \<Rightarrow> api_reply result" where
  "api_call call q field name =
     (case call q of
        Inl e \<Rightarrow> Inl e
      | Inr r \<Rightarrow>
          (case decode_first (in_object field no_reply) (hs_body r) of
             Inl e \<Rightarrow> Inl e
           | Inr a \<Rightarrow> (if rp_ok a then Inr a else Inl (Errorf (name @ '': '' @ rp_error a) []))))"

definition lookup_user_by_email :: "http_call \<Rightarrow> string \<Rightarrow> string \<Rightarrow> string \<Rightarrow> string result" where
  "lookup_user_by_email call base tok email =
     map_sum id rp_id (api_call call
       (form_call (base @ ''/users.lookupByEmail'') [(''Authorization'', ''Bearer '' @ tok)] [(''email'', email)])
       user_field ''users.lookupByEmail'')"

definition exchange_code :: "http_call \<Rightarrow> string \<Rightarrow> string \<Rightarrow> string \<Rightarrow> string \<Rightarrow> string \<Rightarrow> (string \<times> string) result" where
  "exchange_code call base client secret code redirect =
     map_sum id (\<lambda>a. (rp_id a, rp_token a)) (api_call call
       (form_call (base @ ''/oauth.v2.access'') []
         [(''client_id'', client), (''client_secret'', secret), (''code'', code), (''redirect_uri'', redirect)])
       install_field ''slack oauth'')"

definition credential_input :: "string \<Rightarrow> string \<Rightarrow> json" where
  "credential_input block label =
     JObj [(''block_id'', JStr block), (''element'', JObj [(''action_id'', JStr ''value''), (''type'', JStr ''plain_text_input'')]),
       (''label'', plain_text label), (''type'', JStr ''input'')]"

definition modal_view :: "string \<Rightarrow> json" where
  "modal_view provider =
     JObj [(''blocks'', JArr [credential_input ''username'' ''Apple ID email'', credential_input ''password'' ''App-specific password'']),
       (''callback_id'', JStr credential_modal_callback), (''close'', plain_text ''Cancel''), (''private_metadata'', JStr provider),
       (''submit'', plain_text ''Link''), (''title'', plain_text (''Link '' @ provider)), (''type'', JStr ''modal'')]"

definition view_request :: "string \<Rightarrow> string \<Rightarrow> string \<Rightarrow> string \<Rightarrow> http_request" where
  "view_request base tok trigger provider =
     \<lparr>hq_method = ''POST'', hq_url = base @ ''/views.open'',
      hq_headers = [(''Content-Type'', ''application/json''), (''Authorization'', ''Bearer '' @ tok)],
      hq_body = show_json (JObj [(''trigger_id'', JStr trigger), (''view'', modal_view provider)])\<rparr>"

definition open_view :: "http_call \<Rightarrow> string \<Rightarrow> string \<Rightarrow> string \<Rightarrow> string \<Rightarrow> error option" where
  "open_view call base tok trigger provider =
     (case api_call call (view_request base tok trigger provider) status_field ''views.open'' of
        Inl e \<Rightarrow> Some e
      | Inr a \<Rightarrow> None)"

text \<open>A server whose Slack is reached over HTTP; \<open>call\<close> answers by the number of calls before.\<close>

definition over_http :: "(nat \<Rightarrow> http_call) \<Rightarrow> string \<Rightarrow> string \<Rightarrow> string \<Rightarrow> slack_env \<Rightarrow> slack_env" where
  "over_http call base client secret env = env\<lparr>
     se_lookup_email := (\<lambda>n tok email. lookup_user_by_email (call n) base tok email),
     se_exchange_install := (\<lambda>n code redirect. exchange_code (call n) base client secret code redirect),
     se_open_view := (\<lambda>n tok trigger provider. open_view (call n) base tok trigger provider)\<rparr>"

section \<open>What Slack sends back\<close>

fun member :: "string \<Rightarrow> json \<Rightarrow> json" where
  "member k (JObj kvs) = (case map_of kvs k of None \<Rightarrow> JNull | Some v \<Rightarrow> v)"
| "member k _ = JNull"

fun items :: "json \<Rightarrow> json list" where
  "items (JArr xs) = xs"
| "items _ = []"

fun text_of :: "json \<Rightarrow> string" where
  "text_of (JStr t) = t"
| "text_of _ = []"

text \<open>The buttons of a message as a person sees them, and the label on one.\<close>

definition buttons_in :: "json \<Rightarrow> json list" where
  "buttons_in m = concat (map (\<lambda>b. items (member ''elements'' b)) (items (member ''blocks'' m)))"

definition button_label :: "json \<Rightarrow> string" where
  "button_label b = text_of (member ''text'' (member ''text'' b))"

text \<open>
  Slack's documented answers: a click sends the button that was clicked, and a submitted form sends the callback and the
  metadata it was opened with and, by block and action, what was entered in each of its inputs.
\<close>

definition click_payload :: "string \<Rightarrow> string \<Rightarrow> json \<Rightarrow> json" where
  "click_payload url clicker b =
     JObj [(''type'', JStr ''block_actions''), (''user'', JObj [(''id'', JStr clicker)]), (''response_url'', JStr url), (''actions'', JArr [b])]"

definition entered :: "(string \<Rightarrow> string) \<Rightarrow> json \<Rightarrow> string \<times> json" where
  "entered answers b =
     (text_of (member ''block_id'' b),
      JObj [(text_of (member ''action_id'' (member ''element'' b)),
        JObj [(''type'', JStr ''plain_text_input''), (''value'', JStr (answers (text_of (member ''block_id'' b))))])])"

definition submission :: "string \<Rightarrow> string \<Rightarrow> (string \<Rightarrow> string) \<Rightarrow> json \<Rightarrow> json" where
  "submission team user answers view =
     JObj [(''type'', JStr ''view_submission''), (''team'', JObj [(''id'', JStr team)]), (''user'', JObj [(''id'', JStr user)]),
       (''view'', JObj [(''callback_id'', member ''callback_id'' view), (''private_metadata'', member ''private_metadata'' view),
         (''state'', JObj [(''values'', JObj (map (entered answers) (items (member ''blocks'' view))))])])]"

section \<open>What the theory establishes\<close>

lemma plain_message: "plain_json (message_json m)"
  by (cases m) (simp_all add: approval_blocks_def approval_button_def plain_text_def)

lemma sent_buttons:
  assumes "post_request url (Approval_Buttons summary val) = Some q" and "scan_json (hq_body q) = Json j"
  shows "buttons_in j = [approval_button ''Approve'' ''primary'' ''vamoose_approve'' val,
    approval_button ''Decline'' ''danger'' ''vamoose_decline'' val]"
proof -
  have "j = message_json (Approval_Buttons summary val)"
    using assms scan_show_json[OF plain_message, of "Approval_Buttons summary val"] by (auto simp: post_request_def split: if_splits)
  then show ?thesis by (simp add: buttons_in_def approval_blocks_def)
qed

lemma action_keys:
  "equal_fold ''action_id'' ''action_id''" "\<not> equal_fold ''style'' ''action_id''" "\<not> equal_fold ''style'' ''value''"
  "\<not> equal_fold ''text'' ''action_id''" "\<not> equal_fold ''text'' ''value''" "\<not> equal_fold ''type'' ''action_id''"
  "\<not> equal_fold ''type'' ''value''" "\<not> equal_fold ''value'' ''action_id''" "equal_fold ''value'' ''value''"
  by code_simp+

lemma clicked_action: "as_action (approval_button label style action val) = Some (action, val)"
  by (simp add: approval_button_def action_keys)

lemma interaction_keys:
  "equal_fold ''type'' ''type''" "\<not> equal_fold ''response_url'' ''type''" "equal_fold ''response_url'' ''response_url''"
  "\<not> equal_fold ''actions'' ''type''" "\<not> equal_fold ''actions'' ''response_url''" "equal_fold ''actions'' ''actions''"
  "\<not> equal_fold ''team'' ''type''" "\<not> equal_fold ''team'' ''response_url''" "\<not> equal_fold ''team'' ''actions''"
  "equal_fold ''team'' ''team''" "\<not> equal_fold ''user'' ''type''" "\<not> equal_fold ''user'' ''response_url''"
  "\<not> equal_fold ''user'' ''actions''" "\<not> equal_fold ''user'' ''team''" "equal_fold ''user'' ''user''"
  "\<not> equal_fold ''view'' ''type''" "\<not> equal_fold ''view'' ''response_url''" "\<not> equal_fold ''view'' ''actions''"
  "\<not> equal_fold ''view'' ''team''" "\<not> equal_fold ''view'' ''user''" "equal_fold ''view'' ''view''" "equal_fold ''id'' ''id''"
  by code_simp+

lemma click_read:
  "parse_interaction (show_json (click_payload url clicker (approval_button label style action val))) =
     Some (zero_interaction\<lparr>in_type := ''block_actions'', in_url := url, in_actions := [(action, val)], in_user := clicker\<rparr>)"
proof -
  have "plain_json (click_payload url clicker (approval_button label style action val))"
    by (simp add: click_payload_def approval_button_def plain_text_def)
  then show ?thesis
    by (simp add: parse_interaction_def scan_show_json)
      (simp add: click_payload_def interaction_field_def interaction_keys clicked_action zero_interaction_def del: as_action.simps)
qed

lemma handle_payload:
  assumes "verify (se_mac env) (sc_secret cf) (se_now env (sv_tick s)) r = Inr (encode_form [(''payload'', show_json payload)])"
    and "parse_interaction (show_json payload) = Some i"
  shows "handle_interactivity env cf r s =
    (if in_type i = ''view_submission'' then handle_view_submission env cf i (sv_step s)
     else case in_actions i of [] \<Rightarrow> (Status 200, sv_step s)
       | (action, val) # rest \<Rightarrow> (Status 200, run_action env cf (in_url i) (in_user i) action val (sv_step s)))"
  using assms by (simp add: handle_interactivity_def parse_encoded_form form_get_def Let_def)

lemma run_sub_ran: "Ran args vars \<in> set (sv_trace (snd (run_sub env args vars s)))"
  by (simp add: run_sub_def sv_emit_def)

lemma post_keeps: "x \<in> set (sv_trace s) \<Longrightarrow> x \<in> set (sv_trace (post url m s))"
  by (simp add: post_def sv_emit_def)

lemma run_action_runs:
  assumes "decode_approval (se_mac env) (sc_secret cf) val = Some p" and "ap_approver p = [] \<or> clicker = ap_approver p"
    and "action_args action (ap_hold p) = Some (args, done_text, verb)"
  shows "\<exists>vars. Ran args vars \<in> set (sv_trace (run_action env cf url clicker action val s))"
proof -
  have c: "\<not> (ap_approver p \<noteq> [] \<and> clicker \<noteq> ap_approver p)" using assms(2) by blast
  obtain vars s1 where vs: "(if ap_user p \<noteq> [] \<and> sc_per_user cf
      then (case user_env env cf (ap_team p) (ap_user p) (inc mx_actions s) of (Inl e, s) \<Rightarrow> ([], s) | (Inr vars, s) \<Rightarrow> (vars, s))
      else ([], inc mx_actions s)) = (vars, s1)" by fastforce
  obtain out res s2 where rs: "run_sub env args vars s1 = ((out, res), s2)" by (metis prod.collapse)
  have "Ran args vars \<in> set (sv_trace s2)" using run_sub_ran[of args vars env s1] by (simp add: rs)
  moreover have "\<exists>m. run_action env cf url clicker action val s = post url m s2"
    unfolding run_action_def assms(1,3) option.case if_not_P[OF c] Let_def vs prod.case rs by (cases res) auto
  ultimately show ?thesis using post_keeps by metis
qed

text \<open>
  C18. The button a person presses does what it says. Take the message with buttons the server posts, let Slack send back
  any button found in it when the approver presses it: the server then runs promote for the hold of that message if the
  button says Approve and cancel if it says Decline, and there is no other button.
\<close>

theorem pressed_button_acts:
  assumes "post_request url (Approval_Buttons summary (approval_value (se_mac env) (sc_secret cf) p)) = Some q"
    and "scan_json (hq_body q) = Json j" and "b \<in> set (buttons_in j)"
    and "ap_hold p \<noteq> []" and "ap_approver p = [] \<or> clicker = ap_approver p"
    and "verify (se_mac env) (sc_secret cf) (se_now env (sv_tick s)) r = Inr (encode_form [(''payload'', show_json (click_payload reply_to clicker b))])"
  shows "\<exists>command vars. Ran [command, ''--id'', ap_hold p] vars \<in> set (sv_trace (snd (handle_interactivity env cf r s)))
    \<and> (button_label b, command) \<in> {(''Approve'', ''promote''), (''Decline'', ''cancel'')}"
proof -
  let ?val = "approval_value (se_mac env) (sc_secret cf) p"
  from assms(3) consider (approve) "b = approval_button ''Approve'' ''primary'' ''vamoose_approve'' ?val"
    | (decline) "b = approval_button ''Decline'' ''danger'' ''vamoose_decline'' ?val"
    unfolding sent_buttons[OF assms(1,2)] by auto
  then obtain label style action command done_text verb where b: "b = approval_button label style action ?val"
    and c: "action_args action (ap_hold p) = Some ([command, ''--id'', ap_hold p], done_text, verb)"
    and l: "(label, command) \<in> {(''Approve'', ''promote''), (''Decline'', ''cancel'')}"
    by cases (auto simp: action_args_def)
  have "button_label b = label" by (simp add: b button_label_def approval_button_def plain_text_def)
  moreover have "snd (handle_interactivity env cf r s) = run_action env cf reply_to clicker action ?val (sv_step s)"
    by (simp add: handle_payload[OF assms(6)[unfolded b] click_read])
  ultimately show ?thesis
    using run_action_runs[OF decode_approval_value[OF assms(4)] assms(5) c, where url = reply_to and s = "sv_step s"] l by auto
qed

definition posted_message :: json where
  "posted_message = message_json (Approval_Buttons ''off next week'' demo_value)"

definition pressed :: request where
  "pressed = signed_request ''/slack/interactivity''
     [(''payload'', show_json (click_payload ''u'' ''U7'' (hd (buttons_in posted_message))))]"

theorem pressed_button_acts_witness:
  "\<exists>command vars. Ran [command, ''--id'', ''h1''] vars \<in> set (sv_trace (snd (handle_interactivity demo_env demo_config pressed (new_server demo_backing))))
    \<and> (button_label (hd (buttons_in posted_message)), command) \<in> {(''Approve'', ''promote''), (''Decline'', ''cancel'')}"
proof -
  let ?q = "the (post_request ''u'' (Approval_Buttons ''off next week'' demo_value))"
  have q: "post_request ''u'' (Approval_Buttons ''off next week'' (approval_value (se_mac demo_env) (sc_secret demo_config) demo_approval)) = Some ?q"
    by (simp add: post_request_def demo_value_def)
  have j: "scan_json (hq_body ?q) = Json posted_message"
    using scan_show_json[OF plain_message, of "Approval_Buttons ''off next week'' demo_value"]
    by (simp add: post_request_def posted_message_def)
  have b: "hd (buttons_in posted_message) \<in> set (buttons_in posted_message)" by (simp add: sent_buttons[OF q j])
  have v: "verify (se_mac demo_env) (sc_secret demo_config) (se_now demo_env (sv_tick (new_server demo_backing))) pressed
      = Inr (encode_form [(''payload'', show_json (click_payload ''u'' ''U7'' (hd (buttons_in posted_message))))])"
    by code_simp
  have h: "ap_hold demo_approval \<noteq> []" "ap_approver demo_approval = [] \<or> ''U7'' = ap_approver demo_approval" "ap_hold demo_approval = ''h1''"
    by (simp_all add: demo_approval_def)
  show ?thesis using pressed_button_acts[OF q j b h(1,2) v] unfolding h(3) .
qed

lemma form_keys:
  "equal_fold ''callback_id'' ''callback_id''" "\<not> equal_fold ''private_metadata'' ''callback_id''"
  "equal_fold ''private_metadata'' ''private_metadata''" "\<not> equal_fold ''state'' ''callback_id''"
  "\<not> equal_fold ''state'' ''private_metadata''" "equal_fold ''state'' ''state''" "equal_fold ''values'' ''values''"
  by code_simp+

lemma plain_view: "plain_json (JObj [(''trigger_id'', JStr trigger), (''view'', modal_view provider)])"
  by (simp add: modal_view_def credential_input_def plain_text_def)

lemma view_blocks:
  "items (member ''blocks'' (modal_view provider)) =
     [credential_input ''username'' ''Apple ID email'', credential_input ''password'' ''App-specific password'']"
  "member ''callback_id'' (modal_view provider) = JStr credential_modal_callback"
  "member ''private_metadata'' (modal_view provider) = JStr provider"
  by (simp_all add: modal_view_def)

lemma entered_input: "entered answers (credential_input block label) =
    (block, JObj [(''value'', JObj [(''type'', JStr ''plain_text_input''), (''value'', JStr (answers block))])])"
  by (simp add: entered_def credential_input_def)

lemma submission_read:
  "parse_interaction (show_json (submission team user answers (modal_view provider))) =
     Some (zero_interaction\<lparr>in_type := ''view_submission'', in_team := team, in_user := user, in_callback := credential_modal_callback,
       in_metadata := provider,
       in_values := [(''username'', [(''value'', answers ''username'')]), (''password'', [(''value'', answers ''password'')])]\<rparr>)"
proof -
  let ?vs = "JObj [entered answers (credential_input ''username'' ''Apple ID email''),
    entered answers (credential_input ''password'' ''App-specific password'')]"
  have vs: "as_values [] ?vs = Some [(''username'', [(''value'', answers ''username'')]), (''password'', [(''value'', answers ''password'')])]"
    by (simp add: entered_input map_entry_def action_keys)
  have "plain_json (submission team user answers (modal_view provider))"
    by (simp add: submission_def view_blocks entered_input)
  then show ?thesis
    by (simp add: parse_interaction_def scan_show_json)
      (simp add: submission_def view_blocks interaction_field_def interaction_keys view_field_def form_keys zero_interaction_def vs
        del: as_values.simps)
qed

text \<open>
  C19. A submitted form links the calendar. Open the form for a provider, let Slack send back what a user enters in its two
  inputs, and let the server accept it: the link then stored for that user of that workspace has that provider, the first
  entry as its name and the second as its password.
\<close>

theorem submitted_form_links:
  assumes "scan_json (hq_body (view_request base tok trigger provider)) = Json j"
    and "verify (se_mac env) (sc_secret cf) (se_now env (sv_tick s)) r
      = Inr (encode_form [(''payload'', show_json (submission team user answers (member ''view'' j)))])"
    and "sc_per_user cf" and "answers ''username'' \<noteq> []" and "answers ''password'' \<noteq> []"
    and "backing_usable (sv_backing s)" and "CHR '':'' \<notin> set team" and "handle_interactivity env cf r s = (Status 200, s')"
  shows "get_link None team user (sv_backing s') =
    Inr \<lparr>ul_provider = provider, ul_refresh_token = [], ul_icloud_user = answers ''username'', ul_icloud_password = answers ''password''\<rparr>"
proof -
  let ?l = "\<lparr>ul_provider = provider, ul_refresh_token = [], ul_icloud_user = answers ''username'', ul_icloud_password = answers ''password''\<rparr>"
  have j: "member ''view'' j = modal_view provider"
    using assms(1) scan_show_json[OF plain_view, of trigger provider] by (auto simp: view_request_def)
  have "handle_interactivity env cf r s = (case store_link env team user ?l (sv_step s) of
      (Some e, s) \<Rightarrow> (Status 500, s) | (None, s) \<Rightarrow> (Status 200, s))"
    unfolding handle_payload[OF assms(2)[unfolded j] submission_read]
    using assms(3-5) by (simp add: handle_view_submission_def modal_value_def)
  then obtain we b where "save_link we team user ?l (sv_backing s) = (None, b)" "sv_backing s' = b"
    using assms(8) by (auto simp: store_link_def sv_step_def split: prod.splits option.splits)
  then show ?thesis using linking_is_per_user[OF assms(6) _ assms(7,7)] by simp
qed

definition entries :: "string \<Rightarrow> string" where
  "entries block = (if block = ''username'' then ''me@icloud.com'' else ''abcd-efgh'')"

definition per_user_config :: slack_config where
  "per_user_config = demo_config\<lparr>sc_per_user := True, sc_linkers := [''icloud'']\<rparr>"

definition submitted :: request where
  "submitted = signed_request ''/slack/interactivity''
     [(''payload'', show_json (submission ''T1'' ''U1'' entries (modal_view ''icloud'')))]"

theorem submitted_form_links_witness:
  "get_link None ''T1'' ''U1'' (sv_backing (snd (handle_interactivity demo_env per_user_config submitted (new_server demo_backing)))) =
    Inr \<lparr>ul_provider = ''icloud'', ul_refresh_token = [], ul_icloud_user = ''me@icloud.com'', ul_icloud_password = ''abcd-efgh''\<rparr>"
proof -
  let ?j = "JObj [(''trigger_id'', JStr ''t''), (''view'', modal_view ''icloud'')]"
  have j: "scan_json (hq_body (view_request [] ''xoxb'' ''t'' ''icloud'')) = Json ?j"
    using scan_show_json[OF plain_view] by (simp add: view_request_def)
  have v: "verify (se_mac demo_env) (sc_secret per_user_config) (se_now demo_env (sv_tick (new_server demo_backing))) submitted
      = Inr (encode_form [(''payload'', show_json (submission ''T1'' ''U1'' entries (member ''view'' ?j)))])"
    by code_simp
  have e: "sc_per_user per_user_config" "entries ''username'' = ''me@icloud.com''" "entries ''password'' = ''abcd-efgh''"
    "CHR '':'' \<notin> set ''T1''" by (simp_all add: per_user_config_def entries_def)
  have b: "backing_usable (sv_backing (new_server demo_backing))"
    by (simp add: new_server_def demo_backing_def plain_file_def file_usable_def box_ok_def)
  have st: "fst (store_link demo_env ''T1'' ''U1'' \<lparr>ul_provider = ''icloud'', ul_refresh_token = [], ul_icloud_user = ''me@icloud.com'',
      ul_icloud_password = ''abcd-efgh''\<rparr> (sv_step (new_server demo_backing))) = None" by code_simp
  have view: "member ''view'' ?j = modal_view ''icloud''" by simp
  have "fst (handle_interactivity demo_env per_user_config submitted (new_server demo_backing)) = Status 200"
    unfolding handle_payload[OF v[unfolded view] submission_read] using st
    by (auto simp: handle_view_submission_def modal_value_def e split: prod.splits)
  then have h: "handle_interactivity demo_env per_user_config submitted (new_server demo_backing)
      = (Status 200, snd (handle_interactivity demo_env per_user_config submitted (new_server demo_backing)))" by (simp add: prod_eq_iff)
  show ?thesis
    using submitted_form_links[OF j v e(1) _ _ b e(4) h] unfolding e(2,3) by simp
qed

end
