(* ===== verification/Slack_Linkers.thy ===== *)
theory Slack_Linkers
  imports Slack_Api Google_Sign_In
begin

text \<open>
  The linkers of the Slack server (\<open>cmd/slacklink.go\<close>) over the authenticators they are built on: consent, the exchange
  of the code that comes back, and the environment of a command run for a linked user. A server whose linkers, token
  endpoints and Slack are reached over HTTP.
\<close>

section \<open>Linkers\<close>

record linker =
  lk_provider :: string
  lk_auth_url :: "string \<Rightarrow> string \<Rightarrow> string"
  lk_exchange :: "http_call \<Rightarrow> gotime \<Rightarrow> string \<Rightarrow> string \<Rightarrow> user_link result"
  lk_run_env :: "http_call \<Rightarrow> gotime \<Rightarrow> user_link \<Rightarrow> string list result"

definition grant_link :: "string \<Rightarrow> token result \<Rightarrow> user_link result" where
  "grant_link provider r = map_sum id (\<lambda>tok. zero_link\<lparr>ul_provider := provider, ul_refresh_token := tk_refresh tok\<rparr>) r"

definition google_linker :: "google_auth \<Rightarrow> linker" where
  "google_linker g =
     \<lparr>lk_provider = ''google'', lk_auth_url = (\<lambda>state redirect. google_web_url g redirect state),
      lk_exchange = (\<lambda>call t code redirect. grant_link ''google'' (google_web_exchange g call t code redirect)),
      lk_run_env = (\<lambda>call t l. google_run_env (map_sum id tk_access (google_refresh g call t (ul_refresh_token l))))\<rparr>"

definition graph_linker :: "ms_auth \<Rightarrow> linker" where
  "graph_linker a =
     \<lparr>lk_provider = ''graph'', lk_auth_url = (\<lambda>state redirect. web_code_url a redirect state),
      lk_exchange = (\<lambda>call t code redirect. grant_link ''graph'' (ms_exchange a call t code redirect)),
      lk_run_env = (\<lambda>call t l. graph_run_env (map_sum id tk_access (ms_refresh a call t (ul_refresh_token l))))\<rparr>"

definition icloud_linker :: linker where
  "icloud_linker =
     \<lparr>lk_provider = ''icloud'', lk_auth_url = (\<lambda>state redirect. []),
      lk_exchange = (\<lambda>call t code redirect. Inl (Errorf ''icloud links via a modal, not oauth'' [])),
      lk_run_env = (\<lambda>call t l. icloud_run_env l)\<rparr>"

text \<open>The linkers \<open>runSlack\<close> builds; an authenticator without its ids would panic, and is not asked for.\<close>

definition linkers_of :: "(string \<Rightarrow> string) \<Rightarrow> linker list" where
  "linkers_of getenv =
     (case new_google_auth (getenv ''VAMOOSE_GOOGLE_CLIENT_ID'') (getenv ''VAMOOSE_GOOGLE_CLIENT_SECRET'') of
        None \<Rightarrow> [] | Some g \<Rightarrow> [google_linker g])
     @ (if getenv ''VAMOOSE_GRAPH_CLIENT_SECRET'' = [] then []
        else case new_ms_auth (if getenv ''VAMOOSE_TENANT'' = [] then ''organizations'' else getenv ''VAMOOSE_TENANT'')
            (getenv ''VAMOOSE_CLIENT_ID'') (getenv ''VAMOOSE_GRAPH_CLIENT_SECRET'') of
          None \<Rightarrow> [] | Some a \<Rightarrow> [graph_linker a])
     @ [icloud_linker]"

text \<open>\<open>WithLinkers\<close> enters the linkers into a map by provider.\<close>

definition with_linkers :: "linker list \<Rightarrow> string \<Rightarrow> linker option" where
  "with_linkers ls = fold (\<lambda>l m. m(lk_provider l \<mapsto> l)) ls Map.empty"

definition over_linkers :: "linker list \<Rightarrow> (nat \<Rightarrow> http_call) \<Rightarrow> slack_env \<Rightarrow> slack_env" where
  "over_linkers ls call env = env\<lparr>
     se_auth_url := (\<lambda>p state redirect. case with_linkers ls p of None \<Rightarrow> [] | Some l \<Rightarrow> lk_auth_url l state redirect),
     se_exchange_link := (\<lambda>n p code redirect. case with_linkers ls p of
         None \<Rightarrow> Inl (Errorf ''no linker'' []) | Some l \<Rightarrow> lk_exchange l (call n) (se_now env n) code redirect),
     se_run_env := (\<lambda>n p ul. case with_linkers ls p of
         None \<Rightarrow> Inl (Errorf ''no linker'' []) | Some l \<Rightarrow> lk_run_env l (call n) (se_now env n) ul)\<rparr>"

section \<open>What the theory establishes\<close>

text \<open>The linkers are those the configuration of the server names.\<close>

lemma linkers_configured: "map lk_provider (linkers_of getenv) = slack_linkers getenv"
  by (simp add: linkers_of_def slack_linkers_def google_linker_def graph_linker_def icloud_linker_def new_google_auth_def new_ms_auth_def)

lemma google_linker_found:
  assumes "new_google_auth (getenv ''VAMOOSE_GOOGLE_CLIENT_ID'') (getenv ''VAMOOSE_GOOGLE_CLIENT_SECRET'') = Some g"
  shows "with_linkers (linkers_of getenv) ''google'' = Some (google_linker g)"
  by (simp add: with_linkers_def linkers_of_def assms google_linker_def graph_linker_def icloud_linker_def new_ms_auth_def)

lemma google_grant:
  assumes "google_post_token g call t f = Inr tok"
  shows "\<exists>r tr. call (form_request (gc_token_url g) f) = Inr r \<and> unmarshal as_token_reply (hs_body r) = Inr tr
    \<and> tok = token_from t tr \<and> tr_access tr \<noteq> []"
  using assms by (auto simp: google_post_token_def post_form_def split: sum.splits if_splits)

text \<open>The reply of Google's token endpoint to a form.\<close>

definition endpoint_grants :: "http_call \<Rightarrow> form \<Rightarrow> token_reply \<Rightarrow> bool" where
  "endpoint_grants call f tr \<longleftrightarrow>
     (\<exists>r. call (form_request google_token_endpoint f) = Inr r \<and> unmarshal as_token_reply (hs_body r) = Inr tr)"

lemma google_env_granted:
  assumes "new_google_auth cid sec = Some g" and "lk_run_env (google_linker g) call t l = Inr vars"
  obtains tr where "endpoint_grants call [(''client_id'', cid), (''client_secret'', sec), (''grant_type'', ''refresh_token''),
      (''refresh_token'', ul_refresh_token l)] tr"
    and "tr_access tr \<noteq> []" and "vars = [''VAMOOSE_PROVIDER=google'', ''VAMOOSE_GOOGLE_ACCESS_TOKEN='' @ tr_access tr]"
proof -
  have g: "gc_client g = cid" "gc_secret g = sec" "gc_token_url g = google_token_endpoint"
    using assms(1) by (auto simp: new_google_auth_def split: if_splits)
  let ?f = "[(''client_id'', cid), (''client_secret'', sec), (''grant_type'', ''refresh_token''), (''refresh_token'', ul_refresh_token l)]"
  obtain tok where tok: "google_refresh g call t (ul_refresh_token l) = Inr tok"
    and v: "vars = [''VAMOOSE_PROVIDER=google'', ''VAMOOSE_GOOGLE_ACCESS_TOKEN='' @ tk_access tok]"
    using assms(2) by (cases "google_refresh g call t (ul_refresh_token l)") (auto simp: google_linker_def google_run_env_def)
  obtain tok' where p: "google_post_token g call t ?f = Inr tok'" and "tk_access tok = tk_access tok'"
    using tok by (auto simp: google_refresh_def g split: sum.splits if_splits)
  moreover obtain r tr where "call (form_request (gc_token_url g) ?f) = Inr r" "unmarshal as_token_reply (hs_body r) = Inr tr"
    "tok' = token_from t tr" "tr_access tr \<noteq> []" using google_grant[OF p] by blast
  ultimately show thesis using that[of tr] by (simp add: endpoint_grants_def g token_from_def v)
qed

lemma run_command_ran: "Ran args' vars' \<in> set (sv_trace (run_command env cf url args vars team user s)) \<Longrightarrow>
    Ran args' vars' \<in> set (sv_trace s) \<or> vars' = vars"
  by (auto simp: run_command_def run_sub_def sv_emit_def post_def sv_step_def inc_def resolve_approver_id_def Let_def
      split: prod.splits option.splits if_splits sum.splits)

text \<open>
  C8. A linked user's command runs on that user's own grant. When the server runs a command for a user linked to Google,
  the subprocess is started only with an access token that Google's token endpoint granted to the server's client for
  the refresh token stored for that very user, and never with an empty one.
\<close>

theorem linked_user_runs_on_own_grant:
  assumes "new_google_auth (getenv ''VAMOOSE_GOOGLE_CLIENT_ID'') (getenv ''VAMOOSE_GOOGLE_CLIENT_SECRET'') = Some g"
    and "sc_linkers cf = slack_linkers getenv" and "env = over_linkers (linkers_of getenv) call env0"
    and "get_link (se_read env (sv_tick s)) team user (sv_backing s) = Inr l" and "ul_provider l = ''google''"
    and "Ran args' vars \<in> set (sv_trace (run_as_user env cf url team user args s))" and "Ran args' vars \<notin> set (sv_trace s)"
  shows "\<exists>n tr. endpoint_grants (call n) [(''client_id'', getenv ''VAMOOSE_GOOGLE_CLIENT_ID''),
      (''client_secret'', getenv ''VAMOOSE_GOOGLE_CLIENT_SECRET''), (''grant_type'', ''refresh_token''), (''refresh_token'', ul_refresh_token l)] tr
    \<and> tr_access tr \<noteq> []
    \<and> vars = [''VAMOOSE_PROVIDER=google'', ''VAMOOSE_GOOGLE_ACCESS_TOKEN='' @ tr_access tr] @ extra_env cf team user"
proof -
  let ?n = "Suc (sv_tick s)"
  have "''google'' \<in> set (sc_linkers cf)"
    using assms(1,2) by (auto simp: slack_linkers_def new_google_auth_def split: if_splits)
  then have u: "user_env env cf team user s = (lk_run_env (google_linker g) (call ?n) (se_now env0 ?n) l, sv_step (sv_step s))"
    using assms(4,5) by (simp add: user_env_def assms(3) over_linkers_def google_linker_found[OF assms(1)])
  have keeps: "Ran args' vars \<notin> set (sv_trace (post url m (sv_step (sv_step s))))" for m
    using assms(7) by (simp add: post_def sv_emit_def sv_step_def)
  obtain vs where vs: "lk_run_env (google_linker g) (call ?n) (se_now env0 ?n) l = Inr vs"
    and ran: "Ran args' vars \<in> set (sv_trace (run_command env cf url args (vs @ extra_env cf team user) team user (sv_step (sv_step s))))"
    using assms(6) keeps unfolding run_as_user_def u prod.case by (auto split: sum.splits if_splits)
  from run_command_ran[OF ran] assms(7) have v: "vars = vs @ extra_env cf team user" by (simp add: sv_step_def)
  obtain tr where "endpoint_grants (call ?n) [(''client_id'', getenv ''VAMOOSE_GOOGLE_CLIENT_ID''),
      (''client_secret'', getenv ''VAMOOSE_GOOGLE_CLIENT_SECRET''), (''grant_type'', ''refresh_token''), (''refresh_token'', ul_refresh_token l)] tr"
    "tr_access tr \<noteq> []" "vs = [''VAMOOSE_PROVIDER=google'', ''VAMOOSE_GOOGLE_ACCESS_TOKEN='' @ tr_access tr]"
    by (rule google_env_granted[OF assms(1) vs])
  with v show ?thesis by blast
qed

definition web_client :: "string \<Rightarrow> string" where
  "web_client k = (if k = ''VAMOOSE_GOOGLE_CLIENT_ID'' then ''cid'' else if k = ''VAMOOSE_GOOGLE_CLIENT_SECRET'' then ''shh'' else [])"

definition linked_backing :: backing where
  "linked_backing = Files (plain_file (JObj [])) (plain_file (JObj [(''T1:U1'',
     JObj [(''provider'', JStr ''google''), (''refresh_token'', JStr ''rt1'')])]))"

definition grants_at1 :: http_call where
  "grants_at1 q = Inr \<lparr>hs_status = 200, hs_body = show_json (JObj [(''access_token'', JStr ''at1''), (''expires_in'', JInt 3600)]),
     hs_location = []\<rparr>"

definition google_server :: slack_env where
  "google_server = over_linkers (linkers_of web_client) (\<lambda>n. grants_at1) demo_env"

theorem linked_user_runs_on_own_grant_witness:
  "\<exists>n tr. endpoint_grants grants_at1 [(''client_id'', ''cid''), (''client_secret'', ''shh''), (''grant_type'', ''refresh_token''),
      (''refresh_token'', ''rt1'')] tr
    \<and> tr_access tr \<noteq> [] \<and> [''VAMOOSE_PROVIDER=google'', ''VAMOOSE_GOOGLE_ACCESS_TOKEN=at1'']
      = [''VAMOOSE_PROVIDER=google'', ''VAMOOSE_GOOGLE_ACCESS_TOKEN='' @ tr_access tr]"
proof -
  let ?cf = "per_user_config\<lparr>sc_linkers := slack_linkers web_client\<rparr>"
  let ?l = "zero_link\<lparr>ul_provider := ''google'', ul_refresh_token := ''rt1''\<rparr>"
  let ?vars = "[''VAMOOSE_PROVIDER=google'', ''VAMOOSE_GOOGLE_ACCESS_TOKEN=at1'']"
  obtain g where g: "new_google_auth (web_client ''VAMOOSE_GOOGLE_CLIENT_ID'') (web_client ''VAMOOSE_GOOGLE_CLIENT_SECRET'') = Some g"
    by (simp add: new_google_auth_def web_client_def)
  have l: "get_link (se_read google_server (sv_tick (new_server linked_backing))) ''T1'' ''U1'' (sv_backing (new_server linked_backing)) = Inr ?l"
    by code_simp
  have "list_ex (\<lambda>e. e = Ran [''whoami''] ?vars) (sv_trace (run_as_user google_server ?cf ''u'' ''T1'' ''U1'' [''whoami''] (new_server linked_backing)))"
    by code_simp
  then have r: "Ran [''whoami''] ?vars \<in> set (sv_trace (run_as_user google_server ?cf ''u'' ''T1'' ''U1'' [''whoami''] (new_server linked_backing)))"
    by (auto simp: list_ex_iff)
  have n: "Ran [''whoami''] ?vars \<notin> set (sv_trace (new_server linked_backing))" by (simp add: new_server_def)
  have x: "extra_env ?cf ''T1'' ''U1'' = []" by (simp add: extra_env_def per_user_config_def demo_config_def)
  show ?thesis
    using linked_user_runs_on_own_grant[OF g _ google_server_def l _ r n]
    by (simp add: x web_client_def)
qed

end
