(* ===== verification/Go_Url_Resolve.thy ===== *)
theory Go_Url_Resolve
  imports Go_Origin Go_Http Go_Strings
begin

text \<open>
  \<open>url.Parse\<close>, \<open>ResolveReference\<close> and \<open>String\<close> of \<open>net/url\<close>, as far as making a calendar uses them: every part of a URL is
  kept, and the path and fragment keep the spelling they were written with when it is a valid one.
\<close>

section \<open>URLs\<close>

record url =
  ur_scheme :: string
  ur_opaque :: string
  ur_user :: "(string \<times> string option) option"
  ur_host :: string
  ur_path :: string
  ur_raw_path :: string
  ur_omit_host :: bool
  ur_force_query :: bool
  ur_query :: string
  ur_fragment :: string
  ur_raw_fragment :: string

definition no_url :: url where
  "no_url = \<lparr>ur_scheme = [], ur_opaque = [], ur_user = None, ur_host = [], ur_path = [], ur_raw_path = [], ur_omit_host = False,
     ur_force_query = False, ur_query = [], ur_fragment = [], ur_raw_fragment = []\<rparr>"

section \<open>Escaping\<close>

text \<open>The characters each part is written with as they are.\<close>

definition path_char :: "char \<Rightarrow> bool" where
  "path_char c \<longleftrightarrow> unreserved c \<or> c \<in> set ''$&+,/:;=@''"

definition fragment_char :: "char \<Rightarrow> bool" where
  "fragment_char c \<longleftrightarrow> unreserved c \<or> c \<in> set (''$&+,/:;=@!()*'' @ [CHR 0x3F])"

definition user_char :: "char \<Rightarrow> bool" where
  "user_char c \<longleftrightarrow> unreserved c \<or> c \<in> set ''$&+,;=''"

definition host_char :: "char \<Rightarrow> bool" where
  "host_char c \<longleftrightarrow> \<not> should_escape_host c"

definition escape_by :: "(char \<Rightarrow> bool) \<Rightarrow> string \<Rightarrow> string" where
  "escape_by ok s = concat (map (\<lambda>c. if ok c then [c]
     else [CHR 0x25, upper_hex ! (byte c div 16), upper_hex ! (byte c mod 16)]) s)"

definition valid_encoded :: "(char \<Rightarrow> bool) \<Rightarrow> string \<Rightarrow> bool" where
  "valid_encoded ok s = list_all (\<lambda>c. c \<in> set (''!$&'' @ [CHR 0x27] @ ''()*+,;=:@[]'' @ [CHR 0x25]) \<or> ok c) s"

text \<open>\<open>EscapedPath\<close> and \<open>EscapedFragment\<close>: the spelling that was read if it still fits.\<close>

definition escaped_path :: "url \<Rightarrow> string" where
  "escaped_path u =
     (if ur_raw_path u \<noteq> [] \<and> valid_encoded path_char (ur_raw_path u) \<and> path_unescape (ur_raw_path u) = Some (ur_path u)
      then ur_raw_path u
      else if ur_path u = ''*'' then ''*'' else escape_by path_char (ur_path u))"

definition escaped_fragment :: "url \<Rightarrow> string" where
  "escaped_fragment u =
     (if ur_raw_fragment u \<noteq> [] \<and> valid_encoded fragment_char (ur_raw_fragment u)
        \<and> path_unescape (ur_raw_fragment u) = Some (ur_fragment u)
      then ur_raw_fragment u else escape_by fragment_char (ur_fragment u))"

definition set_path :: "string \<Rightarrow> url \<Rightarrow> url option" where
  "set_path p u =
     (case path_unescape p of
        None \<Rightarrow> None
      | Some path \<Rightarrow> Some (u\<lparr>ur_path := path, ur_raw_path := (if p = escape_by path_char path then [] else p)\<rparr>))"

definition set_fragment :: "string \<Rightarrow> url \<Rightarrow> url option" where
  "set_fragment f u =
     (case path_unescape f of
        None \<Rightarrow> None
      | Some frag \<Rightarrow> Some (u\<lparr>ur_fragment := frag, ur_raw_fragment := (if f = escape_by fragment_char frag then [] else f)\<rparr>))"

section \<open>Parsing\<close>

definition parse_userinfo :: "string \<Rightarrow> (string \<times> string option) option" where
  "parse_userinfo s =
     (if \<not> list_all userinfo_char s then None
      else case cut_on (CHR '':'') s of (name, pass, found) \<Rightarrow>
        (case path_unescape name of
           None \<Rightarrow> None
         | Some n \<Rightarrow> if found then map_option (\<lambda>p. (n, Some p)) (path_unescape pass) else Some (n, None)))"

definition with_authority :: "string \<Rightarrow> url \<Rightarrow> url option" where
  "with_authority s u =
     (case cut_last (CHR ''@'') s of
        None \<Rightarrow> map_option (\<lambda>h. u\<lparr>ur_host := h\<rparr>) (parse_host s)
      | Some (user, host) \<Rightarrow>
          (case (parse_host host, parse_userinfo user) of
             (Some h, Some ui) \<Rightarrow> Some (u\<lparr>ur_host := h, ur_user := Some ui\<rparr>)
           | _ \<Rightarrow> None))"

text \<open>What follows the scheme and precedes the query.\<close>

definition parse_hierarchy :: "string \<Rightarrow> url \<Rightarrow> url option" where
  "parse_hierarchy rest u =
     (if \<not> has_prefix rest ''/'' \<and> ur_scheme u \<noteq> [] then Some (u\<lparr>ur_opaque := rest\<rparr>)
      else if \<not> has_prefix rest ''/'' \<and> CHR '':'' \<in> set (fst (cut_on (CHR ''/'') rest)) then None
      else if (ur_scheme u \<noteq> [] \<or> \<not> has_prefix rest ''///'') \<and> has_prefix rest ''//'' then
        (case cut_on (CHR ''/'') (drop 2 rest) of (authority, path, found) \<Rightarrow>
           case with_authority authority u of
             None \<Rightarrow> None
           | Some u \<Rightarrow> set_path (if found then CHR ''/'' # path else []) u)
      else set_path rest (if ur_scheme u \<noteq> [] \<and> has_prefix rest ''/'' then u\<lparr>ur_omit_host := True\<rparr> else u))"

definition with_query :: "string \<Rightarrow> url \<Rightarrow> string \<times> url" where
  "with_query rest u =
     (case cut_on (CHR 0x3F) rest of (path, query, found) \<Rightarrow>
        if found \<and> query = [] then (path, u\<lparr>ur_force_query := True\<rparr>) else (path, u\<lparr>ur_query := query\<rparr>))"

definition parse_reference :: "string \<Rightarrow> url option" where
  "parse_reference s =
     (if list_ex (\<lambda>c. byte c < 32 \<or> byte c = 127) s then None
      else if s = ''*'' then Some (no_url\<lparr>ur_path := ''*''\<rparr>)
      else case (case get_scheme [] s of No_Scheme \<Rightarrow> Some ([], s) | Missing_Scheme \<Rightarrow> None | Scheme sch rest \<Rightarrow> Some (sch, rest)) of
        None \<Rightarrow> None
      | Some (sch, rest) \<Rightarrow>
          (case with_query rest (no_url\<lparr>ur_scheme := to_lower sch\<rparr>) of (rest, u) \<Rightarrow> parse_hierarchy rest u))"

definition parse_url :: "string \<Rightarrow> url option" where
  "parse_url s =
     (case cut_on (CHR 0x23) s of (ref, frag, found) \<Rightarrow>
        case parse_reference ref of
          None \<Rightarrow> None
        | Some u \<Rightarrow> if frag = [] then Some u else set_fragment frag u)"

section \<open>Resolving a reference\<close>

text \<open>
  The elements of the path one by one: what is written so far after the leading slash, and whether an element would
  be the first.
\<close>

fun resolve_elems :: "string list \<Rightarrow> string \<Rightarrow> bool \<Rightarrow> string" where
  "resolve_elems [] dst first = dst"
| "resolve_elems (e # es) dst first =
     (if e = ''.'' then resolve_elems es dst False
      else if e = ''..'' then
        (case cut_last (CHR ''/'') dst of
           None \<Rightarrow> resolve_elems es [] True
         | Some (before, after) \<Rightarrow> resolve_elems es before first)
      else resolve_elems es (if first then dst @ e else dst @ ''/'' @ e) False)"

definition clean_path :: "string \<Rightarrow> string" where
  "clean_path full =
     (if full = [] then []
      else let es = split_on (CHR ''/'') full;
               r = ''/'' @ resolve_elems es [] True @ (if last es \<in> {''.'', ''..''} then ''/'' else [])
           in if has_prefix r ''//'' then tl r else r)"

definition resolve_path :: "string \<Rightarrow> string \<Rightarrow> string" where
  "resolve_path base ref =
     clean_path (if ref = [] then base
       else if \<not> has_prefix ref ''/'' then (case cut_last (CHR ''/'') base of None \<Rightarrow> ref | Some (dir, file) \<Rightarrow> dir @ ''/'' @ ref)
       else ref)"

definition put_path :: "string \<Rightarrow> url \<Rightarrow> url" where
  "put_path p u = (case set_path p u of None \<Rightarrow> u | Some u \<Rightarrow> u)"

definition resolve_reference :: "url \<Rightarrow> url \<Rightarrow> url" where
  "resolve_reference base ref =
     (let u = (if ur_scheme ref = [] then ref\<lparr>ur_scheme := ur_scheme base\<rparr> else ref) in
      if ur_scheme ref \<noteq> [] \<or> ur_host ref \<noteq> [] \<or> ur_user ref \<noteq> None
      then put_path (resolve_path (escaped_path ref) []) u
      else if ur_opaque ref \<noteq> [] then u\<lparr>ur_user := None, ur_host := [], ur_path := []\<rparr>
      else
        let u = (if ur_path ref = [] \<and> \<not> ur_force_query ref \<and> ur_query ref = [] then
              (let u = u\<lparr>ur_query := ur_query base\<rparr> in
               if ur_fragment ref = [] then u\<lparr>ur_fragment := ur_fragment base, ur_raw_fragment := ur_raw_fragment base\<rparr> else u)
            else u)
        in if ur_path ref = [] \<and> ur_opaque base \<noteq> [] then u\<lparr>ur_opaque := ur_opaque base, ur_user := None, ur_host := [], ur_path := []\<rparr>
           else put_path (resolve_path (escaped_path base) (escaped_path ref)) (u\<lparr>ur_host := ur_host base, ur_user := ur_user base\<rparr>))"

section \<open>Writing\<close>

definition user_text :: "string \<times> string option \<Rightarrow> string" where
  "user_text ui = escape_by user_char (fst ui) @ (case snd ui of None \<Rightarrow> [] | Some p \<Rightarrow> '':'' @ escape_by user_char p)"

definition url_text :: "url \<Rightarrow> string" where
  "url_text u =
     (let head = (if ur_scheme u = [] then [] else ur_scheme u @ '':'');
          authority =
            (if ur_scheme u = [] \<and> ur_host u = [] \<and> ur_user u = None then []
             else if ur_omit_host u \<and> ur_host u = [] \<and> ur_user u = None then []
             else (if ur_host u = [] \<and> ur_path u = [] \<and> ur_user u = None then [] else ''//'')
               @ (case ur_user u of None \<Rightarrow> [] | Some ui \<Rightarrow> user_text ui @ ''@'') @ escape_by host_char (ur_host u));
          path = escaped_path u;
          slash = (if path \<noteq> [] \<and> hd path \<noteq> CHR ''/'' \<and> ur_host u \<noteq> [] then ''/'' else []);
          dot = (if head @ authority @ slash = [] \<and> CHR '':'' \<in> set (fst (cut_on (CHR ''/'') path)) then ''./'' else [])
      in head @ (if ur_opaque u \<noteq> [] then ur_opaque u else authority @ slash @ dot @ path)
         @ (if ur_force_query u \<or> ur_query u \<noteq> [] then CHR 0x3F # ur_query u else [])
         @ (if ur_fragment u \<noteq> [] then CHR 0x23 # escaped_fragment u else []))"

section \<open>Plain URLs\<close>

lemma escape_by_id: "list_all ok s \<Longrightarrow> escape_by ok s = s"
  by (induction s) (auto simp: escape_by_def)

lemma path_unescape_id: "CHR 0x25 \<notin> set s \<Longrightarrow> path_unescape s = Some s"
  by (induction s) auto

definition plain_path :: "string \<Rightarrow> bool" where
  "plain_path p \<longleftrightarrow> list_all (\<lambda>c. unreserved c \<or> c = CHR ''/'') p \<and> (p = [] \<or> hd p = CHR ''/'')"

lemma plain_path_chars:
  assumes "plain_path p"
  shows "CHR 0x25 \<notin> set p" "CHR 0x23 \<notin> set p" "CHR 0x3F \<notin> set p" "CHR '':'' \<notin> set p" "list_all path_char p"
proof -
  have c: "unreserved c \<or> c = CHR ''/''" if "c \<in> set p" for c using assms that by (simp add: plain_path_def list_all_iff)
  have "\<not> unreserved x \<and> x \<noteq> CHR ''/''" if "x \<in> {CHR 0x25, CHR 0x23, CHR 0x3F, CHR '':''}" for x
    using unreserved_plain(1)[of x] that by auto
  then show "CHR 0x25 \<notin> set p" "CHR 0x23 \<notin> set p" "CHR 0x3F \<notin> set p" "CHR '':'' \<notin> set p" using c by blast+
  show "list_all path_char p" using c by (auto simp: list_all_iff path_char_def)
qed

lemma set_plain_path: "plain_path p \<Longrightarrow> set_path p u = Some (u\<lparr>ur_path := p, ur_raw_path := []\<rparr>)"
  using plain_path_chars[of p] by (simp add: set_path_def path_unescape_id escape_by_id)

lemma escaped_plain_path: "plain_path (ur_path u) \<Longrightarrow> ur_raw_path u = [] \<Longrightarrow> escaped_path u = ur_path u"
  using plain_path_chars(5)[of "ur_path u"] by (simp add: escaped_path_def escape_by_id)

lemma plain_bytes: "unreserved c \<or> c = CHR ''/'' \<or> c = CHR '':'' \<Longrightarrow> 32 \<le> byte c \<and> byte c \<noteq> 127"
proof -
  have "32 \<le> byte (CHR '':'')" "byte (CHR '':'') \<noteq> 127" "32 \<le> byte (CHR ''/'')" "byte (CHR ''/'') \<noteq> 127" by code_simp+
  then show "unreserved c \<or> c = CHR ''/'' \<or> c = CHR '':'' \<Longrightarrow> ?thesis" using unreserved_plain(2,3) by blast
qed

lemma no_control: "(\<And>c. c \<in> set s \<Longrightarrow> unreserved c \<or> c = CHR ''/'' \<or> c = CHR '':'') \<Longrightarrow> \<not> list_ex (\<lambda>c. byte c < 32 \<or> byte c = 127) s"
  unfolding list_ex_iff using plain_bytes by (meson not_less)

text \<open>A path without scheme and host, and a host with or without a port.\<close>

lemma parse_plain_path:
  assumes "plain_path p" and "p \<noteq> []" and "\<not> has_prefix p ''//''"
  shows "parse_url p = Some (no_url\<lparr>ur_path := p\<rparr>)"
proof -
  note c = plain_path_chars[OF assms(1)]
  obtain r where p: "p = CHR ''/'' # r" using assms(1,2) by (cases p) (auto simp: plain_path_def)
  have ctl: "\<not> list_ex (\<lambda>c. byte c < 32 \<or> byte c = 127) p"
    using assms(1) by (intro no_control) (auto simp: plain_path_def list_all_iff)
  have "\<not> scheme_letter (CHR ''/'')" "\<not> is_digit (CHR ''/'')" by code_simp+
  then have sch: "get_scheme [] p = No_Scheme" by (simp add: p)
  have "p \<noteq> ''*''" by (simp add: p)
  moreover have "parse_hierarchy p no_url = Some (no_url\<lparr>ur_path := p\<rparr>)"
    using assms(3) set_plain_path[OF assms(1), of no_url] by (simp add: parse_hierarchy_def p no_url_def)
  ultimately show ?thesis
    using cut_on_no_sep[OF c(2)] cut_on_no_sep[OF c(3)] ctl sch
    by (simp add: parse_url_def parse_reference_def with_query_def no_url_def to_lower_def)
qed

lemma parse_plain_url:
  assumes "scheme_text sch" and "plain_host h" and "port_text p" and "plain_path pa"
  shows "parse_url (sch @ ''://'' @ h @ p @ pa) = Some (no_url\<lparr>ur_scheme := to_lower sch, ur_host := h @ p, ur_path := pa\<rparr>)"
proof -
  note c = plain_path_chars[OF assms(4)]
  have sch: "sch \<noteq> []" "list_all scheme_letter sch" using assms(1) by (simp_all add: scheme_text_def)
  have hp: "list_all (\<lambda>c. unreserved c \<or> c = CHR '':'') (h @ p)" and us: "list_all unreserved sch"
    using assms(2,3) plain_unreserved sch(2) unfolding plain_host_def port_text_def list_all_iff by auto
  have absent: "x \<notin> set (h @ p)" "x \<notin> set sch" if "x \<in> set (''/@#'' @ [CHR 0x3F])" for x
    using hp us unreserved_plain(1) that unfolding list_all_iff by fastforce+
  let ?rest = "''//'' @ h @ p @ pa" and ?u = "sch @ CHR '':'' # ''//'' @ h @ p @ pa"
  have whole: "sch @ ''://'' @ h @ p @ pa = ?u" by simp
  have hash: "cut_on (CHR 0x23) ?u = (?u, [], False)" using absent[of "CHR 0x23"] c(2) by (intro cut_on_no_sep) auto
  have ctl: "\<not> list_ex (\<lambda>c. byte c < 32 \<or> byte c = 127) ?u"
    using hp us assms(4) by (intro no_control) (auto simp: plain_path_def list_all_iff)
  have star: "?u \<noteq> ''*''" using sch(1) by (cases sch) auto
  have scheme: "get_scheme [] ?u = Scheme sch ?rest" using get_scheme_text[OF sch(2), of "[]"] sch(1) by simp
  have query: "cut_on (CHR 0x3F) ?rest = (?rest, [], False)" using absent(1)[of "CHR 0x3F"] c(3) by (intro cut_on_no_sep) auto
  have slash: "\<exists>path found. cut_on (CHR ''/'') (h @ p @ pa) = (h @ p, path, found) \<and> (if found then CHR ''/'' # path else []) = pa"
  proof (cases pa)
    case Nil
    then have "cut_on (CHR ''/'') (h @ p @ pa) = (h @ p, [], False)"
      using absent(1)[of "CHR ''/''"] cut_on_no_sep[of "CHR ''/''" "h @ p"] by simp
    with Nil show ?thesis by (intro exI[of _ "[]"] exI[of _ False]) simp
  next
    case (Cons x r)
    then have "x = CHR ''/''" using assms(4) by (simp add: plain_path_def)
    then have "cut_on (CHR ''/'') (h @ p @ pa) = (h @ p, r, True)"
      using absent(1)[of "CHR ''/''"] cut_on_append[of "CHR ''/''" "h @ p" r] Cons by simp
    with Cons \<open>x = CHR ''/''\<close> show ?thesis by (intro exI[of _ r] exI[of _ True]) simp
  qed
  let ?s = "no_url\<lparr>ur_scheme := to_lower sch\<rparr>"
  have auth: "with_authority (h @ p) ?s = Some (?s\<lparr>ur_host := h @ p\<rparr>)"
    using cut_last_none[of "CHR ''@''" "h @ p"] absent(1)[of "CHR ''@''"] host_port_text(1)[OF assms(2,3)] by (simp add: with_authority_def)
  have "to_lower sch \<noteq> []" using sch(1) by (simp add: to_lower_def)
  then have "parse_hierarchy ?rest ?s = Some (?s\<lparr>ur_host := h @ p, ur_path := pa\<rparr>)"
    using slash auth set_plain_path[OF assms(4), of "?s\<lparr>ur_host := h @ p\<rparr>"]
    by (auto simp: parse_hierarchy_def no_url_def)
  moreover have "with_query ?rest ?s = (?rest, ?s)" unfolding with_query_def query by (simp add: no_url_def)
  ultimately show ?thesis
    unfolding whole parse_url_def hash prod.case parse_reference_def if_not_P[OF ctl] if_not_P[OF star] scheme scheme.case option.case
    by (simp add: no_url_def)
qed

text \<open>A path without dots is resolved to itself.\<close>

definition plain_segment :: "string \<Rightarrow> bool" where
  "plain_segment s \<longleftrightarrow> s \<noteq> [] \<and> list_all unreserved s \<and> s \<noteq> ''.'' \<and> s \<noteq> ''..''"

definition path_of :: "string list \<Rightarrow> string" where
  "path_of segs = concat (map (\<lambda>s. CHR ''/'' # s) segs)"

lemma path_of_simps: "path_of [] = []" "path_of (s # ss) = CHR ''/'' # s @ path_of ss"
  by (simp_all add: path_of_def)

lemma path_of_plain: "list_all plain_segment segs \<Longrightarrow> plain_path (path_of segs)"
  by (induction segs) (auto simp: path_of_simps plain_path_def plain_segment_def list_all_iff)

lemma plain_segment_no_slash: "plain_segment s \<Longrightarrow> CHR ''/'' \<notin> set s"
  using unreserved_not[of s "CHR ''/''"] by (simp add: plain_segment_def)

lemma split_path: "list_all plain_segment segs \<Longrightarrow> split_on (CHR ''/'') (path_of segs @ CHR ''/'' # r) = [] # segs @ split_on (CHR ''/'') r"
proof (induction segs)
  case (Cons s ss)
  then have "CHR ''/'' \<notin> set s" using plain_segment_no_slash by simp
  then show ?case using Cons by (cases ss) (simp_all add: path_of_simps split_on_append_sep)
qed (simp add: path_of_simps)

lemma resolve_plain_elems: "list_all plain_segment segs \<Longrightarrow> resolve_elems (segs @ es) dst False = resolve_elems es (dst @ path_of segs) False"
  by (induction segs arbitrary: dst) (auto simp: path_of_simps plain_segment_def)

lemma resolve_plain_path:
  assumes "list_all plain_segment segs" and "segs \<noteq> []" and "e = [] \<or> e = ''/''"
  shows "resolve_path base (path_of segs @ e) = path_of segs @ e" and "resolve_path (path_of segs @ e) [] = path_of segs @ e"
proof -
  let ?p = "path_of segs @ e"
  obtain s ss where segs: "segs = s # ss" using assms(2) by (cases segs) auto
  have es: "\<exists>tail. split_on (CHR ''/'') ?p = [] # segs @ tail \<and> tail = (if e = [] then [] else [[]])"
  proof (cases "e = []")
    case True
    have "split_on (CHR ''/'') (path_of segs) = [] # segs"
    proof (cases ss rule: rev_cases)
      case Nil
      then show ?thesis using assms(1) plain_segment_no_slash[of s] by (simp add: segs path_of_simps split_on_no_sep)
    next
      case (snoc init l)
      have "path_of segs = path_of (s # init) @ CHR ''/'' # l" by (simp add: segs snoc path_of_def)
      moreover have "list_all plain_segment (s # init)" "plain_segment l" using assms(1) by (simp_all add: segs snoc)
      ultimately show ?thesis using split_path[of "s # init" l] plain_segment_no_slash[of l] by (simp add: split_on_no_sep segs snoc)
    qed
    with True show ?thesis by simp
  next
    case False
    then show ?thesis using split_path[OF assms(1), of "[]"] assms(3) by simp
  qed
  have dst: "resolve_elems ([] # segs @ (if e = [] then [] else [[]])) [] True = ?p"
    using assms(3) resolve_plain_elems[OF assms(1), of "if e = [] then [] else [[]]" "[]"] by auto
  have last: "last ([] # segs @ (if e = [] then [] else [[]])) \<notin> {''.'', ''..''}"
    using assms(1,2) by (auto simp: list_all_iff plain_segment_def)
  have pre: "?p \<noteq> []" "has_prefix ?p ''/''" "has_prefix (CHR ''/'' # ?p) ''//''" by (simp_all add: segs path_of_simps)
  have "clean_path ?p = ?p"
    using es dst last pre unfolding clean_path_def by (auto simp: Let_def)
  then show "resolve_path base ?p = ?p" "resolve_path ?p [] = ?p"
    using pre(1,2) unfolding resolve_path_def by (simp_all only: if_False if_True not_True_eq_False refl)
qed

end
