(* ===== verification/Calendars.thy ===== *)
theory Calendars
  imports Go_Url_Resolve Provider_Setup Commands
begin

text \<open>
  Making a calendar on a CalDAV server (\<open>CreateCalendar\<close> of \<open>internal/caldav/caldav.go\<close>) and the command that lists and
  makes them (\<open>cmd/calendars.go\<close>). The bytes of a name beyond ASCII are taken to be the UTF-8 of characters XML allows.
\<close>

section \<open>The request\<close>

text \<open>\<open>xml.EscapeText\<close>: control characters XML does not allow become the replacement character.\<close>

definition xml_allowed :: "char \<Rightarrow> bool" where
  "xml_allowed c \<longleftrightarrow> 32 \<le> byte c \<or> c \<in> {CHR 0x09, CHR 0x0A, CHR 0x0D}"

definition xml_name :: "char \<Rightarrow> string option" where
  "xml_name c =
     (if c = CHR 0x22 then Some ''#34'' else if c = CHR 0x27 then Some ''#39'' else if c = CHR ''&'' then Some ''amp''
      else if c = CHR ''<'' then Some ''lt'' else if c = CHR ''>'' then Some ''gt'' else if c = CHR 0x09 then Some ''#x9''
      else if c = CHR 0x0A then Some ''#xA'' else if c = CHR 0x0D then Some ''#xD'' else None)"

definition xml_char :: "char \<Rightarrow> string" where
  "xml_char c =
     (case xml_name c of
        Some n \<Rightarrow> CHR ''&'' # n @ [CHR '';'']
      | None \<Rightarrow> if xml_allowed c then [c] else replacement)"

definition xml_escape :: "string \<Rightarrow> string" where
  "xml_escape s = concat (map xml_char s)"

definition mkcalendar_head :: string where
  "mkcalendar_head =
     (let q = [CHR 0x22] in
      ''<?xml version='' @ q @ ''1.0'' @ q @ '' encoding='' @ q @ ''utf-8'' @ q @ ''?>'' @ newline
      @ ''<C:mkcalendar xmlns:D='' @ q @ ''DAV:'' @ q @ '' xmlns:C='' @ q @ ''urn:ietf:params:xml:ns:caldav'' @ q @ ''>'' @ newline
      @ ''  <D:set>'' @ newline @ ''    <D:prop>'' @ newline @ ''      <D:displayname>'')"

definition mkcalendar_tail :: string where
  "mkcalendar_tail =
     (let q = [CHR 0x22] in
      ''</D:displayname>'' @ newline @ ''      <C:supported-calendar-component-set>'' @ newline
      @ ''        <C:comp name='' @ q @ ''VEVENT'' @ q @ ''/>'' @ newline
      @ ''      </C:supported-calendar-component-set>'' @ newline @ ''    </D:prop>'' @ newline @ ''  </D:set>'' @ newline
      @ ''</C:mkcalendar>'')"

definition mkcalendar_body :: "string \<Rightarrow> string" where
  "mkcalendar_body name = mkcalendar_head @ xml_escape name @ mkcalendar_tail"

definition random_slug :: "entropy \<Rightarrow> string result" where
  "random_slug ent = (case random_bytes ent 8 of Inl e \<Rightarrow> Inl (caldav_error ''slug'') | Inr b \<Rightarrow> Inr (hex_encode b))"

text \<open>The request for a new collection of the home set, and the path it is made at.\<close>

definition calendar_request :: "string \<Rightarrow> string \<Rightarrow> string \<Rightarrow> string \<Rightarrow> (http_request \<times> string) result" where
  "calendar_request server home slug name =
     (case parse_url server of
        None \<Rightarrow> Inl (caldav_error ''endpoint url'')
      | Some base \<Rightarrow>
          (case parse_url home of
             None \<Rightarrow> Inl (caldav_error ''home url'')
           | Some ref \<Rightarrow>
               (let u = resolve_reference base ref;
                    u = u\<lparr>ur_path := trim_slashes (ur_path u) @ ''/vamoose-'' @ slug @ ''/''\<rparr>
                in Inr (\<lparr>hq_method = ''MKCALENDAR'', hq_url = url_text u,
                     hq_headers = [(''Content-Type'', ''application/xml; charset=utf-8'')], hq_body = mkcalendar_body name\<rparr>, ur_path u))))"

text \<open>\<open>call\<close> is the client that signs requests in with the account.\<close>

definition create_calendar :: "'p caldav \<Rightarrow> 'p dav \<Rightarrow> http_call \<Rightarrow> string \<Rightarrow> paths \<Rightarrow> string result \<times> paths" where
  "create_calendar p dv call name st =
     (if name = [] then (Inl (caldav_error ''calendar name required''), st)
      else case home_path dv st of
        (Inl e, st) \<Rightarrow> (Inl e, st)
      | (Inr home, st) \<Rightarrow>
          (case random_slug (dv_entropy dv) of
             Inl e \<Rightarrow> (Inl e, st)
           | Inr slug \<Rightarrow>
               (case calendar_request (cp_endpoint p) home slug name of
                  Inl e \<Rightarrow> (Inl e, st)
                | Inr (q, path) \<Rightarrow>
                    (case call q of
                       Inl e \<Rightarrow> (Inl (caldav_error ''mkcalendar''), st)
                     | Inr r \<Rightarrow> (if ok_status (hs_status r) then Inr path else Inl (caldav_error ''mkcalendar failed''), st)))))"

section \<open>The command\<close>

text \<open>Only the CalDAV provider has calendars to list; the result is the output, the error and the cached paths.\<close>

definition run_calendars ::
  "'p setup_out \<Rightarrow> 'p dav \<Rightarrow> http_call \<Rightarrow> string list \<Rightarrow> paths \<Rightarrow> (string \<times> error option) \<times> paths" where
  "run_calendars so dv call args st =
     (let (action, rest) = (case args of [] \<Rightarrow> (''list'', []) | a # r \<Rightarrow> (a, r)) in
      case new_provider so (resolve_provider (so_getenv so) []) (resolve_time_zone (so_getenv so) []) of
        Inl e \<Rightarrow> (([], Some e), st)
      | Inr (Caldav_Setup p) \<Rightarrow>
          (if action = ''list'' then
             (case list_calendars dv st of
                (Inl e, st) \<Rightarrow> (([], Some e), st)
              | (Inr cals, st) \<Rightarrow> ((concat (map (\<lambda>(name, path). name @ newline) cals), None), st))
           else if action = ''create'' then
             (case rest of
                [] \<Rightarrow> (([], Some (Errorf ''calendars create: give a calendar name'' [])), st)
              | name # others \<Rightarrow>
                  (case create_calendar p dv call name st of
                     (Inl e, st) \<Rightarrow> (([], Some e), st)
                   | (Inr path, st) \<Rightarrow>
                       ((''Created calendar '' @ go_quote name @ ''.'' @ newline
                         @ ''Use it with: export VAMOOSE_ICLOUD_CALENDAR='' @ go_quote name @ newline, None), st)))
           else (([], Some (Errorf (''calendars: unknown action '' @ go_quote action @ '' (use list or create)'') [])), st))
      | Inr other \<Rightarrow>
          (([], Some (Errorf ''calendars is supported only on the icloud provider; set VAMOOSE_PROVIDER=icloud'' [])), st))"

section \<open>What the theory establishes\<close>

text \<open>A reader of character data: up to the next tag, with the references of \<open>xml_char\<close> resolved.\<close>

definition xml_entity :: "string \<Rightarrow> char" where
  "xml_entity n =
     (if n = ''#34'' then CHR 0x22 else if n = ''#39'' then CHR 0x27 else if n = ''amp'' then CHR ''&'' else if n = ''lt'' then CHR ''<''
      else if n = ''gt'' then CHR ''>'' else if n = ''#x9'' then CHR 0x09 else if n = ''#xA'' then CHR 0x0A else CHR 0x0D)"

lemma cut_on_shorter: "cut_on c s = (a, b, f) \<Longrightarrow> length b \<le> length s"
  using cut_on_found[of c s a b] cut_on_not_found[of c s a b] cut_on_no_sep[of c s] by (cases f) auto

function xml_text :: "string \<Rightarrow> string \<times> string" where
  "xml_text [] = ([], [])"
| "xml_text (c # s) =
     (if c = CHR ''<'' then ([], c # s)
      else if c = CHR ''&'' then (case cut_on (CHR '';'') s of (n, r, found) \<Rightarrow> apfst (Cons (xml_entity n)) (xml_text r))
      else apfst (Cons c) (xml_text s))"
  by pat_completeness auto
termination by (relation "measure length") (auto dest!: cut_on_shorter[OF sym])

lemma xml_name_read: "xml_name c = Some n \<Longrightarrow> CHR '';'' \<notin> set n \<and> xml_entity n = c"
  by (unfold xml_name_def, auto split: if_split_asm) (simp_all add: xml_entity_def)

lemma xml_name_none: "xml_name c = None \<Longrightarrow> c \<noteq> CHR ''&'' \<and> c \<noteq> CHR ''<''"
  by (auto simp: xml_name_def)

lemma xml_char_read: "xml_allowed c \<Longrightarrow> xml_text (xml_char c @ r) = apfst (Cons c) (xml_text r)"
  using xml_name_read[of c] xml_name_none[of c] by (cases "xml_name c") (auto simp: xml_char_def)

lemma xml_escape_read:
  "list_all xml_allowed s \<Longrightarrow> xml_text (xml_escape s @ CHR ''<'' # r) = (s, CHR ''<'' # r)"
  by (induction s) (simp_all add: xml_escape_def xml_char_read)

lemma trim_plain_path:
  assumes "list_all plain_segment segs" and "segs \<noteq> []" and "e = [] \<or> e = ''/''"
  shows "trim_slashes (path_of segs @ e) = path_of segs"
proof -
  obtain init l where segs: "segs = init @ [l]" using assms(2) by (cases segs rule: rev_cases) auto
  have l: "l \<noteq> []" "CHR ''/'' \<notin> set l" using assms(1) plain_segment_no_slash[of l] by (auto simp: segs plain_segment_def)
  then obtain l' x where l': "l = l' @ [x]" "x \<noteq> CHR ''/''" by (cases l rule: rev_cases) auto
  then show ?thesis using assms(3) by (auto simp: trim_slashes_def segs path_of_def)
qed

lemma plain_slug_path:
  assumes "list_all plain_segment segs" and "list_all unreserved slug"
  shows "plain_path (path_of segs @ ''/vamoose-'' @ slug @ ''/'')"
proof -
  have "list_all unreserved ''vamoose-''" by code_simp
  then show ?thesis using path_of_plain[OF assms(1)] assms(2) by (cases segs) (auto simp: plain_path_def list_all_iff path_of_simps)
qed

lemma plain_host_written: "plain_host h \<Longrightarrow> port_text p \<Longrightarrow> escape_by host_char (h @ p) = h @ p"
proof -
  assume a: "plain_host h" "port_text p"
  have "host_char (CHR '':'')" by code_simp
  moreover have "unreserved c \<Longrightarrow> host_char c" for c using unreserved_plain(4) by (simp add: host_char_def)
  ultimately have "list_all host_char (h @ p)"
    using a plain_unreserved unfolding plain_host_def port_text_def list_all_iff by auto
  then show ?thesis by (rule escape_by_id)
qed

lemma plain_url_text:
  assumes "plain_host h" and "port_text p" and "plain_path pa" and "pa \<noteq> []" and "sch \<noteq> []"
  shows "url_text (no_url\<lparr>ur_scheme := sch, ur_host := h @ p, ur_path := pa\<rparr>) = sch @ ''://'' @ h @ p @ pa"
proof -
  have "hd pa = CHR ''/''" using assms(3,4) by (simp add: plain_path_def)
  moreover have "escaped_path (no_url\<lparr>ur_scheme := sch, ur_host := h @ p, ur_path := pa\<rparr>) = pa"
    using assms(3) by (subst escaped_plain_path) (simp_all add: no_url_def)
  ultimately show ?thesis
    using assms(1,5) plain_host_written[OF assms(1,2)] by (simp add: url_text_def plain_host_def no_url_def Let_def)
qed

text \<open>
  A new calendar is made in the home set under the name that was given. Whether the server reports its home set as a
  path or as the URL of another host, with or without a slash at the end, the request goes to that home set of that
  host, the path that is reported is the one the calendar was made at, and the display name an XML reader finds in the
  request is the name, whatever characters of markup it holds.
\<close>

theorem new_calendar_in_home:
  assumes "scheme_text sch" and "plain_host h" and "port_text p" and "e = [] \<or> e = ''/''"
    and "list_all plain_segment segs" and "segs \<noteq> []" and "f = [] \<or> f = ''/''" and "list_all unreserved slug"
    and "list_all xml_allowed name"
    and "other = [] \<and> origin = to_lower sch @ ''://'' @ h @ p
      \<or> (\<exists>sch2 h2 p2. scheme_text sch2 \<and> plain_host h2 \<and> port_text p2 \<and> other = sch2 @ ''://'' @ h2 @ p2
           \<and> origin = to_lower sch2 @ ''://'' @ h2 @ p2)"
  shows "\<exists>q. calendar_request (sch @ ''://'' @ h @ p @ e) (other @ path_of segs @ f) slug name
      = Inr (q, path_of segs @ ''/vamoose-'' @ slug @ ''/'')
    \<and> hq_url q = origin @ path_of segs @ ''/vamoose-'' @ slug @ ''/''
    \<and> xml_text (drop (length mkcalendar_head) (hq_body q)) = (name, mkcalendar_tail)"
proof -
  let ?new = "path_of segs @ ''/vamoose-'' @ slug @ ''/''" and ?home = "path_of segs @ f"
  have pe: "plain_path e" using assms(4) by (auto simp: plain_path_def)
  have ph: "plain_path ?home" using path_of_plain[OF assms(5)] assms(6,7)
    by (cases segs) (auto simp: plain_path_def list_all_iff path_of_simps)
  have pn: "plain_path ?new" by (rule plain_slug_path[OF assms(5,8)])
  obtain s ss where segs: "segs = s # ss" using assms(6) by (cases segs) auto
  have ne: "?home \<noteq> []" "?new \<noteq> []" by (simp_all add: segs path_of_simps)
  have "s \<noteq> []" "CHR ''/'' \<notin> set s" using assms(5) plain_segment_no_slash by (auto simp: segs plain_segment_def)
  then have single: "\<not> has_prefix ?home ''//''" by (cases s) (auto simp: segs path_of_simps)
  have base: "parse_url (sch @ ''://'' @ h @ p @ e) = Some (no_url\<lparr>ur_scheme := to_lower sch, ur_host := h @ p, ur_path := e\<rparr>)"
    by (rule parse_plain_url[OF assms(1-3) pe])
  have tail: "mkcalendar_tail = CHR ''<'' # tl mkcalendar_tail" by (simp add: mkcalendar_tail_def Let_def)
  have body: "xml_text (drop (length mkcalendar_head) (mkcalendar_body name)) = (name, mkcalendar_tail)"
    using xml_escape_read[OF assms(9), of "tl mkcalendar_tail"] tail by (simp add: mkcalendar_body_def)
  have put: "put_path ?home u = u\<lparr>ur_path := ?home, ur_raw_path := []\<rparr>" for u
    by (simp add: put_path_def set_plain_path[OF ph])
  obtain sc hh pp where target: "plain_host hh" "port_text pp" "sc \<noteq> []" "origin = sc @ ''://'' @ hh @ pp"
    and res: "\<exists>ref. parse_url (other @ ?home) = Some ref \<and>
      resolve_reference (no_url\<lparr>ur_scheme := to_lower sch, ur_host := h @ p, ur_path := e\<rparr>) ref
        = no_url\<lparr>ur_scheme := sc, ur_host := hh @ pp, ur_path := ?home\<rparr>"
    using assms(10)
  proof (elim disjE exE conjE)
    assume o: "other = []" "origin = to_lower sch @ ''://'' @ h @ p"
    have "escaped_path (no_url\<lparr>ur_path := ?home\<rparr>) = ?home" using ph by (subst escaped_plain_path) (simp_all add: no_url_def)
    moreover have "resolve_path b ?home = ?home" for b by (rule resolve_plain_path(1)[OF assms(5,6,7)])
    ultimately have "resolve_reference (no_url\<lparr>ur_scheme := to_lower sch, ur_host := h @ p, ur_path := e\<rparr>) (no_url\<lparr>ur_path := ?home\<rparr>)
        = no_url\<lparr>ur_scheme := to_lower sch, ur_host := h @ p, ur_path := ?home\<rparr>"
      using ne(1) put by (simp add: resolve_reference_def no_url_def Let_def)
    then show thesis
      using that[of h p "to_lower sch"] assms(1-3) o parse_plain_path[OF ph ne(1) single] by (auto simp: scheme_text_def to_lower_def)
  next
    fix sch2 h2 p2
    assume o: "scheme_text sch2" "plain_host h2" "port_text p2" "other = sch2 @ ''://'' @ h2 @ p2" "origin = to_lower sch2 @ ''://'' @ h2 @ p2"
    let ?ref = "no_url\<lparr>ur_scheme := to_lower sch2, ur_host := h2 @ p2, ur_path := ?home\<rparr>"
    have "escaped_path ?ref = ?home" using ph by (subst escaped_plain_path) (simp_all add: no_url_def)
    moreover have "resolve_path ?home [] = ?home" by (rule resolve_plain_path(2)[OF assms(5,6,7)])
    moreover have sc: "to_lower sch2 \<noteq> []" using o(1) by (simp add: scheme_text_def to_lower_def)
    ultimately have "resolve_reference (no_url\<lparr>ur_scheme := to_lower sch, ur_host := h @ p, ur_path := e\<rparr>) ?ref = ?ref"
      using put by (simp add: resolve_reference_def no_url_def Let_def)
    then show thesis
      using that[of h2 p2 "to_lower sch2"] o sc parse_plain_url[OF o(1-3) ph] by auto
  qed
  from res obtain ref where ref: "parse_url (other @ ?home) = Some ref"
    "resolve_reference (no_url\<lparr>ur_scheme := to_lower sch, ur_host := h @ p, ur_path := e\<rparr>) ref
      = no_url\<lparr>ur_scheme := sc, ur_host := hh @ pp, ur_path := ?home\<rparr>" by blast
  have "trim_slashes ?home = path_of segs" by (rule trim_plain_path[OF assms(5,6,7)])
  then show ?thesis
    using plain_url_text[OF target(1,2) pn ne(2) target(3)] body
    unfolding calendar_request_def base ref(1) option.case Let_def ref(2) target(4) by (simp add: no_url_def)
qed

theorem new_calendar_in_home_witness:
  "\<exists>q. calendar_request ''https://caldav.icloud.com'' ''https://p42-caldav.icloud.com:443/123/calendars/'' ''00ff'' ''R&D <team>''
      = Inr (q, ''/123/calendars/vamoose-00ff/'')
    \<and> hq_url q = ''https://p42-caldav.icloud.com:443/123/calendars/vamoose-00ff/''
    \<and> xml_text (drop (length mkcalendar_head) (hq_body q)) = (''R&D <team>'', mkcalendar_tail)"
proof -
  have sch: "scheme_text ''https''" and l: "to_lower ''https'' = ''https''" and h: "plain_host ''caldav.icloud.com''"
    and segs: "list_all plain_segment [''123'', ''calendars'']" and slug: "list_all unreserved ''00ff''"
    and name: "list_all xml_allowed ''R&D <team>''" and h2: "plain_host ''p42-caldav.icloud.com''" and d: "list_all is_digit ''443''"
    by code_simp+
  have p: "port_text []" "port_text '':443''" using d by (simp_all add: port_text_def)
  have "''https://p42-caldav.icloud.com:443'' = ''https'' @ ''://'' @ ''p42-caldav.icloud.com'' @ '':443''" by simp
  then have o: "\<exists>sch2 h2 p2. scheme_text sch2 \<and> plain_host h2 \<and> port_text p2 \<and> ''https://p42-caldav.icloud.com:443'' = sch2 @ ''://'' @ h2 @ p2
      \<and> ''https://p42-caldav.icloud.com:443'' = to_lower sch2 @ ''://'' @ h2 @ p2"
    using sch h2 p(2) l by metis
  have ps: "path_of [''123'', ''calendars''] = ''/123/calendars''" by (simp add: path_of_def)
  show ?thesis
    using new_calendar_in_home[OF sch h p(1) disjI1[OF refl] segs _ disjI2[OF refl] slug name disjI2[OF o]] unfolding ps by simp
qed

text \<open>
  The command works on any CalDAV server and then tells its user to set a variable that only the iCloud provider reads: the
  provider \<open>caldav\<close> is the same whatever that variable holds.
\<close>

theorem calendar_advice_ignored:
  "new_provider (so\<lparr>so_getenv := (so_getenv so)(''VAMOOSE_ICLOUD_CALENDAR'' := name)\<rparr>) ''caldav'' tz = new_provider so ''caldav'' tz"
  by (simp add: new_provider_names new_caldav_provider_def open_caldav_def Let_def)

end
