(* ===== verification/Spec2Isabelle.thy ===== *)
theory Spec2Isabelle
  imports Templates Atomic_File Schedule Run_Properties Daemon_Properties Slack_Properties Graph_Properties Hris Comms Mcp_Properties Provider_Setup Tray Daemon_Lock Slack_Linkers Calendars
begin

text \<open>
  A verification development for vamoose, a program that runs time-off workflows over calendars: it
  creates a hold, waits for an approver, then notifies a team, posts messages or files leave, and a
  daemon advances the runs that wait, and a Slack server, an MCP server and a local dashboard run the same commands for others.

  The program's parts and the theories that model them, in the order they build on each other.

  \<^item> \<open>Vamoose_Prelude\<close>: errors and their wrapping, results, files that are absent, unreadable or hold a
    value, and generic lemmas. \<open>Go_Strings\<close>, \<open>Go_Time\<close>, \<open>Go_Date_Text\<close>: the functions of the Go standard
    library the program uses: strings, durations, civil dates, zones with transitions, \<open>AddDate\<close>,
    \<open>time.Parse\<close>. A location is a base offset and a list of transitions.
  \<^item> \<open>Calendar\<close> (\<open>internal/calendar\<close>): holds, attendees, enumerations, the provider registry.
  \<^item> \<open>Workflow\<close> (\<open>internal/workflow/workflow.go\<close>): steps, guards, \<open>Next\<close>, \<open>hasCycle\<close> and \<open>Validate\<close> with its
    errors in the order of the code. \<open>Workflow_Spec\<close>: what a well-formed workflow is, and that
    \<open>Validate\<close> decides it.
  \<^item> \<open>Loader\<close> and \<open>Templates\<close> (\<open>internal/workflow/load.go\<close>, \<open>cmd/workflows.go\<close>): decoding, loading, listing,
    saving and removing definitions, and the ten embedded templates.
  \<^item> \<open>Workdays\<close> (\<open>internal/workdays\<close>), \<open>When\<close> (\<open>cmd/when.go\<close>): the working-day count and date phrases.
  \<^item> \<open>Coverage\<close> (\<open>internal/coverage\<close>, \<open>cmd/coverage.go\<close>) and \<open>Stores\<close> (\<open>cmd/watch.go\<close>, \<open>cmd/state.go\<close>,
    \<open>cmd/team.go\<close>, \<open>internal/audit\<close>, \<open>cmd/history.go\<close>): the JSON files of the configuration directory, as
    functions from file to file. \<open>Atomic_File\<close> (\<open>internal/util/atomicfile.go\<close>): why a file is replaced in
    one step, with what is on disk told from what is only written. \<open>Store_Json\<close>: the text of these files, and that a file comes back as it was written.
  \<^item> \<open>World\<close>: the outside (provider, directory, notifier, HR system, clock, file system failures) as
    functions of a call counter, and the state of the program: its files and the trace of effects
    the services accepted. \<open>Actions\<close>: what a step does (\<open>cmd/promote.go\<close>, \<open>cmd/team.go\<close>, \<open>cmd/cancel.go\<close>,
    \<open>cmd/check.go\<close>). \<open>Run\<close> (\<open>cmd/run.go\<close>): creating the hold and walking the steps. \<open>Daemon\<close>
    (\<open>cmd/daemon.go\<close>): gates, branches and polling. \<open>Crash\<close>: the machine of the daemon's atomic steps with
    crashes between them. \<open>Schedule\<close> (\<open>cmd/schedule.go\<close>): recurring runs. \<open>Daemon_Lock\<close> (\<open>cmd/daemon.go\<close>,
    \<open>internal/util/filelock_unix.go\<close>): any number of daemon processes over the lock file, system call by system
    call, and the loop of the one that holds it.
  \<^item> \<open>Commands\<close> (\<open>cmd/execute.go\<close>, \<open>cmd/off.go\<close>, \<open>cmd/run.go\<close> and their neighbours): flags, the commands that
    make a hold with what they print, the dry-run preview, check, promote, cancel and the exit codes.
  \<^item> \<open>Go_Codec\<close>, \<open>Go_Json\<close>, \<open>Go_Url\<close>: hexadecimal and base64, \<open>encoding/json\<close> (writing in any layout and
    scanning), URL queries. \<open>Secret\<close> (\<open>internal/secret\<close>, \<open>internal/boltstore\<close>): keys, sealing, the sealed
    database. \<open>Metrics\<close> (\<open>internal/metrics\<close>): counters and gauges as 64 bit words.
  \<^item> \<open>Slack_Text\<close>, \<open>Slack_Stores\<close>, \<open>Slack_Server\<close>, \<open>Slack_Flows\<close> (\<open>internal/slack\<close>): the text the server reads
    and writes; one-time tokens and the token and link stores; the server's state, request signatures,
    approval values and the commands it runs; the handlers of every route. \<open>Slack_Link\<close> (\<open>cmd/slack.go\<close>,
    \<open>cmd/slacklink.go\<close>): the environment of a command run for a linked user, and the set-up of the server.
    \<open>Slack_Safety\<close>: how the server's trace grows, and that every approval value on a button was issued.
    \<open>Slack_Api\<close>: the JSON the server posts, with its buttons and the form for credentials, the calls of Slack's web
    API, and what Slack sends back. \<open>Slack_Linkers\<close> (\<open>cmd/slacklink.go\<close>): the linkers over the authenticators.
  \<^item> \<open>Go_Http\<close>: HTTP requests and responses, JSON bodies, path escaping and the client the providers share.
    \<open>Graph\<close> (\<open>internal/graph\<close>): the Microsoft Graph provider, and the outside of a program that runs on it.
    \<open>Hris\<close> (\<open>internal/hris\<close>): filing leave. \<open>Comms\<close> (\<open>internal/comms\<close>): routing, mail, Slack and webhook posts.
    \<open>Mcp\<close> (\<open>internal/mcp\<close>): the Model Context Protocol server over any tools; \<open>Mcp_Tools\<close> (\<open>cmd/mcp.go\<close>): the
    tools of vamoose and the command lines they run.
  \<^item> \<open>Go_Rfc3339\<close>: timestamps are read as they were written. \<open>Google\<close> (\<open>internal/google\<close>): the Google Calendar
    provider. \<open>Caldav\<close> (\<open>internal/caldav\<close>): the CalDAV provider over an iCalendar library and a CalDAV client
    that are arguments, with what the library documents as a hypothesis; \<open>EventKit\<close> (\<open>internal/eventkit\<close>): the
    answers the macOS calendar knows. \<open>Go_Url_Resolve\<close>: \<open>net/url\<close> from text to URL, resolved and back to text;
    \<open>Calendars\<close> (\<open>internal/caldav\<close>, \<open>cmd/calendars.go\<close>): making a calendar in the home set of the account.
  \<^item> \<open>Sign_In\<close> (\<open>internal/auth\<close>): tokens, their stores and \<open>Token\<close>, which both authenticators share;
    \<open>Device_Flow\<close> (\<open>internal/auth/device.go\<close>): the Microsoft authenticator; \<open>Google_Sign_In\<close>
    (\<open>internal/googleauth\<close>): the loopback flow with PKCE. \<open>Provider_Setup\<close> (\<open>cmd/provider.go\<close>): which provider
    and credentials the environment selects, also for the commands the Slack server runs for a user. \<open>Doctor\<close> (\<open>cmd/doctor.go\<close>): the report on the
    environment, against what the factories require.
  \<^item> \<open>Go_Origin\<close>: the host part of \<open>url.Parse\<close>, on origins of any scheme, host name or IPv6 address. \<open>App\<close> (\<open>cmd/app.go\<close>): the local dashboard, its routes and handlers over
    a state of workflow files, schedules and world; \<open>App_Properties\<close>: who can drive it, what a preview does, that
    its stores stay within their limits. \<open>Listings\<close> (\<open>cmd/workflows.go\<close>, \<open>cmd/schedule.go\<close>, \<open>cmd/history.go\<close>,
    \<open>cmd/coverage.go\<close>, \<open>cmd/team.go\<close>, \<open>cmd/whoami.go\<close>, \<open>cmd/login.go\<close>, \<open>cmd/balance.go\<close>, \<open>cmd/service.go\<close>): the commands that
    show and edit the stores, and the service manifests. \<open>Tray\<close> (\<open>cmd/tray.go\<close>, \<open>cmd/tray_gui.go\<close>): the client of the
    dashboard, its menu and the processes it starts.
  \<^item> \<open>Scenario\<close>, \<open>Run_Properties\<close>, \<open>Daemon_Properties\<close>, \<open>Slack_Properties\<close>, \<open>Graph_Properties\<close>,
    \<open>Mcp_Properties\<close>: a concrete outside and workflow, and what runs, the daemon, the Slack server, runs on
    Graph and the MCP server establish, alone and together with the commands. The claims about a single
    component stand at the end of its theory.

  Interfaces are locales: \<open>text_enum\<close> (an enumeration and its text), interpreted on every enumeration of
  the workflow format; \<open>keyed_store\<close>, interpreted on the watch list; \<open>json_layout\<close> (an encoder whose output
  scans back), on the compact and the indented encoder; \<open>one_time_tokens\<close>, on the install and the link
  tokens; \<open>value_store\<close> (saved values are found again), on each file and database store of the server;
  \<open>token_storage\<close> (a saved token is loaded, and loading again gives the same), on the token stores; \<open>record_codec\<close> (what is
  written for a record reads back as it), on the records of the four list files; \<open>hold_server\<close> (what the
  tray relies on in the server it talks to), on the dashboard.

  Loops: \<open>walkSteps\<close> is a function whose termination is the number of unvisited steps; the day count is a
  partial function, \<open>None\<close> being a loop that does not end; the cycle search terminates on the number of
  white steps; the poll for a device code is a partial function that ends on a clock that does not run backwards and passes
  the waits of the loop; the daemon's polling is a step relation, from the read of the watch list to the item \<open>pollAll\<close>
  keeps, with a rule for every way an advance ends (done, gone, unreadable, pending, failed, ended, at the next gate).

  What the outside is assumed to do is a hypothesis on what the program sends it: Google keeps the event in the body
  of the request (\<open>inserts_events\<close>), a CalDAV server keeps the object it accepted (\<open>keeps_objects\<close>), the iCalendar
  library reads what it wrote (\<open>ical_lawful\<close>), a file system loses in a crash what was not flushed (\<open>crash_loses\<close>).
  \<open>quote_char\<close> writes the bytes above 127 as they are, which is what \<open>encoding/json\<close> does with UTF-8; the theorem on the
  files of the configuration directory assumes such text (\<open>as_is_text\<close>). Durations of the device flow wrap at 64 bits.

  The Slack server reads requests one at a time: a request is one step from server state to server state,
  so the interleaving of the goroutines behind a request is not a behaviour of the model. Signatures are a
  function of secret and text, the cipher and random bytes arguments.

  Not modelled: the balance readers and the figures \<open>balance\<close> prints (floating point), lock files on Windows, the log of the daemon and the servers, the pages of the dashboard and the sign-in, the widgets
  and icons of the tray, the help text, and process and HTTP transport.
\<close>

end
